(* ===== verification/JsBase.thy ===== *)
theory JsBase
  imports Complex_Main "HOL-Library.Sublist" "HOL-Library.Multiset" "HOL-Library.Code_Target_Nat"
begin

text \<open>
  Prelude: the fragment of JavaScript that the LuCI front end of LAN Speed uses.

  \<^item> Numbers (\<open>jnum\<close>) are the finite rationals together with NaN and the two infinities.
    Rounding to binary64 and the sign of zero are not modelled: on the integers up to
    \<open>2 ^ 53 - 1\<close>, which is what the RPC contracts carry, the arithmetic is exact.
  \<^item> Strings are lists of characters, that is, strings of code units below 256; on those
    code units case conversion and white space are the ones of ECMAScript.
  \<^item> A value (\<open>jval\<close>) is undefined, null, a boolean, a number, a string, an array or an
    object; an object is the list of its own enumerable properties in insertion order.
    \<open>JProto k\<close> is the member \<open>k\<close> that every object literal inherits from
    \<open>Object.prototype\<close> (a truthy value that is no own property).
  \<^item> Texts (\<open>mtext\<close>) are what the user reads: \<open>Tr m\<close> stands for the translation
    \<open>_(...)\<close> of one message of the source, named here by an English gloss.

  The second half holds the string functions of the standard library and the lemmas on
  strings, decimal numerals and first-occurrence filtering shared by the components.
\<close>

named_theorems js_defs \<open>definitions of the JavaScript operators\<close>

section \<open>Numbers\<close>

datatype jnum = NaN | PInf | NInf | Fin rat

fun nadd :: "jnum \<Rightarrow> jnum \<Rightarrow> jnum" where
  "nadd (Fin a) (Fin b) = Fin (a + b)"
| "nadd NaN _ = NaN"
| "nadd _ NaN = NaN"
| "nadd PInf NInf = NaN"
| "nadd NInf PInf = NaN"
| "nadd PInf _ = PInf"
| "nadd _ PInf = PInf"
| "nadd NInf _ = NInf"
| "nadd _ NInf = NInf"

fun nneg :: "jnum \<Rightarrow> jnum" where
  "nneg NaN = NaN"
| "nneg PInf = NInf"
| "nneg NInf = PInf"
| "nneg (Fin a) = Fin (- a)"

definition nsub :: "jnum \<Rightarrow> jnum \<Rightarrow> jnum" where
  "nsub a b = nadd a (nneg b)"

text \<open>Multiplication and division by a finite positive constant, the only ones used.\<close>

fun nscale :: "rat \<Rightarrow> jnum \<Rightarrow> jnum" where
  "nscale k NaN = NaN"
| "nscale k PInf = PInf"
| "nscale k NInf = NInf"
| "nscale k (Fin a) = Fin (k * a)"

fun nlt :: "jnum \<Rightarrow> jnum \<Rightarrow> bool" where
  "nlt (Fin a) (Fin b) = (a < b)"
| "nlt NInf (Fin b) = True"
| "nlt (Fin a) PInf = True"
| "nlt NInf PInf = True"
| "nlt _ _ = False"

fun nle :: "jnum \<Rightarrow> jnum \<Rightarrow> bool" where
  "nle NaN _ = False"
| "nle _ NaN = False"
| "nle (Fin a) (Fin b) = (a \<le> b)"
| "nle NInf _ = True"
| "nle _ PInf = True"
| "nle _ _ = False"

fun isFinite :: "jnum \<Rightarrow> bool" where
  "isFinite (Fin a) = True"
| "isFinite _ = False"

text \<open>\<open>Math.floor(v) === v\<close> on a finite number.\<close>

fun isIntegral :: "jnum \<Rightarrow> bool" where
  "isIntegral (Fin a) = (of_int \<lfloor>a\<rfloor> = a)"
| "isIntegral _ = False"

fun nmax :: "jnum \<Rightarrow> jnum \<Rightarrow> jnum" where
  "nmax NaN _ = NaN"
| "nmax _ NaN = NaN"
| "nmax a b = (if nlt a b then b else a)"

fun nmin :: "jnum \<Rightarrow> jnum \<Rightarrow> jnum" where
  "nmin NaN _ = NaN"
| "nmin _ NaN = NaN"
| "nmin a b = (if nlt b a then b else a)"

text \<open>\<open>Math.floor\<close> and \<open>Math.round\<close> (ties towards plus infinity).\<close>

fun nfloor :: "jnum \<Rightarrow> jnum" where
  "nfloor (Fin a) = Fin (of_int \<lfloor>a\<rfloor>)"
| "nfloor n = n"

fun nround :: "jnum \<Rightarrow> jnum" where
  "nround (Fin a) = Fin (of_int \<lfloor>a + 1/2\<rfloor>)"
| "nround n = n"

definition MAX_SAFE_INTEGER :: rat where
  "MAX_SAFE_INTEGER = 9007199254740991"

section \<open>Characters and strings\<close>

definition code :: "char \<Rightarrow> nat" where
  "code c = of_char c"

definition isDigit :: "char \<Rightarrow> bool" where
  "isDigit c \<longleftrightarrow> 48 \<le> code c \<and> code c \<le> 57"

definition isUpperAz :: "char \<Rightarrow> bool" where
  "isUpperAz c \<longleftrightarrow> 65 \<le> code c \<and> code c \<le> 90"

definition isLowerAz :: "char \<Rightarrow> bool" where
  "isLowerAz c \<longleftrightarrow> 97 \<le> code c \<and> code c \<le> 122"

text \<open>The class \<open>[0-9a-f]\<close>.\<close>

definition isHexLower :: "char \<Rightarrow> bool" where
  "isHexLower c \<longleftrightarrow> isDigit c \<or> (97 \<le> code c \<and> code c \<le> 102)"

text \<open>The class \<open>\s\<close> of regular expressions, which is also what \<open>trim\<close> removes.\<close>

definition isSpace :: "char \<Rightarrow> bool" where
  "isSpace c \<longleftrightarrow> (9 \<le> code c \<and> code c \<le> 13) \<or> code c = 32 \<or> code c = 160"

definition lowerChar :: "char \<Rightarrow> char" where
  "lowerChar c = (if isUpperAz c \<or> (192 \<le> code c \<and> code c \<le> 222 \<and> code c \<noteq> 215)
                  then char_of (code c + 32) else c)"

definition toLowerCase :: "string \<Rightarrow> string" where
  "toLowerCase s = map lowerChar s"

definition trimBy :: "(char \<Rightarrow> bool) \<Rightarrow> string \<Rightarrow> string" where
  "trimBy P s = rev (dropWhile P (rev (dropWhile P s)))"

definition jtrim :: "string \<Rightarrow> string" where
  "jtrim s = trimBy isSpace s"

text \<open>\<open>s.split(c)\<close> for a one-character separator.\<close>

fun splitChar :: "char \<Rightarrow> string \<Rightarrow> string list" where
  "splitChar d [] = [[]]"
| "splitChar d (c # cs) = (if c = d then [] # splitChar d cs
     else (case splitChar d cs of [] \<Rightarrow> [[c]] | w # ws \<Rightarrow> (c # w) # ws))"

text \<open>\<open>s.split(dd)\<close> for a separator made of one character twice, such as \<open>::\<close>.\<close>

fun splitDouble :: "char \<Rightarrow> string \<Rightarrow> string list" where
  "splitDouble d [] = [[]]"
| "splitDouble d [c] = [[c]]"
| "splitDouble d (c # e # cs) = (if c = d \<and> e = d then [] # splitDouble d cs
     else (case splitDouble d (e # cs) of [] \<Rightarrow> [[c]] | w # ws \<Rightarrow> (c # w) # ws))"

text \<open>
  \<open>s.split(/[class]+/).filter(Boolean)\<close>: the maximal runs of characters outside the class.
\<close>

function splitWords :: "(char \<Rightarrow> bool) \<Rightarrow> string \<Rightarrow> string list" where
  "splitWords P s = (case dropWhile P s of
      [] \<Rightarrow> []
    | c # cs \<Rightarrow> (c # takeWhile (\<lambda>x. \<not> P x) cs) # splitWords P (dropWhile (\<lambda>x. \<not> P x) cs))"
  by pat_completeness auto
termination
proof (relation "measure (\<lambda>(P, s). length s)", goal_cases)
  case 1
  show ?case by simp
next
  case (2 P s c cs)
  have "length (dropWhile (\<lambda>x. \<not> P x) cs) \<le> length cs" by (rule length_dropWhile_le)
  moreover have "length (c # cs) \<le> length s"
    using length_dropWhile_le [of P s] 2 by simp
  ultimately show ?case by simp
qed

declare splitWords.simps [simp del]

fun joinStr :: "string \<Rightarrow> string list \<Rightarrow> string" where
  "joinStr sep [] = []"
| "joinStr sep [w] = w"
| "joinStr sep (w # v # ws) = w @ sep @ joinStr sep (v # ws)"

section \<open>Numerals\<close>

definition digitVal :: "char \<Rightarrow> nat" where
  "digitVal c = code c - 48"

definition digitChar :: "nat \<Rightarrow> char" where
  "digitChar n = char_of (n + 48)"

definition decVal :: "string \<Rightarrow> nat" where
  "decVal s = foldl (\<lambda>a c. 10 * a + digitVal c) 0 s"

definition hexDigitVal :: "char \<Rightarrow> nat" where
  "hexDigitVal c = (if isDigit c then code c - 48
     else if 97 \<le> code c then code c - 87 else code c - 55)"

definition radixVal :: "nat \<Rightarrow> string \<Rightarrow> nat" where
  "radixVal r s = foldl (\<lambda>a c. r * a + hexDigitVal c) 0 s"

fun showNat :: "nat \<Rightarrow> string" where
  "showNat n = (if n < 10 then [digitChar n] else showNat (n div 10) @ [digitChar (n mod 10)])"

declare showNat.simps [simp del]

definition showInt :: "int \<Rightarrow> string" where
  "showInt i = (if i < 0 then CHR ''-'' # showNat (nat (- i)) else showNat (nat i))"

text \<open>Up to \<open>k\<close> decimals of a fraction in \<open>[0, 1)\<close>, without trailing zeros.\<close>

fun showFraction :: "nat \<Rightarrow> rat \<Rightarrow> string" where
  "showFraction 0 q = []"
| "showFraction (Suc k) q = (if q = 0 then []
     else digitChar (nat \<lfloor>q * 10\<rfloor>) # showFraction k (frac (q * 10)))"

text \<open>
  \<open>String(n)\<close>: exact on integers below \<open>10 ^ 21\<close> and on fractions whose decimal
  expansion ends within twenty digits.
\<close>

fun numToString :: "jnum \<Rightarrow> string" where
  "numToString NaN = ''NaN''"
| "numToString PInf = ''Infinity''"
| "numToString NInf = ''-Infinity''"
| "numToString (Fin q) = (if of_int \<lfloor>q\<rfloor> = q then showInt \<lfloor>q\<rfloor>
     else (if q < 0 then ''-'' else []) @ showInt \<lfloor>\<bar>q\<bar>\<rfloor> @ ''.'' @ showFraction 20 (frac \<bar>q\<bar>))"

text \<open>\<open>Number(s)\<close>: the grammar StringNumericLiteral of ECMAScript.\<close>

definition pow10 :: "int \<Rightarrow> rat" where
  "pow10 e = (if 0 \<le> e then 10 ^ nat e else 1 / 10 ^ nat (- e))"

definition parseExponent :: "string \<Rightarrow> int option" where
  "parseExponent s = (case s of
     [] \<Rightarrow> Some 0
   | c # r \<Rightarrow> if c \<noteq> CHR ''e'' \<and> c \<noteq> CHR ''E'' then None
       else (let neg = (r \<noteq> [] \<and> hd r = CHR ''-'');
                 ds = (if r \<noteq> [] \<and> (hd r = CHR ''-'' \<or> hd r = CHR ''+'') then tl r else r)
             in if ds \<noteq> [] \<and> list_all isDigit ds
                then Some (if neg then - int (decVal ds) else int (decVal ds)) else None))"

definition parseUnsignedDecimal :: "string \<Rightarrow> jnum" where
  "parseUnsignedDecimal s = (if s = ''Infinity'' then PInf else
     (let ip = takeWhile isDigit s; r = dropWhile isDigit s;
          dotted = (r \<noteq> [] \<and> hd r = CHR ''.'');
          fp = (if dotted then takeWhile isDigit (tl r) else []);
          r2 = (if dotted then dropWhile isDigit (tl r) else r)
      in if ip = [] \<and> fp = [] then NaN
         else (case parseExponent r2 of None \<Rightarrow> NaN
               | Some e \<Rightarrow> Fin (of_nat (decVal (ip @ fp)) * pow10 (e - int (length fp))))))"

definition parseRadix :: "nat \<Rightarrow> (char \<Rightarrow> bool) \<Rightarrow> string \<Rightarrow> jnum" where
  "parseRadix r P s = (if s \<noteq> [] \<and> list_all P s then Fin (of_nat (radixVal r s)) else NaN)"

definition isHexAny :: "char \<Rightarrow> bool" where
  "isHexAny c \<longleftrightarrow> isHexLower c \<or> (65 \<le> code c \<and> code c \<le> 70)"

definition strToNumber :: "string \<Rightarrow> jnum" where
  "strToNumber raw = (let s = jtrim raw; p = take 2 s in
     if s = [] then Fin 0
     else if p = ''0x'' \<or> p = ''0X'' then parseRadix 16 isHexAny (drop 2 s)
     else if p = ''0o'' \<or> p = ''0O'' then parseRadix 8 (\<lambda>c. 48 \<le> code c \<and> code c \<le> 55) (drop 2 s)
     else if p = ''0b'' \<or> p = ''0B'' then parseRadix 2 (\<lambda>c. 48 \<le> code c \<and> code c \<le> 49) (drop 2 s)
     else if hd s = CHR ''-'' then nneg (parseUnsignedDecimal (tl s))
     else if hd s = CHR ''+'' then parseUnsignedDecimal (tl s)
     else parseUnsignedDecimal s)"

text \<open>\<open>replace\<close> of every run of at least \<open>n\<close> characters by a blank.\<close>

function replaceRuns :: "nat \<Rightarrow> (char \<Rightarrow> bool) \<Rightarrow> string \<Rightarrow> string" where
  "replaceRuns n P [] = []"
| "replaceRuns n P (c # cs) = (if \<not> P c then c # replaceRuns n P cs
     else (let run = c # takeWhile P cs
           in (if n \<le> length run then '' '' else run) @ replaceRuns n P (dropWhile P cs)))"
  by pat_completeness auto
termination by (relation "measure (\<lambda>(n, P, s). length s)") (auto simp: le_imp_less_Suc length_dropWhile_le)

text \<open>
  \<open>toUpperCase\<close>; the two characters whose capital is outside the range of the model, the
  micro sign and y with diaeresis, are kept.
\<close>

definition upperChar :: "char \<Rightarrow> string" where
  "upperChar c = (if isLowerAz c \<or> (224 \<le> code c \<and> code c \<le> 254 \<and> code c \<noteq> 247) then [char_of (code c - 32)]
     else if code c = 223 then ''SS'' else [c])"

definition toUpperCase :: "string \<Rightarrow> string" where
  "toUpperCase s = concat (map upperChar s)"

section \<open>Values\<close>

datatype jval = JUndef | JNull | JBool bool | JNum jnum | JStr string
  | JArr "jval list" | JObj "(string \<times> jval) list" | JProto string

type_synonym props = "(string \<times> jval) list"

abbreviation num :: "rat \<Rightarrow> jval" where "num q \<equiv> JNum (Fin q)"

text \<open>The properties every object literal inherits.\<close>

definition protoKeys :: "string list" where
  "protoKeys = [''constructor'', ''__defineGetter__'', ''__defineSetter__'', ''hasOwnProperty'',
     ''__lookupGetter__'', ''__lookupSetter__'', ''isPrototypeOf'', ''propertyIsEnumerable'',
     ''toString'', ''valueOf'', ''__proto__'', ''toLocaleString'']"

text \<open>
  \<open>o.k\<close> (an absent property is undefined) and \<open>hasOwnProperty\<close>. Reading a property of
  null or undefined throws in the source; it is \<open>JUndef\<close> here, and every definition that
  reads a property of a possibly null value writes the throw out.
\<close>

fun jget :: "jval \<Rightarrow> string \<Rightarrow> jval" where
  "jget (JObj ps) k = (case map_of ps k of Some v \<Rightarrow> v
     | None \<Rightarrow> if k \<in> set protoKeys then JProto k else JUndef)"
| "jget (JArr xs) k = (if k = ''length'' then num (of_nat (length xs)) else JUndef)"
| "jget (JStr s) k = (if k = ''length'' then num (of_nat (length s)) else JUndef)"
| "jget _ k = JUndef"

declare jget.simps [simp del]

fun hasOwn :: "jval \<Rightarrow> string \<Rightarrow> bool" where
  "hasOwn (JObj ps) k = (map_of ps k \<noteq> None)"
| "hasOwn _ k = False"

fun objectKeys :: "jval \<Rightarrow> string list" where
  "objectKeys (JObj ps) = remdups (map fst ps)"
| "objectKeys _ = []"

fun truthy :: "jval \<Rightarrow> bool" where
  "truthy JUndef = False"
| "truthy JNull = False"
| "truthy (JBool b) = b"
| "truthy (JNum n) = (n \<noteq> NaN \<and> n \<noteq> Fin 0)"
| "truthy (JStr s) = (s \<noteq> [])"
| "truthy _ = True"

definition jor :: "jval \<Rightarrow> jval \<Rightarrow> jval" where
  "jor a b = (if truthy a then a else b)"

text \<open>\<open>v && v.k\<close>, the guarded property access.\<close>

definition jfield :: "jval \<Rightarrow> string \<Rightarrow> jval" where
  "jfield v k = (if truthy v then jget v k else v)"

definition nullish :: "jval \<Rightarrow> bool" where
  "nullish v \<longleftrightarrow> v = JUndef \<or> v = JNull"

fun isArr :: "jval \<Rightarrow> bool" where
  "isArr (JArr _) = True" | "isArr _ = False"

fun isStr :: "jval \<Rightarrow> bool" where
  "isStr (JStr _) = True" | "isStr _ = False"

fun isNum :: "jval \<Rightarrow> bool" where
  "isNum (JNum _) = True" | "isNum _ = False"

fun isBool :: "jval \<Rightarrow> bool" where
  "isBool (JBool _) = True" | "isBool _ = False"

text \<open>\<open>typeof v === 'object'\<close>; null is one, as in the language.\<close>

fun typeofObject :: "jval \<Rightarrow> bool" where
  "typeofObject JNull = True"
| "typeofObject (JArr _) = True"
| "typeofObject (JObj _) = True"
| "typeofObject _ = False"

fun arrItems :: "jval \<Rightarrow> jval list" where
  "arrItems (JArr xs) = xs"
| "arrItems _ = []"

text \<open>
  \<open>a === b\<close> where at most one side is an object or an array, the only use in the source
  (two distinct objects are never identical).
\<close>

definition strictEq :: "jval \<Rightarrow> jval \<Rightarrow> bool" where
  "strictEq a b = (case a of JNum n \<Rightarrow> b = a \<and> n \<noteq> NaN | JArr _ \<Rightarrow> False | JObj _ \<Rightarrow> False | _ \<Rightarrow> b = a)"

text \<open>\<open>String(v)\<close> and \<open>Number(v)\<close>; \<open>[null].join()\<close> is the empty string.\<close>

fun toStr :: "jval \<Rightarrow> string" where
  "toStr JUndef = ''undefined''"
| "toStr JNull = ''null''"
| "toStr (JBool b) = (if b then ''true'' else ''false'')"
| "toStr (JNum n) = numToString n"
| "toStr (JStr s) = s"
| "toStr (JArr xs) = joinStr '','' (map (\<lambda>v. if v = JUndef \<or> v = JNull then [] else toStr v) xs)"
| "toStr (JObj ps) = ''[object Object]''"
| "toStr (JProto k) = ''function '' @ k @ ''() { [native code] }''"

fun toNum :: "jval \<Rightarrow> jnum" where
  "toNum JUndef = NaN"
| "toNum JNull = Fin 0"
| "toNum (JBool b) = Fin (if b then 1 else 0)"
| "toNum (JNum n) = n"
| "toNum (JStr s) = strToNumber s"
| "toNum (JArr xs) = strToNumber (toStr (JArr xs))"
| "toNum (JObj ps) = NaN"
| "toNum (JProto k) = NaN"

text \<open>\<open>Number(v) || d\<close>.\<close>

definition numOr :: "jval \<Rightarrow> jnum \<Rightarrow> jnum" where
  "numOr v d = (if truthy (JNum (toNum v)) then toNum v else d)"

text \<open>\<open>parseInt(v, 10)\<close>.\<close>

definition parseInt10 :: "jval \<Rightarrow> jnum" where
  "parseInt10 v = (let s = dropWhile isSpace (toStr v);
       neg = (s \<noteq> [] \<and> hd s = CHR ''-'');
       t = (if s \<noteq> [] \<and> (hd s = CHR ''-'' \<or> hd s = CHR ''+'') then tl s else s);
       ds = takeWhile isDigit t
     in if ds = [] then NaN
        else if neg then Fin (- of_nat (decVal ds)) else Fin (of_nat (decVal ds)))"

text \<open>\<open>Object.assign({}, a)\<close> with later writes: an update keeps the position of a key.\<close>

fun putProp :: "string \<Rightarrow> jval \<Rightarrow> props \<Rightarrow> props" where
  "putProp k v [] = [(k, v)]"
| "putProp k v ((j, w) # ps) = (if j = k then (j, v) # ps else (j, w) # putProp k v ps)"

definition assignProps :: "props \<Rightarrow> props \<Rightarrow> props" where
  "assignProps target src = foldl (\<lambda>acc (k, v). putProp k v acc) target src"

definition delProp :: "string \<Rightarrow> props \<Rightarrow> props" where
  "delProp k ps = filter (\<lambda>(j, _). j \<noteq> k) ps"

section \<open>Texts shown to the user\<close>

datatype mtext = Lit string | Tr string | Fmt string "mtext list" | NumT jnum | Cat "mtext list"

section \<open>First-occurrence filtering\<close>

text \<open>
  The loop \<open>if (!seen[x]) { seen[x] = true; out.push(x); }\<close>. With \<open>seen = {}\<close> the
  inherited names count as already seen (\<open>barred\<close>); with \<open>Object.create(null)\<close> nothing is.
\<close>

fun firstsFrom :: "'a set \<Rightarrow> 'a list \<Rightarrow> 'a list" where
  "firstsFrom seen [] = []"
| "firstsFrom seen (x # xs) =
     (if x \<in> seen then firstsFrom seen xs else x # firstsFrom (insert x seen) xs)"

section \<open>Lemmas on numbers\<close>

lemma nneg_eq_iff [simp]: "nneg n = NaN \<longleftrightarrow> n = NaN" "nneg n = Fin 0 \<longleftrightarrow> n = Fin 0"
  by (cases n; simp)+

lemma nle_Fin_iff: "nle (Fin q) n \<longleftrightarrow> n = PInf \<or> (\<exists>r. n = Fin r \<and> q \<le> r)"
  by (cases n) auto

lemma nlt_Fin_iff: "nlt (Fin q) n \<longleftrightarrow> n = PInf \<or> (\<exists>r. n = Fin r \<and> q < r)"
  by (cases n) auto

section \<open>Lemmas on strings and numerals\<close>

lemma code_bound [simp]: "code c < 256"
  by (simp add: code_def)

lemma code_char_of [simp]: "n < 256 \<Longrightarrow> code (char_of n) = n"
  by (simp add: code_def)

lemma code_inject: "code c = code d \<longleftrightarrow> c = d"
  by (simp add: code_def)

lemma digitChar_props:
  assumes "n < 10"
  shows "code (digitChar n) = n + 48" and "isDigit (digitChar n)" and "digitVal (digitChar n) = n"
  using assms by (simp_all add: digitChar_def isDigit_def digitVal_def)

lemma showNat_digits: "list_all isDigit (showNat n)"
proof (induction n rule: showNat.induct)
  case (1 n)
  then show ?case
    by (subst showNat.simps) (simp add: digitChar_props)
qed

lemma showNat_nonempty [simp]: "showNat n \<noteq> []"
  by (subst showNat.simps) simp

lemma takeWhile_showNat [simp]: "takeWhile isDigit (showNat n) = showNat n"
  using showNat_digits [of n] by (simp add: list_all_iff takeWhile_eq_all_conv [THEN iffD2])

lemma showInt_int [simp]: "showInt (int n) = showNat n"
  by (simp add: showInt_def)

lemma decVal_snoc [simp]: "decVal (s @ [c]) = 10 * decVal s + digitVal c"
  by (simp add: decVal_def)

lemma decVal_showNat [simp]: "decVal (showNat n) = n"
proof (induction n rule: showNat.induct)
  case (1 n)
  show ?case
  proof (cases "n < 10")
    case True
    then show ?thesis
      by (subst showNat.simps) (simp add: decVal_def digitChar_props)
  next
    case False
    then have "decVal (showNat n) = 10 * (n div 10) + n mod 10"
      using 1 by (subst showNat.simps) (simp add: digitChar_props)
    then show ?thesis by simp
  qed
qed

lemma isDigit_not_space: "isDigit c \<Longrightarrow> \<not> isSpace c"
  by (auto simp: isDigit_def isSpace_def)

lemma trimBy_id:
  assumes "s \<noteq> []" "\<not> P (hd s)" "\<not> P (last s)"
  shows "trimBy P s = s"
proof -
  have "dropWhile P s = s" using assms by (cases s) auto
  moreover have "dropWhile P (rev s) = rev s"
    using assms by (cases s rule: rev_cases) auto
  ultimately show ?thesis by (simp add: trimBy_def)
qed

lemma trimBy_none: "\<forall>c \<in> set s. \<not> P c \<Longrightarrow> trimBy P s = s"
  by (cases "s = []") (simp_all add: trimBy_id, simp add: trimBy_def)

lemma list_all_takeWhile_id: "list_all P s \<Longrightarrow> takeWhile P s = s \<and> dropWhile P s = []"
  by (induction s) auto

lemma digits_not_sign:
  assumes "list_all isDigit s" "s \<noteq> []"
  shows "hd s \<noteq> CHR ''-''" "hd s \<noteq> CHR ''+''" "hd s \<noteq> CHR ''I''"
  using assms by (cases s; auto simp: isDigit_def code_def)+

lemma digits_take2:
  assumes "list_all isDigit s"
  shows "take 2 s \<notin> {''0x'', ''0X'', ''0o'', ''0O'', ''0b'', ''0B''}"
  using assms
  by (cases s; cases "tl s") (auto simp: isDigit_def code_def numeral_2_eq_2)

lemma parseUnsignedDecimal_digits:
  assumes "list_all isDigit s" "s \<noteq> []"
  shows "parseUnsignedDecimal s = Fin (of_nat (decVal s))"
proof -
  have "s \<noteq> ''Infinity''" using digits_not_sign(3) [OF assms] by auto
  then show ?thesis
    using assms
    by (simp add: parseUnsignedDecimal_def parseExponent_def pow10_def Let_def list_all_iff
        takeWhile_eq_all_conv [THEN iffD2] dropWhile_eq_Nil_conv [THEN iffD2])
qed

lemma strToNumber_digits:
  assumes "list_all isDigit s" "s \<noteq> []"
  shows "strToNumber s = Fin (of_nat (decVal s))"
proof -
  have "jtrim s = s"
    unfolding jtrim_def using assms(1)
    by (intro trimBy_none) (auto simp: list_all_iff isDigit_not_space)
  then show ?thesis
    using assms digits_take2 [OF assms(1)] digits_not_sign [OF assms]
    by (auto simp: strToNumber_def Let_def parseUnsignedDecimal_digits)
qed

lemma strToNumber_showNat [simp]: "strToNumber (showNat n) = Fin (of_nat n)"
  using strToNumber_digits [OF showNat_digits] by simp

lemma toLowerCase_append [simp]: "toLowerCase (s @ t) = toLowerCase s @ toLowerCase t"
  by (simp add: toLowerCase_def)

lemma length_toLowerCase [simp]: "length (toLowerCase s) = length s"
  by (simp add: toLowerCase_def)

lemma lowerChar_idem [simp]: "lowerChar (lowerChar c) = lowerChar c"
  by (auto simp: lowerChar_def isUpperAz_def)

lemma toLowerCase_idem [simp]: "toLowerCase (toLowerCase s) = toLowerCase s"
  by (simp add: toLowerCase_def)

section \<open>Splitting, trimming and numerals\<close>

lemma trimBy_idem [simp]: "trimBy P (trimBy P s) = trimBy P s"
proof (cases "trimBy P s = []")
  case False
  have last: "\<not> P (last (rev (dropWhile P (rev t))))" if "dropWhile P (rev t) \<noteq> []" for t
    using that hd_dropWhile [of P "rev t"] by (simp add: last_rev)
  define t where "t = dropWhile P s"
  have t: "trimBy P s = rev (dropWhile P (rev t))" by (simp add: trimBy_def t_def)
  have ne: "dropWhile P (rev t) \<noteq> []" using False t by auto
  then have "t \<noteq> []" by auto
  then have ht: "\<not> P (hd t)" using hd_dropWhile [of P s] by (simp add: t_def)
  have "prefix (rev (dropWhile P (rev t))) t"
    by (metis rev_rev_ident suffix_dropWhile suffix_to_prefix)
  then have "hd (rev (dropWhile P (rev t))) = hd t"
    using ne by (metis hd_append2 prefixE rev_is_Nil_conv)
  then show ?thesis
    unfolding t using ht last [OF ne] ne by (intro trimBy_id) auto
next
  case True
  then show ?thesis by (simp add: True) (simp add: trimBy_def)
qed

lemma trimBy_map: "(\<And>c. P (f c) = P c) \<Longrightarrow> trimBy P (map f s) = map f (trimBy P s)"
  by (simp add: trimBy_def dropWhile_map rev_map comp_def)

lemma decimalChar_not_space: "isDigit c \<or> c = CHR ''.'' \<Longrightarrow> \<not> isSpace c"
  using isDigit_not_space by (elim disjE) (simp, simp add: isSpace_def code_def)

lemma strToNumber_decimal:
  assumes "list_all isDigit ip" "ip \<noteq> []" "list_all isDigit fp"
  shows "strToNumber (ip @ CHR ''.'' # fp) = Fin (of_nat (decVal (ip @ fp)) * pow10 (- int (length fp)))"
proof -
  let ?s = "ip @ CHR ''.'' # fp"
  have chars: "\<forall>c \<in> set ?s. isDigit c \<or> c = CHR ''.''"
    using assms by (auto simp: list_all_iff)
  have trim: "jtrim ?s = ?s"
    unfolding jtrim_def using chars decimalChar_not_space by (intro trimBy_none) blast
  have hd: "isDigit (hd ?s)" using assms by (auto simp: list_all_iff)
  have sign: "hd ?s \<noteq> CHR ''-''" "hd ?s \<noteq> CHR ''+''" "?s \<noteq> ''Infinity''"
    using hd by (auto simp: isDigit_def code_def)
  have take2: "take 2 ?s \<notin> {''0x'', ''0X'', ''0o'', ''0O'', ''0b'', ''0B''}"
    using chars by (cases ?s; cases "tl ?s") (auto simp: isDigit_def code_def numeral_2_eq_2)
  have nd: "\<not> isDigit CHR ''.''" by (simp add: isDigit_def code_def)
  have split: "takeWhile isDigit ?s = ip" "dropWhile isDigit ?s = CHR ''.'' # fp"
    using assms(1) nd by (auto simp: list_all_iff takeWhile_append2 dropWhile_append2)
  have "strToNumber ?s = parseUnsignedDecimal ?s"
    using trim sign take2 by (simp add: strToNumber_def Let_def)
  also have "\<dots> = Fin (of_nat (decVal (ip @ fp)) * pow10 (- int (length fp)))"
    using sign(3) assms(2)
    unfolding parseUnsignedDecimal_def Let_def split list.sel
      conjunct1 [OF list_all_takeWhile_id [OF assms(3)]] conjunct2 [OF list_all_takeWhile_id [OF assms(3)]]
    by (simp add: parseExponent_def)
  finally show ?thesis .
qed

lemma splitWords_nonsep: "w \<in> set (splitWords P s) \<Longrightarrow> w \<noteq> [] \<and> list_all (\<lambda>c. \<not> P c) w"
proof (induction P s rule: splitWords.induct)
  case (1 P s)
  show ?case
  proof (cases "dropWhile P s")
    case Nil
    then have "splitWords P s = []" by (subst splitWords.simps) (simp only: list.case)
    then show ?thesis using 1(2) by simp
  next
    case (Cons c cs)
    have "\<not> P c" using Cons by (metis dropWhile_eq_Cons_conv)
    moreover have "splitWords P s = (c # takeWhile (\<lambda>x. \<not> P x) cs) # splitWords P (dropWhile (\<lambda>x. \<not> P x) cs)"
      by (subst splitWords.simps) (simp only: Cons list.case)
    ultimately consider "w = c # takeWhile (\<lambda>x. \<not> P x) cs" "\<not> P c"
      | "w \<in> set (splitWords P (dropWhile (\<lambda>x. \<not> P x) cs))"
      using 1(2) by auto
    then show ?thesis
      by cases (auto simp: list_all_iff dest: set_takeWhileD, use 1(1) [OF Cons] in \<open>simp_all add: list_all_iff\<close>)
  qed
qed

lemma splitWords_word:
  assumes "w \<noteq> []" "list_all (\<lambda>c. \<not> P c) w" "s = [] \<or> P (hd s)"
  shows "splitWords P (w @ s) = w # splitWords P s"
proof -
  obtain c cs where w: "w = c # cs" using assms(1) by (cases w) auto
  have d: "dropWhile P (w @ s) = c # (cs @ s)" using assms(2) by (simp add: w)
  have "takeWhile (\<lambda>x. \<not> P x) (cs @ s) = cs" "dropWhile (\<lambda>x. \<not> P x) (cs @ s) = s"
    using assms(2,3) unfolding w by (cases s; auto simp: list_all_iff)+
  then show ?thesis by (subst splitWords.simps) (simp add: d, simp add: w)
qed

lemma splitWords_sep: "P c \<Longrightarrow> splitWords P (c # s) = splitWords P s"
  by (subst (1 2) splitWords.simps) simp

lemma splitWords_join:
  assumes "P c" "\<forall>w \<in> set ws. w \<noteq> [] \<and> list_all (\<lambda>c. \<not> P c) w"
  shows "splitWords P (joinStr [c] ws) = ws"
  using assms
proof (induction "[c]" ws rule: joinStr.induct)
  case (1)
  then show ?case by (simp add: splitWords.simps)
next
  case (2 w)
  then show ?case using splitWords_word [of w P "[]"] by (simp add: splitWords.simps [of P "[]"])
next
  case (3 w v ws)
  then show ?case
    using splitWords_word [of w P "c # joinStr [c] (v # ws)"] by (simp add: splitWords_sep)
qed

lemma splitChar_nonempty [simp]: "splitChar d s \<noteq> []"
  by (cases s) (auto split: list.splits)

lemma splitDouble_nonempty [simp]: "splitDouble d s \<noteq> []"
  by (cases "(d, s)" rule: splitDouble.cases) (auto split: list.splits)

lemma splitChar_chars: "c \<in> set s \<Longrightarrow> c \<noteq> d \<Longrightarrow> \<exists>p \<in> set (splitChar d s). c \<in> set p"
proof (induction s)
  case (Cons a s)
  then show ?case by (cases "splitChar d s") auto
qed simp

lemma splitDouble_chars: "c \<in> set s \<Longrightarrow> c \<noteq> d \<Longrightarrow> \<exists>p \<in> set (splitDouble d s). c \<in> set p"
proof (induction d s rule: splitDouble.induct)
  case (3 d a e cs)
  show ?case
  proof (cases "a = d \<and> e = d")
    case True
    then show ?thesis using 3 by auto
  next
    case False
    show ?thesis
    proof (cases "splitDouble d (e # cs)")
      case (Cons w ws)
      have "c = a \<or> (\<exists>p \<in> set (w # ws). c \<in> set p)" using 3(2) [OF False _ 3(4)] 3(3) Cons by auto
      then show ?thesis using False Cons by auto
    qed simp
  qed
qed auto

lemma splitChar_sub: "p \<in> set (splitChar d s) \<Longrightarrow> set p \<subseteq> set s"
proof (induction s arbitrary: p)
  case (Cons a s)
  show ?case
  proof (cases "splitChar d s")
    case (Cons w ws)
    then have "\<And>q. q \<in> set (w # ws) \<Longrightarrow> set q \<subseteq> set s" using Cons.IH by simp
    then show ?thesis using Cons.prems Cons by (force split: if_splits)
  qed simp
qed simp

lemma parseInt10_digits:
  assumes "list_all isDigit s" "s \<noteq> []"
  shows "parseInt10 (JStr s) = Fin (of_nat (decVal s))"
proof -
  have "isDigit (hd s)" using assms by (cases s) auto
  then have "dropWhile isSpace s = s" using assms(2) isDigit_not_space by (cases s) auto
  then show ?thesis
    unfolding parseInt10_def Let_def toStr.simps
    using digits_not_sign(1,2) [OF assms] assms(2) by (simp add: list_all_takeWhile_id [OF assms(1)])
qed

lemma splitChar_none: "d \<notin> set s \<Longrightarrow> splitChar d s = [s]"
  by (induction s) auto

lemma showNat_inject: "showNat m = showNat n \<longleftrightarrow> m = n"
  by (metis decVal_showNat)

lemma showInt_inject: "showInt i = showInt j \<longleftrightarrow> i = j"
proof -
  have nd: "hd (showNat n) \<noteq> CHR ''-''" for n using digits_not_sign(1) [OF showNat_digits showNat_nonempty] .
  then have "CHR ''-'' # s \<noteq> showNat n" for s n by (metis list.sel(1))
  then show ?thesis by (auto simp: showInt_def showNat_inject) (metis)+
qed

lemma numToString_of_nat [simp]: "numToString (Fin (of_nat n)) = showNat n"
  by simp

section \<open>Lemmas on first-occurrence filtering\<close>

lemma set_firstsFrom: "set (firstsFrom seen xs) = set xs - seen"
  by (induction xs arbitrary: seen) auto

lemma distinct_firstsFrom: "distinct (firstsFrom seen xs)"
  by (induction xs arbitrary: seen) (auto simp: set_firstsFrom)

lemma firstsFrom_id: "distinct xs \<Longrightarrow> set xs \<inter> seen = {} \<Longrightarrow> firstsFrom seen xs = xs"
  by (induction xs arbitrary: seen) auto

lemma firstsFrom_idem: "firstsFrom seen (firstsFrom seen xs) = firstsFrom seen xs"
  by (intro firstsFrom_id) (auto simp: distinct_firstsFrom set_firstsFrom)

lemma firstsFrom_length: "length (firstsFrom seen xs) \<le> length xs"
proof (induction xs arbitrary: seen)
  case (Cons x xs)
  then show ?case by (simp add: le_SucI)
qed simp

section \<open>Lemmas on properties\<close>

lemma map_of_putProp: "map_of (putProp k v ps) = (map_of ps)(k \<mapsto> v)"
  by (induction ps) auto

lemma map_of_delProp: "map_of (delProp k ps) = (map_of ps)(k := None)"
  by (induction ps) (auto simp: delProp_def)

lemma map_of_assignProps:
  "map_of (assignProps t src) k = (case map_of (rev src) k of Some v \<Rightarrow> Some v | None \<Rightarrow> map_of t k)"
proof (induction src arbitrary: t)
  case (Cons p src)
  obtain j w where p: "p = (j, w)" by (cases p)
  have "map_of (assignProps t (p # src)) k = map_of (assignProps (putProp j w t) src) k"
    by (simp add: p assignProps_def)
  also have "\<dots> = (case map_of (rev src) k of Some v \<Rightarrow> Some v | None \<Rightarrow> map_of (putProp j w t) k)"
    by (rule Cons.IH)
  finally show ?case
    by (auto simp: p map_of_putProp map_add_def split: option.splits)
qed (simp add: assignProps_def)

lemma jget_notProto: "k \<notin> set protoKeys \<Longrightarrow>
    jget (JObj ps) k = (case map_of ps k of Some v \<Rightarrow> v | None \<Rightarrow> JUndef)"
  by (auto simp: jget.simps split: option.splits)

lemma jget_putProp [simp]: "jget (JObj (putProp k v ps)) j = (if j = k then v else jget (JObj ps) j)"
  by (simp add: map_of_putProp jget.simps)

lemma jget_absent: "k \<notin> fst ` set raw \<Longrightarrow> k \<notin> set protoKeys \<Longrightarrow> jget (JObj raw) k = JUndef"
  by (auto simp: jget.simps map_of_eq_None_iff [THEN iffD2])

lemma jget_assignProps:
  assumes "distinct (map fst raw)"
  shows "jget (JObj (assignProps t raw)) k =
    (if k \<in> fst ` set raw then jget (JObj raw) k else jget (JObj t) k)"
proof -
  have "map_of (rev raw) = map_of raw"
    using assms by (simp add: map_of_inject_set rev_map [symmetric])
  moreover have "map_of raw k = None \<longleftrightarrow> k \<notin> fst ` set raw" by (simp add: map_of_eq_None_iff)
  ultimately show ?thesis by (auto simp: jget.simps map_of_assignProps split: option.splits)
qed

lemma assign_keeps:
  assumes "distinct (map fst raw)" "k \<notin> set protoKeys" "jget (JObj raw) k \<noteq> JUndef"
  shows "jget (JObj (assignProps t raw)) k = jget (JObj raw) k"
  using assms jget_absent [of k raw] by (auto simp: jget_assignProps)

lemma distinct_putProp: "distinct (map fst ps) \<Longrightarrow> distinct (map fst (putProp k v ps))"
proof -
  have "dom (map_of (putProp k v ps)) = insert k (dom (map_of ps))" for ps
    by (simp add: map_of_putProp)
  then have "fst ` set (putProp k v ps) = insert k (fst ` set ps)" for ps
    by (simp add: dom_map_of_conv_image_fst)
  then show "distinct (map fst ps) \<Longrightarrow> distinct (map fst (putProp k v ps))"
    by (induction ps) auto
qed

lemma strictEq_JStr [simp]: "strictEq v (JStr s) \<longleftrightarrow> v = JStr s"
  by (cases v) (auto simp: strictEq_def)

lemma strictEq_JBool [simp]: "strictEq v (JBool b) \<longleftrightarrow> v = JBool b"
  by (cases v) (auto simp: strictEq_def)

lemma strictEq_JNull [simp]: "strictEq v JNull \<longleftrightarrow> v = JNull"
  by (cases v) (auto simp: strictEq_def)

lemma strictEq_JUndef [simp]: "strictEq v JUndef \<longleftrightarrow> v = JUndef"
  by (cases v) (auto simp: strictEq_def)

lemma strictEq_Fin [simp]: "strictEq v (JNum (Fin q)) \<longleftrightarrow> v = JNum (Fin q)"
  by (cases v) (auto simp: strictEq_def)

lemma isArr_iff: "isArr v \<longleftrightarrow> (\<exists>xs. v = JArr xs)"
  by (cases v) auto

lemma isStr_iff: "isStr v \<longleftrightarrow> (\<exists>s. v = JStr s)"
  by (cases v) auto

lemma isBool_iff: "isBool v \<longleftrightarrow> (\<exists>b. v = JBool b)"
  by (cases v) auto

lemma isNum_iff: "isNum v \<longleftrightarrow> (\<exists>n. v = JNum n)"
  by (cases v) auto

end
