(* ===== verification/JsSort.thy ===== *)
theory JsSort
  imports JsBase
begin

text \<open>
  \<open>Array.prototype.sort\<close> with a comparator: a stable sort, modelled by insertion. A
  comparator returns a number; a result that is not positive (zero and NaN included) keeps
  the left argument first. The interface \<open>js_comparator\<close> states what a consistent
  comparator promises on the elements it is given, and what the sort returns then: the
  same elements, in order, elements that compare equal in their original order.
\<close>

definition positive :: "jnum \<Rightarrow> bool" where
  "positive n = nlt (Fin 0) n"

fun insertBy :: "('a \<Rightarrow> 'a \<Rightarrow> jnum) \<Rightarrow> 'a \<Rightarrow> 'a list \<Rightarrow> 'a list" where
  "insertBy cmp x [] = [x]"
| "insertBy cmp x (y # ys) = (if positive (cmp x y) then y # insertBy cmp x ys else x # y # ys)"

definition jsSort :: "('a \<Rightarrow> 'a \<Rightarrow> jnum) \<Rightarrow> 'a list \<Rightarrow> 'a list" where
  "jsSort cmp xs = foldr (insertBy cmp) xs []"

lemma mset_insertBy: "mset (insertBy cmp x ys) = add_mset x (mset ys)"
  by (induction ys) auto

lemma mset_jsSort [simp]: "mset (jsSort cmp xs) = mset xs"
  by (induction xs) (auto simp: jsSort_def mset_insertBy)

lemma set_insertBy: "set (insertBy cmp x ys) = insert x (set ys)"
  using mset_insertBy [of cmp x ys] by (metis set_mset_add_mset_insert set_mset_mset)

lemma set_jsSort [simp]: "set (jsSort cmp xs) = set xs"
  using mset_jsSort [of cmp xs] by (metis set_mset_mset)

lemma length_jsSort [simp]: "length (jsSort cmp xs) = length xs"
  using mset_jsSort [of cmp xs] by (metis size_mset)

lemma distinct_jsSort [simp]: "distinct (jsSort cmp xs) = distinct xs"
  using mset_jsSort [of cmp xs] by (rule mset_eq_imp_distinct_iff)

lemma jsSort_Cons: "jsSort cmp (x # xs) = insertBy cmp x (jsSort cmp xs)"
  by (simp add: jsSort_def)

locale js_comparator =
  fixes A :: "'a set" and cmp :: "'a \<Rightarrow> 'a \<Rightarrow> jnum"
  assumes total: "x \<in> A \<Longrightarrow> y \<in> A \<Longrightarrow> positive (cmp x y) \<Longrightarrow> \<not> positive (cmp y x)"
    and trans: "x \<in> A \<Longrightarrow> y \<in> A \<Longrightarrow> z \<in> A \<Longrightarrow> \<not> positive (cmp x y) \<Longrightarrow> \<not> positive (cmp y z) \<Longrightarrow>
      \<not> positive (cmp x z)"
begin

definition le :: "'a \<Rightarrow> 'a \<Rightarrow> bool" where
  "le x y \<longleftrightarrow> \<not> positive (cmp x y)"

definition tie :: "'a \<Rightarrow> 'a \<Rightarrow> bool" where
  "tie x y \<longleftrightarrow> le x y \<and> le y x"

lemma sorted_insertBy:
  "x \<in> A \<Longrightarrow> set ys \<subseteq> A \<Longrightarrow> sorted_wrt le ys \<Longrightarrow> sorted_wrt le (insertBy cmp x ys)"
proof (induction ys)
  case (Cons y ys)
  show ?case
  proof (cases "positive (cmp x y)")
    case True
    then have "le y x" using total Cons.prems by (simp add: le_def)
    with True Cons show ?thesis by (auto simp: set_insertBy)
  next
    case False
    then have "le x y" by (simp add: le_def)
    moreover have "le x z" if "z \<in> set ys" for z
      using trans [of x y z] that \<open>le x y\<close> Cons.prems by (auto simp: le_def)
    ultimately show ?thesis using False Cons.prems by auto
  qed
qed simp

lemma sorted_sort: "set xs \<subseteq> A \<Longrightarrow> sorted_wrt le (jsSort cmp xs)"
  by (induction xs) (auto simp: jsSort_Cons sorted_insertBy, simp add: jsSort_def)

lemma stable_insertBy:
  "x \<in> A \<Longrightarrow> set ys \<subseteq> A \<Longrightarrow> k \<in> A \<Longrightarrow>
   filter (tie k) (insertBy cmp x ys) = filter (tie k) (x # ys)"
proof (induction ys)
  case (Cons y ys)
  show ?case
  proof (cases "positive (cmp x y)")
    case True
    have "\<not> (tie k x \<and> tie k y)"
    proof
      assume "tie k x \<and> tie k y"
      then have "le x k" "le k y" by (auto simp: tie_def)
      then have "le x y" using trans [of x k y] Cons.prems by (auto simp: le_def)
      with True show False by (simp add: le_def)
    qed
    with True Cons show ?thesis by auto
  qed simp
qed simp

lemma stable_sort: "set xs \<subseteq> A \<Longrightarrow> k \<in> A \<Longrightarrow> filter (tie k) (jsSort cmp xs) = filter (tie k) xs"
proof (induction xs)
  case (Cons x xs)
  then show ?case
    using stable_insertBy [of x "jsSort cmp xs" k] by (auto simp: jsSort_Cons)
qed (simp add: jsSort_def)

lemma sort_nth_le:
  assumes "set xs \<subseteq> A" "i < j" "j < length xs"
  shows "le (jsSort cmp xs ! i) (jsSort cmp xs ! j)"
  using sorted_wrt_nth_less [OF sorted_sort [OF assms(1)]] assms by simp

end

section \<open>Consistent comparators\<close>

text \<open>
  The sign of a comparator's result. A comparator is consistent when swapping its arguments
  swaps the sign and \<open>not after\<close> is transitive; ties are then interchangeable, and
  consistency is kept by negation, by looking at a key first and by breaking ties with a
  second comparator, which is how the comparators of the tables are built.
\<close>

definition sg :: "jnum \<Rightarrow> int" where
  "sg n = (if nlt (Fin 0) n then 1 else if nlt n (Fin 0) then - 1 else 0)"

definition consistent :: "'a set \<Rightarrow> ('a \<Rightarrow> 'a \<Rightarrow> jnum) \<Rightarrow> bool" where
  "consistent A cmp \<longleftrightarrow> (\<forall>x \<in> A. \<forall>y \<in> A. sg (cmp y x) = - sg (cmp x y)) \<and>
     (\<forall>x \<in> A. \<forall>y \<in> A. \<forall>z \<in> A. sg (cmp x y) \<le> 0 \<longrightarrow> sg (cmp y z) \<le> 0 \<longrightarrow> sg (cmp x z) \<le> 0)"

definition lexCompare :: "('a \<Rightarrow> 'a \<Rightarrow> jnum) \<Rightarrow> ('a \<Rightarrow> 'a \<Rightarrow> jnum) \<Rightarrow> 'a \<Rightarrow> 'a \<Rightarrow> jnum" where
  "lexCompare f g a b = (if truthy (JNum (f a b)) then f a b else g a b)"

lemma sg_simps [simp]: "sg (Fin q) = (if 0 < q then 1 else if q < 0 then - 1 else 0)" "sg NaN = 0"
    "sg PInf = 1" "sg NInf = - 1"
  by (simp_all add: sg_def)

lemma sg_nneg [simp]: "sg (nneg n) = - sg n"
  by (cases n) auto

lemma sg_zero_iff: "sg n = 0 \<longleftrightarrow> \<not> truthy (JNum n)"
  by (cases n) auto

lemma positive_iff_sg: "positive n \<longleftrightarrow> 0 < sg n"
  by (cases n) (auto simp: positive_def)

lemma consistent_comparator: "consistent A cmp \<Longrightarrow> js_comparator A cmp"
proof (unfold_locales, goal_cases)
  case (1 x y)
  then have "sg (cmp y x) = - sg (cmp x y)" unfolding consistent_def by blast
  with 1(4) show ?case by (simp add: positive_iff_sg)
next
  case (2 x y z)
  then have "sg (cmp x z) \<le> 0" unfolding consistent_def positive_iff_sg not_less by blast
  then show ?case by (simp add: positive_iff_sg)
qed

lemma consistentD:
  assumes "consistent A f" "x \<in> A" "y \<in> A"
  shows "sg (f y x) = - sg (f x y)"
  using assms unfolding consistent_def by blast

lemma consistent_trans:
  assumes "consistent A f" "x \<in> A" "y \<in> A" "z \<in> A" "sg (f x y) \<le> 0" "sg (f y z) \<le> 0"
  shows "sg (f x z) \<le> 0"
  using assms unfolding consistent_def by blast

lemma consistent_strict:
  assumes f: "consistent A f" and A: "x \<in> A" "y \<in> A" "z \<in> A"
    and le: "sg (f x y) \<le> 0" "sg (f y z) \<le> 0" and zero: "sg (f x z) = 0"
  shows "sg (f x y) = 0 \<and> sg (f y z) = 0"
proof -
  have zx: "sg (f z x) \<le> 0" using consistentD [OF f A(1,3)] zero by simp
  have "sg (f z y) \<le> 0" by (rule consistent_trans [OF f A(3,1,2) zx le(1)])
  moreover have "sg (f y x) \<le> 0" by (rule consistent_trans [OF f A(2,3,1) le(2) zx])
  ultimately show ?thesis using consistentD [OF f A(1,2)] consistentD [OF f A(2,3)] le by simp
qed

lemma sg_lexCompare: "sg (lexCompare f g x y) = (if sg (f x y) = 0 then sg (g x y) else sg (f x y))"
  by (simp add: lexCompare_def sg_zero_iff)

lemma consistent_lex:
  assumes f: "consistent A f" and g: "consistent A g"
  shows "consistent A (lexCompare f g)"
  unfolding consistent_def
proof (intro conjI ballI impI)
  fix x y assume "x \<in> A" "y \<in> A"
  then have "sg (f y x) = - sg (f x y)" "sg (g y x) = - sg (g x y)"
    by (rule consistentD [OF f], rule consistentD [OF g])
  then show "sg (lexCompare f g y x) = - sg (lexCompare f g x y)"
    by (simp add: sg_lexCompare)
next
  fix x y z assume A: "x \<in> A" "y \<in> A" "z \<in> A"
    and le: "sg (lexCompare f g x y) \<le> 0" "sg (lexCompare f g y z) \<le> 0"
  have fle: "sg (f x y) \<le> 0" "sg (f y z) \<le> 0" using le by (auto simp: sg_lexCompare split: if_splits)
  show "sg (lexCompare f g x z) \<le> 0"
  proof (cases "sg (f x z) = 0")
    case True
    then have "sg (f x y) = 0" "sg (f y z) = 0" using consistent_strict [OF f A fle] by auto
    then show ?thesis
      using True le consistent_trans [OF g A] by (simp add: sg_lexCompare)
  next
    case False
    then show ?thesis using consistent_trans [OF f A fle] by (simp add: sg_lexCompare)
  qed
qed

lemma consistent_neg: "consistent A f \<Longrightarrow> consistent A (\<lambda>x y. nneg (f x y))"
proof -
  assume f: "consistent A f"
  have "sg (f x z) \<ge> 0" if "x \<in> A" "y \<in> A" "z \<in> A" "sg (f x y) \<ge> 0" "sg (f y z) \<ge> 0" for x y z
    using consistent_trans [OF f that(3,2,1)] consistentD [OF f that(1,2)]
      consistentD [OF f that(2,3)] consistentD [OF f that(1,3)] that by simp
  then have "\<forall>x\<in>A. \<forall>y\<in>A. \<forall>z\<in>A. - sg (f x y) \<le> 0 \<longrightarrow> - sg (f y z) \<le> 0 \<longrightarrow> - sg (f x z) \<le> 0"
    unfolding neg_le_0_iff_le by blast
  moreover have "\<forall>x\<in>A. \<forall>y\<in>A. - sg (f y x) = - (- sg (f x y))"
  proof (intro ballI)
    fix x y assume "x \<in> A" "y \<in> A"
    with consistentD [OF f] have "sg (f y x) = - sg (f x y)" by blast
    then show "- sg (f y x) = - (- sg (f x y))" by simp
  qed
  ultimately show ?thesis unfolding consistent_def sg_nneg by blast
qed

lemma consistent_key: "consistent B f \<Longrightarrow> k ` A \<subseteq> B \<Longrightarrow> consistent A (\<lambda>x y. f (k x) (k y))"
  unfolding consistent_def by blast

lemma consistent_subset: "consistent B f \<Longrightarrow> A \<subseteq> B \<Longrightarrow> consistent A f"
  unfolding consistent_def by blast

lemma consistent_zero: "consistent A (\<lambda>a b. Fin 0)"
  unfolding consistent_def by simp

text \<open>Subtraction orders the numbers that are not NaN, the infinities included.\<close>

lemma consistent_nsub: "consistent {n. n \<noteq> NaN} nsub"
proof -
  have "sg (nsub y x) = - sg (nsub x y)" for x y :: jnum
    by (cases x; cases y) (auto simp: nsub_def)
  moreover have "sg (nsub x y) \<le> 0 \<Longrightarrow> sg (nsub y z) \<le> 0 \<Longrightarrow> y \<noteq> NaN \<Longrightarrow> x \<noteq> NaN \<Longrightarrow> z \<noteq> NaN \<Longrightarrow>
      sg (nsub x z) \<le> 0" for x y z :: jnum
    by (cases x; cases y; cases z) (auto simp: nsub_def split: if_splits)
  ultimately show ?thesis unfolding consistent_def by blast
qed

text \<open>The comparator \<open>function(a, b) { return a - b; }\<close> on finite numbers.\<close>

definition numCompare :: "jnum \<Rightarrow> jnum \<Rightarrow> jnum" where
  "numCompare a b = nsub a b"

lemma positive_numCompare [simp]: "positive (numCompare (Fin a) (Fin b)) \<longleftrightarrow> b < a"
  by (simp add: positive_def numCompare_def nsub_def)

interpretation numeric: js_comparator "range Fin" numCompare
  by unfold_locales auto

lemma numeric_le_Fin: "numeric.le (Fin a) (Fin b) \<longleftrightarrow> a \<le> b"
  by (simp add: numeric.le_def not_less)

end
