(* ===== verification/Format.thy ===== *)
theory Format
  imports JsBase JsSort
begin

text \<open>
  \<open>lanspeed/format.js\<close>: refresh periods, the activity test of a client, totals, the order
  of the client table, its filter and its pages, and the preferences kept in
  \<open>localStorage\<close>. The collation of \<open>String.prototype.localeCompare\<close> depends on the
  browser's locale data: it is the argument \<open>collate\<close> of the definitions that use it.

  An item of \<open>localStorage\<close> is represented by what \<open>JSON.parse\<close> makes of it: no or empty
  text, malformed text, or the text of a value.
\<close>

section \<open>Constants\<close>

definition PREF_KEY :: string where "PREF_KEY = ''luci-app-lanspeed.prefs.v5''"
definition LEGACY_PREF_KEY :: string where "LEGACY_PREF_KEY = ''luci-app-lanspeed.prefs.v4''"
definition MIN_REFRESH_MS :: rat where "MIN_REFRESH_MS = 1000"
definition NSS_REFRESH_MS :: rat where "NSS_REFRESH_MS = 1000"
definition ACTIVE_CLIENT_WINDOW_MS :: rat where "ACTIVE_CLIENT_WINDOW_MS = 10000"
definition ACTIVE_CLIENT_MIN_BPS :: rat where "ACTIVE_CLIENT_MIN_BPS = 1"

definition NSS_REFRESH_CHOICES :: "rat list" where
  "NSS_REFRESH_CHOICES = [1000, 2000, 4000, 8000, 10000]"

definition PAGE_SIZE_CHOICES :: "nat list" where
  "PAGE_SIZE_CHOICES = [10, 25, 50, 100]"

definition SORT_KEYS :: "string list" where
  "SORT_KEYS = [''hostname'', ''mac'', ''tx'', ''rx'', ''tcp_conns'', ''udp_conns'']"

definition DEFAULT_PREFS :: props where
  "DEFAULT_PREFS = [(''refreshMs'', num 1000), (''nssRefreshMs'', num NSS_REFRESH_MS),
     (''unit'', JStr ''bit''), (''activeOnly'', JBool False), (''sortKey'', JStr ''rx''),
     (''sortDir'', JStr ''desc''), (''sortCustom'', JBool False), (''paused'', JBool False),
     (''pageSize'', num 25), (''ifaceExcluded'', JArr [])]"

section \<open>Values of a client\<close>

definition asArray :: "jval \<Rightarrow> jval list" where
  "asArray v = arrItems v"

definition textOrDash :: "jval \<Rightarrow> string" where
  "textOrDash v = (if v = JNull \<or> v = JUndef \<or> v = JStr [] then ''-'' else toStr v)"

definition identityOf :: "jval \<Rightarrow> jval" where
  "identityOf c = jor (jget c ''identity_key'')
     (jor (JStr (joinStr ''@'' (map toStr (filter truthy [jget c ''mac'', jget c ''zone'']))))
        (JStr ''-''))"

definition clientDisplayName :: "jval \<Rightarrow> jval" where
  "clientDisplayName c = jor (jget c ''hostname'') (jor (jget c ''mac'') (identityOf c))"

section \<open>Collector and refresh period\<close>

definition effectiveRateCollector :: "jval \<Rightarrow> string" where
  "effectiveRateCollector status = (let evidence = jor (jfield status ''evidence'') (JObj []);
       collector = jor (jget evidence ''collector'') (JObj [])
     in toStr (jor (jget evidence ''effective_collector'')
          (jor (jget collector ''primary_source'') (JStr ''unsupported''))))"

definition nssPlatform :: "jval \<Rightarrow> bool" where
  "nssPlatform status = (let evidence = jor (jfield status ''evidence'') (JObj []);
       platform = jor (jget evidence ''platform'') (JObj []);
       profile = jget platform ''profile''; arch = jget platform ''target_arch''
     in if \<not> nullish profile \<and> profile \<noteq> JStr [] then profile = JStr ''nss_aarch64''
        else if \<not> nullish arch \<and> arch \<noteq> JStr [] then
          toStr arch = ''aarch64'' \<and>
          (\<not> hasOwn platform ''nss_compiled'' \<or> jget platform ''nss_compiled'' \<noteq> JBool False) \<and>
          (\<not> truthy (jget status ''capabilities'') \<or>
             jget (jget status ''capabilities'') ''nss'' \<noteq> JBool False)
        else False)"

definition nssRefreshRestricted :: "jval \<Rightarrow> bool" where
  "nssRefreshRestricted status = (let effective = effectiveRateCollector status
     in nssPlatform status \<and> (effective = ''nss_ecm_node'' \<or> effective = ''nss_ecm_bpf''))"

definition normalizeNssRefreshMs :: "jval \<Rightarrow> jnum" where
  "normalizeNssRefreshMs value = (let refreshMs = toNum value
     in if list_ex (\<lambda>choice. refreshMs = Fin choice) NSS_REFRESH_CHOICES then refreshMs
        else Fin NSS_REFRESH_MS)"

definition effectiveRefreshMs :: "jval \<Rightarrow> jval \<Rightarrow> jnum" where
  "effectiveRefreshMs status prefs =
     (if nssRefreshRestricted status then normalizeNssRefreshMs (jfield prefs ''nssRefreshMs'')
      else nmax (Fin MIN_REFRESH_MS) (numOr (jfield prefs ''refreshMs'') (Fin 1000)))"

definition compareText :: "(string \<Rightarrow> string \<Rightarrow> int) \<Rightarrow> jval \<Rightarrow> jval \<Rightarrow> jnum" where
  "compareText collate a b = Fin (of_int (collate (toStr (jor a (JStr []))) (toStr (jor b (JStr [])))))"

section \<open>Sort state of the table\<close>

record sort_state =
  sortKey :: string
  sortDir :: string
  sortCustom :: bool

definition defaultSortDirection :: string where
  "defaultSortDirection = ''desc''"

definition nextSort :: "sort_state \<Rightarrow> string \<Rightarrow> sort_state" where
  "nextSort prefs key =
     (if \<not> sortCustom prefs \<or> sortKey prefs \<noteq> key
      then \<lparr>sortKey = key, sortDir = ''desc'', sortCustom = True\<rparr>
      else if sortDir prefs = ''desc''
      then \<lparr>sortKey = key, sortDir = ''asc'', sortCustom = True\<rparr>
      else \<lparr>sortKey = ''rx'', sortDir = ''desc'', sortCustom = False\<rparr>)"

section \<open>Rates\<close>

text \<open>The scaling loop of \<open>formatRate\<close>: unit index, divisions left, value.\<close>

fun rateLoop :: "rat \<Rightarrow> nat \<Rightarrow> nat \<Rightarrow> jnum \<Rightarrow> nat \<times> jnum" where
  "rateLoop d i 0 n = (i, n)"
| "rateLoop d i (Suc r) n =
     (if nle (Fin d) n then rateLoop d (Suc i) r (nscale (1 / d) n) else (i, n))"

definition formatRate :: "jval \<Rightarrow> string \<Rightarrow> mtext" where
  "formatRate valueBps unit =
     (let n = numOr valueBps (Fin 0); isByte = (unit = ''byte'');
          m = (if isByte then nscale (1 / 8) n else n);
          units = (if isByte then [''B/s'', ''KB/s'', ''MB/s'', ''GB/s'', ''TB/s'']
                   else [''bps'', ''Kbps'', ''Mbps'', ''Gbps'', ''Tbps'']);
          d = (if isByte then 1024 else 1000)
      in if nlt m (Fin 1) then Lit ''0''
         else (case rateLoop d 0 (length units - 1) m of (i, v) \<Rightarrow>
           Fmt (if i = 0 then ''%d %s'' else ''%.2f %s'') [NumT v, Lit (units ! i)]))"

section \<open>Activity of a client\<close>

definition clientSampleMs :: "jval \<Rightarrow> jnum" where
  "clientSampleMs c = (let v = numOr (jfield c ''sample_ms'') (Fin 0)
     in if nlt (Fin 0) v then v else Fin 0)"

definition latestClientSampleMs :: "jval list \<Rightarrow> jnum" where
  "latestClientSampleMs clients = foldl (\<lambda>latest c. let sample = clientSampleMs c
     in if nlt latest sample then sample else latest) (Fin 0) clients"

definition positiveNumber :: "jval \<Rightarrow> jnum \<Rightarrow> jnum" where
  "positiveNumber v fallback = (let n = toNum v in if nlt (Fin 0) n then n else fallback)"

definition activeConfig :: "jval \<Rightarrow> jval \<Rightarrow> jval" where
  "activeConfig status overview = JObj
     [(''activeWindowMs'', JNum (positiveNumber (jfield status ''active_client_window_ms'')
         (positiveNumber (jfield overview ''active_client_window_ms'') (Fin ACTIVE_CLIENT_WINDOW_MS)))),
      (''activeMinBps'', JNum (positiveNumber (jfield status ''active_client_min_bps'')
         (positiveNumber (jfield overview ''active_client_min_bps'') (Fin ACTIVE_CLIENT_MIN_BPS))))]"

definition isNssActivityClient :: "jval \<Rightarrow> bool" where
  "isNssActivityClient c = (let mode = toStr (jor (jfield c ''collector_mode'') (JStr []))
     in mode = ''access_edge'' \<or> mode = ''nss_ecm_node'' \<or> mode = ''nss_ecm_bpf'')"

text \<open>\<open>(Number(c && c.tx_bps) || 0) + (Number(c && c.rx_bps) || 0)\<close>\<close>

definition clientRate :: "jval \<Rightarrow> jnum" where
  "clientRate c = nadd (numOr (jfield c ''tx_bps'') (Fin 0)) (numOr (jfield c ''rx_bps'') (Fin 0))"

definition isNssActiveClient :: "jval \<Rightarrow> jval \<Rightarrow> jval \<Rightarrow> bool" where
  "isNssActiveClient c nowMs config = (let sample = numOr nowMs (clientSampleMs c);
       rate = clientRate c; cfg = jor config (activeConfig JUndef JUndef);
       minBps = positiveNumber (jget cfg ''activeMinBps'') (Fin ACTIVE_CLIENT_MIN_BPS)
     in nlt (Fin 0) sample \<and> nle minBps rate)"

definition isX86ActiveClient :: "jval \<Rightarrow> jval \<Rightarrow> jval \<Rightarrow> bool" where
  "isX86ActiveClient c nowMs config = (let sample = numOr nowMs (clientSampleMs c);
       lastSeen = numOr (jfield c ''last_seen'') (Fin 0);
       rate = clientRate c; cfg = jor config (activeConfig JUndef JUndef);
       windowMs = positiveNumber (jget cfg ''activeWindowMs'') (Fin ACTIVE_CLIENT_WINDOW_MS);
       minBps = positiveNumber (jget cfg ''activeMinBps'') (Fin ACTIVE_CLIENT_MIN_BPS)
     in if nlt rate minBps then False
        else if nle sample (Fin 0) \<or> nle lastSeen (Fin 0) \<or> nlt sample lastSeen then False
        else nle (nsub sample lastSeen) windowMs)"

definition isActiveClient :: "jval \<Rightarrow> jval \<Rightarrow> jval \<Rightarrow> bool" where
  "isActiveClient c nowMs config =
     (if isNssActivityClient c then isNssActiveClient c nowMs config
      else isX86ActiveClient c nowMs config)"

record totals =
  totTx :: jnum
  totRx :: jnum
  totActive :: nat

text \<open>\<open>None\<close> is the TypeError of reading \<open>c.tx_bps\<close> of a null client.\<close>

definition sumStep :: "jnum \<Rightarrow> jval \<Rightarrow> totals option \<Rightarrow> jval \<Rightarrow> totals option" where
  "sumStep latestSample config acc c = (case acc of None \<Rightarrow> None
     | Some t \<Rightarrow> if nullish c then None
       else Some \<lparr>totTx = nadd (totTx t) (numOr (jget c ''tx_bps'') (Fin 0)),
                 totRx = nadd (totRx t) (numOr (jget c ''rx_bps'') (Fin 0)),
                 totActive = (if isActiveClient c (JNum latestSample) config
                              then Suc (totActive t) else totActive t)\<rparr>)"

definition sumTotals :: "jval list \<Rightarrow> jval \<Rightarrow> totals option" where
  "sumTotals clients config = foldl (sumStep (latestClientSampleMs clients) config)
     (Some \<lparr>totTx = Fin 0, totRx = Fin 0, totActive = 0\<rparr>) clients"

section \<open>Order of the client table\<close>

text \<open>
  The part of the comparator that depends on the sort key: \<open>Inl\<close> is an early return
  (a client without the counter goes last whatever the direction), \<open>Inr r\<close> is \<open>r\<close>.
\<close>

definition keyResult :: "(string \<Rightarrow> string \<Rightarrow> int) \<Rightarrow> string \<Rightarrow> jval \<Rightarrow> jval \<Rightarrow> jnum + jnum" where
  "keyResult collate key a b =
     (if key = ''hostname'' then Inr (compareText collate (clientDisplayName a) (clientDisplayName b))
      else if key = ''mac'' then Inr (compareText collate (jget a ''mac'') (jget b ''mac''))
      else if key = ''tx'' then
        Inr (nsub (numOr (jget a ''tx_bps'') (Fin 0)) (numOr (jget b ''tx_bps'') (Fin 0)))
      else if key = ''rx'' then
        Inr (nsub (numOr (jget a ''rx_bps'') (Fin 0)) (numOr (jget b ''rx_bps'') (Fin 0)))
      else if key = ''tcp_conns'' \<or> key = ''udp_conns'' then
        (case (jget a key, jget b key) of
           (JNum av, JNum bv) \<Rightarrow> Inr (nsub av bv)
         | (JNum av, _) \<Rightarrow> Inl (Fin (- 1))
         | (_, JNum bv) \<Rightarrow> Inl (Fin 1)
         | _ \<Rightarrow> Inr (Fin 0))
      else Inr (nsub (nadd (numOr (jget a ''tx_bps'') (Fin 0)) (numOr (jget a ''rx_bps'') (Fin 0)))
                     (nadd (numOr (jget b ''tx_bps'') (Fin 0)) (numOr (jget b ''rx_bps'') (Fin 0)))))"

definition clientCompare :: "(string \<Rightarrow> string \<Rightarrow> int) \<Rightarrow> string \<Rightarrow> string \<Rightarrow> jnum \<Rightarrow> jval \<Rightarrow>
    jval \<Rightarrow> jval \<Rightarrow> jnum" where
  "clientCompare collate key direction latestSample config a b =
     (let aActive = isActiveClient a (JNum latestSample) config;
          bActive = isActiveClient b (JNum latestSample) config
      in if aActive \<noteq> bActive then (if aActive then Fin (- 1) else Fin 1)
         else (case keyResult collate key a b of
             Inl early \<Rightarrow> early
           | Inr r \<Rightarrow> if truthy (JNum r) then (if direction = ''desc'' then nneg r else r)
               else compareText collate (identityOf a) (identityOf b)))"

definition sortClients :: "(string \<Rightarrow> string \<Rightarrow> int) \<Rightarrow> jval list \<Rightarrow> string \<Rightarrow> string \<Rightarrow> jval \<Rightarrow>
    jval \<Rightarrow> jval list" where
  "sortClients collate clients key dir nowMs config =
     (let latestSample = numOr nowMs (latestClientSampleMs clients);
          direction = (if dir = ''asc'' \<or> dir = ''desc'' then dir else defaultSortDirection)
      in jsSort (clientCompare collate key direction latestSample config) clients)"

section \<open>Filter and pages\<close>

definition joinItems :: "jval list \<Rightarrow> string" where
  "joinItems xs = joinStr '' '' (map (\<lambda>v. if nullish v then [] else toStr v) xs)"

definition matchesFilter :: "jval \<Rightarrow> string \<Rightarrow> bool" where
  "matchesFilter c term = (if term = [] then True else
     (let hay = toLowerCase (joinStr '' '' (map toStr (filter truthy
          [clientDisplayName c, jget c ''mac'', jget c ''zone'', jget c ''interface'',
           JStr (joinItems (asArray (jget c ''ips'')))])))
      in sublist (toLowerCase term) hay))"

definition normalizePageSize :: "jval \<Rightarrow> nat" where
  "normalizePageSize value = (case parseInt10 value of
       Fin q \<Rightarrow> (case find (\<lambda>s. of_nat s = q) PAGE_SIZE_CHOICES of Some s \<Rightarrow> s | None \<Rightarrow> 25)
     | _ \<Rightarrow> 25)"

record page_view =
  pvItems :: "jval list"
  pvPage :: int
  pvPageCount :: int
  pvPageSize :: nat
  pvTotal :: nat
  pvStart :: nat
  pvEnd :: nat

definition ceilDiv :: "nat \<Rightarrow> nat \<Rightarrow> nat" where
  "ceilDiv a b = nat \<lceil>(of_nat a :: rat) / of_nat b\<rceil>"

definition pageCountOf :: "nat \<Rightarrow> nat \<Rightarrow> int" where
  "pageCountOf len sz = max 1 (int (ceilDiv len sz))"

definition currentPage :: "jval \<Rightarrow> int \<Rightarrow> int" where
  "currentPage page pageCount =
     (let current = (case parseInt10 page of Fin q \<Rightarrow> \<lfloor>q\<rfloor> | _ \<Rightarrow> 1)
      in max 1 (min pageCount current))"

definition pageAt :: "jval list \<Rightarrow> nat \<Rightarrow> int \<Rightarrow> int \<Rightarrow> page_view" where
  "pageAt xs sz pageCount current =
     (let startIndex = nat (current - 1) * sz;
          endIndex = min (length xs) (startIndex + sz)
      in \<lparr>pvItems = take (endIndex - startIndex) (drop startIndex xs), pvPage = current,
          pvPageCount = pageCount, pvPageSize = sz, pvTotal = length xs,
          pvStart = (if xs \<noteq> [] then startIndex + 1 else 0), pvEnd = endIndex\<rparr>)"

definition paginate :: "jval \<Rightarrow> jval \<Rightarrow> jval \<Rightarrow> page_view" where
  "paginate items page pageSize =
     (let xs = asArray items;
          size = normalizePageSize pageSize;
          pageCount = pageCountOf (length xs) size
      in pageAt xs size pageCount (currentPage page pageCount))"

section \<open>Preferences\<close>

datatype stored = EmptyText | Malformed | Doc jval

record storage =
  items :: "string \<rightharpoonup> stored"
  readable :: bool
  writable :: bool

definition rawItem :: "storage \<Rightarrow> string \<Rightarrow> stored" where
  "rawItem st k = (case items st k of None \<Rightarrow> EmptyText | Some r \<Rightarrow> r)"

definition migrateLegacy :: "props \<Rightarrow> props" where
  "migrateLegacy ps =
     (let p1 = (if toNum (jget (JObj ps) ''refreshMs'') = Fin 3000
                then putProp ''refreshMs'' (num 1000) ps else ps)
      in if toNum (jget (JObj p1) ''nssRefreshMs'') = Fin 2000
         then putProp ''nssRefreshMs'' (num 1000) p1 else p1)"

definition fixSort :: "props \<Rightarrow> props \<Rightarrow> props" where
  "fixSort raw prefs =
     (let p1 = (case jget (JObj prefs) ''sortKey'' of
                  JStr k \<Rightarrow> if k \<in> set SORT_KEYS then prefs else putProp ''sortKey'' (JStr ''rx'') prefs
                | _ \<Rightarrow> putProp ''sortKey'' (JStr ''rx'') prefs);
          rawDir = jget (JObj raw) ''sortDir'';
          p2 = (if rawDir \<noteq> JStr ''asc'' \<and> rawDir \<noteq> JStr ''desc''
                then putProp ''sortDir'' (JStr defaultSortDirection) p1 else p1);
          p3 = (if \<not> isBool (jget (JObj raw) ''sortCustom'')
                then putProp ''sortCustom'' (JBool (jget (JObj p2) ''sortKey'' \<noteq> JStr ''rx'' \<or>
                       jget (JObj p2) ''sortDir'' \<noteq> JStr ''desc'')) p2 else p2)
      in if truthy (jget (JObj p3) ''sortCustom'') then p3
         else putProp ''sortDir'' (JStr ''desc'') (putProp ''sortKey'' (JStr ''rx'') p3))"

definition finishPrefs :: "props \<Rightarrow> props" where
  "finishPrefs raw =
     (let p = fixSort raw (assignProps DEFAULT_PREFS raw);
          q = putProp ''nssRefreshMs'' (JNum (normalizeNssRefreshMs (jget (JObj p) ''nssRefreshMs''))) p
      in putProp ''pageSize'' (num (of_nat (normalizePageSize (jget (JObj q) ''pageSize'')))) q)"

definition loadPrefs :: "storage \<Rightarrow> storage \<times> props" where
  "loadPrefs st = (if \<not> readable st then (st, DEFAULT_PREFS) else
     (let legacy = (rawItem st PREF_KEY = EmptyText);
          raw = (if legacy then rawItem st LEGACY_PREF_KEY else rawItem st PREF_KEY)
      in case raw of
           Doc (JObj ps) \<Rightarrow>
             if legacy then
               (if \<not> writable st then (st, DEFAULT_PREFS)
                else (let m = migrateLegacy ps
                      in (st\<lparr>items := (items st)(PREF_KEY \<mapsto> Doc (JObj m))\<rparr>, finishPrefs m)))
             else (st, finishPrefs ps)
         | _ \<Rightarrow> (st, DEFAULT_PREFS)))"

definition savePrefs :: "storage \<Rightarrow> props \<Rightarrow> storage" where
  "savePrefs st p = (if readable st \<and> writable st
     then st\<lparr>items := (items st)(PREF_KEY \<mapsto> Doc (JObj p))\<rparr> else st)"

section \<open>Pages\<close>

lemma parseInt10_showNat:
  assumes "toStr v = showNat n"
  shows "parseInt10 v = Fin (of_nat n)"
proof -
  have d: "list_all isDigit (showNat n)" by (rule showNat_digits)
  then have "dropWhile isSpace (showNat n) = showNat n"
    by (cases "showNat n") (auto simp: isDigit_not_space)
  then show ?thesis
    using assms digits_not_sign [OF d showNat_nonempty]
    by (simp add: parseInt10_def Let_def)
qed

lemma parseInt10_of_nat [simp]: "parseInt10 (num (of_nat n)) = Fin (of_nat n)"
  by (rule parseInt10_showNat) simp

lemma normalizePageSize_choice: "normalizePageSize v \<in> set PAGE_SIZE_CHOICES"
proof -
  have d: "(25 :: nat) \<in> set PAGE_SIZE_CHOICES" by (simp add: PAGE_SIZE_CHOICES_def)
  then show ?thesis
    by (auto simp: normalizePageSize_def find_Some_iff split: jnum.split option.split)
qed

lemma normalizePageSize_pos [simp]: "0 < normalizePageSize v"
  using normalizePageSize_choice [of v] by (auto simp: PAGE_SIZE_CHOICES_def)

lemma normalizePageSize_id:
  assumes "s \<in> set PAGE_SIZE_CHOICES"
  shows "normalizePageSize (num (of_nat s)) = s"
proof -
  have "normalizePageSize (num (of_nat s)) =
      (case find (\<lambda>x. x = s) PAGE_SIZE_CHOICES of Some x \<Rightarrow> x | None \<Rightarrow> 25)"
    unfolding normalizePageSize_def parseInt10_of_nat by simp
  then show ?thesis using assms by (auto simp: PAGE_SIZE_CHOICES_def)
qed

lemma ceilDiv_covers: "0 < b \<Longrightarrow> a \<le> ceilDiv a b * b"
proof -
  assume b: "0 < b"
  have "(of_nat a :: rat) / of_nat b \<le> of_int \<lceil>(of_nat a :: rat) / of_nat b\<rceil>" by simp
  also have "\<dots> = of_nat (ceilDiv a b)"
    by (simp add: ceilDiv_def ceiling_divide_eq_div of_nat_nat)
  finally have "(of_nat a :: rat) \<le> of_nat (ceilDiv a b * b)"
    using b by (simp add: divide_le_eq)
  then show ?thesis by (simp only: of_nat_le_iff)
qed

lemma ceilDiv_tight: "0 < b \<Longrightarrow> 0 < a \<Longrightarrow> (ceilDiv a b - 1) * b < a"
proof -
  assume b: "0 < b" and a: "0 < a"
  have "(of_nat (ceilDiv a b) :: rat) = of_int \<lceil>(of_nat a :: rat) / of_nat b\<rceil>"
    by (simp add: ceilDiv_def ceiling_divide_eq_div of_nat_nat)
  also have "\<dots> < of_nat a / of_nat b + 1" by linarith
  finally have "(of_nat (ceilDiv a b) :: rat) * of_nat b < of_nat a + of_nat b"
    using b by (simp add: field_simps)
  then have "of_nat (ceilDiv a b * b) < (of_nat (a + b) :: rat)" by simp
  then have "ceilDiv a b * b < a + b" by (simp only: of_nat_less_iff)
  then show ?thesis using a b by (simp add: diff_mult_distrib)
qed

lemma concat_chunks: "concat (map (\<lambda>i. take s (drop (i * s) xs)) [0..<n]) = take (n * s) xs"
proof (induction n)
  case (Suc n)
  have "take (n * s) xs @ take s (drop (n * s) xs) = take (n * s + s) xs"
    by (simp add: take_add)
  with Suc show ?case by (simp add: add.commute)
qed simp

lemma take_end_eq: "take (min (length xs) (i + s) - i) (drop i xs) = take s (drop i xs)"
  by (cases "i \<le> length xs") (auto simp: min_def)

lemma pageAt_fields:
  "pvItems (pageAt xs s n c) = take s (drop (nat (c - 1) * s) xs)"
  "pvPage (pageAt xs s n c) = c" "pvPageCount (pageAt xs s n c) = n"
  "pvPageSize (pageAt xs s n c) = s" "pvTotal (pageAt xs s n c) = length xs"
  "pvEnd (pageAt xs s n c) = min (length xs) (nat (c - 1) * s + s)"
  "xs \<noteq> [] \<Longrightarrow> pvStart (pageAt xs s n c) = nat (c - 1) * s + 1"
  by (simp_all add: pageAt_def Let_def take_end_eq)

lemma paginate_fields:
  fixes items page pageSize :: jval
  defines "s \<equiv> normalizePageSize pageSize" and "xs \<equiv> asArray items"
  shows "paginate items page pageSize =
    pageAt xs s (pageCountOf (length xs) s) (currentPage page (pageCountOf (length xs) s))"
  by (simp add: paginate_def s_def xs_def Let_def)

lemma currentPage_bounds: "1 \<le> n \<Longrightarrow> 1 \<le> currentPage page n \<and> currentPage page n \<le> n"
  by (simp add: currentPage_def)

lemma currentPage_id: "1 \<le> k \<Longrightarrow> int k \<le> n \<Longrightarrow> currentPage (num (of_nat k)) n = int k"
  unfolding currentPage_def parseInt10_of_nat by simp

lemma pageCountOf_ge1: "1 \<le> pageCountOf n s"
  by (simp add: pageCountOf_def)

lemma pageCountOf_covers: "0 < s \<Longrightarrow> n \<le> nat (pageCountOf n s) * s"
  using ceilDiv_covers [of s n] by (cases "ceilDiv n s = 0") (auto simp: pageCountOf_def max_def)

lemma page_start_less:
  assumes "0 < s" "0 < n" "c \<le> pageCountOf n s"
  shows "nat (c - 1) * s < n"
proof -
  have "nat (c - 1) \<le> ceilDiv n s - 1" using assms(3) by (auto simp: pageCountOf_def)
  then have "nat (c - 1) * s \<le> (ceilDiv n s - 1) * s" by simp
  also have "\<dots> < n" using ceilDiv_tight assms by simp
  finally show ?thesis .
qed

text \<open>
  Going through the pages 1 to the page count shows every client of the table exactly
  once, in order: the pages concatenate to the list.
\<close>

theorem paginate_partition:
  "concat (map (\<lambda>k. pvItems (paginate (JArr xs) (num (of_nat k)) sz))
     [1..<Suc (nat (pvPageCount (paginate (JArr xs) JUndef sz)))]) = xs"
proof -
  define s where "s = normalizePageSize sz"
  define n where "n = pageCountOf (length xs) s"
  have cnt: "pvPageCount (paginate (JArr xs) JUndef sz) = n"
    by (simp add: paginate_fields pageAt_fields n_def s_def asArray_def)
  have page: "pvItems (paginate (JArr xs) (num (of_nat k)) sz) = take s (drop ((k - 1) * s) xs)"
    if "k \<in> set [1..<Suc (nat n)]" for k
  proof -
    have "1 \<le> k" "int k \<le> n" using that by auto
    then have "currentPage (num (of_nat k)) n = int k" by (rule currentPage_id)
    moreover have "nat (int k - 1) = k - 1" by simp
    ultimately show ?thesis
      unfolding paginate_fields pageAt_fields asArray_def arrItems.simps
        n_def [symmetric] s_def [symmetric] by simp
  qed
  have "map (\<lambda>k. pvItems (paginate (JArr xs) (num (of_nat k)) sz)) [1..<Suc (nat n)] =
        map (\<lambda>k. take s (drop ((k - 1) * s) xs)) (map Suc [0..<nat n])"
    using page by (simp add: map_Suc_upt del: upt_Suc cong: map_cong)
  moreover have "length xs \<le> nat n * s"
    by (simp add: n_def s_def pageCountOf_covers)
  ultimately show ?thesis by (simp add: cnt concat_chunks comp_def del: upt_Suc)
qed

text \<open>
  C40: whatever page is asked for, the page shown exists; it holds the items from \<open>start\<close>
  to \<open>end\<close> and at most one page size of them, and it is empty only if the table is.
\<close>

theorem paginate_window:
  fixes items page pageSize :: jval
  defines "v \<equiv> paginate items page pageSize" and "xs \<equiv> asArray items"
  shows "1 \<le> pvPage v \<and> pvPage v \<le> pvPageCount v \<and> length (pvItems v) \<le> pvPageSize v \<and>
    pvItems v = take (pvEnd v - (pvStart v - 1)) (drop (pvStart v - 1) xs) \<and>
    pvEnd v \<le> pvTotal v \<and> (pvItems v = [] \<longleftrightarrow> xs = [])"
proof -
  define s where "s = normalizePageSize pageSize"
  define n where "n = pageCountOf (length xs) s"
  define c where "c = currentPage page n"
  have v: "v = pageAt xs s n c"
    unfolding v_def xs_def s_def n_def c_def by (rule paginate_fields)
  have c: "1 \<le> c" "c \<le> n"
    using currentPage_bounds [of n page] pageCountOf_ge1 [of "length xs" s]
    by (simp_all add: c_def n_def)
  have s: "0 < s" by (simp add: s_def)
  have "nat (c - 1) * s < length xs" if "xs \<noteq> []"
    using page_start_less [OF s _ c(2) [unfolded n_def]] that by simp
  then show ?thesis
    using c s by (cases "xs = []") (simp_all add: v pageAt_fields take_end_eq)
qed

section \<open>The order of the client table\<close>

text \<open>
  What ECMAScript promises of \<open>localeCompare\<close>: it is a consistent comparator.
\<close>

definition collation :: "(string \<Rightarrow> string \<Rightarrow> int) \<Rightarrow> bool" where
  "collation collate \<longleftrightarrow> consistent UNIV (\<lambda>a b. Fin (of_int (collate a b)))"

definition activeCompare :: "jnum \<Rightarrow> jval \<Rightarrow> jval \<Rightarrow> jval \<Rightarrow> jnum" where
  "activeCompare latest config a b =
     (let aA = isActiveClient a (JNum latest) config; bA = isActiveClient b (JNum latest) config
      in if aA = bA then Fin 0 else if aA then Fin (- 1) else Fin 1)"

definition missingCompare :: "string \<Rightarrow> jval \<Rightarrow> jval \<Rightarrow> jnum" where
  "missingCompare key a b =
     (if key \<noteq> ''tcp_conns'' \<and> key \<noteq> ''udp_conns'' then Fin 0
      else if isNum (jget a key) = isNum (jget b key) then Fin 0
      else if isNum (jget a key) then Fin (- 1) else Fin 1)"

definition valueCompare :: "(string \<Rightarrow> string \<Rightarrow> int) \<Rightarrow> string \<Rightarrow> jval \<Rightarrow> jval \<Rightarrow> jnum" where
  "valueCompare collate key a b = (case keyResult collate key a b of Inl _ \<Rightarrow> Fin 0 | Inr r \<Rightarrow> r)"

lemma numOr_not_NaN [simp]: "d \<noteq> NaN \<Longrightarrow> numOr v d \<noteq> NaN"
  by (auto simp: numOr_def)

lemma consistent_flag: "consistent A (\<lambda>a b. if p a = p b then Fin 0 else if p a then Fin (- 1) else Fin 1)"
  unfolding consistent_def by (auto split: if_splits)

lemma consistent_active: "consistent A (activeCompare latest config)"
  unfolding activeCompare_def Let_def by (rule consistent_flag)

lemma consistent_missing: "consistent A (missingCompare key)"
proof (cases "key \<noteq> ''tcp_conns'' \<and> key \<noteq> ''udp_conns''")
  case True
  then have "missingCompare key = (\<lambda>a b. Fin 0)" by (simp add: fun_eq_iff missingCompare_def)
  then show ?thesis by (simp add: consistent_zero)
next
  case False
  then have "missingCompare key = (\<lambda>a b. if isNum (jget a key) = isNum (jget b key) then Fin 0
      else if isNum (jget a key) then Fin (- 1) else Fin 1)"
    by (auto simp: fun_eq_iff missingCompare_def)
  then show ?thesis by (simp only: consistent_flag)
qed

lemma consistent_compareText:
  "collation collate \<Longrightarrow> consistent A (\<lambda>a b. compareText collate (k a) (k b))"
  unfolding collation_def compareText_def
  by (rule consistent_key [where k = "\<lambda>a. toStr (jor (k a) (JStr []))"]) auto

lemma consistent_rate:
  "consistent A (\<lambda>a b. nsub (numOr (k a) (Fin 0)) (numOr (k b) (Fin 0)))"
  by (rule consistent_key [OF consistent_nsub]) auto

text \<open>A connection counter, with a stand-in for the clients that lack it.\<close>

definition counterOf :: "string \<Rightarrow> jval \<Rightarrow> jnum" where
  "counterOf key a = (case jget a key of JNum n \<Rightarrow> n | _ \<Rightarrow> Fin 0)"

definition counterKey :: "string \<Rightarrow> bool" where
  "counterKey key \<longleftrightarrow> key = ''tcp_conns'' \<or> key = ''udp_conns''"

lemma missingCompare_alt: "missingCompare key a b = (if \<not> counterKey key then Fin 0
    else if isNum (jget a key) = isNum (jget b key) then Fin 0
    else if isNum (jget a key) then Fin (- 1) else Fin 1)"
  by (auto simp: missingCompare_def counterKey_def)

lemma keyResult_counter:
  assumes "counterKey key"
  shows "keyResult collate key a b =
    (if isNum (jget a key) \<and> isNum (jget b key) then Inr (nsub (counterOf key a) (counterOf key b))
     else if isNum (jget a key) then Inl (Fin (- 1))
     else if isNum (jget b key) then Inl (Fin 1) else Inr (Fin 0))"
proof -
  have "keyResult collate key a b = (case (jget a key, jget b key) of
           (JNum av, JNum bv) \<Rightarrow> Inr (nsub av bv)
         | (JNum av, _) \<Rightarrow> Inl (Fin (- 1))
         | (_, JNum bv) \<Rightarrow> Inl (Fin 1)
         | _ \<Rightarrow> Inr (Fin 0))"
    using assms unfolding counterKey_def by (auto simp: keyResult_def)
  then show ?thesis by (auto simp: counterOf_def split: jval.split)
qed

lemma keyResult_other: "\<not> counterKey key \<Longrightarrow> \<exists>r. keyResult collate key a b = Inr r"
  by (simp add: keyResult_def counterKey_def)

text \<open>
  With the missing-counter test in front, the order by counter may compare the stand-ins:
  two clients without the counter tie, and a mixed pair is already decided.
\<close>

lemma lex_missing_counter:
  assumes "counterKey key" and f: "f (Fin 0) = Fin 0"
  shows "lexCompare (missingCompare key) (lexCompare (\<lambda>a b. f (valueCompare collate key a b)) g) a b =
    lexCompare (missingCompare key)
      (lexCompare (\<lambda>a b. f (nsub (counterOf key a) (counterOf key b))) g) a b"
proof (cases "isNum (jget a key) = isNum (jget b key)")
  case True
  have "counterOf key c = Fin 0" if "\<not> isNum (jget c key)" for c
    using that by (auto simp: counterOf_def split: jval.split)
  with True assms show ?thesis
    by (simp add: lexCompare_def missingCompare_alt valueCompare_def keyResult_counter nsub_def)
next
  case False
  then show ?thesis using assms by (simp add: lexCompare_def missingCompare_alt)
qed

lemma consistent_counter:
  "\<forall>c \<in> A. jget c key \<noteq> JNum NaN \<Longrightarrow> consistent A (\<lambda>a b. nsub (counterOf key a) (counterOf key b))"
  by (rule consistent_key [OF consistent_nsub]) (auto simp: counterOf_def split: jval.splits)

lemma consistent_valueCompare:
  assumes "collation collate" "key \<in> set SORT_KEYS" "\<not> counterKey key"
  shows "consistent A (valueCompare collate key)"
proof -
  have "valueCompare collate key =
      (if key = ''hostname''
       then (\<lambda>a b. compareText collate (clientDisplayName a) (clientDisplayName b))
       else if key = ''mac'' then (\<lambda>a b. compareText collate (jget a ''mac'') (jget b ''mac''))
       else if key = ''tx''
       then (\<lambda>a b. nsub (numOr (jget a ''tx_bps'') (Fin 0)) (numOr (jget b ''tx_bps'') (Fin 0)))
       else (\<lambda>a b. nsub (numOr (jget a ''rx_bps'') (Fin 0)) (numOr (jget b ''rx_bps'') (Fin 0))))"
    using assms
    by (auto simp: fun_eq_iff valueCompare_def keyResult_def SORT_KEYS_def counterKey_def)
  then show ?thesis
    by (simp add: consistent_compareText [OF assms(1)] consistent_rate)
qed

lemma truthy_nneg [simp]: "(nneg n \<noteq> NaN \<and> nneg n \<noteq> Fin 0) = (n \<noteq> NaN \<and> n \<noteq> Fin 0)"
  by (cases n) auto

text \<open>The direction: \<open>desc\<close> negates the comparison by value.\<close>

definition directed :: "string \<Rightarrow> jnum \<Rightarrow> jnum" where
  "directed direction r = (if direction = ''desc'' then nneg r else r)"

lemma clientCompare_lex:
  "clientCompare collate key direction latest config = lexCompare (activeCompare latest config)
     (lexCompare (missingCompare key)
       (lexCompare (\<lambda>a b. directed direction (valueCompare collate key a b))
         (\<lambda>a b. compareText collate (identityOf a) (identityOf b))))"
proof (intro ext)
  fix a b
  have "(\<exists>e. keyResult collate key a b = Inl e \<and> missingCompare key a b = e \<and> truthy (JNum e)) \<or>
      (\<exists>r. keyResult collate key a b = Inr r \<and> missingCompare key a b = Fin 0)"
    using keyResult_other [of key collate a b]
    by (cases "counterKey key") (auto simp: missingCompare_alt keyResult_counter)
  then show "clientCompare collate key direction latest config a b =
    lexCompare (activeCompare latest config) (lexCompare (missingCompare key)
       (lexCompare (\<lambda>a b. directed direction (valueCompare collate key a b))
         (\<lambda>a b. compareText collate (identityOf a) (identityOf b)))) a b"
    by (auto simp: clientCompare_def activeCompare_def lexCompare_def valueCompare_def directed_def Let_def)
qed

lemma consistent_directed: "consistent A f \<Longrightarrow> consistent A (\<lambda>a b. directed direction (f a b))"
  by (cases "direction = ''desc''") (simp_all add: directed_def consistent_neg)

lemma clientCompare_consistent:
  assumes col: "collation collate" and key: "key \<in> set SORT_KEYS"
    and nan: "\<forall>c \<in> A. jget c key \<noteq> JNum NaN"
  shows "consistent A (clientCompare collate key direction latest config)"
proof -
  note rules = consistent_lex consistent_active consistent_missing consistent_directed
    consistent_compareText [OF col]
  show ?thesis
  proof (cases "counterKey key")
    case True
    have "directed direction (Fin 0) = Fin 0" by (simp add: directed_def)
    note eq = lex_missing_counter [OF True, of "directed direction", OF this, THEN ext, THEN ext]
    show ?thesis
      unfolding clientCompare_lex eq by (intro rules consistent_counter [OF nan])
  next
    case False
    then show ?thesis
      unfolding clientCompare_lex by (intro rules consistent_valueCompare col key)
  qed
qed

text \<open>
  For every sort key of the table and both directions, the table shown is a permutation
  of the clients, ordered by the table's comparator, and every active client stands before
  every inactive one. The collation is any consistent one, and no client has NaN (which JSON
  cannot carry) in the sort column.
\<close>

theorem sortClients_correct:
  fixes nowMs config :: jval and dir key :: string and clients :: "jval list"
  assumes "collation collate" "key \<in> set SORT_KEYS" "\<forall>c \<in> set clients. jget c key \<noteq> JNum NaN"
  defines "latest \<equiv> numOr nowMs (latestClientSampleMs clients)"
    and "direction \<equiv> if dir = ''asc'' \<or> dir = ''desc'' then dir else ''desc''"
    and "out \<equiv> sortClients collate clients key dir nowMs config"
  shows "mset out = mset clients \<and>
    sorted_wrt (\<lambda>a b. \<not> positive (clientCompare collate key direction latest config a b)) out \<and>
    (\<forall>i j. i < j \<longrightarrow> j < length out \<longrightarrow> isActiveClient (out ! j) (JNum latest) config \<longrightarrow>
       isActiveClient (out ! i) (JNum latest) config)"
proof -
  let ?cmp = "clientCompare collate key direction latest config"
  have out: "out = jsSort ?cmp clients"
    by (simp add: out_def sortClients_def Let_def latest_def direction_def defaultSortDirection_def)
  have "consistent (set clients) ?cmp"
    by (intro clientCompare_consistent assms)
  then have cmp: "js_comparator (set clients) ?cmp" by (rule consistent_comparator)
  have sorted: "sorted_wrt (\<lambda>a b. \<not> positive (?cmp a b)) out"
    using js_comparator.sorted_sort [OF cmp, of clients]
    by (simp add: out js_comparator.le_def [OF cmp, abs_def])
  have "isActiveClient (out ! i) (JNum latest) config"
    if "i < j" "j < length out" "isActiveClient (out ! j) (JNum latest) config" for i j
  proof (rule ccontr)
    assume "\<not> isActiveClient (out ! i) (JNum latest) config"
    then have "?cmp (out ! i) (out ! j) = Fin 1" using that by (simp add: clientCompare_def)
    then show False
      using sorted_wrt_nth_less [OF sorted that(1,2)] by (simp add: positive_def)
  qed
  with sorted show ?thesis by (auto simp: out)
qed

theorem sortClients_correct_witness:
  "let cs = [JObj [(''mac'', JStr ''aa''), (''tcp_conns'', num 3)],
             JObj [(''mac'', JStr ''b''), (''tx_bps'', num 8), (''sample_ms'', num 50), (''last_seen'', num 40)]]
   in mset (sortClients (\<lambda>a b. int (length a) - int (length b)) cs ''tcp_conns'' ''asc'' JUndef JUndef) = mset cs"
proof -
  let ?cs = "[JObj [(''mac'', JStr ''aa''), (''tcp_conns'', num 3)],
    JObj [(''mac'', JStr ''b''), (''tx_bps'', num 8), (''sample_ms'', num 50), (''last_seen'', num 40)]]"
  let ?col = "\<lambda>a b :: string. int (length a) - int (length b)"
  have "consistent UNIV (\<lambda>a b :: string. nsub (Fin (of_nat (length a))) (Fin (of_nat (length b))))"
    by (rule consistent_key [OF consistent_nsub]) auto
  then have c: "collation ?col" by (simp add: collation_def nsub_def)
  have k: "''tcp_conns'' \<in> set SORT_KEYS" by (simp add: SORT_KEYS_def)
  have n: "\<forall>c \<in> set ?cs. jget c ''tcp_conns'' \<noteq> JNum NaN" by (simp add: protoKeys_def jget.simps)
  from sortClients_correct [OF c k n, where nowMs = JUndef and dir = "''asc''" and config = JUndef] show ?thesis
    unfolding Let_def by (elim conjE)
qed

section \<open>Refresh period, totals, rates\<close>

text \<open>
  The refresh timer is never set below one second, whatever the stored preferences hold;
  while an NSS collector is the rate source it is one of the offered NSS periods.
\<close>

theorem effectiveRefreshMs_bounds:
  "nle (Fin 1000) (effectiveRefreshMs status prefs) \<and>
   (nssRefreshRestricted status \<longrightarrow>
      (\<exists>choice \<in> set NSS_REFRESH_CHOICES. effectiveRefreshMs status prefs = Fin choice))"
proof -
  have choice: "\<exists>c \<in> set NSS_REFRESH_CHOICES. normalizeNssRefreshMs v = Fin c" for v
  proof (cases "list_ex (\<lambda>c. toNum v = Fin c) NSS_REFRESH_CHOICES")
    case True
    then show ?thesis by (auto simp: normalizeNssRefreshMs_def list_ex_iff)
  next
    case False
    moreover have "NSS_REFRESH_MS \<in> set NSS_REFRESH_CHOICES"
      by (simp add: NSS_REFRESH_MS_def NSS_REFRESH_CHOICES_def)
    ultimately show ?thesis by (auto simp: normalizeNssRefreshMs_def)
  qed
  have low: "c \<in> set NSS_REFRESH_CHOICES \<Longrightarrow> 1000 \<le> c" for c
    by (auto simp: NSS_REFRESH_CHOICES_def)
  have "nle (Fin 1000) (nmax (Fin 1000) n)" if "n \<noteq> NaN" for n
    using that by (cases n) auto
  then have "nle (Fin 1000) (effectiveRefreshMs status prefs)"
    using choice [of "jfield prefs ''nssRefreshMs''"] low
    by (auto simp: effectiveRefreshMs_def MIN_REFRESH_MS_def)
  then show ?thesis using choice by (simp add: effectiveRefreshMs_def)
qed

theorem effectiveRefreshMs_bounds_witness:
  "let status = JObj [(''evidence'', JObj [(''effective_collector'', JStr ''nss_ecm_bpf''),
         (''platform'', JObj [(''profile'', JStr ''nss_aarch64'')])])]
   in nssRefreshRestricted status \<and>
      (\<exists>choice \<in> set NSS_REFRESH_CHOICES.
         effectiveRefreshMs status (JObj [(''nssRefreshMs'', num 3000)]) = Fin choice)"
proof -
  define status where "status = JObj [(''evidence'', JObj [(''effective_collector'', JStr ''nss_ecm_bpf''),
         (''platform'', JObj [(''profile'', JStr ''nss_aarch64'')])])]"
  have "nssRefreshRestricted status" unfolding status_def by code_simp
  then show ?thesis
    using effectiveRefreshMs_bounds [of status "JObj [(''nssRefreshMs'', num 3000)]"]
    by (simp add: status_def)
qed

text \<open>The sum of a numeric column.\<close>

definition columnSum :: "string \<Rightarrow> jval list \<Rightarrow> jnum" where
  "columnSum k cs = foldl (\<lambda>a c. nadd a (numOr (jget c k) (Fin 0))) (Fin 0) cs"

lemma sumStep_fold:
  "foldl (sumStep l cfg) (Some t) cs = (if \<exists>c \<in> set cs. nullish c then None
     else Some \<lparr>totTx = foldl (\<lambda>a c. nadd a (numOr (jget c ''tx_bps'') (Fin 0))) (totTx t) cs,
               totRx = foldl (\<lambda>a c. nadd a (numOr (jget c ''rx_bps'') (Fin 0))) (totRx t) cs,
               totActive = totActive t + length (filter (\<lambda>c. isActiveClient c (JNum l) cfg) cs)\<rparr>)"
proof (induction cs arbitrary: t)
  case (Cons c cs)
  have none: "foldl (sumStep l cfg) None xs = None" for xs
    by (induction xs) (simp_all add: sumStep_def)
  show ?case
  proof (cases "nullish c")
    case True
    then have "sumStep l cfg (Some t) c = None" by (simp add: sumStep_def)
    with True show ?thesis by (simp add: none)
  next
    case False
    then have "sumStep l cfg (Some t) c =
        Some \<lparr>totTx = nadd (totTx t) (numOr (jget c ''tx_bps'') (Fin 0)),
              totRx = nadd (totRx t) (numOr (jget c ''rx_bps'') (Fin 0)),
              totActive = (if isActiveClient c (JNum l) cfg
                           then Suc (totActive t) else totActive t)\<rparr>"
      by (simp add: sumStep_def)
    with False show ?thesis by (simp add: Cons.IH)
  qed
qed simp

text \<open>
  The totals line adds up the columns and counts exactly the clients the activity test
  accepts against the newest sample; it fails (TypeError) exactly when a client is null.
\<close>

theorem sumTotals_correct:
  "sumTotals clients config = (if \<exists>c \<in> set clients. nullish c then None
     else Some \<lparr>totTx = columnSum ''tx_bps'' clients, totRx = columnSum ''rx_bps'' clients,
       totActive = length (filter (\<lambda>c. isActiveClient c (JNum (latestClientSampleMs clients)) config)
         clients)\<rparr>)"
  by (simp add: sumTotals_def sumStep_fold columnSum_def)

lemma rateLoop_value:
  assumes "0 < d" "rateLoop d i r (Fin q) = (j, v)"
  shows "\<exists>x. v = Fin x \<and> x * d ^ j = q * d ^ i \<and> i \<le> j \<and> j \<le> i + r \<and>
    (x < d \<or> j = i + r) \<and> (i < j \<longrightarrow> 1 \<le> x)"
  using assms
proof (induction r arbitrary: i q)
  case (Suc r)
  show ?case
  proof (cases "d \<le> q")
    case True
    with Suc.prems have "rateLoop d (Suc i) r (Fin (1 / d * q)) = (j, v)" by simp
    from Suc.IH [OF Suc.prems(1) this] obtain x where x: "v = Fin x"
      "x * d ^ j = 1 / d * q * d ^ Suc i" "Suc i \<le> j" "j \<le> Suc i + r" "x < d \<or> j = Suc i + r"
      "Suc i < j \<longrightarrow> 1 \<le> x" by blast
    have "x * d ^ j = q * d ^ i" using x(2) Suc.prems(1) by simp
    moreover have "1 \<le> x"
    proof (cases "Suc i < j")
      case False
      then have "j = Suc i" using x(3) by simp
      then have "x * d = q" using \<open>x * d ^ j = q * d ^ i\<close> Suc.prems(1) by simp
      then show ?thesis using True Suc.prems(1) by (metis mult_le_cancel_right1 not_less)
    qed (use x in simp)
    ultimately show ?thesis using x by auto
  qed (use Suc.prems in auto)
qed simp

text \<open>
  The rate shown is the rate: for a finite rate of at least one unit, the number and the
  unit printed multiply back to it, and the number is below the next unit's threshold unless
  the largest unit is reached. A rate below one unit prints as zero.
\<close>

theorem formatRate_value:
  fixes q :: rat and unit :: string
  defines "isByte \<equiv> (unit = ''byte'')"
  defines "m \<equiv> if isByte then q / 8 else q"
    and "d \<equiv> if isByte then 1024 else 1000"
    and "units \<equiv> if isByte then [''B/s'', ''KB/s'', ''MB/s'', ''GB/s'', ''TB/s'']
                 else [''bps'', ''Kbps'', ''Mbps'', ''Gbps'', ''Tbps'']"
  shows "if m < 1 then formatRate (num q) unit = Lit ''0''
    else \<exists>i x. i \<le> 4 \<and> x * d ^ i = m \<and> 1 \<le> x \<and> (x < d \<or> i = 4) \<and>
      formatRate (num q) unit =
        Fmt (if i = 0 then ''%d %s'' else ''%.2f %s'') [NumT (Fin x), Lit (units ! i)]"
proof (cases "m < 1")
  case True
  have "numOr (num q) (Fin 0) = Fin q" by (simp add: numOr_def)
  then show ?thesis
    using True by (cases "unit = ''byte''") (simp_all add: formatRate_def m_def isByte_def Let_def)
next
  case False
  have num: "numOr (num q) (Fin 0) = Fin q" by (simp add: numOr_def)
  have len: "length units - 1 = 4" by (simp add: units_def)
  obtain i v where loop: "rateLoop d 0 4 (Fin m) = (i, v)" by fastforce
  then have loop': "rateLoop d 0 (Suc (Suc (Suc (Suc 0)))) (Fin m) = (i, v)"
    by (simp add: eval_nat_numeral del: rateLoop.simps)
  have "0 < d" by (simp add: d_def)
  from rateLoop_value [OF this loop] obtain x where x: "v = Fin x" "x * d ^ i = m" "i \<le> 4"
    "x < d \<or> i = 4" "0 < i \<longrightarrow> 1 \<le> x" by auto
  have "1 \<le> x" using x False by (cases i) auto
  moreover have "formatRate (num q) unit =
      Fmt (if i = 0 then ''%d %s'' else ''%.2f %s'') [NumT (Fin x), Lit (units ! i)]"
    using False loop' x(1) num
    by (cases "unit = ''byte''")
      (simp_all add: formatRate_def Let_def m_def d_def units_def isByte_def del: rateLoop.simps)
  ultimately show ?thesis using x False by auto
qed

text \<open>
  The three-state header: three clicks on one column, starting from the default order or
  from another column, run through descending and ascending and end at the default order.
\<close>

theorem nextSort_cycle:
  assumes "\<not> sortCustom p \<or> sortKey p \<noteq> k"
  shows "nextSort p k = \<lparr>sortKey = k, sortDir = ''desc'', sortCustom = True\<rparr> \<and>
    nextSort (nextSort p k) k = \<lparr>sortKey = k, sortDir = ''asc'', sortCustom = True\<rparr> \<and>
    nextSort (nextSort (nextSort p k) k) k = \<lparr>sortKey = ''rx'', sortDir = ''desc'', sortCustom = False\<rparr>"
  using assms by (auto simp: nextSort_def)

theorem nextSort_cycle_witness:
  "nextSort (nextSort \<lparr>sortKey = ''tx'', sortDir = ''asc'', sortCustom = True\<rparr> ''mac'') ''mac'' =
   \<lparr>sortKey = ''mac'', sortDir = ''asc'', sortCustom = True\<rparr>"
proof -
  let ?p = "\<lparr>sortKey = ''tx'', sortDir = ''asc'', sortCustom = True\<rparr>"
  have "\<not> sortCustom ?p \<or> sortKey ?p \<noteq> ''mac''" by simp
  from nextSort_cycle [OF this] show ?thesis by (elim conjE)
qed

section \<open>Preferences\<close>

text \<open>What the page relies on when it uses the preferences.\<close>

definition prefsValid :: "props \<Rightarrow> bool" where
  "prefsValid p \<longleftrightarrow>
     (\<exists>k \<in> set SORT_KEYS. jget (JObj p) ''sortKey'' = JStr k) \<and>
     (\<exists>d \<in> {''asc'', ''desc''}. jget (JObj p) ''sortDir'' = JStr d) \<and>
     (\<exists>b. jget (JObj p) ''sortCustom'' = JBool b \<and>
        (\<not> b \<longrightarrow> jget (JObj p) ''sortKey'' = JStr ''rx'' \<and> jget (JObj p) ''sortDir'' = JStr ''desc'')) \<and>
     (\<exists>c \<in> set NSS_REFRESH_CHOICES. jget (JObj p) ''nssRefreshMs'' = num c) \<and>
     (\<exists>s \<in> set PAGE_SIZE_CHOICES. jget (JObj p) ''pageSize'' = num (of_nat s))"

lemma protoKeys_pref: "k \<in> {''sortKey'', ''sortDir'', ''sortCustom'', ''nssRefreshMs'', ''pageSize''} \<Longrightarrow>
    k \<notin> set protoKeys"
  by (auto simp: protoKeys_def)

lemma normalizeNssRefreshMs_choice:
  "\<exists>c \<in> set NSS_REFRESH_CHOICES. JNum (normalizeNssRefreshMs v) = num c"
proof (cases "list_ex (\<lambda>c. toNum v = Fin c) NSS_REFRESH_CHOICES")
  case True
  then show ?thesis by (auto simp: normalizeNssRefreshMs_def list_ex_iff)
next
  case False
  moreover have "NSS_REFRESH_MS \<in> set NSS_REFRESH_CHOICES"
    by (simp add: NSS_REFRESH_MS_def NSS_REFRESH_CHOICES_def)
  ultimately show ?thesis by (auto simp: normalizeNssRefreshMs_def)
qed

text \<open>The three sort fields after \<open>fixSort\<close>, for preferences whose direction and flag are the stored ones.\<close>

lemma fixSort_fields:
  assumes dir: "jget (JObj raw) ''sortDir'' \<in> {JStr ''asc'', JStr ''desc''} \<Longrightarrow>
      jget (JObj prefs) ''sortDir'' = jget (JObj raw) ''sortDir''"
    and flag: "isBool (jget (JObj raw) ''sortCustom'') \<Longrightarrow>
      jget (JObj prefs) ''sortCustom'' = jget (JObj raw) ''sortCustom''"
  defines "out \<equiv> fixSort raw prefs"
  shows "\<exists>k \<in> set SORT_KEYS. jget (JObj out) ''sortKey'' = JStr k"
    and "\<exists>d \<in> {''asc'', ''desc''}. jget (JObj out) ''sortDir'' = JStr d"
    and "\<exists>b. jget (JObj out) ''sortCustom'' = JBool b \<and>
        (\<not> b \<longrightarrow> jget (JObj out) ''sortKey'' = JStr ''rx'' \<and> jget (JObj out) ''sortDir'' = JStr ''desc'')"
    and "j \<notin> {''sortKey'', ''sortDir'', ''sortCustom''} \<Longrightarrow> jget (JObj out) j = jget (JObj prefs) j"
proof -
  define p1 where "p1 = (case jget (JObj prefs) ''sortKey'' of
      JStr k \<Rightarrow> if k \<in> set SORT_KEYS then prefs else putProp ''sortKey'' (JStr ''rx'') prefs
    | _ \<Rightarrow> putProp ''sortKey'' (JStr ''rx'') prefs)"
  define rawDir where "rawDir = jget (JObj raw) ''sortDir''"
  define p2 where "p2 = (if rawDir \<noteq> JStr ''asc'' \<and> rawDir \<noteq> JStr ''desc''
      then putProp ''sortDir'' (JStr ''desc'') p1 else p1)"
  define p3 where "p3 = (if \<not> isBool (jget (JObj raw) ''sortCustom'')
      then putProp ''sortCustom'' (JBool (jget (JObj p2) ''sortKey'' \<noteq> JStr ''rx'' \<or>
             jget (JObj p2) ''sortDir'' \<noteq> JStr ''desc'')) p2 else p2)"
  have out: "out = (if truthy (jget (JObj p3) ''sortCustom'') then p3
      else putProp ''sortDir'' (JStr ''desc'') (putProp ''sortKey'' (JStr ''rx'') p3))"
    unfolding out_def fixSort_def Let_def defaultSortDirection_def p3_def p2_def p1_def rawDir_def ..
  have rx: "''rx'' \<in> set SORT_KEYS" by (simp add: SORT_KEYS_def)
  have k1: "\<exists>k \<in> set SORT_KEYS. jget (JObj p1) ''sortKey'' = JStr k"
    using rx by (auto simp: p1_def split: jval.split)
  have o1: "j \<noteq> ''sortKey'' \<Longrightarrow> jget (JObj p1) j = jget (JObj prefs) j" for j
    by (auto simp: p1_def split: jval.split)
  have p2: "jget (JObj p2) ''sortKey'' = jget (JObj p1) ''sortKey''"
      "\<exists>d \<in> {''asc'', ''desc''}. jget (JObj p2) ''sortDir'' = JStr d"
      "j \<noteq> ''sortDir'' \<Longrightarrow> jget (JObj p2) j = jget (JObj p1) j" for j
    using dir o1 [of "''sortDir''"] by (auto simp: p2_def rawDir_def)
  have p3: "\<exists>b. jget (JObj p3) ''sortCustom'' = JBool b"
      "j \<noteq> ''sortCustom'' \<Longrightarrow> jget (JObj p3) j = jget (JObj p2) j" for j
    using flag o1 [of "''sortCustom''"] p2(3) [of "''sortCustom''"]
    by (auto simp: p3_def isBool_iff)
  show "\<exists>k \<in> set SORT_KEYS. jget (JObj out) ''sortKey'' = JStr k"
    using rx k1 p2(1) p3(2) [of "''sortKey''"] by (auto simp: out)
  show "\<exists>d \<in> {''asc'', ''desc''}. jget (JObj out) ''sortDir'' = JStr d"
    using p2(2) p3(2) [of "''sortDir''"] by (auto simp: out)
  show "\<exists>b. jget (JObj out) ''sortCustom'' = JBool b \<and>
        (\<not> b \<longrightarrow> jget (JObj out) ''sortKey'' = JStr ''rx'' \<and> jget (JObj out) ''sortDir'' = JStr ''desc'')"
    using p3(1) by (auto simp: out)
  show "j \<notin> {''sortKey'', ''sortDir'', ''sortCustom''} \<Longrightarrow> jget (JObj out) j = jget (JObj prefs) j"
    using p3(2) [of j] p2(3) [of j] o1 [of j] by (auto simp: out)
qed

lemma finishPrefs_valid:
  assumes "distinct (map fst raw)"
  shows "prefsValid (finishPrefs raw)"
proof -
  have keep: "jget (JObj raw) k \<noteq> JUndef \<Longrightarrow> k \<in> {''sortDir'', ''sortCustom''} \<Longrightarrow>
      jget (JObj (assignProps DEFAULT_PREFS raw)) k = jget (JObj raw) k" for k
    using assign_keeps [OF assms] protoKeys_pref by blast
  note f = fixSort_fields [of raw "assignProps DEFAULT_PREFS raw"]
  have d: "jget (JObj raw) ''sortDir'' \<in> {JStr ''asc'', JStr ''desc''} \<Longrightarrow>
      jget (JObj (assignProps DEFAULT_PREFS raw)) ''sortDir'' = jget (JObj raw) ''sortDir''"
    by (rule keep) auto
  have b: "isBool (jget (JObj raw) ''sortCustom'') \<Longrightarrow>
      jget (JObj (assignProps DEFAULT_PREFS raw)) ''sortCustom'' = jget (JObj raw) ''sortCustom''"
    by (rule keep) (auto simp: isBool_iff)
  show ?thesis
    unfolding prefsValid_def finishPrefs_def Let_def
    using f(1,2,3) [OF d b] normalizeNssRefreshMs_choice normalizePageSize_choice
    by (auto)
qed

lemma DEFAULT_PREFS_valid: "prefsValid DEFAULT_PREFS"
  unfolding prefsValid_def SORT_KEYS_def NSS_REFRESH_CHOICES_def PAGE_SIZE_CHOICES_def by code_simp

text \<open>
  C33: whatever a previous version, another tab or a user left in \<open>localStorage\<close>, loading the
  preferences yields usable ones: a known sort column and direction (the default ones unless
  the user sorted), an offered NSS period and an offered page size. An object that
  \<open>JSON.parse\<close> returns has no repeated key.
\<close>

theorem loadPrefs_valid:
  assumes "\<forall>k ps. rawItem st k = Doc (JObj ps) \<longrightarrow> distinct (map fst ps)"
  shows "prefsValid (snd (loadPrefs st))"
proof -
  have legacy: "rawItem st k = Doc (JObj ps) \<Longrightarrow> prefsValid (finishPrefs (migrateLegacy ps))" for k ps
    using assms by (intro finishPrefs_valid) (auto simp: migrateLegacy_def Let_def intro!: distinct_putProp)
  have plain: "rawItem st k = Doc (JObj ps) \<Longrightarrow> prefsValid (finishPrefs ps)" for k ps
    using assms by (intro finishPrefs_valid) blast
  show ?thesis
    using DEFAULT_PREFS_valid legacy plain
    by (auto simp: loadPrefs_def Let_def split: stored.split jval.split)
qed

theorem loadPrefs_valid_witness:
  "prefsValid (snd (loadPrefs \<lparr>items = [PREF_KEY \<mapsto> Doc (JObj [(''sortKey'', num 7)])],
     readable = True, writable = True\<rparr>))"
proof -
  let ?st = "\<lparr>items = [PREF_KEY \<mapsto> Doc (JObj [(''sortKey'', num 7)])], readable = True, writable = True\<rparr>"
  have "\<forall>k ps. rawItem ?st k = Doc (JObj ps) \<longrightarrow> distinct (map fst ps)"
    by (auto simp: rawItem_def split: if_splits)
  from loadPrefs_valid [OF this] show ?thesis .
qed

lemma fixSort_id:
  assumes p: "prefsValid p" and same: "\<And>k. jget (JObj q) k = jget (JObj p) k"
  shows "jget (JObj (fixSort p q)) j = jget (JObj p) j"
proof -
  from p obtain k d b where f: "jget (JObj p) ''sortKey'' = JStr k" "k \<in> set SORT_KEYS"
    "jget (JObj p) ''sortDir'' = JStr d" "d = ''asc'' \<or> d = ''desc''"
    "jget (JObj p) ''sortCustom'' = JBool b" "\<not> b \<Longrightarrow> k = ''rx'' \<and> d = ''desc''"
    unfolding prefsValid_def by auto
  then show ?thesis
    by (cases b) (auto simp: fixSort_def Let_def same)
qed

lemma normalizeNssRefreshMs_id: "c \<in> set NSS_REFRESH_CHOICES \<Longrightarrow> normalizeNssRefreshMs (num c) = Fin c"
  by (auto simp: normalizeNssRefreshMs_def list_ex_iff)

text \<open>
  Saving and loading again gives back the preferences that were saved, for every
  preferences object the page works with (valid, all the default keys present).
\<close>

theorem savePrefs_loadPrefs:
  assumes "readable st" "writable st" "prefsValid p" "distinct (map fst p)"
    and "fst ` set DEFAULT_PREFS \<subseteq> fst ` set p"
  shows "jget (JObj (snd (loadPrefs (savePrefs st p)))) k = jget (JObj p) k"
proof -
  have q: "jget (JObj (assignProps DEFAULT_PREFS p)) j = jget (JObj p) j" for j
  proof (cases "j \<in> fst ` set p")
    case False
    then have "j \<notin> fst ` set DEFAULT_PREFS" using assms(5) by blast
    with False show ?thesis
      by (subst jget_assignProps [OF assms(4)])
        (simp add: jget.simps map_of_eq_None_iff [THEN iffD2])
  qed (simp add: jget_assignProps [OF assms(4)])
  have fs: "jget (JObj (fixSort p (assignProps DEFAULT_PREFS p))) j = jget (JObj p) j" for j
    by (rule fixSort_id [OF assms(3) q])
  obtain c s where cs: "c \<in> set NSS_REFRESH_CHOICES" "jget (JObj p) ''nssRefreshMs'' = num c"
    "s \<in> set PAGE_SIZE_CHOICES" "jget (JObj p) ''pageSize'' = num (of_nat s)"
    using assms(3) unfolding prefsValid_def by blast
  have "snd (loadPrefs (savePrefs st p)) = finishPrefs p"
    using assms(1,2) by (simp add: savePrefs_def loadPrefs_def rawItem_def)
  then show ?thesis
    using cs fs by (simp add: finishPrefs_def Let_def normalizeNssRefreshMs_id normalizePageSize_id)
qed

theorem savePrefs_loadPrefs_witness:
  "let st = \<lparr>items = Map.empty, readable = True, writable = True\<rparr>
   in jget (JObj (snd (loadPrefs (savePrefs st (putProp ''unit'' (JStr ''byte'') DEFAULT_PREFS))))) ''unit''
      = JStr ''byte''"
proof -
  let ?st = "\<lparr>items = Map.empty, readable = True, writable = True\<rparr>"
  let ?p = "putProp ''unit'' (JStr ''byte'') DEFAULT_PREFS"
  have v: "prefsValid ?p"
    unfolding prefsValid_def SORT_KEYS_def NSS_REFRESH_CHOICES_def PAGE_SIZE_CHOICES_def by code_simp
  have "jget (JObj (snd (loadPrefs (savePrefs ?st ?p)))) ''unit'' = jget (JObj ?p) ''unit''"
    by (rule savePrefs_loadPrefs [OF _ _ v]) (simp_all add: DEFAULT_PREFS_def)
  then show ?thesis by simp
qed

end
