(* ===== verification/Vocab.thy ===== *)
theory Vocab
  imports JsBase
begin

text \<open>
  \<open>lanspeed/vocab.js\<close> and \<open>lanspeed/statusCollector.js\<close>: the warning identifiers of the
  backend (their texts, aliases, which of them the overview shows and in which class) and
  the name of the collector in effect.

  The tables are object literals, so a lookup also finds the members inherited from
  \<open>Object.prototype\<close>; \<open>jget\<close> accounts for it.
\<close>

section \<open>Tables\<close>

definition WARNING_LABELS :: "(string \<times> mtext) list" where
  "WARNING_LABELS = [
     (''tc_filter_conflict'', Tr ''TC hook is taken by another program, BPF cannot start safely''),
     (''hardware_flow_offload_unsupported'', Tr ''hardware offload bypasses BPF, client rates may be far too low''),
     (''nss_ecm_node_parse_errors'', Tr ''NSS ECM data holds unparsable records, some client rates may be missing''),
     (''nss_ecm_node_active'', Tr ''using MAC aggregated bytes and packet counts of NSS ECM node''),
     (''nss_ecm_node_ecm_flows_only'', Tr ''ECM mode counts connections in the ECM database only''),
     (''nss_ecm_bpf_active'', Tr ''ECM+BPF collects slow path and NSS increments together''),
     (''nss_ecm_bpf_disjoint_ownership'', Tr ''ECM+BPF keeps NSS and TC increments apart, one rate per raw window''),
     (''nss_ecm_bpf_tc_degraded'', Tr ''TC-BPF part of ECM+BPF unavailable, ECM update chain only''),
     (''nss_ecm_bpf_runtime_unavailable'', Tr ''ECM+BPF object, BTF layout, kprobe or map not ready''),
     (''nss_ecm_bpf_map_read_failed'', Tr ''ECM+BPF map read failed, combined rate unavailable''),
     (''nss_bpf_slow_path_only'', Tr ''NSS traffic bypasses the BPF hook, BPF sees the slow path only''),
     (''pending'', Tr ''new NSS batch not there yet, last rate kept for one period''),
     (''warmup'', Tr ''NSS and LAN counters build their cold start baseline''),
     (''counter_reset'', Tr ''counters were reset, window dropped and baseline rebuilt''),
     (''counter_skew'', Tr ''client counter ahead of the LAN clock, window dropped''),
     (''nss_dae_bpf_fallback_may_be_inaccurate'', Tr ''NSS and dae run together without BPF, rate may be inaccurate''),
     (''dae_process_probe_failed'', Tr ''cannot tell whether dae runs, source choice may be wrong for now''),
     (''nssifb_collect_rejected'', Tr ''nssifb is a mirror and cannot collect, set it to observe''),
     (''conntrack_connection_only'', Tr ''client has connection records only, this is no fault''),
     (''conntrack_acct_disabled'', Tr ''conntrack accounting off, connection details may be unavailable''),
     (''nf_conntrack_acct_disabled'', Tr ''nf_conntrack_acct off, connection details may be unavailable''),
     (''bpf_optional_package_missing'', Tr ''required BPF package missing, live rates unavailable''),
     (''bpf_object_missing'', Tr ''BPF object file missing, live rates unavailable''),
     (''bpf_runtime_loader_unavailable'', Tr ''BPF installed, TC attach or map read failed, live rates not started''),
     (''bpf_unavailable'', Tr ''BPF runtime unavailable, client rates cannot start''),
     (''bpf_not_selected'', Tr ''BPF rate path not selected, component takes no part''),
     (''tc_bpf_not_selected'', Tr ''collection path does not use TC-BPF''),
     (''no_collect_interface'', Tr ''no LAN interface collects, client rates do not start''),
     (''package_missing'', Tr ''BPF runtime component missing, client rates cannot start''),
     (''object_missing'', Tr ''BPF object file missing, client rates cannot start''),
     (''object_load_failed'', Tr ''BPF object installed, kernel load failed''),
     (''tc_unavailable'', Tr ''no usable TC, BPF cannot attach''),
     (''tc_unsupported'', Tr ''TC or kernel lacks the BPF clsact attach''),
     (''tc_conflict'', Tr ''existing TC rules conflict with the LAN Speed attach mark''),
     (''tc_attach_failed'', Tr ''BPF object loaded, TC ingress or egress attach incomplete''),
     (''tc_attach_not_ready'', Tr ''TC attach not ready, BPF may be starting or recovering''),
     (''map_not_started'', Tr ''TC attach incomplete, BPF client map not collecting''),
     (''bpf_runtime_not_ready'', Tr ''BPF capable, runtime chain still starting or recovering''),
     (''runtime_not_ready'', Tr ''BPF capable, runtime chain still starting or recovering''),
     (''bpf_unsupported'', Tr ''kernel or system lacks the BPF features needed''),
     (''tc_clsact_unsupported'', Tr ''system lacks TC clsact, BPF cannot attach''),
     (''bpf_tc_self_heal_failed'', Tr ''BPF TC self healing failed, collection may have stopped''),
     (''unsafe_attach'', Tr ''TC attach point unsafe, BPF collection stopped''),
     (''map_full'', Tr ''BPF client table full, some clients may be missing''),
     (''map_read_failed'', Tr ''BPF client table read failed, rates may be incomplete''),
     (''counter_anomaly'', Tr ''counter went backwards, increment ignored''),
     (''time_rollback'', Tr ''sample clock went backwards, increment ignored''),
     (''client_limit_exceeded'', Tr ''client count above the backend limit, some not shown''),
     (''live_metrics_unavailable'', Tr ''no live rate data, client list may be empty or degraded''),
     (''probe_error'', Tr ''some environment probes failed, judgement may be incomplete''),
     (''tc_missing'', Tr ''tc missing, BPF client rates cannot start''),
     (''conntrack_unavailable'', Tr ''conntrack unavailable, connections cannot update''),
     (''conntrack_not_sampled'', Tr ''NSS rate path does not sample conntrack periodically''),
     (''conntrack_read_failed'', Tr ''conntrack read failed, check ctnetlink and procfs''),
     (''conntrack_parse_errors'', Tr ''some conntrack records unparsable, statistics may be incomplete''),
     (''lan_edge_missing'', Tr ''no collectable LAN interface, client rates cannot start''),
     (''lan_topology_probe_error'', Tr ''LAN topology probe failed, boundaries may be incomplete''),
     (''bpf_disabled'', Tr ''BPF turned off in the configuration, client rates do not start''),
     (''nss_not_present'', Tr ''NSS not detected, component not applicable''),
     (''nss_control_not_configured'', Tr ''no NSS client limit or block rule configured''),
     (''nss_control_no_active_client'', Tr ''NSS rules saved, no online client to verify''),
     (''nss_control_verification_pending'', Tr ''NSS control built, waiting for path and queue verification''),
     (''nss_control_executor_failed'', Tr ''NSS control queue, classifier, nft or path verification failed''),
     (''nss_client_control_unavailable'', Tr ''system lacks the abilities for NSS client control''),
     (''nss_control_diagnostics_unavailable'', Tr ''no complete diagnostics evidence of NSS client control''),
     (''existing_tc_filters_detected'', Tr ''existing TC filters found, LAN Speed keeps foreign rules''),
     (''software_flow_offload_enabled'', Tr ''software offload on, judge by coverage''),
     (''flowtable_counter_probe_unavailable'', Tr ''flowtable counter ability unknown''),
     (''flowtable_counter_missing'', Tr ''no flowtable counters, offloaded traffic may be uncounted''),
     (''conntrack_routed_nat_only'', Tr ''connection statistics hold routed or NAT traffic only''),
     (''fullcone_detected'', Tr ''Fullcone NAT found, endpoints may be rewritten''),
     (''fullcone_nat_enabled'', Tr ''Fullcone NAT enabled, environment information only''),
     (''collection_unavailable'', Tr ''no successful collection yet''),
     (''collection_stale'', Tr ''showing an earlier or retained collection''),
     (''proxy_stack'', Tr ''transparent proxy found, attribution less reliable''),
     (''refresh_interval_clamped'', Tr ''sample interval out of range, adjusted''),
     (''active_client_window_clamped'', Tr ''active window out of range, adjusted''),
     (''active_client_min_bps_clamped'', Tr ''active threshold out of range, adjusted''),
     (''overview_window_samples_clamped'', Tr ''history samples out of range, adjusted''),
     (''max_clients_clamped'', Tr ''client limit out of range, adjusted''),
     (''interface_exclude_compatibility_only'', Tr ''excluded interfaces kept for old configurations only''),
     (''openclash_detected'', Tr ''OpenClash found, proxy may change paths''),
     (''openclash_dns_chain_incomplete'', Tr ''OpenClash DNS chain incomplete''),
     (''openclash_fake_ip_low_remote_confidence'', Tr ''OpenClash Fake-IP lowers remote address confidence''),
     (''openclash_tun_conntrack_low_confidence'', Tr ''OpenClash TUN may lower attribution confidence''),
     (''openclash_router_self_proxy_detected'', Tr ''OpenClash proxies the router itself''),
     (''dae_detected'', Tr ''dae found, proxy may change paths''),
     (''dae_tc_preempts_bpf_ingress'', Tr ''dae TC rules run before LAN Speed ingress''),
     (''existing_qos'', Tr ''QoS or SQM found, queues or IFB may affect coverage''),
     (''nlbwmon_counter_conflict'', Tr ''nlbwmon counters found, do not add different statistics'')]"

definition IMPORTANT_WARNINGS :: props where
  "IMPORTANT_WARNINGS = map (\<lambda>k. (k, JBool True)) [
     ''hardware_flow_offload_unsupported'', ''tc_filter_conflict'', ''nssifb_collect_rejected'',
     ''nss_dae_bpf_fallback_may_be_inaccurate'', ''nss_ecm_node_parse_errors'',
     ''nss_ecm_bpf_runtime_unavailable'', ''nss_ecm_bpf_map_read_failed'',
     ''dae_process_probe_failed'', ''conntrack_acct_disabled'', ''nf_conntrack_acct_disabled'',
     ''conntrack_unavailable'', ''bpf_optional_package_missing'', ''bpf_object_missing'',
     ''bpf_runtime_loader_unavailable'', ''no_collect_interface'', ''package_missing'',
     ''object_missing'', ''object_load_failed'', ''tc_unavailable'', ''tc_unsupported'',
     ''tc_conflict'', ''tc_attach_failed'', ''map_not_started'', ''bpf_runtime_not_ready'',
     ''bpf_unsupported'', ''tc_clsact_unsupported'', ''bpf_tc_self_heal_failed'',
     ''unsafe_attach'', ''map_full'', ''map_read_failed'', ''counter_anomaly'', ''time_rollback'',
     ''counter_skew'', ''counter_reset'', ''client_limit_exceeded'', ''live_metrics_unavailable'',
     ''probe_error'', ''tc_missing'', ''lan_edge_missing'', ''lan_topology_probe_error'',
     ''bpf_disabled'']"

definition CRITICAL_WARNINGS :: props where
  "CRITICAL_WARNINGS = map (\<lambda>k. (k, JBool True)) [
     ''hardware_flow_offload_unsupported'', ''tc_filter_conflict'', ''nssifb_collect_rejected'',
     ''nss_dae_bpf_fallback_may_be_inaccurate'', ''unsafe_attach'', ''tc_missing'',
     ''lan_edge_missing'', ''probe_error'', ''dae_process_probe_failed'', ''map_read_failed'',
     ''live_metrics_unavailable'', ''bpf_runtime_loader_unavailable'', ''no_collect_interface'',
     ''package_missing'', ''object_missing'', ''object_load_failed'', ''tc_unavailable'',
     ''tc_unsupported'', ''tc_conflict'', ''tc_attach_failed'', ''map_not_started'',
     ''bpf_unsupported'', ''tc_clsact_unsupported'', ''bpf_tc_self_heal_failed'',
     ''bpf_optional_package_missing'', ''bpf_object_missing'', ''conntrack_acct_disabled'',
     ''nf_conntrack_acct_disabled'', ''map_full'', ''bpf_disabled'']"

definition WARNING_ALIASES :: props where
  "WARNING_ALIASES = [
     (''nss_daed_nss_fallback_may_be_inaccurate'', JStr ''nss_dae_bpf_fallback_may_be_inaccurate''),
     (''hardware_flow_offload'', JStr ''hardware_flow_offload_unsupported''),
     (''software_flow_offload'', JStr ''software_flow_offload_enabled''),
     (''fullcone'', JStr ''fullcone_detected''),
     (''fullcone_nat_enabled'', JStr ''fullcone_detected'')]"

section \<open>Operations\<close>

definition normalizeWarningId :: "jval \<Rightarrow> jval" where
  "normalizeWarningId warning = jor (jget (JObj WARNING_ALIASES) (toStr warning)) warning"

definition coreStatusHealthy :: "jval \<Rightarrow> bool" where
  "coreStatusHealthy status = (let caps = jor (jfield status ''capabilities'') (JObj []);
       evidence = jor (jfield status ''evidence'') (JObj []);
       collector = jor (jget evidence ''effective_collector'')
         (jfield (jget evidence ''collector'') ''primary_source'')
     in if \<not> truthy status \<or> jget status ''mode'' \<noteq> JStr ''Full'' \<or> collector = JStr ''unsupported''
        then False
        else if jget caps ''live_metrics'' \<noteq> JBool True then False
        else if collector = JStr ''bpf'' \<and> jget caps ''bpf_runtime_metrics'' \<noteq> JBool True then False
        else True)"

definition isImportantWarning :: "jval \<Rightarrow> jval \<Rightarrow> bool" where
  "isImportantWarning w status = (let warning = normalizeWarningId w in
     if \<not> truthy (jget (JObj IMPORTANT_WARNINGS) (toStr warning)) then False
     else if warning = JStr ''probe_error'' \<and> coreStatusHealthy status then False
     else True)"

text \<open>The filter callback of \<open>importantWarnings\<close>, with the object \<open>seen\<close> it updates.\<close>

fun keepImportant :: "jval \<Rightarrow> string set \<Rightarrow> jval list \<Rightarrow> jval list" where
  "keepImportant status seen [] = []"
| "keepImportant status seen (w # ws) =
     (if toStr w \<in> seen \<or> \<not> isImportantWarning w status then keepImportant status seen ws
      else w # keepImportant status (insert (toStr w) seen) ws)"

definition importantWarnings :: "jval \<Rightarrow> jval \<Rightarrow> jval list" where
  "importantWarnings warnings status =
     keepImportant status (set protoKeys) (map normalizeWarningId (arrItems warnings))"

definition hasWarning :: "jval \<Rightarrow> bool" where
  "hasWarning w = (toStr (normalizeWarningId w) \<in> set (map fst WARNING_LABELS))"

text \<open>
  The text of a warning; the key is never an inherited name (lemma
  \<open>normalizeWarningId_not_inherited\<close>), so the lookup is the one of the own properties.
\<close>

definition warningText :: "jval \<Rightarrow> mtext" where
  "warningText w = (let k = toStr (normalizeWarningId w) in
     case map_of WARNING_LABELS k of Some t \<Rightarrow> t
     | None \<Rightarrow> Lit (map (\<lambda>c. if c = CHR ''_'' then CHR '' '' else c) k))"

definition warningClass :: "jval \<Rightarrow> string" where
  "warningClass w = (let k = toStr (normalizeWarningId w) in
     if truthy (jget (JObj CRITICAL_WARNINGS) k) \<or>
        list_ex (\<lambda>p. sublist p k)
          [''hardware'', ''unsafe'', ''conflict'', ''missing'', ''error'', ''failed'', ''full'']
     then ''label label-danger'' else ''label label-warning'')"

section \<open>The collector in effect\<close>

definition collectorLabel :: "jval \<Rightarrow> mtext" where
  "collectorLabel m = (let mode = toStr (jor m (JStr ''-'')) in
     if mode = ''access_edge'' then Tr ''automatic precise''
     else if mode = ''bpf'' then Tr ''BPF''
     else if mode = ''nss_ecm_node'' then Lit ''ECM''
     else if mode = ''nss_ecm_bpf'' then Tr ''ECM+BPF''
     else if mode = ''fast_routed_internet'' then Lit ''FastN+FastS routed Internet''
     else if mode = ''fast_routed_lease'' then Lit ''FastN+FastS lease''
     else if mode = ''conntrack_netlink'' then Lit ''CT-Netlink''
     else if mode = ''conntrack_procfs'' then Lit ''CT-Procfs''
     else if mode = ''conntrack'' then Lit ''CT''
     else if mode = ''unsupported'' then Tr ''unavailable''
     else Lit mode)"

definition collectorClass :: "jval \<Rightarrow> string" where
  "collectorClass m = (let mode = toStr (jor m (JStr ''-'')) in
     if mode = ''access_edge'' \<or> mode = ''bpf'' \<or> mode = ''nss_ecm_node'' \<or> mode = ''nss_ecm_bpf'' \<or>
        mode = ''fast_routed_internet'' \<or> mode = ''fast_routed_lease''
     then ''label label-success'' else ''label label-danger'')"

definition effectiveCollector :: "jval \<Rightarrow> jval \<Rightarrow> jval" where
  "effectiveCollector status clientsData = (let evidence = jor (jfield status ''evidence'') (JObj []);
       clientEvidence = jor (jfield clientsData ''evidence'') (JObj []);
       collector = jor (jget clientEvidence ''primary_source'')
         (jor (jget clientEvidence ''collector_mode'')
           (jor (jget evidence ''effective_collector'')
             (jfield (jget evidence ''collector'') ''primary_source'')))
     in if truthy collector \<and> collector \<noteq> JStr ''auto'' then collector else JStr ''unsupported'')"

section \<open>Lemmas\<close>

text \<open>The identifier an own string stands for.\<close>

definition canonicalId :: "string \<Rightarrow> string" where
  "canonicalId k = (case map_of WARNING_ALIASES k of Some (JStr t) \<Rightarrow> t | _ \<Rightarrow> k)"

lemma alias_targets: "map_of WARNING_ALIASES k = Some v \<Longrightarrow>
    \<exists>t. v = JStr t \<and> t \<noteq> [] \<and> map_of WARNING_ALIASES t = None \<and> t \<notin> set protoKeys"
proof -
  have "list_all (\<lambda>(k, v). isStr v \<and> toStr v \<noteq> [] \<and> toStr v \<notin> set (map fst WARNING_ALIASES) \<and>
      toStr v \<notin> set protoKeys) WARNING_ALIASES"
    by (simp add: WARNING_ALIASES_def protoKeys_def)
  moreover assume "map_of WARNING_ALIASES k = Some v"
  ultimately have "isStr v \<and> toStr v \<noteq> [] \<and> toStr v \<notin> set (map fst WARNING_ALIASES) \<and> toStr v \<notin> set protoKeys"
    by (auto simp: list_all_iff dest!: map_of_SomeD)
  then show ?thesis by (auto simp: isStr_iff map_of_eq_None_iff)
qed

lemma aliases_distinct: "(k, v) \<in> set WARNING_ALIASES \<longleftrightarrow> map_of WARNING_ALIASES k = Some v"
  by (rule map_of_eq_Some_iff [symmetric]) (simp add: WARNING_ALIASES_def)

lemma alias_not_proto: "k \<in> set protoKeys \<Longrightarrow> map_of WARNING_ALIASES k = None"
  by (auto simp: map_of_eq_None_iff WARNING_ALIASES_def protoKeys_def)

lemma normalizeWarningId_cases:
  "normalizeWarningId w =
     (if toStr w \<in> set protoKeys then JProto (toStr w)
      else case map_of WARNING_ALIASES (toStr w) of Some v \<Rightarrow> v | None \<Rightarrow> w)"
  using alias_targets [of "toStr w"] alias_not_proto [of "toStr w"]
  by (auto simp: normalizeWarningId_def jor_def jget.simps split: option.splits)

lemma toStr_JProto_not_proto: "toStr (JProto k) \<notin> set protoKeys"
  by (auto simp: protoKeys_def)

lemma normalizeWarningId_not_inherited: "toStr (normalizeWarningId w) \<notin> set protoKeys"
  using alias_targets [of "toStr w"] toStr_JProto_not_proto
  by (auto simp: normalizeWarningId_cases simp del: toStr.simps(8) split: option.splits)

lemma toStr_JProto_no_alias: "map_of WARNING_ALIASES (toStr (JProto k)) = None"
  by (auto simp: map_of_eq_None_iff WARNING_ALIASES_def)

lemma normalizeWarningId_idem: "normalizeWarningId (normalizeWarningId w) = normalizeWarningId w"
proof (cases "toStr w \<in> set protoKeys")
  case True
  then have "normalizeWarningId w = JProto (toStr w)" by (simp add: normalizeWarningId_cases)
  then show ?thesis
    using toStr_JProto_not_proto toStr_JProto_no_alias
    by (simp add: normalizeWarningId_cases [of "JProto (toStr w)"] del: toStr.simps)
next
  case False
  then show ?thesis
    using alias_targets [of "toStr w"]
    by (auto simp: normalizeWarningId_cases split: option.splits)
qed

lemma normalizeWarningId_JStr: "k \<notin> set protoKeys \<Longrightarrow> normalizeWarningId (JStr k) = JStr (canonicalId k)"
  using alias_targets [of k]
  by (auto simp: normalizeWarningId_cases canonicalId_def split: option.splits)

lemma keepImportant_set:
  "set (keepImportant st seen ws) \<subseteq> {w \<in> set ws. toStr w \<notin> seen \<and> isImportantWarning w st}"
  by (induction ws arbitrary: seen) (auto dest: subsetD)

lemma keepImportant_mem:
  assumes "\<And>w. w \<in> set ws \<Longrightarrow> isImportantWarning w st \<Longrightarrow> isStr w"
  shows "w \<in> set (keepImportant st seen ws) \<longleftrightarrow>
     w \<in> set ws \<and> toStr w \<notin> seen \<and> isImportantWarning w st"
  using assms
proof (induction ws arbitrary: seen)
  case (Cons v ws)
  have IH: "w \<in> set (keepImportant st s ws) \<longleftrightarrow> w \<in> set ws \<and> toStr w \<notin> s \<and> isImportantWarning w st" for s
    by (rule Cons.IH) (use Cons.prems in auto)
  have same: "w = v" if "toStr w = toStr v" "isImportantWarning w st" "isImportantWarning v st" "w \<in> set ws"
    using that Cons.prems [of w] Cons.prems [of v] by (auto simp: isStr_iff)
  show ?case using same by (auto simp: IH)
qed simp

lemma keepImportant_distinct: "distinct (map toStr (keepImportant st seen ws))"
proof (induction ws arbitrary: seen)
  case (Cons w ws)
  have "toStr w \<notin> toStr ` set (keepImportant st (insert (toStr w) seen) ws)"
    using keepImportant_set [of st "insert (toStr w) seen" ws] by auto
  then show ?case using Cons by simp
qed simp

text \<open>A table of flags, as the two objects whose properties are all \<open>true\<close>.\<close>

lemma flags_truthy: "truthy (jget (JObj (map (\<lambda>k. (k, JBool True)) ks)) k) \<longleftrightarrow> k \<in> set ks \<or> k \<in> set protoKeys"
proof -
  have "map_of (map (\<lambda>k. (k, JBool True)) ks) k = (if k \<in> set ks then Some (JBool True) else None)"
    by (induction ks) auto
  then show ?thesis by (simp add: jget.simps)
qed

lemma important_keys: "truthy (jget (JObj IMPORTANT_WARNINGS) k) \<longleftrightarrow>
    k \<in> fst ` set IMPORTANT_WARNINGS \<or> k \<in> set protoKeys"
  unfolding IMPORTANT_WARNINGS_def flags_truthy by (simp only: set_map image_image fst_conv image_ident)

lemma critical_truthy: "truthy (jget (JObj CRITICAL_WARNINGS) k) \<longleftrightarrow>
    k \<in> fst ` set CRITICAL_WARNINGS \<or> k \<in> set protoKeys"
  unfolding CRITICAL_WARNINGS_def flags_truthy by (simp only: set_map image_image fst_conv image_ident)

lemma isImportant_normalized:
  "isImportantWarning (normalizeWarningId w) st \<longleftrightarrow>
     toStr (normalizeWarningId w) \<in> fst ` set IMPORTANT_WARNINGS \<and>
     \<not> (normalizeWarningId w = JStr ''probe_error'' \<and> coreStatusHealthy st)"
  unfolding isImportantWarning_def normalizeWarningId_idem Let_def important_keys
  using normalizeWarningId_not_inherited [of w] by auto

section \<open>Properties\<close>

text \<open>
  The overview lists exactly the important warnings of the backend, each once under its
  canonical identifier; a failed probe is dropped while the core collection is healthy.
\<close>

theorem importantWarnings_correct:
  "distinct (importantWarnings (JArr (map JStr ids)) status) \<and>
   set (importantWarnings (JArr (map JStr ids)) status) =
     JStr ` {canonicalId k | k. k \<in> set ids \<and> k \<notin> set protoKeys \<and>
       canonicalId k \<in> fst ` set IMPORTANT_WARNINGS \<and>
       \<not> (canonicalId k = ''probe_error'' \<and> coreStatusHealthy status)}"
proof
  let ?ws = "map normalizeWarningId (map JStr ids)"
  have out: "importantWarnings (JArr (map JStr ids)) status = keepImportant status (set protoKeys) ?ws"
    by (simp add: importantWarnings_def)
  show "distinct (importantWarnings (JArr (map JStr ids)) status)"
    unfolding out using keepImportant_distinct by (simp only: distinct_map)
  have proto: "\<not> isImportantWarning (normalizeWarningId (JStr k)) status" if "k \<in> set protoKeys" for k
  proof -
    have "toStr (JProto k) \<notin> fst ` set IMPORTANT_WARNINGS" by (auto simp: IMPORTANT_WARNINGS_def)
    moreover have "normalizeWarningId (JStr k) = JProto k" using that by (simp add: normalizeWarningId_cases)
    ultimately show ?thesis unfolding isImportant_normalized by (simp del: toStr.simps(8))
  qed
  have strs: "isStr w" if "w \<in> set ?ws" "isImportantWarning w status" for w
  proof -
    from that obtain k where k: "w = normalizeWarningId (JStr k)" by auto
    with proto that(2) have "k \<notin> set protoKeys" by blast
    with k show ?thesis by (simp add: normalizeWarningId_JStr)
  qed
  have imp: "toStr (JStr (canonicalId k)) \<notin> set protoKeys \<and>
      (isImportantWarning (JStr (canonicalId k)) status \<longleftrightarrow> canonicalId k \<in> fst ` set IMPORTANT_WARNINGS \<and>
        \<not> (canonicalId k = ''probe_error'' \<and> coreStatusHealthy status))"
    if "k \<notin> set protoKeys" for k
    using isImportant_normalized [of "JStr k" status] normalizeWarningId_not_inherited [of "JStr k"]
    by (simp add: normalizeWarningId_JStr [OF that])
  have mem: "w \<in> set (keepImportant status (set protoKeys) ?ws) \<longleftrightarrow>
      (\<exists>k \<in> set ids. k \<notin> set protoKeys \<and> w = JStr (canonicalId k) \<and>
        isImportantWarning (JStr (canonicalId k)) status)" for w
  proof -
    have "w \<in> set (keepImportant status (set protoKeys) ?ws) \<longleftrightarrow>
      (\<exists>k \<in> set ids. w = normalizeWarningId (JStr k) \<and> toStr w \<notin> set protoKeys \<and> isImportantWarning w status)"
      using keepImportant_mem [of ?ws status w "set protoKeys", OF strs] by auto
    also have "\<dots> \<longleftrightarrow> (\<exists>k \<in> set ids. k \<notin> set protoKeys \<and> w = JStr (canonicalId k) \<and>
        isImportantWarning (JStr (canonicalId k)) status)"
      using proto imp normalizeWarningId_JStr by (metis (no_types, lifting))
    finally show ?thesis .
  qed
  show "set (importantWarnings (JArr (map JStr ids)) status) =
     JStr ` {canonicalId k | k. k \<in> set ids \<and> k \<notin> set protoKeys \<and>
       canonicalId k \<in> fst ` set IMPORTANT_WARNINGS \<and>
       \<not> (canonicalId k = ''probe_error'' \<and> coreStatusHealthy status)}" (is "_ = ?R")
  proof (rule set_eqI)
    fix w
    show "w \<in> set (importantWarnings (JArr (map JStr ids)) status) \<longleftrightarrow> w \<in> ?R"
      unfolding out mem using imp by blast
  qed
qed

lemma important_labelled: "set (map fst IMPORTANT_WARNINGS) \<subseteq> set (map fst WARNING_LABELS)"
  unfolding IMPORTANT_WARNINGS_def WARNING_LABELS_def list.map list.set fst_conv
  by (rule insert_subset [THEN iffD2] empty_subsetI conjI | rule insertI1 | rule insertI2)+

lemma targets_labelled: "set (map (toStr \<circ> snd) WARNING_ALIASES) \<subseteq> set (map fst WARNING_LABELS)"
  unfolding WARNING_ALIASES_def WARNING_LABELS_def list.map list.set fst_conv snd_conv comp_apply toStr.simps
  by (rule insert_subset [THEN iffD2] empty_subsetI conjI | rule insertI1 | rule insertI2)+

lemma critical_important: "set (map fst CRITICAL_WARNINGS) \<subseteq> set (map fst IMPORTANT_WARNINGS)"
  unfolding CRITICAL_WARNINGS_def IMPORTANT_WARNINGS_def list.map list.set fst_conv
  by (rule insert_subset [THEN iffD2] empty_subsetI conjI | rule insertI1 | rule insertI2)+

lemma important_own:
  "list_all (\<lambda>k. k \<notin> set (map fst WARNING_ALIASES)) (map fst IMPORTANT_WARNINGS)"
  "list_all (\<lambda>k. k \<notin> set protoKeys) (map fst IMPORTANT_WARNINGS)"
  by (code_simp, code_simp)

lemma canonicalId_fix: "k \<notin> fst ` set WARNING_ALIASES \<Longrightarrow> canonicalId k = k"
  by (simp add: canonicalId_def map_of_eq_None_iff [THEN iffD2])

lemma important_normal:
  assumes "k \<in> set (map fst IMPORTANT_WARNINGS)"
  shows "normalizeWarningId (JStr k) = JStr k"
proof -
  have "k \<notin> fst ` set WARNING_ALIASES" "k \<notin> set protoKeys"
    using important_own assms unfolding list_all_iff set_map by blast+
  then show ?thesis by (simp add: normalizeWarningId_JStr canonicalId_fix)
qed

text \<open>
  No warning the pages single out is without a text: every important identifier, every
  critical one and every target of an alias has its own label, and the critical ones are
  important and shown in the danger class.
\<close>

theorem warning_tables_complete:
  "list_all (\<lambda>k. hasWarning (JStr k)) (map fst IMPORTANT_WARNINGS) \<and>
   list_all (\<lambda>k. hasWarning (JStr k) \<and> k \<in> set (map fst IMPORTANT_WARNINGS) \<and>
      warningClass (JStr k) = ''label label-danger'') (map fst CRITICAL_WARNINGS) \<and>
   list_all (\<lambda>k. hasWarning (JStr k)) (map (toStr \<circ> snd) WARNING_ALIASES)"
proof (intro conjI)
  have imp: "hasWarning (JStr k)" if "k \<in> set (map fst IMPORTANT_WARNINGS)" for k
    using subsetD [OF important_labelled that] unfolding hasWarning_def important_normal [OF that]
    by (simp only: toStr.simps)
  then show "list_all (\<lambda>k. hasWarning (JStr k)) (map fst IMPORTANT_WARNINGS)"
    unfolding list_all_iff by blast
  have crit: "warningClass (JStr k) = ''label label-danger''" if "k \<in> set (map fst CRITICAL_WARNINGS)" for k
    unfolding warningClass_def Let_def important_normal [OF subsetD [OF critical_important that]]
    using that by (simp only: toStr.simps critical_truthy set_map if_True simp_thms)
  show "list_all (\<lambda>k. hasWarning (JStr k) \<and> k \<in> set (map fst IMPORTANT_WARNINGS) \<and>
      warningClass (JStr k) = ''label label-danger'') (map fst CRITICAL_WARNINGS)"
    unfolding list_all_iff using imp crit critical_important by blast
  have "hasWarning (JStr (toStr v))" if "(k, v) \<in> set WARNING_ALIASES" for k v
  proof -
    have "map_of WARNING_ALIASES k = Some v" using that by (simp add: aliases_distinct)
    then obtain t where t: "v = JStr t" "map_of WARNING_ALIASES t = None" "t \<notin> set protoKeys"
      using alias_targets by blast
    have "toStr v \<in> set (map fst WARNING_LABELS)" 
      by (rule subsetD [OF targets_labelled]) (use that in \<open>force simp only: set_map comp_apply image_iff snd_conv\<close>)
    then show ?thesis using t by (simp add: hasWarning_def normalizeWarningId_JStr canonicalId_def)
  qed
  then show "list_all (\<lambda>k. hasWarning (JStr k)) (map (toStr \<circ> snd) WARNING_ALIASES)"
    by (auto simp: list_all_iff)
qed

end
