(* ===== verification/ConfigPlatform.thy ===== *)
theory ConfigPlatform
  imports JsBase
begin

text \<open>
  \<open>lanspeed/configPlatform.js\<close> with its two platform descriptions
  \<open>configPlatformX86.js\<close> and \<open>configPlatformNss.js\<close>: which platform profile a status
  reply describes, and what the configuration page may show and write on it.
\<close>

section \<open>The two platforms\<close>

definition x86_PROFILE :: string where "x86_PROFILE = ''x86_tc_bpf''"

definition x86_detect :: "jval \<Rightarrow> bool" where
  "x86_detect p = (let platform = jor p (JObj []) in
     toStr (jor (jget platform ''target_arch'') (JStr [])) = ''x86_64'' \<or>
     jget platform ''nss_compiled'' = JBool False)"

definition x86_supportsRateMode :: "jval \<Rightarrow> bool" where
  "x86_supportsRateMode mode = (mode = JStr ''auto'' \<or> mode = JStr ''bpf'')"

definition x86_autoLabel :: "mtext \<Rightarrow> mtext" where
  "x86_autoLabel d = Tr ''automatic (TC-BPF recommended)''"

definition nss_PROFILE :: string where "nss_PROFILE = ''nss_aarch64''"

definition nss_detect :: "jval \<Rightarrow> bool" where
  "nss_detect p = (let platform = jor p (JObj []) in
     toStr (jor (jget platform ''target_arch'') (JStr [])) = ''aarch64'' \<and>
     jget platform ''nss_compiled'' \<noteq> JBool False)"

definition nss_supportsRateMode :: "jval \<Rightarrow> bool" where
  "nss_supportsRateMode mode =
     (mode \<in> set (map JStr [''auto'', ''bpf'', ''nss_ecm_node'', ''nss_ecm_bpf'']))"

definition nss_autoLabel :: "mtext \<Rightarrow> mtext" where
  "nss_autoLabel defaultLabel = defaultLabel"

section \<open>The profile of a status\<close>

definition UNKNOWN :: string where "UNKNOWN = ''unknown''"

definition profile :: "jval \<Rightarrow> string" where
  "profile status = (let platform = jor (jfield (jfield status ''evidence'') ''platform'') (JObj []);
       p = jget platform ''profile''
     in if p \<noteq> JUndef \<and> p \<noteq> JNull \<and> p \<noteq> JStr [] then
          (if p = JStr x86_PROFILE \<or> p = JStr nss_PROFILE then toStr p else UNKNOWN)
        else if nss_detect platform then nss_PROFILE
        else if x86_detect platform then x86_PROFILE
        else UNKNOWN)"

definition isX86 :: "jval \<Rightarrow> bool" where "isX86 status = (profile status = x86_PROFILE)"
definition isNss :: "jval \<Rightarrow> bool" where "isNss status = (profile status = nss_PROFILE)"

definition supportsRateMode :: "jval \<Rightarrow> jval \<Rightarrow> bool" where
  "supportsRateMode status mode = (let v = profile status in
     if v = x86_PROFILE then x86_supportsRateMode mode
     else if v = nss_PROFILE then nss_supportsRateMode mode
     else mode = JStr ''auto'' \<or> mode = JStr ''bpf'')"

definition autoLabel :: "jval \<Rightarrow> mtext \<Rightarrow> mtext" where
  "autoLabel status defaultLabel = (let v = profile status in
     if v = x86_PROFILE then x86_autoLabel defaultLabel
     else if v = nss_PROFILE then nss_autoLabel defaultLabel
     else Tr ''automatic'')"

section \<open>Values, texts and patches\<close>

text \<open>\<open>slice\<close> copies an array; values are immutable here, so the copy is the value itself.\<close>

definition cloneValues :: "jval \<Rightarrow> props" where
  "cloneValues vs = map (\<lambda>k. (k, jget vs k)) (objectKeys vs)"

definition nssTuning :: "string list" where
  "nssTuning = [''nss_low_rate_window_ms'', ''nss_low_rate_high_watermark_bps'',
     ''nss_fifo_target_delay_ms'', ''nss_fifo_min_queue_packets'', ''rate_compensation_factor'']"

definition normalizeValues :: "jval \<Rightarrow> jval \<Rightarrow> props" where
  "normalizeValues status vs = (let normalized = cloneValues vs in
     if profile status = x86_PROFILE then
       (let n1 = putProp ''access_edge_mode'' (JStr ''off'') normalized;
            n2 = putProp ''internet_view_mode'' (JStr ''off'') n1;
            n3 = foldl (\<lambda>ps k. delProp k ps) n2 nssTuning
        in if \<not> x86_supportsRateMode (jget (JObj n3) ''rate_collector_mode'')
           then putProp ''rate_collector_mode'' (JStr ''bpf'') n3 else n3)
     else normalized)"

record form_policy =
  showAccessEdge :: bool
  rateHint :: mtext
  internetViewHint :: "mtext option"
  accessEdgeHint :: "mtext option"
  connectionHint :: mtext
  bpfHint :: mtext
  refreshHint :: mtext

definition formPolicy :: "jval \<Rightarrow> form_policy" where
  "formPolicy status = (let v = profile status in
     if v = nss_PROFILE then
       \<lparr>showAccessEdge = True,
        rateHint = Tr ''automatic precise recommended: access point totals first, NSS and CPU classify'',
        internetViewHint = Some (Tr ''independent of the rate mode: NSS FastN+FastS routed traffic only''),
        accessEdgeHint = Some (Tr ''precise total: port or wireless counters; shadow verifies only; off disables''),
        connectionHint = Tr ''CT-Netlink preferred, Procfs on old systems; details only, no rate fusion'',
        bpfHint = Tr ''recognises CPU traffic and is the fallback of automatic precise'',
        refreshHint = Tr ''access window one second; FastN+FastS uses the batch window of the source''\<rparr>
     else if v = x86_PROFILE then
       \<lparr>showAccessEdge = False,
        rateHint = Tr ''x86 uses native TC-BPF client totals'',
        internetViewHint = None, accessEdgeHint = None,
        connectionHint = Tr ''CT-Netlink preferred, Procfs on old systems; no part in TC-BPF totals'',
        bpfHint = Tr ''the only source of x86 client totals; rates unavailable when off'',
        refreshHint = Tr ''x86 TC-BPF samples at the configured period''\<rparr>
     else
       \<lparr>showAccessEdge = False,
        rateHint = Tr ''platform unknown; architecture specific settings stay as they are'',
        internetViewHint = None, accessEdgeHint = None,
        connectionHint = Tr ''CT-Netlink preferred, Procfs on old systems; details only'',
        bpfHint = Tr ''platform unknown; BPF setting stays as it is'',
        refreshHint = Tr ''samples as currently configured''\<rparr>)"

text \<open>
  \<open>labels[String(v)] || String(v)\<close> for the two label tables of \<open>runtimeInfo\<close>; the value is
  either one of the reply or the text \<open>unknown\<close> of the page.
\<close>

definition labelOr :: "(string \<times> mtext) list \<Rightarrow> jval + mtext \<Rightarrow> mtext" where
  "labelOr labels v = (case v of
     Inr t \<Rightarrow> t
   | Inl w \<Rightarrow> (case map_of labels (toStr w) of Some t \<Rightarrow> t
       | None \<Rightarrow> if toStr w \<in> set protoKeys then Lit (toStr (JProto (toStr w))) else Lit (toStr w)))"

definition runtimeInfo :: "jval \<Rightarrow> mtext" where
  "runtimeInfo status = (let evidence = jor (jfield status ''evidence'') (JObj []);
       collector = jor (jget evidence ''collector'') (JObj []);
       rate = jor (jget collector ''primary_source'') (jget evidence ''effective_collector'');
       conn = jget collector ''effective_connection_collector'';
       rateLabel = labelOr [(''bpf'', Tr ''CPU path only (BPF)''), (''nss_ecm_node'', Tr ''NSS only (ECM)''),
         (''nss_ecm_bpf'', Tr ''NSS + CPU path (ECM+BPF)''), (''unsupported'', Tr ''unavailable'')]
         (if truthy rate then Inl rate else Inr (Tr ''unknown''));
       connectionLabel = labelOr [(''conntrack_netlink'', Tr ''kernel connection interface''),
         (''conntrack_procfs'', Tr ''compatible connection interface''), (''unsupported'', Tr ''unavailable'')]
         (if truthy conn then Inl conn else Inr (Tr ''unknown''));
       field = (\<lambda>k. toStr (jor (jfield status k) (JStr [])))
     in if profile status = nss_PROFILE \<and> field ''internet_view_mode'' = ''routed''
        then Fmt ''running: routed FastN+FastS, connections %s'' [connectionLabel]
        else if profile status = nss_PROFILE \<and> field ''rate_collector_mode'' = ''auto'' \<and>
          field ''access_edge_mode'' = ''active''
        then Fmt ''running: precise access point, class %s, connections %s'' [rateLabel, connectionLabel]
        else Fmt ''running: rate %s, connections %s'' [rateLabel, connectionLabel])"

record uci_patch =
  pset :: props
  punset :: "string list"

definition nssOnly :: "string list" where
  "nssOnly = [''access_edge_mode'', ''internet_view_mode''] @ nssTuning"

definition unsetIfPresent :: "jval \<Rightarrow> string \<Rightarrow> uci_patch \<Rightarrow> uci_patch" where
  "unsetIfPresent original k p =
     (if jget original k \<noteq> JUndef \<and> k \<notin> set (punset p) then p\<lparr>punset := punset p @ [k]\<rparr> else p)"

definition applyPatchPolicy :: "jval \<Rightarrow> jval \<Rightarrow> uci_patch \<Rightarrow> uci_patch" where
  "applyPatchPolicy status originalRaw patch = (let v = profile status; original = jor originalRaw (JObj []);
       p1 = (if v \<noteq> nss_PROFILE then patch\<lparr>pset := foldl (\<lambda>ps k. delProp k ps) (pset patch) nssOnly\<rparr> else patch);
       p2 = (if v = x86_PROFILE then unsetIfPresent original ''access_edge_mode'' p1 else p1);
       p3 = (if v = x86_PROFILE then unsetIfPresent original ''internet_view_mode'' p2 else p2)
     in if v = x86_PROFILE then foldl (\<lambda>p k. unsetIfPresent original k p) p3 (drop 2 nssOnly) else p3)"

section \<open>Lemmas\<close>

lemma profile_cases: "profile status \<in> {x86_PROFILE, nss_PROFILE, UNKNOWN}"
  by (auto simp: profile_def Let_def)

lemma map_of_foldl_delProp: "map_of (foldl (\<lambda>ps k. delProp k ps) ps ks) j =
    (if j \<in> set ks then None else map_of ps j)"
  by (induction ks arbitrary: ps) (auto simp: map_of_delProp)

lemma profile_distinct [simp]: "x86_PROFILE \<noteq> nss_PROFILE" "nss_PROFILE \<noteq> x86_PROFILE"
    "UNKNOWN \<noteq> nss_PROFILE" "UNKNOWN \<noteq> x86_PROFILE"
  by (simp_all add: x86_PROFILE_def nss_PROFILE_def UNKNOWN_def)

lemma unsetIfPresent_set [simp]: "pset (unsetIfPresent og k p) = pset p"
  by (simp add: unsetIfPresent_def)

lemma unsetIfPresent_unset: "set (punset (unsetIfPresent og k p)) =
    set (punset p) \<union> (if jget og k \<noteq> JUndef then {k} else {})"
  by (auto simp: unsetIfPresent_def)

lemma unsetIfPresent_fold:
  "pset (foldl (\<lambda>p k. unsetIfPresent og k p) p ks) = pset p"
  "set (punset (foldl (\<lambda>p k. unsetIfPresent og k p) p ks)) =
     set (punset p) \<union> {k \<in> set ks. jget og k \<noteq> JUndef}"
  by (induction ks arbitrary: p) (auto simp: unsetIfPresent_unset)

lemma applyPatchPolicy_parts:
  fixes status original :: jval and patch :: uci_patch
  defines "out \<equiv> applyPatchPolicy status original patch"
  shows "map_of (pset out) k =
      (if \<not> isNss status \<and> k \<in> set nssOnly then None else map_of (pset patch) k) \<and>
    set (punset out) = set (punset patch) \<union>
      (if isX86 status then {k \<in> set nssOnly. jget (jor original (JObj [])) k \<noteq> JUndef} else {})"
proof
  let ?og = "jor original (JObj [])"
  have parts: "nssOnly = ''access_edge_mode'' # ''internet_view_mode'' # drop 2 nssOnly"
    by (simp add: nssOnly_def)
  show "map_of (pset out) k =
      (if \<not> isNss status \<and> k \<in> set nssOnly then None else map_of (pset patch) k)"
    by (simp add: out_def applyPatchPolicy_def isNss_def Let_def unsetIfPresent_fold map_of_foldl_delProp)
  have "{k \<in> set nssOnly. jget ?og k \<noteq> JUndef} =
      (if jget ?og ''access_edge_mode'' \<noteq> JUndef then {''access_edge_mode''} else {}) \<union>
      (if jget ?og ''internet_view_mode'' \<noteq> JUndef then {''internet_view_mode''} else {}) \<union>
      {k \<in> set (drop 2 nssOnly). jget ?og k \<noteq> JUndef}"
    by (subst parts) auto
  then show "set (punset out) = set (punset patch) \<union>
      (if isX86 status then {k \<in> set nssOnly. jget ?og k \<noteq> JUndef} else {})"
    by (simp add: out_def applyPatchPolicy_def isX86_def Let_def unsetIfPresent_fold unsetIfPresent_unset
        Un_assoc)
qed

text \<open>
  What a save may write depends on the platform: on NSS the patch is untouched; on any
  other platform no NSS-only option is set and every other option keeps its value; x86
  also removes exactly the NSS-only options that the configuration file still has.
\<close>

theorem applyPatchPolicy_correct:
  fixes status original :: jval and patch :: uci_patch
  defines "out \<equiv> applyPatchPolicy status original patch"
  shows "map_of (pset out) k =
      (if \<not> isNss status \<and> k \<in> set nssOnly then None else map_of (pset patch) k) \<and>
    set (punset out) = set (punset patch) \<union>
      (if isX86 status then {k \<in> set nssOnly. jget (jor original (JObj [])) k \<noteq> JUndef} else {})"
  unfolding out_def by (rule applyPatchPolicy_parts)

lemma map_of_cloneValues: "k \<notin> set protoKeys \<Longrightarrow> jget (JObj (cloneValues (JObj ps))) k = jget (JObj ps) k"
  by (auto simp: cloneValues_def jget.simps map_of_map_restrict restrict_map_def map_of_eq_None_iff
      split: option.splits dest: map_of_SomeD) (metis domI domIff fst_conv image_eqI map_of_SomeD)

text \<open>
  On x86 the values handed to the form are supported there: no access edge, no routed
  view, no NSS tuning, and a rate mode the platform has; the rest is unchanged. On another
  platform nothing changes.
\<close>

theorem normalizeValues_correct:
  fixes status :: jval and ps :: props
  defines "out \<equiv> JObj (normalizeValues status (JObj ps))"
  assumes "k \<notin> set protoKeys"
  shows "jget out k = (if \<not> isX86 status then jget (JObj ps) k
     else if k = ''access_edge_mode'' \<or> k = ''internet_view_mode'' then JStr ''off''
     else if k \<in> set nssTuning then JUndef
     else if k = ''rate_collector_mode'' \<and> \<not> supportsRateMode status (jget (JObj ps) k) then JStr ''bpf''
     else jget (JObj ps) k)"
proof (cases "isX86 status")
  case False
  then show ?thesis using assms(2) by (simp add: out_def normalizeValues_def isX86_def map_of_cloneValues Let_def)
next
  case True
  let ?n2 = "putProp ''internet_view_mode'' (JStr ''off'')
    (putProp ''access_edge_mode'' (JStr ''off'') (cloneValues (JObj ps)))"
  let ?n3 = "foldl (\<lambda>ps k. delProp k ps) ?n2 nssTuning"
  have n3: "jget (JObj ?n3) j = (if j \<in> set nssTuning then JUndef else jget (JObj ?n2) j)"
    if "j \<notin> set protoKeys" for j
    using that by (simp add: jget.simps map_of_foldl_delProp)
  have rc: "''rate_collector_mode'' \<notin> set protoKeys" "''rate_collector_mode'' \<notin> set nssTuning"
      "''access_edge_mode'' \<notin> set nssTuning" "''internet_view_mode'' \<notin> set nssTuning"
    by (auto simp: protoKeys_def nssTuning_def)
  have "jget (JObj ?n3) ''rate_collector_mode'' = jget (JObj ps) ''rate_collector_mode''"
    using rc by (simp add: n3 map_of_cloneValues)
  moreover have "normalizeValues status (JObj ps) =
      (if \<not> x86_supportsRateMode (jget (JObj ?n3) ''rate_collector_mode'')
       then putProp ''rate_collector_mode'' (JStr ''bpf'') ?n3 else ?n3)"
    using True by (simp add: normalizeValues_def isX86_def Let_def)
  ultimately have "jget out k = (if k = ''rate_collector_mode'' \<and>
      \<not> x86_supportsRateMode (jget (JObj ps) ''rate_collector_mode'') then JStr ''bpf'' else jget (JObj ?n3) k)"
    by (simp add: out_def)
  moreover have "supportsRateMode status m = x86_supportsRateMode m" for m
    using True by (simp add: supportsRateMode_def isX86_def)
  ultimately show ?thesis
    using True assms(2) rc n3 [OF assms(2)] map_of_cloneValues [OF assms(2), of ps]
    by (cases "k = ''rate_collector_mode''"; cases "k = ''access_edge_mode''";
        cases "k = ''internet_view_mode''") simp_all
qed

theorem normalizeValues_correct_witness:
  "jget (JObj (normalizeValues (JObj [(''evidence'', JObj [(''platform'', JObj [(''target_arch'', JStr ''x86_64'')])])])
     (JObj [(''rate_collector_mode'', JStr ''nss_ecm_bpf'')]))) ''rate_collector_mode'' = JStr ''bpf''"
proof -
  let ?st = "JObj [(''evidence'', JObj [(''platform'', JObj [(''target_arch'', JStr ''x86_64'')])])]"
  let ?ps = "[(''rate_collector_mode'', JStr ''nss_ecm_bpf'')]"
  have "''rate_collector_mode'' \<notin> set protoKeys" by (simp add: protoKeys_def)
  note * = normalizeValues_correct [OF this, of ?st ?ps]
  have "isX86 ?st" "\<not> supportsRateMode ?st (jget (JObj ?ps) ''rate_collector_mode'')" by code_simp+
  with * show ?thesis by (simp add: nssTuning_def)
qed

end
