(* ===== verification/ConfigModel.thy ===== *)
theory ConfigModel
  imports ConfigPlatform
begin

text \<open>
  \<open>lanspeed/configModel.js\<close>: the contract of the UCI configuration. Every option is parsed
  into its domain or replaced by its default with an error, the choices are checked against
  the capabilities of the platform, and a save is turned into a patch of UCI options.

  \<open>clone\<close> only copies mutable values; it has no counterpart here. The list \<open>FIELD_DEFS\<close> of
  labels is only read by the form.
\<close>

section \<open>Constants\<close>

definition MAX_INTERFACE_NAMES :: nat where "MAX_INTERFACE_NAMES = 16"
definition MAX_INTERFACE_NAME_LEN :: nat where "MAX_INTERFACE_NAME_LEN = 31"
definition MAX_RANGE_ITEMS :: nat where "MAX_RANGE_ITEMS = 32"
definition MAX_RANGE_LENGTH :: nat where "MAX_RANGE_LENGTH = 64"

definition DEFAULTS :: props where
  "DEFAULTS = [
     (''refresh_interval_ms'', num 1000),
     (''active_client_window_ms'', num 10000),
     (''active_client_min_bps'', num 1),
     (''overview_window_samples'', num 240),
     (''rate_collector_mode'', JStr ''auto''),
     (''internet_view_mode'', JStr ''off''),
     (''access_edge_mode'', JStr ''active''),
     (''nss_low_rate_window_ms'', num 18000),
     (''nss_low_rate_high_watermark_bps'', num 8000000),
     (''nss_fifo_target_delay_ms'', num 50),
     (''nss_fifo_min_queue_packets'', num 8),
     (''rate_compensation_factor'', JStr ''1.10''),
     (''conn_collector_mode'', JStr ''auto''),
     (''show_client_status'', JStr ''0''),
     (''show_ipv6'', JStr ''1''),
     (''hide_private_ipv6'', JStr ''0''),
     (''hide_ipv6_ranges'', JStr ''fc00::/7 fe80::/10''),
     (''collector_mode'', JStr ''auto''),
     (''max_clients'', num 2048),
     (''ifname'', JArr []),
     (''interface_include'', JArr []),
     (''interface_exclude'', JArr []),
     (''observe'', JArr []),
     (''enable_bpf'', JStr ''1''),
     (''enable_conntrack_fallback'', JStr ''1'')]"

definition defaultOf :: "string \<Rightarrow> jval" where
  "defaultOf name = jget (JObj DEFAULTS) name"

record limit =
  lim_min :: rat
  lim_max :: rat
  lim_step :: rat

definition LIMITS :: "(string \<times> limit) list" where
  "LIMITS = [
     (''refresh_interval_ms'', \<lparr>lim_min = 500, lim_max = 4294967295, lim_step = 100\<rparr>),
     (''active_client_window_ms'', \<lparr>lim_min = 1000, lim_max = 9007199254740991, lim_step = 1000\<rparr>),
     (''active_client_min_bps'', \<lparr>lim_min = 1, lim_max = 9007199254740991, lim_step = 1\<rparr>),
     (''overview_window_samples'', \<lparr>lim_min = 2, lim_max = 240, lim_step = 1\<rparr>),
     (''max_clients'', \<lparr>lim_min = 64, lim_max = 16384, lim_step = 1\<rparr>),
     (''nss_low_rate_window_ms'', \<lparr>lim_min = 2000, lim_max = 60000, lim_step = 1000\<rparr>),
     (''nss_low_rate_high_watermark_bps'', \<lparr>lim_min = 1000000, lim_max = 1000000000, lim_step = 1000000\<rparr>),
     (''nss_fifo_target_delay_ms'', \<lparr>lim_min = 10, lim_max = 250, lim_step = 10\<rparr>),
     (''nss_fifo_min_queue_packets'', \<lparr>lim_min = 2, lim_max = 16, lim_step = 1\<rparr>),
     (''rate_compensation_factor'', \<lparr>lim_min = 1, lim_max = 5/4, lim_step = 1/100\<rparr>)]"

definition RATE_MODES :: "(string \<times> mtext \<times> string option) list" where
  "RATE_MODES = [
     (''auto'', Tr ''automatic precise (recommended)'', None),
     (''bpf'', Tr ''CPU path only (BPF)'', Some ''bpf''),
     (''nss_ecm_node'', Tr ''NSS only (ECM)'', Some ''nss_ecm_node''),
     (''nss_ecm_bpf'', Tr ''NSS + CPU path (ECM+BPF)'', Some ''nss_ecm_bpf'')]"

definition INTERNET_VIEW_MODES :: "(string \<times> mtext) list" where
  "INTERNET_VIEW_MODES = [(''off'', Tr ''off''), (''routed'', Tr ''routed traffic (FastN+FastS)'')]"

definition CONNECTION_MODES :: "(string \<times> mtext \<times> string option) list" where
  "CONNECTION_MODES = [
     (''auto'', Tr ''automatic (CT-Netlink recommended)'', None),
     (''conntrack_netlink'', Tr ''kernel connection interface (Netlink)'', Some ''conntrack_netlink''),
     (''conntrack_procfs'', Tr ''compatible connection interface (Procfs)'', Some ''conntrack_procfs'')]"

definition ACCESS_EDGE_MODES :: "(string \<times> mtext) list" where
  "ACCESS_EDGE_MODES = [(''off'', Tr ''precise detection off''),
     (''shadow'', Tr ''background verification only''), (''active'', Tr ''precise totals (recommended)'')]"

definition REMOVED_UCI_FIELDS :: "string list" where "REMOVED_UCI_FIELDS = [''dedicated_port'']"

definition numberFields :: "string list" where
  "numberFields = [''refresh_interval_ms'', ''active_client_window_ms'', ''active_client_min_bps'',
     ''overview_window_samples'', ''max_clients'', ''nss_low_rate_window_ms'',
     ''nss_low_rate_high_watermark_bps'', ''nss_fifo_target_delay_ms'', ''nss_fifo_min_queue_packets'']"

definition listFields :: "string list" where
  "listFields = [''ifname'', ''interface_include'', ''interface_exclude'', ''observe'']"

definition boolFields :: "string list" where
  "boolFields = [''show_client_status'', ''show_ipv6'', ''hide_private_ipv6'', ''enable_bpf'',
     ''enable_conntrack_fallback'']"

section \<open>Texts and lists\<close>

definition asText :: "jval \<Rightarrow> string" where
  "asText v = (if v = JUndef \<or> v = JNull then [] else toStr v)"

text \<open>The class \<open>[\t\n\r\f ]\<close>.\<close>

definition isAsciiBlank :: "char \<Rightarrow> bool" where
  "isAsciiBlank c \<longleftrightarrow> code c \<in> {9, 10, 12, 13, 32}"

definition trimAscii :: "jval \<Rightarrow> string" where
  "trimAscii v = trimBy isAsciiBlank (asText v)"

text \<open>The class \<open>[\s,]\<close>.\<close>

definition isSeparator :: "char \<Rightarrow> bool" where
  "isSeparator c \<longleftrightarrow> isSpace c \<or> c = CHR '',''"

definition asList :: "jval \<Rightarrow> jval list" where
  "asList v = (case v of JArr xs \<Rightarrow> xs | JStr s \<Rightarrow> map JStr (splitWords isSeparator s) | _ \<Rightarrow> [])"

definition unique :: "jval \<Rightarrow> string list" where
  "unique vs = firstsFrom (set protoKeys) (map asText (asList vs))"

section \<open>Parsers of one option\<close>

text \<open>The object a parser returns; \<open>pr_reason\<close> is empty for a valid value.\<close>

record parsed =
  pr_valid :: bool
  pr_value :: jval
  pr_raw :: string
  pr_reason :: string
  pr_bound :: "rat option"

definition invalid :: "jval \<Rightarrow> string \<Rightarrow> string \<Rightarrow> rat option \<Rightarrow> parsed" where
  "invalid v raw reason bound =
     \<lparr>pr_valid = False, pr_value = v, pr_raw = raw, pr_reason = reason, pr_bound = bound\<rparr>"

definition accepted :: "jval \<Rightarrow> string \<Rightarrow> parsed" where
  "accepted v raw = \<lparr>pr_valid = True, pr_value = v, pr_raw = raw, pr_reason = [], pr_bound = None\<rparr>"

text \<open>The test \<open>/^[+-]?\d+$/\<close>.\<close>

definition isIntegerText :: "string \<Rightarrow> bool" where
  "isIntegerText s = (let ds = (if s \<noteq> [] \<and> (hd s = CHR ''+'' \<or> hd s = CHR ''-'') then tl s else s)
     in ds \<noteq> [] \<and> list_all isDigit ds)"

definition parseInteger :: "jval \<Rightarrow> limit option \<Rightarrow> parsed" where
  "parseInteger v limits = (let raw = trimAscii v in
     if \<not> isIntegerText raw then invalid JNull raw ''integer_required'' None
     else (case strToNumber raw of
       Fin q \<Rightarrow>
         if of_int \<lfloor>q\<rfloor> \<noteq> q \<or> \<bar>q\<bar> > MAX_SAFE_INTEGER then invalid JNull raw ''integer_out_of_range'' None
         else (case limits of
           None \<Rightarrow> accepted (num q) raw
         | Some l \<Rightarrow>
             if q < lim_min l then invalid (num q) raw ''below_min'' (Some (lim_min l))
             else if q > lim_max l then invalid (num q) raw ''above_max'' (Some (lim_max l))
             else accepted (num q) raw)
     | _ \<Rightarrow> invalid JNull raw ''integer_out_of_range'' None))"

text \<open>The test \<open>/^\d+(?:\.\d{1,2})?$/\<close> and \<open>toFixed(2)\<close> of a number that is not negative.\<close>

definition isDecimalText :: "string \<Rightarrow> bool" where
  "isDecimalText s = (let ip = takeWhile isDigit s; r = dropWhile isDigit s in
     ip \<noteq> [] \<and> (r = [] \<or> (hd r = CHR ''.'' \<and> length (tl r) \<in> {1, 2} \<and> list_all isDigit (tl r))))"

definition toFixed2 :: "rat \<Rightarrow> string" where
  "toFixed2 q = (let n = nat \<lfloor>q * 100 + 1/2\<rfloor> in
     showNat (n div 100) @ ''.'' @ [digitChar (n mod 100 div 10), digitChar (n mod 10)])"

definition parseFactor :: "jval \<Rightarrow> limit option \<Rightarrow> parsed" where
  "parseFactor v limits = (let raw = trimAscii v in
     if \<not> isDecimalText raw then invalid JNull raw ''decimal_required'' None
     else (case strToNumber raw of
       Fin q \<Rightarrow> (case limits of
           None \<Rightarrow> accepted (JStr (toFixed2 q)) raw
         | Some l \<Rightarrow>
             if q < lim_min l then invalid (num q) raw ''below_min'' (Some (lim_min l))
             else if q > lim_max l then invalid (num q) raw ''above_max'' (Some (lim_max l))
             else accepted (JStr (toFixed2 q)) raw)
     | _ \<Rightarrow> invalid JNull raw ''decimal_required'' None))"

definition parseBoolean :: "jval \<Rightarrow> jval \<Rightarrow> parsed" where
  "parseBoolean v fallback = (let raw = toLowerCase (trimAscii v) in
     if raw = ''1'' \<or> raw = ''true'' then accepted (JStr ''1'') raw
     else if raw = ''0'' \<or> raw = ''false'' then accepted (JStr ''0'') raw
     else invalid fallback raw ''boolean_required'' None)"

definition validInterfaceName :: "string \<Rightarrow> bool" where
  "validInterfaceName s \<longleftrightarrow> s \<noteq> [] \<and> length s \<le> MAX_INTERFACE_NAME_LEN \<and>
     list_all (\<lambda>c. \<not> isSpace c \<and> c \<noteq> CHR ''/'' \<and> c \<noteq> CHR '','' \<and> code c \<noteq> 0) s"

record name_lists =
  nl_valid :: "string list"
  nl_invalid :: "string list"
  nl_seen :: "string set"

definition addName :: "name_lists \<Rightarrow> string \<Rightarrow> name_lists" where
  "addName st part = (if part \<in> nl_seen st then st
     else (let st' = st\<lparr>nl_seen := insert part (nl_seen st)\<rparr> in
       if validInterfaceName part then st'\<lparr>nl_valid := nl_valid st' @ [part]\<rparr>
       else st'\<lparr>nl_invalid := nl_invalid st' @ [part]\<rparr>))"

text \<open>The body of the loop over the raw items; \<open>scalar\<close> holds for a string option.\<close>

definition addItem :: "bool \<Rightarrow> name_lists \<Rightarrow> jval \<Rightarrow> name_lists" where
  "addItem scalar st item = (let name = trimAscii item in
     if scalar \<and> list_ex isSeparator name then foldl addName st (splitWords isSeparator name)
     else if name = [] then st else addName st name)"

record name_result =
  nr_valid :: "string list"
  nr_invalid :: "string list"
  nr_truncated :: bool

definition parseInterfaceList :: "jval \<Rightarrow> name_result" where
  "parseInterfaceList v = (let raw = (case v of JArr xs \<Rightarrow> xs | JStr s \<Rightarrow> [JStr s] | _ \<Rightarrow> []);
       st = foldl (addItem (isStr v)) \<lparr>nl_valid = [], nl_invalid = [], nl_seen = set protoKeys\<rparr> raw
     in \<lparr>nr_valid = take MAX_INTERFACE_NAMES (nl_valid st), nr_invalid = nl_invalid st,
         nr_truncated = (MAX_INTERFACE_NAMES < length (nl_valid st))\<rparr>)"

text \<open>The test \<open>/^[0-9a-f]{1,4}$/\<close> of one group of an address, and its value.\<close>

definition isHexGroup :: "string \<Rightarrow> bool" where
  "isHexGroup g \<longleftrightarrow> g \<noteq> [] \<and> length g \<le> 4 \<and> list_all isHexLower g"

definition parseIpv6Words :: "jval \<Rightarrow> nat list option" where
  "parseIpv6Words v = (let source = toLowerCase (trimAscii v) in
     if source = [] \<or> CHR ''.'' \<in> set source \<or> CHR '':'' \<notin> set source then None
     else (let parts = splitDouble CHR '':'' source in
       if length parts > 2 then None
       else (let head = (if parts ! 0 \<noteq> [] then splitChar CHR '':'' (parts ! 0) else []);
                 tail = (if length parts = 2 \<and> parts ! 1 \<noteq> [] then splitChar CHR '':'' (parts ! 1) else []);
                 missing = (if length parts = 2 then 8 - int (length head) - int (length tail) else 0)
             in if missing < 0 \<or> (length parts = 1 \<and> length head \<noteq> 8) then None
                else if \<not> list_all isHexGroup head \<or> \<not> list_all isHexGroup tail then None
                else (let words = map (radixVal 16) head @ replicate (nat missing) 0 @ map (radixVal 16) tail
                      in if length words = 8 then Some words else None))))"

definition parseCidr :: "jval \<Rightarrow> parsed" where
  "parseCidr v = (let source = toLowerCase (trimAscii v); parts = splitChar CHR ''/'' source in
     if length parts \<noteq> 2 \<or> length source > MAX_RANGE_LENGTH
     then invalid (JStr source) source ''cidr_required'' None
     else if parseIpv6Words (JStr (parts ! 0)) = None then invalid (JStr source) source ''ipv6_required'' None
     else if \<not> (parts ! 1 \<noteq> [] \<and> length (parts ! 1) \<le> 3 \<and> list_all isDigit (parts ! 1))
     then invalid (JStr source) source ''prefix_required'' None
     else if decVal (parts ! 1) > 128 then invalid (JStr source) source ''prefix_out_of_range'' None
     else accepted (JStr source) source)"

definition addCidr :: "name_lists \<Rightarrow> jval \<Rightarrow> name_lists" where
  "addCidr st item = (let p = parseCidr item; s = toStr (pr_value p) in
     if \<not> pr_valid p then
       (if trimAscii item \<noteq> [] then st\<lparr>nl_invalid := nl_invalid st @ [trimAscii item]\<rparr> else st)
     else if s \<in> nl_seen st then st
     else st\<lparr>nl_seen := insert s (nl_seen st), nl_valid := nl_valid st @ [s]\<rparr>)"

definition parseCidrList :: "jval \<Rightarrow> name_result" where
  "parseCidrList v = (let st = foldl addCidr \<lparr>nl_valid = [], nl_invalid = [], nl_seen = set protoKeys\<rparr> (asList v)
     in \<lparr>nr_valid = take MAX_RANGE_ITEMS (nl_valid st), nr_invalid = nl_invalid st,
         nr_truncated = (MAX_RANGE_ITEMS < length (nl_valid st))\<rparr>)"

definition legacyRate :: "string \<Rightarrow> string" where
  "legacyRate v = (if v = ''bpf'' then ''bpf'' else ''auto'')"

definition legacyConnection :: "string \<Rightarrow> string" where
  "legacyConnection v = (if v = ''conntrack_netlink'' \<or> v = ''conntrack_procfs'' then v else ''auto'')"

definition normalizeEnum :: "jval \<Rightarrow> string list \<Rightarrow> jval \<Rightarrow> parsed" where
  "normalizeEnum v allowed fallback = (let raw = trimAscii v in
     if raw \<in> set allowed then accepted (JStr raw) raw else invalid fallback raw ''enum_required'' None)"

section \<open>Normalisation of a configuration\<close>

record normalized =
  nvalues :: props
  nerrors :: "(string \<times> string) list"
  nwarnings :: "(string \<times> string) list"
  npresent :: "(string \<times> bool) list"

text \<open>Insertion into one of the result objects, whatever the type of its values.\<close>

fun putAssoc :: "string \<Rightarrow> 'a \<Rightarrow> (string \<times> 'a) list \<Rightarrow> (string \<times> 'a) list" where
  "putAssoc k v [] = [(k, v)]"
| "putAssoc k v ((j, w) # ps) = (if j = k then (j, v) # ps else (j, w) # putAssoc k v ps)"

text \<open>
  The block repeated for every option: store the value, note whether the option was given,
  and record an error for a given option that does not parse.
\<close>

definition storeField :: "jval \<Rightarrow> string \<Rightarrow> jval \<Rightarrow> parsed \<Rightarrow> normalized \<Rightarrow> normalized" where
  "storeField raw name v result st = (let given = \<not> nullish (jget raw name) in
     \<lparr>nvalues = putProp name v (nvalues st),
      nerrors = (if \<not> pr_valid result \<and> given then putAssoc name (pr_reason result) (nerrors st)
                 else nerrors st),
      nwarnings = nwarnings st,
      npresent = putAssoc name given (npresent st)\<rparr>)"

definition storeList :: "jval \<Rightarrow> string \<Rightarrow> jval \<Rightarrow> name_result \<Rightarrow> string \<Rightarrow> string \<Rightarrow> normalized \<Rightarrow> normalized" where
  "storeList raw name v result badItem tooMany st =
     \<lparr>nvalues = putProp name v (nvalues st),
      nerrors = (if nr_invalid result \<noteq> [] \<or> nr_truncated result
                 then putAssoc name (if nr_invalid result \<noteq> [] then badItem else tooMany) (nerrors st)
                 else nerrors st),
      nwarnings = nwarnings st,
      npresent = putAssoc name (\<not> nullish (jget raw name)) (npresent st)\<rparr>"

definition rawOr :: "jval \<Rightarrow> string \<Rightarrow> jval" where
  "rawOr raw name = (if jget raw name = JUndef then defaultOf name else jget raw name)"

definition numberField :: "jval \<Rightarrow> normalized \<Rightarrow> string \<Rightarrow> normalized" where
  "numberField raw st name = (let result = parseInteger (rawOr raw name) (map_of LIMITS name) in
     storeField raw name (if pr_valid result then pr_value result else defaultOf name) result st)"

definition factorField :: "jval \<Rightarrow> normalized \<Rightarrow> normalized" where
  "factorField raw st = (let name = ''rate_compensation_factor'';
       result = parseFactor (rawOr raw name) (map_of LIMITS name)
     in storeField raw name (if pr_valid result then pr_value result else defaultOf name) result st)"

definition legacyEnum :: "jval \<Rightarrow> parsed" where
  "legacyEnum raw = normalizeEnum (rawOr raw ''collector_mode'')
     [''auto'', ''bpf'', ''conntrack_netlink'', ''conntrack_procfs''] (defaultOf ''collector_mode'')"

definition rateEnum :: "jval \<Rightarrow> parsed" where
  "rateEnum raw = (let rateRaw = jget raw ''rate_collector_mode'' in
     normalizeEnum (if rateRaw = JUndef then JStr (legacyRate (toStr (pr_value (legacyEnum raw)))) else rateRaw)
       (map fst RATE_MODES) (defaultOf ''rate_collector_mode''))"

definition connEnum :: "jval \<Rightarrow> parsed" where
  "connEnum raw = (let connRaw = jget raw ''conn_collector_mode'' in
     normalizeEnum (if connRaw = JUndef then JStr (legacyConnection (toStr (pr_value (legacyEnum raw)))) else connRaw)
       (map fst CONNECTION_MODES) (defaultOf ''conn_collector_mode''))"

definition enumField :: "jval \<Rightarrow> string \<Rightarrow> parsed \<Rightarrow> normalized \<Rightarrow> normalized" where
  "enumField raw name result st = storeField raw name (pr_value result) result st"

definition boolField :: "jval \<Rightarrow> normalized \<Rightarrow> string \<Rightarrow> normalized" where
  "boolField raw st name = (let result = parseBoolean (rawOr raw name) (defaultOf name) in
     storeField raw name (pr_value result) result st)"

definition rangesField :: "jval \<Rightarrow> normalized \<Rightarrow> normalized" where
  "rangesField raw st = (let ranges = parseCidrList (rawOr raw ''hide_ipv6_ranges'') in
     storeList raw ''hide_ipv6_ranges'' (JStr (joinStr '' '' (nr_valid ranges))) ranges
       ''cidr_invalid'' ''too_many_ranges'' st)"

definition listField :: "jval \<Rightarrow> normalized \<Rightarrow> string \<Rightarrow> normalized" where
  "listField raw st name = (let result = parseInterfaceList (jget raw name) in
     storeList raw name (JArr (map JStr (nr_valid result))) result
       ''interface_invalid'' ''too_many_interfaces'' st)"

text \<open>The options one by one, in the order of the source.\<close>

definition storeAll :: "jval \<Rightarrow> normalized" where
  "storeAll raw = (let
       s0 = \<lparr>nvalues = [], nerrors = [], nwarnings = [], npresent = []\<rparr>;
       s1 = foldl (numberField raw) s0 numberFields;
       s2 = factorField raw s1;
       s3 = enumField raw ''collector_mode'' (legacyEnum raw) s2;
       s4 = enumField raw ''rate_collector_mode'' (rateEnum raw) s3;
       s5 = enumField raw ''conn_collector_mode'' (connEnum raw) s4;
       s6 = enumField raw ''access_edge_mode'' (normalizeEnum (rawOr raw ''access_edge_mode'')
              (map fst ACCESS_EDGE_MODES) (defaultOf ''access_edge_mode'')) s5;
       s7 = enumField raw ''internet_view_mode'' (normalizeEnum (rawOr raw ''internet_view_mode'')
              (map fst INTERNET_VIEW_MODES) (defaultOf ''internet_view_mode'')) s6;
       s8 = foldl (boolField raw) s7 boolFields;
       s9 = rangesField raw s8
     in foldl (listField raw) s9 listFields)"

text \<open>The checks across options.\<close>

definition crossErrors :: "props \<Rightarrow> (string \<times> string) list \<Rightarrow> (string \<times> string) list" where
  "crossErrors vs es = (let v = jget (JObj vs); noBpf = (v ''enable_bpf'' = JStr ''0'');
       e1 = (if noBpf \<and> (v ''rate_collector_mode'' = JStr ''bpf'' \<or> v ''rate_collector_mode'' = JStr ''nss_ecm_bpf'')
             then putAssoc ''rate_collector_mode'' ''bpf_disabled'' es else es);
       e2 = (if noBpf \<and> v ''internet_view_mode'' = JStr ''routed''
             then putAssoc ''internet_view_mode'' ''bpf_disabled'' e1 else e1);
       e3 = (if length (unique (JArr (arrItems (v ''ifname'') @ arrItems (v ''interface_include'')))) > MAX_INTERFACE_NAMES
             then putAssoc ''interface_include'' ''too_many_interfaces'' e2 else e2);
       e4 = (if length (arrItems (v ''observe'')) > MAX_INTERFACE_NAMES
             then putAssoc ''observe'' ''too_many_interfaces'' e3 else e3)
     in if length (arrItems (v ''interface_exclude'')) > MAX_INTERFACE_NAMES
        then putAssoc ''interface_exclude'' ''too_many_interfaces'' e4 else e4)"

definition mirroredMode :: "props \<Rightarrow> jval" where
  "mirroredMode vs = (let rate = jget (JObj vs) ''rate_collector_mode''; conn = jget (JObj vs) ''conn_collector_mode'' in
     if rate \<in> set (map JStr [''bpf'', ''nss_ecm_node'', ''nss_ecm_bpf'']) then rate
     else if conn \<noteq> JStr ''auto'' \<and> rate = JStr ''auto'' then conn
     else JStr ''auto'')"

definition normalize :: "jval \<Rightarrow> normalized" where
  "normalize r = (let st = storeAll (jor r (JObj [])); vs = nvalues st in
     \<lparr>nvalues = putProp ''collector_mode'' (mirroredMode vs) vs,
      nerrors = crossErrors vs (nerrors st),
      nwarnings = (if jget (JObj vs) ''hide_private_ipv6'' = JStr ''0''
                   then [(''hide_ipv6_ranges'', ''dependency_disabled'')] else []),
      npresent = npresent st\<rparr>)"

definition normalizedValid :: "normalized \<Rightarrow> bool" where
  "normalizedValid n = (nerrors n = [])"

section \<open>Capabilities and validation\<close>

record capability =
  cap_allowed :: bool
  cap_known :: bool
  cap_reason :: "string option"

definition objectOr :: "jval \<Rightarrow> jval" where
  "objectOr v = (if truthy v \<and> typeofObject v then v else JObj [])"

definition capabilityState :: "jval \<Rightarrow> jval \<Rightarrow> (string \<times> capability) list" where
  "capabilityState st vs = (let status = objectOr st; caps = objectOr (jget status ''capabilities'');
       evidence = objectOr (jget status ''evidence''); collector = objectOr (jget evidence ''collector'');
       knownFalse = (\<lambda>k. hasOwn caps k \<and> jget caps k = JBool False);
       off = (truthy vs \<and> jget vs ''enable_bpf'' = JStr ''0'');
       no = (\<lambda>reason. \<lparr>cap_allowed = False, cap_known = True, cap_reason = Some reason\<rparr>);
       yes = (\<lambda>known. \<lparr>cap_allowed = True, cap_known = known, cap_reason = None\<rparr>);
       bpf = (if off then no ''bpf_disabled''
         else if list_ex knownFalse [''bpf_supported'', ''bpf_package'', ''bpf_object'', ''tc'', ''tc_clsact'']
         then no ''bpf_unavailable''
         else yes (hasOwn caps ''bpf_supported'' \<or>
           list_all (hasOwn caps) [''bpf_package'', ''bpf_object'', ''tc'', ''tc_clsact'']));
       node = (if list_ex knownFalse [''nss_ecm_node'', ''nss'', ''nss_ecm_offload''] then no ''nss_node_unavailable''
         else yes (hasOwn caps ''nss_ecm_node''));
       both = (if off then no ''bpf_disabled''
         else if list_ex knownFalse [''nss_ecm_bpf'', ''nss'', ''nss_ecm_offload'', ''bpf_package'', ''bpf_object'']
         then no ''nss_ecm_bpf_unavailable''
         else yes (list_all (hasOwn caps)
           [''nss_ecm_bpf'', ''nss'', ''nss_ecm_offload'', ''bpf_package'', ''bpf_object'']));
       conn = (\<lambda>name. let v = jget collector (name @ ''_available'') in
         if v = JBool False then no (name @ ''_unavailable'') else yes (isBool v))
     in [(''bpf'', bpf), (''nss_ecm_node'', node), (''nss_ecm_bpf'', both),
         (''conntrack_netlink'', conn ''conntrack_netlink''),
         (''conntrack_procfs'', conn ''conntrack_procfs''), (''auto'', yes True)])"

definition platformProfile :: "jval \<Rightarrow> string" where "platformProfile status = profile status"
definition isNssPlatform :: "jval \<Rightarrow> bool" where "isNssPlatform status = isNss status"
definition isX86Platform :: "jval \<Rightarrow> bool" where "isX86Platform status = isX86 status"

record validated =
  vd_values :: props
  vd_errors :: "(string \<times> string) list"
  vd_warnings :: "(string \<times> string) list"
  vd_capabilities :: "(string \<times> capability) list"
  vd_present :: "(string \<times> bool) list"
  vd_valid :: bool

text \<open>The check of one mode field against the capabilities.\<close>

definition checkMode :: "props \<Rightarrow> (string \<times> capability) list \<Rightarrow>
    (string \<times> string) list \<times> (string \<times> string) list \<Rightarrow> string \<Rightarrow>
    (string \<times> string) list \<times> (string \<times> string) list" where
  "checkMode vs caps ew name = (let mode = toStr (jget (JObj vs) name) in
     case map_of caps mode of
       None \<Rightarrow> ew
     | Some c \<Rightarrow>
         if mode \<noteq> ''auto'' \<and> cap_known c \<and> \<not> cap_allowed c
         then (putAssoc name (case cap_reason c of Some r \<Rightarrow> r | None \<Rightarrow> ''capability_unavailable'') (fst ew), snd ew)
         else if mode \<noteq> ''auto'' \<and> \<not> cap_known c then (fst ew, snd ew @ [(name, ''capability_pending'')])
         else ew)"

definition validate :: "jval \<Rightarrow> jval \<Rightarrow> (string \<times> string) list \<Rightarrow> validated" where
  "validate rawValues status interfaceErrors = (let n = normalize rawValues; vs = nvalues n;
       caps = capabilityState status (JObj vs);
       ew = foldl (checkMode vs caps) (nerrors n, nwarnings n) [''rate_collector_mode'', ''conn_collector_mode''];
       es = fst ew; ws = snd ew; rate = jget (JObj vs) ''rate_collector_mode'';
       noIface = (unique (JArr (arrItems (jget (JObj vs) ''ifname'') @ arrItems (jget (JObj vs) ''interface_include''))) = []);
       es2 = (if rate = JStr ''bpf'' \<and> jget (JObj vs) ''enable_bpf'' = JStr ''1'' \<and> noIface
              then putAssoc ''rate_collector_mode'' ''no_collect_interface'' es else es);
       ws2 = (if \<not> (rate = JStr ''bpf'' \<and> jget (JObj vs) ''enable_bpf'' = JStr ''1'' \<and> noIface) \<and>
                 rate = JStr ''bpf'' \<and> truthy status \<and> truthy (jget status ''capabilities'') \<and>
                 jget (jget status ''capabilities'') ''bpf_runtime_metrics'' = JBool False \<and>
                 map_of es ''rate_collector_mode'' = None
              then ws @ [(''rate_collector_mode'', ''bpf_runtime_not_ready'')] else ws);
       es3 = foldl (\<lambda>acc (k, e). putAssoc k e acc) es2 interfaceErrors
     in \<lparr>vd_values = vs, vd_errors = es3, vd_warnings = ws2, vd_capabilities = caps,
         vd_present = npresent n, vd_valid = (es3 = [])\<rparr>)"

section \<open>Saving\<close>

definition collectorModeFor :: "jval \<Rightarrow> string" where
  "collectorModeFor v = (let vs = jor v (JObj []); rate = jget vs ''rate_collector_mode'';
       conn = jget vs ''conn_collector_mode'' in
     if rate \<in> set (map JStr [''bpf'', ''nss_ecm_node'', ''nss_ecm_bpf'']) then ''bpf''
     else if rate = JStr ''auto'' \<and> conn = JStr ''conntrack_netlink'' then ''conntrack_netlink''
     else if rate = JStr ''auto'' \<and> conn = JStr ''conntrack_procfs'' then ''conntrack_procfs''
     else ''auto'')"

definition scalarFields :: "string list" where
  "scalarFields = [''refresh_interval_ms'', ''active_client_window_ms'', ''active_client_min_bps'',
     ''overview_window_samples'', ''rate_collector_mode'', ''conn_collector_mode'',
     ''access_edge_mode'', ''internet_view_mode'', ''nss_low_rate_window_ms'',
     ''nss_low_rate_high_watermark_bps'', ''nss_fifo_target_delay_ms'',
     ''nss_fifo_min_queue_packets'', ''rate_compensation_factor'',
     ''show_client_status'', ''show_ipv6'', ''hide_private_ipv6'', ''hide_ipv6_ranges'',
     ''collector_mode'', ''max_clients'', ''enable_bpf'', ''enable_conntrack_fallback'']"

definition wasGiven :: "jval \<Rightarrow> string \<Rightarrow> bool" where
  "wasGiven original name = (hasOwn original name \<and> \<not> nullish (jget original name))"

definition patchScalar :: "props \<Rightarrow> uci_patch \<Rightarrow> string \<Rightarrow> uci_patch" where
  "patchScalar vs p name = (let v = (if name = ''collector_mode'' then JStr (collectorModeFor (JObj vs))
       else jget (JObj vs) name)
     in if \<not> nullish v then p\<lparr>pset := putProp name (JStr (toStr v)) (pset p)\<rparr> else p)"

definition patchList :: "props \<Rightarrow> jval \<Rightarrow> uci_patch \<Rightarrow> string \<Rightarrow> uci_patch" where
  "patchList vs original p name = (let items = unique (jget (JObj vs) name) in
     if items \<noteq> [] then p\<lparr>pset := putProp name (JArr (map JStr items)) (pset p)\<rparr>
     else if wasGiven original name then p\<lparr>punset := punset p @ [name]\<rparr> else p)"

definition buildUciPatch :: "jval \<Rightarrow> jval \<Rightarrow> uci_patch" where
  "buildUciPatch vals og = (let vs = nvalues (normalize vals); original = jor og (JObj []);
       p1 = foldl (patchScalar vs) \<lparr>pset = [], punset = []\<rparr> scalarFields;
       p2 = foldl (patchList vs original) p1 listFields;
       p3 = foldl (\<lambda>p name. if wasGiven original name then p\<lparr>punset := punset p @ [name]\<rparr> else p)
              p2 REMOVED_UCI_FIELDS
     in p3\<lparr>punset := unique (JArr (map JStr (punset p3)))\<rparr>)"

section \<open>Choices of a mode\<close>

record mode_choice =
  mc_value :: string
  mc_label :: mtext
  mc_disabled :: bool
  mc_reason :: "string option"
  mc_pending :: bool

definition modeChoices :: "string \<Rightarrow> jval \<Rightarrow> jval \<Rightarrow> mode_choice list" where
  "modeChoices kind status vs = (let source = (if kind = ''rate'' then RATE_MODES else CONNECTION_MODES);
       caps = capabilityState status (jor vs (JObj DEFAULTS));
       selected = jfield vs ''rate_collector_mode'';
       nssKnownAbsent = (kind = ''rate'' \<and> \<not> isNssPlatform status);
       offered = filter (\<lambda>(v, label, cap). kind \<noteq> ''rate'' \<or> supportsRateMode status (JStr v) \<or>
         (\<not> nssKnownAbsent \<and> (v = ''nss_ecm_node'' \<or> v = ''nss_ecm_bpf'')) \<or> JStr v = selected) source
     in map (\<lambda>(v, label, capability). let cap = map_of caps (case capability of Some c \<Rightarrow> c | None \<Rightarrow> ''auto'') in
          \<lparr>mc_value = v,
           mc_label = (if kind = ''rate'' \<and> v = ''auto'' then autoLabel status label else label),
           mc_disabled = (case cap of Some c \<Rightarrow> cap_known c \<and> \<not> cap_allowed c | None \<Rightarrow> False),
           mc_reason = (case cap of Some c \<Rightarrow> cap_reason c | None \<Rightarrow> None),
           mc_pending = (case cap of Some c \<Rightarrow> \<not> cap_known c | None \<Rightarrow> False)\<rparr>) offered)"

section \<open>Lemmas on the parsers\<close>

lemma blank_lower [simp]: "isAsciiBlank (lowerChar c) = isAsciiBlank c"
  by (auto simp: isAsciiBlank_def lowerChar_def isUpperAz_def)

lemma trimAscii_JStr: "trimAscii (JStr s) = trimBy isAsciiBlank s"
  by (simp add: trimAscii_def asText_def)

lemma trimAscii_lower_trim [simp]:
  "trimAscii (JStr (toLowerCase (trimAscii v))) = toLowerCase (trimAscii v)"
  by (simp add: trimAscii_JStr toLowerCase_def trimBy_map) (simp add: trimAscii_def)

lemma blank_isSpace: "isAsciiBlank c \<Longrightarrow> isSpace c"
  by (auto simp: isAsciiBlank_def isSpace_def)

lemma trimAscii_no_space: "list_all (\<lambda>c. \<not> isSpace c) s \<Longrightarrow> trimAscii (JStr s) = s"
  unfolding trimAscii_JStr by (rule trimBy_none) (auto simp: list_all_iff dest: blank_isSpace)

lemma trimAscii_showNat [simp]: "trimAscii (JStr (showNat n)) = showNat n"
  using showNat_digits [of n] by (intro trimAscii_no_space) (auto simp: list_all_iff isDigit_not_space)

lemma isIntegerText_showNat [simp]: "isIntegerText (showNat n)"
  using showNat_digits [of n] digits_not_sign(1,2) [OF showNat_digits showNat_nonempty]
  by (simp add: isIntegerText_def Let_def)

lemma parseInteger_accepts:
  assumes "pr_valid (parseInteger v (Some l))"
  shows "\<exists>q. pr_value (parseInteger v (Some l)) = num q \<and> of_int \<lfloor>q\<rfloor> = q \<and> lim_min l \<le> q \<and> q \<le> lim_max l"
  using assms by (auto simp: parseInteger_def invalid_def accepted_def Let_def split: if_splits jnum.splits)

lemma parseInteger_showNat:
  assumes "lim_min l \<le> of_nat n" "of_nat n \<le> lim_max l" "lim_max l \<le> MAX_SAFE_INTEGER"
  shows "parseInteger (JStr (showNat n)) (Some l) = accepted (num (of_nat n)) (showNat n)"
proof -
  have "\<not> \<bar>of_nat n\<bar> > MAX_SAFE_INTEGER" "\<not> of_nat n < lim_min l" "\<not> of_nat n > lim_max l"
    using assms by (auto simp: not_less)
  then show ?thesis by (simp add: parseInteger_def Let_def)
qed

text \<open>A decimal with at most two places is a whole number of hundredths.\<close>

lemma decimalText_value:
  assumes "isDecimalText s"
  shows "\<exists>n :: nat. strToNumber s = Fin (of_nat n / 100)"
proof -
  define ip where "ip = takeWhile isDigit s"
  define r where "r = dropWhile isDigit s"
  have ip: "ip \<noteq> []" "r = [] \<or> (hd r = CHR ''.'' \<and> length (tl r) \<in> {1, 2} \<and> list_all isDigit (tl r))"
    using assms by (simp_all add: isDecimalText_def ip_def r_def Let_def)
  have digits: "list_all isDigit ip" and s: "s = ip @ r"
    by (auto simp: ip_def r_def list_all_iff dest: set_takeWhileD)
  show ?thesis
  proof (cases "r = []")
    case True
    then have "strToNumber s = Fin (of_nat (decVal ip))"
      using ip digits s strToNumber_digits by simp
    then show ?thesis by (intro exI [of _ "decVal ip * 100"]) simp
  next
    case False
    then obtain fp where r: "r = CHR ''.'' # fp" "length fp = 1 \<or> length fp = 2" "list_all isDigit fp"
      using ip(2) by (cases r) auto
    have num: "strToNumber s = Fin (of_nat (decVal (ip @ fp)) * pow10 (- int (length fp)))"
      unfolding s r(1) by (rule strToNumber_decimal [OF digits ip(1) r(3)])
    show ?thesis
    proof (cases "length fp = 1")
      case True
      then show ?thesis by (intro exI [of _ "decVal (ip @ fp) * 10"]) (simp add: num pow10_def)
    next
      case False
      then show ?thesis using r(2)
        by (intro exI [of _ "decVal (ip @ fp)"]) (simp add: num pow10_def)
    qed
  qed
qed

lemma toFixed2_hundredths:
  fixes h :: nat
  defines "fp \<equiv> [digitChar (h mod 100 div 10), digitChar (h mod 10)]"
  shows "toFixed2 (of_nat h / 100) = showNat (h div 100) @ CHR ''.'' # fp"
    and "list_all isDigit fp" and "decVal (showNat (h div 100) @ fp) = h"
proof -
  have "\<lfloor>of_nat h / 100 * 100 + 1 / 2 :: rat\<rfloor> = int h" by (simp add: floor_eq_iff)
  then show "toFixed2 (of_nat h / 100) = showNat (h div 100) @ CHR ''.'' # fp"
    by (simp add: toFixed2_def fp_def Let_def)
  have d: "h mod 100 div 10 < 10" "h mod 10 < 10" by auto
  show "list_all isDigit fp" using d by (simp add: fp_def digitChar_props)
  have "decVal (showNat (h div 100) @ fp) = 10 * (10 * (h div 100) + h mod 100 div 10) + h mod 10"
    using decVal_snoc [of "showNat (h div 100) @ [digitChar (h mod 100 div 10)]" "digitChar (h mod 10)"] d
    by (simp add: fp_def digitChar_props)
  also have "\<dots> = h"
  proof -
    have "h mod 100 div 10 = h div 10 mod 10" "h div 100 = h div 10 div 10"
      using mod_mult2_eq [of h 10 10] div_mult2_eq [of h 10 10] by simp_all
    then show ?thesis by simp
  qed
  finally show "decVal (showNat (h div 100) @ fp) = h" .
qed

lemma parseFactor_accepts:
  assumes "pr_valid (parseFactor v (map_of LIMITS ''rate_compensation_factor''))"
  shows "\<exists>h \<in> {100..125}. pr_value (parseFactor v (map_of LIMITS ''rate_compensation_factor'')) =
    JStr (toFixed2 (of_nat h / 100))"
proof -
  have lim: "map_of LIMITS ''rate_compensation_factor'' = Some \<lparr>lim_min = 1, lim_max = 5/4, lim_step = 1/100\<rparr>"
    by (simp add: LIMITS_def)
  have dec: "isDecimalText (trimAscii v)"
    using assms by (auto simp: parseFactor_def Let_def invalid_def split: if_splits)
  then obtain n where n: "strToNumber (trimAscii v) = Fin (of_nat n / 100)" using decimalText_value by blast
  have "1 \<le> (of_nat n / 100 :: rat)" "(of_nat n / 100 :: rat) \<le> 5/4"
    using assms dec n by (auto simp: parseFactor_def lim Let_def invalid_def split: if_splits)
  then have "(100 :: rat) \<le> of_nat n" "(of_nat n :: rat) \<le> 125" by (auto simp: field_simps)
  then have "n \<in> {100..125}"
    by (metis atLeastAtMost_iff of_nat_le_iff of_nat_numeral)
  moreover have "pr_value (parseFactor v (map_of LIMITS ''rate_compensation_factor'')) =
      JStr (toFixed2 (of_nat n / 100))"
    using assms dec n by (auto simp: parseFactor_def lim Let_def invalid_def accepted_def split: if_splits)
  ultimately show ?thesis by blast
qed

lemma parseFactor_reparse:
  assumes "h \<in> {100..125}"
  shows "parseFactor (JStr (toFixed2 (of_nat h / 100))) (map_of LIMITS ''rate_compensation_factor'') =
    accepted (JStr (toFixed2 (of_nat h / 100))) (toFixed2 (of_nat h / 100))"
proof -
  let ?fp = "[digitChar (h mod 100 div 10), digitChar (h mod 10)]"
  let ?s = "toFixed2 (of_nat h / 100)"
  note f = toFixed2_hundredths [of h]
  have nd: "\<not> isDigit CHR ''.''" by (simp add: isDigit_def code_def)
  have digits: "\<forall>c \<in> set (showNat (h div 100)). isDigit c" using showNat_digits by (simp add: list_all_iff)
  have trim: "trimAscii (JStr ?s) = ?s"
    unfolding f(1) using f(2) digits decimalChar_not_space
    by (intro trimAscii_no_space) (simp add: list_all_iff)
  have dec: "isDecimalText ?s"
    using f(2) digits nd unfolding f(1) by (simp add: isDecimalText_def takeWhile_append2 dropWhile_append2)
  have "strToNumber ?s = Fin (of_nat h / 100)"
    unfolding f(1) strToNumber_decimal [OF showNat_digits showNat_nonempty f(2)] f(3) by (simp add: pow10_def)
  moreover have "\<not> (of_nat h / 100 :: rat) < 1" "\<not> (of_nat h / 100 :: rat) > 5/4"
  proof -
    have "(100 :: rat) \<le> of_nat h" "of_nat h \<le> (125 :: rat)" 
      using assms of_nat_le_iff [of 100 h, where ?'a = rat] of_nat_le_iff [of h 125, where ?'a = rat] by simp_all
    then show "\<not> (of_nat h / 100 :: rat) < 1" "\<not> (of_nat h / 100 :: rat) > 5/4" by (auto simp: field_simps)
  qed
  ultimately show ?thesis
    using trim dec by (simp add: parseFactor_def Let_def LIMITS_def)
qed

subsection \<open>Lists of names\<close>

definition namesOk :: "(string \<Rightarrow> bool) \<Rightarrow> name_lists \<Rightarrow> bool" where
  "namesOk P st \<longleftrightarrow> distinct (nl_valid st) \<and> set (nl_valid st) \<subseteq> nl_seen st - set protoKeys \<and>
     set protoKeys \<subseteq> nl_seen st \<and> list_all P (nl_valid st)"

lemma namesOk_addName: "namesOk validInterfaceName st \<Longrightarrow> namesOk validInterfaceName (addName st n)"
  by (auto simp: namesOk_def addName_def Let_def)

lemma namesOk_fold: "namesOk validInterfaceName st \<Longrightarrow> namesOk validInterfaceName (foldl addName st ns)"
  by (induction ns arbitrary: st) (auto simp: namesOk_addName)

lemma namesOk_items: "namesOk validInterfaceName st \<Longrightarrow>
    namesOk validInterfaceName (foldl (addItem b) st items)"
  by (induction items arbitrary: st) (auto simp: addItem_def Let_def namesOk_addName namesOk_fold)

lemma namesOk_init: "namesOk P \<lparr>nl_valid = [], nl_invalid = [], nl_seen = set protoKeys\<rparr>"
  by (simp add: namesOk_def)

definition cidrOk :: "string \<Rightarrow> bool" where
  "cidrOk s \<longleftrightarrow> pr_valid (parseCidr (JStr s)) \<and> toLowerCase (trimAscii (JStr s)) = s"

lemma parseCidr_source: "pr_value (parseCidr v) = JStr (toLowerCase (trimAscii v))"
  by (simp add: parseCidr_def Let_def invalid_def accepted_def)

lemma parseCidr_lower: "parseCidr (JStr (toLowerCase (trimAscii v))) = parseCidr v"
  by (simp add: parseCidr_def)

lemma parseCidr_ok: "pr_valid (parseCidr v) \<Longrightarrow> cidrOk (toStr (pr_value (parseCidr v)))"
  by (simp add: cidrOk_def parseCidr_source parseCidr_lower)

lemma namesOk_addCidr: "namesOk cidrOk st \<Longrightarrow> namesOk cidrOk (addCidr st item)"
  by (auto simp: namesOk_def addCidr_def Let_def parseCidr_ok)

lemma namesOk_cidrs: "namesOk cidrOk st \<Longrightarrow> namesOk cidrOk (foldl addCidr st items)"
  by (induction items arbitrary: st) (auto simp: namesOk_addCidr)

lemma parseInterfaceList_ok:
  "distinct (nr_valid (parseInterfaceList v)) \<and> length (nr_valid (parseInterfaceList v)) \<le> MAX_INTERFACE_NAMES \<and>
   list_all (\<lambda>n. validInterfaceName n \<and> n \<notin> set protoKeys) (nr_valid (parseInterfaceList v))"
  using namesOk_items [OF namesOk_init, of "isStr v" "case v of JArr xs \<Rightarrow> xs | JStr s \<Rightarrow> [JStr s] | _ \<Rightarrow> []"]
  by (auto simp: parseInterfaceList_def Let_def namesOk_def list_all_iff dest: in_set_takeD)

lemma parseCidrList_ok:
  "distinct (nr_valid (parseCidrList v)) \<and> length (nr_valid (parseCidrList v)) \<le> MAX_RANGE_ITEMS \<and>
   list_all (\<lambda>n. cidrOk n \<and> n \<notin> set protoKeys) (nr_valid (parseCidrList v))"
  using namesOk_cidrs [OF namesOk_init, of "asList v"]
  by (auto simp: parseCidrList_def Let_def namesOk_def list_all_iff dest: in_set_takeD)

section \<open>The values of a normalised configuration\<close>

definition numVal :: "jval \<Rightarrow> string \<Rightarrow> jval" where
  "numVal raw name = (let result = parseInteger (rawOr raw name) (map_of LIMITS name) in
     if pr_valid result then pr_value result else defaultOf name)"

definition factorVal :: "jval \<Rightarrow> jval" where
  "factorVal raw = (let result = parseFactor (rawOr raw ''rate_compensation_factor'')
       (map_of LIMITS ''rate_compensation_factor'') in
     if pr_valid result then pr_value result else defaultOf ''rate_compensation_factor'')"

definition boolVal :: "jval \<Rightarrow> string \<Rightarrow> jval" where
  "boolVal raw name = pr_value (parseBoolean (rawOr raw name) (defaultOf name))"

definition enumVal :: "jval \<Rightarrow> string \<Rightarrow> string list \<Rightarrow> jval" where
  "enumVal raw name allowed = pr_value (normalizeEnum (rawOr raw name) allowed (defaultOf name))"

definition rangesVal :: "jval \<Rightarrow> jval" where
  "rangesVal raw = JStr (joinStr '' '' (nr_valid (parseCidrList (rawOr raw ''hide_ipv6_ranges''))))"

definition listVal :: "jval \<Rightarrow> string \<Rightarrow> jval" where
  "listVal raw name = JArr (map JStr (nr_valid (parseInterfaceList (jget raw name))))"

lemma storeField_value [simp]: "jget (JObj (nvalues (storeField raw n v r st))) k =
    (if k = n then v else jget (JObj (nvalues st)) k)"
  by (simp add: storeField_def Let_def)

lemma storeList_value [simp]: "jget (JObj (nvalues (storeList raw n v r b t st))) k =
    (if k = n then v else jget (JObj (nvalues st)) k)"
  by (simp add: storeList_def)

lemma numberFields_value: "jget (JObj (nvalues (foldl (numberField raw) st ns))) k =
    (if k \<in> set ns then numVal raw k else jget (JObj (nvalues st)) k)"
  by (induction ns arbitrary: st) (auto simp: numberField_def numVal_def Let_def)

lemma boolFields_value: "jget (JObj (nvalues (foldl (boolField raw) st ns))) k =
    (if k \<in> set ns then boolVal raw k else jget (JObj (nvalues st)) k)"
  by (induction ns arbitrary: st) (auto simp: boolField_def boolVal_def Let_def)

lemma listFields_value: "jget (JObj (nvalues (foldl (listField raw) st ns))) k =
    (if k \<in> set ns then listVal raw k else jget (JObj (nvalues st)) k)"
  by (induction ns arbitrary: st) (auto simp: listField_def listVal_def Let_def)

lemma storeAll_value: "jget (JObj (nvalues (storeAll raw))) k =
   (if k \<in> set listFields then listVal raw k
    else if k = ''hide_ipv6_ranges'' then rangesVal raw
    else if k \<in> set boolFields then boolVal raw k
    else if k = ''internet_view_mode'' then enumVal raw k (map fst INTERNET_VIEW_MODES)
    else if k = ''access_edge_mode'' then enumVal raw k (map fst ACCESS_EDGE_MODES)
    else if k = ''conn_collector_mode'' then pr_value (connEnum raw)
    else if k = ''rate_collector_mode'' then pr_value (rateEnum raw)
    else if k = ''collector_mode'' then pr_value (legacyEnum raw)
    else if k = ''rate_compensation_factor'' then factorVal raw
    else if k \<in> set numberFields then numVal raw k
    else jget (JObj []) k)"
  unfolding storeAll_def Let_def listFields_value rangesField_def storeList_value boolFields_value
    enumField_def storeField_value factorField_def numberFields_value rangesVal_def enumVal_def factorVal_def
  by simp

lemma fields_disjoint:
  "k \<in> set numberFields \<Longrightarrow> k \<notin> set listFields \<and> k \<notin> set boolFields \<and> k \<noteq> ''hide_ipv6_ranges'' \<and>
     k \<noteq> ''internet_view_mode'' \<and> k \<noteq> ''access_edge_mode'' \<and> k \<noteq> ''conn_collector_mode'' \<and>
     k \<noteq> ''rate_collector_mode'' \<and> k \<noteq> ''collector_mode'' \<and> k \<noteq> ''rate_compensation_factor''"
  "k \<in> set boolFields \<Longrightarrow> k \<notin> set listFields \<and> k \<noteq> ''hide_ipv6_ranges'' \<and> k \<noteq> ''collector_mode''"
  "k \<in> set listFields \<Longrightarrow> k \<noteq> ''collector_mode''"
  "''hide_ipv6_ranges'' \<notin> set listFields" "''rate_compensation_factor'' \<notin> set listFields \<union> set boolFields"
  "''internet_view_mode'' \<notin> set listFields \<union> set boolFields"
  "''access_edge_mode'' \<notin> set listFields \<union> set boolFields"
  "''conn_collector_mode'' \<notin> set listFields \<union> set boolFields"
  "''rate_collector_mode'' \<notin> set listFields \<union> set boolFields"
  "''collector_mode'' \<notin> set listFields \<union> set boolFields"
  unfolding numberFields_def listFields_def boolFields_def list.set by ((elim insertE emptyE; simp)+, simp_all)

text \<open>The value of each option of the result, by the kind of the option.\<close>

lemma normalize_value:
  fixes r :: jval
  defines "raw \<equiv> jor r (JObj [])"
    and "v \<equiv> \<lambda>k. jget (JObj (nvalues (normalize r))) k"
  shows "k \<in> set numberFields \<Longrightarrow> v k = numVal raw k"
    and "k \<in> set boolFields \<Longrightarrow> v k = boolVal raw k"
    and "k \<in> set listFields \<Longrightarrow> v k = listVal raw k"
    and "v ''hide_ipv6_ranges'' = rangesVal raw"
    and "v ''rate_compensation_factor'' = factorVal raw"
    and "v ''internet_view_mode'' = enumVal raw ''internet_view_mode'' (map fst INTERNET_VIEW_MODES)"
    and "v ''access_edge_mode'' = enumVal raw ''access_edge_mode'' (map fst ACCESS_EDGE_MODES)"
    and "v ''conn_collector_mode'' = pr_value (connEnum raw)"
    and "v ''rate_collector_mode'' = pr_value (rateEnum raw)"
    and "v ''collector_mode'' = mirroredMode (nvalues (storeAll raw))"
proof -
  have n: "v j = (if j = ''collector_mode'' then mirroredMode (nvalues (storeAll raw))
      else jget (JObj (nvalues (storeAll raw))) j)" for j
    by (simp add: v_def normalize_def raw_def Let_def)
  note f = fields_disjoint
  show "k \<in> set numberFields \<Longrightarrow> v k = numVal raw k" using f(1) [of k] by (simp add: n storeAll_value)
  show "k \<in> set boolFields \<Longrightarrow> v k = boolVal raw k" using f(2) [of k] by (simp add: n storeAll_value)
  show "k \<in> set listFields \<Longrightarrow> v k = listVal raw k" using f(3) [of k] by (simp add: n storeAll_value)
  show "v ''hide_ipv6_ranges'' = rangesVal raw" using f(4) by (simp add: n storeAll_value)
  show "v ''rate_compensation_factor'' = factorVal raw" using f(5) by (simp add: n storeAll_value)
  show "v ''internet_view_mode'' = enumVal raw ''internet_view_mode'' (map fst INTERNET_VIEW_MODES)"
    using f(6) by (simp add: n storeAll_value)
  show "v ''access_edge_mode'' = enumVal raw ''access_edge_mode'' (map fst ACCESS_EDGE_MODES)"
    using f(7) by (simp add: n storeAll_value)
  show "v ''conn_collector_mode'' = pr_value (connEnum raw)" using f(8) by (simp add: n storeAll_value)
  show "v ''rate_collector_mode'' = pr_value (rateEnum raw)" using f(9) by (simp add: n storeAll_value)
  show "v ''collector_mode'' = mirroredMode (nvalues (storeAll raw))" by (simp add: n)
qed

section \<open>Every value is in its domain\<close>

definition integerOk :: "string \<Rightarrow> jval \<Rightarrow> bool" where
  "integerOk k v \<longleftrightarrow> (\<exists>l n. map_of LIMITS k = Some l \<and> v = num (of_nat n) \<and>
     lim_min l \<le> of_nat n \<and> of_nat n \<le> lim_max l)"

definition factorOk :: "jval \<Rightarrow> bool" where
  "factorOk v \<longleftrightarrow> (\<exists>h \<in> {100..125}. v = JStr (toFixed2 (of_nat h / 100)))"

definition rangesOk :: "jval \<Rightarrow> bool" where
  "rangesOk v \<longleftrightarrow> (\<exists>rs. v = JStr (joinStr '' '' rs) \<and> distinct rs \<and> length rs \<le> MAX_RANGE_ITEMS \<and>
     list_all (\<lambda>r. pr_valid (parseCidr (JStr r))) rs)"

definition namesValueOk :: "jval \<Rightarrow> bool" where
  "namesValueOk v \<longleftrightarrow> (\<exists>ns. v = JArr (map JStr ns) \<and> distinct ns \<and> length ns \<le> MAX_INTERFACE_NAMES \<and>
     list_all validInterfaceName ns)"

definition configDomain :: "props \<Rightarrow> bool" where
  "configDomain vs \<longleftrightarrow> (let v = jget (JObj vs) in
     (\<forall>k \<in> set numberFields. integerOk k (v k)) \<and>
     factorOk (v ''rate_compensation_factor'') \<and>
     (\<forall>k \<in> set boolFields. v k \<in> {JStr ''0'', JStr ''1''}) \<and>
     (\<forall>k \<in> set listFields. namesValueOk (v k)) \<and>
     rangesOk (v ''hide_ipv6_ranges'') \<and>
     v ''rate_collector_mode'' \<in> JStr ` set (map fst RATE_MODES) \<and>
     v ''conn_collector_mode'' \<in> JStr ` set (map fst CONNECTION_MODES) \<and>
     v ''access_edge_mode'' \<in> JStr ` set (map fst ACCESS_EDGE_MODES) \<and>
     v ''internet_view_mode'' \<in> JStr ` set (map fst INTERNET_VIEW_MODES) \<and>
     v ''collector_mode'' = mirroredMode vs)"

lemma integral_nat: "of_int \<lfloor>q\<rfloor> = q \<Longrightarrow> 0 \<le> q \<Longrightarrow> q = of_nat (nat \<lfloor>q\<rfloor>)"
  by (metis of_nat_nat zero_le_floor)

lemma integerOk_accepts:
  assumes "map_of LIMITS k = Some l" "0 \<le> lim_min l" "pr_valid (parseInteger v (Some l))"
  shows "integerOk k (pr_value (parseInteger v (Some l)))"
proof -
  obtain q where q: "pr_value (parseInteger v (Some l)) = num q" "of_int \<lfloor>q\<rfloor> = q" "lim_min l \<le> q" "q \<le> lim_max l"
    using parseInteger_accepts [OF assms(3)] by blast
  have "0 \<le> q" using q(3) assms(2) by (rule order_trans [rotated])
  then have "q = of_nat (nat \<lfloor>q\<rfloor>)" by (rule integral_nat [OF q(2)])
  then show ?thesis using assms(1) q unfolding integerOk_def by metis
qed

lemma numberFields_limits:
  "k \<in> set numberFields \<Longrightarrow> \<exists>l. map_of LIMITS k = Some l \<and> 0 \<le> lim_min l \<and> lim_max l \<le> MAX_SAFE_INTEGER"
  unfolding numberFields_def by (auto simp: LIMITS_def MAX_SAFE_INTEGER_def)

definition withinLimits :: "string \<Rightarrow> jval \<Rightarrow> bool" where
  "withinLimits k v = (case (map_of LIMITS k, v) of
     (Some l, JNum (Fin q)) \<Rightarrow> of_int \<lfloor>q\<rfloor> = q \<and> 0 \<le> q \<and> lim_min l \<le> q \<and> q \<le> lim_max l | _ \<Rightarrow> False)"

lemma withinLimits_ok: "withinLimits k v \<Longrightarrow> integerOk k v"
proof -
  assume "withinLimits k v"
  then obtain l q where q: "map_of LIMITS k = Some l" "v = num q" "of_int \<lfloor>q\<rfloor> = q" "0 \<le> q" "lim_min l \<le> q" "q \<le> lim_max l"
    by (auto simp: withinLimits_def split: option.splits jval.splits jnum.splits)
  then show ?thesis unfolding integerOk_def using integral_nat [OF q(3,4)] by metis
qed

lemma defaults_integerOk: "k \<in> set numberFields \<Longrightarrow> integerOk k (defaultOf k)"
proof -
  have "list_all (\<lambda>k. withinLimits k (defaultOf k)) numberFields" by code_simp
  then show "k \<in> set numberFields \<Longrightarrow> integerOk k (defaultOf k)"
    by (simp add: list_all_iff withinLimits_ok)
qed

lemma numVal_ok: "k \<in> set numberFields \<Longrightarrow> integerOk k (numVal raw k)"
  using numberFields_limits [of k] defaults_integerOk [of k] integerOk_accepts
  by (auto simp: numVal_def Let_def)

lemma factorVal_ok: "factorOk (factorVal raw)"
proof -
  have "toFixed2 (of_nat 110 / 100) = ''1.10''" by code_simp
  then have "defaultOf ''rate_compensation_factor'' = JStr (toFixed2 (of_nat 110 / 100))"
    by (simp add: defaultOf_def DEFAULTS_def jget.simps)
  then have "factorOk (defaultOf ''rate_compensation_factor'')"
    unfolding factorOk_def by (intro bexI [of _ 110]) simp_all
  then show ?thesis
    using parseFactor_accepts by (auto simp: factorVal_def factorOk_def Let_def)
qed

lemma boolVal_ok: "k \<in> set boolFields \<Longrightarrow> boolVal raw k \<in> {JStr ''0'', JStr ''1''}"
proof -
  have "list_all (\<lambda>k. defaultOf k \<in> {JStr ''0'', JStr ''1''}) boolFields" by code_simp
  then show "k \<in> set boolFields \<Longrightarrow> boolVal raw k \<in> {JStr ''0'', JStr ''1''}"
    by (auto simp: boolVal_def parseBoolean_def accepted_def invalid_def Let_def list_all_iff)
qed

lemma normalizeEnum_ok: "fb \<in> JStr ` set allowed \<Longrightarrow> pr_value (normalizeEnum v allowed fb) \<in> JStr ` set allowed"
  by (auto simp: normalizeEnum_def accepted_def invalid_def Let_def)

lemma enum_defaults:
  "defaultOf ''internet_view_mode'' \<in> JStr ` set (map fst INTERNET_VIEW_MODES)"
  "defaultOf ''access_edge_mode'' \<in> JStr ` set (map fst ACCESS_EDGE_MODES)"
  "defaultOf ''conn_collector_mode'' \<in> JStr ` set (map fst CONNECTION_MODES)"
  "defaultOf ''rate_collector_mode'' \<in> JStr ` set (map fst RATE_MODES)"
  by (simp_all add: defaultOf_def DEFAULTS_def jget.simps INTERNET_VIEW_MODES_def ACCESS_EDGE_MODES_def
      CONNECTION_MODES_def RATE_MODES_def)

lemma listVal_ok: "namesValueOk (listVal raw k)"
  using parseInterfaceList_ok [of "jget raw k"] by (auto simp: namesValueOk_def listVal_def list_all_iff)

lemma rangesVal_ok: "rangesOk (rangesVal raw)"
  using parseCidrList_ok [of "rawOr raw ''hide_ipv6_ranges''"]
  by (auto simp: rangesOk_def rangesVal_def list_all_iff cidrOk_def)

lemma mirroredMode_cong:
  "jget (JObj a) ''rate_collector_mode'' = jget (JObj b) ''rate_collector_mode'' \<Longrightarrow>
   jget (JObj a) ''conn_collector_mode'' = jget (JObj b) ''conn_collector_mode'' \<Longrightarrow>
   mirroredMode a = mirroredMode b"
  by (simp add: mirroredMode_def)

lemma normalize_mirrored: "jget (JObj (nvalues (normalize r))) ''collector_mode'' = mirroredMode (nvalues (normalize r))"
proof -
  have "mirroredMode (nvalues (normalize r)) = mirroredMode (nvalues (storeAll (jor r (JObj []))))"
    by (rule mirroredMode_cong) (simp_all add: normalize_def Let_def)
  then show ?thesis by (simp add: normalize_value(10))
qed

lemma normalize_in_domain: "configDomain (nvalues (normalize r))"
  unfolding configDomain_def Let_def
proof (intro conjI ballI)
  show "jget (JObj (nvalues (normalize r))) ''collector_mode'' = mirroredMode (nvalues (normalize r))"
    by (rule normalize_mirrored)
qed (simp_all only: normalize_value numVal_ok factorVal_ok boolVal_ok listVal_ok rangesVal_ok
    enumVal_def connEnum_def rateEnum_def Let_def normalizeEnum_ok enum_defaults)

text \<open>
  C17: whatever the configuration file or the form holds, the normalised configuration is in
  its domain: every integer is whole and within its limits, the compensation factor is one
  of 1.00 to 1.25 in hundredths, booleans are 0 or 1, modes are offered ones, the
  interface lists are at most sixteen distinct valid names, the hidden ranges are at most 32
  distinct valid prefixes, and the compatibility mode mirrors the two collector modes.
\<close>

theorem normalize_domain: "configDomain (nvalues (normalize r))"
  by (rule normalize_in_domain)

section \<open>The patch of a save\<close>

lemma unique_strings: "unique (JArr (map JStr ns)) = firstsFrom (set protoKeys) ns"
  by (simp add: unique_def asList_def asText_def comp_def)

lemma unique_names: "namesValueOk v \<Longrightarrow> set (map toStr (arrItems v)) \<inter> set protoKeys = {} \<Longrightarrow>
    JArr (map JStr (unique v)) = v"
  by (auto simp: namesValueOk_def unique_strings image_image intro!: arg_cong [of _ _ "map JStr"] firstsFrom_id)

lemma listVal_not_proto: "set (map toStr (arrItems (listVal raw k))) \<inter> set protoKeys = {}"
  using parseInterfaceList_ok [of "jget raw k"] by (auto simp: listVal_def list_all_iff)

lemma unique_listVal: "JArr (map JStr (unique (listVal raw k))) = listVal raw k"
  by (rule unique_names [OF listVal_ok listVal_not_proto])

definition scalarValue :: "props \<Rightarrow> string \<Rightarrow> jval" where
  "scalarValue vs k = (if k = ''collector_mode'' then JStr (collectorModeFor (JObj vs)) else jget (JObj vs) k)"

lemma patchScalars:
  "map_of (pset (foldl (patchScalar vs) p ks)) k =
     (if k \<in> set ks \<and> \<not> nullish (scalarValue vs k) then Some (JStr (toStr (scalarValue vs k)))
      else map_of (pset p) k)"
  "punset (foldl (patchScalar vs) p ks) = punset p"
proof (induction ks arbitrary: p)
  case (Cons j ks)
  case 1
  have "map_of (pset (patchScalar vs p j)) k =
      (if k = j \<and> \<not> nullish (scalarValue vs k) then Some (JStr (toStr (scalarValue vs k))) else map_of (pset p) k)"
    by (auto simp: patchScalar_def scalarValue_def Let_def map_of_putProp)
  then show ?case using Cons(1) by auto
next
  case (Cons j ks)
  case 2
  then show ?case using Cons(2) by (simp add: patchScalar_def Let_def)
qed simp_all

lemma patchLists:
  "map_of (pset (foldl (patchList vs og) p ks)) k =
     (if k \<in> set ks \<and> unique (jget (JObj vs) k) \<noteq> [] then Some (JArr (map JStr (unique (jget (JObj vs) k))))
      else map_of (pset p) k)"
  "set (punset (foldl (patchList vs og) p ks)) =
     set (punset p) \<union> {k \<in> set ks. unique (jget (JObj vs) k) = [] \<and> wasGiven og k}"
proof (induction ks arbitrary: p)
  case (Cons j ks)
  case 1
  have "map_of (pset (patchList vs og p j)) k =
      (if k = j \<and> unique (jget (JObj vs) k) \<noteq> [] then Some (JArr (map JStr (unique (jget (JObj vs) k))))
       else map_of (pset p) k)"
    by (auto simp: patchList_def Let_def map_of_putProp)
  then show ?case using Cons(1) by auto
next
  case (Cons j ks)
  case 2
  have "set (punset (patchList vs og p j)) =
      set (punset p) \<union> (if unique (jget (JObj vs) j) = [] \<and> wasGiven og j then {j} else {})"
    by (auto simp: patchList_def Let_def)
  then show ?case using Cons(2) by auto
qed simp_all

lemma scalarFields_kinds: "k \<in> set scalarFields \<Longrightarrow> k \<in> set numberFields \<or> k \<in> set boolFields \<or>
    k \<in> {''rate_compensation_factor'', ''internet_view_mode'', ''access_edge_mode'', ''conn_collector_mode'',
      ''rate_collector_mode'', ''collector_mode'', ''hide_ipv6_ranges''}"
  unfolding scalarFields_def numberFields_def boolFields_def list.set by (elim insertE emptyE; simp)

lemma given_kinds:
  "integerOk k v \<Longrightarrow> \<not> nullish v" "factorOk v \<Longrightarrow> \<not> nullish v" "rangesOk v \<Longrightarrow> \<not> nullish v"
  "v \<in> {JStr a, JStr b} \<Longrightarrow> \<not> nullish v" "v \<in> JStr ` S \<Longrightarrow> \<not> nullish v"
  by (auto simp: integerOk_def factorOk_def rangesOk_def nullish_def)

lemma scalar_given:
  assumes "k \<in> set scalarFields"
  shows "\<not> nullish (scalarValue (nvalues (normalize r)) k)"
proof (cases "k = ''collector_mode''")
  case False
  let ?v = "\<lambda>k. jget (JObj (nvalues (normalize r))) k"
  note dom = normalize_in_domain [of r, unfolded configDomain_def Let_def]
  have kinds: "k \<in> set numberFields \<Longrightarrow> \<not> nullish (?v k)" "k \<in> set boolFields \<Longrightarrow> \<not> nullish (?v k)"
      "\<not> nullish (?v ''rate_compensation_factor'')" "\<not> nullish (?v ''hide_ipv6_ranges'')"
      "\<not> nullish (?v ''internet_view_mode'')" "\<not> nullish (?v ''access_edge_mode'')"
      "\<not> nullish (?v ''conn_collector_mode'')" "\<not> nullish (?v ''rate_collector_mode'')"
    using dom given_kinds by blast+
  from scalarFields_kinds [OF assms] have "\<not> nullish (?v k)"
    by (elim disjE insertE emptyE) (use False kinds in \<open>simp_all only: not_False_eq_True\<close>)
  then show ?thesis using False by (simp add: scalarValue_def)
qed (simp add: scalarValue_def nullish_def)

lemma fields_not_proto: "k \<in> set scalarFields \<union> set listFields \<union> set REMOVED_UCI_FIELDS \<Longrightarrow> k \<notin> set protoKeys"
  unfolding scalarFields_def listFields_def REMOVED_UCI_FIELDS_def protoKeys_def list.set
  by (elim UnE insertE emptyE; simp)

lemma unique_empty: "unique (listVal raw k) = [] \<longleftrightarrow> listVal raw k = JArr []"
  using unique_listVal [of raw k] by (cases "unique (listVal raw k)") (auto simp: unique_def asList_def)

lemma scalar_not_list: "k \<in> set scalarFields \<Longrightarrow> k \<notin> set listFields"
  unfolding scalarFields_def listFields_def list.set by (elim insertE emptyE; simp)

lemma buildUciPatch_parts:
  fixes vals og :: jval
  defines "vs \<equiv> nvalues (normalize vals)" and "p \<equiv> buildUciPatch vals og"
    and "original \<equiv> jor og (JObj [])"
  shows "map_of (pset p) k =
      (if k \<in> set scalarFields then Some (JStr (toStr (scalarValue vs k)))
       else if k \<in> set listFields \<and> jget (JObj vs) k \<noteq> JArr [] then Some (jget (JObj vs) k) else None) \<and>
    distinct (punset p) \<and>
    set (punset p) = {k. wasGiven original k \<and>
      (k = ''dedicated_port'' \<or> k \<in> set listFields \<and> jget (JObj vs) k = JArr [])}"
proof (intro conjI)
  define p2 where "p2 = foldl (patchList vs original)
      (foldl (patchScalar vs) \<lparr>pset = [], punset = []\<rparr> scalarFields) listFields"
  define p3 where "p3 = (if wasGiven original ''dedicated_port''
      then p2\<lparr>punset := punset p2 @ [''dedicated_port'']\<rparr> else p2)"
  have p: "p = p3\<lparr>punset := firstsFrom (set protoKeys) (punset p3)\<rparr>"
    by (simp add: p_def buildUciPatch_def Let_def vs_def original_def p2_def p3_def REMOVED_UCI_FIELDS_def
        unique_strings)
  have lists: "jget (JObj vs) k = listVal (jor vals (JObj [])) k" if "k \<in> set listFields" for k
    unfolding vs_def by (rule normalize_value(3) [OF that])
  have uniq: "k \<in> set listFields \<Longrightarrow> JArr (map JStr (unique (jget (JObj vs) k))) = jget (JObj vs) k \<and>
      (unique (jget (JObj vs) k) = [] \<longleftrightarrow> jget (JObj vs) k = JArr [])" for k
    by (simp add: lists unique_listVal unique_empty)
  show "map_of (pset p) k = (if k \<in> set scalarFields then Some (JStr (toStr (scalarValue vs k)))
       else if k \<in> set listFields \<and> jget (JObj vs) k \<noteq> JArr [] then Some (jget (JObj vs) k) else None)"
    using uniq [of k] scalar_given [of k vals] scalar_not_list [of k]
    by (auto simp: p p3_def p2_def patchLists(1) patchScalars(1) vs_def)
  show "distinct (punset p)" by (simp add: p distinct_firstsFrom)
  have "set (punset p3) = {k. wasGiven original k \<and>
      (k = ''dedicated_port'' \<or> k \<in> set listFields \<and> jget (JObj vs) k = JArr [])}"
    using uniq by (auto simp: p3_def p2_def patchLists(2) patchScalars(2))
  moreover have "\<dots> \<inter> set protoKeys = {}"
    using fields_not_proto by (auto simp: REMOVED_UCI_FIELDS_def)
  ultimately show "set (punset p) = {k. wasGiven original k \<and>
      (k = ''dedicated_port'' \<or> k \<in> set listFields \<and> jget (JObj vs) k = JArr [])}"
    by (auto simp: p set_firstsFrom)
qed


section \<open>Saving and reading back\<close>

lemma separator_lower [simp]: "isSeparator (lowerChar c) = isSeparator c"
proof -
  have "code CHR '','' = 44" by (simp add: code_def)
  then have "c = CHR '','' \<longleftrightarrow> code c = 44" for c using code_inject [of c "CHR '',''"] by simp
  then show ?thesis by (auto simp: isSeparator_def isSpace_def lowerChar_def isUpperAz_def)
qed

lemma trimAscii_noSep: "list_all (\<lambda>c. \<not> isSeparator c) s \<Longrightarrow> trimAscii (JStr s) = s"
  by (rule trimAscii_no_space) (auto simp: list_all_iff isSeparator_def)

lemma addCidr_valid: "cidrOk s \<Longrightarrow> addCidr st (JStr s) =
    (if s \<in> nl_seen st then st else st\<lparr>nl_seen := insert s (nl_seen st), nl_valid := nl_valid st @ [s]\<rparr>)"
  by (simp add: addCidr_def Let_def cidrOk_def parseCidr_source)

lemma addCidrs_valid:
  "list_all cidrOk rs \<Longrightarrow> distinct rs \<Longrightarrow> set rs \<inter> nl_seen st = {} \<Longrightarrow>
   nl_valid (foldl addCidr st (map JStr rs)) = nl_valid st @ rs \<and>
   nl_invalid (foldl addCidr st (map JStr rs)) = nl_invalid st"
  by (induction rs arbitrary: st) (auto simp: addCidr_valid)

lemma parseCidrList_reparse:
  assumes "list_all (\<lambda>r. cidrOk r \<and> r \<notin> set protoKeys \<and> r \<noteq> [] \<and> list_all (\<lambda>c. \<not> isSeparator c) r) rs"
    "distinct rs" "length rs \<le> MAX_RANGE_ITEMS"
  shows "parseCidrList (JStr (joinStr '' '' rs)) = \<lparr>nr_valid = rs, nr_invalid = [], nr_truncated = False\<rparr>"
proof -
  have "isSeparator CHR '' ''" by (simp add: isSeparator_def isSpace_def code_def)
  then have "asList (JStr (joinStr '' '' rs)) = map JStr rs"
    using assms(1) by (simp add: asList_def splitWords_join list_all_iff)
  moreover have "list_all cidrOk rs" "set rs \<inter> set protoKeys = {}" using assms(1) by (auto simp: list_all_iff)
  ultimately show ?thesis
    using addCidrs_valid [of rs "\<lparr>nl_valid = [], nl_invalid = [], nl_seen = set protoKeys\<rparr>"] assms(2,3)
    by (simp add: parseCidrList_def)
qed

lemma cidrs_from_text:
  assumes "\<not> isArr v"
  shows "list_all (\<lambda>r. r \<noteq> [] \<and> list_all (\<lambda>c. \<not> isSeparator c) r) (nr_valid (parseCidrList v))"
proof -
  define Q where "Q = (\<lambda>r. r \<noteq> [] \<and> list_all (\<lambda>c. \<not> isSeparator c) r)"
  have step: "list_all Q (nl_valid (foldl addCidr st items))"
    if "list_all Q (nl_valid st)" "list_all (\<lambda>i. \<exists>w. i = JStr w \<and> Q w) items" for st items
    using that
  proof (induction items arbitrary: st)
    case (Cons i items)
    then obtain w where w: "i = JStr w" "Q w" by auto
    have "toLowerCase (trimAscii i) = toLowerCase w" using w by (simp add: Q_def trimAscii_noSep)
    moreover have "Q (toLowerCase w)" using w(2) by (simp add: Q_def toLowerCase_def list_all_iff)
    ultimately have "list_all Q (nl_valid (addCidr st i))"
      using Cons.prems(1) by (simp add: addCidr_def Let_def parseCidr_source)
    then show ?case using Cons by simp
  qed simp
  have "list_all (\<lambda>i. \<exists>w. i = JStr w \<and> Q w) (asList v)"
    using assms splitWords_nonsep by (auto simp: asList_def list_all_iff Q_def split: jval.split)
  from step [OF _ this, of "\<lparr>nl_valid = [], nl_invalid = [], nl_seen = set protoKeys\<rparr>"]
  show ?thesis by (auto simp: parseCidrList_def Let_def list_all_iff Q_def dest: in_set_takeD)
qed

lemma addItem_valid: "validInterfaceName s \<Longrightarrow> addItem False st (JStr s) =
    (if s \<in> nl_seen st then st else st\<lparr>nl_seen := insert s (nl_seen st), nl_valid := nl_valid st @ [s]\<rparr>)"
proof -
  assume v: "validInterfaceName s"
  then have "trimAscii (JStr s) = s"
    by (intro trimAscii_no_space) (auto simp: validInterfaceName_def list_all_iff)
  then show ?thesis using v by (auto simp: addItem_def addName_def Let_def validInterfaceName_def)
qed

lemma addItems_valid:
  "list_all validInterfaceName ns \<Longrightarrow> distinct ns \<Longrightarrow> set ns \<inter> nl_seen st = {} \<Longrightarrow>
   nl_valid (foldl (addItem False) st (map JStr ns)) = nl_valid st @ ns \<and>
   nl_invalid (foldl (addItem False) st (map JStr ns)) = nl_invalid st"
  by (induction ns arbitrary: st) (auto simp: addItem_valid)

lemma parseInterfaceList_reparse:
  "parseInterfaceList (listVal raw k) =
     \<lparr>nr_valid = nr_valid (parseInterfaceList (jget raw k)), nr_invalid = [], nr_truncated = False\<rparr>"
proof -
  let ?ns = "nr_valid (parseInterfaceList (jget raw k))"
  have "list_all validInterfaceName ?ns" "set ?ns \<inter> set protoKeys = {}" "distinct ?ns"
      "length ?ns \<le> MAX_INTERFACE_NAMES"
    using parseInterfaceList_ok [of "jget raw k"] by (auto simp: list_all_iff)
  then show ?thesis
    using addItems_valid [of ?ns "\<lparr>nl_valid = [], nl_invalid = [], nl_seen = set protoKeys\<rparr>"]
    unfolding listVal_def by (simp add: parseInterfaceList_def [of "JArr _"] Let_def)
qed

lemma parseInterfaceList_nullish: "nullish v \<Longrightarrow>
    parseInterfaceList v = \<lparr>nr_valid = [], nr_invalid = [], nr_truncated = False\<rparr>"
  by (auto simp: nullish_def parseInterfaceList_def)

lemma enum_reparse:
  assumes "v \<in> JStr ` set allowed" "list_all (\<lambda>a. trimAscii (JStr a) = a) allowed"
  shows "normalizeEnum (JStr (toStr v)) allowed fb = accepted v (toStr v)"
  using assms by (auto simp: normalizeEnum_def list_all_iff)

lemma modes_trimmed:
  "list_all (\<lambda>a. trimAscii (JStr a) = a) (map fst RATE_MODES)"
  "list_all (\<lambda>a. trimAscii (JStr a) = a) (map fst CONNECTION_MODES)"
  "list_all (\<lambda>a. trimAscii (JStr a) = a) (map fst ACCESS_EDGE_MODES)"
  "list_all (\<lambda>a. trimAscii (JStr a) = a) (map fst INTERNET_VIEW_MODES)"
  "list_all (\<lambda>a. trimAscii (JStr a) = a) [''auto'', ''bpf'', ''conntrack_netlink'', ''conntrack_procfs'']"
  "list_all (\<lambda>a. a \<noteq> []) (map fst RATE_MODES @ map fst CONNECTION_MODES @ map fst ACCESS_EDGE_MODES @
     map fst INTERNET_VIEW_MODES)"
  by code_simp+

lemma integer_reparse:
  assumes "k \<in> set numberFields" "integerOk k v"
  shows "parseInteger (JStr (toStr v)) (map_of LIMITS k) = accepted v (toStr v)"
proof -
  obtain l n where "map_of LIMITS k = Some l" "v = num (of_nat n)" "lim_min l \<le> of_nat n" "of_nat n \<le> lim_max l"
    using assms(2) by (auto simp: integerOk_def)
  moreover have "lim_max l \<le> MAX_SAFE_INTEGER"
    using numberFields_limits [OF assms(1)] calculation(1) by simp
  ultimately show ?thesis by (simp add: parseInteger_showNat)
qed

lemma bool_reparse: "v \<in> {JStr ''0'', JStr ''1''} \<Longrightarrow> parseBoolean (JStr (toStr v)) fb = accepted v (toStr v)"
proof -
  have "toLowerCase (trimAscii (JStr ''0'')) = ''0''" "toLowerCase (trimAscii (JStr ''1'')) = ''1''" by code_simp+
  then show "v \<in> {JStr ''0'', JStr ''1''} \<Longrightarrow> parseBoolean (JStr (toStr v)) fb = accepted v (toStr v)"
    by (auto simp: parseBoolean_def Let_def)
qed

lemma factor_reparse: "factorOk v \<Longrightarrow>
    parseFactor (JStr (toStr v)) (map_of LIMITS ''rate_compensation_factor'') = accepted v (toStr v)"
  by (auto simp: factorOk_def parseFactor_reparse)

text \<open>
  What reading the configuration gives after the patch was committed, as UCI documents it:
  an option has the value it was set to (an option set to the empty text is absent), a
  removed option is absent, and any other option is as before.
\<close>

definition uciReads :: "jval \<Rightarrow> uci_patch \<Rightarrow> jval \<Rightarrow> bool" where
  "uciReads original p raw \<longleftrightarrow> truthy raw \<and> (\<forall>k \<in> set scalarFields \<union> set listFields. jget raw k =
     (case map_of (pset p) k of Some v \<Rightarrow> if v = JStr [] then JUndef else v
      | None \<Rightarrow> if k \<in> set (punset p) then JUndef else jget original k))"

lemma wasGiven_iff: "k \<notin> set protoKeys \<Longrightarrow> k \<noteq> ''length'' \<Longrightarrow> \<not> wasGiven og k \<longleftrightarrow> nullish (jget og k)"
  by (cases og) (auto simp: wasGiven_def jget.simps nullish_def split: option.splits)

lemma listFields_not_length: "k \<in> set listFields \<Longrightarrow> k \<noteq> ''length''"
  unfolding listFields_def list.set by (elim insertE emptyE; simp)

lemma collectorModeFor_enum: "collectorModeFor v \<in> {''auto'', ''bpf'', ''conntrack_netlink'', ''conntrack_procfs''}"
  by (simp add: collectorModeFor_def Let_def)

lemma text_not_empty:
  "integerOk k v \<Longrightarrow> toStr v \<noteq> []" "factorOk v \<Longrightarrow> toStr v \<noteq> []" "v \<in> {JStr ''0'', JStr ''1''} \<Longrightarrow> toStr v \<noteq> []"
  by (auto simp: integerOk_def factorOk_def toFixed2_def Let_def)

lemma configDomainD:
  assumes "configDomain vs"
  shows "k \<in> set numberFields \<Longrightarrow> integerOk k (jget (JObj vs) k)"
    and "k \<in> set boolFields \<Longrightarrow> jget (JObj vs) k \<in> {JStr ''0'', JStr ''1''}"
    and "factorOk (jget (JObj vs) ''rate_compensation_factor'')"
    and "rangesOk (jget (JObj vs) ''hide_ipv6_ranges'')"
    and "jget (JObj vs) ''rate_collector_mode'' \<in> JStr ` set (map fst RATE_MODES)"
    and "jget (JObj vs) ''conn_collector_mode'' \<in> JStr ` set (map fst CONNECTION_MODES)"
    and "jget (JObj vs) ''access_edge_mode'' \<in> JStr ` set (map fst ACCESS_EDGE_MODES)"
    and "jget (JObj vs) ''internet_view_mode'' \<in> JStr ` set (map fst INTERNET_VIEW_MODES)"
  using assms unfolding configDomain_def Let_def by (elim conjE; blast)+

lemma mode_not_empty:
  assumes "v \<in> JStr ` set modes" "set modes \<subseteq> set (map fst RATE_MODES @ map fst CONNECTION_MODES @
      map fst ACCESS_EDGE_MODES @ map fst INTERNET_VIEW_MODES)"
  shows "toStr v \<noteq> []"
proof -
  obtain m where "v = JStr m" "m \<in> set modes" using assms(1) by (rule imageE)
  then show ?thesis using modes_trimmed(6) assms(2) unfolding list_all_iff by auto
qed

lemma scalar_not_empty_if:
  assumes "k \<in> set scalarFields" "configDomain vs" "k = ''hide_ipv6_ranges'' \<Longrightarrow> jget (JObj vs) ''hide_ipv6_ranges'' \<noteq> JStr []"
  shows "toStr (scalarValue vs k) \<noteq> []"
proof (cases "k = ''collector_mode''")
  case True
  then show ?thesis using collectorModeFor_enum [of "JObj vs"] by (auto simp: scalarValue_def)
next
  case False
  note d = configDomainD [OF assms(2)]
  have rg: "k = ''hide_ipv6_ranges'' \<Longrightarrow> toStr (jget (JObj vs) ''hide_ipv6_ranges'') \<noteq> []" using d(4) assms(3) by (auto simp: rangesOk_def)
  from scalarFields_kinds [OF assms(1)] have "toStr (jget (JObj vs) k) \<noteq> []"
    apply (elim disjE insertE emptyE)
            apply (erule text_not_empty(1) [OF d(1)])
           apply (erule text_not_empty(3) [OF d(2)])
          apply (simp only: text_not_empty(2) [OF d(3)] not_False_eq_True)
         apply (simp only:, rule mode_not_empty [OF d(8)], force)
        apply (simp only:, rule mode_not_empty [OF d(7)], force)
       apply (simp only:, rule mode_not_empty [OF d(6)], force)
      apply (simp only:, rule mode_not_empty [OF d(5)], force)
     apply (use False in simp)
    apply (simp only: rg not_False_eq_True)
    done
  then show ?thesis using False by (simp add: scalarValue_def)
qed

lemma scalar_not_empty:
  "k \<in> set scalarFields \<Longrightarrow> configDomain vs \<Longrightarrow> jget (JObj vs) ''hide_ipv6_ranges'' \<noteq> JStr [] \<Longrightarrow> toStr (scalarValue vs k) \<noteq> []"
  by (rule scalar_not_empty_if)

text \<open>What the file gives back for each kind of option.\<close>

lemma reads_back:
  fixes vals og raw :: jval
  defines "vs \<equiv> nvalues (normalize vals)"
  assumes reads: "uciReads (jor og (JObj [])) (buildUciPatch vals og) raw"
    and ranges: "jget (JObj vs) ''hide_ipv6_ranges'' \<noteq> JStr []"
  shows "k \<in> set scalarFields \<Longrightarrow> jget raw k = JStr (toStr (scalarValue vs k))"
    and "k \<in> set listFields \<Longrightarrow> jget raw k = jget (JObj vs) k \<or> nullish (jget raw k) \<and> jget (JObj vs) k = JArr []"
proof -
  note p = buildUciPatch_parts [of vals og, folded vs_def]
  let ?og = "jor og (JObj [])"
  show "jget raw k = JStr (toStr (scalarValue vs k))" if k: "k \<in> set scalarFields"
  proof -
    have ne: "toStr (scalarValue vs k) \<noteq> []"
      using scalar_not_empty [OF k _ ranges] normalize_in_domain [of vals] by (simp add: vs_def)
    have "map_of (pset (buildUciPatch vals og)) k = Some (JStr (toStr (scalarValue vs k)))"
      using p [of k] k by simp
    then show ?thesis using reads k ne by (simp add: uciReads_def)
  qed
  show "jget raw k = jget (JObj vs) k \<or> nullish (jget raw k) \<and> jget (JObj vs) k = JArr []"
    if k: "k \<in> set listFields"
  proof -
    have sc: "k \<notin> set scalarFields" using k scalar_not_list by blast
    have isA: "\<exists>xs. jget (JObj vs) k = JArr xs"
      using k unfolding vs_def by (simp add: normalize_value(3) listVal_def)
    have raw: "jget raw k = (case map_of (pset (buildUciPatch vals og)) k of
        Some v \<Rightarrow> if v = JStr [] then JUndef else v
      | None \<Rightarrow> if k \<in> set (punset (buildUciPatch vals og)) then JUndef else jget ?og k)"
      using reads k unfolding uciReads_def by blast
    show ?thesis
    proof (cases "jget (JObj vs) k = JArr []")
      case False
      then show ?thesis using raw p [of k] sc k isA by auto
    next
      case True
      have "\<not> wasGiven ?og k \<longleftrightarrow> nullish (jget ?og k)"
        using k fields_not_proto listFields_not_length by (intro wasGiven_iff) auto
      then show ?thesis using raw p [of k] sc k True by (auto simp: nullish_def)
    qed
  qed
qed

lemma rawOr_given: "jget raw k = JStr s \<Longrightarrow> rawOr raw k = JStr s"
  by (simp add: rawOr_def)

text \<open>Each option of the file, parsed again, is accepted with the value that was saved.\<close>

lemma reads_parse:
  fixes vals og raw :: jval
  defines "vs \<equiv> nvalues (normalize vals)"
  assumes reads: "uciReads (jor og (JObj [])) (buildUciPatch vals og) raw"
    and ranges: "jget (JObj vs) ''hide_ipv6_ranges'' \<noteq> JStr []"
    and plain: "\<not> isArr (jget (jor vals (JObj [])) ''hide_ipv6_ranges'')"
  shows "k \<in> set numberFields \<Longrightarrow>
      parseInteger (rawOr raw k) (map_of LIMITS k) = accepted (jget (JObj vs) k) (toStr (jget (JObj vs) k))"
    and "k \<in> set boolFields \<Longrightarrow>
      parseBoolean (rawOr raw k) (defaultOf k) = accepted (jget (JObj vs) k) (toStr (jget (JObj vs) k))"
    and "parseFactor (rawOr raw ''rate_compensation_factor'') (map_of LIMITS ''rate_compensation_factor'') =
      accepted (jget (JObj vs) ''rate_compensation_factor'') (toStr (jget (JObj vs) ''rate_compensation_factor''))"
    and "pr_valid (legacyEnum raw)"
    and "rateEnum raw = accepted (jget (JObj vs) ''rate_collector_mode'') (toStr (jget (JObj vs) ''rate_collector_mode''))"
    and "connEnum raw = accepted (jget (JObj vs) ''conn_collector_mode'') (toStr (jget (JObj vs) ''conn_collector_mode''))"
    and "normalizeEnum (rawOr raw ''access_edge_mode'') (map fst ACCESS_EDGE_MODES) (defaultOf ''access_edge_mode'') =
      accepted (jget (JObj vs) ''access_edge_mode'') (toStr (jget (JObj vs) ''access_edge_mode''))"
    and "normalizeEnum (rawOr raw ''internet_view_mode'') (map fst INTERNET_VIEW_MODES) (defaultOf ''internet_view_mode'') =
      accepted (jget (JObj vs) ''internet_view_mode'') (toStr (jget (JObj vs) ''internet_view_mode''))"
    and "\<exists>rs. parseCidrList (rawOr raw ''hide_ipv6_ranges'') = \<lparr>nr_valid = rs, nr_invalid = [], nr_truncated = False\<rparr> \<and>
      jget (JObj vs) ''hide_ipv6_ranges'' = JStr (joinStr '' '' rs)"
    and "k \<in> set listFields \<Longrightarrow> \<exists>ns. parseInterfaceList (jget raw k) =
      \<lparr>nr_valid = ns, nr_invalid = [], nr_truncated = False\<rparr> \<and> jget (JObj vs) k = JArr (map JStr ns)"
proof -
  note rb = reads_back [OF reads ranges [unfolded vs_def], folded vs_def]
  have dom: "configDomain vs" unfolding vs_def by (rule normalize_in_domain)
  note d = configDomainD [OF dom]
  have sub: "set numberFields \<subseteq> set scalarFields" "set boolFields \<subseteq> set scalarFields"
    unfolding numberFields_def boolFields_def scalarFields_def list.set
    by (rule insert_subset [THEN iffD2] empty_subsetI conjI | rule insertI1 | rule insertI2)+
  have sv: "k \<noteq> ''collector_mode'' \<Longrightarrow> scalarValue vs k = jget (JObj vs) k" for k
    by (simp add: scalarValue_def)
  have rd: "k \<in> set scalarFields \<Longrightarrow> rawOr raw k = JStr (toStr (scalarValue vs k))" for k
    by (rule rawOr_given [OF rb(1)])
  have num_raw: "rawOr raw k = JStr (toStr (jget (JObj vs) k))" if "k \<in> set numberFields" for k
    using rd [OF subsetD [OF sub(1) that]] sv [of k] fields_disjoint(1) [OF that] by simp
  have bool_raw: "rawOr raw k = JStr (toStr (jget (JObj vs) k))" if "k \<in> set boolFields" for k
    using rd [OF subsetD [OF sub(2) that]] sv [of k] fields_disjoint(2) [OF that] by simp
  show "parseInteger (rawOr raw k) (map_of LIMITS k) = accepted (jget (JObj vs) k) (toStr (jget (JObj vs) k))"
    if "k \<in> set numberFields"
    unfolding num_raw [OF that] by (rule integer_reparse [OF that d(1) [OF that]])
  show "parseBoolean (rawOr raw k) (defaultOf k) = accepted (jget (JObj vs) k) (toStr (jget (JObj vs) k))"
    if "k \<in> set boolFields"
    unfolding bool_raw [OF that] by (rule bool_reparse [OF d(2) [OF that]])
  have sc: "rawOr raw k = JStr (toStr (jget (JObj vs) k)) \<and> jget raw k = JStr (toStr (jget (JObj vs) k))"
    if "k \<in> {''rate_compensation_factor'', ''rate_collector_mode'', ''conn_collector_mode'', ''access_edge_mode'',
      ''internet_view_mode'', ''hide_ipv6_ranges''}" for k
  proof -
    have "k \<in> set scalarFields" "k \<noteq> ''collector_mode''"
      using that by (auto simp: scalarFields_def)
    then show ?thesis using rd rb(1) sv by simp
  qed
  show "parseFactor (rawOr raw ''rate_compensation_factor'') (map_of LIMITS ''rate_compensation_factor'') =
      accepted (jget (JObj vs) ''rate_compensation_factor'') (toStr (jget (JObj vs) ''rate_compensation_factor''))"
    using factor_reparse [OF d(3)] sc by simp
  have "rawOr raw ''collector_mode'' = JStr (collectorModeFor (JObj vs))"
    by (simp add: rd scalarValue_def scalarFields_def)
  then show "pr_valid (legacyEnum raw)"
    using collectorModeFor_enum [of "JObj vs"] modes_trimmed(5)
    by (auto simp: legacyEnum_def normalizeEnum_def accepted_def list_all_iff Let_def)
  show "rateEnum raw = accepted (jget (JObj vs) ''rate_collector_mode'') (toStr (jget (JObj vs) ''rate_collector_mode''))"
    unfolding rateEnum_def Let_def using enum_reparse [OF d(5) modes_trimmed(1)] sc by simp
  show "connEnum raw = accepted (jget (JObj vs) ''conn_collector_mode'') (toStr (jget (JObj vs) ''conn_collector_mode''))"
    unfolding connEnum_def Let_def using enum_reparse [OF d(6) modes_trimmed(2)] sc by simp
  show "normalizeEnum (rawOr raw ''access_edge_mode'') (map fst ACCESS_EDGE_MODES) (defaultOf ''access_edge_mode'') =
      accepted (jget (JObj vs) ''access_edge_mode'') (toStr (jget (JObj vs) ''access_edge_mode''))"
    using enum_reparse [OF d(7) modes_trimmed(3)] sc by simp
  show "normalizeEnum (rawOr raw ''internet_view_mode'') (map fst INTERNET_VIEW_MODES) (defaultOf ''internet_view_mode'') =
      accepted (jget (JObj vs) ''internet_view_mode'') (toStr (jget (JObj vs) ''internet_view_mode''))"
    using enum_reparse [OF d(8) modes_trimmed(4)] sc by simp
  let ?rs = "nr_valid (parseCidrList (rawOr (jor vals (JObj [])) ''hide_ipv6_ranges''))"
  have rv: "jget (JObj vs) ''hide_ipv6_ranges'' = JStr (joinStr '' '' ?rs)"
    unfolding vs_def normalize_value rangesVal_def ..
  have "\<not> isArr (rawOr (jor vals (JObj [])) ''hide_ipv6_ranges'')"
    using plain by (simp add: rawOr_def defaultOf_def DEFAULTS_def jget.simps(1) [of DEFAULTS] jget.simps(1))
  then have "parseCidrList (JStr (joinStr '' '' ?rs)) = \<lparr>nr_valid = ?rs, nr_invalid = [], nr_truncated = False\<rparr>"
    using cidrs_from_text parseCidrList_ok [of "rawOr (jor vals (JObj [])) ''hide_ipv6_ranges''"]
    by (intro parseCidrList_reparse) (auto simp: list_all_iff)
  then show "\<exists>rs. parseCidrList (rawOr raw ''hide_ipv6_ranges'') = \<lparr>nr_valid = rs, nr_invalid = [], nr_truncated = False\<rparr> \<and>
      jget (JObj vs) ''hide_ipv6_ranges'' = JStr (joinStr '' '' rs)"
    using sc [of "''hide_ipv6_ranges''"] rv by (intro exI [of _ ?rs]) simp
  show "\<exists>ns. parseInterfaceList (jget raw k) =
      \<lparr>nr_valid = ns, nr_invalid = [], nr_truncated = False\<rparr> \<and> jget (JObj vs) k = JArr (map JStr ns)"
    if k: "k \<in> set listFields"
  proof -
    have lv: "jget (JObj vs) k = listVal (jor vals (JObj [])) k" unfolding vs_def by (rule normalize_value(3) [OF k])
    from rb(2) [OF k] show ?thesis
    proof
      assume "jget raw k = jget (JObj vs) k"
      then show ?thesis unfolding lv by (simp add: parseInterfaceList_reparse) (simp add: listVal_def)
    qed (simp add: parseInterfaceList_nullish)
  qed
qed

lemma storeField_errors: "pr_valid r \<Longrightarrow> nerrors (storeField raw n v r st) = nerrors st"
  by (simp add: storeField_def Let_def)

lemma storeList_errors: "nr_invalid r = [] \<Longrightarrow> \<not> nr_truncated r \<Longrightarrow> nerrors (storeList raw n v r b t st) = nerrors st"
  by (simp add: storeList_def)

lemma fold_errors:
  assumes "\<And>n st. n \<in> set ns \<Longrightarrow> nerrors (f st n) = nerrors st"
  shows "nerrors (foldl f st ns) = nerrors st"
  using assms by (induction ns arbitrary: st) auto

lemma storeAll_no_errors:
  assumes "\<And>k. k \<in> set numberFields \<Longrightarrow> pr_valid (parseInteger (rawOr raw k) (map_of LIMITS k))"
    and "pr_valid (parseFactor (rawOr raw ''rate_compensation_factor'') (map_of LIMITS ''rate_compensation_factor''))"
    and "pr_valid (legacyEnum raw)" "pr_valid (rateEnum raw)" "pr_valid (connEnum raw)"
    and "pr_valid (normalizeEnum (rawOr raw ''access_edge_mode'') (map fst ACCESS_EDGE_MODES) (defaultOf ''access_edge_mode''))"
    and "pr_valid (normalizeEnum (rawOr raw ''internet_view_mode'') (map fst INTERNET_VIEW_MODES) (defaultOf ''internet_view_mode''))"
    and "\<And>k. k \<in> set boolFields \<Longrightarrow> pr_valid (parseBoolean (rawOr raw k) (defaultOf k))"
    and "nr_invalid (parseCidrList (rawOr raw ''hide_ipv6_ranges'')) = []"
        "\<not> nr_truncated (parseCidrList (rawOr raw ''hide_ipv6_ranges''))"
    and "\<And>k. k \<in> set listFields \<Longrightarrow> nr_invalid (parseInterfaceList (jget raw k)) = [] \<and> \<not> nr_truncated (parseInterfaceList (jget raw k))"
  shows "nerrors (storeAll raw) = []"
proof -
  have lists: "nerrors (foldl (listField raw) st listFields) = nerrors st" for st
    by (rule fold_errors) (simp add: listField_def Let_def storeList_errors assms(11))
  have bools: "nerrors (foldl (boolField raw) st boolFields) = nerrors st" for st
    by (rule fold_errors) (simp add: boolField_def Let_def storeField_errors assms(8))
  have nums: "nerrors (foldl (numberField raw) st numberFields) = nerrors st" for st
    by (rule fold_errors) (simp add: numberField_def Let_def storeField_errors assms(1))
  show ?thesis
    unfolding storeAll_def Let_def lists bools rangesField_def enumField_def factorField_def
    by (simp add: storeList_errors storeField_errors assms nums bools)
qed

lemma putAssoc_nonempty [simp]: "putAssoc k v ps \<noteq> []"
  by (cases ps) (auto split: if_split_asm)

lemma crossErrors_Nil:
  "crossErrors vs es = [] \<longleftrightarrow> es = [] \<and>
     \<not> (jget (JObj vs) ''enable_bpf'' = JStr ''0'' \<and>
       (jget (JObj vs) ''rate_collector_mode'' = JStr ''bpf'' \<or> jget (JObj vs) ''rate_collector_mode'' = JStr ''nss_ecm_bpf'')) \<and>
     \<not> (jget (JObj vs) ''enable_bpf'' = JStr ''0'' \<and> jget (JObj vs) ''internet_view_mode'' = JStr ''routed'') \<and>
     length (unique (JArr (arrItems (jget (JObj vs) ''ifname'') @ arrItems (jget (JObj vs) ''interface_include'')))) \<le> MAX_INTERFACE_NAMES \<and>
     length (arrItems (jget (JObj vs) ''observe'')) \<le> MAX_INTERFACE_NAMES \<and>
     length (arrItems (jget (JObj vs) ''interface_exclude'')) \<le> MAX_INTERFACE_NAMES"
  by (simp add: crossErrors_def Let_def not_less)

lemma normalize_errors: "nerrors (normalize r) = crossErrors (nvalues (storeAll (jor r (JObj [])))) (nerrors (storeAll (jor r (JObj []))))"
  by (simp add: normalize_def Let_def)

lemma normalize_stored: "k \<noteq> ''collector_mode'' \<Longrightarrow>
    jget (JObj (nvalues (storeAll (jor r (JObj []))))) k = jget (JObj (nvalues (normalize r))) k"
  by (simp add: normalize_def Let_def)

lemma normalizedValid_iff: "normalizedValid (normalize r) \<longleftrightarrow>
    nerrors (storeAll (jor r (JObj []))) = [] \<and> crossErrors (nvalues (normalize r)) [] = []"
proof -
  have "crossErrors (nvalues (storeAll (jor r (JObj [])))) es = [] \<longleftrightarrow>
      es = [] \<and> crossErrors (nvalues (normalize r)) [] = []" for es
    by (simp add: crossErrors_Nil normalize_stored)
  then show ?thesis by (simp add: normalizedValid_def normalize_errors)
qed


text \<open>The file after the default configuration was saved over an empty one.\<close>

definition sampleFile :: jval where
  "sampleFile = JObj (pset (buildUciPatch (JObj [(''max_clients'', JStr ''128''), (''ifname'', JStr ''br-lan'')]) (JObj [])))"


section \<open>Validation against the platform\<close>

lemma checkMode_Nil:
  "fst (checkMode vs caps ew name) = [] \<longleftrightarrow> fst ew = [] \<and>
     \<not> (toStr (jget (JObj vs) name) \<noteq> ''auto'' \<and>
        (\<exists>c. map_of caps (toStr (jget (JObj vs) name)) = Some c \<and> cap_known c \<and> \<not> cap_allowed c))"
  by (auto simp: checkMode_def Let_def split: option.splits)

lemma putAll_Nil: "foldl (\<lambda>acc (k, e). putAssoc k e acc) es ie = [] \<longleftrightarrow> es = [] \<and> ie = []"
proof (induction ie arbitrary: es)
  case (Cons p ie)
  then show ?case by (cases p) simp
qed simp

text \<open>
  C19: a configuration that validates can run: the options themselves are without error, no
  interface error is open, BPF is not switched off under a mode or a view that needs it,
  the modes chosen are not known to be unavailable on this platform, and the BPF mode has
  an interface to collect on.
\<close>

theorem validate_sound:
  fixes rawValues status :: jval and ie :: "(string \<times> string) list"
  defines "out \<equiv> validate rawValues status ie" and "v \<equiv> \<lambda>k. jget (JObj (nvalues (normalize rawValues))) k"
  assumes "vd_valid out"
  shows "normalizedValid (normalize rawValues) \<and> ie = [] \<and>
    (v ''enable_bpf'' = JStr ''0'' \<longrightarrow> v ''rate_collector_mode'' \<notin> {JStr ''bpf'', JStr ''nss_ecm_bpf''} \<and>
       v ''internet_view_mode'' \<noteq> JStr ''routed'') \<and>
    (\<forall>name \<in> {''rate_collector_mode'', ''conn_collector_mode''}. \<forall>c.
       map_of (capabilityState status (JObj (nvalues (normalize rawValues)))) (toStr (v name)) = Some c \<longrightarrow>
       v name \<noteq> JStr ''auto'' \<longrightarrow> cap_known c \<longrightarrow> cap_allowed c) \<and>
    (v ''rate_collector_mode'' = JStr ''bpf'' \<longrightarrow>
       unique (JArr (arrItems (v ''ifname'') @ arrItems (v ''interface_include''))) \<noteq> [])"
proof -
  define n where "n = normalize rawValues"
  define caps where "caps = capabilityState status (JObj (nvalues n))"
  define ew where "ew = foldl (checkMode (nvalues n) caps) (nerrors n, nwarnings n) [''rate_collector_mode'', ''conn_collector_mode'']"
  have es: "fst ew = []" "ie = []" and iface: "\<not> (v ''rate_collector_mode'' = JStr ''bpf'' \<and> v ''enable_bpf'' = JStr ''1'' \<and>
      unique (JArr (arrItems (v ''ifname'') @ arrItems (v ''interface_include''))) = [])"
    using assms(3) unfolding out_def validate_def Let_def n_def [symmetric] caps_def [symmetric] ew_def [symmetric]
      v_def by (auto simp: putAll_Nil split: if_splits)
  have errs: "nerrors n = []" using es(1) by (simp add: ew_def checkMode_Nil)
  have modes: "\<not> (toStr (v name) \<noteq> ''auto'' \<and> (\<exists>c. map_of caps (toStr (v name)) = Some c \<and> cap_known c \<and> \<not> cap_allowed c))"
    if "name \<in> {''rate_collector_mode'', ''conn_collector_mode''}" for name
    using es(1) that unfolding ew_def v_def n_def [symmetric] by (auto simp: checkMode_Nil)
  have valid: "normalizedValid (normalize rawValues)" using errs by (simp add: normalizedValid_def n_def)
  then have cross: "crossErrors (nvalues (normalize rawValues)) [] = []" by (simp only: normalizedValid_iff)
  have d: "v ''enable_bpf'' \<in> {JStr ''0'', JStr ''1''}"
    unfolding v_def by (rule configDomainD(2) [OF normalize_in_domain]) (simp add: boolFields_def)
  have str: "v name = JStr (toStr (v name))" if "name \<in> {''rate_collector_mode'', ''conn_collector_mode''}" for name
    using that configDomainD(5,6) [OF normalize_in_domain [of rawValues]] by (auto simp: v_def)
  show ?thesis
  proof (intro conjI ballI allI impI valid es(2))
    assume off: "v ''enable_bpf'' = JStr ''0''"
    show "v ''rate_collector_mode'' \<notin> {JStr ''bpf'', JStr ''nss_ecm_bpf''}" "v ''internet_view_mode'' \<noteq> JStr ''routed''"
      using cross off unfolding crossErrors_Nil v_def by auto
  next
    fix name c assume "name \<in> {''rate_collector_mode'', ''conn_collector_mode''}" "v name \<noteq> JStr ''auto''" "cap_known c"
      "map_of (capabilityState status (JObj (nvalues (normalize rawValues)))) (toStr (v name)) = Some c"
    then show "cap_allowed c" using modes [of name] str [of name] unfolding caps_def n_def by metis
  next
    assume bpf: "v ''rate_collector_mode'' = JStr ''bpf''"
    then have "v ''enable_bpf'' \<noteq> JStr ''0''" using cross unfolding crossErrors_Nil v_def by auto
    then have "v ''enable_bpf'' = JStr ''1''" using d by auto
    then show "unique (JArr (arrItems (v ''ifname'') @ arrItems (v ''interface_include''))) \<noteq> []" using iface bpf by blast
  qed
qed

theorem validate_sound_witness:
  "let vals = JObj [(''rate_collector_mode'', JStr ''bpf''), (''ifname'', JStr ''br-lan'')]
   in vd_valid (validate vals JNull []) \<and> normalizedValid (normalize vals)"
proof -
  let ?vals = "JObj [(''rate_collector_mode'', JStr ''bpf''), (''ifname'', JStr ''br-lan'')]"
  have v: "vd_valid (validate ?vals JNull [])" by code_simp
  then have "normalizedValid (normalize ?vals)" using validate_sound [OF v] by blast
  then show ?thesis using v by simp
qed

text \<open>
  The list of rate modes offered: the mode in use is always among them, on a platform
  without NSS no other NSS mode is, and a mode is greyed out exactly when validation would
  refuse it as known to be unavailable.
\<close>

theorem modeChoices_rate:
  fixes status vs :: jval and m :: string
  defines "choices \<equiv> modeChoices ''rate'' status vs"
  shows "(m \<in> mc_value ` set choices \<longleftrightarrow> m \<in> set (map fst RATE_MODES) \<and>
      (supportsRateMode status (JStr m) \<or> jfield vs ''rate_collector_mode'' = JStr m)) \<and>
    list_all (\<lambda>c. mc_disabled c = (\<exists>cap. map_of (capabilityState status (jor vs (JObj DEFAULTS))) (mc_value c) = Some cap \<and>
        cap_known cap \<and> \<not> cap_allowed cap)) choices"
proof
  let ?offer = "\<lambda>(v, label :: mtext, cap :: string option). supportsRateMode status (JStr v) \<or> jfield vs ''rate_collector_mode'' = JStr v"
  have nss: "isNssPlatform status \<Longrightarrow> supportsRateMode status (JStr ''nss_ecm_node'') \<and> supportsRateMode status (JStr ''nss_ecm_bpf'')"
    by (simp add: isNssPlatform_def isNss_def supportsRateMode_def nss_supportsRateMode_def)
  have offered: "filter (\<lambda>(v, label, cap). ''rate'' \<noteq> ''rate'' \<or> supportsRateMode status (JStr v) \<or>
         (\<not> (''rate'' = ''rate'' \<and> \<not> isNssPlatform status) \<and> (v = ''nss_ecm_node'' \<or> v = ''nss_ecm_bpf'')) \<or>
         JStr v = jfield vs ''rate_collector_mode'') RATE_MODES = filter ?offer RATE_MODES"
    using nss by (intro filter_cong) auto
  have caps: "list_all (\<lambda>(v, label, cap). (case cap of Some c \<Rightarrow> c | None \<Rightarrow> ''auto'') = v) RATE_MODES"
    by (simp add: RATE_MODES_def)
  have choices: "choices = map (\<lambda>(v, label, capability).
      let cap = map_of (capabilityState status (jor vs (JObj DEFAULTS))) (case capability of Some c \<Rightarrow> c | None \<Rightarrow> ''auto'') in
          \<lparr>mc_value = v,
           mc_label = (if ''rate'' = ''rate'' \<and> v = ''auto'' then autoLabel status label else label),
           mc_disabled = (case cap of Some c \<Rightarrow> cap_known c \<and> \<not> cap_allowed c | None \<Rightarrow> False),
           mc_reason = (case cap of Some c \<Rightarrow> cap_reason c | None \<Rightarrow> None),
           mc_pending = (case cap of Some c \<Rightarrow> \<not> cap_known c | None \<Rightarrow> False)\<rparr>) (filter ?offer RATE_MODES)"
    unfolding choices_def modeChoices_def Let_def if_P [OF refl] offered ..
  show "m \<in> mc_value ` set choices \<longleftrightarrow> m \<in> set (map fst RATE_MODES) \<and>
      (supportsRateMode status (JStr m) \<or> jfield vs ''rate_collector_mode'' = JStr m)"
    unfolding choices by (auto simp: Let_def image_iff split: prod.splits) force+
  show "list_all (\<lambda>c. mc_disabled c = (\<exists>cap. map_of (capabilityState status (jor vs (JObj DEFAULTS))) (mc_value c) = Some cap \<and>
        cap_known cap \<and> \<not> cap_allowed cap)) choices"
    unfolding choices using caps by (auto simp: list_all_iff Let_def split: option.splits)
qed

text \<open>
  Names that every object inherits are silently lost: an interface of that name is neither
  accepted nor reported, because the parser keeps its \<open>seen\<close> marks in an object literal.
\<close>

lemma parseInterfaceList_loses_inherited:
  assumes "n \<in> set protoKeys"
  shows "parseInterfaceList (JArr [JStr n]) = \<lparr>nr_valid = [], nr_invalid = [], nr_truncated = False\<rparr>"
proof -
  have "list_all (\<lambda>n. trimAscii (JStr n) = n \<and> n \<noteq> []) protoKeys" by code_simp
  then have "trimAscii (JStr n) = n" "n \<noteq> []" using assms by (auto simp: list_all_iff)
  then show ?thesis using assms by (simp add: parseInterfaceList_def addItem_def addName_def)
qed

text \<open>
  A list option whose item has a blank inside the prefix is accepted, but the text it is saved as
  no longer parses.
\<close>

lemma spaced_range_does_not_survive:
  "nr_invalid (parseCidrList (JArr [JStr ''fe80:: /10''])) = [] \<and>
   nr_valid (parseCidrList (JArr [JStr ''fe80:: /10''])) = [''fe80:: /10''] \<and>
   nr_valid (parseCidrList (JStr (joinStr '' '' [''fe80:: /10'']))) = []"
  by code_simp

end
