(* ===== verification/IfaceConfig.thy ===== *)
theory IfaceConfig
  imports ConfigModel Format "HOL-Library.List_Lexorder"
begin

text \<open>
  \<open>lanspeed/ifaceConfig.js\<close>: the interface section of the configuration page. A scan of the
  daemon (\<open>sysdevices\<close>) is normalised, each visible device gets the mode off, observe or
  collect, and a save merges the modes with the configured names that are not visible.

  The view is a record; DOM nodes are reduced to what they show and to whether they can be
  clicked, and the section is taken as built (\<open>buildSection\<close> only creates nodes). A promise
  chain on one scan runs as one step, because every other event of the page is a later task.
  Error texts are named by an English gloss.
\<close>

section \<open>Names\<close>

definition AUTO_IGNORED_INTERFACE_PREFIXES :: "string list" where
  "AUTO_IGNORED_INTERFACE_PREFIXES = [''dae'', ''miireg'', ''tun'', ''erspan'', ''gretap'', ''gre'', ''ip6gre'',
     ''ip6tnl'', ''sit'', ''bonding_masters'']"

definition ifText :: "jval \<Rightarrow> string" where
  "ifText v = (if nullish v then [] else toStr v)"

definition isAutoIgnored :: "jval \<Rightarrow> bool" where
  "isAutoIgnored name = list_ex (\<lambda>p. prefix p (ifText name)) AUTO_IGNORED_INTERFACE_PREFIXES"

definition cloneList :: "jval \<Rightarrow> jval list" where
  "cloneList v = (case v of JArr xs \<Rightarrow> xs | _ \<Rightarrow> map JStr (nr_valid (parseInterfaceList v)))"

text \<open>The table \<open>seen = {}\<close> has the inherited names, and empty names are skipped.\<close>

definition uniqueNames :: "jval list \<Rightarrow> string list" where
  "uniqueNames vs = firstsFrom (insert [] (set protoKeys)) (map ifText vs)"

text \<open>\<open>sort()\<close> without a comparator orders by code units.\<close>

definition sameNames :: "jval list \<Rightarrow> jval list \<Rightarrow> bool" where
  "sameNames left right = (let l = sort_key (map code) (uniqueNames left); r = sort_key (map code) (uniqueNames right)
     in if length l \<noteq> length r then False else list_all2 (=) l r)"

section \<open>The answer of a scan\<close>

datatype sys_error = InvalidResponse | MissingDevices

record sysdevices =
  sd_version :: jval
  sd_devices :: "jval list"
  sd_lists :: "(string \<times> string list) list"
  sd_max_configured :: rat
  sd_max_name_length :: rat
  sd_warnings :: "jval list"

definition sysLists :: "string list" where
  "sysLists = [''current_ifnames'', ''current_observed'', ''current_excluded'', ''configured_ifnames'',
     ''configured_observed'', ''configured_excluded'', ''orphaned'']"

definition deviceFlags :: "string list" where
  "deviceFlags = [''selected'', ''observed'', ''recommended_lan'', ''collect_allowed'', ''is_bridge'',
     ''is_bridge_port'', ''is_nss_ifb'']"

definition sysList :: "sysdevices \<Rightarrow> string \<Rightarrow> string list" where
  "sysList s name = (case map_of (sd_lists s) name of Some xs \<Rightarrow> xs | None \<Rightarrow> [])"

definition namedDevice :: "jval \<Rightarrow> bool" where
  "namedDevice d \<longleftrightarrow> truthy d \<and> ifText (jget d ''name'') \<noteq> []"

definition droppedWarnings :: "jval list \<Rightarrow> jval list" where
  "droppedWarnings ds = map (\<lambda>(i, d). JObj [(''field'', JStr ''devices''), (''index'', num (of_nat i)),
     (''code'', JStr ''invalid_device'')]) (filter (\<lambda>(i, d). \<not> namedDevice d) (enumerate 0 ds))"

definition defaultedWarning :: "string \<Rightarrow> props \<Rightarrow> jval" where
  "defaultedWarning field copy = JObj [(''field'', JStr field), (''device'', JStr (ifText (jget (JObj copy) ''name''))),
     (''code'', JStr ''defaulted'')]"

definition defaultFlag :: "props \<times> jval list \<Rightarrow> string \<Rightarrow> props \<times> jval list" where
  "defaultFlag st name = (let (copy, ws) = st in
     if isBool (jget (JObj copy) name) then (copy, ws)
     else (putProp name (JBool False) copy, ws @ [defaultedWarning name copy]))"

definition defaultReason :: "props \<times> jval list \<Rightarrow> props \<times> jval list" where
  "defaultReason st = (let (copy, ws) = st; reason = jget (JObj copy) ''collect_reason'' in
     if \<not> isStr reason \<or> \<not> truthy reason
     then (putProp ''collect_reason'' (JStr ''invalid_contract'') copy, ws @ [defaultedWarning ''collect_reason'' copy])
     else (copy, ws))"

fun ownProps :: "jval \<Rightarrow> props" where
  "ownProps (JObj ps) = ps"
| "ownProps _ = []"

definition normalizeDevice :: "jval list \<times> jval list \<Rightarrow> jval \<Rightarrow> jval list \<times> jval list" where
  "normalizeDevice st d = (let (ds, ws) = st;
       (copy, ws') = defaultReason (foldl defaultFlag (ownProps d, ws) deviceFlags)
     in (ds @ [JObj copy], ws'))"

definition versionWarnings :: "jval \<Rightarrow> jval list" where
  "versionWarnings d = (if \<not> hasOwn d ''contract_version''
     then [JObj [(''field'', JStr ''contract_version''), (''code'', JStr ''missing_contract_version'')]]
     else if \<not> strictEq (jget d ''contract_version'') (num 1)
     then [JObj [(''field'', JStr ''contract_version''), (''code'', JStr ''unsupported_version''),
       (''value'', jget d ''contract_version'')]]
     else [])"

fun strOf :: "jval \<Rightarrow> string" where
  "strOf (JStr s) = s"
| "strOf _ = []"

definition listWarning :: "string \<Rightarrow> string \<Rightarrow> jval" where
  "listWarning field c = JObj [(''field'', JStr field), (''code'', JStr c)]"

definition readNames :: "jval \<Rightarrow> string \<Rightarrow> string list \<times> jval list" where
  "readNames d name = (case jget d name of
     JArr xs \<Rightarrow> (let ns = filter (\<lambda>s. s \<noteq> []) (map strOf xs)
       in (ns, if length ns \<noteq> length xs then [listWarning name ''invalid_items''] else []))
   | _ \<Rightarrow> ([], [listWarning name ''defaulted'']))"

text \<open>\<open>!isFinite(n) || n < 1 || n > max\<close> replaces a limit.\<close>

definition readLimit :: "jnum \<Rightarrow> rat \<Rightarrow> rat \<Rightarrow> string \<Rightarrow> rat \<times> jval list" where
  "readLimit n most deflt field = (case n of
     Fin q \<Rightarrow> if q < 1 \<or> q > most then (deflt, [listWarning field ''defaulted'']) else (q, [])
   | _ \<Rightarrow> (deflt, [listWarning field ''defaulted'']))"

definition rawLimits :: "jval \<Rightarrow> jval" where
  "rawLimits d = (if truthy d \<and> truthy (jget d ''limits'') \<and> typeofObject (jget d ''limits'')
     then jget d ''limits'' else JObj [])"

definition normalizeSysdevices :: "jval \<Rightarrow> sys_error + sysdevices" where
  "normalizeSysdevices d = (
     if \<not> truthy d \<or> \<not> typeofObject d \<or> isArr d then Inl InvalidResponse
     else if \<not> isArr (jget d ''devices'') then Inl MissingDevices
     else (let raw = arrItems (jget d ''devices'');
       (ds, ws) = foldl normalizeDevice ([], droppedWarnings raw) (filter namedDevice raw);
       (maxConfigured, w1) = readLimit (toNum (jget (rawLimits d) ''max_configured'')) (of_nat MAX_INTERFACE_NAMES)
         (of_nat MAX_INTERFACE_NAMES) ''limits.max_configured'';
       (maxNameLength, w2) = readLimit (toNum (jget (rawLimits d) ''max_name_length'')) 255 31 ''limits.max_name_length''
     in Inr \<lparr>sd_version = (if jget d ''contract_version'' = JUndef then num 0 else jget d ''contract_version''),
          sd_devices = ds, sd_lists = map (\<lambda>n. (n, fst (readNames d n))) sysLists,
          sd_max_configured = maxConfigured, sd_max_name_length = maxNameLength,
          sd_warnings = ws @ versionWarnings d @ concat (map (\<lambda>n. snd (readNames d n)) sysLists) @ w1 @ w2\<rparr>))"

section \<open>Devices\<close>

definition visibleDevices :: "sysdevices option \<Rightarrow> jval list" where
  "visibleDevices s = (case s of None \<Rightarrow> [] | Some d \<Rightarrow>
     filter (\<lambda>d. namedDevice d \<and> \<not> isAutoIgnored (jget d ''name'')) (sd_devices d))"

text \<open>The names \<open>/^(wan|ppp|wg|tap|utun)/\<close>.\<close>

definition uplinkName :: "jval \<Rightarrow> bool" where
  "uplinkName name = list_ex (\<lambda>p. prefix p (ifText name)) [''wan'', ''ppp'', ''wg'', ''tap'', ''utun'']"

definition collectAllowed :: "jval \<Rightarrow> bool" where
  "collectAllowed d = (if \<not> truthy d \<or> truthy (jget d ''is_nss_ifb'') then False
     else if isBool (jget d ''collect_allowed'') then truthy (jget d ''collect_allowed'')
     else if truthy (jget d ''is_bridge_port'') then False
     else jget d ''recommended_lan'' = JBool True \<and> \<not> uplinkName (jget d ''name''))"

definition collectReasons :: "(string \<times> mtext) list" where
  "collectReasons = [(''eligible_bridge'', Tr ''client rates can be collected on this LAN bridge''),
     (''eligible_bridge_port'', Tr ''the backend allows collecting on this bridge member''),
     (''eligible_ethernet'', Tr ''collecting on this Ethernet interface is possible''),
     (''nssifb_observe_only'', Tr ''nssifb can only be observed''),
     (''non_ethernet_observe_only'', Tr ''interfaces other than Ethernet can only be observed''),
     (''name_policy_observe_only'', Tr ''the name policy only allows observing'')]"

definition collectReason :: "jval \<Rightarrow> mtext" where
  "collectReason d = (let code = jget d ''collect_reason''; known = map_of collectReasons (toStr code) in
     if \<not> truthy d then Tr ''no such device''
     else if truthy (jget d ''is_nss_ifb'') then Tr ''nssifb can only be observed''
     else if truthy code \<and> known \<noteq> None then the known
     else if truthy code \<and> toStr code \<in> set protoKeys then Lit (toStr (JProto (toStr code)))
     else if truthy (jget d ''is_bridge_port'') then Tr ''bridge member without permission of the backend''
     else if \<not> truthy (jget d ''recommended_lan'') then Tr ''not confirmed as a LAN interface''
     else if uplinkName (jget d ''name'') then Tr ''WAN, VPN and tunnel interfaces can only be observed''
     else Tr ''this interface does not support collecting'')"

section \<open>The view\<close>

record mode_button =
  btnName :: string
  btnMode :: string
  btnActive :: bool
  btnAlwaysDisabled :: bool
  btnDisabled :: bool
  btnTitle :: mtext

record orphan_row =
  orpOption :: string
  orpName :: string
  orpDisabled :: bool

record iface_row =
  rowName :: string
  rowTags :: "mtext list"

text \<open>A scan in flight loads the section or verifies a save against the expected lists.\<close>

datatype scan = Loading | Verifying jval

record iface_view =
  sysdevices :: "sysdevices option"
  ifaceOriginal :: jval
  ifcfgState :: "(string \<times> string) list option"
  ifcfgLimits :: "rat option"
  ifcfgWarnings :: "jval list"
  ifcfgDirty :: bool
  ifcfgLoading :: bool
  ifcfgVerifying :: bool
  ifcfgPending :: bool
  ifcfgLoaded :: bool
  configSaving :: bool
  ifcfgErrors :: "mtext option"
  ifcfgError :: "mtext option"
  interfaceStatus :: "string \<times> mtext"
  orphanRemovals :: "string list"
  requestToken :: nat
  scans :: "(nat \<times> scan) list"
  waiting :: "jval list"
  formMarked :: bool
  ifcfgRows :: "iface_row list"
  ifcfgButtons :: "mode_button list"
  ifcfgOrphans :: "orphan_row list"
  ifcfgSummary :: "nat \<times> nat \<times> nat"
  ifcfgLimit :: "nat \<times> rat \<times> string"
  ifcfgHint :: string
  reloadDisabled :: bool

abbreviation noText :: mtext where "noText \<equiv> Lit []"

definition nameOf :: "jval \<Rightarrow> string" where
  "nameOf d = toStr (jget d ''name'')"

text \<open>\<open>originalConfig(viewState)\<close>: the configured names of an option, and whether the file has it.\<close>

definition originalList :: "iface_view \<Rightarrow> string \<Rightarrow> jval list" where
  "originalList v name = cloneList (jget (jor (ifaceOriginal v) (JObj [])) name)"

definition originalPresent :: "iface_view \<Rightarrow> string \<Rightarrow> bool" where
  "originalPresent v name = truthy (jget (jor (jget (jor (ifaceOriginal v) (JObj [])) ''present'') (JObj [])) name)"

text \<open>Looking a name up in \<open>visible = {}\<close> or in the map of devices also finds inherited members.\<close>

definition isVisible :: "iface_view \<Rightarrow> string \<Rightarrow> bool" where
  "isVisible v name \<longleftrightarrow> list_ex (\<lambda>d. nameOf d = name) (visibleDevices (sysdevices v)) \<or> name \<in> set protoKeys"

definition deviceByName :: "iface_view \<Rightarrow> string \<Rightarrow> jval option" where
  "deviceByName v name = (case find (\<lambda>d. nameOf d = name) (rev (visibleDevices (sysdevices v))) of
     Some d \<Rightarrow> Some d | None \<Rightarrow> if name \<in> set protoKeys then Some (JProto name) else None)"

definition stateForDevice :: "iface_view \<Rightarrow> jval \<Rightarrow> string" where
  "stateForDevice v d = (
     if jget d ''name'' \<in> JStr ` set (uniqueNames (originalList v ''ifname'' @ originalList v ''interface_include''))
     then ''collect''
     else if list_ex (strictEq (jget d ''name'')) (originalList v ''observe'') then ''observe'' else ''off'')"

definition setInterfaceStatus :: "string \<Rightarrow> mtext \<Rightarrow> iface_view \<Rightarrow> iface_view" where
  "setInterfaceStatus st msg v = v\<lparr>interfaceStatus := (st, msg)\<rparr>"

definition updateScanDisabled :: "iface_view \<Rightarrow> iface_view" where
  "updateScanDisabled v = (let busy = (configSaving v \<or> ifcfgLoading v) in
     v\<lparr>reloadDisabled := (busy \<or> ifcfgDirty v),
       ifcfgButtons := map (\<lambda>b. b\<lparr>btnDisabled := (busy \<or> btnAlwaysDisabled b)\<rparr>) (ifcfgButtons v),
       ifcfgOrphans := map (\<lambda>r. r\<lparr>orpDisabled := busy\<rparr>) (ifcfgOrphans v)\<rparr>)"

definition modesOf :: "iface_view \<Rightarrow> (string \<times> string) list" where
  "modesOf v = (case ifcfgState v of None \<Rightarrow> [] | Some st \<Rightarrow> st)"

definition countMode :: "string \<Rightarrow> iface_view \<Rightarrow> nat" where
  "countMode mode v = length (filter (\<lambda>(n, m). m = mode) (modesOf v))"

definition maxConfigured :: "iface_view \<Rightarrow> rat" where
  "maxConfigured v = (case ifcfgLimits v of None \<Rightarrow> of_nat MAX_INTERFACE_NAMES
     | Some q \<Rightarrow> if q \<noteq> 0 then q else of_nat MAX_INTERFACE_NAMES)"

section \<open>Rendering\<close>

definition orphanEntries :: "iface_view \<Rightarrow> (string \<times> string) list" where
  "orphanEntries v = firstsFrom {} (concat (map (\<lambda>opt.
     map (\<lambda>n. (opt, n)) (filter (\<lambda>n. \<not> isVisible v n) (map toStr (originalList v opt))))
     [''ifname'', ''interface_include'', ''observe'']))"

definition orphanKey :: "string \<Rightarrow> string \<Rightarrow> string" where
  "orphanKey opt name = opt @ '':'' @ name"

definition optionLabel :: "string \<Rightarrow> mtext" where
  "optionLabel opt = (case map_of [(''ifname'', Tr ''legacy collected interface''),
       (''interface_include'', Tr ''collected interface''), (''interface_exclude'', Tr ''compatibility exclusion''),
       (''observe'', Tr ''observed interface'')] opt of Some t \<Rightarrow> t | None \<Rightarrow> Lit opt)"

definition renderOrphans :: "iface_view \<Rightarrow> iface_view" where
  "renderOrphans v = v\<lparr>ifcfgOrphans := map (\<lambda>(opt, n). \<lparr>orpOption = opt, orpName = n, orpDisabled = configSaving v\<rparr>)
     (filter (\<lambda>(opt, n). orphanKey opt n \<notin> set (orphanRemovals v)) (orphanEntries v))\<rparr>"

definition modeButton :: "iface_view \<Rightarrow> string \<Rightarrow> string \<Rightarrow> bool \<Rightarrow> mtext \<Rightarrow> mode_button" where
  "modeButton v name mode disabled title = \<lparr>btnName = name, btnMode = mode,
     btnActive = (map_of (modesOf v) name = Some mode), btnAlwaysDisabled = disabled,
     btnDisabled = (disabled \<or> configSaving v \<or> ifcfgLoading v), btnTitle = title\<rparr>"

definition modeControl :: "iface_view \<Rightarrow> jval \<Rightarrow> mode_button list" where
  "modeControl v d = (let allowed = collectAllowed d in
     [modeButton v (nameOf d) ''off'' False (Tr ''neither collected nor shown in the throughput''),
      modeButton v (nameOf d) ''observe'' False (Tr ''only the total throughput of the interface''),
      modeButton v (nameOf d) ''collect'' (\<not> allowed)
        (if allowed then Tr ''LAN rates per client'' else collectReason d)])"

definition deviceTags :: "jval \<Rightarrow> mtext list" where
  "deviceTags d = (if truthy (jget d ''role'') then [Lit (ifText (jget d ''role''))] else []) @
     (if truthy (jget d ''is_nss_ifb'') then [Tr ''NSS mirror''] else []) @
     (if truthy (jget d ''is_bridge'') then [Tr ''bridge''] else []) @
     (if truthy (jget d ''is_bridge_port'') then [Tr ''bridge member''] else []) @
     (if \<not> collectAllowed d then [Tr ''observe only''] else []) @
     (if truthy (jget d ''speed_mbps'') then [Lit (ifText (jget d ''speed_mbps'') @ ''M'')] else [])"

definition deviceCompare :: "(string \<Rightarrow> string \<Rightarrow> int) \<Rightarrow> jval \<Rightarrow> jval \<Rightarrow> jnum" where
  "deviceCompare collate = lexCompare
     (\<lambda>l r. nsub (Fin (if collectAllowed l then 0 else 1)) (Fin (if collectAllowed r then 0 else 1)))
     (\<lambda>l r. compareText collate (jget l ''name'') (jget r ''name''))"

definition sortedDevices :: "(string \<Rightarrow> string \<Rightarrow> int) \<Rightarrow> iface_view \<Rightarrow> jval list" where
  "sortedDevices collate v = jsSort (deviceCompare collate) (visibleDevices (sysdevices v))"

definition ensureModes :: "jval list \<Rightarrow> iface_view \<Rightarrow> iface_view" where
  "ensureModes ds v = (case ifcfgState v of Some st \<Rightarrow> v
     | None \<Rightarrow> v\<lparr>ifcfgState := Some (foldl (\<lambda>st d. putAssoc (nameOf d) (stateForDevice v d) st) [] ds)\<rparr>)"

definition renderIfaceConfig :: "(string \<Rightarrow> string \<Rightarrow> int) \<Rightarrow> iface_view \<Rightarrow> iface_view" where
  "renderIfaceConfig collate v0 = (let ds = sortedDevices collate v0; v = ensureModes ds v0;
       collect = countMode ''collect'' v; limit = maxConfigured v
     in updateScanDisabled ((renderOrphans (v\<lparr>
       ifcfgRows := map (\<lambda>d. \<lparr>rowName = nameOf d, rowTags = deviceTags d\<rparr>) ds,
       ifcfgButtons := concat (map (modeControl v) ds),
       ifcfgHint := (if ds \<noteq> [] then ''ready'' else ''empty''),
       ifcfgSummary := (collect, countMode ''observe'' v, length ds),
       ifcfgLimit := (collect, limit, if limit \<le> of_nat collect then ''limit'' else ''ready'')\<rparr>))\<lparr>ifcfgLoaded := True\<rparr>))"

section \<open>Choosing a mode, removing an orphan\<close>

definition refuse :: "mtext \<Rightarrow> iface_view \<Rightarrow> iface_view" where
  "refuse msg v = setInterfaceStatus ''degraded'' msg (v\<lparr>ifcfgErrors := Some msg\<rparr>)"

definition markSelection :: "(string \<Rightarrow> string \<Rightarrow> int) \<Rightarrow> string \<Rightarrow> string \<Rightarrow> iface_view \<Rightarrow> iface_view \<times> bool" where
  "markSelection collate name mode v = (case deviceByName v name of None \<Rightarrow> (v, False)
   | Some d \<Rightarrow>
     if configSaving v \<or> ifcfgLoading v then (v, False)
     else if mode = ''collect'' \<and> \<not> collectAllowed d then (refuse (collectReason d) v, False)
     else if mode = ''collect'' \<and> map_of (modesOf v) name \<noteq> Some ''collect'' \<and>
         of_nat (countMode ''collect'' v) \<ge> maxConfigured v
       then (refuse (Fmt ''at most %d interfaces can be collected'' [NumT (Fin (maxConfigured v))]) v, False)
     else (renderIfaceConfig collate (updateScanDisabled (v\<lparr>ifcfgState := Some (putAssoc name mode (modesOf v)),
       ifcfgDirty := True, ifcfgErrors := None, formMarked := True\<rparr>)), True))"

definition removeOrphan :: "(string \<Rightarrow> string \<Rightarrow> int) \<Rightarrow> string \<Rightarrow> string \<Rightarrow> iface_view \<Rightarrow> iface_view \<times> bool" where
  "removeOrphan collate opt name v = (if configSaving v \<or> ifcfgLoading v then (v, False)
     else (renderIfaceConfig collate (v\<lparr>orphanRemovals := orphanKey opt name # orphanRemovals v, ifcfgDirty := True,
       formMarked := True\<rparr>), True))"

section \<open>Scanning\<close>

definition loadIfaceConfig :: "iface_view \<Rightarrow> iface_view" where
  "loadIfaceConfig v = (
     if ifcfgDirty v then setInterfaceStatus ''degraded'' (Tr ''unsaved interface changes, save before scanning'') v
     else if ifcfgLoading v \<and> ifcfgPending v then v
     else (let token = requestToken v + 1 in
       (updateScanDisabled (setInterfaceStatus ''loading'' (Tr ''scanning interfaces'')
         (v\<lparr>requestToken := token, ifcfgLoading := True\<rparr>)))
       \<lparr>ifcfgPending := True, scans := scans v @ [(token, Loading)]\<rparr>))"

definition verify :: "jval \<Rightarrow> iface_view \<Rightarrow> iface_view" where
  "verify expected v = (
     if ifcfgDirty v then v
     else if ifcfgLoading v then
       (if ifcfgVerifying v \<and> ifcfgPending v then v
        else if ifcfgPending v then v\<lparr>waiting := waiting v @ [expected]\<rparr> else v)
     else (let token = requestToken v + 1 in
       (updateScanDisabled (setInterfaceStatus ''loading'' (Tr ''verifying the running interfaces'')
         (v\<lparr>requestToken := token, ifcfgLoading := True, ifcfgVerifying := True\<rparr>)))
       \<lparr>ifcfgPending := True, scans := scans v @ [(token, Verifying expected)]\<rparr>))"

text \<open>What the daemon answers: a value, or the message of a failed call.\<close>

datatype answer = Data jval | Failed mtext

definition sysErrorText :: "sys_error \<Rightarrow> mtext" where
  "sysErrorText e = (case e of InvalidResponse \<Rightarrow> Tr ''the scan returned invalid data''
     | MissingDevices \<Rightarrow> Tr ''the scan returned no device list'')"

definition scanned :: "answer \<Rightarrow> mtext + sysdevices" where
  "scanned a = (case a of Failed e \<Rightarrow> Inl e | Data d \<Rightarrow>
     (case normalizeSysdevices d of Inl e \<Rightarrow> Inl (sysErrorText e) | Inr n \<Rightarrow> Inr n))"

definition loadDone :: "(string \<Rightarrow> string \<Rightarrow> int) \<Rightarrow> sysdevices \<Rightarrow> iface_view \<Rightarrow> iface_view" where
  "loadDone collate n v = setInterfaceStatus
     (if sd_devices n = [] then ''empty'' else if sd_warnings n \<noteq> [] then ''degraded'' else ''ready'')
     (if sd_warnings n \<noteq> [] then Tr ''interface data incomplete, safe defaults used'' else noText)
     (renderIfaceConfig collate (v\<lparr>sysdevices := Some n, ifcfgLimits := Some (sd_max_configured n),
       ifcfgWarnings := sd_warnings n,
       ifcfgState := Some (foldl (\<lambda>st d. putAssoc (nameOf d) (stateForDevice v d) st) [] (sd_devices n)),
       ifcfgDirty := False, ifcfgLoaded := True\<rparr>))"

definition loadFailed :: "mtext \<Rightarrow> iface_view \<Rightarrow> iface_view" where
  "loadFailed e v = (if sysdevices v \<noteq> None \<and> ifcfgLoaded v
     then setInterfaceStatus ''degraded'' (Cat [Tr ''scan failed, showing the last result: '', e]) (v\<lparr>ifcfgError := Some e\<rparr>)
     else setInterfaceStatus ''hard-error'' (Cat [Tr ''scan failed: '', e]) (v\<lparr>ifcfgError := Some e, ifcfgLoaded := False\<rparr>))"

text \<open>The lists a save expects: the values saved, or else what the page holds.\<close>

definition expectedList :: "iface_view \<Rightarrow> jval \<Rightarrow> string \<Rightarrow> jval list" where
  "expectedList v expected name = (if truthy expected then arrItems (jget expected name) else originalList v name)"

record verify_report =
  vrOk :: bool
  vrWanted :: "string list"
  vrWantedObserve :: "string list"
  vrWantedExcluded :: "string list"
  vrActual :: "string list"
  vrActualObserve :: "string list"
  vrActualExcluded :: "string list"
  vrConfiguredExcluded :: "string list"

definition notIgnored :: "string list \<Rightarrow> string list" where
  "notIgnored ns = filter (\<lambda>n. \<not> isAutoIgnored (JStr n)) ns"

abbreviation sameTexts :: "string list \<Rightarrow> string list \<Rightarrow> bool" where
  "sameTexts a b \<equiv> sameNames (map JStr a) (map JStr b)"

definition verifyReport :: "iface_view \<Rightarrow> jval \<Rightarrow> sysdevices \<Rightarrow> verify_report" where
  "verifyReport v expected n = (
     let wanted = notIgnored (uniqueNames (expectedList v expected ''ifname'' @ expectedList v expected ''interface_include''));
       wantedObserve = filter (\<lambda>x. x \<notin> set wanted) (notIgnored (uniqueNames (expectedList v expected ''observe'')));
       wantedExcluded = uniqueNames (expectedList v expected ''interface_exclude'');
       actual = notIgnored (uniqueNames (map JStr (sysList n ''current_ifnames'')));
       actualObserve = filter (\<lambda>x. x \<notin> set actual) (notIgnored (uniqueNames (map JStr (sysList n ''current_observed''))));
       configuredExcluded = uniqueNames (map JStr (sysList n ''configured_excluded''))
     in \<lparr>vrOk = (strictEq (sd_version n) (num 1) \<and> sameTexts actual wanted \<and> sameTexts actualObserve wantedObserve \<and>
           sameTexts configuredExcluded wantedExcluded),
         vrWanted = wanted, vrWantedObserve = wantedObserve, vrWantedExcluded = wantedExcluded, vrActual = actual,
         vrActualObserve = actualObserve, vrActualExcluded = uniqueNames (map JStr (sysList n ''current_excluded'')),
         vrConfiguredExcluded = configuredExcluded\<rparr>)"

definition verifyDone :: "jval \<Rightarrow> sysdevices \<Rightarrow> iface_view \<Rightarrow> iface_view" where
  "verifyDone expected n v = (let good = vrOk (verifyReport v expected n) in
     setInterfaceStatus (if good then ''ready'' else ''degraded'')
       (if good then Tr ''running state verified'' else Tr ''saved, but the running interfaces do not match yet'')
       (v\<lparr>sysdevices := Some n\<rparr>))"

definition verifyFailed :: "mtext \<Rightarrow> iface_view \<Rightarrow> iface_view" where
  "verifyFailed e v = setInterfaceStatus ''degraded'' (Cat [Tr ''verification failed: '', e]) v"

text \<open>
  The last handler of a scan, and the verifications that waited for it. A verification that
  waited for an earlier one finds that one again, or starts a scan of its own.
\<close>

definition scanEnd :: "scan \<Rightarrow> iface_view \<Rightarrow> iface_view" where
  "scanEnd kind v = updateScanDisabled (v\<lparr>ifcfgLoading := False, ifcfgPending := False,
     ifcfgVerifying := (case kind of Loading \<Rightarrow> ifcfgVerifying v | Verifying _ \<Rightarrow> False)\<rparr>)"

definition settle :: "(string \<Rightarrow> string \<Rightarrow> int) \<Rightarrow> scan \<Rightarrow> answer \<Rightarrow> iface_view \<Rightarrow> iface_view" where
  "settle collate kind a v = (case (kind, scanned a) of
     (Loading, Inr n) \<Rightarrow> loadDone collate n v
   | (Loading, Inl e) \<Rightarrow> loadFailed e v
   | (Verifying expected, Inr n) \<Rightarrow> verifyDone expected n v
   | (Verifying expected, Inl e) \<Rightarrow> verifyFailed e v)"

definition onAnswer :: "(string \<Rightarrow> string \<Rightarrow> int) \<Rightarrow> nat \<Rightarrow> answer \<Rightarrow> iface_view \<Rightarrow> iface_view" where
  "onAnswer collate token a v = (case map_of (scans v) token of None \<Rightarrow> v
   | Some kind \<Rightarrow> (let v1 = v\<lparr>scans := filter (\<lambda>(t, _). t \<noteq> token) (scans v), waiting := []\<rparr>;
         v2 = (if token = requestToken v then scanEnd kind (settle collate kind a v1) else v1)
       in foldl (\<lambda>u e. verify e u) v2 (waiting v)))"

section \<open>Saving\<close>

definition selected :: "string \<Rightarrow> iface_view \<Rightarrow> string list" where
  "selected mode v = uniqueNames (map (\<lambda>(n, m). JStr n) (filter (\<lambda>(n, m). m = mode) (modesOf v)))"

definition ifaceLists :: "string list" where
  "ifaceLists = [''ifname'', ''interface_include'', ''interface_exclude'', ''observe'']"

record save_plan =
  planChanged :: bool
  planDesired :: "(string \<times> string list) list option"
  planErrors :: "mtext option"

definition collectErrors :: "iface_view \<Rightarrow> mtext option" where
  "collectErrors v = (let attach = selected ''collect'' v;
       e0 = (if of_nat (length attach) > maxConfigured v
         then Some (Fmt ''more than %d collected interfaces'' [NumT (Fin (maxConfigured v))]) else None)
     in foldl (\<lambda>e name. case deviceByName v name of None \<Rightarrow> e
       | Some d \<Rightarrow> if \<not> collectAllowed d \<and> e = None then Some (collectReason d) else e) e0 attach)"

definition inFile :: "iface_view \<Rightarrow> string \<Rightarrow> bool" where
  "inFile v name \<longleftrightarrow> originalList v name \<noteq> [] \<or> originalPresent v name"

text \<open>The option that takes the collected names: both if the file has both, else the one it has.\<close>

definition takesAttach :: "iface_view \<Rightarrow> string \<Rightarrow> bool" where
  "takesAttach v name = (if inFile v ''ifname'' \<and> inFile v ''interface_include'' then name = ''ifname'' \<or> name = ''interface_include''
     else if inFile v ''ifname'' then name = ''ifname'' else name = ''interface_include'')"

definition keptNames :: "iface_view \<Rightarrow> string \<Rightarrow> jval list" where
  "keptNames v name = filter (\<lambda>x. orphanKey name (toStr x) \<notin> set (orphanRemovals v) \<and>
     (\<not> isVisible v (toStr x) \<or> name = ''interface_exclude'')) (originalList v name)"

definition desiredList :: "iface_view \<Rightarrow> string \<Rightarrow> string list" where
  "desiredList v name = uniqueNames (keptNames v name @
     map JStr ((if takesAttach v name then selected ''collect'' v else []) @
               (if name = ''observe'' then selected ''observe'' v else [])))"

definition prepareIfaceSave :: "iface_view \<Rightarrow> save_plan" where
  "prepareIfaceSave v = (
     if \<not> ifcfgLoaded v \<or> sysdevices v = None \<or> ifcfgState v = None \<or> \<not> ifcfgDirty v
     then \<lparr>planChanged = False, planDesired = None, planErrors = None\<rparr>
     else (let desired = map (\<lambda>name. (name, desiredList v name)) ifaceLists; e = collectErrors v in
       \<lparr>planChanged = (e = None \<and> list_ex (\<lambda>(name, d). \<not> sameNames (map JStr d) (originalList v name)) desired),
         planDesired = Some desired, planErrors = e\<rparr>))"

definition markSaved :: "save_plan \<Rightarrow> iface_view \<Rightarrow> iface_view" where
  "markSaved plan v = updateScanDisabled ((case planDesired plan of None \<Rightarrow> v
     | Some desired \<Rightarrow> v\<lparr>ifaceOriginal := JObj (map (\<lambda>(name, d). (name, JArr (map JStr d))) desired @
         [(''present'', JObj (map (\<lambda>(name, d). (name, JBool (d \<noteq> []))) desired))])\<rparr>)
     \<lparr>ifcfgDirty := False, orphanRemovals := []\<rparr>)"

definition setBusy :: "bool \<Rightarrow> iface_view \<Rightarrow> iface_view" where
  "setBusy busy v = updateScanDisabled (v\<lparr>configSaving := busy\<rparr>)"

section \<open>What a scan delivers\<close>

definition deviceOk :: "jval \<Rightarrow> bool" where
  "deviceOk d \<longleftrightarrow> namedDevice d \<and> list_all (\<lambda>f. isBool (jget d f)) deviceFlags \<and>
     isStr (jget d ''collect_reason'') \<and> truthy (jget d ''collect_reason'')"

lemma defaultFlag_props:
  "jget (JObj (fst (defaultFlag st f))) k = (if k = f \<and> \<not> isBool (jget (JObj (fst st)) f) then JBool False else jget (JObj (fst st)) k)"
  by (auto simp: defaultFlag_def Let_def split: prod.splits)

lemma defaultFlags_props:
  "jget (JObj (fst (foldl defaultFlag st fs))) k =
     (if k \<in> set fs \<and> \<not> isBool (jget (JObj (fst st)) k) then JBool False else jget (JObj (fst st)) k)"
  by (induction fs arbitrary: st) (auto simp: defaultFlag_props)

lemma defaultReason_props:
  "jget (JObj (fst (defaultReason st))) k =
     (if k = ''collect_reason'' \<and> (\<not> isStr (jget (JObj (fst st)) k) \<or> \<not> truthy (jget (JObj (fst st)) k))
      then JStr ''invalid_contract'' else jget (JObj (fst st)) k)"
  by (auto simp: defaultReason_def Let_def split: prod.splits)

lemma namedDevice_obj: "namedDevice d \<Longrightarrow> d = JObj (ownProps d)"
  by (cases d) (auto simp: namedDevice_def jget.simps ifText_def nullish_def)

lemma normalizeDevice_props:
  assumes d: "namedDevice d"
  shows "\<exists>copy. fst (normalizeDevice st d) = fst st @ [copy] \<and> deviceOk copy \<and> jget copy ''name'' = jget d ''name''"
proof -
  let ?st = "foldl defaultFlag (ownProps d, snd st) deviceFlags"
  let ?copy = "JObj (fst (defaultReason ?st))"
  have obj: "jget (JObj (ownProps d)) k = jget d k" for k using namedDevice_obj [OF d] by simp
  have nf: "''name'' \<notin> set deviceFlags" "''collect_reason'' \<notin> set deviceFlags" by (simp_all add: deviceFlags_def)
  have name: "jget ?copy ''name'' = jget d ''name''"
    using nf by (simp add: defaultReason_props defaultFlags_props obj)
  moreover have "deviceOk ?copy"
    unfolding deviceOk_def
  proof (intro conjI)
    show "namedDevice ?copy" using d name by (simp add: namedDevice_def)
    show "list_all (\<lambda>f. isBool (jget ?copy f)) deviceFlags"
      using nf(2) by (auto simp: list_all_iff defaultReason_props defaultFlags_props)
  qed (auto simp: defaultReason_props)
  moreover have "fst (normalizeDevice st d) = fst st @ [?copy]"
    by (simp add: normalizeDevice_def Let_def split: prod.splits)
  ultimately show ?thesis by blast
qed

lemma normalizeDevices_props:
  "list_all namedDevice ds \<Longrightarrow> list_all deviceOk (fst st) \<Longrightarrow> list_all deviceOk (fst (foldl normalizeDevice st ds)) \<and>
     map nameOf (fst (foldl normalizeDevice st ds)) = map nameOf (fst st) @ map nameOf ds"
proof (induction ds arbitrary: st)
  case (Cons d ds)
  from normalizeDevice_props [of d st] Cons.prems obtain copy where
    c: "fst (normalizeDevice st d) = fst st @ [copy]" "deviceOk copy" "jget copy ''name'' = jget d ''name''" by auto
  then show ?case using Cons.IH [of "normalizeDevice st d"] Cons.prems by (simp add: nameOf_def)
qed simp

lemma readLimit_bounds: "1 \<le> deflt \<Longrightarrow> deflt \<le> most \<Longrightarrow> 1 \<le> fst (readLimit n most deflt f) \<and> fst (readLimit n most deflt f) \<le> most"
  by (cases n) (auto simp: readLimit_def)

lemma readNames_nonempty: "list_all (\<lambda>s. s \<noteq> []) (fst (readNames d n))"
  by (auto simp: readNames_def list_all_iff Let_def split: jval.splits)

text \<open>
  C40: Whatever the daemon answers, a scan either fails, exactly when the answer is no object
  with a device list, or delivers typed data: the named devices in their order, each with its
  seven flags as booleans and a reason, name lists without empty names, and limits in range.
\<close>

theorem normalizeSysdevices_typed:
  "case normalizeSysdevices d of
     Inl e \<Rightarrow> (if e = InvalidResponse then (\<nexists>ps. d = JObj ps) else \<not> isArr (jget d ''devices''))
   | Inr n \<Rightarrow> (\<exists>ps. d = JObj ps) \<and> isArr (jget d ''devices'') \<and> list_all deviceOk (sd_devices n) \<and>
       map nameOf (sd_devices n) = map nameOf (filter namedDevice (arrItems (jget d ''devices''))) \<and>
       map fst (sd_lists n) = sysLists \<and> list_all (\<lambda>(_, ns). list_all (\<lambda>s. s \<noteq> []) ns) (sd_lists n) \<and>
       1 \<le> sd_max_configured n \<and> sd_max_configured n \<le> of_nat MAX_INTERFACE_NAMES \<and>
       1 \<le> sd_max_name_length n \<and> sd_max_name_length n \<le> 255"
proof -
  have obj: "(\<exists>ps. d = JObj ps) \<longleftrightarrow> \<not> (\<not> truthy d \<or> \<not> typeofObject d \<or> isArr d)" by (cases d) auto
  let ?raw = "arrItems (jget d ''devices'')"
  have ds: "list_all deviceOk (fst (foldl normalizeDevice ([], droppedWarnings ?raw) (filter namedDevice ?raw))) \<and>
      map nameOf (fst (foldl normalizeDevice ([], droppedWarnings ?raw) (filter namedDevice ?raw))) =
        map nameOf (filter namedDevice ?raw)"
    using normalizeDevices_props [of "filter namedDevice ?raw" "([], droppedWarnings ?raw)"] by (simp add: list_all_iff)
  have lists: "list_all (\<lambda>(_, ns). list_all (\<lambda>s. s \<noteq> []) ns) (map (\<lambda>n. (n, fst (readNames d n))) sysLists)"
    by (simp add: list_all_iff readNames_nonempty [unfolded list_all_iff])
  have most: "1 \<le> fst (readLimit n (of_nat MAX_INTERFACE_NAMES) (of_nat MAX_INTERFACE_NAMES) f) \<and>
      fst (readLimit n (of_nat MAX_INTERFACE_NAMES) (of_nat MAX_INTERFACE_NAMES) f) \<le> of_nat MAX_INTERFACE_NAMES" for n f
    by (rule readLimit_bounds) (simp_all add: MAX_INTERFACE_NAMES_def)
  have len: "1 \<le> fst (readLimit n 255 31 f) \<and> fst (readLimit n 255 31 f) \<le> 255" for n f
    by (rule readLimit_bounds) simp_all
  show ?thesis
    unfolding normalizeSysdevices_def
    using obj ds lists most len by (auto simp: Let_def case_prod_beta o_def)
qed

section \<open>Runs of the section\<close>

text \<open>\<open>resetAllSettings\<close> of \<open>configForm.js\<close> puts the configured lists back and drops the edits.\<close>

definition resetInterfaces :: "jval \<Rightarrow> iface_view \<Rightarrow> iface_view" where
  "resetInterfaces original v = v\<lparr>ifaceOriginal := original, ifcfgDirty := False, orphanRemovals := []\<rparr>"

definition ifaceInit :: "jval \<Rightarrow> iface_view" where
  "ifaceInit original = \<lparr>sysdevices = None, ifaceOriginal = original, ifcfgState = None, ifcfgLimits = None,
     ifcfgWarnings = [], ifcfgDirty = False, ifcfgLoading = False, ifcfgVerifying = False, ifcfgPending = False,
     ifcfgLoaded = False, configSaving = False, ifcfgErrors = None, ifcfgError = None,
     interfaceStatus = (''loading'', noText), orphanRemovals = [], requestToken = 0, scans = [], waiting = [],
     formMarked = False, ifcfgRows = [], ifcfgButtons = [], ifcfgOrphans = [], ifcfgSummary = (0, 0, 0),
     ifcfgLimit = (0, 0, ''ready''), ifcfgHint = ''empty'', reloadDisabled = False\<rparr>"

datatype iface_event = Choose string string | Remove string string | Load | Verify jval | Answer nat answer
  | Busy bool | Saved save_plan | Reset jval

fun ifaceStep :: "(string \<Rightarrow> string \<Rightarrow> int) \<Rightarrow> iface_event \<Rightarrow> iface_view \<Rightarrow> iface_view" where
  "ifaceStep collate (Choose name mode) v = fst (markSelection collate name mode v)"
| "ifaceStep collate (Remove opt name) v = fst (removeOrphan collate opt name v)"
| "ifaceStep collate Load v = loadIfaceConfig v"
| "ifaceStep collate (Verify expected) v = verify expected v"
| "ifaceStep collate (Answer token a) v = onAnswer collate token a v"
| "ifaceStep collate (Busy b) v = setBusy b v"
| "ifaceStep collate (Saved plan) v = markSaved plan v"
| "ifaceStep collate (Reset original) v = resetInterfaces original v"

inductive iface_run :: "(string \<Rightarrow> string \<Rightarrow> int) \<Rightarrow> iface_view \<Rightarrow> bool" for collate where
  start: "iface_run collate (ifaceInit original)"
| step: "iface_run collate v \<Longrightarrow> iface_run collate (ifaceStep collate e v)"

text \<open>One scan at most, with the current token; no scan while there are edits; nothing to click while busy.\<close>

definition scanInv :: "iface_view \<Rightarrow> bool" where
  "scanInv v \<longleftrightarrow> (if ifcfgLoading v then (\<exists>k. scans v = [(requestToken v, k)] \<and> (ifcfgVerifying v \<longleftrightarrow> k \<noteq> Loading)) \<and> \<not> ifcfgDirty v
     else scans v = [] \<and> waiting v = [] \<and> \<not> ifcfgVerifying v) \<and> ifcfgPending v = ifcfgLoading v"

definition clickInv :: "iface_view \<Rightarrow> bool" where
  "clickInv v \<longleftrightarrow> (configSaving v \<or> ifcfgLoading v \<longrightarrow>
     reloadDisabled v \<and> list_all btnDisabled (ifcfgButtons v) \<and> list_all orpDisabled (ifcfgOrphans v))"

lemma scan_fields [simp]:
  "scans (updateScanDisabled v) = scans v" "requestToken (updateScanDisabled v) = requestToken v"
  "ifcfgLoading (updateScanDisabled v) = ifcfgLoading v" "ifcfgVerifying (updateScanDisabled v) = ifcfgVerifying v"
  "ifcfgDirty (updateScanDisabled v) = ifcfgDirty v" "waiting (updateScanDisabled v) = waiting v"
  "ifcfgPending (updateScanDisabled v) = ifcfgPending v" "configSaving (updateScanDisabled v) = configSaving v"
  by (simp_all add: updateScanDisabled_def Let_def)

lemma render_fields [simp]:
  "scans (renderIfaceConfig c v) = scans v" "requestToken (renderIfaceConfig c v) = requestToken v"
  "ifcfgLoading (renderIfaceConfig c v) = ifcfgLoading v" "ifcfgVerifying (renderIfaceConfig c v) = ifcfgVerifying v"
  "ifcfgDirty (renderIfaceConfig c v) = ifcfgDirty v" "waiting (renderIfaceConfig c v) = waiting v"
  "ifcfgPending (renderIfaceConfig c v) = ifcfgPending v" "configSaving (renderIfaceConfig c v) = configSaving v"
  by (simp_all add: renderIfaceConfig_def renderOrphans_def ensureModes_def Let_def split: option.splits)

lemma scanInv_cong:
  "scans v = scans u \<Longrightarrow> requestToken v = requestToken u \<Longrightarrow> ifcfgLoading v = ifcfgLoading u \<Longrightarrow>
   ifcfgVerifying v = ifcfgVerifying u \<Longrightarrow> waiting v = waiting u \<Longrightarrow> ifcfgPending v = ifcfgPending u \<Longrightarrow>
   (ifcfgDirty v \<longrightarrow> ifcfgDirty u \<or> \<not> ifcfgLoading u) \<Longrightarrow> scanInv u \<Longrightarrow> scanInv v"
  by (auto simp: scanInv_def split: if_splits)

lemma clickInv_update [simp]: "clickInv (updateScanDisabled v)"
  by (auto simp: clickInv_def updateScanDisabled_def Let_def list_all_iff)

lemma clickInv_render [simp]: "clickInv (renderIfaceConfig c v)"
  unfolding renderIfaceConfig_def Let_def by (rule clickInv_update)

lemma clickInv_cong:
  "configSaving v = configSaving u \<Longrightarrow> ifcfgLoading v = ifcfgLoading u \<Longrightarrow> reloadDisabled v = reloadDisabled u \<Longrightarrow>
   ifcfgButtons v = ifcfgButtons u \<Longrightarrow> ifcfgOrphans v = ifcfgOrphans u \<Longrightarrow> clickInv u \<Longrightarrow> clickInv v"
  by (simp add: clickInv_def)

lemma markSelection_inv:
  assumes "scanInv v" "clickInv v"
  shows "scanInv (fst (markSelection c n m v)) \<and> clickInv (fst (markSelection c n m v))"
  using assms
  by (auto simp: markSelection_def refuse_def setInterfaceStatus_def split: option.splits
      intro: scanInv_cong [of _ v] clickInv_cong [of _ v])

lemma removeOrphan_inv:
  assumes "scanInv v" "clickInv v"
  shows "scanInv (fst (removeOrphan c n m v)) \<and> clickInv (fst (removeOrphan c n m v))"
  using assms by (auto simp: removeOrphan_def intro: scanInv_cong [of _ v])

lemma load_inv: "scanInv v \<Longrightarrow> clickInv v \<Longrightarrow> scanInv (loadIfaceConfig v) \<and> clickInv (loadIfaceConfig v)"
  by (auto simp: loadIfaceConfig_def Let_def setInterfaceStatus_def scanInv_def clickInv_def updateScanDisabled_def
      list_all_iff split: if_splits)

lemma verify_inv: "scanInv v \<Longrightarrow> clickInv v \<Longrightarrow> scanInv (verify e v) \<and> clickInv (verify e v)"
  by (auto simp: verify_def Let_def setInterfaceStatus_def scanInv_def clickInv_def updateScanDisabled_def
      list_all_iff split: if_splits)

lemma verifies_inv: "scanInv v \<Longrightarrow> clickInv v \<Longrightarrow>
    scanInv (foldl (\<lambda>u e. verify e u) v es) \<and> clickInv (foldl (\<lambda>u e. verify e u) v es)"
  by (induction es arbitrary: v) (simp_all add: verify_inv)

lemma settle_fields [simp]:
  "scans (settle c k a v) = scans v" "requestToken (settle c k a v) = requestToken v"
  "waiting (settle c k a v) = waiting v" "ifcfgVerifying (settle c k a v) = ifcfgVerifying v"
  by (simp_all add: settle_def loadDone_def loadFailed_def verifyDone_def verifyFailed_def setInterfaceStatus_def Let_def
      split: scan.splits sum.splits)

lemma onAnswer_inv:
  assumes "scanInv v" "clickInv v"
  shows "scanInv (onAnswer c t a v) \<and> clickInv (onAnswer c t a v)"
proof (cases "map_of (scans v) t")
  case None
  then show ?thesis using assms by (simp add: onAnswer_def)
next
  case (Some k)
  with assms(1) have t: "t = requestToken v" "scans v = [(t, k)]" and k: "ifcfgVerifying v \<longleftrightarrow> k \<noteq> Loading"
    by (auto simp: scanInv_def split: if_splits)
  let ?u = "scanEnd k (settle c k a (v\<lparr>scans := [], waiting := []\<rparr>))"
  have "scanInv ?u" using k by (cases k) (simp_all add: scanEnd_def scanInv_def)
  moreover have "clickInv ?u" by (simp add: scanEnd_def)
  ultimately show ?thesis using verifies_inv t by (simp add: onAnswer_def)
qed

lemma saved_inv: "scanInv v \<Longrightarrow> scanInv (markSaved p v) \<and> clickInv (markSaved p v)"
  by (auto simp: markSaved_def split: option.splits intro: scanInv_cong [of _ v])

lemma busy_inv: "scanInv v \<Longrightarrow> scanInv (setBusy b v) \<and> clickInv (setBusy b v)"
  by (auto simp: setBusy_def intro: scanInv_cong [of _ v])

lemma reset_inv: "scanInv v \<Longrightarrow> clickInv v \<Longrightarrow> scanInv (resetInterfaces w v) \<and> clickInv (resetInterfaces w v)"
  by (auto simp: resetInterfaces_def intro: scanInv_cong [of _ v] clickInv_cong [of _ v])

lemma iface_run_inv: "iface_run c v \<Longrightarrow> scanInv v \<and> clickInv v"
proof (induction rule: iface_run.induct)
  case (start original)
  show ?case by (simp add: ifaceInit_def scanInv_def clickInv_def)
next
  case (step v e)
  then show ?case
    by (cases e) (simp_all add: markSelection_inv removeOrphan_inv load_inv verify_inv onAnswer_inv saved_inv busy_inv reset_inv)
qed

text \<open>
  C38: however choices, removals, scans, verifications, answers, saves and resets interleave, at
  most one scan is in flight, its token is the current one (so no answer is ever discarded as
  stale), no scan runs while there are unsaved edits, and while the page saves or scans every
  button of the section is disabled.
\<close>

theorem iface_run_invariant:
  assumes "iface_run collate v"
  shows "(if ifcfgLoading v then map fst (scans v) = [requestToken v] \<and> \<not> ifcfgDirty v else scans v = []) \<and>
    (if configSaving v \<or> ifcfgLoading v then reloadDisabled v \<and> list_all btnDisabled (ifcfgButtons v) \<and>
       list_all orpDisabled (ifcfgOrphans v) else True)"
  using iface_run_inv [OF assms] by (auto simp: scanInv_def clickInv_def)

theorem iface_run_invariant_witness:
  "ifcfgLoading (ifaceStep (\<lambda>_ _. 0) Load (ifaceInit JNull)) \<and>
   map fst (scans (ifaceStep (\<lambda>_ _. 0) Load (ifaceInit JNull))) = [1]"
proof -
  let ?v = "ifaceStep (\<lambda>_ _. 0) Load (ifaceInit JNull)"
  have "iface_run (\<lambda>_ _. 0) ?v" by (intro iface_run.intros)
  from iface_run_invariant [OF this] show ?thesis
    by (simp add: loadIfaceConfig_def ifaceInit_def setInterfaceStatus_def updateScanDisabled_def Let_def)
qed

text \<open>
  C37: unsaved edits survive everything the daemon or the scan button does: in every reachable
  state with edits, starting a scan or a verification and any answer leave the chosen modes,
  the removals and the scanned devices as they are, and the edits unsaved.
\<close>

theorem unsaved_edits_kept:
  assumes run: "iface_run collate v" and dirty: "ifcfgDirty v"
    and e: "e = Load \<or> (\<exists>x. e = Verify x) \<or> (\<exists>t a. e = Answer t a)"
  shows "ifcfgState (ifaceStep collate e v) = ifcfgState v \<and> orphanRemovals (ifaceStep collate e v) = orphanRemovals v \<and>
    sysdevices (ifaceStep collate e v) = sysdevices v \<and> ifcfgDirty (ifaceStep collate e v)"
proof -
  have "scans v = []" using iface_run_inv [OF run] dirty by (auto simp: scanInv_def split: if_splits)
  then show ?thesis using e dirty
    by (auto simp: loadIfaceConfig_def verify_def onAnswer_def setInterfaceStatus_def)
qed

definition sampleScan :: "string list \<Rightarrow> jval" where
  "sampleScan names = JObj [(''devices'', JArr (map (\<lambda>n. JObj [(''name'', JStr n), (''collect_allowed'', JBool True)]) names))]"

definition sampleView :: iface_view where
  "sampleView = foldl (\<lambda>v e. ifaceStep (\<lambda>_ _. 0) e v) (ifaceInit (JObj [(''interface_include'', JArr [JStr ''eth2''])]))
     [Load, Answer 1 (Data (sampleScan [''br-lan'', ''tun0''])), Choose ''br-lan'' ''collect'']"

lemma sampleView_run: "iface_run (\<lambda>_ _. 0) sampleView"
  unfolding sampleView_def foldl.simps by (intro iface_run.intros)

lemma sampleView_value:
  "(ifcfgDirty sampleView, map_of (modesOf sampleView) ''br-lan'', selected ''collect'' sampleView,
    planChanged (prepareIfaceSave sampleView), planDesired (prepareIfaceSave sampleView)) =
   (True, Some ''collect'', [''br-lan''], True, Some [(''ifname'', []), (''interface_include'', [''eth2'', ''br-lan'']),
     (''interface_exclude'', []), (''observe'', [])])"
  by code_simp

theorem unsaved_edits_kept_witness:
  "map_of (modesOf (ifaceStep (\<lambda>_ _. 0) (Answer 1 (Data (sampleScan [''lan1'']))) sampleView)) ''br-lan'' = Some ''collect''"
proof -
  let ?e = "Answer 1 (Data (sampleScan [''lan1'']))"
  show ?thesis using unsaved_edits_kept [OF sampleView_run, of ?e] sampleView_value by (simp add: modesOf_def)
qed

section \<open>The save plan\<close>

lemma inj_map_code: "inj (map code)"
  by (intro inj_mapI injI) (simp add: code_inject)

lemma set_uniqueNames: "set (uniqueNames xs) = ifText ` set xs - insert [] (set protoKeys)"
  by (simp add: uniqueNames_def set_firstsFrom)

lemma distinct_uniqueNames [simp]: "distinct (uniqueNames xs)"
  by (simp add: uniqueNames_def distinct_firstsFrom)

lemma ifText_JStr [simp]: "ifText (JStr s) = s"
  by (simp add: ifText_def nullish_def)

text \<open>Comparing the sorted lists decides whether the sets of names are equal.\<close>

lemma sameNames_iff: "sameNames left right \<longleftrightarrow> set (uniqueNames left) = set (uniqueNames right)"
proof -
  let ?l = "uniqueNames left" and ?r = "uniqueNames right"
  have "sameNames left right \<longleftrightarrow> sort_key (map code) ?l = sort_key (map code) ?r"
    by (auto simp: sameNames_def Let_def list.rel_eq dest: arg_cong [where f = length])
  also have "\<dots> \<longleftrightarrow> mset ?l = mset ?r"
  proof
    assume "mset ?l = mset ?r"
    then show "sort_key (map code) ?l = sort_key (map code) ?r"
      by (intro sort_key_inj_key_eq) (auto intro: inj_on_subset [OF inj_map_code])
  qed (metis mset_sort)
  also have "\<dots> \<longleftrightarrow> set ?l = set ?r" by (rule set_eq_iff_mset_eq_distinct [symmetric]) simp_all
  finally show ?thesis .
qed

text \<open>The configured names of an option, as the file has them.\<close>

definition configuredNames :: "iface_view \<Rightarrow> string \<Rightarrow> string set" where
  "configuredNames v opt = toStr ` {x \<in> set (originalList v opt). \<not> nullish x} - {[]}"

text \<open>The configured names that no visible device has and that the user did not remove.\<close>

definition keptOrphans :: "iface_view \<Rightarrow> string \<Rightarrow> string set" where
  "keptOrphans v opt = {n \<in> configuredNames v opt. \<not> isVisible v n \<and> orphanKey opt n \<notin> set (orphanRemovals v)}"

lemma set_selected: "set (selected mode v) \<inter> insert [] (set protoKeys) = {}"
  by (auto simp: selected_def set_uniqueNames)

lemma set_keptNames:
  assumes "opt \<noteq> ''interface_exclude''"
  shows "ifText ` set (keptNames v opt) - insert [] (set protoKeys) = keptOrphans v opt"
  using assms
  by (auto simp: keptNames_def keptOrphans_def configuredNames_def ifText_def isVisible_def image_iff split: if_splits)

lemma set_keptExcluded:
  "ifText ` set (keptNames v ''interface_exclude'') - insert [] (set protoKeys) =
    {n \<in> configuredNames v ''interface_exclude''. n \<notin> set protoKeys \<and>
      orphanKey ''interface_exclude'' n \<notin> set (orphanRemovals v)}"
  by (auto simp: keptNames_def configuredNames_def ifText_def image_iff split: if_splits)

lemma set_desiredList:
  "set (desiredList v opt) = (ifText ` set (keptNames v opt) - insert [] (set protoKeys)) \<union>
     (if takesAttach v opt then set (selected ''collect'' v) else {}) \<union>
     (if opt = ''observe'' then set (selected ''observe'' v) else {})"
  using set_selected [of "''collect''" v] set_selected [of "''observe''" v]
  by (auto simp: desiredList_def set_uniqueNames image_Un image_image)

lemma takesAttach_options: "takesAttach v opt \<Longrightarrow> opt = ''ifname'' \<or> opt = ''interface_include''"
  by (auto simp: takesAttach_def split: if_splits)

lemma takesAttach_some: "takesAttach v ''ifname'' \<or> takesAttach v ''interface_include''"
  by (auto simp: takesAttach_def)

lemma collectErrors_fold:
  "foldl (\<lambda>e name. case deviceByName v name of None \<Rightarrow> e
     | Some d \<Rightarrow> if \<not> collectAllowed d \<and> e = None then Some (collectReason d) else e) e0 ns = None \<longleftrightarrow>
   e0 = None \<and> (\<forall>n \<in> set ns. \<forall>d. deviceByName v n = Some d \<longrightarrow> collectAllowed d)"
  by (induction ns arbitrary: e0) (auto split: option.splits)

lemma collectErrors_None:
  "collectErrors v = None \<longleftrightarrow> of_nat (length (selected ''collect'' v)) \<le> maxConfigured v \<and>
     (\<forall>n \<in> set (selected ''collect'' v). \<forall>d. deviceByName v n = Some d \<longrightarrow> collectAllowed d)"
  unfolding collectErrors_def Let_def collectErrors_fold by (simp add: not_less)

lemma plan_desired:
  assumes "planDesired (prepareIfaceSave v) = Some desired"
  shows "desired = map (\<lambda>opt. (opt, desiredList v opt)) ifaceLists"
    and "ifcfgLoaded v" "sysdevices v \<noteq> None" "ifcfgState v \<noteq> None" "ifcfgDirty v"
  using assms by (auto simp: prepareIfaceSave_def Let_def split: if_splits)

lemma map_of_desired: "opt \<in> set ifaceLists \<Longrightarrow>
    map_of (map (\<lambda>opt. (opt, desiredList v opt)) ifaceLists) opt = Some (desiredList v opt)"
  by (simp add: map_of_map_restrict)

text \<open>
  C12: what a save writes. When the plan changes something, the collected names of the file
  become exactly the names chosen for collecting and the configured names of devices that are
  not visible and were not removed, likewise for the observed names; excluded names only go by
  removal; the number of chosen names is within the limit and each of their devices that is
  visible allows collecting.
\<close>

theorem save_plan_correct:
  assumes changed: "planChanged (prepareIfaceSave v)" and d: "planDesired (prepareIfaceSave v) = Some desired"
  shows "map fst desired = ifaceLists \<and>
    set (the (map_of desired ''ifname'')) \<union> set (the (map_of desired ''interface_include'')) =
      set (selected ''collect'' v) \<union> keptOrphans v ''ifname'' \<union> keptOrphans v ''interface_include'' \<and>
    set (the (map_of desired ''observe'')) = set (selected ''observe'' v) \<union> keptOrphans v ''observe'' \<and>
    set (the (map_of desired ''interface_exclude'')) = {n \<in> configuredNames v ''interface_exclude''. n \<notin> set protoKeys \<and>
      orphanKey ''interface_exclude'' n \<notin> set (orphanRemovals v)} \<and>
    of_nat (length (selected ''collect'' v)) \<le> maxConfigured v \<and>
    (\<forall>n \<in> set (selected ''collect'' v). \<forall>d. deviceByName v n = Some d \<longrightarrow> collectAllowed d)"
proof -
  have desired: "desired = map (\<lambda>opt. (opt, desiredList v opt)) ifaceLists" by (rule plan_desired [OF d])
  have "collectErrors v = None" using changed by (auto simp: prepareIfaceSave_def Let_def split: if_splits)
  then have e: "of_nat (length (selected ''collect'' v)) \<le> maxConfigured v"
      "\<forall>n \<in> set (selected ''collect'' v). \<forall>d. deviceByName v n = Some d \<longrightarrow> collectAllowed d"
    by (simp_all add: collectErrors_None)
  have D: "set (the (map_of desired opt)) = set (desiredList v opt)" if "opt \<in> set ifaceLists" for opt
    using map_of_desired [OF that] by (simp add: desired)
  have opts: "''ifname'' \<in> set ifaceLists" "''interface_include'' \<in> set ifaceLists" "''observe'' \<in> set ifaceLists"
      "''interface_exclude'' \<in> set ifaceLists" by (simp_all add: ifaceLists_def)
  have no: "\<not> takesAttach v ''observe''" "\<not> takesAttach v ''interface_exclude''" by (auto dest: takesAttach_options)
  have "set (desiredList v ''ifname'') \<union> set (desiredList v ''interface_include'') =
      set (selected ''collect'' v) \<union> keptOrphans v ''ifname'' \<union> keptOrphans v ''interface_include''"
    using takesAttach_some [of v] by (auto simp: set_desiredList set_keptNames)
  moreover have "set (desiredList v ''observe'') = set (selected ''observe'' v) \<union> keptOrphans v ''observe''"
    by (auto simp: set_desiredList set_keptNames no)
  moreover have "set (desiredList v ''interface_exclude'') = {n \<in> configuredNames v ''interface_exclude''. n \<notin> set protoKeys \<and>
      orphanKey ''interface_exclude'' n \<notin> set (orphanRemovals v)}"
    by (simp add: set_desiredList set_keptExcluded no)
  moreover have "map fst desired = ifaceLists" by (simp add: desired o_def)
  ultimately show ?thesis using e by (simp only: D [OF opts(1)] D [OF opts(2)] D [OF opts(3)] D [OF opts(4)])
qed

theorem save_plan_correct_witness:
  "{''eth2'', ''br-lan''} = set (selected ''collect'' sampleView) \<union> keptOrphans sampleView ''ifname'' \<union>
     keptOrphans sampleView ''interface_include''"
  using save_plan_correct [of sampleView] sampleView_value by (simp add: insert_commute)

text \<open>After a save the configured lists are the planned ones.\<close>

lemma markSaved_original:
  assumes "planDesired p = Some (map (\<lambda>opt. (opt, desiredList v opt)) ifaceLists)" and opt: "opt \<in> set ifaceLists"
  shows "originalList (markSaved p v) opt = map JStr (desiredList v opt)"
    and "originalPresent (markSaved p v) opt \<longleftrightarrow> desiredList v opt \<noteq> []"
proof -
  let ?orig = "JObj (map (\<lambda>opt. (opt, JArr (map JStr (desiredList v opt)))) ifaceLists @
    [(''present'', JObj (map (\<lambda>opt. (opt, JBool (desiredList v opt \<noteq> []))) ifaceLists))])"
  have "ifaceOriginal (markSaved p v) = ?orig"
    using assms(1) by (simp add: markSaved_def updateScanDisabled_def Let_def o_def case_prod_beta)
  moreover have "jget ?orig opt = JArr (map JStr (desiredList v opt))"
    using opt by (auto simp: jget.simps ifaceLists_def)
  moreover have "jget ?orig ''present'' = JObj (map (\<lambda>opt. (opt, JBool (desiredList v opt \<noteq> []))) ifaceLists)"
    by (simp add: jget.simps ifaceLists_def)
  moreover have "jget (JObj (map (\<lambda>opt. (opt, JBool (desiredList v opt \<noteq> []))) ifaceLists)) opt = JBool (desiredList v opt \<noteq> [])"
    using opt by (auto simp: jget.simps ifaceLists_def)
  ultimately show "originalList (markSaved p v) opt = map JStr (desiredList v opt)"
    "originalPresent (markSaved p v) opt \<longleftrightarrow> desiredList v opt \<noteq> []"
    by (simp_all add: originalList_def originalPresent_def jor_def cloneList_def)
qed

lemma saved_takesAttach:
  assumes p: "planDesired p = Some (map (\<lambda>opt. (opt, desiredList v opt)) ifaceLists)" and ne: "selected ''collect'' v \<noteq> []"
  shows "takesAttach (markSaved p v) opt = takesAttach v opt"
proof -
  have inF: "inFile (markSaved p v) opt \<longleftrightarrow> desiredList v opt \<noteq> []" if "opt \<in> set ifaceLists" for opt
    using markSaved_original [OF p that] by (simp add: inFile_def)
  have opts: "''ifname'' \<in> set ifaceLists" "''interface_include'' \<in> set ifaceLists" by (simp_all add: ifaceLists_def)
  have full: "desiredList v opt \<noteq> []" if "takesAttach v opt" for opt
    using set_desiredList [of v opt] that ne by (cases "desiredList v opt") auto
  have none: "desiredList v opt = []" if "\<not> inFile v opt" "\<not> takesAttach v opt" "opt \<noteq> ''observe''" for opt
    using set_desiredList [of v opt] that by (auto simp: inFile_def keptNames_def)
  show ?thesis
    using full [of "''ifname''"] full [of "''interface_include''"] none [of "''ifname''"] none [of "''interface_include''"]
    unfolding takesAttach_def inF [OF opts(1)] inF [OF opts(2)] by auto
qed

text \<open>
  A save reaches a fixed point: right after the plan of a view was saved, planning again
  with the same choices finds nothing to change, whichever of the two collecting options the
  file has.
\<close>

theorem saved_plan_stable:
  assumes "planDesired (prepareIfaceSave v) = Some desired"
  shows "\<not> planChanged (prepareIfaceSave ((markSaved (prepareIfaceSave v) v)\<lparr>ifcfgDirty := True\<rparr>))"
proof -
  let ?p = "prepareIfaceSave v" and ?u = "markSaved (prepareIfaceSave v) v"
  have p: "planDesired ?p = Some (map (\<lambda>opt. (opt, desiredList v opt)) ifaceLists)"
    using plan_desired(1) [OF assms] assms by simp
  have same: "selected mode ?u = selected mode v" "isVisible ?u n = isVisible v n" "orphanRemovals ?u = []" for mode n
    by (simp_all add: markSaved_def updateScanDisabled_def Let_def selected_def modesOf_def isVisible_def split: option.splits)
  have "set (desiredList ?u opt) = set (desiredList v opt)" if opt: "opt \<in> set ifaceLists" for opt
  proof -
    have kept: "set (keptNames ?u opt) = JStr ` {n \<in> set (desiredList v opt). \<not> isVisible v n \<or> opt = ''interface_exclude''}"
      using markSaved_original(1) [OF p opt] by (auto simp: keptNames_def same)
    have names: "set (desiredList v opt) \<inter> insert [] (set protoKeys) = {}"
      by (auto simp: desiredList_def set_uniqueNames)
    have old: "n \<in> ifText ` set (keptNames v opt) - insert [] (set protoKeys) \<Longrightarrow> \<not> isVisible v n \<or> opt = ''interface_exclude''" for n
      using set_keptNames [of opt v] by (auto simp: keptOrphans_def)
    have attach: "selected ''collect'' v \<noteq> [] \<Longrightarrow> takesAttach ?u opt = takesAttach v opt" by (rule saved_takesAttach [OF p])
    have k: "ifText ` set (keptNames ?u opt) - insert [] (set protoKeys) =
        {n \<in> set (desiredList v opt). \<not> isVisible v n \<or> opt = ''interface_exclude''}"
      using names by (auto simp: kept image_image)
    show ?thesis
      unfolding set_desiredList [of ?u] k same
      using attach old by (cases "selected ''collect'' v = []") (auto simp: set_desiredList)
  qed
  then have "sameNames (map JStr (desiredList ?u opt)) (originalList ?u opt)" if "opt \<in> set ifaceLists" for opt
    using markSaved_original(1) [OF p that] that by (simp add: sameNames_iff set_uniqueNames image_image)
  moreover have "desiredList (?u\<lparr>ifcfgDirty := True\<rparr>) opt = desiredList ?u opt"
      "originalList (?u\<lparr>ifcfgDirty := True\<rparr>) opt = originalList ?u opt" for opt
    by (simp_all add: desiredList_def keptNames_def takesAttach_def inFile_def originalList_def originalPresent_def
        selected_def modesOf_def isVisible_def)
  ultimately show ?thesis by (auto simp: prepareIfaceSave_def Let_def list_ex_iff)
qed

theorem saved_plan_stable_witness:
  "planChanged (prepareIfaceSave sampleView) \<and>
   \<not> planChanged (prepareIfaceSave ((markSaved (prepareIfaceSave sampleView) sampleView)\<lparr>ifcfgDirty := True\<rparr>))"
  using saved_plan_stable [of sampleView] sampleView_value by simp

definition lostView :: iface_view where
  "lostView = foldl (\<lambda>v e. ifaceStep (\<lambda>_ _. 0) e v) (ifaceInit (JObj [(''interface_include'', JArr [JStr ''eth2''])]))
     [Load, Answer 1 (Data (sampleScan [''br-lan''])), Verify JUndef, Answer 2 (Data (sampleScan [''br-lan'', ''eth2''])),
      Choose ''br-lan'' ''observe'']"

text \<open>
  A device can be lost. A verification takes over the scanned devices but not their modes;
  a configured interface that appears between the scan of the page and the verification is then
  visible without a mode, and the next save, of any other interface, drops its name from the
  file.
\<close>

theorem verified_device_lost:
  "iface_run (\<lambda>_ _. 0) lostView \<and>
   (jget (ifaceOriginal lostView) ''interface_include'', modesOf lostView, planErrors (prepareIfaceSave lostView),
    planDesired (prepareIfaceSave lostView)) =
   (JArr [JStr ''eth2''], [(''br-lan'', ''observe'')], None, Some [(''ifname'', []), (''interface_include'', []),
     (''interface_exclude'', []), (''observe'', [''br-lan''])])"
proof
  show "iface_run (\<lambda>_ _. 0) lostView" unfolding lostView_def foldl.simps by (intro iface_run.intros)
qed code_simp

definition hiddenView :: iface_view where
  "hiddenView = foldl (\<lambda>v e. ifaceStep (\<lambda>_ _. 0) e v) (ifaceInit (JObj [(''interface_include'', JArr [JStr ''tun0''])]))
     [Load, Answer 1 (Data (sampleScan [''tun0'']))]"

text \<open>
  Removing a configured interface that the daemon reports but the page hides has no effect:
  the section offers to remove it, but its mode was set by the scan and puts the name back.
\<close>

theorem hidden_removal_ineffective:
  "iface_run (\<lambda>_ _. 0) hiddenView \<and>
   (map orpName (ifcfgOrphans hiddenView),
    prepareIfaceSave (fst (removeOrphan (\<lambda>_ _. 0) ''interface_include'' ''tun0'' hiddenView))) =
   ([''tun0''], \<lparr>planChanged = False, planDesired = Some [(''ifname'', []), (''interface_include'', [''tun0'']),
     (''interface_exclude'', []), (''observe'', [])], planErrors = None\<rparr>)"
proof
  show "iface_run (\<lambda>_ _. 0) hiddenView" unfolding hiddenView_def foldl.simps by (intro iface_run.intros)
qed code_simp

end
