(* ===== verification/Ipv6.thy ===== *)
theory Ipv6
  imports JsBase "HOL-Library.Word"
begin

text \<open>
  IPv6 addresses as the front end handles them: eight groups of sixteen bits. Three modules
  parse addresses on their own (\<open>configModel.js\<close>, \<open>statusIp.js\<close> and \<open>geoLocation.js\<close>); the
  interface \<open>ipv6_parser\<close> is what each of them promises its callers, and it is interpreted
  on each of the three.
\<close>

unbundle bit_operations_syntax

section \<open>The value of an address\<close>

fun addrValue :: "nat list \<Rightarrow> nat" where
  "addrValue [] = 0"
| "addrValue (w # ws) = w * 2 ^ (16 * length ws) + addrValue ws"

definition groupsOk :: "nat list \<Rightarrow> bool" where
  "groupsOk ws \<longleftrightarrow> list_all (\<lambda>w. w < 65536) ws"

text \<open>The first \<open>bits\<close> bits of two addresses of \<open>n\<close> groups agree.\<close>

definition samePrefix :: "nat \<Rightarrow> nat list \<Rightarrow> nat list \<Rightarrow> bool" where
  "samePrefix bits xs ys \<longleftrightarrow>
     addrValue xs div 2 ^ (16 * length xs - bits) = addrValue ys div 2 ^ (16 * length ys - bits)"

lemma addrValue_bound: "groupsOk ws \<Longrightarrow> addrValue ws < 2 ^ (16 * length ws)"
proof (induction ws)
  case (Cons w ws)
  then have "w < 65536" "addrValue ws < 2 ^ (16 * length ws)" by (simp_all add: groupsOk_def)
  then have "w * 2 ^ (16 * length ws) + addrValue ws < (w + 1) * 2 ^ (16 * length ws)" by simp
  also have "\<dots> \<le> 65536 * 2 ^ (16 * length ws)" using \<open>w < 65536\<close> by (intro mult_right_mono) auto
  also have "\<dots> = 2 ^ (16 * length (w # ws))" by (simp add: power_add)
  finally show ?case by simp
qed simp

lemma groupsOk_parts [simp]: "groupsOk []" "groupsOk (xs @ ys) \<longleftrightarrow> groupsOk xs \<and> groupsOk ys" "groupsOk (replicate n 0)"
  by (auto simp: groupsOk_def list_all_iff)

lemma samePrefix_none [simp]: "groupsOk xs \<Longrightarrow> groupsOk ys \<Longrightarrow> samePrefix 0 xs ys"
  by (simp add: samePrefix_def addrValue_bound)

lemma quotient_split:
  fixes a b x y m :: nat
  assumes "b < m" "y < m"
  shows "a * m + b = x * m + y \<longleftrightarrow> a = x \<and> b = y"
proof
  assume *: "a * m + b = x * m + y"
  have "a = (a * m + b) div m" "x = (x * m + y) div m" "b = (a * m + b) mod m" "y = (x * m + y) mod m"
    using assms by simp_all
  then show "a = x \<and> b = y" using * by metis
qed simp

lemma samePrefix_group:
  assumes "length xs = length ys" "groupsOk xs" "groupsOk ys" "16 \<le> bits" "bits \<le> 16 * Suc (length xs)"
  shows "samePrefix bits (w # xs) (v # ys) \<longleftrightarrow> w = v \<and> samePrefix (bits - 16) xs ys"
proof -
  let ?n = "16 * length xs" and ?d = "(2 :: nat) ^ (16 * length xs - (bits - 16))" and ?m = "(2 :: nat) ^ (bits - 16)"
  have pow: "2 ^ ?n = ?m * ?d" using assms(5) by (simp flip: power_add)
  have exp: "16 * length (w # xs) - bits = ?n - (bits - 16)" using assms(4) by simp
  have quot: "(a * 2 ^ ?n + r) div ?d = a * ?m + r div ?d" for a r :: nat
  proof -
    have "a * 2 ^ ?n + r = r + (a * ?m) * ?d" by (simp add: pow)
    then show ?thesis by (simp only: div_mult_self1 [OF power_not_zero, OF zero_neq_numeral [symmetric]] add.commute)
  qed
  have small: "r div ?d < ?m" if "r < 2 ^ ?n" for r :: nat
    using that by (simp add: pow less_mult_imp_div_less)
  have "samePrefix bits (w # xs) (v # ys) \<longleftrightarrow>
      w * ?m + addrValue xs div ?d = v * ?m + addrValue ys div ?d"
    unfolding samePrefix_def using exp assms(1) quot by simp
  also have "\<dots> \<longleftrightarrow> w = v \<and> addrValue xs div ?d = addrValue ys div ?d"
    by (rule quotient_split [OF small small]) (use addrValue_bound [OF assms(2)] addrValue_bound [OF assms(3)] assms(1) in auto)
  finally show ?thesis by (simp add: samePrefix_def assms(1))
qed

lemma samePrefix_partial:
  assumes "length xs = length ys" "groupsOk xs" "groupsOk ys" "bits < 16"
  shows "samePrefix bits (w # xs) (v # ys) \<longleftrightarrow> w div 2 ^ (16 - bits) = v div 2 ^ (16 - bits)"
proof -
  have exp: "16 * length (w # xs) - bits = 16 * length xs + (16 - bits)" using assms(4) by simp
  have "(a * 2 ^ (16 * length zs) + addrValue zs) div 2 ^ (16 * length zs + (16 - bits)) = a div 2 ^ (16 - bits)"
    if "groupsOk zs" for a zs
    using addrValue_bound [OF that] by (simp add: power_add div_mult2_eq)
  from this [OF assms(2), of w] this [OF assms(3), of v] show ?thesis
    unfolding samePrefix_def addrValue.simps exp using exp by (simp add: assms(1))
qed

section \<open>Comparison under a mask\<close>

text \<open>
  The bitwise operators of the language work on 32-bit integers. The mask
  \<open>(0xffff << (16 - remaining)) & 0xffff\<close> selects the leading bits of a group.
\<close>

definition groupMask :: "nat \<Rightarrow> 32 word" where
  "groupMask remaining = (push_bit (16 - remaining) 0xffff) AND 0xffff"

lemma bit_0xffff: "bit (0xffff :: 32 word) i \<longleftrightarrow> i < 16"
proof -
  have "(0xffff :: 32 word) = mask 16" by (simp add: mask_eq_exp_minus_1)
  then show ?thesis unfolding \<open>0xffff = mask 16\<close> bit_mask_iff by auto
qed

lemma bit_groupMask: "remaining \<le> 16 \<Longrightarrow> bit (groupMask remaining) i \<longleftrightarrow> 16 - remaining \<le> i \<and> i < 16"
  unfolding groupMask_def bit_and_iff bit_push_bit_iff bit_0xffff by auto

lemma groupMask_compare:
  assumes "w < 65536" "v < 65536" "remaining \<le> 16"
  shows "(word_of_nat w :: 32 word) AND groupMask remaining = word_of_nat v AND groupMask remaining \<longleftrightarrow>
    w div 2 ^ (16 - remaining) = v div 2 ^ (16 - remaining)"
proof -
  have high: "\<not> bit u i" if "u < 65536" "16 \<le> i" for u i :: nat
  proof -
    have "(65536 :: nat) \<le> 2 ^ i" using power_increasing [OF that(2), of "2 :: nat"] by simp
    then show ?thesis using that(1) by (simp add: bit_iff_odd)
  qed
  have "(word_of_nat w :: 32 word) AND groupMask remaining = word_of_nat v AND groupMask remaining \<longleftrightarrow>
      (\<forall>i. 16 - remaining \<le> i \<longrightarrow> i < 16 \<longrightarrow> bit w i = bit v i)"
  proof -
    have "bit ((word_of_nat u :: 32 word) AND groupMask remaining) i \<longleftrightarrow> 16 - remaining \<le> i \<and> i < 16 \<and> bit u i" for u i
      using assms(3) by (auto simp: bit_and_iff bit_groupMask bit_of_nat_iff)
    then have "(word_of_nat w :: 32 word) AND groupMask remaining = word_of_nat v AND groupMask remaining \<longleftrightarrow>
        (\<forall>i. i < 32 \<longrightarrow> (16 - remaining \<le> i \<and> i < 16 \<and> bit w i) = (16 - remaining \<le> i \<and> i < 16 \<and> bit v i))"
      unfolding bit_eq_iff by simp
    moreover have "i < 16 \<Longrightarrow> i < 32" for i :: nat by simp
    ultimately show ?thesis by blast
  qed
  also have "\<dots> \<longleftrightarrow> drop_bit (16 - remaining) w = drop_bit (16 - remaining) v"
  proof
    assume *: "\<forall>i. 16 - remaining \<le> i \<longrightarrow> i < 16 \<longrightarrow> bit w i = bit v i"
    show "drop_bit (16 - remaining) w = drop_bit (16 - remaining) v"
    proof (rule bit_eqI)
      fix n
      show "bit (drop_bit (16 - remaining) w) n = bit (drop_bit (16 - remaining) v) n"
        using * high [OF assms(1)] high [OF assms(2)] by (cases "16 - remaining + n < 16") (auto simp: bit_simps)
    qed
  next
    assume "drop_bit (16 - remaining) w = drop_bit (16 - remaining) v"
    then have "bit (drop_bit (16 - remaining) w) n = bit (drop_bit (16 - remaining) v) n" for n by simp
    then show "\<forall>i. 16 - remaining \<le> i \<longrightarrow> i < 16 \<longrightarrow> bit w i = bit v i"
      by (metis bit_drop_bit_eq comp_apply le_add_diff_inverse)
  qed
  finally show ?thesis by (simp add: drop_bit_eq_div)
qed

section \<open>The interface of the parsers\<close>

locale ipv6_parser =
  fixes parse :: "string \<Rightarrow> nat list option"
  assumes eight: "parse s = Some ws \<Longrightarrow> length ws = 8"
    and groups: "parse s = Some ws \<Longrightarrow> groupsOk ws"
begin

lemma value_bound: "parse s = Some ws \<Longrightarrow> addrValue ws < 2 ^ 128"
  using addrValue_bound [of ws] eight groups by fastforce

lemma prefix_refl: "parse s = Some ws \<Longrightarrow> samePrefix bits ws ws"
  by (simp add: samePrefix_def)

text \<open>Two addresses that agree on all 128 bits are the same eight groups.\<close>

lemma value_inject:
  assumes "parse s = Some xs" "parse t = Some ys"
  shows "addrValue xs = addrValue ys \<longleftrightarrow> xs = ys"
proof -
  have "length xs = length ys \<Longrightarrow> groupsOk xs \<Longrightarrow> groupsOk ys \<Longrightarrow> addrValue xs = addrValue ys \<Longrightarrow> xs = ys" for xs ys
  proof (induction xs ys rule: list_induct2)
    case (Cons x xs y ys)
    then show ?case
      using quotient_split [of "addrValue xs" "2 ^ (16 * length xs)" "addrValue ys" x y]
        addrValue_bound [of xs] addrValue_bound [of ys] by (auto simp: groupsOk_def)
  qed simp
  then show ?thesis using assms eight groups by metis
qed

end

section \<open>Groups of hexadecimal digits\<close>

lemma hexDigitVal_bound: "isHexLower c \<Longrightarrow> hexDigitVal c < 16"
  by (auto simp: isHexLower_def hexDigitVal_def isDigit_def)

lemma radixVal_bound:
  assumes "list_all isHexLower s"
  shows "radixVal 16 s < 16 ^ length s"
  using assms
proof (induction s rule: rev_induct)
  case (snoc c s)
  then have "radixVal 16 s < 16 ^ length s" "hexDigitVal c < 16" by (simp_all add: hexDigitVal_bound)
  then show ?case by (simp add: radixVal_def)
qed (simp add: radixVal_def)

lemma radixVal_group:
  assumes "list_all isHexLower g" "length g \<le> 4"
  shows "radixVal 16 g < 65536"
proof -
  have "radixVal 16 g < 16 ^ length g" by (rule radixVal_bound [OF assms(1)])
  also have "\<dots> \<le> 16 ^ 4" using assms(2) by (intro power_increasing) auto
  finally show ?thesis by simp
qed

end
