(* ===== verification/StatusIp.thy ===== *)
theory StatusIp
  imports Ipv6 Format ConfigModel
begin

text \<open>
  \<open>lanspeed/statusIp.js\<close>: which addresses of a client the overview shows. An address is
  hidden when it lies in one of the configured IPv6 ranges; the comparison of the source
  works group by group with a mask and is proved equal to the comparison of the leading
  bits of the two 128-bit addresses.
\<close>

section \<open>Parsing\<close>

definition DEFAULT_HIDE_IPV6_RANGES :: string where
  "DEFAULT_HIDE_IPV6_RANGES = ''fc00::/7 fe80::/10''"

definition isIpv6Address :: "jval \<Rightarrow> bool" where
  "isIpv6Address ip = (CHR '':'' \<in> set (toStr (jor ip (JStr []))))"

text \<open>The zone after a percent sign and the brackets of a literal are dropped.\<close>

definition stripZone :: "string \<Rightarrow> string" where
  "stripZone s = takeWhile (\<lambda>c. c \<noteq> CHR ''%'') s"

definition stripBrackets :: "string \<Rightarrow> string" where
  "stripBrackets s = (if s \<noteq> [] \<and> hd s = CHR ''['' \<and> last s = CHR '']'' then butlast (tl s) else s)"

definition parseIpv6ToWords :: "jval \<Rightarrow> nat list option" where
  "parseIpv6ToWords ip = (let s = stripBrackets (stripZone (toLowerCase (toStr (jor ip (JStr []))))) in
     if s = [] \<or> CHR '':'' \<notin> set s then None
     else if CHR ''.'' \<in> set s then None
     else (let parts = splitDouble CHR '':'' s in
       if length parts > 2 then None
       else (let head = (if parts ! 0 \<noteq> [] then splitChar CHR '':'' (parts ! 0) else []);
                 tail = (if length parts = 2 \<and> parts ! 1 \<noteq> [] then splitChar CHR '':'' (parts ! 1) else []);
                 missing = (if length parts = 1 then 0 else 8 - int (length head) - int (length tail))
             in if missing < 0 then None
                else if \<not> list_all isHexGroup head \<or> \<not> list_all isHexGroup tail then None
                else (let words = map (radixVal 16) head @ replicate (nat missing) 0 @ map (radixVal 16) tail
                      in if length words = 8 then Some words else None))))"

record cidr =
  words :: "nat list"
  bits :: nat

text \<open>
  The prefix length is read by \<open>parseInt\<close>, so it is an integer or NaN; without a slash it
  is 128.
\<close>

definition parseIpv6Cidr :: "string \<Rightarrow> cidr option" where
  "parseIpv6Cidr rng = (let parts = splitChar CHR ''/'' (jtrim rng);
       n = (if length parts > 1 then parseInt10 (JStr (parts ! 1)) else Fin 128)
     in case (parseIpv6ToWords (JStr (parts ! 0)), n) of
          (Some ws, Fin q) \<Rightarrow> if q < 0 \<or> q > 128 then None else Some \<lparr>words = ws, bits = nat \<lfloor>q\<rfloor>\<rparr>
        | _ \<Rightarrow> None)"

text \<open>
  \<open>split\<close> also yields empty words at the ends of the text; they do not parse, so dropping
  them first makes no difference.
\<close>

definition parseIpv6Ranges :: "jval \<Rightarrow> cidr list" where
  "parseIpv6Ranges ranges = List.map_filter parseIpv6Cidr (splitWords isSeparator (toStr ranges))"

definition hideIpv6RangesValue :: "jval \<Rightarrow> string" where
  "hideIpv6RangesValue v = (case v of JStr s \<Rightarrow> s | _ \<Rightarrow> DEFAULT_HIDE_IPV6_RANGES)"

section \<open>Matching\<close>

text \<open>
  The inner loop; it ends without a mismatch when \<open>remaining\<close> is used up. The lists are
  the groups from \<open>wordIndex\<close> on.
\<close>

fun prefixLoop :: "nat list \<Rightarrow> nat list \<Rightarrow> nat \<Rightarrow> bool" where
  "prefixLoop ws vs 0 = True"
| "prefixLoop (w # ws) (v # vs) remaining =
     (if remaining \<ge> 16 then (if w \<noteq> v then False else prefixLoop ws vs (remaining - 16))
      else (let m = groupMask remaining in
        if (word_of_nat w AND m) \<noteq> (word_of_nat v AND m) then False else prefixLoop ws vs (remaining - 16)))"
| "prefixLoop _ _ (Suc _) = False"

definition isIpInIpv6Ranges :: "jval \<Rightarrow> jval \<Rightarrow> bool" where
  "isIpInIpv6Ranges ip ranges = (case parseIpv6ToWords ip of
     None \<Rightarrow> False
   | Some ws \<Rightarrow> list_ex (\<lambda>r. prefixLoop ws (words r) (bits r)) (parseIpv6Ranges ranges))"

definition displayIpsForClient :: "jval \<Rightarrow> bool \<Rightarrow> bool \<Rightarrow> jval \<Rightarrow> jval list" where
  "displayIpsForClient ips showIpv6 hidePrivateIpv6 hideIpv6Ranges = filter (\<lambda>ip.
     if hidePrivateIpv6 \<and> isIpInIpv6Ranges ip hideIpv6Ranges then False
     else showIpv6 \<or> \<not> isIpv6Address ip) (asArray ips)"

section \<open>Lemmas\<close>

lemma groupsOk_hex: "list_all isHexGroup gs \<Longrightarrow> groupsOk (map (radixVal 16) gs)"
  using radixVal_group by (auto simp: groupsOk_def isHexGroup_def list_all_iff)

lemma parseIpv6ToWords_ok:
  assumes "parseIpv6ToWords ip = Some ws"
  shows "length ws = 8 \<and> groupsOk ws"
  using assms by (auto simp: parseIpv6ToWords_def Let_def groupsOk_hex split: if_splits)

lemma parseIpv6Words_ok:
  assumes "parseIpv6Words v = Some ws"
  shows "length ws = 8 \<and> groupsOk ws"
  using assms by (auto simp: parseIpv6Words_def Let_def groupsOk_hex split: if_splits)

interpretation status_ip: ipv6_parser "\<lambda>s. parseIpv6ToWords (JStr s)"
  by unfold_locales (auto dest: parseIpv6ToWords_ok)

interpretation config_ip: ipv6_parser "\<lambda>s. parseIpv6Words (JStr s)"
  by unfold_locales (auto dest: parseIpv6Words_ok)

lemma prefixLoop_samePrefix:
  "length ws = length vs \<Longrightarrow> groupsOk ws \<Longrightarrow> groupsOk vs \<Longrightarrow> n \<le> 16 * length ws \<Longrightarrow>
   prefixLoop ws vs n \<longleftrightarrow> samePrefix n ws vs"
proof (induction ws vs n rule: prefixLoop.induct)
  case (2 w ws v vs n)
  have len: "length ws = length vs" and ok: "groupsOk ws" "groupsOk vs" "w < 65536" "v < 65536"
    using 2(3-5) by (auto simp: groupsOk_def)
  show ?case
  proof (cases "16 \<le> Suc n")
    case True
    then show ?thesis
      using 2(1) [OF True _ len ok(1,2)] 2(6) samePrefix_group [OF len ok(1,2) True] by auto
  next
    case False
    then have z: "Suc n - 16 = 0" and le: "Suc n \<le> 16" by simp_all
    have "prefixLoop (w # ws) (v # vs) (Suc n) \<longleftrightarrow> (word_of_nat w :: 32 word) AND groupMask (Suc n) = word_of_nat v AND groupMask (Suc n)"
      using False z by (simp add: Let_def)
    also have "\<dots> \<longleftrightarrow> samePrefix (Suc n) (w # ws) (v # vs)"
      using groupMask_compare [OF ok(3,4) le] samePrefix_partial [OF len ok(1,2), of "Suc n" w v] False by simp
    finally show ?thesis .
  qed
qed auto

lemma parseIpv6Cidr_ok:
  assumes "parseIpv6Cidr r = Some c"
  shows "length (words c) = 8 \<and> groupsOk (words c) \<and> bits c \<le> 128"
proof -
  let ?parts = "splitChar CHR ''/'' (jtrim r)"
  define n where "n = (if length ?parts > 1 then parseInt10 (JStr (?parts ! 1)) else Fin 128)"
  have "parseIpv6Cidr r = (case (parseIpv6ToWords (JStr (?parts ! 0)), n) of
          (Some ws, Fin q) \<Rightarrow> if q < 0 \<or> q > 128 then None else Some \<lparr>words = ws, bits = nat \<lfloor>q\<rfloor>\<rparr>
        | _ \<Rightarrow> None)"
    unfolding parseIpv6Cidr_def Let_def n_def ..
  then obtain ws q where c: "parseIpv6ToWords (JStr (?parts ! 0)) = Some ws"
    "c = \<lparr>words = ws, bits = nat \<lfloor>q\<rfloor>\<rparr>" "q \<le> (128 :: rat)"
    using assms by (auto split: option.splits jnum.splits if_splits)
  have "\<lfloor>q\<rfloor> \<le> 128" using floor_mono [OF c(3)] by (simp only: floor_numeral)
  then have "nat \<lfloor>q\<rfloor> \<le> 128" by linarith
  then show ?thesis using c(2) parseIpv6ToWords_ok [OF c(1)] by (simp only: cidr.select_convs)
qed

text \<open>
  C39: an address is in the hidden ranges exactly when its leading bits, as many as the
  prefix length says, are those of the prefix, for one of the ranges that parse: the group by
  group loop with its mask computes the comparison of two 128-bit prefixes.
\<close>

theorem isIpInIpv6Ranges_prefix:
  "isIpInIpv6Ranges ip ranges \<longleftrightarrow> (\<exists>ws r. parseIpv6ToWords ip = Some ws \<and> r \<in> set (parseIpv6Ranges ranges) \<and>
     addrValue ws div 2 ^ (128 - bits r) = addrValue (words r) div 2 ^ (128 - bits r))"
proof -
  have "prefixLoop ws (words r) (bits r) \<longleftrightarrow>
      addrValue ws div 2 ^ (128 - bits r) = addrValue (words r) div 2 ^ (128 - bits r)"
    if "parseIpv6ToWords ip = Some ws" "r \<in> set (parseIpv6Ranges ranges)" for ws r
  proof -
    from that(2) obtain s where "parseIpv6Cidr s = Some r"
      by (auto simp: parseIpv6Ranges_def List.map_filter_def)
    from parseIpv6Cidr_ok [OF this] parseIpv6ToWords_ok [OF that(1)] show ?thesis
      by (subst prefixLoop_samePrefix) (auto simp: samePrefix_def)
  qed
  then show ?thesis by (auto simp: isIpInIpv6Ranges_def list_ex_iff split: option.split)
qed

text \<open>
  What the overview shows of a client: IPv4 addresses always, in their order; an IPv6
  address only when IPv6 is shown and, if private ranges are hidden, it lies in none.
\<close>

theorem displayIpsForClient_correct:
  "displayIpsForClient (JArr ips) v6 hide ranges =
     filter (\<lambda>ip. if isIpv6Address ip then v6 \<and> \<not> (hide \<and> isIpInIpv6Ranges ip ranges) else True) ips"
proof -
  have "isIpv6Address ip" if "isIpInIpv6Ranges ip ranges" for ip
  proof -
    let ?s = "toStr (jor ip (JStr []))"
    have "CHR '':'' \<in> set (stripBrackets (stripZone (toLowerCase ?s)))"
      using that by (auto simp: isIpInIpv6Ranges_def parseIpv6ToWords_def Let_def split: option.splits if_splits)
    moreover have "set (stripBrackets t) \<subseteq> set t" for t
      by (auto simp: stripBrackets_def dest: in_set_butlastD list.set_sel(2))
    moreover have "set (stripZone t) \<subseteq> set t" for t by (auto simp: stripZone_def dest: set_takeWhileD)
    ultimately have "CHR '':'' \<in> set (toLowerCase ?s)" by blast
    then obtain x where "x \<in> set ?s" "lowerChar x = CHR '':''" by (auto simp: toLowerCase_def)
    moreover have "c = CHR '':''" if "lowerChar c = CHR '':''" for c
    proof -
      have "code (lowerChar c) = 58" using that by (simp add: code_def)
      then have "code c = code CHR '':''" by (auto simp: lowerChar_def isUpperAz_def code_def split: if_splits)
      then show ?thesis by (simp add: code_inject)
    qed
    ultimately show ?thesis unfolding isIpv6Address_def by blast
  qed
  then show ?thesis by (auto simp: displayIpsForClient_def asArray_def intro!: filter_cong)
qed

section \<open>Agreement with the configuration\<close>

lemma hexGroups_chars: "list_all isHexGroup gs \<Longrightarrow> c \<in> \<Union> (set ` set gs) \<Longrightarrow> isHexLower c"
  by (auto simp: list_all_iff isHexGroup_def)

lemma parseIpv6Words_chars:
  assumes "parseIpv6Words v = Some ws" "c \<in> set (toLowerCase (trimAscii v))"
  shows "isHexLower c \<or> c = CHR '':''"
proof -
  let ?s = "toLowerCase (trimAscii v)"
  let ?parts = "splitDouble CHR '':'' ?s"
  have two: "length ?parts \<le> 2"
    using assms(1) by (auto simp: parseIpv6Words_def Let_def split: if_splits)
  have groups: "list_all isHexGroup (if ?parts ! 0 \<noteq> [] then splitChar CHR '':'' (?parts ! 0) else [])"
    "list_all isHexGroup (if length ?parts = 2 \<and> ?parts ! 1 \<noteq> [] then splitChar CHR '':'' (?parts ! 1) else [])"
    using assms(1) unfolding parseIpv6Words_def Let_def by (auto split: if_splits)
  have piece: "isHexLower c \<or> c = CHR '':''" if "c \<in> set p" "list_all isHexGroup (splitChar CHR '':'' p)" for p
    using that splitChar_chars [of c p "CHR '':''"] hexGroups_chars by blast
  from assms(2) splitDouble_chars [of c ?s "CHR '':''"] consider "c = CHR '':''" | p where "p \<in> set ?parts" "c \<in> set p" by blast
  then show ?thesis
  proof cases
    case 2
    then obtain i where i: "i < length ?parts" "p = ?parts ! i" by (metis in_set_conv_nth)
    then have "i = 0 \<or> i = 1 \<and> length ?parts = 2" using two by linarith
    moreover have "p \<noteq> []" using 2(2) by auto
    ultimately have "list_all isHexGroup (splitChar CHR '':'' p)" using groups i(2) by (elim disjE) simp_all
    then show ?thesis using piece 2(2) by blast
  qed simp
qed

lemma words_agree:
  assumes "parseIpv6Words (JStr s) = Some ws" "toLowerCase (trimAscii (JStr s)) = s"
  shows "parseIpv6ToWords (JStr s) = Some ws"
proof -
  have hex: "isHexLower c \<or> c = CHR '':''" if "c \<in> set s" for c
    using parseIpv6Words_chars [OF assms(1)] that assms(2) by simp
  have "\<not> isHexLower CHR ''%''" "\<not> isHexLower CHR ''[''" by (simp_all add: isHexLower_def isDigit_def code_def)
  with hex have no: "CHR ''%'' \<notin> set s" "s \<noteq> [] \<Longrightarrow> hd s \<noteq> CHR ''[''" by (force, fastforce dest: hd_in_set)
  have low: "toLowerCase s = s" using assms(2) by (metis toLowerCase_idem)
  have ne: "s \<noteq> []" using assms by (auto simp: parseIpv6Words_def Let_def split: if_splits)
  have "stripZone s = s" using no(1) by (auto simp: stripZone_def takeWhile_eq_all_conv)
  then have strip: "stripBrackets (stripZone (toLowerCase (toStr (jor (JStr s) (JStr []))))) = s"
    using no(2) ne low by (simp add: stripBrackets_def jor_def)
  have "0 < length (splitDouble CHR '':'' s)" by simp
  then consider "length (splitDouble CHR '':'' s) = 1" | "length (splitDouble CHR '':'' s) = 2" | "2 < length (splitDouble CHR '':'' s)"
    by linarith
  then have "parseIpv6ToWords (JStr s) = parseIpv6Words (JStr s)"
    unfolding parseIpv6ToWords_def parseIpv6Words_def assms(2) strip by cases (simp_all add: Let_def)
  then show ?thesis using assms(1) by simp
qed

text \<open>The parts of a range that the configuration accepts.\<close>

definition rangeAddress :: "string \<Rightarrow> string" where "rangeAddress r = splitChar CHR ''/'' r ! 0"
definition rangeBits :: "string \<Rightarrow> nat" where "rangeBits r = decVal (splitChar CHR ''/'' r ! 1)"

lemma parseIpv6Cidr_config:
  assumes "cidrOk r" "list_all (\<lambda>c. \<not> isSeparator c) r"
  shows "\<exists>c. parseIpv6Cidr r = Some c \<and> parseIpv6Words (JStr (rangeAddress r)) = Some (words c) \<and> bits c = rangeBits r"
proof -
  have src: "toLowerCase (trimAscii (JStr r)) = r" and ok: "pr_valid (parseCidr (JStr r))"
    using assms(1) by (auto simp: cidrOk_def)
  let ?parts = "splitChar CHR ''/'' r"
  have parts: "length ?parts = 2" "parseIpv6Words (JStr (?parts ! 0)) \<noteq> None" "?parts ! 1 \<noteq> []"
      "list_all isDigit (?parts ! 1)" "decVal (?parts ! 1) \<le> 128"
    using ok unfolding parseCidr_def src Let_def by (auto simp: invalid_def split: if_splits)
  have nospace: "list_all (\<lambda>c. \<not> isSpace c) r" using assms(2) by (auto simp: list_all_iff isSeparator_def)
  have trim: "jtrim r = r" unfolding jtrim_def using nospace by (intro trimBy_none) (auto simp: list_all_iff)
  have mem: "?parts ! 0 \<in> set ?parts" "?parts ! 1 \<in> set ?parts" using parts(1) by simp_all
  have low: "lowerChar c = c" if "c \<in> set r" for c
  proof -
    have "toLowerCase r = r" using src by (metis toLowerCase_idem)
    then have "map lowerChar r = map id r" by (simp add: toLowerCase_def)
    then show ?thesis using that unfolding map_eq_conv by simp
  qed
  have "toLowerCase (trimAscii (JStr (?parts ! 0))) = ?parts ! 0"
  proof -
    have "set (?parts ! 0) \<subseteq> set r" using splitChar_sub mem(1) by blast
    then have "list_all (\<lambda>c. \<not> isSpace c) (?parts ! 0)" "map lowerChar (?parts ! 0) = ?parts ! 0"
      using nospace low by (auto simp: list_all_iff intro: map_idI)
    then show ?thesis using trimAscii_no_space by (simp add: toLowerCase_def)
  qed
  then obtain ws where ws: "parseIpv6ToWords (JStr (?parts ! 0)) = Some ws" "parseIpv6Words (JStr (?parts ! 0)) = Some ws"
    using words_agree parts(2) by blast
  have "parseInt10 (JStr (?parts ! 1)) = Fin (of_nat (decVal (?parts ! 1)))"
    by (rule parseInt10_digits [OF parts(4,3)])
  moreover have "\<not> (of_nat (decVal (?parts ! 1)) > (128 :: rat))"
    using parts(5) of_nat_le_iff [of "decVal (?parts ! 1)" 128, where ?'a = rat] by simp
  ultimately show ?thesis
    using ws parts(1) by (simp add: parseIpv6Cidr_def Let_def trim rangeAddress_def rangeBits_def)
qed

text \<open>
  Every range that the configuration page accepts from a text is understood by the
  overview: the saved text parses there into the same ranges, with the same addresses and
  prefix lengths and in the same order.
\<close>

theorem config_ranges_understood:
  assumes "\<not> isArr v"
  defines "rs \<equiv> nr_valid (parseCidrList v)"
  shows "list_all2 (\<lambda>r c. parseIpv6Words (JStr (rangeAddress r)) = Some (words c) \<and> bits c = rangeBits r)
    rs (parseIpv6Ranges (JStr (joinStr '' '' rs)))"
proof -
  have ok: "list_all (\<lambda>r. cidrOk r \<and> r \<noteq> [] \<and> list_all (\<lambda>c. \<not> isSeparator c) r) rs"
    using cidrs_from_text [OF assms(1)] parseCidrList_ok [of v] by (auto simp: rs_def list_all_iff)
  have "isSeparator CHR '' ''" by (simp add: isSeparator_def isSpace_def code_def)
  then have split: "splitWords isSeparator (joinStr '' '' rs) = rs"
    using ok by (intro splitWords_join) (auto simp: list_all_iff)
  have "list_all2 (\<lambda>r c. parseIpv6Words (JStr (rangeAddress r)) = Some (words c) \<and> bits c = rangeBits r)
      xs (List.map_filter parseIpv6Cidr xs)" if "list_all (\<lambda>r. cidrOk r \<and> r \<noteq> [] \<and> list_all (\<lambda>c. \<not> isSeparator c) r) xs" for xs
    using that
  proof (induction xs)
    case (Cons r xs)
    then obtain c where "parseIpv6Cidr r = Some c" "parseIpv6Words (JStr (rangeAddress r)) = Some (words c)" "bits c = rangeBits r"
      using parseIpv6Cidr_config [of r] by auto
    then show ?case using Cons by (simp add: List.map_filter_def)
  qed (simp add: List.map_filter_def)
  then show ?thesis using ok unfolding parseIpv6Ranges_def toStr.simps split by blast
qed

theorem config_ranges_understood_witness:
  "let rs = nr_valid (parseCidrList (JStr ''FC00::/7, 2001:db8::/32 oops'')) in
   rs = [''fc00::/7'', ''2001:db8::/32''] \<and> length (parseIpv6Ranges (JStr (joinStr '' '' rs))) = 2"
proof -
  let ?v = "JStr ''FC00::/7, 2001:db8::/32 oops''"
  have "nr_valid (parseCidrList ?v) = [''fc00::/7'', ''2001:db8::/32'']" by code_simp
  moreover have "\<not> isArr ?v" by simp
  note list_all2_lengthD [OF config_ranges_understood [OF this]]
  ultimately show ?thesis by simp
qed

end
