(* ===== verification/ClientConnections.thy ===== *)
theory ClientConnections
  imports Format
begin

text \<open>
  \<open>lanspeed/clientConnections.js\<close>: the link to the page of one client and back, and the
  table of its connections, grouped by remote address, filtered and sorted.

  The literal labels of the source that are not ASCII are named by English glosses. The
  location lookup is a function of the caller: an argument here, which may be absent or throw.
\<close>

section \<open>URI components\<close>

text \<open>
  \<open>encodeURIComponent\<close> and \<open>decodeURIComponent\<close> of the language, on texts of code units
  below 256. A decoded text may hold characters outside that range; the outcome is then
  \<open>Wide\<close>. \<open>Malformed\<close> is the URIError.
\<close>

definition unreserved :: "char \<Rightarrow> bool" where
  "unreserved c \<longleftrightarrow> isDigit c \<or> isUpperAz c \<or> isLowerAz c \<or> c \<in> set ''-_.!~*()'' \<or> code c = 39"

definition hexUpper :: "nat \<Rightarrow> char" where
  "hexUpper n = (if n < 10 then digitChar n else char_of (n + 55))"

definition escapeByte :: "nat \<Rightarrow> string" where
  "escapeByte b = [CHR ''%'', hexUpper (b div 16), hexUpper (b mod 16)]"

definition encodeChar :: "char \<Rightarrow> string" where
  "encodeChar c = (if unreserved c then [c]
     else if code c < 128 then escapeByte (code c)
     else escapeByte (192 + code c div 64) @ escapeByte (128 + code c mod 64))"

definition encodeURIComponent :: "string \<Rightarrow> string" where
  "encodeURIComponent s = concat (map encodeChar s)"

datatype decoded = Decoded string | Malformed | Wide

fun consChar :: "char \<Rightarrow> decoded \<Rightarrow> decoded" where
  "consChar c (Decoded s) = Decoded (c # s)"
| "consChar c d = d"

fun widen :: "decoded \<Rightarrow> decoded" where
  "widen Malformed = Malformed"
| "widen _ = Wide"

fun takeEscape :: "string \<Rightarrow> (nat \<times> string) option" where
  "takeEscape (p # a # b # rest) = (if p = CHR ''%'' \<and> isHexAny a \<and> isHexAny b
     then Some (16 * hexDigitVal a + hexDigitVal b, rest) else None)"
| "takeEscape _ = None"

fun takeContinuations :: "nat \<Rightarrow> string \<Rightarrow> (nat list \<times> string) option" where
  "takeContinuations 0 s = Some ([], s)"
| "takeContinuations (Suc n) s = (case takeEscape s of
     None \<Rightarrow> None
   | Some (b, rest) \<Rightarrow> if 128 \<le> b \<and> b < 192 then
       (case takeContinuations n rest of None \<Rightarrow> None | Some (bs, r) \<Rightarrow> Some (b # bs, r)) else None)"

text \<open>How many continuation bytes a lead byte asks for, and which first ones it allows.\<close>

definition continuations :: "nat \<Rightarrow> nat option" where
  "continuations b = (if 194 \<le> b \<and> b < 224 then Some 1 else if 224 \<le> b \<and> b < 240 then Some 2
     else if 240 \<le> b \<and> b < 245 then Some 3 else None)"

definition firstAllowed :: "nat \<Rightarrow> nat \<Rightarrow> bool" where
  "firstAllowed b c = (if b = 224 then 160 \<le> c else if b = 237 then c < 160
     else if b = 240 then 144 \<le> c else if b = 244 then c < 144 else True)"

lemma takeEscape_length: "takeEscape s = Some (b, rest) \<Longrightarrow> length rest < length s"
  by (cases s rule: takeEscape.cases) (auto split: if_splits)

lemma takeContinuations_length: "takeContinuations n s = Some (bs, rest) \<Longrightarrow> length rest \<le> length s"
proof (induction n arbitrary: s bs)
  case (Suc n)
  then show ?case using takeEscape_length by (fastforce split: option.splits if_splits)
qed simp

function decodeURIComponent :: "string \<Rightarrow> decoded" where
  "decodeURIComponent s = (case s of
     [] \<Rightarrow> Decoded []
   | c # cs \<Rightarrow>
       if c \<noteq> CHR ''%'' then consChar c (decodeURIComponent cs)
       else (case takeEscape s of
           None \<Rightarrow> Malformed
         | Some (b, rest) \<Rightarrow>
             if b < 128 then consChar (char_of b) (decodeURIComponent rest)
             else (case continuations b of
                 None \<Rightarrow> Malformed
               | Some n \<Rightarrow> (case takeContinuations n rest of
                     None \<Rightarrow> Malformed
                   | Some (bs, rest') \<Rightarrow>
                       if \<not> firstAllowed b (hd bs) then Malformed
                       else if b < 196 then consChar (char_of ((b - 192) * 64 + (hd bs - 128))) (decodeURIComponent rest')
                       else widen (decodeURIComponent rest')))))"
  by pat_completeness auto
termination
  by (relation "measure length") (auto dest!: takeEscape_length takeContinuations_length)

declare decodeURIComponent.simps [simp del]

section \<open>The link to a client\<close>

definition plusToSpace :: "string \<Rightarrow> string" where
  "plusToSpace s = map (\<lambda>c. if c = CHR ''+'' then CHR '' '' else c) s"

definition partName :: "string \<Rightarrow> string" where
  "partName p = takeWhile (\<lambda>c. c \<noteq> CHR ''='') p"

definition partValue :: "string \<Rightarrow> string" where
  "partValue p = (case dropWhile (\<lambda>c. c \<noteq> CHR ''='') p of [] \<Rightarrow> [] | _ # v \<Rightarrow> v)"

text \<open>The loop over the parts of the query; \<open>None\<close> is a value outside the model's alphabet.\<close>

fun identityLoop :: "string list \<Rightarrow> string option" where
  "identityLoop [] = Some []"
| "identityLoop (p # ps) = (case decodeURIComponent (plusToSpace (partName p)) of
     Decoded name \<Rightarrow> if name \<noteq> ''client'' then identityLoop ps
       else (case decodeURIComponent (plusToSpace (partValue p)) of
           Decoded v \<Rightarrow> Some v | Malformed \<Rightarrow> Some [] | Wide \<Rightarrow> None)
   | _ \<Rightarrow> identityLoop ps)"

definition identityFromSearch :: "jval \<Rightarrow> string option" where
  "identityFromSearch search = (let q = (if nullish search then [] else toStr search);
       q1 = takeWhile (\<lambda>c. c \<noteq> CHR ''#'') q;
       q2 = (if q1 \<noteq> [] \<and> hd q1 = CHR ''?'' then tl q1 else q1)
     in identityLoop (splitChar CHR ''&'' q2))"

definition detailHref :: "jval \<Rightarrow> jval \<Rightarrow> string" where
  "detailHref basePath identity = (let href = (if nullish basePath then [] else toStr basePath);
       hash = dropWhile (\<lambda>c. c \<noteq> CHR ''#'') href;
       path = takeWhile (\<lambda>c. c \<noteq> CHR ''#'') href;
       separator = (if CHR ''?'' \<notin> set path then ''?''
         else if last path = CHR ''?'' \<or> last path = CHR ''&'' then [] else ''&'');
       v = (if nullish identity then [] else toStr identity)
     in path @ separator @ ''client='' @ encodeURIComponent v @ hash)"

definition formatEndpoint :: "jval \<Rightarrow> jval \<Rightarrow> string" where
  "formatEndpoint ip port = (let h = (if nullish ip then [] else toStr ip);
       host = (if CHR '':'' \<in> set h \<and> \<not> (hd h = CHR ''['' \<and> last h = CHR '']'') then ''['' @ h @ '']'' else h)
     in if nullish port \<or> port = JStr [] then host else host @ '':'' @ toStr port)"

section \<open>Labels of a group\<close>

definition portSummary :: "jnum list \<Rightarrow> string" where
  "portSummary ports = (if ports = [] then ''-''
     else joinStr '', '' (map numToString (take 3 ports)) @
       (if length ports > 3 then '', and '' @ showNat (length ports - 3) @ '' more'' else []))"

definition lowerField :: "string \<Rightarrow> jval \<Rightarrow> string" where
  "lowerField k conn = toLowerCase (toStr (jor (jfield conn k) (JStr [])))"

definition stateLabel :: "jval list \<Rightarrow> string" where
  "stateLabel conns = (if conns = [] then ''-''
     else (let states = map (lowerField ''state'') conns in
       if list_all (\<lambda>s. s = ''established'') states then ''established''
       else if list_all (\<lambda>s. s = ''assured'') states then ''active''
       else ''mixed''))"

definition protocolLabel :: "jval list \<Rightarrow> string" where
  "protocolLabel conns = (let hasTcp = list_ex (\<lambda>c. lowerField ''protocol'' c = ''tcp'') conns;
       hasUdp = list_ex (\<lambda>c. lowerField ''protocol'' c = ''udp'') conns
     in if hasTcp \<and> hasUdp then ''TCP/UDP'' else if hasTcp then ''TCP'' else if hasUdp then ''UDP'' else ''-'')"

text \<open>The port of a connection that \<open>portsForConnections\<close> collects.\<close>

definition portOf :: "jval \<Rightarrow> jnum option" where
  "portOf conn = (let v = jfield conn ''remote_port'' in
     if nullish v \<or> v = JStr [] then None
     else if isIntegral (toNum v) then Some (toNum v) else None)"

fun collectPorts :: "string set \<Rightarrow> jval list \<Rightarrow> jnum list" where
  "collectPorts seen [] = []"
| "collectPorts seen (c # cs) = (case portOf c of
     None \<Rightarrow> collectPorts seen cs
   | Some p \<Rightarrow> if numToString p \<in> seen then collectPorts seen cs
       else p # collectPorts (insert (numToString p) seen) cs)"

definition portsForConnections :: "jval list \<Rightarrow> jnum list" where
  "portsForConnections conns = jsSort numCompare (collectPorts {} conns)"

type_synonym lookup = "(jval \<Rightarrow> jval option) option"

definition locationLabel :: "jval \<Rightarrow> lookup \<Rightarrow> string" where
  "locationLabel remoteIp look = (case look of None \<Rightarrow> []
     | Some f \<Rightarrow> (case f remoteIp of None \<Rightarrow> [] | Some v \<Rightarrow> if nullish v then [] else toStr v))"

definition matchesSearch :: "jval \<Rightarrow> string \<Rightarrow> lookup \<Rightarrow> bool" where
  "matchesSearch conn term look = list_ex (\<lambda>v. \<not> nullish v \<and> sublist term (toLowerCase (toStr v)))
     [jfield conn ''remote_ip'', jfield conn ''client_ip'', jfield conn ''remote_port'',
      jfield conn ''client_port'', JStr (locationLabel (jfield conn ''remote_ip'') look)]"

definition connectionRate :: "jval \<Rightarrow> jnum" where
  "connectionRate v = (let rate = toNum v in if isFinite rate \<and> nlt (Fin 0) rate then rate else Fin 0)"

section \<open>Groups\<close>

record group =
  remoteIp :: string
  glocation :: string
  gports :: "jnum list"
  portLabel :: string
  gprotocol :: string
  gstate :: string
  txBps :: jnum
  rxBps :: jnum
  gcount :: nat
  gconnections :: "jval list"

definition remoteIpOf :: "jval \<Rightarrow> string" where
  "remoteIpOf conn = (if truthy conn \<and> \<not> nullish (jget conn ''remote_ip'') then toStr (jget conn ''remote_ip'') else [])"

definition newGroup :: "lookup \<Rightarrow> string \<Rightarrow> group" where
  "newGroup look ip = \<lparr>remoteIp = ip, glocation = locationLabel (JStr ip) look, gports = [], portLabel = [],
     gprotocol = [], gstate = [], txBps = Fin 0, rxBps = Fin 0, gcount = 0, gconnections = []\<rparr>"

definition pushConnection :: "jval \<Rightarrow> group \<Rightarrow> group" where
  "pushConnection conn g = g\<lparr>gconnections := gconnections g @ [conn],
     txBps := nadd (txBps g) (connectionRate (jfield conn ''tx_bps'')),
     rxBps := nadd (rxBps g) (connectionRate (jfield conn ''rx_bps''))\<rparr>"

text \<open>The groups in the order of their first connection; \<open>byRemoteIp\<close> is the search by key.\<close>

fun addConnection :: "lookup \<Rightarrow> group list \<Rightarrow> jval \<Rightarrow> group list" where
  "addConnection look [] conn = [pushConnection conn (newGroup look (remoteIpOf conn))]"
| "addConnection look (g # gs) conn = (if remoteIp g = remoteIpOf conn then pushConnection conn g # gs
     else g # addConnection look gs conn)"

definition finishGroup :: "group \<Rightarrow> group" where
  "finishGroup g = (let conns = gconnections g; ports = portsForConnections conns in
     g\<lparr>gports := ports, portLabel := portSummary ports, gprotocol := protocolLabel conns,
       gstate := stateLabel conns, gcount := length conns\<rparr>)"

definition filteredConnections :: "jval \<Rightarrow> jval \<Rightarrow> jval \<Rightarrow> lookup \<Rightarrow> jval list" where
  "filteredConnections response protocol search look = (let
       p = (if nullish protocol then ''all'' else toLowerCase (toStr protocol));
       wanted = (if p \<noteq> ''tcp'' \<and> p \<noteq> ''udp'' then ''all'' else p);
       filtered = filter (\<lambda>c. wanted = ''all'' \<or> lowerField ''protocol'' c = wanted)
         (asArray (jfield response ''connections''));
       term = (if nullish search then [] else toLowerCase (jtrim (toStr search)))
     in if term \<noteq> [] then filter (\<lambda>c. matchesSearch c term look) filtered else filtered)"

definition groupsForResponse :: "jval \<Rightarrow> jval \<Rightarrow> jval \<Rightarrow> lookup \<Rightarrow> group list" where
  "groupsForResponse response protocol search look =
     map finishGroup (foldl (addConnection look) [] (filteredConnections response protocol search look))"

section \<open>Order of the groups\<close>

definition GROUP_KEYS :: "string list" where
  "GROUP_KEYS = [''remote_ip'', ''location'', ''remote_port'', ''protocol'', ''state'', ''tx'', ''rx'', ''count'']"

text \<open>The result of the key comparison: an early return or a result still to be directed.\<close>

definition groupKeyResult :: "(string \<Rightarrow> string \<Rightarrow> int) \<Rightarrow> string \<Rightarrow> group \<Rightarrow> group \<Rightarrow> jnum + jnum" where
  "groupKeyResult collate key left right =
     (if key = ''remote_ip'' then Inr (compareText collate (JStr (remoteIp left)) (JStr (remoteIp right)))
      else if key = ''location'' then Inr (compareText collate (JStr (glocation left)) (JStr (glocation right)))
      else if key = ''remote_port'' then
        (case (gports left, gports right) of
           ([], []) \<Rightarrow> Inr (Fin 0)
         | ([], _ # _) \<Rightarrow> Inl (Fin 1)
         | (_ # _, []) \<Rightarrow> Inl (Fin (- 1))
         | (p # _, q # _) \<Rightarrow> Inr (nsub p q))
      else if key = ''protocol'' then Inr (compareText collate (JStr (gprotocol left)) (JStr (gprotocol right)))
      else if key = ''state'' then Inr (compareText collate (JStr (gstate left)) (JStr (gstate right)))
      else if key = ''tx'' then Inr (nsub (numOr (JNum (txBps left)) (Fin 0)) (numOr (JNum (txBps right)) (Fin 0)))
      else if key = ''count'' then Inr (nsub (Fin (of_nat (gcount left))) (Fin (of_nat (gcount right))))
      else Inr (nsub (numOr (JNum (rxBps left)) (Fin 0)) (numOr (JNum (rxBps right)) (Fin 0))))"

definition groupCompare :: "(string \<Rightarrow> string \<Rightarrow> int) \<Rightarrow> string \<Rightarrow> string \<Rightarrow> group \<times> nat \<Rightarrow> group \<times> nat \<Rightarrow> jnum" where
  "groupCompare collate key direction l r = (case groupKeyResult collate key (fst l) (fst r) of
     Inl early \<Rightarrow> early
   | Inr result \<Rightarrow>
       if truthy (JNum result) then (if direction = ''desc'' then nneg result else result)
       else (let tie = compareText collate (JStr (remoteIp (fst l))) (JStr (remoteIp (fst r))) in
         if truthy (JNum tie) then tie else nsub (Fin (of_nat (snd l))) (Fin (of_nat (snd r)))))"

definition sortGroups :: "(string \<Rightarrow> string \<Rightarrow> int) \<Rightarrow> group list \<Rightarrow> string \<Rightarrow> string \<Rightarrow> group list" where
  "sortGroups collate groups sk sd = (let
       key = (if sk \<in> set GROUP_KEYS then sk else ''rx'');
       direction = (if sd = ''asc'' then ''asc'' else ''desc'')
     in map fst (jsSort (groupCompare collate key direction) (zip groups [0..<length groups])))"

section \<open>Lemmas on URI components\<close>

lemma hexUpper_digit:
  assumes "n < 16"
  shows "isHexAny (hexUpper n)" "hexDigitVal (hexUpper n) = n"
  using assms by (auto simp: hexUpper_def isHexAny_def isHexLower_def hexDigitVal_def digitChar_props isDigit_def)

lemma takeEscape_byte: "b < 256 \<Longrightarrow> takeEscape (escapeByte b @ rest) = Some (b, rest)"
  by (simp add: escapeByte_def hexUpper_digit less_mult_imp_div_less)

lemma decode_plain: "c \<noteq> CHR ''%'' \<Longrightarrow> decodeURIComponent (c # cs) = consChar c (decodeURIComponent cs)"
  by (subst decodeURIComponent.simps) simp

lemma escapeByte_Cons: "escapeByte b @ rest = CHR ''%'' # [hexUpper (b div 16), hexUpper (b mod 16)] @ rest"
  by (simp add: escapeByte_def)

lemma decode_ascii:
  assumes "b < 128"
  shows "decodeURIComponent (escapeByte b @ rest) = consChar (char_of b) (decodeURIComponent rest)"
  using takeEscape_byte [of b rest] assms
  by (subst decodeURIComponent.simps) (simp add: escapeByte_Cons del: takeEscape.simps)

lemma decode_two:
  assumes "194 \<le> b" "b < 196" "128 \<le> d" "d < 192"
  shows "decodeURIComponent (escapeByte b @ escapeByte d @ rest) =
    consChar (char_of ((b - 192) * 64 + (d - 128))) (decodeURIComponent rest)"
  using takeEscape_byte [of b "escapeByte d @ rest"] takeEscape_byte [of d rest] assms
  by (subst decodeURIComponent.simps)
    (simp add: escapeByte_Cons [of b] continuations_def firstAllowed_def del: takeEscape.simps)

lemma decode_encodeChar: "decodeURIComponent (encodeChar c @ rest) = consChar c (decodeURIComponent rest)"
proof -
  consider "unreserved c" | "\<not> unreserved c" "code c < 128" | "\<not> unreserved c" "128 \<le> code c" by linarith
  then show ?thesis
  proof cases
    case 1
    then have "c \<noteq> CHR ''%''" by (auto simp: unreserved_def isDigit_def isUpperAz_def isLowerAz_def code_def)
    with 1 show ?thesis by (simp add: encodeChar_def decode_plain)
  next
    case 2
    then show ?thesis using decode_ascii [of "code c" rest] by (simp add: encodeChar_def code_def)
  next
    case 3
    have "2 \<le> code c div 64" using 3 by auto
    moreover have "code c div 64 < 4" using code_bound [of c] by linarith
    ultimately have bounds: "2 \<le> code c div 64" "code c div 64 < 4" by blast+
    have "decodeURIComponent (escapeByte (192 + code c div 64) @ escapeByte (128 + code c mod 64) @ rest) =
        consChar (char_of (code c div 64 * 64 + code c mod 64)) (decodeURIComponent rest)"
      using decode_two [of "192 + code c div 64" "128 + code c mod 64" rest] bounds by simp
    moreover have "char_of (code c div 64 * 64 + code c mod 64) = c" by (simp add: code_def)
    ultimately show ?thesis using 3 by (simp add: encodeChar_def)
  qed
qed

lemma decode_encode: "decodeURIComponent (encodeURIComponent s) = Decoded s"
proof (induction s)
  case Nil
  show ?case by (subst decodeURIComponent.simps) (simp add: encodeURIComponent_def)
next
  case (Cons c s)
  then show ?case using decode_encodeChar [of c "encodeURIComponent s"] by (simp add: encodeURIComponent_def)
qed

text \<open>The characters that structure a query.\<close>

definition delimiter :: "char \<Rightarrow> bool" where
  "delimiter c \<longleftrightarrow> c \<in> set ''+&#?=''"

lemma hexUpper_safe: "n < 16 \<Longrightarrow> \<not> delimiter (hexUpper n)"
  using hexUpper_digit(1) [of n]
  by (auto simp: delimiter_def isHexAny_def isHexLower_def isDigit_def code_def)

lemma escapeByte_safe: "x \<in> set (escapeByte b) \<Longrightarrow> b < 256 \<Longrightarrow> \<not> delimiter x"
  using hexUpper_safe [of "b div 16"] hexUpper_safe [of "b mod 16"]
  by (auto simp: escapeByte_def delimiter_def less_mult_imp_div_less)

lemma encodeChar_safe: "x \<in> set (encodeChar c) \<Longrightarrow> \<not> delimiter x"
proof -
  have "unreserved c \<Longrightarrow> \<not> delimiter c"
    by (auto simp: delimiter_def unreserved_def isDigit_def isUpperAz_def isLowerAz_def code_def)
  moreover have b: "192 + code c div 64 < 256" "128 + code c mod 64 < 256" "code c < 256"
    using code_bound [of c] by linarith+
  ultimately show "x \<in> set (encodeChar c) \<Longrightarrow> \<not> delimiter x"
    unfolding encodeChar_def
    using escapeByte_safe [OF _ b(1), of x] escapeByte_safe [OF _ b(2), of x] escapeByte_safe [OF _ b(3), of x]
    by (cases "unreserved c"; cases "code c < 128") auto
qed

lemma encode_safe: "x \<in> set (encodeURIComponent s) \<Longrightarrow> \<not> delimiter x"
  using encodeChar_safe by (auto simp: encodeURIComponent_def)

lemma encode_not: "delimiter d \<Longrightarrow> d \<notin> set (encodeURIComponent s)"
  using encode_safe by blast

lemma decode_client: "decodeURIComponent ''client'' = Decoded ''client''"
  by (simp add: decode_plain) (subst decodeURIComponent.simps, simp)

lemma identityFromSearch_query:
  assumes "CHR ''#'' \<notin> set q" "CHR ''&'' \<notin> set q"
  shows "identityFromSearch (JStr (CHR ''?'' # q)) = identityLoop [q]"
proof -
  have tw: "takeWhile (\<lambda>c. c \<noteq> CHR ''#'') q = q" using assms(1) by (auto simp: takeWhile_eq_all_conv)
  show ?thesis by (simp add: tw identityFromSearch_def nullish_def splitChar_none [OF assms(2)] del: identityLoop.simps)
qed

text \<open>\<open>location.search\<close> of an address: from the question mark to the hash.\<close>

definition locationSearch :: "string \<Rightarrow> string" where
  "locationSearch href = dropWhile (\<lambda>c. c \<noteq> CHR ''?'') (takeWhile (\<lambda>c. c \<noteq> CHR ''#'') href)"

text \<open>
  Following the link of a client opens that client: the identity is read back from the
  address unchanged, whatever characters it has, for every page address without a query of
  its own (a hash may follow).
\<close>

theorem detailHref_identity:
  assumes "CHR ''?'' \<notin> set (takeWhile (\<lambda>c. c \<noteq> CHR ''#'') base)"
  shows "identityFromSearch (JStr (locationSearch (detailHref (JStr base) (JStr s)))) = Some s"
proof -
  let ?path = "takeWhile (\<lambda>c. c \<noteq> CHR ''#'') base" and ?hash = "dropWhile (\<lambda>c. c \<noteq> CHR ''#'') base"
  let ?q = "''client='' @ encodeURIComponent s"
  have href: "detailHref (JStr base) (JStr s) = ?path @ CHR ''?'' # ?q @ ?hash"
    using assms by (simp add: detailHref_def nullish_def Let_def)
  have delims: "delimiter CHR ''#''" "delimiter CHR ''&''" "delimiter CHR ''+''" by (simp_all add: delimiter_def)
  have safe: "CHR ''#'' \<notin> set ?q" "CHR ''&'' \<notin> set ?q"
    using encode_not [OF delims(1)] encode_not [OF delims(2)] by simp_all
  have tw: "takeWhile P (dropWhile P xs) = []" for P and xs :: string
    by (induction xs) auto
  have path: "\<forall>x \<in> set ?path. x \<noteq> CHR ''#''" by (auto dest: set_takeWhileD)
  have cut: "takeWhile (\<lambda>c. c \<noteq> CHR ''#'') (us @ ?hash) = us" if "\<forall>x \<in> set us. x \<noteq> CHR ''#''" for us
    using that by (subst takeWhile_append2) (auto simp: tw)
  have qm: "CHR ''?'' \<noteq> CHR ''#''" by simp
  have all: "\<forall>x \<in> set (?path @ CHR ''?'' # ?q). x \<noteq> CHR ''#''"
  proof
    fix x assume "x \<in> set (?path @ CHR ''?'' # ?q)"
    then have "x \<in> set ?path \<or> x = CHR ''?'' \<or> x \<in> set ?q" unfolding set_append list.set by blast
    then show "x \<noteq> CHR ''#''" using path safe(1) qm by blast
  qed
  have "takeWhile (\<lambda>c. c \<noteq> CHR ''#'') (detailHref (JStr base) (JStr s)) = ?path @ CHR ''?'' # ?q"
    using cut [OF all] unfolding href by (simp only: append_assoc append_Cons)
  moreover have "dropWhile (\<lambda>c. c \<noteq> CHR ''?'') (?path @ CHR ''?'' # ?q) = CHR ''?'' # ?q"
    using assms by (subst dropWhile_append2) auto
  ultimately have search: "locationSearch (detailHref (JStr base) (JStr s)) = CHR ''?'' # ?q"
    unfolding locationSearch_def by (simp only:)
  have "plusToSpace (encodeURIComponent s) = encodeURIComponent s"
    unfolding plusToSpace_def using encode_not [OF delims(3)] by (intro map_idI) auto
  then have "identityLoop [?q] = Some s"
    by (simp add: partName_def partValue_def plusToSpace_def decode_client decode_encode)
  then show ?thesis unfolding search identityFromSearch_query [OF safe] .
qed

theorem detailHref_identity_witness:
  "identityFromSearch (JStr (locationSearch (detailHref (JStr ''/admin/client#top'') (JStr ''a&b+c=?%'')))) = Some ''a&b+c=?%''"
  by (rule detailHref_identity) simp

section \<open>The groups of a response\<close>

definition sumRates :: "string \<Rightarrow> jval list \<Rightarrow> jnum" where
  "sumRates k conns = foldl (\<lambda>a c. nadd a (connectionRate (jfield c k))) (Fin 0) conns"

definition groupOf :: "jval list \<Rightarrow> group \<Rightarrow> bool" where
  "groupOf conns g \<longleftrightarrow> gconnections g = filter (\<lambda>c. remoteIpOf c = remoteIp g) conns \<and> gconnections g \<noteq> [] \<and>
     txBps g = sumRates ''tx_bps'' (gconnections g) \<and> rxBps g = sumRates ''rx_bps'' (gconnections g)"

lemma pushConnection_fields [simp]:
  "remoteIp (pushConnection c g) = remoteIp g" "gconnections (pushConnection c g) = gconnections g @ [c]"
  by (simp_all add: pushConnection_def)

lemma sumRates_snoc [simp]: "sumRates k (cs @ [c]) = nadd (sumRates k cs) (connectionRate (jfield c k))"
  by (simp add: sumRates_def)

lemma groupOf_push: "groupOf cs g \<Longrightarrow> remoteIpOf c = remoteIp g \<Longrightarrow> groupOf (cs @ [c]) (pushConnection c g)"
  by (auto simp: groupOf_def pushConnection_def)

lemma groupOf_other: "groupOf cs g \<Longrightarrow> remoteIpOf c \<noteq> remoteIp g \<Longrightarrow> groupOf (cs @ [c]) g"
  by (simp add: groupOf_def) metis

lemma addConnection_ips: "map remoteIp (addConnection look gs c) =
    (if remoteIpOf c \<in> set (map remoteIp gs) then map remoteIp gs else map remoteIp gs @ [remoteIpOf c])"
  by (induction gs) (auto simp: newGroup_def)

lemma addConnection_groups:
  assumes "list_all (groupOf cs) gs" "distinct (map remoteIp gs)"
    "remoteIpOf c \<notin> set (map remoteIp gs) \<Longrightarrow> filter (\<lambda>d. remoteIpOf d = remoteIpOf c) cs = []"
  shows "list_all (groupOf (cs @ [c])) (addConnection look gs c)"
  using assms
proof (induction gs)
  case Nil
  then show ?case by (simp add: groupOf_def pushConnection_def newGroup_def sumRates_def)
next
  case (Cons g gs)
  show ?case
  proof (cases "remoteIp g = remoteIpOf c")
    case True
    then have "list_all (groupOf (cs @ [c])) gs"
      using Cons.prems by (auto simp: list_all_iff intro!: groupOf_other)
    then show ?thesis using True Cons.prems groupOf_push [of cs g c] by simp
  next
    case False
    then show ?thesis using Cons groupOf_other [of cs g c] by auto
  qed
qed

lemma groups_invariant:
  "let gs = foldl (addConnection look) [] cs in
     list_all (groupOf cs) gs \<and> distinct (map remoteIp gs) \<and> set (map remoteIp gs) = remoteIpOf ` set cs"
proof (induction cs rule: rev_induct)
  case (snoc c cs)
  let ?gs = "foldl (addConnection look) [] cs"
  have IH: "list_all (groupOf cs) ?gs" "distinct (map remoteIp ?gs)" "set (map remoteIp ?gs) = remoteIpOf ` set cs"
    using snoc by (simp_all add: Let_def)
  have "remoteIpOf c \<notin> set (map remoteIp ?gs) \<Longrightarrow> filter (\<lambda>d. remoteIpOf d = remoteIpOf c) cs = []"
    unfolding IH(3) filter_empty_conv by (metis imageI)
  then have "list_all (groupOf (cs @ [c])) (addConnection look ?gs c)"
    by (rule addConnection_groups [OF IH(1,2)])
  then show ?case using IH(2,3) by (auto simp: Let_def addConnection_ips simp del: set_map)
qed simp

lemma finishGroup_fields [simp]: "remoteIp (finishGroup g) = remoteIp g" "gconnections (finishGroup g) = gconnections g"
    "txBps (finishGroup g) = txBps g" "rxBps (finishGroup g) = rxBps g" "gcount (finishGroup g) = length (gconnections g)"
    "gports (finishGroup g) = portsForConnections (gconnections g)"
  by (simp_all add: finishGroup_def Let_def)

text \<open>
  The connection table accounts for every connection that passes the protocol filter and
  the search, once: there is one group per remote address, it holds exactly the connections
  to that address in their order, and its rates and count are those of its connections.
\<close>

theorem groupsForResponse_partition:
  fixes response protocol search :: jval and look :: lookup
  defines "cs \<equiv> filteredConnections response protocol search look"
    and "gs \<equiv> groupsForResponse response protocol search look"
  shows "distinct (map remoteIp gs) \<and> set (map remoteIp gs) = remoteIpOf ` set cs \<and>
    list_all (\<lambda>g. gconnections g = filter (\<lambda>c. remoteIpOf c = remoteIp g) cs \<and> gconnections g \<noteq> [] \<and>
      gcount g = length (gconnections g) \<and> txBps g = sumRates ''tx_bps'' (gconnections g) \<and>
      rxBps g = sumRates ''rx_bps'' (gconnections g)) gs"
proof -
  have "map remoteIp (map finishGroup hs) = map remoteIp hs" for hs by simp
  then show ?thesis
    using groups_invariant [of look cs]
    unfolding gs_def groupsForResponse_def cs_def [symmetric] Let_def
    by (auto simp: list_all_iff groupOf_def simp del: map_map)
qed

subsection \<open>Ports\<close>

lemma portOf_Fin: "portOf c = Some p \<Longrightarrow> \<exists>i :: int. p = Fin (of_int i)"
  by (cases "toNum (jfield c ''remote_port'')") (auto simp: portOf_def Let_def split: if_splits intro: exI [of _ "\<lfloor>_\<rfloor>"] dest: sym)

lemma numToString_int_inject: "numToString (Fin (of_int i)) = numToString (Fin (of_int j)) \<longleftrightarrow> i = j"
  by (simp add: showInt_inject)

lemma collectPorts_set:
  "p \<in> set (collectPorts seen cs) \<longleftrightarrow> numToString p \<notin> seen \<and> (\<exists>c \<in> set cs. portOf c = Some p)"
proof (induction cs arbitrary: seen)
  case (Cons c cs)
  show ?case
  proof (cases "portOf c")
    case (Some q)
    have "p = q" if "numToString p = numToString q" "portOf d = Some p" for d
      using that portOf_Fin [OF Some] portOf_Fin [OF that(2)] numToString_int_inject by metis
    then show ?thesis using Cons Some by auto
  qed (use Cons in auto)
qed simp

lemma collectPorts_distinct: "distinct (collectPorts seen cs)"
  by (induction cs arbitrary: seen) (auto simp: collectPorts_set split: option.split)

lemma strictly_sorted:
  assumes "sorted_wrt numeric.le xs" "distinct xs" "set xs \<subseteq> range Fin"
  shows "sorted_wrt (\<lambda>p q. nlt p q) xs"
  using assms
proof (induction xs)
  case (Cons x xs)
  have "nlt x y" if "y \<in> set xs" for y
  proof -
    have "x \<in> range Fin" "y \<in> range Fin" "numeric.le x y" "x \<noteq> y" using that Cons.prems by auto
    then obtain a b where "x = Fin a" "y = Fin b" "numeric.le x y" "x \<noteq> y" by blast
    then show ?thesis by (simp add: numeric_le_Fin)
  qed
  then show ?case using Cons by simp
qed simp

text \<open>
  The ports of a group are the whole-numbered remote ports of its connections, each once
  and in increasing order.
\<close>

theorem portsForConnections_sorted:
  "set (portsForConnections cs) = {p. \<exists>c \<in> set cs. portOf c = Some p} \<and>
   sorted_wrt (\<lambda>p q. nlt p q) (portsForConnections cs)"
proof
  show mem: "set (portsForConnections cs) = {p. \<exists>c \<in> set cs. portOf c = Some p}"
    by (auto simp: portsForConnections_def collectPorts_set)
  have fin: "set (collectPorts {} cs) \<subseteq> range Fin"
    using portOf_Fin by (fastforce simp: collectPorts_set)
  let ?xs = "portsForConnections cs"
  have le: "sorted_wrt numeric.le ?xs" unfolding portsForConnections_def by (rule numeric.sorted_sort [OF fin])
  have "distinct ?xs" by (simp add: portsForConnections_def collectPorts_distinct)
  moreover have "set ?xs \<subseteq> range Fin" using fin by (simp add: portsForConnections_def)
  ultimately show "sorted_wrt (\<lambda>p q. nlt p q) ?xs" by (rule strictly_sorted [OF le])
qed

subsection \<open>Order of the groups\<close>

definition missingPort :: "string \<Rightarrow> group \<times> nat \<Rightarrow> group \<times> nat \<Rightarrow> jnum" where
  "missingPort key l r = (if key \<noteq> ''remote_port'' then Fin 0
     else nsub (Fin (if gports (fst l) = [] then 1 else 0)) (Fin (if gports (fst r) = [] then 1 else 0)))"

definition groupValue :: "(string \<Rightarrow> string \<Rightarrow> int) \<Rightarrow> string \<Rightarrow> group \<times> nat \<Rightarrow> group \<times> nat \<Rightarrow> jnum" where
  "groupValue collate key l r = (case groupKeyResult collate key (fst l) (fst r) of Inl _ \<Rightarrow> Fin 0 | Inr v \<Rightarrow> v)"

lemma groupCompare_lex:
  "groupCompare collate key direction = lexCompare (missingPort key)
     (lexCompare (\<lambda>l r. directed direction (groupValue collate key l r))
       (lexCompare (\<lambda>l r. compareText collate (JStr (remoteIp (fst l))) (JStr (remoteIp (fst r))))
         (\<lambda>l r. nsub (Fin (of_nat (snd l))) (Fin (of_nat (snd r))))))"
proof (intro ext)
  fix l r :: "group \<times> nat"
  have "(\<exists>e. groupKeyResult collate key (fst l) (fst r) = Inl e \<and> missingPort key l r = e \<and> truthy (JNum e)) \<or>
      (\<exists>v. groupKeyResult collate key (fst l) (fst r) = Inr v \<and> missingPort key l r = Fin 0)"
    by (cases "key = ''remote_port''"; cases "gports (fst l)"; cases "gports (fst r)")
      (simp_all add: groupKeyResult_def missingPort_def nsub_def)
  then show "groupCompare collate key direction l r = lexCompare (missingPort key)
     (lexCompare (\<lambda>l r. directed direction (groupValue collate key l r))
       (lexCompare (\<lambda>l r. compareText collate (JStr (remoteIp (fst l))) (JStr (remoteIp (fst r))))
         (\<lambda>l r. nsub (Fin (of_nat (snd l))) (Fin (of_nat (snd r)))))) l r"
    by (auto simp: groupCompare_def lexCompare_def groupValue_def directed_def Let_def)
qed

lemma consistent_numbers: "(\<And>x. x \<in> A \<Longrightarrow> k x \<noteq> NaN) \<Longrightarrow> consistent A (\<lambda>a b. nsub (k a) (k b))"
  by (rule consistent_key [OF consistent_nsub]) auto

definition portsOk :: "group \<times> nat \<Rightarrow> bool" where
  "portsOk e \<longleftrightarrow> NaN \<notin> set (gports (fst e))"

lemma consistent_missing_port:
  assumes g: "consistent UNIV (\<lambda>l r. g l r)"
  shows "consistent {e. portsOk e} (lexCompare (missingPort ''remote_port'')
    (lexCompare (\<lambda>l r. directed d (groupValue collate ''remote_port'' l r)) g))"
proof -
  let ?key = "\<lambda>e :: group \<times> nat. case gports (fst e) of [] \<Rightarrow> Fin 0 | p # _ \<Rightarrow> p"
  have fin: "portsOk e \<Longrightarrow> ?key e \<noteq> NaN" for e by (auto simp: portsOk_def split: list.splits)
  have miss: "consistent A (missingPort ''remote_port'')" for A
    using consistent_numbers [of A "\<lambda>e. Fin (if gports (fst e) = [] then 1 else 0)"] by (simp add: missingPort_def [abs_def])
  have val: "consistent {e. portsOk e} (\<lambda>l r. directed d (nsub (?key l) (?key r)))"
    by (intro consistent_directed consistent_numbers fin) simp
  have eq: "lexCompare (missingPort ''remote_port'')
      (lexCompare (\<lambda>l r. directed d (groupValue collate ''remote_port'' l r)) g) l r =
    lexCompare (missingPort ''remote_port'') (lexCompare (\<lambda>l r. directed d (nsub (?key l) (?key r))) g) l r" for l r
    by (cases "gports (fst l)"; cases "gports (fst r)")
      (simp_all add: lexCompare_def missingPort_def groupValue_def groupKeyResult_def nsub_def)
  show ?thesis
    unfolding eq [THEN ext, THEN ext]
    by (intro consistent_lex miss val consistent_subset [OF g]) simp
qed

lemma groupCompare_consistent:
  assumes col: "collation collate" and key: "key \<in> set GROUP_KEYS"
  shows "consistent {e. portsOk e} (groupCompare collate key direction)"
proof -
  let ?tie = "lexCompare (\<lambda>l r :: group \<times> nat. compareText collate (JStr (remoteIp (fst l))) (JStr (remoteIp (fst r))))
         (\<lambda>l r. nsub (Fin (of_nat (snd l))) (Fin (of_nat (snd r))))"
  have tie: "consistent A ?tie" for A
    by (intro consistent_lex consistent_compareText [OF col] consistent_numbers) simp
  show ?thesis
  proof (cases "key = ''remote_port''")
    case True
    then show ?thesis unfolding groupCompare_lex by (simp only: consistent_missing_port [OF tie])
  next
    case False
    have rate: "numOr (JNum n) (Fin 0) \<noteq> NaN" for n by (auto simp: numOr_def)
    have "groupValue collate key =
      (if key = ''remote_ip'' then (\<lambda>l r. compareText collate (JStr (remoteIp (fst l))) (JStr (remoteIp (fst r))))
       else if key = ''location'' then (\<lambda>l r. compareText collate (JStr (glocation (fst l))) (JStr (glocation (fst r))))
       else if key = ''protocol'' then (\<lambda>l r. compareText collate (JStr (gprotocol (fst l))) (JStr (gprotocol (fst r))))
       else if key = ''state'' then (\<lambda>l r. compareText collate (JStr (gstate (fst l))) (JStr (gstate (fst r))))
       else if key = ''tx'' then (\<lambda>l r. nsub (numOr (JNum (txBps (fst l))) (Fin 0)) (numOr (JNum (txBps (fst r))) (Fin 0)))
       else if key = ''count'' then (\<lambda>l r. nsub (Fin (of_nat (gcount (fst l)))) (Fin (of_nat (gcount (fst r)))))
       else (\<lambda>l r. nsub (numOr (JNum (rxBps (fst l))) (Fin 0)) (numOr (JNum (rxBps (fst r))) (Fin 0))))"
      using False by (auto simp: fun_eq_iff groupValue_def groupKeyResult_def)
    moreover have "consistent A (\<lambda>l r. nsub (numOr (JNum (txBps (fst l))) (Fin 0)) (numOr (JNum (txBps (fst r))) (Fin 0)))"
        "consistent A (\<lambda>l r. nsub (numOr (JNum (rxBps (fst l))) (Fin 0)) (numOr (JNum (rxBps (fst r))) (Fin 0)))"
        "consistent A (\<lambda>l r. nsub (Fin (of_nat (gcount (fst l)))) (Fin (of_nat (gcount (fst r)))))" for A :: "(group \<times> nat) set"
      using rate by (intro consistent_numbers; simp)+
    ultimately have val: "consistent A (groupValue collate key)" for A
      by (simp add: consistent_compareText [OF col])
    have "missingPort key = (\<lambda>l r. Fin 0)" using False by (simp add: fun_eq_iff missingPort_def)
    then show ?thesis
      unfolding groupCompare_lex by (simp only: consistent_lex consistent_zero consistent_directed val tie)
  qed
qed

text \<open>
  Sorting the table keeps every group and orders it: for every column and both
  directions the result is a permutation of the groups in the order of the comparator, and
  for the port column the groups without a port stand last in both directions.
\<close>

theorem sortGroups_correct:
  fixes collate :: "string \<Rightarrow> string \<Rightarrow> int" and groups :: "group list" and sk sd :: string
  assumes col: "collation collate" and ports: "\<forall>g \<in> set groups. NaN \<notin> set (gports g)"
  defines "key \<equiv> if sk \<in> set GROUP_KEYS then sk else ''rx''" and "direction \<equiv> if sd = ''asc'' then ''asc'' else ''desc''"
    and "out \<equiv> sortGroups collate groups sk sd"
  shows "mset out = mset groups \<and>
    (\<exists>entries. out = map fst entries \<and> mset entries = mset (zip groups [0..<length groups]) \<and>
       sorted_wrt (\<lambda>l r. \<not> positive (groupCompare collate key direction l r)) entries) \<and>
    (key = ''remote_port'' \<longrightarrow> sorted_wrt (\<lambda>g h. gports g = [] \<longrightarrow> gports h = []) out)"
proof -
  let ?es = "jsSort (groupCompare collate key direction) (zip groups [0..<length groups])"
  have out: "out = map fst ?es" by (simp add: out_def sortGroups_def key_def direction_def Let_def)
  have key: "key \<in> set GROUP_KEYS" by (simp add: key_def GROUP_KEYS_def)
  have sub: "set (zip groups [0..<length groups]) \<subseteq> {e. portsOk e}"
    using ports by (auto simp: portsOk_def dest: set_zip_leftD)
  have cmp: "js_comparator {e. portsOk e} (groupCompare collate key direction)"
    by (rule consistent_comparator [OF groupCompare_consistent [OF col key]])
  have sorted: "sorted_wrt (\<lambda>l r. \<not> positive (groupCompare collate key direction l r)) ?es"
    using js_comparator.sorted_sort [OF cmp sub] by (simp add: js_comparator.le_def [OF cmp, abs_def])
  have perm: "mset ?es = mset (zip groups [0..<length groups])" by simp
  then have "mset out = mset groups" unfolding out mset_map by (simp flip: mset_map)
  moreover have "sorted_wrt (\<lambda>g h. gports g = [] \<longrightarrow> gports h = []) out" if "key = ''remote_port''"
    unfolding out sorted_wrt_map
  proof (rule sorted_wrt_mono_rel [OF _ sorted])
    fix l r assume "\<not> positive (groupCompare collate key direction l r)"
    then show "gports (fst l) = [] \<longrightarrow> gports (fst r) = []"
      using that by (cases "gports (fst r)") (auto simp: groupCompare_def groupKeyResult_def positive_def)
  qed
  ultimately show ?thesis using out perm sorted by blast
qed

theorem sortGroups_correct_witness:
  "let g = newGroup None ''1.1.1.1''; h = (newGroup None ''2.2.2.2'')\<lparr>gports := [Fin 443]\<rparr>
   in mset (sortGroups (\<lambda>a b. 0) [g, h] ''remote_port'' ''desc'') = mset [g, h]"
proof -
  let ?g = "newGroup None ''1.1.1.1''" and ?h = "(newGroup None ''2.2.2.2'')\<lparr>gports := [Fin 443]\<rparr>"
  have "collation (\<lambda>a b. 0)" by (simp add: collation_def consistent_def)
  moreover have "\<forall>g \<in> set [?g, ?h]. NaN \<notin> set (gports g)" by (simp add: newGroup_def)
  ultimately show ?thesis using sortGroups_correct [of "\<lambda>a b. 0" "[?g, ?h]" "''remote_port''" "''desc''"] by simp
qed

end
