(* ===== verification/ClientControl.thy ===== *)
theory ClientControl
  imports JsBase
begin

text \<open>
  \<open>lanspeed/clientControl.js\<close> and the reason tables \<open>clientControlReasons*.js\<close>: the rate
  limit and internet switch of one client. The dialog converts between the bit rates of the
  daemon and the decimal Mbps text of its inputs, \<open>run\<close> sends one request per client at a
  time, and \<open>cell\<close> decides which buttons a row offers.

  A translated text of the source is named by its key in the reason tables, or by an English
  gloss elsewhere. Building DOM nodes is left out; what they show and whether they are enabled
  is kept.
\<close>

section \<open>Reasons\<close>

definition SHARED_LABELS :: "(string \<times> mtext) list" where
  "SHARED_LABELS = map (\<lambda>k. (k, Tr k)) [
    ''invalid_identity_key'', ''unknown_identity'', ''ambiguous_identity'',
    ''identity_address_unavailable'', ''identity_interface_unavailable'', ''invalid_rate'',
    ''missing_rate'', ''rate_below_minimum'', ''rate_above_platform_maximum'', ''invalid_switch'',
    ''conntrack_control_unavailable'', ''missing_tc'', ''missing_ip'', ''missing_nft'',
    ''missing_conntrack'', ''missing_ubus'', ''conntrack_cleanup_failed'',
    ''invalid_rate_resolution'', ''interface_status_unavailable'',
    ''traffic_verification_pending'', ''direction_verification_pending'', ''queue_overflow'',
    ''local_network_unavailable'', ''control_rollback_failed'', ''control_rule_limit'',
    ''control_apply_failed'']"

definition X86_LABELS :: "(string \<times> mtext) list" where
  "X86_LABELS = map (\<lambda>k. (k, Tr k)) [
    ''lan_control_interface_unavailable'', ''qdisc_owned_by_external_service'',
    ''ifb_qdisc_owned_by_external_service'', ''download_qdisc_preflight_conflict'',
    ''download_qdisc_stage_conflict'', ''ifb_module_unavailable'',
    ''ifb_owned_by_external_service'', ''ifb_inspection_failed'', ''sch_htb_unavailable'',
    ''sch_fq_unavailable'', ''cls_u32_unavailable'', ''cls_matchall_unavailable'',
    ''act_mirred_unavailable'', ''act_gact_unavailable'',
    ''ingress_qdisc_owned_by_external_service'', ''ingress_filter_owned_by_external_service'',
    ''ingress_chain_owned_by_external_service'', ''ingress_filter_inspection_failed'',
    ''ingress_filter_verification_failed'', ''ingress_filter_cleanup_failed'',
    ''block_filter_owned_by_external_service'', ''block_chain_owned_by_external_service'',
    ''block_filter_inspection_failed'', ''block_filter_verification_failed'',
    ''block_filter_cleanup_failed'', ''control_filter_capacity'', ''control_topology_changed'',
    ''qdisc_inspection_failed'', ''qdisc_inspection_invalid'', ''queue_tree_verification_failed'',
    ''queue_stats_unavailable'']"

definition NSS_LABELS :: "(string \<times> mtext) list" where
  "NSS_LABELS = map (\<lambda>k. (k, Tr k)) [
    ''nss_path_identity_pending'', ''nss_control_rollback_failed'',
    ''nss_control_command_timeout'', ''nss_ecm_dscp_unavailable'', ''nss_qdisc_unavailable'',
    ''nss_wan_topology_invalid'', ''nss_netifd_topology_unavailable'',
    ''nss_fw4_topology_unavailable'', ''nss_wan_interface_unavailable'',
    ''nss_download_edge_unavailable'', ''nss_download_edge_invalid'',
    ''nss_default_class_capacity_exceeded'', ''nss_qdisc_owned_by_external_service'',
    ''nss_qdisc_apply_failed'', ''nss_qdisc_inspection_failed'', ''nss_qdisc_verification_failed'',
    ''nss_control_firewall_owned_by_external_service'', ''nss_control_firewall_inspection_failed'',
    ''nss_control_firewall_failed'', ''cpu_path_block_interface_unavailable'',
    ''cpu_path_block_owned_by_external_service'', ''cpu_path_block_inspection_failed'',
    ''cpu_path_block_apply_failed'', ''cpu_path_block_missing'', ''cpu_path_block_stale'',
    ''cpu_path_block_cleanup_failed'', ''cpu_path_probe_interface_unavailable'',
    ''cpu_path_probe_owned_by_external_service'', ''cpu_path_probe_inspection_failed'',
    ''cpu_path_probe_apply_failed'', ''cpu_path_probe_missing'', ''cpu_path_probe_stale'',
    ''cpu_path_probe_cleanup_failed'', ''cpu_path_classifier_owned_by_external_service'',
    ''cpu_path_classifier_inspection_failed'', ''cpu_path_classifier_verification_failed'',
    ''cpu_path_classifier_missing'', ''cpu_path_classifier_stale'',
    ''cpu_path_qdisc_owned_by_external_service'', ''cpu_path_qdisc_verification_failed'',
    ''cpu_path_qdisc_inspection_failed'', ''cpu_path_class_inspection_failed'',
    ''cpu_path_filter_owned_by_external_service'', ''cpu_path_filter_inspection_failed'',
    ''cpu_path_filter_verification_failed'']"

text \<open>\<open>Object.assign\<close>: a later table wins.\<close>

definition CONTROL_REASONS :: "string \<rightharpoonup> mtext" where
  "CONTROL_REASONS = map_of SHARED_LABELS ++ map_of X86_LABELS ++ map_of NSS_LABELS"

text \<open>
  The table is an object literal: an inherited name is found too and gives a function, which
  the callers show as text.
\<close>

definition reasonText :: "jval \<Rightarrow> mtext" where
  "reasonText reason = (let k = toStr (jor reason (JStr [])) in
     case CONTROL_REASONS k of Some t \<Rightarrow> t
     | None \<Rightarrow> if k \<in> set protoKeys then Lit (toStr (JProto k))
              else if truthy reason then Fmt ''control unavailable: %s'' [Lit (toStr reason)]
              else Lit [])"

section \<open>Rates\<close>

text \<open>\<open>toFixed\<close> on a number from 0 to \<open>10 ^ 21\<close>.\<close>

fun padDigits :: "nat \<Rightarrow> nat \<Rightarrow> string" where
  "padDigits 0 n = []"
| "padDigits (Suc k) n = padDigits k (n div 10) @ [digitChar (n mod 10)]"

definition toFixed :: "nat \<Rightarrow> jnum \<Rightarrow> string" where
  "toFixed k v = (case v of
     Fin q \<Rightarrow> (let n = nat \<lfloor>q * 10 ^ k + 1/2\<rfloor> in
       if 10 ^ 21 \<le> q then numToString v
       else showNat (n div 10 ^ k) @ CHR ''.'' # padDigits k (n mod 10 ^ k))
   | _ \<Rightarrow> numToString v)"

definition stripZeros :: "string \<Rightarrow> string" where
  "stripZeros s = rev (dropWhile (\<lambda>c. c = CHR ''0'') (rev s))"

definition stripDot :: "string \<Rightarrow> string" where
  "stripDot s = (if s \<noteq> [] \<and> last s = CHR ''.'' then butlast s else s)"

definition bpsToMbps :: "jval \<Rightarrow> string" where
  "bpsToMbps v = (let n = numOr v (Fin 0) in
     if nlt (Fin 0) n then stripDot (stripZeros (toFixed 6 (nscale (1 / 1000000) n))) else [])"

datatype rate_error = InvalidRate | BelowMinimum | AboveMaximum jnum

definition mbpsToBps :: "jval \<Rightarrow> jval \<Rightarrow> rate_error + rat" where
  "mbpsToBps v maximum = (if v = JStr [] \<or> v = JNull \<or> v = JUndef then Inr 0
     else (case toNum v of
       Fin q \<Rightarrow> if q < 0 then Inl InvalidRate
         else (let bps = of_int \<lfloor>q * 125000 + 1/2\<rfloor> * 8 in
           if bps \<noteq> 0 \<and> bps < 8000 then Inl BelowMinimum
           else if nlt (toNum (jor maximum (num 0))) (Fin bps)
             then Inl (AboveMaximum (nscale (1 / 1000000) (toNum maximum)))
           else Inr bps)
     | _ \<Rightarrow> Inl InvalidRate))"

section \<open>Requests\<close>

text \<open>A thrown error: one the code throws itself, or the value a promise was rejected with.\<close>

datatype control_error = Failed mtext | Rejected jval

definition ensureOk :: "jval \<Rightarrow> control_error + jval" where
  "ensureOk response = (if truthy response \<and> jget response ''ok'' = JBool True then Inr response
     else (let reason = jor (jfield response ''error'') (jfield (jfield response ''control'') ''reason'')
           in Inl (Failed (if reasonText reason = Lit [] then Tr ''applying the control rule failed''
                           else reasonText reason))))"

definition errorText :: "control_error \<Rightarrow> mtext" where
  "errorText e = (case e of Failed t \<Rightarrow> t
     | Rejected v \<Rightarrow> Lit (toStr (if truthy (jfield v ''message'') then jget v ''message'' else v)))"

text \<open>
  The state \<open>run\<close> works on: the keys of \<open>viewState.controlBusy\<close>, the response shown in the
  client table, whether the view has the two timer functions, and the requests in flight. A
  request waits for its RPC, then for the reload of the view.
\<close>

record job =
  jobKey :: jval
  jobPaused :: bool
  jobReloading :: bool

record control_view =
  controlBusy :: "string list"
  clientRows :: jval
  hasStopTimer :: bool
  hasSchedule :: bool
  jobs :: "job list"

datatype effect = StopTimer | RefreshLive | StartTask jval | HideModal | Reload
  | Feedback mtext | Notification mtext | Schedule

definition controlInit :: "jval \<Rightarrow> control_view" where
  "controlInit rows = \<lparr>controlBusy = [], clientRows = rows, hasStopTimer = True,
     hasSchedule = True, jobs = []\<rparr>"

definition isBusy :: "control_view \<Rightarrow> jval \<Rightarrow> bool" where
  "isBusy v key \<longleftrightarrow> toStr key \<in> set (controlBusy v) \<or> toStr key \<in> set protoKeys"

definition runStart :: "bool \<Rightarrow> jval \<Rightarrow> control_view \<Rightarrow> control_view \<times> effect list" where
  "runStart wasPaused key v = (if isBusy v key then (v, [])
     else (v\<lparr>controlBusy := toStr key # controlBusy v,
             jobs := \<lparr>jobKey = key, jobPaused = wasPaused, jobReloading = False\<rparr> # jobs v\<rparr>,
           (if \<not> wasPaused \<and> hasStopTimer v then [StopTimer] else []) @ [RefreshLive, StartTask key]))"

text \<open>The rows of the client, by identity, get the new control state.\<close>

fun putControl :: "jval \<Rightarrow> jval \<Rightarrow> jval \<Rightarrow> jval" where
  "putControl key control (JObj ps) =
     (if strictEq (jget (JObj ps) ''identity_key'') key then JObj (putProp ''control'' control ps) else JObj ps)"
| "putControl key control c = c"

definition applyControl :: "jval \<Rightarrow> jval \<Rightarrow> jval \<Rightarrow> jval" where
  "applyControl key response rows = (case (rows, jfield rows ''clients'') of
     (JObj ps, JArr cs) \<Rightarrow>
       if truthy (jget response ''control'')
       then JObj (putProp ''clients'' (JArr (map (putControl key (jget response ''control'')) cs)) ps)
       else rows
   | _ \<Rightarrow> rows)"

text \<open>The \<open>finally\<close> block.\<close>

definition runFinally :: "job \<Rightarrow> control_view \<Rightarrow> control_view \<times> effect list" where
  "runFinally j v = (v\<lparr>controlBusy := filter (\<lambda>k. k \<noteq> toStr (jobKey j)) (controlBusy v),
       jobs := filter (\<lambda>i. toStr (jobKey i) \<noteq> toStr (jobKey j)) (jobs v)\<rparr>,
     RefreshLive # (if \<not> jobPaused j \<and> hasSchedule v then [Schedule] else []))"

text \<open>The \<open>catch\<close> block; \<open>dialog\<close> says whether the dialog with its feedback line is open.\<close>

definition runCatch :: "bool \<Rightarrow> control_error \<Rightarrow> job \<Rightarrow> control_view \<Rightarrow> control_view \<times> effect list" where
  "runCatch dialog e j v = (let (v', es) = runFinally j v in
     (v', (if dialog then Feedback (errorText e) else Notification (errorText e)) # es))"

text \<open>The answer of the RPC.\<close>

definition markReloading :: "job \<Rightarrow> job list \<Rightarrow> job list" where
  "markReloading j js = map (\<lambda>i. if toStr (jobKey i) = toStr (jobKey j) then i\<lparr>jobReloading := True\<rparr> else i) js"

definition runReply :: "bool \<Rightarrow> control_error + jval \<Rightarrow> job \<Rightarrow> control_view \<Rightarrow> control_view \<times> effect list" where
  "runReply dialog answer j v = (case case_sum Inl ensureOk answer of
     Inl e \<Rightarrow> runCatch dialog e j v
   | Inr response \<Rightarrow>
       (v\<lparr>clientRows := applyControl (jobKey j) response (clientRows v),
          jobs := markReloading j (jobs v)\<rparr>, [RefreshLive, HideModal, Reload]))"

text \<open>The end of the reload.\<close>

definition runReloaded :: "bool \<Rightarrow> control_error option \<Rightarrow> job \<Rightarrow> control_view \<Rightarrow> control_view \<times> effect list" where
  "runReloaded dialog failure j v = (case failure of
     Some e \<Rightarrow> runCatch dialog e j v | None \<Rightarrow> runFinally j v)"

text \<open>The arguments of the RPC that \<open>setRule\<close> sends, and the rule \<open>toggleBlock\<close> asks for.\<close>

definition setRule :: "jval \<Rightarrow> jnum \<Rightarrow> jnum \<Rightarrow> bool \<Rightarrow> string list" where
  "setRule client upload download disabled = [toStr (jget client ''identity_key''),
     numToString upload, numToString download, if disabled then ''1'' else ''0'']"

definition controlOf :: "jval \<Rightarrow> jval" where
  "controlOf client = jor (jget client ''control'') (JObj [])"

definition toggleBlock :: "jval \<Rightarrow> string list" where
  "toggleBlock client = setRule client (numOr (jget (controlOf client) ''upload_bps'') (Fin 0))
     (numOr (jget (controlOf client) ''download_bps'') (Fin 0))
     (jget (controlOf client) ''internet_disabled'' \<noteq> JBool True)"

text \<open>What the save button of the dialog does with the texts of its two inputs.\<close>

definition saveLimit :: "jval \<Rightarrow> string \<Rightarrow> string \<Rightarrow> rate_error + string list" where
  "saveLimit client upload download = (let control = controlOf client in
     case mbpsToBps (JStr upload) (jget control ''max_rate_bps'') of Inl e \<Rightarrow> Inl e
     | Inr up \<Rightarrow> (case mbpsToBps (JStr download) (jget control ''max_rate_bps'') of Inl e \<Rightarrow> Inl e
       | Inr down \<Rightarrow> Inr (setRule client (Fin up) (Fin down)
           (jget control ''internet_disabled'' = JBool True))))"

text \<open>The texts the dialog opens with.\<close>

definition openLimit :: "jval \<Rightarrow> string \<times> string" where
  "openLimit client = (bpsToMbps (jget (controlOf client) ''upload_bps''),
     bpsToMbps (jget (controlOf client) ''download_bps''))"

section \<open>What a row shows\<close>

record client_name =
  shownName :: mtext
  shownDetails :: "string list"

definition trimmedIps :: "jval \<Rightarrow> string list" where
  "trimmedIps client = filter (\<lambda>s. s \<noteq> [])
     (map (\<lambda>ip. jtrim (toStr (jor ip (JStr [])))) (arrItems (jget client ''ips'')))"

definition primaryIp :: "string list \<Rightarrow> string" where
  "primaryIp ips = (case filter (\<lambda>s. CHR '':'' \<notin> set s) ips of
     ip # _ \<Rightarrow> ip | [] \<Rightarrow> (case ips of ip # _ \<Rightarrow> ip | [] \<Rightarrow> []))"

definition firstText :: "string list \<Rightarrow> string" where
  "firstText ts = (case filter (\<lambda>s. s \<noteq> []) ts of t # _ \<Rightarrow> t | [] \<Rightarrow> [])"

definition clientIdentity :: "jval \<Rightarrow> client_name" where
  "clientIdentity client0 = (let client = jor client0 (JObj []);
       field = (\<lambda>k. jtrim (toStr (jor (jget client k) (JStr []))));
       ip = primaryIp (trimmedIps client); mac = field ''mac'';
       name = firstText [field ''hostname'', ip, mac, field ''identity_key'']
     in \<lparr>shownName = (if name = [] then Tr ''unknown client'' else Lit name),
         shownDetails = filter (\<lambda>d. d \<noteq> [] \<and> d \<noteq> name) [ip, mac]\<rparr>)"

definition controlStateLabel :: "jval \<Rightarrow> mtext option" where
  "controlStateLabel control = (let state = jget control ''state''; reason = jget control ''reason'';
       off = truthy (jget control ''internet_disabled'');
       pending = (state = JStr ''pending_new_connections'')
     in if \<not> truthy control \<or> \<not> truthy (jget control ''configured'') then None
        else if truthy (jget control ''queue_overflow'') then Some (Tr ''queue overflow'')
        else if pending \<and> reason = JStr ''nss_path_identity_pending'' then Some (Tr ''waiting for path'')
        else if pending \<and> reason = JStr ''traffic_verification_pending'' then Some (Tr ''waiting for traffic'')
        else if off \<and> pending then Some (Tr ''blocked, limit to be verified'')
        else if off \<and> state = JStr ''verified'' then Some (Tr ''blocked and limit verified'')
        else if off \<and> state = JStr ''applied'' then Some (Tr ''internet disabled'')
        else if pending then Some (Tr ''for new connections'')
        else if state = JStr ''verified'' then Some (Tr ''verified'')
        else if state = JStr ''error'' \<or> state = JStr ''unsupported'' then Some (Tr ''unavailable'')
        else Some (Tr ''configured''))"

record control_cell =
  limitDisabled :: bool
  limitTitle :: mtext
  limitText :: mtext
  blockDisabled :: bool
  blockTitle :: mtext
  blockText :: mtext
  stateShown :: "(string \<times> mtext) option"

definition hasLimit :: "jval \<Rightarrow> bool" where
  "hasLimit control \<longleftrightarrow> nlt (Fin 0) (toNum (jget control ''upload_bps'')) \<or>
     nlt (Fin 0) (toNum (jget control ''download_bps''))"

definition cell :: "control_view \<Rightarrow> jval \<Rightarrow> control_cell" where
  "cell v client = (let control = controlOf client;
       busy = isBusy v (jget client ''identity_key'');
       blocked = (jget control ''internet_disabled'' = JBool True);
       why = reasonText (jget control ''reason'')
     in \<lparr>limitDisabled = (busy \<or> (jget control ''shaping_supported'' \<noteq> JBool True \<and> \<not> hasLimit control)),
         limitTitle = (if jget control ''shaping_supported'' = JBool True then Tr ''set limits'' else why),
         limitText = (if busy then Tr ''working'' else Tr ''limit''),
         blockDisabled = (busy \<or> (jget control ''blocking_supported'' \<noteq> JBool True \<and> \<not> blocked)),
         blockTitle = (if jget control ''blocking_supported'' = JBool True
           then Tr ''disables internet access only'' else why),
         blockText = (if blocked then Tr ''restore internet'' else Tr ''disable internet''),
         stateShown = map_option (Pair
           (if truthy (jget control ''queue_overflow'') \<or> jget control ''state'' = JStr ''error''
            then ''label danger lanspeed-control-state'' else ''label lanspeed-control-state''))
           (controlStateLabel control)\<rparr>)"

section \<open>Runs\<close>

text \<open>
  The events of the page in any order: a click starts a request, an answer arrives, a reload
  ends. The trace collects the effects.
\<close>

inductive control_step :: "control_view \<Rightarrow> effect list \<Rightarrow> control_view \<Rightarrow> bool" where
  start: "runStart paused key v = (v', es) \<Longrightarrow> control_step v es v'"
| reply: "j \<in> set (jobs v) \<Longrightarrow> \<not> jobReloading j \<Longrightarrow> runReply dialog answer j v = (v', es) \<Longrightarrow>
    control_step v es v'"
| reloaded: "j \<in> set (jobs v) \<Longrightarrow> jobReloading j \<Longrightarrow> runReloaded dialog failure j v = (v', es) \<Longrightarrow>
    control_step v es v'"

inductive control_run :: "jval \<Rightarrow> effect list \<Rightarrow> control_view \<Rightarrow> bool" where
  init: "control_run rows [] (controlInit rows)"
| step: "control_run rows tr v \<Longrightarrow> control_step v es v' \<Longrightarrow> control_run rows (tr @ es) v'"

section \<open>The round trip of the rate inputs\<close>

lemma padDigits_digits: "list_all isDigit (padDigits k n)"
  by (induction k arbitrary: n) (auto simp: digitChar_props)

lemma length_padDigits [simp]: "length (padDigits k n) = k"
  by (induction k arbitrary: n) auto

lemma decVal_padDigits: "decVal (s @ padDigits k n) = decVal s * 10 ^ k + n mod 10 ^ k"
proof (induction k arbitrary: n)
  case (Suc k)
  have "decVal (s @ padDigits (Suc k) n) = 10 * decVal (s @ padDigits k (n div 10)) + n mod 10"
    using decVal_snoc [of "s @ padDigits k (n div 10)"] by (simp add: digitChar_props)
  also have "\<dots> = decVal s * 10 ^ Suc k + n mod 10 ^ Suc k"
    by (simp add: Suc mod_mult2_eq algebra_simps)
  finally show ?case .
qed simp

lemma decVal_zeros: "decVal (s @ replicate k (CHR ''0'')) = decVal s * 10 ^ k"
proof (induction k)
  case (Suc k)
  have "s @ replicate (Suc k) (CHR ''0'') = (s @ replicate k (CHR ''0'')) @ [CHR ''0'']"
    by (simp add: replicate_append_same)
  then show ?case by (simp add: decVal_snoc Suc digitVal_def code_def del: append_assoc)
qed simp

lemma stripZeros_split: "\<exists>k. s = stripZeros s @ replicate k (CHR ''0'')"
proof -
  have "takeWhile (\<lambda>c. c = CHR ''0'') (rev s) = replicate (length (takeWhile (\<lambda>c. c = CHR ''0'') (rev s))) (CHR ''0'')"
    by (intro replicate_eqI [symmetric, THEN sym]) (auto dest: set_takeWhileD)
  then have "rev s = replicate (length (takeWhile (\<lambda>c. c = CHR ''0'') (rev s))) (CHR ''0'') @ rev (stripZeros s)"
    unfolding stripZeros_def by (metis takeWhile_dropWhile_id rev_rev_ident)
  then show ?thesis by (metis rev_append rev_replicate rev_rev_ident)
qed

lemma stripZeros_point: "stripZeros (ip @ CHR ''.'' # fp) = ip @ CHR ''.'' # stripZeros fp"
proof -
  have "dropWhile (\<lambda>c. c = CHR ''0'') (xs @ CHR ''.'' # ys) = dropWhile (\<lambda>c. c = CHR ''0'') xs @ CHR ''.'' # ys" for xs ys
    by (induction xs) auto
  then show ?thesis by (simp add: stripZeros_def)
qed

text \<open>A decimal text with at most \<open>k\<close> decimals, printed without trailing zeros, keeps its value.\<close>

lemma strToNumber_stripped:
  assumes "list_all isDigit fp"
  shows "strToNumber (stripDot (stripZeros (showNat m @ CHR ''.'' # fp))) =
    Fin (of_nat (decVal (showNat m @ fp)) / 10 ^ length fp)"
proof -
  obtain k where k: "fp = stripZeros fp @ replicate k (CHR ''0'')" using stripZeros_split by blast
  let ?f = "stripZeros fp"
  have digits: "list_all isDigit ?f" using assms k by (metis list_all_append)
  have len: "length fp = length ?f + k" using k by (metis length_append length_replicate)
  have val: "decVal (showNat m @ fp) = decVal (showNat m @ ?f) * 10 ^ k"
    using decVal_zeros [of "showNat m @ ?f" k] k by (metis append_assoc)
  show ?thesis
  proof (cases "?f = []")
    case True
    have "stripDot (stripZeros (showNat m @ CHR ''.'' # fp)) = showNat m"
      by (simp add: stripZeros_point True stripDot_def)
    then show ?thesis using val len True by simp
  next
    case False
    have "isDigit (last ?f)" using digits False by (simp add: list_all_iff)
    then have "last ?f \<noteq> CHR ''.''" by (auto simp: isDigit_def code_def)
    then have "stripDot (stripZeros (showNat m @ CHR ''.'' # fp)) = showNat m @ CHR ''.'' # ?f"
      using False by (simp add: stripZeros_point stripDot_def)
    moreover have "(10::rat) ^ length fp = 10 ^ length ?f * 10 ^ k" by (simp add: len power_add)
    ultimately show ?thesis
      using strToNumber_decimal [OF showNat_digits _ digits, of m] val by (simp add: pow10_def)
  qed
qed

lemma mbpsToBps_grid:
  assumes "toNum v = Fin (of_nat (8 * k) / 1000000)" "v \<noteq> JStr []" "v \<noteq> JNull" "v \<noteq> JUndef"
    and "1000 \<le> k" "\<not> nlt (toNum (jor maximum (num 0))) (Fin (of_nat (8 * k)))"
  shows "mbpsToBps v maximum = Inr (of_nat (8 * k))"
proof -
  have "\<lfloor>of_nat (8 * k) / 1000000 * 125000 + 1 / 2 :: rat\<rfloor> = int k" by (simp add: floor_eq_iff)
  then show ?thesis using assms unfolding mbpsToBps_def
    by (simp add: Let_def mult.commute)
qed

text \<open>What the daemon accepts: no limit, or a multiple of 8 bit/s from 8000 up to the maximum.\<close>

definition validRate :: "jval \<Rightarrow> nat \<Rightarrow> bool" where
  "validRate maximum b \<longleftrightarrow> b = 0 \<or> b mod 8 = 0 \<and> 8000 \<le> b \<and> b < 10 ^ 27 \<and>
     \<not> nlt (toNum (jor maximum (num 0))) (Fin (of_nat b))"

lemma bpsToMbps_value:
  assumes "0 < b" "b < 10 ^ 27"
  shows "strToNumber (bpsToMbps (num (of_nat b))) = Fin (of_nat b / 1000000)"
    and "bpsToMbps (num (of_nat b)) \<noteq> []"
proof -
  have "\<lfloor>of_nat b / 1000000 * 10 ^ 6 + 1 / 2 :: rat\<rfloor> = int b" by (simp add: floor_eq_iff)
  moreover have "(of_nat b / 1000000 :: rat) < 10 ^ 21"
  proof -
    have "(of_nat b :: rat) < of_nat (10 ^ 27)" using assms(2) by (simp only: of_nat_less_iff)
    then show ?thesis by simp
  qed
  ultimately have fixed: "bpsToMbps (num (of_nat b)) =
      stripDot (stripZeros (showNat (b div 10 ^ 6) @ CHR ''.'' # padDigits 6 (b mod 10 ^ 6)))"
    using assms(1) by (simp add: bpsToMbps_def numOr_def toFixed_def Let_def)
  have "decVal (showNat (b div 10 ^ 6) @ padDigits 6 (b mod 10 ^ 6)) = b"
    using decVal_padDigits [of "showNat (b div 10 ^ 6)" 6 "b mod 10 ^ 6"] by simp
  then show val: "strToNumber (bpsToMbps (num (of_nat b))) = Fin (of_nat b / 1000000)"
    unfolding fixed strToNumber_stripped [OF padDigits_digits] length_padDigits by simp
  show "bpsToMbps (num (of_nat b)) \<noteq> []"
  proof
    assume "bpsToMbps (num (of_nat b)) = []"
    then have "strToNumber [] = Fin (of_nat b / 1000000)" using val by simp
    then show False using assms(1) by (simp add: strToNumber_def jtrim_def trimBy_def)
  qed
qed

lemma mbpsToBps_bpsToMbps:
  assumes "validRate maximum b"
  shows "mbpsToBps (JStr (bpsToMbps (num (of_nat b)))) maximum = Inr (of_nat b)"
proof (cases "b = 0")
  case True
  then show ?thesis by (simp add: bpsToMbps_def numOr_def mbpsToBps_def)
next
  case False
  then have b: "b mod 8 = 0" "8000 \<le> b" "b < 10 ^ 27" "\<not> nlt (toNum (jor maximum (num 0))) (Fin (of_nat b))"
    using assms by (simp_all add: validRate_def)
  then obtain k where k: "b = 8 * k" by (metis mod_0_imp_dvd dvd_def)
  have "0 < b" using False by simp
  note printed = bpsToMbps_value [OF this b(3)]
  show ?thesis unfolding k
    by (rule mbpsToBps_grid) (use printed b k in simp_all)
qed

text \<open>C22: the limit dialog, opened on a rule the daemon holds and saved unchanged, sends back exactly
  that rule: the decimal Mbps texts lose nothing on the 8 bit/s grid.\<close>

theorem dialog_keeps_rule:
  assumes "jget client ''control'' = JObj ps" "jget (JObj ps) ''upload_bps'' = num (of_nat up)"
    and "jget (JObj ps) ''download_bps'' = num (of_nat down)"
    and "validRate (jget (JObj ps) ''max_rate_bps'') up" "validRate (jget (JObj ps) ''max_rate_bps'') down"
  shows "saveLimit client (fst (openLimit client)) (snd (openLimit client)) =
    Inr [toStr (jget client ''identity_key''), showNat up, showNat down,
         if jget (JObj ps) ''internet_disabled'' = JBool True then ''1'' else ''0'']"
  using assms mbpsToBps_bpsToMbps [OF assms(4)] mbpsToBps_bpsToMbps [OF assms(5)]
  by (simp add: saveLimit_def openLimit_def controlOf_def jor_def setRule_def Let_def del: jget.simps)

theorem dialog_keeps_rule_witness:
  "saveLimit (JObj [(''identity_key'', JStr ''aa''), (''control'', JObj [(''upload_bps'', num (of_nat 1500000)),
       (''download_bps'', num (of_nat 8000)), (''max_rate_bps'', num 1000000000)])])
     (bpsToMbps (num 1500000)) (bpsToMbps (num 8000)) = Inr [''aa'', showNat 1500000, showNat 8000, ''0'']"
  using dialog_keeps_rule [of "JObj [(''identity_key'', JStr ''aa''), (''control'', JObj [(''upload_bps'', num (of_nat 1500000)),
       (''download_bps'', num (of_nat 8000)), (''max_rate_bps'', num 1000000000)])]"
     "[(''upload_bps'', num (of_nat 1500000)), (''download_bps'', num (of_nat 8000)), (''max_rate_bps'', num 1000000000)]"
     1500000 8000]
  by (simp add: validRate_def jor_def openLimit_def controlOf_def protoKeys_def jget.simps)

text \<open>Every text of a rate input is answered by one of four outcomes: a rate the daemon can represent,
  within the platform maximum, or the error that says what is wrong with the number entered.\<close>

theorem mbpsToBps_outcome:
  "case mbpsToBps v maximum of
     Inr b \<Rightarrow> b = 0 \<or> (\<exists>k \<ge> 1000. b = of_nat (8 * k)) \<and> \<not> nlt (toNum (jor maximum (num 0))) (Fin b)
   | Inl InvalidRate \<Rightarrow> (if isFinite (toNum v) then nlt (toNum v) (Fin 0) else True)
   | Inl BelowMinimum \<Rightarrow> nlt (Fin 0) (toNum v) \<and> nlt (toNum v) (Fin (8 / 1000))
   | Inl (AboveMaximum m) \<Rightarrow> nlt (toNum (jor maximum (num 0))) (Fin (of_int \<lfloor>(case toNum v of Fin q \<Rightarrow> q) * 125000 + 1/2\<rfloor> * 8))"
proof (cases "v = JStr [] \<or> v = JNull \<or> v = JUndef")
  case True
  then show ?thesis by (simp add: mbpsToBps_def)
next
  case False
  show ?thesis
  proof (cases "toNum v")
    case (Fin q)
    define n where "n = \<lfloor>q * 125000 + 1/2\<rfloor>"
    have bounds: "of_int n \<le> q * 125000 + 1/2" "q * 125000 + 1/2 < of_int n + 1"
      unfolding n_def by linarith+
    have small: "0 < q \<and> q < 8 / 1000" if "n \<noteq> 0" "n < 1000" "0 \<le> q"
    proof -
      have "1 \<le> n" using that(1,3) n_def by linarith
      moreover have "n \<le> 999" using that(2) by linarith
      ultimately have "(1::rat) \<le> of_int n" "of_int n \<le> (999::rat)" by (simp_all only: of_int_1_le_iff of_int_le_numeral_iff)
      then show ?thesis using bounds by auto
    qed
    have nat: "\<exists>k \<ge> 1000. (of_int n * 8 :: rat) = of_nat (8 * k)" if "1000 \<le> n"
      using that by (intro exI [of _ "nat n"]) auto
    have lt: "(of_int n * 8 < (8000::rat)) = (n < 1000)" by simp
    show ?thesis using False Fin small nat lt
      by (auto simp: mbpsToBps_def Let_def n_def [symmetric] simp del: of_nat_mult)
  qed (use False in \<open>simp_all add: mbpsToBps_def\<close>)
qed

section \<open>The requests in flight\<close>

definition jobKeys :: "control_view \<Rightarrow> string list" where
  "jobKeys v = map (\<lambda>j. toStr (jobKey j)) (jobs v)"

text \<open>The busy marks are exactly the requests in flight, at most one per client.\<close>

definition busyInv :: "control_view \<Rightarrow> bool" where
  "busyInv v \<longleftrightarrow> set (controlBusy v) = set (jobKeys v) \<and> distinct (jobKeys v) \<and> hasStopTimer v \<and> hasSchedule v"

definition isTimer :: "effect \<Rightarrow> bool" where
  "isTimer e \<longleftrightarrow> e = StopTimer \<or> e = Schedule"

text \<open>The polling timer is stopped only while some request that stopped it is in flight.\<close>

definition timerInv :: "effect list \<Rightarrow> control_view \<Rightarrow> bool" where
  "timerInv tr v \<longleftrightarrow> filter isTimer tr = [] \<or> last (filter isTimer tr) = Schedule \<or> list_ex (\<lambda>j. \<not> jobPaused j) (jobs v)"

text \<open>How many more answers the page waits for.\<close>

definition pendingAnswers :: "control_view \<Rightarrow> nat" where
  "pendingAnswers v = sum_list (map (\<lambda>j. if jobReloading j then 1 else 2) (jobs v))"

lemma pendingAnswers_0: "pendingAnswers v = 0 \<longleftrightarrow> jobs v = []"
  by (cases "jobs v") (auto simp: pendingAnswers_def)

lemma runCatch_eq: "runCatch dialog e j v = (fst (runFinally j v),
    (if dialog then Feedback (errorText e) else Notification (errorText e)) # snd (runFinally j v))"
  by (simp add: runCatch_def split_beta Let_def)

lemma isTimer_simps [simp]: "isTimer StopTimer" "isTimer Schedule" "\<not> isTimer RefreshLive" "\<not> isTimer (StartTask k)"
  "\<not> isTimer HideModal" "\<not> isTimer Reload" "\<not> isTimer (Feedback t)" "\<not> isTimer (Notification t)"
  by (simp_all add: isTimer_def)

lemma finally_busy: "busyInv v \<Longrightarrow> busyInv (fst (runFinally j v))"
  by (auto simp: busyInv_def runFinally_def jobKeys_def distinct_map inj_on_def)

lemma finally_timer:
  assumes "busyInv v" "timerInv tr v" "j \<in> set (jobs v)"
  shows "timerInv (tr @ snd (runFinally j v)) (fst (runFinally j v))"
proof (cases "jobPaused j")
  case True
  have "i \<in> set (jobs v) \<Longrightarrow> toStr (jobKey i) = toStr (jobKey j) \<Longrightarrow> i = j" for i
    using assms(1,3) by (auto simp: busyInv_def jobKeys_def distinct_map inj_on_def)
  with True assms(2) show ?thesis
    by (auto simp: timerInv_def runFinally_def list_ex_iff)
next
  case False
  then show ?thesis using assms(1) by (simp add: timerInv_def runFinally_def busyInv_def)
qed

lemma catch_inv:
  assumes "busyInv v" "timerInv tr v" "j \<in> set (jobs v)"
  shows "busyInv (fst (runCatch dialog e j v)) \<and> timerInv (tr @ snd (runCatch dialog e j v)) (fst (runCatch dialog e j v))"
proof -
  have "filter isTimer (snd (runCatch dialog e j v)) = filter isTimer (snd (runFinally j v))"
    by (simp add: runCatch_eq)
  then show ?thesis using finally_busy [OF assms(1)] finally_timer [OF assms]
    by (simp add: timerInv_def runCatch_eq)
qed

lemma sum_list_remove_key:
  fixes f :: "'a \<Rightarrow> nat"
  shows "j \<in> set xs \<Longrightarrow> \<not> P j \<Longrightarrow> 0 < f j \<Longrightarrow> sum_list (map f (filter P xs)) < sum_list (map f xs)"
proof (induction xs)
  case (Cons x xs)
  have le: "sum_list (map f (filter P xs)) \<le> sum_list (map f xs)" by (induction xs) auto
  show ?case
  proof (cases "x = j")
    case True
    then show ?thesis using Cons.prems le by simp
  next
    case False
    then show ?thesis using Cons by auto
  qed
qed simp

lemma sum_list_map_le:
  fixes f g :: "'a \<Rightarrow> nat"
  shows "(\<And>x. g x \<le> f x) \<Longrightarrow> j \<in> set xs \<Longrightarrow> g j < f j \<Longrightarrow> sum_list (map g xs) < sum_list (map f xs)"
proof (induction xs)
  case (Cons x xs)
  have le: "sum_list (map g xs) \<le> sum_list (map f xs)" using Cons.prems(1) by (intro sum_list_mono)
  show ?case
  proof (cases "x = j")
    case False
    then show ?thesis using Cons add_le_less_mono [OF Cons.prems(1) Cons.IH] by simp
  qed (use Cons.prems le in \<open>simp add: add_less_le_mono\<close>)
qed simp

lemma finally_pending: "j \<in> set (jobs v) \<Longrightarrow> pendingAnswers (fst (runFinally j v)) < pendingAnswers v"
  unfolding pendingAnswers_def runFinally_def by (simp add: sum_list_remove_key)

lemma markReloading_simps [simp]:
  "map (\<lambda>j. toStr (jobKey j)) (markReloading j js) = map (\<lambda>j. toStr (jobKey j)) js"
  "list_ex (\<lambda>j. \<not> jobPaused j) (markReloading j js) = list_ex (\<lambda>j. \<not> jobPaused j) js"
  by (induction js) (simp_all add: markReloading_def)

lemma reply_cases:
  obtains (failed) e where "runReply dialog answer j v = runCatch dialog e j v"
  | (ok) response where "runReply dialog answer j v = (v\<lparr>clientRows := applyControl (jobKey j) response (clientRows v),
          jobs := markReloading j (jobs v)\<rparr>, [RefreshLive, HideModal, Reload])"
  unfolding runReply_def by (cases "case_sum Inl ensureOk answer") auto

lemma reply_pending:
  assumes "j \<in> set (jobs v)" "\<not> jobReloading j" "runReply dialog answer j v = (v', es)"
  shows "pendingAnswers v' < pendingAnswers v"
proof (cases rule: reply_cases [of dialog answer j v])
  case (failed e)
  then show ?thesis using assms finally_pending by (simp add: runCatch_eq)
next
  case (ok response)
  then have v': "jobs v' = markReloading j (jobs v)" using assms(3) by auto
  show ?thesis unfolding pendingAnswers_def v' markReloading_def map_map
    by (rule sum_list_map_le [OF _ assms(1)]) (use assms(2) in auto)
qed

lemma reloaded_pending:
  assumes "j \<in> set (jobs v)" "runReloaded dialog failure j v = (v', es)"
  shows "pendingAnswers v' < pendingAnswers v"
  using finally_pending [OF assms(1)] assms(2) by (auto simp: runReloaded_def runCatch_eq split: option.splits)

lemma step_inv:
  assumes "control_step v es v'" "busyInv v" "timerInv tr v"
  shows "busyInv v' \<and> timerInv (tr @ es) v'"
  using assms
proof (cases rule: control_step.cases)
  case (start paused key)
  then show ?thesis using assms(2,3)
    by (auto simp: runStart_def isBusy_def busyInv_def jobKeys_def timerInv_def split: if_splits)
next
  case (reply j dialog answer)
  show ?thesis
  proof (cases rule: reply_cases [of dialog answer j v])
    case (failed e)
    then show ?thesis using reply(3) catch_inv [OF assms(2,3) reply(1), of dialog e]
      by (metis fst_conv snd_conv)
  next
    case (ok response)
    then have v': "v' = v\<lparr>clientRows := applyControl (jobKey j) response (clientRows v), jobs := markReloading j (jobs v)\<rparr>"
      "es = [RefreshLive, HideModal, Reload]" using reply(3) by (simp_all add: markReloading_def)
    have "jobKeys v' = jobKeys v" "list_ex (\<lambda>j. \<not> jobPaused j) (jobs v') = list_ex (\<lambda>j. \<not> jobPaused j) (jobs v)"
      by (simp_all add: v' jobKeys_def)
    moreover have "controlBusy v' = controlBusy v" "hasStopTimer v' = hasStopTimer v" "hasSchedule v' = hasSchedule v"
      "filter isTimer (tr @ es) = filter isTimer tr" by (simp_all add: v')
    ultimately show ?thesis using assms(2,3) by (simp add: busyInv_def timerInv_def)
  qed
next
  case (reloaded j dialog failure)
  then show ?thesis
    using finally_busy [OF assms(2), of j] finally_timer [OF assms(2,3) reloaded(1)] catch_inv [OF assms(2,3) reloaded(1), of dialog]
    unfolding runReloaded_def by (cases failure) (metis fst_conv snd_conv option.case)+
qed

lemma run_inv: "control_run rows tr v \<Longrightarrow> busyInv v \<and> timerInv tr v"
proof (induction rule: control_run.induct)
  case (init rows)
  show ?case by (simp add: controlInit_def busyInv_def jobKeys_def timerInv_def)
next
  case (step rows tr v es v')
  then show ?case using step_inv by blast
qed



text \<open>Every answer and every reload brings the requests in flight closer to their end, so that at most
  two events per request clear every busy mark, whether the answers are successes,
  refusals or rejections.\<close>

theorem control_finishes:
  assumes "j \<in> set (jobs v)"
  shows "pendingAnswers v \<le> 2 * length (jobs v) \<and>
    (if jobReloading j then pendingAnswers (fst (runReloaded dialog failure j v)) < pendingAnswers v
     else pendingAnswers (fst (runReply dialog answer j v)) < pendingAnswers v) \<and>
    (pendingAnswers v = 0 \<longleftrightarrow> jobs v = [])"
proof -
  have "sum_list (map (\<lambda>j. if jobReloading j then 1 else 2) xs) \<le> 2 * length xs" for xs :: "job list"
    by (induction xs) auto
  then have "pendingAnswers v \<le> 2 * length (jobs v)" by (simp add: pendingAnswers_def)
  then show ?thesis using reply_pending [OF assms] reloaded_pending [OF assms] pendingAnswers_0
    by (metis prod.collapse)
qed

theorem control_finishes_witness:
  "let j = \<lparr>jobKey = JStr ''aa'', jobPaused = False, jobReloading = False\<rparr>;
       v = (controlInit JNull)\<lparr>controlBusy := [''aa''], jobs := [j]\<rparr>
   in pendingAnswers (fst (runReply True (Inr JNull) j v)) < pendingAnswers v"
  using control_finishes [of "\<lparr>jobKey = JStr ''aa'', jobPaused = False, jobReloading = False\<rparr>"
    "(controlInit JNull)\<lparr>controlBusy := [''aa''], jobs := [\<lparr>jobKey = JStr ''aa'', jobPaused = False, jobReloading = False\<rparr>]\<rparr>"
    True _ "Inr JNull"]
  by (simp add: Let_def)

text \<open>C31: an answer other than \<open>ok: true\<close> never changes the table of clients: the request ends with the
  reason of the daemon, or with a general message, shown to the user, and its busy mark is gone.\<close>

theorem refused_request:
  assumes "busyInv v" "jget response ''ok'' \<noteq> JBool True"
  shows "\<exists>m. m \<noteq> Lit [] \<and> ensureOk response = Inl (Failed m) \<and>
    clientRows (fst (runReply dialog (Inr response) j v)) = clientRows v \<and>
    (if dialog then Feedback m else Notification m) \<in> set (snd (runReply dialog (Inr response) j v)) \<and>
    toStr (jobKey j) \<notin> set (controlBusy (fst (runReply dialog (Inr response) j v)))"
proof -
  obtain m where m: "m \<noteq> Lit []" "ensureOk response = Inl (Failed m)"
    using assms(2) unfolding ensureOk_def Let_def
    by (cases "reasonText (jor (jfield response ''error'') (jfield (jfield response ''control'') ''reason'')) = Lit []") auto
  then show ?thesis by (intro exI [of _ m]) (simp add: runReply_def runCatch_eq runFinally_def errorText_def)
qed

theorem refused_request_witness:
  "\<exists>m. m \<noteq> Lit [] \<and> ensureOk (JObj [(''ok'', JBool False), (''error'', JStr ''invalid_rate'')]) = Inl (Failed m)"
proof -
  have "busyInv (controlInit JNull)" by (simp add: busyInv_def controlInit_def jobKeys_def)
  from refused_request [OF this, of "JObj [(''ok'', JBool False), (''error'', JStr ''invalid_rate'')]"]
  show ?thesis by (auto simp: jget.simps)
qed

text \<open>A restriction can always be lifted: on a client with no request in flight the button that restores
  the internet is enabled even where blocking is no longer supported, it asks for exactly
  this change and keeps both limits, and a set limit can be edited.\<close>

theorem restriction_can_be_lifted:
  assumes "\<not> isBusy v (jget client ''identity_key'')"
  shows "(jget (controlOf client) ''internet_disabled'' = JBool True \<longrightarrow>
      \<not> blockDisabled (cell v client) \<and> toggleBlock client =
        [toStr (jget client ''identity_key''), numToString (numOr (jget (controlOf client) ''upload_bps'') (Fin 0)),
         numToString (numOr (jget (controlOf client) ''download_bps'') (Fin 0)), ''0'']) \<and>
    (hasLimit (controlOf client) \<longrightarrow> \<not> limitDisabled (cell v client))"
  using assms by (simp add: cell_def Let_def toggleBlock_def setRule_def)

theorem restriction_can_be_lifted_witness:
  "\<not> blockDisabled (cell (controlInit JNull) (JObj [(''identity_key'', JStr ''aa''),
     (''control'', JObj [(''internet_disabled'', JBool True)])]))"
  using restriction_can_be_lifted [of "controlInit JNull" "JObj [(''identity_key'', JStr ''aa''),
     (''control'', JObj [(''internet_disabled'', JBool True)])]"]
  by (simp add: isBusy_def controlInit_def controlOf_def jor_def protoKeys_def jget.simps)

end
