(* ===== verification/DhcpHostnames.thy ===== *)
theory DhcpHostnames
  imports JsBase
begin

text \<open>
  \<open>lanspeed/dhcpHostnames.js\<close>: reading and editing the name of one client in the DHCP
  configuration of the router. The configuration store is not part of the repository: what
  \<open>uci.load\<close>, \<open>uci.sections\<close> and the three RPCs answer is an argument of the operations, and
  saving returns the list of RPCs it sends, in order, with its outcome.
\<close>

section \<open>Addresses and names\<close>

definition stringValue :: "jval \<Rightarrow> string" where
  "stringValue v = (if nullish v then [] else toStr v)"

text \<open>\<open>/^([0-9a-f]{2}:){5}[0-9a-f]{2}$/\<close>\<close>

definition MAC_PATTERN :: "string \<Rightarrow> bool" where
  "MAC_PATTERN s \<longleftrightarrow> (let gs = splitChar (CHR '':'') s in
     length gs = 6 \<and> list_all (\<lambda>g. length g = 2 \<and> list_all isHexLower g) gs)"

definition isAlnum :: "char \<Rightarrow> bool" where
  "isAlnum c \<longleftrightarrow> isDigit c \<or> isUpperAz c \<or> isLowerAz c"

text \<open>\<open>/^[A-Za-z0-9][A-Za-z0-9._-]{0,62}$/\<close>\<close>

definition HOSTNAME_PATTERN :: "string \<Rightarrow> bool" where
  "HOSTNAME_PATTERN s = (case s of [] \<Rightarrow> False
     | c # cs \<Rightarrow> isAlnum c \<and> length cs \<le> 62 \<and> list_all (\<lambda>d. isAlnum d \<or> d \<in> set ''._-'') cs)"

definition normalizeMac :: "jval \<Rightarrow> string" where
  "normalizeMac v = (let mac = toLowerCase (jtrim (stringValue v)) in if MAC_PATTERN mac then mac else [])"

text \<open>
  \<open>split(/[\s,]+/)\<close> may leave empty pieces at both ends; the filter drops them.
\<close>

definition normalizeMacs :: "jval \<Rightarrow> string list" where
  "normalizeMacs v = filter (\<lambda>m. m \<noteq> []) (map normalizeMac
     (case v of JArr xs \<Rightarrow> xs
      | _ \<Rightarrow> map JStr (splitWords (\<lambda>c. isSpace c \<or> c = CHR '','') (stringValue v))))"

datatype save_error = BadName | UnknownMac | CannotLoad jval | CannotCreate | RpcFailed jval

definition normalizeName :: "jval \<Rightarrow> save_error + string" where
  "normalizeName v = (let name = jtrim (stringValue v) in
     if name = [] then Inr [] else if HOSTNAME_PATTERN name then Inr name else Inl BadName)"

definition identityMac :: "jval \<Rightarrow> string" where
  "identityMac key = normalizeMac (JStr (hd (splitChar (CHR ''@'') (stringValue key))))"

section \<open>Host sections\<close>

record host =
  hostSection :: string
  hostMac :: string
  hostMacs :: "string list"
  hostName :: string
  hostIp :: string

definition hostOf :: "props \<Rightarrow> host" where
  "hostOf s = (let macs = normalizeMacs (jget (JObj s) ''mac'') in
     \<lparr>hostSection = stringValue (jget (JObj s) ''.name''), hostMac = (case macs of m # _ \<Rightarrow> m | [] \<Rightarrow> []),
      hostMacs = macs, hostName = jtrim (stringValue (jget (JObj s) ''name'')),
      hostIp = jtrim (stringValue (jget (JObj s) ''ip''))\<rparr>)"

text \<open>The answer of \<open>uci.sections\<close>: none when it throws; null counts as no section.\<close>

definition hostSections :: "props list option \<Rightarrow> host list" where
  "hostSections answer = filter (\<lambda>h. hostSection h \<noteq> [])
     (map hostOf (case answer of Some ss \<Rightarrow> ss | None \<Rightarrow> []))"

text \<open>What the store answers: the load, the sections then read, and the three RPCs.\<close>

record store =
  loadAnswer :: "jval + unit"
  sectionsAnswer :: "props list option"
  addAnswer :: "jval + jval"
  setAnswer :: "jval + unit"
  deleteAnswer :: "jval + unit"

record load_result =
  available :: bool
  loadedMac :: string
  loadedHost :: "host option"
  loadError :: "jval option"

definition hostFor :: "string \<Rightarrow> host list \<Rightarrow> host option" where
  "hostFor mac hosts = (case filter (\<lambda>h. mac \<in> set (hostMacs h)) hosts of h # _ \<Rightarrow> Some h | [] \<Rightarrow> None)"

definition loadForMac :: "store \<Rightarrow> jval \<Rightarrow> load_result" where
  "loadForMac st v = (let mac = normalizeMac v in
     if mac = [] then \<lparr>available = False, loadedMac = [], loadedHost = None, loadError = None\<rparr>
     else (case loadAnswer st of
       Inl e \<Rightarrow> \<lparr>available = False, loadedMac = mac, loadedHost = None, loadError = Some e\<rparr>
     | Inr _ \<Rightarrow> \<lparr>available = True, loadedMac = mac, loadedHost = hostFor mac (hostSections (sectionsAnswer st)),
         loadError = None\<rparr>))"

section \<open>Saving\<close>

datatype rpc = UciAdd | UciSet string "(string \<times> string) list" | UciDelete string "string list"

record save_result =
  changed :: bool
  savedName :: string
  savedSection :: "string option"

definition addedSection :: "jval \<Rightarrow> string" where
  "addedSection r = (if truthy r \<and> typeofObject r \<and> truthy (jget r ''section'') then toStr (jget r ''section'')
     else stringValue r)"

definition createHost :: "store \<Rightarrow> string \<Rightarrow> string \<Rightarrow> rpc list \<times> (save_error + save_result)" where
  "createHost st mac name = (case addAnswer st of
     Inl e \<Rightarrow> ([UciAdd], Inl (RpcFailed e))
   | Inr r \<Rightarrow> (let s = addedSection r in
       if s = [] then ([UciAdd], Inl CannotCreate)
       else ([UciAdd, UciSet s [(''mac'', mac), (''name'', name)]],
         case setAnswer st of Inl e \<Rightarrow> Inl (RpcFailed e)
         | Inr _ \<Rightarrow> Inr \<lparr>changed = True, savedName = name, savedSection = Some s\<rparr>)))"

definition updateHost :: "store \<Rightarrow> host \<Rightarrow> string \<Rightarrow> string \<Rightarrow> rpc list \<times> (save_error + save_result)" where
  "updateHost st h mac name = (
     let done = Inr \<lparr>changed = (mac \<notin> set (hostMacs h) \<or> hostName h \<noteq> name), savedName = name,
       savedSection = Some (hostSection h)\<rparr>
     in if name \<noteq> [] then ([UciSet (hostSection h) [(''name'', name)]],
          case setAnswer st of Inl e \<Rightarrow> Inl (RpcFailed e) | Inr _ \<Rightarrow> done)
        else if hostName h \<noteq> [] then ([UciDelete (hostSection h) [''name'']],
          case deleteAnswer st of Inl e \<Rightarrow> Inl (RpcFailed e) | Inr _ \<Rightarrow> done)
        else ([], done))"

definition saveForMac :: "store \<Rightarrow> jval \<Rightarrow> jval \<Rightarrow> rpc list \<times> (save_error + save_result)" where
  "saveForMac st macV nameV = (let mac = normalizeMac macV in
     if mac = [] then ([], Inl UnknownMac)
     else (case normalizeName nameV of Inl e \<Rightarrow> ([], Inl e)
     | Inr name \<Rightarrow> (let d = loadForMac st (JStr mac) in
         if \<not> available d then ([], Inl (CannotLoad (case loadError d of Some e \<Rightarrow> e | None \<Rightarrow> JNull)))
         else (case loadedHost d of
             None \<Rightarrow> if name = [] then ([], Inr \<lparr>changed = False, savedName = [], savedSection = None\<rparr>)
               else createHost st mac name
           | Some h \<Rightarrow> updateHost st h mac name))))"

section \<open>Addresses keep their form\<close>

lemma lowerHex_lower: "isHexLower c \<Longrightarrow> lowerChar c = c"
  by (auto simp: lowerChar_def isHexLower_def isDigit_def isUpperAz_def)

lemma MAC_chars: "MAC_PATTERN s \<Longrightarrow> c \<in> set s \<Longrightarrow> isHexLower c \<or> c = CHR '':''"
  using splitChar_chars [of c s "CHR '':''"] by (fastforce simp: MAC_PATTERN_def list_all_iff Let_def)

lemma hexLower_not_space: "isHexLower c \<Longrightarrow> \<not> isSpace c"
  by (auto simp: isHexLower_def isDigit_def isSpace_def)

lemma normalizeMac_id:
  assumes "MAC_PATTERN s"
  shows "normalizeMac (JStr s) = s"
proof -
  have "\<forall>c \<in> set s. \<not> isSpace c"
    using MAC_chars [OF assms] hexLower_not_space by (fastforce simp: isSpace_def code_def)
  then have "jtrim s = s" by (simp add: jtrim_def trimBy_none)
  moreover have "lowerChar c = c" if "c \<in> set s" for c
  proof (cases "isHexLower c")
    case False
    then have "c = CHR '':''" using MAC_chars [OF assms that] by blast
    then show ?thesis by (simp add: lowerChar_def isUpperAz_def code_def)
  qed (rule lowerHex_lower)
  then have "toLowerCase s = s" unfolding toLowerCase_def by (intro map_idI)
  ultimately show ?thesis using assms by (simp add: normalizeMac_def stringValue_def nullish_def)
qed

lemma normalizeMac_form: "normalizeMac v = [] \<or> MAC_PATTERN (normalizeMac v)"
  by (simp add: normalizeMac_def Let_def)

lemma normalizeMac_idem: "normalizeMac (JStr (normalizeMac v)) = normalizeMac v"
proof (cases "normalizeMac v = []")
  case True
  have "\<not> MAC_PATTERN []" by (simp add: MAC_PATTERN_def)
  then show ?thesis using True by (simp add: normalizeMac_def [of "JStr []"] stringValue_def nullish_def jtrim_def trimBy_def toLowerCase_def)
next
  case False
  then show ?thesis using normalizeMac_form [of v] normalizeMac_id by blast
qed

lemma normalizeName_form: "normalizeName v = Inr n \<Longrightarrow> n = [] \<or> HOSTNAME_PATTERN n"
  by (auto simp: normalizeName_def Let_def split: if_splits)

lemma hostFor_Some: "hostFor mac hs = Some h \<Longrightarrow> h \<in> set hs \<and> mac \<in> set (hostMacs h)"
proof -
  assume "hostFor mac hs = Some h"
  then obtain rest where "filter (\<lambda>h. mac \<in> set (hostMacs h)) hs = h # rest"
    by (auto simp: hostFor_def split: list.splits)
  then have "h \<in> set (filter (\<lambda>h. mac \<in> set (hostMacs h)) hs)" by (simp only: list.set_intros)
  then show ?thesis by simp
qed

section \<open>What a save writes\<close>

text \<open>
  The writes a save may send: to the section the store has just created, both options of the
  client; to a section that already lists the address, the name alone.
\<close>

definition ownWrite :: "store \<Rightarrow> string \<Rightarrow> string \<Rightarrow> rpc \<Rightarrow> bool" where
  "ownWrite st mac name call = (case call of
     UciAdd \<Rightarrow> hostFor mac (hostSections (sectionsAnswer st)) = None
   | UciSet s vs \<Rightarrow> HOSTNAME_PATTERN name \<and> s \<noteq> [] \<and>
       (case hostFor mac (hostSections (sectionsAnswer st)) of
          None \<Rightarrow> (\<exists>r. addAnswer st = Inr r \<and> s = addedSection r) \<and> vs = [(''mac'', mac), (''name'', name)]
        | Some h \<Rightarrow> s = hostSection h \<and> mac \<in> set (hostMacs h) \<and> vs = [(''name'', name)])
   | UciDelete s ops \<Rightarrow> name = [] \<and> ops = [''name''] \<and> s \<noteq> [] \<and>
       (case hostFor mac (hostSections (sectionsAnswer st)) of
          None \<Rightarrow> False | Some h \<Rightarrow> s = hostSection h \<and> mac \<in> set (hostMacs h) \<and> hostName h \<noteq> []))"

lemma saveForMac_eq: "saveForMac st macV nameV = (let mac = normalizeMac macV in
    if mac = [] then ([], Inl UnknownMac)
    else (case normalizeName nameV of Inl e \<Rightarrow> ([], Inl e)
    | Inr name \<Rightarrow> (case loadAnswer st of Inl e \<Rightarrow> ([], Inl (CannotLoad e))
      | Inr _ \<Rightarrow> (case hostFor mac (hostSections (sectionsAnswer st)) of
          None \<Rightarrow> if name = [] then ([], Inr \<lparr>changed = False, savedName = [], savedSection = None\<rparr>)
            else createHost st mac name
        | Some h \<Rightarrow> updateHost st h mac name))))"
proof (cases "normalizeMac macV = []")
  case False
  have "loadForMac st (JStr (normalizeMac macV)) = (case loadAnswer st of
      Inl e \<Rightarrow> \<lparr>available = False, loadedMac = normalizeMac macV, loadedHost = None, loadError = Some e\<rparr>
    | Inr _ \<Rightarrow> \<lparr>available = True, loadedMac = normalizeMac macV,
        loadedHost = hostFor (normalizeMac macV) (hostSections (sectionsAnswer st)), loadError = None\<rparr>)"
    unfolding loadForMac_def normalizeMac_idem Let_def using False by simp
  then show ?thesis unfolding saveForMac_def Let_def using False
    by (cases "normalizeName nameV"; cases "loadAnswer st") simp_all
qed (simp add: saveForMac_def)

lemma save_writes:
  assumes "normalizeName nameV = Inr name"
  shows "list_all (ownWrite st (normalizeMac macV) name) (fst (saveForMac st macV nameV))"
proof -
  let ?mac = "normalizeMac macV" and ?h = "hostFor (normalizeMac macV) (hostSections (sectionsAnswer st))"
  have found: "hostSection h \<noteq> [] \<and> ?mac \<in> set (hostMacs h)" if "?h = Some h" for h
    using hostFor_Some [OF that] by (simp add: hostSections_def)
  have "list_all (ownWrite st ?mac name) (fst (createHost st ?mac name))" if "?h = None" "name \<noteq> []"
    using that normalizeName_form [OF assms]
    by (auto simp: createHost_def ownWrite_def Let_def split: sum.splits)
  moreover have "list_all (ownWrite st ?mac name) (fst (updateHost st h ?mac name))" if "?h = Some h" for h
    using that found [OF that] normalizeName_form [OF assms]
    by (auto simp: updateHost_def ownWrite_def Let_def split: sum.splits)
  ultimately show ?thesis unfolding saveForMac_eq using assms
    by (simp add: Let_def split: option.splits sum.splits) blast
qed

text \<open>Saving the name of a client writes nothing but the options mac and name of a section it has just
  created, or the option name of a section that lists the address of the client; the name
  written is a valid host name.\<close>

theorem saveForMac_writes_own:
  "case normalizeName nameV of
     Inl e \<Rightarrow> fst (saveForMac st macV nameV) = []
   | Inr name \<Rightarrow> list_all (ownWrite st (normalizeMac macV) name) (fst (saveForMac st macV nameV))"
  by (cases "normalizeName nameV") (simp_all add: save_writes, simp add: saveForMac_def Let_def)

definition rejected :: "store \<Rightarrow> rpc \<Rightarrow> bool" where
  "rejected st call = (case call of UciAdd \<Rightarrow> isl (addAnswer st)
     | UciSet s vs \<Rightarrow> isl (setAnswer st) | UciDelete s ops \<Rightarrow> isl (deleteAnswer st))"

text \<open>A save that cannot be carried out says so: the outcome is an error exactly when the address or the
  name is malformed, the configuration cannot be read, no section could be created, or one of the RPCs
  it sent was rejected.\<close>

theorem saveForMac_errors:
  "isl (snd (saveForMac st macV nameV)) \<longleftrightarrow> normalizeMac macV = [] \<or> isl (normalizeName nameV) \<or> isl (loadAnswer st) \<or>
     list_ex (rejected st) (fst (saveForMac st macV nameV)) \<or>
     fst (saveForMac st macV nameV) = [UciAdd]"
  unfolding saveForMac_eq createHost_def updateHost_def Let_def
  by (simp add: rejected_def split: sum.splits option.splits)

end
