(* ===== verification/StatusRateMeta.thy ===== *)
theory StatusRateMeta
  imports JsBase
begin

text \<open>
  \<open>lanspeed/statusRateMeta.js\<close>: the badges that say where the rate of a client comes from. A
  badge is its CSS class, the lines of its tooltip and its text. Arrows and dashes outside
  ASCII are named by glosses.
\<close>

section \<open>Tables\<close>

definition RATE_SOURCE_LABELS :: "(string \<times> mtext) list" where
  "RATE_SOURCE_LABELS = [(''edge_port'', Lit ''Edge-Port''), (''edge_wifi'', Lit ''Edge-WiFi''),
     (''fast_routed_lease'', Lit ''FastN+FastS lease''),
     (''fast_routed_internet'', Lit ''FastN+FastS routed Internet''),
     (''ecm_bpf_fallback'', Lit ''ECM+BPF fallback''), (''ecm_nss_lower_bound'', Lit ''ECM NSS lower-bound''),
     (''tc_bpf_lower_bound'', Lit ''TC-BPF lower-bound''), (''none'', Tr ''unavailable'')]"

definition RATE_COVERAGE_LABELS :: "(string \<times> mtext) list" where
  "RATE_COVERAGE_LABELS = [(''full'', Lit ''Full''), (''partial'', Lit ''Partial''), (''degraded'', Lit ''Degraded''),
     (''unavailable'', Tr ''unavailable'')]"

definition RATE_COVERAGE_RANK :: "(string \<times> rat) list" where
  "RATE_COVERAGE_RANK = [(''unavailable'', 0), (''degraded'', 1), (''partial'', 2), (''full'', 3)]"

definition ATTACHMENT_TRUST_LABELS :: "(string \<times> mtext) list" where
  "ATTACHMENT_TRUST_LABELS = [(''observed_exclusive'', Tr ''observed exclusive''),
     (''associated_station'', Tr ''associated station''), (''shared'', Tr ''shared downlink''),
     (''unknown'', Tr ''attachment unknown'')]"

text \<open>
  \<open>table[key] || other\<close> on an object literal, whose inherited members are functions.
\<close>

definition labelIn :: "(string \<times> mtext) list \<Rightarrow> string \<Rightarrow> mtext \<Rightarrow> mtext" where
  "labelIn table k other = (case map_of table k of Some t \<Rightarrow> t
     | None \<Rightarrow> if k \<in> set protoKeys then Lit (toStr (JProto k)) else other)"

definition keyOf :: "jval \<Rightarrow> string" where
  "keyOf v = toStr (jor v (JStr []))"

section \<open>Sources\<close>

definition sourceLabel :: "jval \<Rightarrow> mtext" where
  "sourceLabel source = labelIn RATE_SOURCE_LABELS (keyOf source) (Tr ''other source'')"

definition combinedDirectionLabel :: "jval \<Rightarrow> jval \<Rightarrow> (jval \<Rightarrow> mtext) \<Rightarrow> mtext" where
  "combinedDirectionLabel tx rx labelFor = (let t = labelFor (jor tx (JObj [])); r = labelFor (jor rx (JObj [])) in
     if t = r then t else Cat [Tr ''up '', t, Tr '' / down '', r])"

definition routedSource :: "jval \<Rightarrow> string \<Rightarrow> string" where
  "routedSource meta direction = (
     if \<not> truthy meta \<or> \<not> typeofObject meta \<or> jget meta ''scope'' \<noteq> JStr ''routed_observed'' then []
     else (let v = jget meta direction; source = (if truthy v then keyOf (jget v ''source'') else [])
           in if source = ''fast_routed_internet'' \<or> source = ''fast_routed_lease'' then source else []))"

definition routedCollector :: "jval \<Rightarrow> string" where
  "routedCollector meta = (
     if \<not> truthy meta \<or> \<not> typeofObject meta \<or> jget meta ''scope'' \<noteq> JStr ''routed_observed'' then []
     else (let tx = routedSource meta ''tx''; rx = routedSource meta ''rx'' in
       if tx = [] \<or> rx = [] then []
       else if tx = ''fast_routed_lease'' \<or> rx = ''fast_routed_lease'' then ''fast_routed_lease''
       else ''fast_routed_internet''))"

section \<open>Badges\<close>

record badge =
  badgeClass :: string
  badgeTitle :: "mtext list"
  badgeText :: mtext

definition ownerBadge :: "jval \<Rightarrow> jval \<Rightarrow> badge" where
  "ownerBadge tx rx = \<lparr>badgeClass = ''label lanspeed-rate-owner'',
     badgeTitle = [Tr ''current rate owner'', Cat [Tr ''up: '', sourceLabel (jget tx ''source'')],
       Cat [Tr ''down: '', sourceLabel (jget rx ''source'')]],
     badgeText = combinedDirectionLabel tx rx (\<lambda>d. sourceLabel (jget d ''source''))\<rparr>"

definition coverageOf :: "jval \<Rightarrow> string" where
  "coverageOf d = toStr (jor (jget d ''coverage'') (JStr ''unavailable''))"

definition rankOf :: "string \<Rightarrow> jnum" where
  "rankOf k = (case map_of RATE_COVERAGE_RANK k of Some q \<Rightarrow> Fin q
     | None \<Rightarrow> if k \<in> set protoKeys then NaN else Fin 0)"

definition worstCoverage :: "jval \<Rightarrow> jval \<Rightarrow> string" where
  "worstCoverage tx rx = (if nle (rankOf (coverageOf tx)) (rankOf (coverageOf rx)) then coverageOf tx else coverageOf rx)"

definition coverageBadge :: "jval \<Rightarrow> jval \<Rightarrow> badge" where
  "coverageBadge tx rx = \<lparr>badgeClass = (if worstCoverage tx rx = ''full'' then ''label success''
       else if worstCoverage tx rx = ''unavailable'' then ''label warning'' else ''label''),
     badgeTitle = [Tr ''coverage of the total rate''],
     badgeText = combinedDirectionLabel tx rx
       (\<lambda>d. labelIn RATE_COVERAGE_LABELS (keyOf (jget d ''coverage'')) (Tr ''unknown coverage''))\<rparr>"

definition attachmentBadges :: "jval \<Rightarrow> badge list" where
  "attachmentBadges a = (if truthy a \<and> truthy (jget a ''ifname'')
     then [\<lparr>badgeClass = ''label lanspeed-rate-attachment'',
        badgeTitle = [Cat [Tr ''attached to: '', Lit (toStr (jget a ''ifname''))],
          labelIn ATTACHMENT_TRUST_LABELS (keyOf (jget a ''trust'')) (Tr ''attachment unknown'')],
        badgeText = Lit (toStr (jget a ''ifname''))\<rparr>]
     else [])"

definition percentOf :: "jval \<Rightarrow> jnum option" where
  "percentOf v = (case v of JNum n \<Rightarrow> Some n | _ \<Rightarrow> None)"

definition percentText :: "jnum option \<Rightarrow> mtext" where
  "percentText p = (case p of None \<Rightarrow> Lit ''-'' | Some n \<Rightarrow> Cat [NumT n, Lit ''%''])"

definition classificationBadges :: "jval \<Rightarrow> badge list" where
  "classificationBadges c = (if truthy c \<and> typeofObject c
     then (let t = percentOf (jget c ''tx_coverage_pct''); r = percentOf (jget c ''rx_coverage_pct'') in
       if t = None \<and> r = None then []
       else [\<lparr>badgeClass = (if jget c ''state'' = JStr ''aligned'' then ''label success'' else ''label warning''),
          badgeTitle = [Tr ''NSS classification coverage'', Cat [Tr ''up: '', percentText t], Cat [Tr ''down: '', percentText r]],
          badgeText = Cat [Tr ''NSS classification coverage '',
            NumT (case (t, r) of (None, Some n) \<Rightarrow> n | (Some n, None) \<Rightarrow> n | (Some m, Some n) \<Rightarrow> nmin m n | _ \<Rightarrow> NaN), Lit ''%'']\<rparr>])
     else [])"

definition staleOf :: "jval \<Rightarrow> jval \<Rightarrow> bool" where
  "staleOf meta d = (case jget d ''stale'' of JBool b \<Rightarrow> b | _ \<Rightarrow> jget meta ''stale'' = JBool True)"

definition staleBadges :: "bool \<Rightarrow> bool \<Rightarrow> badge list" where
  "staleBadges t r = (let age = (\<lambda>s. if s then Tr ''expired'' else Tr ''fresh'') in
     if t \<or> r then [\<lparr>badgeClass = ''label warning'',
        badgeTitle = [Tr ''an old sample is kept'', Cat [Tr ''up: '', age t], Cat [Tr ''down: '', age r]],
        badgeText = (if t \<and> r then Tr ''expired'' else Tr ''partly expired'')\<rparr>]
     else [])"

text \<open>\<open>nssProfile\<close> defaults to true.\<close>

definition cells :: "jval \<Rightarrow> jval \<Rightarrow> badge list" where
  "cells meta nssProfile = (
     if \<not> truthy meta \<or> \<not> typeofObject meta then []
     else if nssProfile \<noteq> JUndef \<and> nssProfile \<noteq> JBool True then []
     else (let tx = jor (jget meta ''tx'') (JObj []); rx = jor (jget meta ''rx'') (JObj []) in
       [ownerBadge tx rx, coverageBadge tx rx] @ attachmentBadges (jget meta ''attachment'') @
       classificationBadges (jget meta ''classification'') @ staleBadges (staleOf meta tx) (staleOf meta rx)))"

section \<open>What the badges promise\<close>

lemma rank_full: "rankOf k = Fin 3 \<longleftrightarrow> k = ''full''"
  by (auto simp: rankOf_def RATE_COVERAGE_RANK_def)

lemma rank_known: "k \<notin> set protoKeys \<Longrightarrow> \<exists>q. rankOf k = Fin q \<and> q \<le> 3"
  by (auto simp: rankOf_def RATE_COVERAGE_RANK_def)

text \<open>The coverage badge is green exactly when both directions report full coverage, for every report whose
  coverage words are not names of members of Object.prototype.\<close>

theorem coverage_green:
  assumes "coverageOf tx \<notin> set protoKeys" "coverageOf rx \<notin> set protoKeys"
  shows "badgeClass (coverageBadge tx rx) = ''label success'' \<longleftrightarrow> coverageOf tx = ''full'' \<and> coverageOf rx = ''full''"
proof -
  obtain p q where ranks: "rankOf (coverageOf tx) = Fin p" "p \<le> 3" "rankOf (coverageOf rx) = Fin q" "q \<le> 3"
    using rank_known [OF assms(1)] rank_known [OF assms(2)] by blast
  then have "p = 3 \<longleftrightarrow> coverageOf tx = ''full''" "q = 3 \<longleftrightarrow> coverageOf rx = ''full''"
    using rank_full by (metis jnum.inject)+
  then show ?thesis using ranks by (auto simp: coverageBadge_def worstCoverage_def)
qed

theorem coverage_green_witness:
  "badgeClass (coverageBadge (JObj [(''coverage'', JStr ''full'')]) (JObj [(''coverage'', JStr ''partial'')])) \<noteq> ''label success''"
  using coverage_green [of "JObj [(''coverage'', JStr ''full'')]" "JObj [(''coverage'', JStr ''partial'')]"]
  by (simp add: coverageOf_def jor_def jget.simps protoKeys_def)

end
