(* ===== verification/DiagSchema.thy ===== *)
theory DiagSchema
  imports JsBase
begin

text \<open>
  \<open>lanspeed/diagnosticsSchema.js\<close>: the contract of the six RPC answers the diagnostics page
  reads. Every validator returns the first violated rule in the order the code tests them, or
  nothing. The first part holds the tables of the module; a translated label is named by the
  key it belongs to, the messages of the failures by English glosses.

  The second half states the diagnostics contract declaratively, as the type of each field
  and the relations between them, and shows that the validators decide exactly it.
\<close>

section \<open>Tables\<close>

definition RPC_KEYS :: "string list" where
  "RPC_KEYS = [
     ''diagnostics'', ''status'', ''health'', ''clients'', ''interfaces'', ''overview'']"

definition RPC_LABELS :: "(string \<times> mtext) list" where
  "RPC_LABELS = map (\<lambda>k. (k, Tr k)) [
     ''diagnostics'', ''status'', ''health'', ''clients'', ''interfaces'', ''overview'']"

definition RESOURCE_PHASES :: "string list" where
  "RESOURCE_PHASES = [
     ''loading'', ''success'', ''empty'', ''stale'', ''degraded'', ''error'', ''invalid'']"

definition HEALTH_STATES :: "string list" where
  "HEALTH_STATES = [
     ''healthy'', ''degraded'', ''unavailable'', ''disabled'']"

definition RUNTIME_MODES :: "string list" where
  "RUNTIME_MODES = [
     ''Full'', ''Degraded'', ''Unsupported'']"

definition CONFIDENCES :: "string list" where
  "CONFIDENCES = [
     ''high'', ''medium'', ''low'', ''unsupported'']"

definition MAX_DIAGNOSTIC_ALERTS :: nat where
  "MAX_DIAGNOSTIC_ALERTS = 64"

definition MAX_CONFIG_ISSUES :: nat where
  "MAX_CONFIG_ISSUES = 16"

definition MAX_SUBSYSTEMS :: nat where
  "MAX_SUBSYSTEMS = 16"

definition MAX_PROBE_FAILURES :: nat where
  "MAX_PROBE_FAILURES = 32"

definition DEFAULT_RPC_TIMEOUT_MS :: nat where
  "DEFAULT_RPC_TIMEOUT_MS = 8000"

definition MAX_RPC_TIMEOUT_MS :: nat where
  "MAX_RPC_TIMEOUT_MS = 60000"

definition DEFAULT_RETAIN_MS :: nat where
  "DEFAULT_RETAIN_MS = 30000"

definition MAX_RETAIN_MS :: nat where
  "MAX_RETAIN_MS = 120000"

definition NSS_TELEMETRY_FIELDS :: "string list" where
  "NSS_TELEMETRY_FIELDS = [
     ''sync_count'', ''last_sync_ns'', ''igs_bytes'', ''igs_packets'', ''igs_drops'',
     ''peer_generation'', ''peer_reassert'', ''ack_latency_last_ns'', ''ack_latency_max_ns'',
     ''ack_received'', ''ack_timeout'', ''ack_late'', ''control_generation'',
     ''hardware_generation'']"

definition NSS_GENL_CAP_FIELDS :: "string list" where
  "NSS_GENL_CAP_FIELDS = [
     ''state'', ''abi_version'', ''feature_bits'', ''max_igs'', ''max_peers'', ''max_client_tags'',
     ''supports_wifi_peer'', ''supports_igs_stats'', ''supports_peer_query'']"

definition NSS_GENL_STATE_FIELDS :: "string list" where
  "NSS_GENL_STATE_FIELDS = [
     ''state'', ''staged'', ''published'', ''degraded'']"

definition NSS_GENL_STATS_FIELDS :: "string list" where
  "NSS_GENL_STATS_FIELDS = [
     ''state'', ''control_generation'', ''hardware_generation'', ''peer_generation'',
     ''peer_reassert_count'', ''igs_sync_count'', ''igs_last_sync_ns'', ''igs_bytes'',
     ''igs_packets'', ''igs_drops'', ''igs_active_nodes'', ''igs_cadence_samples'',
     ''igs_cadence_last_ns'', ''igs_cadence_min_ns'', ''igs_cadence_max_ns'',
     ''ack_latency_last_ns'', ''ack_latency_max_ns'', ''ack_received'', ''ack_timeout'',
     ''ack_late'']"

definition NSS_GENL_HEALTH_FIELDS :: "string list" where
  "NSS_GENL_HEALTH_FIELDS = [
     ''state'', ''healthy'', ''control_generation'', ''hardware_generation'']"

definition NSS_IGS_CADENCE_FIELDS :: "string list" where
  "NSS_IGS_CADENCE_FIELDS = [
     ''state'', ''samples'', ''last_interval_ns'', ''min_interval_ns'', ''max_interval_ns'',
     ''active_nodes'']"

definition CAPABILITY_KEYS :: "string list" where
  "CAPABILITY_KEYS = [
     ''bpf'', ''bpf_supported'', ''bpf_package'', ''bpf_object'', ''bpf_runtime_metrics'',
     ''conntrack_fallback'', ''live_metrics'', ''fw4'', ''nft'', ''software_flow_offload'',
     ''hardware_flow_offload'', ''nss'', ''nss_ecm_offload'', ''nss_ppe_offload'', ''nss_ecm_node'',
     ''nss_ecm_bpf'', ''nss_bridge_mgr'', ''nss_ifb'', ''nss_nsm'', ''nss_dp'', ''nss_mcs'',
     ''fullcone'', ''nf_conntrack_acct'', ''flowtable_counter'', ''tc'', ''tc_clsact'',
     ''existing_tc_filters'', ''ifb'', ''sqm'', ''qosify'', ''openclash'', ''openclash_fake_ip'',
     ''openclash_tun_mix'', ''openclash_redirect_dns'', ''openclash_dns_chain_complete'',
     ''openclash_router_self_proxy'', ''openclash_udp_proxy'', ''openclash_ipv6'', ''dae'',
     ''homeproxy'', ''lan_bridge'', ''vlan'', ''wlan'', ''lan_edge'', ''safe_attach'', ''map_full'']"

definition BPF_ATTACH_STATES :: "string list" where
  "BPF_ATTACH_STATES = [
     ''not_attempted'', ''ready'', ''partial'', ''failed'']"

definition BPF_MAP_STATES :: "string list" where
  "BPF_MAP_STATES = [
     ''not_attempted'', ''ready'', ''failed'', ''retained'']"

definition BPF_REASON_CODES :: "string list" where
  "BPF_REASON_CODES = [
     ''disabled'', ''no_collect_interface'', ''package_missing'', ''object_missing'',
     ''object_load_failed'', ''tc_unavailable'', ''tc_unsupported'', ''tc_conflict'',
     ''tc_attach_failed'', ''map_read_failed'', ''ready'', ''runtime_not_ready'']"

definition PROBE_KINDS :: "string list" where
  "PROBE_KINDS = [
     ''command'', ''file'', ''uci'', ''ubus'', ''nss'', ''probe'']"

definition PROBE_REASONS :: "string list" where
  "PROBE_REASONS = [
     ''availability_failed'', ''execution_failed'', ''nonzero_exit'', ''timeout'',
     ''output_truncated'', ''read_failed'', ''load_failed'', ''query_failed'',
     ''state_probe_failed'', ''state_unreadable'', ''failed'']"

definition REASON_LABELS :: "(string \<times> mtext) list" where
  "REASON_LABELS = map (\<lambda>k. (k, Tr k)) [
     ''bpf_available'', ''netlink_preferred'', ''procfs_fallback'', ''nss_ecm_node_primary'',
     ''nss_ecm_bpf_primary'', ''nss_ecm_node_fallback'',
     ''nss_collectors_unavailable_bpf_fallback'', ''forced_bpf'', ''forced_bpf_unavailable'',
     ''no_collect_interface'', ''forced_nss_ecm_node'', ''forced_nss_ecm_node_unavailable'',
     ''forced_nss_ecm_bpf'', ''forced_nss_ecm_bpf_unavailable'', ''no_live_rate_collector'',
     ''forced_conntrack_netlink'', ''forced_conntrack_netlink_unavailable'',
     ''forced_conntrack_procfs'', ''forced_conntrack_procfs_unavailable'',
     ''conntrack_unavailable'', ''conntrack_not_sampled'', ''conntrack_read_failed'',
     ''state_unavailable_or_unreadable'', ''unsupported'']"

definition SUBSYSTEM_LABELS :: "(string \<times> mtext) list" where
  "SUBSYSTEM_LABELS = map (\<lambda>k. (k, Tr k)) [
     ''bpf'', ''tc'', ''bpf_map'', ''conntrack'', ''nss'', ''nss_control'', ''identity'', ''ubus'']"

definition HEALTH_REPORT_LABELS :: "(string \<times> mtext) list" where
  "HEALTH_REPORT_LABELS = map (\<lambda>k. (k, Tr k)) [
     ''healthy'', ''degraded'', ''unavailable'', ''disabled'']"

definition PROBE_REASON_LABELS :: "(string \<times> mtext) list" where
  "PROBE_REASON_LABELS = map (\<lambda>k. (k, Tr k)) [
     ''availability_failed'', ''execution_failed'', ''nonzero_exit'', ''timeout'',
     ''output_truncated'', ''read_failed'', ''load_failed'', ''query_failed'',
     ''state_probe_failed'', ''state_unreadable'', ''failed'']"

definition PROBE_KIND_REPORT_LABELS :: "(string \<times> mtext) list" where
  "PROBE_KIND_REPORT_LABELS = map (\<lambda>k. (k, Tr k)) [
     ''command'', ''file'', ''uci'', ''ubus'', ''nss'', ''probe'', ''process'', ''service'',
     ''runtime'', ''sysctl'']"

definition INTERFACE_ROLE_REPORT_LABELS :: "(string \<times> mtext) list" where
  "INTERFACE_ROLE_REPORT_LABELS = [
     (''lan'', Tr ''LAN''), (''wan'', Tr ''WAN''), (''observe'', Tr ''observe''),
     (''excluded'', Tr ''excluded''), (''unknown'', Tr ''unknown''), (''off'', Tr ''off''),
     (''disabled'', Tr ''disabled'')]"

definition INTERFACE_STATUS_REPORT_LABELS :: "(string \<times> mtext) list" where
  "INTERFACE_STATUS_REPORT_LABELS = map (\<lambda>k. (k, Tr k)) [
     ''available'', ''active'', ''pending'', ''missing'', ''unsupported'', ''excluded'',
     ''unknown'']"

definition COLLECTOR_REPORT_LABELS :: "(string \<times> mtext) list" where
  "COLLECTOR_REPORT_LABELS = [
     (''access_edge'', Tr ''access_edge''), (''bpf'', Tr ''BPF''), (''nss_ecm_node'', Tr ''ECM''),
     (''nss_ecm_bpf'', Tr ''ECM+BPF''), (''conntrack_netlink'', Tr ''CT-Netlink''),
     (''conntrack_procfs'', Tr ''CT-Procfs''), (''conntrack'', Tr ''CT''),
     (''unsupported'', Tr ''unsupported'')]"

definition RATE_SOURCE_LABELS :: "(string \<times> mtext) list" where
  "RATE_SOURCE_LABELS = [
     (''edge_port'', Tr ''Edge-Port''), (''edge_wifi'', Tr ''Edge-WiFi''),
     (''fast_routed_lease'', Tr ''fast_routed_lease''),
     (''fast_routed_internet'', Tr ''fast_routed_internet''),
     (''ecm_bpf_fallback'', Tr ''ecm_bpf_fallback''),
     (''ecm_nss_lower_bound'', Tr ''ecm_nss_lower_bound''),
     (''tc_bpf_lower_bound'', Tr ''tc_bpf_lower_bound''), (''none'', Tr ''none'')]"

definition RATE_COVERAGE_LABELS :: "(string \<times> mtext) list" where
  "RATE_COVERAGE_LABELS = map (\<lambda>k. (k, Tr k)) [
     ''full'', ''partial'', ''degraded'', ''unavailable'']"

definition RATE_SCOPE_LABELS :: "(string \<times> mtext) list" where
  "RATE_SCOPE_LABELS = map (\<lambda>k. (k, Tr k)) [
     ''all_frames'', ''unicast'', ''routed_observed'', ''lower_bound'', ''none'']"

definition CLASSIFICATION_STATE_LABELS :: "(string \<times> mtext) list" where
  "CLASSIFICATION_STATE_LABELS = map (\<lambda>k. (k, Tr k)) [
     ''warmup'', ''aligned'', ''partial'', ''stale'', ''domain_mismatch'', ''window_mismatch'',
     ''counter_skew'', ''map_loss'', ''unavailable'']"

definition ACCESS_EDGE_REASON_LABELS :: "(string \<times> mtext) list" where
  "ACCESS_EDGE_REASON_LABELS = map (\<lambda>k. (k, Tr k)) [
     ''active_attachment_unpublished'', ''attachment_ambiguous'', ''access_edge_shadow'',
     ''classification_counter_skew'', ''classification_domain_mismatch'',
     ''classification_map_loss'', ''classification_partial'', ''classification_stale'',
     ''classification_unavailable'', ''classification_warmup'', ''classification_window_mismatch'',
     ''counter_reset'', ''direction_window_mismatch'', ''duplicate_client_identity'',
     ''duplicate_mac_attachment'', ''fdb_dump_failed'', ''fdb_event_monitor_failed'',
     ''fdb_event_monitor_unavailable'', ''fdb_fallback_incomplete'', ''fresh_edge_owner_missing'',
     ''ethernet_full_scope_unproven'', ''nl80211_dump_failed'', ''nl80211_dump_incomplete'',
     ''nl80211_station_sample_missing'', ''port_counter_missing'', ''rate_owner_unavailable'',
     ''shadow_not_rate_owner'', ''shared_or_unproven_port'', ''topology_incomplete'', ''warmup'',
     ''wifi_group_traffic_unattributed'', ''wifi_shared_or_unproven_interface'']"

definition FDB_SOURCE_LABELS :: "(string \<times> mtext) list" where
  "FDB_SOURCE_LABELS = map (\<lambda>k. (k, Tr k)) [
     ''rtnetlink_af_bridge'', ''sysfs_brforward_fallback'']"

section \<open>Values\<close>

definition asArray :: "jval \<Rightarrow> jval list" where
  "asArray v = arrItems v"

fun plainObject :: "jval \<Rightarrow> bool" where
  "plainObject (JObj ps) = True"
| "plainObject v = False"

definition finiteNumber :: "jval \<Rightarrow> rat option" where
  "finiteNumber v = (if \<not> isNum v \<and> \<not> isStr v then None
     else if isStr v \<and> jtrim (toStr v) = [] then None
     else (case toNum v of Fin q \<Rightarrow> Some q | _ \<Rightarrow> None))"

definition safeInteger :: "jval \<Rightarrow> rat option \<Rightarrow> rat option \<Rightarrow> bool" where
  "safeInteger v minimum maximum = (case v of
     JNum (Fin q) \<Rightarrow> of_int \<lfloor>q\<rfloor> = q \<and> \<bar>q\<bar> \<le> MAX_SAFE_INTEGER \<and>
       (case minimum of None \<Rightarrow> True | Some m \<Rightarrow> \<not> q < m) \<and> (case maximum of None \<Rightarrow> True | Some m \<Rightarrow> \<not> q > m)
   | _ \<Rightarrow> False)"

definition nonNegativeInteger :: "jval \<Rightarrow> bool" where
  "nonNegativeInteger v = safeInteger v (Some 0) None"

definition boundedString :: "jval \<Rightarrow> nat \<Rightarrow> nat \<Rightarrow> bool" where
  "boundedString v minimum maximum = (case v of
     JStr s \<Rightarrow> minimum \<le> length s \<and> length s \<le> maximum | _ \<Rightarrow> False)"

definition isCodeChar :: "char \<Rightarrow> bool" where
  "isCodeChar c \<longleftrightarrow> isDigit c \<or> isUpperAz c \<or> isLowerAz c \<or> c = CHR ''_'' \<or> c = CHR ''-''"

definition isCode :: "string \<Rightarrow> bool" where
  "isCode s \<longleftrightarrow> s \<noteq> [] \<and> list_all isCodeChar s"

definition codeString :: "jval \<Rightarrow> bool \<Rightarrow> bool" where
  "codeString v nullable \<longleftrightarrow> nullable \<and> v = JNull \<or> boundedString v 1 64 \<and> isCode (toStr v)"

definition enumValue :: "jval \<Rightarrow> string list \<Rightarrow> bool" where
  "enumValue v vs = (case v of JStr s \<Rightarrow> s \<in> set vs | _ \<Rightarrow> False)"

definition onlyFields :: "jval \<Rightarrow> string list \<Rightarrow> bool" where
  "onlyFields v names \<longleftrightarrow> plainObject v \<and> list_all (\<lambda>k. k \<in> set names) (objectKeys v)"

text \<open>\<open>a > b\<close> where both sides are numbers.\<close>

definition jgt :: "jval \<Rightarrow> jval \<Rightarrow> bool" where
  "jgt a b = nlt (toNum b) (toNum a)"

definition nullOr :: "(jval \<Rightarrow> bool) \<Rightarrow> jval \<Rightarrow> bool" where
  "nullOr P v \<longleftrightarrow> v = JNull \<or> P v"

section \<open>Failures\<close>

record issue =
  issuePath :: string
  issueReason :: mtext

definition failure :: "string \<Rightarrow> string \<Rightarrow> issue" where
  "failure p message = \<lparr>issuePath = p, issueReason = Fmt ''%s: %s'' [Lit p, Tr message]\<rparr>"

definition failIf :: "bool \<Rightarrow> string \<Rightarrow> string \<Rightarrow> issue option" where
  "failIf c p message = (if c then Some (failure p message) else None)"

fun firstIssue :: "issue option list \<Rightarrow> issue option" where
  "firstIssue [] = None"
| "firstIssue (Some e # rest) = Some e"
| "firstIssue (None # rest) = firstIssue rest"

fun requireFields :: "jval \<Rightarrow> string list \<Rightarrow> string \<Rightarrow> issue option" where
  "requireFields v [] p = None"
| "requireFields v (f # fs) p =
     (if \<not> hasOwn v f then Some (failure (p @ ''.'' @ f) ''field missing'') else requireFields v fs p)"

text \<open>The rule of a field that may be left out.\<close>

definition whenOwn :: "jval \<Rightarrow> string \<Rightarrow> (jval \<Rightarrow> bool) \<Rightarrow> bool" where
  "whenOwn v k P \<longleftrightarrow> (if hasOwn v k then P (jget v k) else True)"

section \<open>NSS telemetry\<close>

definition validNssGenlObject :: "string list \<Rightarrow> string list \<Rightarrow> string list \<Rightarrow> jval \<Rightarrow> bool" where
  "validNssGenlObject names integerFields booleanFields v \<longleftrightarrow>
     onlyFields v names \<and> jget v ''state'' = JStr ''ready'' \<and>
     list_all (\<lambda>f. hasOwn v f \<and> nonNegativeInteger (jget v f)) integerFields \<and>
     list_all (\<lambda>f. isBool (jget v f)) booleanFields"

definition validNssIgsCadence :: "jval \<Rightarrow> bool" where
  "validNssIgsCadence v \<longleftrightarrow> onlyFields v NSS_IGS_CADENCE_FIELDS \<and>
     enumValue (jget v ''state'') [''unavailable'', ''invalid'', ''ready''] \<and>
     (if jget v ''state'' \<noteq> JStr ''ready'' then length (objectKeys v) = 1
      else list_all (\<lambda>f. hasOwn v f \<and> nonNegativeInteger (jget v f)) (tl NSS_IGS_CADENCE_FIELDS))"

definition validNssHardwareTelemetry :: "jval \<Rightarrow> bool" where
  "validNssHardwareTelemetry v \<longleftrightarrow>
     onlyFields v ([''state''] @ NSS_TELEMETRY_FIELDS @
       [''igs_cadence'', ''genl_caps'', ''genl_state'', ''genl_stats'', ''genl_health'']) \<and>
     enumValue (jget v ''state'') [''unavailable'', ''invalid'', ''ready''] \<and>
     (jget v ''state'' \<noteq> JStr ''ready'' \<or>
       list_all (\<lambda>f. hasOwn v f \<and> nonNegativeInteger (jget v f)) NSS_TELEMETRY_FIELDS \<and>
       whenOwn v ''igs_cadence'' validNssIgsCadence \<and>
       whenOwn v ''genl_caps'' (validNssGenlObject NSS_GENL_CAP_FIELDS
         [''abi_version'', ''feature_bits'', ''max_igs'', ''max_peers'', ''max_client_tags'']
         [''supports_wifi_peer'', ''supports_igs_stats'', ''supports_peer_query'']) \<and>
       whenOwn v ''genl_state'' (validNssGenlObject NSS_GENL_STATE_FIELDS
         [''staged'', ''published'', ''degraded''] []) \<and>
       whenOwn v ''genl_stats'' (validNssGenlObject NSS_GENL_STATS_FIELDS
         [''control_generation'', ''hardware_generation'', ''peer_generation'', ''peer_reassert_count'',
          ''igs_sync_count'', ''igs_last_sync_ns'', ''igs_bytes'', ''igs_packets'', ''igs_drops'',
          ''igs_active_nodes'', ''igs_cadence_samples'', ''igs_cadence_last_ns'', ''igs_cadence_min_ns'',
          ''igs_cadence_max_ns'', ''ack_latency_last_ns'', ''ack_latency_max_ns'', ''ack_received'',
          ''ack_timeout'', ''ack_late''] []) \<and>
       whenOwn v ''genl_health'' (validNssGenlObject NSS_GENL_HEALTH_FIELDS
         [''control_generation'', ''hardware_generation''] [''healthy'']))"

section \<open>The diagnostics contract\<close>

definition itemId :: "jval \<Rightarrow> string" where
  "itemId item = toStr (jor (jfield item ''id'') (JStr []))"

fun uniqueFrom :: "string list \<Rightarrow> jval list \<Rightarrow> bool" where
  "uniqueFrom seen [] = True"
| "uniqueFrom seen (x # xs) = (if itemId x = [] \<or> itemId x \<in> set seen then False
     else uniqueFrom (itemId x # seen) xs)"

definition uniqueIds :: "jval \<Rightarrow> bool" where
  "uniqueIds items = uniqueFrom [] (asArray items)"

definition validatePublicError :: "jval \<Rightarrow> string \<Rightarrow> issue option" where
  "validatePublicError v p = (let required = [''code'', ''category'', ''stage'', ''retriable'', ''message_public''] in
     firstIssue [failIf (\<not> plainObject v) p ''invalid error object'',
       requireFields v required p,
       failIf (\<not> onlyFields v required) p ''undefined field'',
       failIf (\<not> (codeString (jget v ''code'') False \<and>
           enumValue (jget v ''category'') [''transport'', ''collection'', ''reload'', ''serialization'', ''platform''] \<and>
           codeString (jget v ''stage'') False \<and> isBool (jget v ''retriable'') \<and>
           boundedString (jget v ''message_public'') 1 160)) p ''invalid public error field''])"

definition diagnosticsTop :: "string list" where
  "diagnosticsTop = [''contract_version'', ''service'', ''collection'', ''data_path'', ''interfaces'',
     ''connection'', ''subsystems'', ''versions'', ''alerts'', ''config_issues'']"

definition serviceIssue :: "jval \<Rightarrow> issue option" where
  "serviceIssue v = failIf (\<not> (onlyFields v [''state'', ''ubus_connected''] \<and>
     enumValue (jget v ''state'') [''starting'', ''running'', ''degraded''] \<and>
     isBool (jget v ''ubus_connected''))) ''diagnostics.service'' ''invalid field''"

definition collectionKeys :: "string list" where
  "collectionKeys = [''state'', ''generation'', ''last_attempt_ms'', ''last_success_ms'', ''age_ms'',
     ''refresh_interval_ms'', ''consecutive_failures'', ''retained'', ''last_error'']"

definition collectionTyped :: "jval \<Rightarrow> bool" where
  "collectionTyped v \<longleftrightarrow> onlyFields v collectionKeys \<and>
     enumValue (jget v ''state'') [''fresh'', ''stale'', ''degraded'', ''unavailable''] \<and>
     nonNegativeInteger (jget v ''generation'') \<and>
     nullOr nonNegativeInteger (jget v ''last_attempt_ms'') \<and>
     nullOr nonNegativeInteger (jget v ''last_success_ms'') \<and>
     nullOr nonNegativeInteger (jget v ''age_ms'') \<and>
     safeInteger (jget v ''refresh_interval_ms'') (Some 500) None \<and>
     safeInteger (jget v ''consecutive_failures'') (Some 0) None \<and> isBool (jget v ''retained'')"

definition collectionIssue :: "jval \<Rightarrow> issue option" where
  "collectionIssue v = firstIssue [
     failIf (\<not> collectionTyped v) ''diagnostics.collection'' ''invalid field'',
     failIf (jget v ''last_attempt_ms'' \<noteq> JNull \<and> jget v ''last_success_ms'' \<noteq> JNull \<and>
         jgt (jget v ''last_success_ms'') (jget v ''last_attempt_ms''))
       ''diagnostics.collection'' ''success after the last attempt'',
     failIf (enumValue (jget v ''state'') [''fresh'', ''stale''] \<and>
         (jgt (num 1) (jget v ''generation'') \<or> jget v ''last_success_ms'' = JNull \<or> jget v ''age_ms'' = JNull))
       ''diagnostics.collection'' ''fresh without a successful sample'',
     failIf (truthy (jget v ''retained'') \<and> jget v ''last_success_ms'' = JNull)
       ''diagnostics.collection.retained'' ''retained without a successful sample'',
     failIf (jgt (jget v ''consecutive_failures'') (num 0) \<and> jget v ''last_error'' = JNull)
       ''diagnostics.collection.last_error'' ''failures without a public error'',
     if jget v ''last_error'' \<noteq> JNull
     then validatePublicError (jget v ''last_error'') ''diagnostics.collection.last_error'' else None]"

definition dataPathTyped :: "jval \<Rightarrow> bool" where
  "dataPathTyped v \<longleftrightarrow> onlyFields v [''configured_rate'', ''effective_rate'', ''configured_connection'',
       ''effective_connection'', ''fallback_active'', ''reason_code''] \<and>
     boundedString (jget v ''configured_rate'') 1 64 \<and> codeString (jget v ''effective_rate'') False \<and>
     boundedString (jget v ''configured_connection'') 1 64 \<and> codeString (jget v ''effective_connection'') False \<and>
     isBool (jget v ''fallback_active'') \<and> codeString (jget v ''reason_code'') True"

definition dataPathIssue :: "jval \<Rightarrow> issue option" where
  "dataPathIssue v = firstIssue [
     failIf (\<not> dataPathTyped v) ''diagnostics.data_path'' ''invalid field'',
     failIf ((jget v ''effective_rate'' = JStr ''unsupported'' \<or> jget v ''effective_connection'' = JStr ''unsupported'') \<and>
         \<not> truthy (jget v ''reason_code'')) ''diagnostics.data_path.reason_code'' ''unavailable path without a reason'']"

definition interfacesIssue :: "jval \<Rightarrow> issue option" where
  "interfacesIssue v = failIf (\<not> (
       onlyFields v [''state'', ''total'', ''available'', ''missing'', ''sample_ms''] \<and>
       enumValue (jget v ''state'') HEALTH_STATES \<and> nonNegativeInteger (jget v ''total'') \<and>
       nonNegativeInteger (jget v ''available'') \<and> nonNegativeInteger (jget v ''missing'') \<and>
       nullOr nonNegativeInteger (jget v ''sample_ms'')) \<or>
     jgt (jget v ''available'') (jget v ''total'') \<or> jgt (jget v ''missing'') (jget v ''total'') \<or>
     nlt (toNum (jget v ''total'')) (nadd (toNum (jget v ''available'')) (toNum (jget v ''missing''))))
     ''diagnostics.interfaces'' ''invalid field or counts''"

definition connectionIssue :: "jval \<Rightarrow> issue option" where
  "connectionIssue v = failIf (\<not> (
       onlyFields v [''state'', ''source'', ''entries_seen'', ''entries_matched'', ''parse_errors''] \<and>
       enumValue (jget v ''state'') HEALTH_STATES \<and>
       nullOr (\<lambda>s. codeString s False) (jget v ''source'') \<and>
       nullOr nonNegativeInteger (jget v ''entries_seen'') \<and>
       nullOr nonNegativeInteger (jget v ''entries_matched'') \<and>
       nullOr nonNegativeInteger (jget v ''parse_errors'')) \<or>
     jget v ''entries_seen'' \<noteq> JNull \<and> jget v ''entries_matched'' \<noteq> JNull \<and>
       jgt (jget v ''entries_matched'') (jget v ''entries_seen'') \<or>
     jget v ''state'' = JStr ''healthy'' \<and> \<not> truthy (jget v ''source''))
     ''diagnostics.connection'' ''invalid field or counts''"

definition subsystemOk :: "jval \<Rightarrow> bool" where
  "subsystemOk item \<longleftrightarrow> onlyFields item [''id'', ''state'', ''code''] \<and> codeString (jget item ''id'') False \<and>
     enumValue (jget item ''state'') HEALTH_STATES \<and> nullOr (\<lambda>s. codeString s False) (jget item ''code'')"

definition alertOk :: "jval \<Rightarrow> bool" where
  "alertOk item \<longleftrightarrow> onlyFields item [''id'', ''severity'', ''component'', ''state'', ''message_public''] \<and>
     codeString (jget item ''id'') False \<and> enumValue (jget item ''severity'') [''info'', ''warning'', ''critical''] \<and>
     codeString (jget item ''component'') False \<and> jget item ''state'' = JStr ''active'' \<and>
     boundedString (jget item ''message_public'') 1 160"

definition configIssueOk :: "jval \<Rightarrow> bool" where
  "configIssueOk item \<longleftrightarrow> onlyFields item [''id'', ''severity'', ''option'', ''state'', ''message_public''] \<and>
     codeString (jget item ''id'') False \<and> enumValue (jget item ''severity'') [''info'', ''warning'', ''critical''] \<and>
     codeString (jget item ''option'') False \<and>
     enumValue (jget item ''state'') [''adjusted'', ''compatibility_only'', ''required'', ''ineffective''] \<and>
     boundedString (jget item ''message_public'') 1 160"

definition itemsIssue :: "nat \<Rightarrow> (jval \<Rightarrow> bool) \<Rightarrow> string \<Rightarrow> jval \<Rightarrow> issue option" where
  "itemsIssue maximum itemOk p v = failIf (\<not> isArr v \<or> length (asArray v) > maximum \<or> \<not> uniqueIds v \<or>
     \<not> list_all itemOk (asArray v)) p ''invalid field''"

definition versionsIssue :: "jval \<Rightarrow> issue option" where
  "versionsIssue v = failIf (\<not> (onlyFields v [''daemon'', ''package'', ''contract_version'', ''schema_version''] \<and>
     boundedString (jget v ''daemon'') 1 64 \<and> boundedString (jget v ''package'') 1 64 \<and>
     jget v ''contract_version'' = num 1 \<and> jget v ''schema_version'' = num 1)) ''diagnostics.versions'' ''invalid field''"

definition contractIssue :: "jval \<Rightarrow> issue option" where
  "contractIssue v = firstIssue [
     failIf (\<not> plainObject v) ''diagnostics'' ''not an object'',
     requireFields v diagnosticsTop ''diagnostics'',
     failIf (\<not> onlyFields v diagnosticsTop) ''diagnostics'' ''undefined field'',
     failIf (jget v ''contract_version'' \<noteq> num 1) ''diagnostics.contract_version'' ''only version 1'',
     serviceIssue (jget v ''service''), collectionIssue (jget v ''collection''),
     dataPathIssue (jget v ''data_path''), interfacesIssue (jget v ''interfaces''),
     connectionIssue (jget v ''connection''),
     itemsIssue MAX_SUBSYSTEMS subsystemOk ''diagnostics.subsystems'' (jget v ''subsystems''),
     versionsIssue (jget v ''versions''),
     itemsIssue MAX_DIAGNOSTIC_ALERTS alertOk ''diagnostics.alerts'' (jget v ''alerts''),
     itemsIssue MAX_CONFIG_ISSUES configIssueOk ''diagnostics.config_issues'' (jget v ''config_issues'')]"

text \<open>The result object: the accepted value, the first failure, or a TypeError thrown on the way.\<close>

datatype verdict = Accepted jval | Refused issue | Raised

definition verdictOf :: "jval \<Rightarrow> issue option \<Rightarrow> verdict" where
  "verdictOf v i = (case i of None \<Rightarrow> Accepted v | Some e \<Rightarrow> Refused e)"

definition validateDiagnosticsContract :: "jval \<Rightarrow> verdict" where
  "validateDiagnosticsContract v = verdictOf v (contractIssue v)"

section \<open>The runtime answers\<close>

definition optionalIntegers :: "jval \<Rightarrow> string list \<Rightarrow> (string \<times> rat) list \<Rightarrow> bool" where
  "optionalIntegers v names minimums \<longleftrightarrow> list_all (\<lambda>f. whenOwn v f
     (\<lambda>w. safeInteger w (Some (case map_of minimums f of Some m \<Rightarrow> m | None \<Rightarrow> 0)) None)) names"

definition validateCapabilities :: "jval \<Rightarrow> string \<Rightarrow> issue option" where
  "validateCapabilities v p = firstIssue [
     failIf (\<not> onlyFields v CAPABILITY_KEYS) p ''invalid capability field'',
     requireFields v CAPABILITY_KEYS p,
     failIf (\<not> list_all (\<lambda>k. isBool (jget v k)) CAPABILITY_KEYS) p ''capabilities are booleans'']"

definition isSourceChar :: "char \<Rightarrow> bool" where
  "isSourceChar c \<longleftrightarrow> isCodeChar c \<or> c \<in> set ''./<>''"

definition isProbeSource :: "string \<Rightarrow> bool" where
  "isProbeSource s \<longleftrightarrow> takeWhile (\<lambda>c. c \<noteq> CHR '':'') s \<in> set PROBE_KINDS \<and>
     (case dropWhile (\<lambda>c. c \<noteq> CHR '':'') s of [] \<Rightarrow> False | _ # r \<Rightarrow> r \<noteq> [] \<and> list_all isSourceChar r)"

definition probeItemOk :: "jval \<Rightarrow> bool" where
  "probeItemOk item \<longleftrightarrow> onlyFields item [''kind'', ''source'', ''reason'', ''exit_code''] \<and>
     enumValue (jget item ''kind'') PROBE_KINDS \<and> boundedString (jget item ''source'') 1 160 \<and>
     isProbeSource (toStr (jget item ''source'')) \<and> enumValue (jget item ''reason'') PROBE_REASONS \<and>
     whenOwn item ''exit_code'' (\<lambda>w. safeInteger w None None)"

definition validateProbeFailures :: "jval \<Rightarrow> string \<Rightarrow> issue option" where
  "validateProbeFailures v p = (let n = num (of_nat (length (asArray (jget v ''items'')))) in firstIssue [
     failIf (\<not> onlyFields v [''items'', ''total'', ''truncated'']) p ''invalid summary of probe failures'',
     requireFields v [''items'', ''total'', ''truncated''] p,
     failIf (\<not> isArr (jget v ''items'') \<or> length (asArray (jget v ''items'')) > MAX_PROBE_FAILURES \<or>
         \<not> nonNegativeInteger (jget v ''total'') \<or> jgt n (jget v ''total'') \<or> \<not> isBool (jget v ''truncated'') \<or>
         (jgt (jget v ''total'') n \<and> \<not> truthy (jget v ''truncated'')) \<or>
         \<not> list_all probeItemOk (asArray (jget v ''items''))) p ''invalid probe failure''])"

definition bpfFields :: "string list" where
  "bpfFields = [''enabled'', ''collect_target_count'', ''expected_hook_count'', ''attached_hook_count'',
     ''object_loaded'', ''attach_state'', ''map_state'', ''last_complete_snapshot_ms'',
     ''retained_fresh_snapshot'', ''reason_code'']"

definition bpfTyped :: "jval \<Rightarrow> bool" where
  "bpfTyped v \<longleftrightarrow> isBool (jget v ''enabled'') \<and> isBool (jget v ''object_loaded'') \<and>
     isBool (jget v ''retained_fresh_snapshot'') \<and> nonNegativeInteger (jget v ''collect_target_count'') \<and>
     nonNegativeInteger (jget v ''expected_hook_count'') \<and> nonNegativeInteger (jget v ''attached_hook_count'') \<and>
     \<not> jgt (jget v ''attached_hook_count'') (jget v ''expected_hook_count'') \<and>
     enumValue (jget v ''attach_state'') BPF_ATTACH_STATES \<and> enumValue (jget v ''map_state'') BPF_MAP_STATES \<and>
     enumValue (jget v ''reason_code'') BPF_REASON_CODES \<and>
     nullOr nonNegativeInteger (jget v ''last_complete_snapshot_ms'')"

definition validateBpfEvidence :: "jval \<Rightarrow> string \<Rightarrow> issue option" where
  "validateBpfEvidence v p = firstIssue [
     failIf (\<not> onlyFields v bpfFields) p ''invalid BPF evidence field'',
     requireFields v bpfFields p,
     failIf (\<not> bpfTyped v) p ''invalid BPF evidence'',
     failIf (jget v ''collect_target_count'' = num 0 \<and> jget v ''attach_state'' \<noteq> JStr ''not_attempted'')
       (p @ ''.attach_state'') ''attached without a collecting interface'',
     failIf (jget v ''attach_state'' = JStr ''ready'' \<and> (\<not> truthy (jget v ''object_loaded'') \<or>
         jget v ''expected_hook_count'' = num 0 \<or>
         jget v ''attached_hook_count'' \<noteq> jget v ''expected_hook_count''))
       (p @ ''.attach_state'') ''hook counts contradict the state'',
     failIf (jget v ''attach_state'' = JStr ''partial'' \<and> (jget v ''attached_hook_count'' = num 0 \<or>
         \<not> jgt (jget v ''expected_hook_count'') (jget v ''attached_hook_count'')))
       (p @ ''.attach_state'') ''invalid partial hook count'',
     failIf (jget v ''map_state'' \<noteq> JStr ''not_attempted'' \<and> jget v ''attach_state'' \<noteq> JStr ''ready'')
       (p @ ''.map_state'') ''map state without ready hooks'',
     failIf (enumValue (jget v ''map_state'') [''ready'', ''retained''] \<and> jget v ''last_complete_snapshot_ms'' = JNull)
       (p @ ''.last_complete_snapshot_ms'') ''snapshot time missing'',
     failIf (JBool (jget v ''map_state'' = JStr ''retained'') \<noteq> jget v ''retained_fresh_snapshot'')
       (p @ ''.retained_fresh_snapshot'') ''contradictory retained snapshot'']"

definition validateHealthEvidence :: "jval \<Rightarrow> string \<Rightarrow> issue option" where
  "validateHealthEvidence v p = firstIssue [
     failIf (\<not> plainObject v) p ''invalid evidence'',
     failIf (\<not> hasOwn v ''probe_failures'') (p @ ''.probe_failures'') ''field missing'',
     failIf (\<not> hasOwn v ''bpf'') (p @ ''.bpf'') ''field missing'',
     validateProbeFailures (jget v ''probe_failures'') (p @ ''.probe_failures''),
     validateBpfEvidence (jget v ''bpf'') (p @ ''.bpf'')]"

definition coverageFields :: "string list" where
  "coverageFields = [''quality'', ''samples'', ''window_ms'', ''tx_pct'', ''rx_pct'', ''denom_rx_bytes'',
     ''denom_tx_bytes'', ''numer_rx_bytes'', ''numer_tx_bytes'']"

definition validateCoverage :: "jval \<Rightarrow> string \<Rightarrow> issue option" where
  "validateCoverage v p = firstIssue [
     failIf (\<not> onlyFields v coverageFields) p ''invalid coverage field'',
     requireFields v [''quality'', ''samples''] p,
     failIf (\<not> enumValue (jget v ''quality'') [''warmup'', ''pending'', ''idle'', ''low_traffic'', ''counter_reset'',
           ''counter_skew'', ''ok'', ''unsupported''] \<or>
         \<not> nonNegativeInteger (jget v ''samples'') \<or> \<not> optionalIntegers v (drop 2 coverageFields) [] \<or>
         hasOwn v ''tx_pct'' \<and> jgt (jget v ''tx_pct'') (num 100) \<or>
         hasOwn v ''rx_pct'' \<and> jgt (jget v ''rx_pct'') (num 100)) p ''invalid coverage field'']"

definition validateRateDirectionMeta :: "jval \<Rightarrow> string \<Rightarrow> issue option" where
  "validateRateDirectionMeta v p = firstIssue [
     failIf (\<not> onlyFields v [''source'', ''coverage'', ''byte_domain'', ''sample_ms'', ''window_ms'', ''stale''])
       p ''invalid direction metadata'',
     requireFields v [''source'', ''coverage''] p,
     failIf (\<not> boundedString (jget v ''source'') 1 48 \<or> \<not> isCode (toStr (jget v ''source'')) \<or>
         \<not> enumValue (jget v ''coverage'') [''full'', ''partial'', ''degraded'', ''unavailable''] \<or>
         \<not> whenOwn v ''byte_domain'' (\<lambda>w. enumValue w [''l2_no_fcs'', ''l2_with_fcs'', ''station_data'', ''ecm_data'']) \<or>
         \<not> optionalIntegers v [''sample_ms'', ''window_ms''] [(''window_ms'', 1)] \<or>
         \<not> whenOwn v ''stale'' isBool) p ''invalid direction metadata'']"

definition attachmentIssue :: "jval \<Rightarrow> string \<Rightarrow> issue option" where
  "attachmentIssue a p = firstIssue [
     failIf (\<not> onlyFields a [''kind'', ''ifname'', ''trust'']) p ''invalid attachment'',
     requireFields a [''kind'', ''trust''] p,
     failIf (\<not> enumValue (jget a ''kind'') [''ethernet'', ''wifi'', ''unknown''] \<or>
         \<not> enumValue (jget a ''trust'') [''associated_station'', ''observed_exclusive'', ''shared'', ''unknown''] \<or>
         \<not> whenOwn a ''ifname'' (\<lambda>w. boundedString w 1 48)) p ''invalid attachment'']"

definition classificationStates :: "string list" where
  "classificationStates = [''warmup'', ''aligned'', ''partial'', ''stale'', ''domain_mismatch'',
     ''window_mismatch'', ''counter_skew'', ''map_loss'', ''unavailable'']"

definition classificationIssue :: "jval \<Rightarrow> string \<Rightarrow> issue option" where
  "classificationIssue c p = failIf (\<not> onlyFields c [''state'', ''sample_ms'', ''window_ms'', ''comparison_window_ms'',
         ''tx_coverage_pct'', ''rx_coverage_pct'', ''tx_state'', ''rx_state''] \<or>
       requireFields c [''state''] p \<noteq> None \<or> \<not> enumValue (jget c ''state'') classificationStates \<or>
       \<not> whenOwn c ''tx_state'' (\<lambda>w. enumValue w classificationStates) \<or>
       \<not> whenOwn c ''rx_state'' (\<lambda>w. enumValue w classificationStates) \<or>
       \<not> optionalIntegers c [''sample_ms'', ''window_ms'', ''comparison_window_ms'', ''tx_coverage_pct'', ''rx_coverage_pct''] [] \<or>
       hasOwn c ''tx_coverage_pct'' \<and> jgt (jget c ''tx_coverage_pct'') (num 100) \<or>
       hasOwn c ''rx_coverage_pct'' \<and> jgt (jget c ''rx_coverage_pct'') (num 100)) p ''invalid classification''"

definition validateRateMeta :: "jval \<Rightarrow> string \<Rightarrow> issue option" where
  "validateRateMeta v p = firstIssue [
     failIf (\<not> onlyFields v [''version'', ''scope'', ''tx'', ''rx'', ''attachment'', ''generation'', ''window_ms'',
         ''sample_ms'', ''stale'', ''reason_codes'', ''classification'']) p ''invalid rate metadata'',
     requireFields v [''version'', ''scope'', ''tx'', ''rx'', ''generation'', ''stale'', ''reason_codes''] p,
     failIf (jget v ''version'' \<noteq> num 1 \<or>
         \<not> enumValue (jget v ''scope'') [''all_frames'', ''unicast'', ''routed_observed'', ''lower_bound'', ''none''] \<or>
         \<not> nonNegativeInteger (jget v ''generation'') \<or> \<not> isBool (jget v ''stale'') \<or>
         \<not> optionalIntegers v [''window_ms'', ''sample_ms''] [] \<or>
         \<not> isArr (jget v ''reason_codes'') \<or> length (asArray (jget v ''reason_codes'')) > 16 \<or>
         \<not> list_all (\<lambda>r. boundedString r 1 48 \<and> isCode (toStr r)) (asArray (jget v ''reason_codes'')))
       p ''invalid rate metadata'',
     validateRateDirectionMeta (jget v ''tx'') (p @ ''.tx''),
     validateRateDirectionMeta (jget v ''rx'') (p @ ''.rx''),
     if hasOwn v ''attachment'' then attachmentIssue (jget v ''attachment'') (p @ ''.attachment'') else None,
     if hasOwn v ''classification'' then classificationIssue (jget v ''classification'') (p @ ''.classification'') else None]"

definition validateStatusResponse :: "jval \<Rightarrow> issue option" where
  "validateStatusResponse v = firstIssue [
     failIf (\<not> onlyFields v [''mode'', ''confidence'', ''warnings'', ''evidence'', ''refresh_interval_ms'',
         ''active_client_window_ms'', ''active_client_min_bps'', ''overview_window_samples'', ''collector_mode'',
         ''rate_collector_mode'', ''internet_view_mode'', ''access_edge_mode'', ''conn_collector_mode'', ''version'',
         ''capabilities'', ''coverage'']) ''status'' ''undefined field'',
     requireFields v [''mode'', ''confidence'', ''warnings'', ''evidence'', ''refresh_interval_ms'',
         ''rate_collector_mode'', ''conn_collector_mode'', ''version'', ''capabilities''] ''status'',
     failIf (\<not> enumValue (jget v ''mode'') RUNTIME_MODES \<or> \<not> enumValue (jget v ''confidence'') CONFIDENCES \<or>
         \<not> isArr (jget v ''warnings'') \<or> \<not> list_all (\<lambda>w. boundedString w 1 160) (asArray (jget v ''warnings'')) \<or>
         \<not> safeInteger (jget v ''refresh_interval_ms'') (Some 500) None \<or>
         \<not> enumValue (jget v ''rate_collector_mode'') [''auto'', ''bpf'', ''nss_ecm_node'', ''nss_ecm_bpf''] \<or>
         \<not> enumValue (jget v ''conn_collector_mode'') [''auto'', ''conntrack_netlink'', ''conntrack_procfs''] \<or>
         \<not> boundedString (jget v ''version'') 1 64) ''status'' ''invalid field'',
     failIf (\<not> whenOwn v ''access_edge_mode'' (\<lambda>w. enumValue w [''off'', ''shadow'', ''active'']))
       ''status.access_edge_mode'' ''invalid field'',
     failIf (\<not> whenOwn v ''internet_view_mode'' (\<lambda>w. enumValue w [''off'', ''routed'']))
       ''status.internet_view_mode'' ''invalid field'',
     failIf (\<not> whenOwn v ''collector_mode'' (\<lambda>w. enumValue w [''auto'', ''bpf'', ''nss_ecm_node'', ''nss_ecm_bpf'',
         ''conntrack_netlink'', ''conntrack_procfs'', ''unsupported''])) ''status.collector_mode'' ''invalid field'',
     failIf (\<not> optionalIntegers v [''active_client_window_ms'', ''active_client_min_bps'', ''overview_window_samples'']
         [(''active_client_window_ms'', 1000), (''active_client_min_bps'', 1), (''overview_window_samples'', 2)])
       ''status'' ''invalid window field'',
     validateCapabilities (jget v ''capabilities'') ''status.capabilities'',
     validateHealthEvidence (jget v ''evidence'') ''status.evidence'',
     if hasOwn v ''coverage'' then validateCoverage (jget v ''coverage'') ''status.coverage'' else None]"

definition healthFields :: "string list" where
  "healthFields = [''mode'', ''confidence'', ''capabilities'', ''conflicts'', ''warnings'', ''evidence'']"

definition conflictOk :: "jval \<Rightarrow> bool" where
  "conflictOk item \<longleftrightarrow> plainObject item \<and> boundedString (jget item ''id'') 1 160 \<and>
     enumValue (jget item ''severity'') [''info'', ''warning'', ''critical''] \<and>
     boundedString (jget item ''message'') 1 480"

definition validateHealthResponse :: "jval \<Rightarrow> issue option" where
  "validateHealthResponse v = firstIssue [
     failIf (\<not> onlyFields v healthFields) ''health'' ''undefined field'',
     requireFields v healthFields ''health'',
     failIf (\<not> enumValue (jget v ''mode'') RUNTIME_MODES \<or> \<not> enumValue (jget v ''confidence'') CONFIDENCES \<or>
         \<not> isArr (jget v ''warnings'') \<or> \<not> list_all (\<lambda>w. boundedString w 1 160) (asArray (jget v ''warnings'')) \<or>
         \<not> isArr (jget v ''conflicts'') \<or> \<not> list_all conflictOk (asArray (jget v ''conflicts'')))
       ''health'' ''invalid field'',
     validateCapabilities (jget v ''capabilities'') ''health.capabilities'',
     validateHealthEvidence (jget v ''evidence'') ''health.evidence'']"

definition controlFields :: "string list" where
  "controlFields = [''configured'', ''upload_bps'', ''download_bps'', ''internet_disabled'', ''shaping_supported'',
     ''blocking_supported'', ''max_rate_bps'', ''state'', ''reason'', ''queue_overflow'']"

definition controlValid :: "jval \<Rightarrow> bool" where
  "controlValid c \<longleftrightarrow> onlyFields c controlFields \<and>
     requireFields c [''configured'', ''upload_bps'', ''download_bps'', ''internet_disabled'', ''shaping_supported'',
       ''blocking_supported'', ''max_rate_bps'', ''state'', ''queue_overflow''] ''control'' = None \<and>
     isBool (jget c ''configured'') \<and> isBool (jget c ''internet_disabled'') \<and> isBool (jget c ''shaping_supported'') \<and>
     isBool (jget c ''blocking_supported'') \<and> isBool (jget c ''queue_overflow'') \<and>
     nonNegativeInteger (jget c ''upload_bps'') \<and> nonNegativeInteger (jget c ''download_bps'') \<and>
     nonNegativeInteger (jget c ''max_rate_bps'') \<and>
     enumValue (jget c ''state'') [''inactive'', ''applied'', ''pending_new_connections'', ''verified'', ''error'', ''unsupported''] \<and>
     whenOwn c ''reason'' (\<lambda>w. boundedString w 1 160)"

text \<open>\<open>/^([0-9A-Fa-f]{2}:){5}[0-9A-Fa-f]{2}$/\<close>\<close>

definition isMacText :: "string \<Rightarrow> bool" where
  "isMacText s \<longleftrightarrow> (let gs = splitChar (CHR '':'') s in
     length gs = 6 \<and> list_all (\<lambda>g. length g = 2 \<and> list_all isHexAny g) gs)"

definition clientOk :: "nat \<Rightarrow> jval \<Rightarrow> bool" where
  "clientOk index item \<longleftrightarrow>
     (hasOwn item ''rate_meta'' \<longrightarrow>
        validateRateMeta (jget item ''rate_meta'') (''clients.clients['' @ showNat index @ ''].rate_meta'') = None) \<and>
     whenOwn item ''control'' controlValid \<and>
     onlyFields item [''mac'', ''ips'', ''identity_key'', ''zone'', ''interface'', ''hostname'', ''rx_bps'', ''tx_bps'',
       ''last_seen'', ''sample_ms'', ''rx_bytes'', ''tx_bytes'', ''collector_mode'', ''confidence'', ''warnings'',
       ''tcp_conns'', ''udp_conns'', ''udp_dns_conns'', ''udp_other_conns'', ''rate_meta'', ''control''] \<and>
     requireFields item [''mac'', ''identity_key'', ''zone'', ''interface'', ''ips'', ''hostname'', ''rx_bps'', ''tx_bps'',
       ''last_seen'', ''collector_mode'', ''confidence'', ''warnings''] ''client'' = None \<and>
     isMacText (toStr (jor (jget item ''mac'') (JStr []))) \<and>
     boundedString (jget item ''identity_key'') 1 160 \<and> boundedString (jget item ''zone'') 1 64 \<and>
     boundedString (jget item ''interface'') 1 160 \<and> isArr (jget item ''ips'') \<and>
     list_all (\<lambda>ip. boundedString ip 1 160) (asArray (jget item ''ips'')) \<and>
     nullOr (\<lambda>h. boundedString h 0 253) (jget item ''hostname'') \<and>
     nonNegativeInteger (jget item ''rx_bps'') \<and> nonNegativeInteger (jget item ''tx_bps'') \<and>
     nonNegativeInteger (jget item ''last_seen'') \<and> boundedString (jget item ''collector_mode'') 1 64 \<and>
     enumValue (jget item ''confidence'') CONFIDENCES \<and> isArr (jget item ''warnings'') \<and>
     list_all (\<lambda>w. boundedString w 1 160) (asArray (jget item ''warnings'')) \<and>
     optionalIntegers item [''sample_ms'', ''rx_bytes'', ''tx_bytes'', ''tcp_conns'', ''udp_conns'',
       ''udp_dns_conns'', ''udp_other_conns''] []"

text \<open>
  The callback of \<open>every\<close> begins with \<open>hasOwn(item, ...)\<close>, which throws on null: the walk over
  the list stops at the first client that fails or throws.
\<close>

datatype walk = AllOk | SomeBad | Throws

fun clientsWalk :: "nat \<Rightarrow> jval list \<Rightarrow> walk" where
  "clientsWalk n [] = AllOk"
| "clientsWalk n (c # cs) = (if nullish c then Throws else if clientOk n c then clientsWalk (Suc n) cs else SomeBad)"

definition controlCounters :: "string list" where
  "controlCounters = [''configured_clients'', ''active_clients'', ''effective_clients'', ''pending_clients'',
     ''error_clients'', ''queue_overflow_clients'', ''rate_limited_clients'', ''internet_disabled_clients'',
     ''block_active_clients'', ''required_directions'', ''verified_directions'', ''nss_verified_directions'',
     ''cpu_verified_directions'']"

definition controlEvidenceFields :: "string list" where
  "controlEvidenceFields = [''state'', ''reason_code'', ''detail_code'', ''shaping_supported'',
     ''blocking_supported''] @ controlCounters @ [''hardware_telemetry'']"

definition controlEvidenceOk :: "jval \<Rightarrow> bool" where
  "controlEvidenceOk e \<longleftrightarrow> (let n = (\<lambda>k. toNum (jget e k)); over = (\<lambda>a b. nlt (n b) (n a)) in
     onlyFields e controlEvidenceFields \<and>
     requireFields e (filter (\<lambda>f. f \<noteq> ''hardware_telemetry'') controlEvidenceFields) ''clients.evidence.nss_control'' = None \<and>
     enumValue (jget e ''state'') [''inactive'', ''pending'', ''verified'', ''error'', ''unavailable''] \<and>
     nullOr (\<lambda>c. codeString c False) (jget e ''reason_code'') \<and>
     nullOr (\<lambda>c. codeString c False) (jget e ''detail_code'') \<and>
     isBool (jget e ''shaping_supported'') \<and> isBool (jget e ''blocking_supported'') \<and>
     list_all (\<lambda>f. nonNegativeInteger (jget e f)) controlCounters \<and>
     whenOwn e ''hardware_telemetry'' validNssHardwareTelemetry \<and>
     \<not> over ''active_clients'' ''configured_clients'' \<and>
     nadd (nadd (n ''effective_clients'') (n ''pending_clients'')) (n ''error_clients'') = n ''active_clients'' \<and>
     \<not> over ''queue_overflow_clients'' ''error_clients'' \<and>
     \<not> over ''rate_limited_clients'' ''configured_clients'' \<and>
     \<not> over ''internet_disabled_clients'' ''configured_clients'' \<and>
     \<not> over ''block_active_clients'' ''internet_disabled_clients'' \<and>
     \<not> over ''verified_directions'' ''required_directions'' \<and>
     \<not> over ''nss_verified_directions'' ''required_directions'' \<and>
     \<not> over ''cpu_verified_directions'' ''required_directions'' \<and>
     (jget e ''state'' = JStr ''verified'' \<longrightarrow> n ''error_clients'' = Fin 0 \<and> n ''pending_clients'' = Fin 0 \<and>
        n ''verified_directions'' = n ''required_directions''))"

definition clientsBefore :: "jval \<Rightarrow> issue option" where
  "clientsBefore v = firstIssue [
     failIf (\<not> onlyFields v [''clients'', ''evidence'', ''tcp_conns_total'', ''udp_conns_total'', ''udp_dns_conns_total'',
         ''udp_other_conns_total'', ''conntrack_entries_seen'', ''conntrack_entries_matched'', ''conntrack_parse_errors'',
         ''conn_source'', ''nss_ecm_nodes_seen'', ''nss_ecm_nodes_matched'', ''nss_ecm_node_parse_errors'',
         ''conn_collector_mode'', ''conn_semantics'']) ''clients'' ''undefined field'',
     failIf (\<not> hasOwn v ''clients'') ''clients.clients'' ''field missing'',
     failIf (\<not> isArr (jget v ''clients'')) ''clients.clients'' ''invalid field'']"

definition clientsAfter :: "jval \<Rightarrow> issue option" where
  "clientsAfter v = firstIssue [
     failIf (\<not> optionalIntegers v [''tcp_conns_total'', ''udp_conns_total'', ''udp_dns_conns_total'',
         ''udp_other_conns_total'', ''conntrack_entries_seen'', ''conntrack_entries_matched'', ''conntrack_parse_errors'',
         ''nss_ecm_nodes_seen'', ''nss_ecm_nodes_matched'', ''nss_ecm_node_parse_errors''] [])
       ''clients'' ''invalid connection counter'',
     failIf (\<not> whenOwn v ''evidence'' plainObject) ''clients.evidence'' ''invalid field'',
     failIf (plainObject (jget v ''evidence'') \<and> hasOwn (jget v ''evidence'') ''nss_control'' \<and>
         \<not> controlEvidenceOk (jget (jget v ''evidence'') ''nss_control''))
       ''clients.evidence.nss_control'' ''invalid field or counts'',
     failIf (\<not> whenOwn v ''conn_source'' (\<lambda>w. enumValue w [''conntrack'', ''conntrack_netlink'', ''conntrack_procfs'']))
       ''clients.conn_source'' ''invalid connection source'',
     failIf (\<not> whenOwn v ''conn_collector_mode'' (\<lambda>w. enumValue w [''auto'', ''conntrack_netlink'', ''conntrack_procfs'']))
       ''clients.conn_collector_mode'' ''invalid field'',
     failIf (\<not> whenOwn v ''conn_semantics'' (\<lambda>w. boundedString w 1 160)) ''clients.conn_semantics'' ''invalid field'',
     failIf (jget v ''conntrack_entries_seen'' \<noteq> JUndef \<and> jget v ''conntrack_entries_matched'' \<noteq> JUndef \<and>
         jgt (jget v ''conntrack_entries_matched'') (jget v ''conntrack_entries_seen'')) ''clients'' ''invalid counts'']"

definition validateClientsResponse :: "jval \<Rightarrow> verdict" where
  "validateClientsResponse v = (case clientsBefore v of Some e \<Rightarrow> Refused e
     | None \<Rightarrow> (case clientsWalk 0 (asArray (jget v ''clients'')) of
         Throws \<Rightarrow> Raised
       | SomeBad \<Rightarrow> Refused (failure ''clients.clients'' ''invalid field'')
       | AllOk \<Rightarrow> verdictOf v (clientsAfter v)))"

definition interfaceItemOk :: "jval \<Rightarrow> bool" where
  "interfaceItemOk item \<longleftrightarrow> onlyFields item [''name'', ''role'', ''status'', ''rx_bytes'', ''tx_bytes'', ''rx_bps'',
       ''tx_bps'', ''delta_ms'', ''sample_ms'', ''source'', ''coverage'', ''evidence''] \<and>
     boundedString (jget item ''name'') 1 160 \<and>
     enumValue (jget item ''role'') [''lan'', ''observe'', ''wan'', ''excluded'', ''unknown''] \<and>
     enumValue (jget item ''status'') [''pending'', ''active'', ''available'', ''missing'', ''excluded'', ''unsupported''] \<and>
     optionalIntegers item [''rx_bytes'', ''tx_bytes'', ''rx_bps'', ''tx_bps'', ''delta_ms'', ''sample_ms''] [] \<and>
     whenOwn item ''source'' (\<lambda>w. boundedString w 0 160) \<and> whenOwn item ''coverage'' (\<lambda>w. boundedString w 0 160) \<and>
     whenOwn item ''evidence'' plainObject"

definition validateInterfacesResponse :: "jval \<Rightarrow> issue option" where
  "validateInterfacesResponse v = firstIssue [
     failIf (\<not> onlyFields v [''interfaces'', ''monotonic_ms'', ''note'', ''evidence'']) ''interfaces'' ''undefined field'',
     failIf (\<not> hasOwn v ''interfaces'') ''interfaces.interfaces'' ''field missing'',
     failIf (\<not> isArr (jget v ''interfaces'') \<or> \<not> list_all interfaceItemOk (asArray (jget v ''interfaces'')))
       ''interfaces.interfaces'' ''invalid field'',
     failIf (\<not> whenOwn v ''monotonic_ms'' nonNegativeInteger) ''interfaces.monotonic_ms'' ''invalid field'',
     failIf (\<not> whenOwn v ''note'' (\<lambda>w. boundedString w 0 480)) ''interfaces.note'' ''invalid field'',
     failIf (\<not> whenOwn v ''evidence'' plainObject) ''interfaces.evidence'' ''invalid field'']"

definition sampleFields :: "string list" where
  "sampleFields = [''sample_ms'', ''tx_bps'', ''rx_bps'', ''client_count'', ''active_clients'', ''tcp_conns'',
     ''udp_conns'', ''udp_dns_conns'', ''udp_other_conns'']"

definition sampleOk :: "jval \<Rightarrow> bool" where
  "sampleOk item \<longleftrightarrow> onlyFields item sampleFields \<and>
     requireFields item [''sample_ms'', ''tx_bps'', ''rx_bps'', ''client_count'', ''active_clients''] ''overview.sample'' = None \<and>
     optionalIntegers item sampleFields [] \<and> \<not> jgt (jget item ''active_clients'') (jget item ''client_count'')"

definition validateOverviewResponse :: "jval \<Rightarrow> issue option" where
  "validateOverviewResponse v = firstIssue [
     failIf (\<not> onlyFields v [''samples'', ''max_samples'', ''overview_window_samples'', ''active_client_window_ms'',
         ''active_client_min_bps'', ''sample_source'', ''conn_semantics'']) ''overview'' ''undefined field'',
     failIf (\<not> hasOwn v ''samples'') ''overview.samples'' ''field missing'',
     failIf (\<not> isArr (jget v ''samples'') \<or> \<not> list_all sampleOk (asArray (jget v ''samples'')))
       ''overview.samples'' ''invalid field'',
     failIf (\<not> optionalIntegers v [''max_samples'', ''overview_window_samples'', ''active_client_window_ms'',
         ''active_client_min_bps''] [(''overview_window_samples'', 2), (''active_client_window_ms'', 1000),
         (''active_client_min_bps'', 1)]) ''overview'' ''invalid window field'',
     failIf (\<not> whenOwn v ''sample_source'' (\<lambda>w. boundedString w 1 160)) ''overview.sample_source'' ''invalid field'',
     failIf (\<not> whenOwn v ''conn_semantics'' (\<lambda>w. boundedString w 1 160)) ''overview.conn_semantics'' ''invalid field'']"

definition validateRuntimeResponse :: "jval \<Rightarrow> string \<Rightarrow> verdict" where
  "validateRuntimeResponse v key = (if \<not> plainObject v then Refused (failure key ''not an object'')
     else if key = ''status'' then verdictOf v (validateStatusResponse v)
     else if key = ''health'' then verdictOf v (validateHealthResponse v)
     else if key = ''clients'' then validateClientsResponse v
     else if key = ''interfaces'' then verdictOf v (validateInterfacesResponse v)
     else if key = ''overview'' then verdictOf v (validateOverviewResponse v)
     else Refused (failure key ''unknown RPC contract''))"

section \<open>Rules\<close>

lemma firstIssue_None [simp]: "firstIssue is = None \<longleftrightarrow> list_all (\<lambda>i. i = None) is"
  by (induction "is" rule: firstIssue.induct) auto

lemma failIf_None [simp]: "failIf c p m = None \<longleftrightarrow> \<not> c"
  by (simp add: failIf_def)

lemma requireFields_None [simp]: "requireFields v ks p = None \<longleftrightarrow> list_all (hasOwn v) ks"
  by (induction ks) auto

lemma verdictOf_Accepted [simp]: "verdictOf v i = Accepted w \<longleftrightarrow> i = None \<and> w = v"
  by (auto simp: verdictOf_def split: option.splits)

lemma plainObject_iff: "plainObject v \<longleftrightarrow> (\<exists>ps. v = JObj ps)"
  by (cases v) auto

lemma hasOwn_keys: "hasOwn v k \<longleftrightarrow> k \<in> set (objectKeys v)"
  by (cases v) (auto simp: map_of_eq_None_iff)

lemma jget_missing: "plainObject v \<Longrightarrow> k \<notin> set (objectKeys v) \<Longrightarrow> k \<notin> set protoKeys \<Longrightarrow> jget v k = JUndef"
  by (cases v) (simp_all add: jget_absent)

lemma not_JUndef [simp]: "\<not> safeInteger JUndef a b" "\<not> nonNegativeInteger JUndef" "\<not> boundedString JUndef m n"
  "\<not> codeString JUndef nullable" "\<not> enumValue JUndef vs" "\<not> isBool JUndef" "nullOr P JUndef = P JUndef"
  by (simp_all add: safeInteger_def nonNegativeInteger_def boundedString_def codeString_def enumValue_def nullOr_def)

lemma safeInteger_iff:
  "safeInteger v (Some m) None \<longleftrightarrow> (\<exists>i::int. v = num (of_int i) \<and> m \<le> of_int i \<and> \<bar>i\<bar> \<le> 9007199254740991)"
proof -
  have abs: "\<bar>of_int i :: rat\<bar> \<le> MAX_SAFE_INTEGER \<longleftrightarrow> \<bar>i\<bar> \<le> 9007199254740991" for i
    by (simp add: MAX_SAFE_INTEGER_def flip: of_int_abs)
  have "of_int \<lfloor>q\<rfloor> = q \<longleftrightarrow> (\<exists>i::int. q = of_int i)" for q :: rat
    by (metis floor_of_int)
  then show ?thesis
    by (auto simp: safeInteger_def abs not_less split: jval.splits jnum.splits)
qed

lemma jgt_num [simp]: "jgt (num a) (num b) \<longleftrightarrow> b < a"
  by (simp add: jgt_def)

lemma uniqueFrom_iff:
  "uniqueFrom seen xs \<longleftrightarrow> list_all (\<lambda>x. itemId x \<noteq> [] \<and> itemId x \<notin> set seen) xs \<and> distinct (map itemId xs)"
proof (induction xs arbitrary: seen)
  case (Cons x xs)
  have "uniqueFrom seen (x # xs) \<longleftrightarrow> itemId x \<noteq> [] \<and> itemId x \<notin> set seen \<and>
      list_all (\<lambda>y. itemId y \<noteq> [] \<and> itemId y \<notin> set (itemId x # seen)) xs \<and> distinct (map itemId xs)"
    by (simp add: Cons)
  also have "\<dots> \<longleftrightarrow> list_all (\<lambda>x. itemId x \<noteq> [] \<and> itemId x \<notin> set seen) (x # xs) \<and> distinct (map itemId (x # xs))"
    by (simp add: list_all_iff image_iff) metis
  finally show ?case .
qed simp

lemma uniqueIds_iff: "uniqueIds v \<longleftrightarrow> list_all (\<lambda>x. itemId x \<noteq> []) (asArray v) \<and> distinct (map itemId (asArray v))"
  by (simp add: uniqueIds_def uniqueFrom_iff)

section \<open>The contract, declaratively\<close>

text \<open>
  An object with exactly the named fields, each of its type.
\<close>

definition recordOf :: "(string \<times> (jval \<Rightarrow> bool)) list \<Rightarrow> jval \<Rightarrow> bool" where
  "recordOf fs v \<longleftrightarrow> plainObject v \<and> set (objectKeys v) = fst ` set fs \<and> list_all (\<lambda>(k, P). P (jget v k)) fs"

definition listOf :: "nat \<Rightarrow> (jval \<Rightarrow> bool) \<Rightarrow> jval \<Rightarrow> bool" where
  "listOf maximum P v \<longleftrightarrow> (\<exists>xs. v = JArr xs \<and> length xs \<le> maximum \<and> list_all P xs \<and> distinct (map (\<lambda>x. jget x ''id'') xs))"

definition integerFrom :: "int \<Rightarrow> jval \<Rightarrow> bool" where
  "integerFrom m v \<longleftrightarrow> (\<exists>i. v = num (of_int i) \<and> m \<le> i \<and> \<bar>i\<bar> \<le> 2 ^ 53 - 1)"

definition textOf :: "nat \<Rightarrow> jval \<Rightarrow> bool" where
  "textOf n v \<longleftrightarrow> (\<exists>s. v = JStr s \<and> s \<noteq> [] \<and> length s \<le> n)"

definition codeText :: "jval \<Rightarrow> bool" where
  "codeText v \<longleftrightarrow> (\<exists>s. v = JStr s \<and> isCode s \<and> length s \<le> 64)"

definition oneOf :: "string list \<Rightarrow> jval \<Rightarrow> bool" where
  "oneOf vs v \<longleftrightarrow> v \<in> JStr ` set vs"

text \<open>No two numbers among the fields \<open>k\<close> and \<open>l\<close> are in the wrong order.\<close>

definition atMost :: "jval \<Rightarrow> string \<Rightarrow> string \<Rightarrow> bool" where
  "atMost v k l \<longleftrightarrow> (\<forall>a b. jget v k = num a \<and> jget v l = num b \<longrightarrow> a \<le> b)"

definition publicErrorSpec :: "jval \<Rightarrow> bool" where
  "publicErrorSpec v \<longleftrightarrow> recordOf [(''code'', codeText),
     (''category'', oneOf [''transport'', ''collection'', ''reload'', ''serialization'', ''platform'']),
     (''stage'', codeText), (''retriable'', isBool), (''message_public'', textOf 160)] v"

definition collectionSpec :: "jval \<Rightarrow> bool" where
  "collectionSpec v \<longleftrightarrow> recordOf [(''state'', oneOf [''fresh'', ''stale'', ''degraded'', ''unavailable'']),
       (''generation'', integerFrom 0), (''last_attempt_ms'', nullOr (integerFrom 0)),
       (''last_success_ms'', nullOr (integerFrom 0)), (''age_ms'', nullOr (integerFrom 0)),
       (''refresh_interval_ms'', integerFrom 500), (''consecutive_failures'', integerFrom 0),
       (''retained'', isBool), (''last_error'', nullOr publicErrorSpec)] v \<and>
     atMost v ''last_success_ms'' ''last_attempt_ms'' \<and>
     (oneOf [''fresh'', ''stale''] (jget v ''state'') \<longrightarrow>
        integerFrom 1 (jget v ''generation'') \<and> jget v ''last_success_ms'' \<noteq> JNull \<and> jget v ''age_ms'' \<noteq> JNull) \<and>
     (jget v ''retained'' = JBool True \<longrightarrow> jget v ''last_success_ms'' \<noteq> JNull) \<and>
     (jget v ''last_error'' = JNull \<longrightarrow> jget v ''consecutive_failures'' = num 0)"

definition dataPathSpec :: "jval \<Rightarrow> bool" where
  "dataPathSpec v \<longleftrightarrow> recordOf [(''configured_rate'', textOf 64), (''effective_rate'', codeText),
       (''configured_connection'', textOf 64), (''effective_connection'', codeText),
       (''fallback_active'', isBool), (''reason_code'', nullOr codeText)] v \<and>
     (JStr ''unsupported'' \<in> {jget v ''effective_rate'', jget v ''effective_connection''} \<longrightarrow> jget v ''reason_code'' \<noteq> JNull)"

definition interfacesSpec :: "jval \<Rightarrow> bool" where
  "interfacesSpec v \<longleftrightarrow> recordOf [(''state'', oneOf HEALTH_STATES), (''total'', integerFrom 0), (''available'', integerFrom 0),
       (''missing'', integerFrom 0), (''sample_ms'', nullOr (integerFrom 0))] v \<and>
     (\<forall>t a m. jget v ''total'' = num t \<and> jget v ''available'' = num a \<and> jget v ''missing'' = num m \<longrightarrow> a + m \<le> t)"

definition connectionSpec :: "jval \<Rightarrow> bool" where
  "connectionSpec v \<longleftrightarrow> recordOf [(''state'', oneOf HEALTH_STATES), (''source'', nullOr codeText),
       (''entries_seen'', nullOr (integerFrom 0)), (''entries_matched'', nullOr (integerFrom 0)),
       (''parse_errors'', nullOr (integerFrom 0))] v \<and>
     atMost v ''entries_matched'' ''entries_seen'' \<and>
     (jget v ''state'' = JStr ''healthy'' \<longrightarrow> jget v ''source'' \<noteq> JNull)"

definition subsystemSpec :: "jval \<Rightarrow> bool" where
  "subsystemSpec v \<longleftrightarrow> recordOf [(''id'', codeText), (''state'', oneOf HEALTH_STATES), (''code'', nullOr codeText)] v"

definition alertSpec :: "jval \<Rightarrow> bool" where
  "alertSpec v \<longleftrightarrow> recordOf [(''id'', codeText), (''severity'', oneOf [''info'', ''warning'', ''critical'']),
     (''component'', codeText), (''state'', oneOf [''active'']), (''message_public'', textOf 160)] v"

definition configIssueSpec :: "jval \<Rightarrow> bool" where
  "configIssueSpec v \<longleftrightarrow> recordOf [(''id'', codeText), (''severity'', oneOf [''info'', ''warning'', ''critical'']),
     (''option'', codeText), (''state'', oneOf [''adjusted'', ''compatibility_only'', ''required'', ''ineffective'']),
     (''message_public'', textOf 160)] v"

definition serviceSpec :: "jval \<Rightarrow> bool" where
  "serviceSpec v \<longleftrightarrow> recordOf [(''state'', oneOf [''starting'', ''running'', ''degraded'']), (''ubus_connected'', isBool)] v"

definition versionOne :: "jval \<Rightarrow> bool" where
  "versionOne v \<longleftrightarrow> v = num 1"

definition versionsSpec :: "jval \<Rightarrow> bool" where
  "versionsSpec v \<longleftrightarrow> recordOf [(''daemon'', textOf 64), (''package'', textOf 64),
     (''contract_version'', versionOne), (''schema_version'', versionOne)] v"

definition diagnosticsSpec :: "jval \<Rightarrow> bool" where
  "diagnosticsSpec v \<longleftrightarrow> recordOf [(''contract_version'', versionOne),
     (''service'', serviceSpec),
     (''collection'', collectionSpec), (''data_path'', dataPathSpec), (''interfaces'', interfacesSpec),
     (''connection'', connectionSpec), (''subsystems'', listOf 16 subsystemSpec),
     (''versions'', versionsSpec),
     (''alerts'', listOf 64 alertSpec), (''config_issues'', listOf 16 configIssueSpec)] v"

text \<open>The tests of the code are the types of the contract.\<close>

lemma typed_fields:
  "nonNegativeInteger = integerFrom 0" "safeInteger v (Some 500) None = integerFrom 500 v"
  "safeInteger v (Some 0) None = integerFrom 0 v"
  "boundedString v (Suc 0) n = textOf n v" "codeString v False = codeText v" "codeString v True = nullOr codeText v"
  "enumValue v vs = oneOf vs v"
proof -
  have int: "safeInteger v (Some (of_int m)) None = integerFrom m v" for v m
    by (auto simp: safeInteger_iff integerFrom_def)
  show "nonNegativeInteger = integerFrom 0" using int [of _ 0] by (auto simp: nonNegativeInteger_def)
  show "safeInteger v (Some 500) None = integerFrom 500 v" "safeInteger v (Some 0) None = integerFrom 0 v"
    using int [of v 500] int [of v 0] by simp_all
  show "boundedString v (Suc 0) n = textOf n v"
    by (auto simp: boundedString_def textOf_def Suc_le_eq split: jval.splits)
  show "codeString v False = codeText v" "codeString v True = nullOr codeText v"
    by (auto simp: codeString_def boundedString_def codeText_def nullOr_def isCode_def Suc_le_eq split: jval.splits)
  show "enumValue v vs = oneOf vs v" by (auto simp: enumValue_def oneOf_def split: jval.splits)
qed

lemma typed_JUndef [simp]: "\<not> integerFrom m JUndef" "\<not> textOf n JUndef" "\<not> codeText JUndef" "\<not> oneOf vs JUndef"
  "\<not> recordOf fs JUndef" "\<not> listOf n P JUndef"
  by (auto simp: integerFrom_def textOf_def codeText_def oneOf_def recordOf_def listOf_def)

text \<open>
  The code tests only for undefined fields: a missing one is read as undefined, which no type
  has.
\<close>

lemma recordOf_only:
  assumes "list_all (\<lambda>(k, P). \<not> P JUndef \<and> k \<notin> set protoKeys) fs"
  shows "recordOf fs v \<longleftrightarrow> onlyFields v (map fst fs) \<and> list_all (\<lambda>(k, P). P (jget v k)) fs"
proof -
  have "k \<in> set (objectKeys v)" if "plainObject v" "(k, P) \<in> set fs" "P (jget v k)" for k P
    using assms that jget_missing [of v k] unfolding list_all_iff by (metis (no_types, lifting) case_prodD)
  then show ?thesis by (force simp: recordOf_def onlyFields_def list_all_iff)
qed

lemma recordOf_keys: "recordOf fs v \<Longrightarrow> plainObject v \<and> list_all (hasOwn v) (map fst fs) \<and> onlyFields v (map fst fs)"
  by (auto simp: recordOf_def onlyFields_def hasOwn_keys list_all_iff)

lemma recordOf_field: "recordOf fs v \<Longrightarrow> list_all (\<lambda>(k, P). P (jget v k)) fs"
  by (simp add: recordOf_def)

lemmas record_rules = recordOf_only protoKeys_def typed_fields

lemma codeText_truthy: "codeText v \<Longrightarrow> truthy v"
  by (auto simp: codeText_def isCode_def)

lemma nullOr_code_truthy: "nullOr codeText v \<Longrightarrow> \<not> truthy v \<longleftrightarrow> v = JNull"
  by (auto simp: nullOr_def codeText_truthy)

lemma publicError_refines: "validatePublicError v p = None \<longleftrightarrow> publicErrorSpec v"
proof -
  have "list_all (hasOwn v) [''code'', ''category'', ''stage'', ''retriable'', ''message_public'']" if "publicErrorSpec v"
    using that by (simp add: publicErrorSpec_def recordOf_def hasOwn_keys)
  moreover have "plainObject v" if "publicErrorSpec v" using that by (simp add: publicErrorSpec_def recordOf_def)
  ultimately show ?thesis
    by (auto simp: validatePublicError_def publicErrorSpec_def record_rules Let_def)
qed

lemma collection_refines: "collectionIssue v = None \<longleftrightarrow> collectionSpec v"
proof -
  let ?typed = "recordOf [(''state'', oneOf [''fresh'', ''stale'', ''degraded'', ''unavailable'']),
       (''generation'', integerFrom 0), (''last_attempt_ms'', nullOr (integerFrom 0)),
       (''last_success_ms'', nullOr (integerFrom 0)), (''age_ms'', nullOr (integerFrom 0)),
       (''refresh_interval_ms'', integerFrom 500), (''consecutive_failures'', integerFrom 0),
       (''retained'', isBool), (''last_error'', nullOr publicErrorSpec)] v"
  have typed: "collectionTyped v \<and> nullOr publicErrorSpec (jget v ''last_error'') \<longleftrightarrow> ?typed"
    by (auto simp: collectionTyped_def collectionKeys_def record_rules publicErrorSpec_def)
  show ?thesis
  proof (cases ?typed)
    case True
    then have ty: "integerFrom 0 (jget v ''generation'')" "nullOr (integerFrom 0) (jget v ''last_attempt_ms'')"
      "nullOr (integerFrom 0) (jget v ''last_success_ms'')" "integerFrom 0 (jget v ''consecutive_failures'')"
      "isBool (jget v ''retained'')" by (simp_all add: recordOf_def)
    have order: "(jget v ''last_attempt_ms'' \<noteq> JNull \<and> jget v ''last_success_ms'' \<noteq> JNull \<and>
        jgt (jget v ''last_success_ms'') (jget v ''last_attempt_ms'')) \<longleftrightarrow> \<not> atMost v ''last_success_ms'' ''last_attempt_ms''"
      using ty(2,3) by (auto simp: nullOr_def integerFrom_def atMost_def)
    have gen: "\<not> jgt (num 1) (jget v ''generation'') \<longleftrightarrow> integerFrom 1 (jget v ''generation'')"
      using ty(1) by (auto simp: integerFrom_def)
    have fail: "jgt (jget v ''consecutive_failures'') (num 0) \<longleftrightarrow> jget v ''consecutive_failures'' \<noteq> num 0"
      using ty(4) by (auto simp: integerFrom_def)
    have kept: "truthy (jget v ''retained'') \<longleftrightarrow> jget v ''retained'' = JBool True"
      using ty(5) by (auto simp: isBool_iff)
    have "collectionTyped v" using True typed by blast
    moreover have "jget v ''last_error'' \<noteq> JNull \<longrightarrow> validatePublicError (jget v ''last_error'') p = None" for p
      using True typed by (auto simp: nullOr_def publicError_refines)
    ultimately show ?thesis
      unfolding collectionIssue_def collectionSpec_def using True order gen fail kept typed_fields(7) by auto
  next
    case False
    then show ?thesis using typed
      by (auto simp: collectionIssue_def collectionSpec_def nullOr_def publicError_refines split: if_splits)
  qed
qed

lemma dataPath_refines: "dataPathIssue v = None \<longleftrightarrow> dataPathSpec v"
proof -
  have "dataPathTyped v \<longleftrightarrow> recordOf [(''configured_rate'', textOf 64), (''effective_rate'', codeText),
       (''configured_connection'', textOf 64), (''effective_connection'', codeText),
       (''fallback_active'', isBool), (''reason_code'', nullOr codeText)] v"
    by (auto simp: dataPathTyped_def record_rules)
  moreover have "\<not> truthy (jget v ''reason_code'') \<longleftrightarrow> jget v ''reason_code'' = JNull" if "dataPathTyped v"
    using that nullOr_code_truthy by (simp add: dataPathTyped_def typed_fields)
  ultimately show ?thesis by (auto simp: dataPathIssue_def dataPathSpec_def)
qed

lemma interfaces_refines: "interfacesIssue v = None \<longleftrightarrow> interfacesSpec v"
proof -
  let ?typed = "recordOf [(''state'', oneOf HEALTH_STATES), (''total'', integerFrom 0), (''available'', integerFrom 0),
       (''missing'', integerFrom 0), (''sample_ms'', nullOr (integerFrom 0))] v"
  have typed: "?typed \<longleftrightarrow> onlyFields v [''state'', ''total'', ''available'', ''missing'', ''sample_ms''] \<and>
       enumValue (jget v ''state'') HEALTH_STATES \<and> nonNegativeInteger (jget v ''total'') \<and>
       nonNegativeInteger (jget v ''available'') \<and> nonNegativeInteger (jget v ''missing'') \<and>
       nullOr nonNegativeInteger (jget v ''sample_ms'')"
    by (auto simp: record_rules)
  show ?thesis
  proof (cases ?typed)
    case True
    then obtain t a m where nums: "jget v ''total'' = num (of_int t)" "jget v ''available'' = num (of_int a)"
      "jget v ''missing'' = num (of_int m)" "0 \<le> t" "0 \<le> a" "0 \<le> m"
      by (auto simp: recordOf_def integerFrom_def)
    then show ?thesis unfolding interfacesIssue_def typed [symmetric] interfacesSpec_def using True
      by (auto simp: not_less simp flip: of_int_add)
  next
    case False
    then show ?thesis unfolding interfacesIssue_def typed [symmetric] interfacesSpec_def by simp
  qed
qed

lemma connection_refines: "connectionIssue v = None \<longleftrightarrow> connectionSpec v"
proof -
  let ?typed = "recordOf [(''state'', oneOf HEALTH_STATES), (''source'', nullOr codeText),
       (''entries_seen'', nullOr (integerFrom 0)), (''entries_matched'', nullOr (integerFrom 0)),
       (''parse_errors'', nullOr (integerFrom 0))] v"
  have typed: "?typed \<longleftrightarrow> onlyFields v [''state'', ''source'', ''entries_seen'', ''entries_matched'', ''parse_errors''] \<and>
       enumValue (jget v ''state'') HEALTH_STATES \<and> nullOr (\<lambda>s. codeString s False) (jget v ''source'') \<and>
       nullOr nonNegativeInteger (jget v ''entries_seen'') \<and> nullOr nonNegativeInteger (jget v ''entries_matched'') \<and>
       nullOr nonNegativeInteger (jget v ''parse_errors'')"
    by (auto simp: record_rules)
  show ?thesis
  proof (cases ?typed)
    case True
    then have ty: "nullOr (integerFrom 0) (jget v ''entries_seen'')" "nullOr (integerFrom 0) (jget v ''entries_matched'')"
      "nullOr codeText (jget v ''source'')" by (simp_all add: recordOf_def)
    have "(jget v ''entries_seen'' \<noteq> JNull \<and> jget v ''entries_matched'' \<noteq> JNull \<and>
       jgt (jget v ''entries_matched'') (jget v ''entries_seen'')) \<longleftrightarrow> \<not> atMost v ''entries_matched'' ''entries_seen''"
      using ty(1,2) by (auto simp: nullOr_def integerFrom_def atMost_def)
    then show ?thesis unfolding connectionIssue_def typed [symmetric] connectionSpec_def
      using True nullOr_code_truthy [OF ty(3)] by auto
  next
    case False
    then show ?thesis unfolding connectionIssue_def typed [symmetric] connectionSpec_def by simp
  qed
qed

lemma items_refine:
  assumes "\<And>x. itemOk x = spec x" "\<And>x. spec x \<Longrightarrow> codeText (jget x ''id'') \<and> plainObject x"
  shows "itemsIssue n itemOk p v = None \<longleftrightarrow> listOf n spec v"
proof -
  have id: "spec x \<Longrightarrow> itemId x \<noteq> [] \<and> jget x ''id'' = JStr (itemId x)" for x
    using assms(2) [of x] by (auto simp: plainObject_iff itemId_def jfield_def jor_def codeText_def isCode_def)
  have "distinct (map itemId xs) \<longleftrightarrow> distinct (map (\<lambda>x. jget x ''id'') xs)" if "list_all spec xs" for xs
  proof -
    have "map (\<lambda>x. jget x ''id'') xs = map JStr (map itemId xs)" using that id by (simp add: list_all_iff)
    then show ?thesis by (simp only: distinct_map) (simp add: inj_on_def)
  qed
  moreover have "list_all spec xs \<Longrightarrow> list_all (\<lambda>x. itemId x \<noteq> []) xs" for xs using id by (simp add: list_all_iff)
  moreover have "list_all itemOk xs = list_all spec xs" for xs using assms(1) by (simp add: list_all_iff)
  ultimately show ?thesis
    by (cases v) (auto simp: itemsIssue_def listOf_def uniqueIds_iff asArray_def not_less)
qed

lemma subsystem_refines: "subsystemOk v = subsystemSpec v"
  by (auto simp: subsystemOk_def subsystemSpec_def record_rules)

lemma alert_refines: "alertOk v = alertSpec v"
  by (auto simp: alertOk_def alertSpec_def record_rules oneOf_def)

lemma configIssue_refines: "configIssueOk v = configIssueSpec v"
  by (auto simp: configIssueOk_def configIssueSpec_def record_rules)

lemma service_refines: "serviceIssue v = None \<longleftrightarrow> serviceSpec v"
  by (auto simp: serviceIssue_def serviceSpec_def record_rules)

lemma versions_refines: "versionsIssue v = None \<longleftrightarrow> versionsSpec v"
  by (auto simp: versionsIssue_def versionsSpec_def versionOne_def record_rules)

lemma spec_fields:
  "subsystemSpec x \<Longrightarrow> codeText (jget x ''id'') \<and> plainObject x"
  "alertSpec x \<Longrightarrow> codeText (jget x ''id'') \<and> plainObject x"
  "configIssueSpec x \<Longrightarrow> codeText (jget x ''id'') \<and> plainObject x"
  by (simp_all add: subsystemSpec_def alertSpec_def configIssueSpec_def recordOf_def)

lemma lists_refine:
  "itemsIssue n subsystemOk p v = None \<longleftrightarrow> listOf n subsystemSpec v"
  "itemsIssue n alertOk p v = None \<longleftrightarrow> listOf n alertSpec v"
  "itemsIssue n configIssueOk p v = None \<longleftrightarrow> listOf n configIssueSpec v"
  by (rule items_refine; (rule subsystem_refines alert_refines configIssue_refines | erule spec_fields))+

lemmas section_rules = service_refines versions_refines collection_refines dataPath_refines interfaces_refines
  connection_refines lists_refine

lemma spec_JUndef [simp]: "\<not> collectionSpec JUndef" "\<not> dataPathSpec JUndef" "\<not> interfacesSpec JUndef" "\<not> connectionSpec JUndef"
  "\<not> serviceSpec JUndef" "\<not> versionsSpec JUndef" "\<not> versionOne JUndef"
  by (simp_all add: serviceSpec_def versionsSpec_def versionOne_def collectionSpec_def dataPathSpec_def interfacesSpec_def connectionSpec_def)


section \<open>Codes and labels\<close>

text \<open>Every code that a validator accepts in an enumerated field has a label in the tables of the
  report, and every RPC has one.\<close>

theorem codes_labelled:
  "set HEALTH_STATES \<subseteq> fst ` set HEALTH_REPORT_LABELS \<and> set PROBE_REASONS \<subseteq> fst ` set PROBE_REASON_LABELS \<and>
   set PROBE_KINDS \<subseteq> fst ` set PROBE_KIND_REPORT_LABELS \<and> set RPC_KEYS \<subseteq> fst ` set RPC_LABELS \<and>
   set classificationStates \<subseteq> fst ` set CLASSIFICATION_STATE_LABELS \<and>
   set [''lan'', ''observe'', ''wan'', ''excluded'', ''unknown''] \<subseteq> fst ` set INTERFACE_ROLE_REPORT_LABELS \<and>
   set [''pending'', ''active'', ''available'', ''missing'', ''excluded'', ''unsupported''] \<subseteq>
     fst ` set INTERFACE_STATUS_REPORT_LABELS \<and>
   set [''full'', ''partial'', ''degraded'', ''unavailable''] \<subseteq> fst ` set RATE_COVERAGE_LABELS \<and>
   set [''all_frames'', ''unicast'', ''routed_observed'', ''lower_bound'', ''none''] \<subseteq> fst ` set RATE_SCOPE_LABELS"
proof -
  have keys: "fst ` set (map (\<lambda>k. (k, Tr k)) ks) = set ks" for ks by force
  show ?thesis
    unfolding HEALTH_REPORT_LABELS_def PROBE_REASON_LABELS_def PROBE_KIND_REPORT_LABELS_def RPC_LABELS_def
      CLASSIFICATION_STATE_LABELS_def INTERFACE_STATUS_REPORT_LABELS_def RATE_COVERAGE_LABELS_def RATE_SCOPE_LABELS_def keys
    by (simp add: HEALTH_STATES_def PROBE_REASONS_def PROBE_KINDS_def RPC_KEYS_def classificationStates_def
        INTERFACE_ROLE_REPORT_LABELS_def)
qed

section \<open>Clients that are null\<close>

lemma clientsWalk_Throws:
  "clientsWalk n cs = Throws \<longleftrightarrow> (\<exists>i < length cs. nullish (cs ! i) \<and> (\<forall>j < i. \<not> nullish (cs ! j) \<and> clientOk (n + j) (cs ! j)))"
proof (induction cs arbitrary: n)
  case (Cons c cs)
  have split: "(\<exists>i < Suc m. P i) \<longleftrightarrow> P 0 \<or> (\<exists>i < m. P (Suc i))" for m and P :: "nat \<Rightarrow> bool"
    by (metis less_Suc_eq_0_disj)
  have all: "(\<forall>j < Suc i. P j) \<longleftrightarrow> P 0 \<and> (\<forall>j < i. P (Suc j))" for i and P :: "nat \<Rightarrow> bool"
    by (metis less_Suc_eq_0_disj)
  show ?case by (simp add: Cons split all)
qed simp

text \<open>The validator of the client list throws a TypeError, instead of reporting a failure, exactly when the
  list has a null entry and every entry before it is valid.\<close>

theorem clients_raise:
  "validateClientsResponse v = Raised \<longleftrightarrow> clientsBefore v = None \<and>
    (\<exists>i < length (asArray (jget v ''clients'')). nullish (asArray (jget v ''clients'') ! i) \<and>
      list_all (\<lambda>j. \<not> nullish (asArray (jget v ''clients'') ! j) \<and> clientOk j (asArray (jget v ''clients'') ! j)) [0..<i])"
proof -
  let ?cs = "asArray (jget v ''clients'')"
  have "validateClientsResponse v = Raised \<longleftrightarrow> clientsBefore v = None \<and> clientsWalk 0 ?cs = Throws"
    by (auto simp: validateClientsResponse_def verdictOf_def split: option.splits walk.splits)
  then show ?thesis by (simp add: clientsWalk_Throws list_all_iff Ball_def)
qed

end
