(* ===== verification/DiagResources.thy ===== *)
theory DiagResources
  imports DiagSchema
begin

text \<open>
  \<open>lanspeed/diagnosticsResources.js\<close>: the life of the six RPC answers on the diagnostics page.
  A call is raced against a timer, its answer validated, and a failed call may keep showing the
  previous value for a bounded time. The page state is derived from the six resources.

  The objects this module builds and hands on (errors, results, resources, page states) are
  records here; the answers of the daemon stay values. Messages are English glosses. The
  ellipsis of a shortened text, which is outside the character range of the model, is written
  as the character 133. Points in time are whole milliseconds.
\<close>

section \<open>Errors\<close>

definition emptyValue :: "string \<Rightarrow> jval" where
  "emptyValue key = (if key = ''diagnostics'' then JObj []
     else if key = ''status'' \<or> key = ''health'' then JObj []
     else if key = ''clients'' then JObj [(''clients'', JArr [])]
     else if key = ''interfaces'' then JObj [(''interfaces'', JArr [])]
     else if key = ''overview'' then JObj [(''samples'', JArr [])]
     else JObj [])"

definition ellipsis :: char where
  "ellipsis = char_of (133 :: nat)"

definition boundedText :: "jval \<Rightarrow> nat \<Rightarrow> string" where
  "boundedText v limit = (let t = jtrim (replaceRuns 2 isSpace (replaceRuns 1
       (\<lambda>c. code c = 13 \<or> code c = 10 \<or> code c = 9) (if nullish v then [] else toStr v)))
     in if length t > limit then take limit t @ [ellipsis] else t)"

record rpc_error =
  errKind :: string
  errCode :: string
  errMessage :: string
  errCategory :: jval
  errStage :: jval
  errRetriable :: bool

definition rpcErrorInfo :: "jval \<Rightarrow> string \<Rightarrow> rpc_error" where
  "rpcErrorInfo error0 kind = (let error = jor error0 (JObj []); known = (if kind = [] then ''transport'' else kind);
       rawCode = (if nullish (jget error ''code'') then [] else toStr (jget error ''code''));
       message = jor (jor (jor (jget error ''message'') (jget error ''statusText'')) (JStr (toStr error)))
         (JStr ''unknown RPC failure'')
     in \<lparr>errKind = known, errCode = boundedText (JStr rawCode) 64, errMessage = boundedText message 320,
         errCategory = jor (jget error ''category'') (JStr known), errStage = jor (jget error ''stage'') (JStr ''rpc''),
         errRetriable = (jget error ''retriable'' \<noteq> JBool False)\<rparr>)"

text \<open>The reason text of a failed validation.\<close>

definition reasonString :: "issue \<Rightarrow> string" where
  "reasonString i = (case issueReason i of Fmt f [Lit p, Tr m] \<Rightarrow> p @ '': '' @ m | _ \<Rightarrow> [])"

definition contractError :: "issue \<Rightarrow> rpc_error" where
  "contractError i = rpcErrorInfo (JObj [(''code'', JStr ''INVALID_CONTRACT''),
     (''message'', JStr (reasonString i)), (''retriable'', JBool False)]) ''contract''"

section \<open>Resources\<close>

datatype phase = Loading | Success | Empty | Stale | Degraded | Error | Invalid

record resource =
  resKey :: string
  resPhase :: phase
  resValue :: jval
  resUsable :: bool
  resRetained :: bool
  fetchedAt :: "int option"
  producedAt :: "int option"
  retainedFrom :: "int option"
  ageMs :: "int option"
  resRequest :: nat
  resError :: "rpc_error option"
  attempt :: phase

record call_result =
  callKey :: string
  callOk :: bool
  callValue :: jval
  callValidation :: "verdict option"
  callError :: "rpc_error option"

record rpc_summary =
  sumOk :: bool
  sumRetained :: bool
  sumPhase :: phase
  sumError :: "rpc_error option"

record clock =
  clockInterfaces :: rat
  clockClients :: rat
  clockOverview :: rat
  clockOverall :: rat

record progress =
  checked :: bool
  progressStale :: bool
  lagging :: bool
  staleSources :: "string list"

datatype page_phase = PageLoading | PageError | PageEmpty | PagePartial | PageDegraded | PageReady

record page =
  resources :: "string \<rightharpoonup> resource"
  rpcs :: "string \<rightharpoonup> rpc_summary"
  pageValues :: "string \<Rightarrow> jval"
  checkedAt :: "int option"
  pageRequest :: nat
  observation :: "clock option"
  pageProgress :: "progress option"
  pagePhase :: page_phase

definition phaseForValue :: "string \<Rightarrow> jval \<Rightarrow> phase" where
  "phaseForValue key v = (let state = jget (jor (jget v ''collection'') (JObj [])) ''state'' in
     if key = ''diagnostics'' \<and> state = JStr ''stale'' then Stale
     else if key = ''diagnostics'' \<and> (state = JStr ''degraded'' \<or> state = JStr ''unavailable'') then Degraded
     else if key = ''clients'' \<and> asArray (jget v ''clients'') = [] \<or>
       key = ''interfaces'' \<and> asArray (jget v ''interfaces'') = [] \<or>
       key = ''overview'' \<and> asArray (jget v ''samples'') = [] then Empty
     else Success)"

text \<open>\<open>finiteNumber(a) || finiteNumber(b) || d\<close>\<close>

definition firstNumber :: "jval list \<Rightarrow> rat \<Rightarrow> rat" where
  "firstNumber vs d = (case filter (\<lambda>q. q \<noteq> 0) (List.map_filter finiteNumber vs) of q # _ \<Rightarrow> q | [] \<Rightarrow> d)"

definition pageStatus :: "page option \<Rightarrow> jval" where
  "pageStatus previous = (case previous of None \<Rightarrow> JNull | Some p \<Rightarrow> pageValues p ''status'')"

definition retentionLimit :: "page option \<Rightarrow> jval \<Rightarrow> rat" where
  "retentionLimit previous v = min (of_nat MAX_RETAIN_MS) (max (of_nat DEFAULT_RETAIN_MS)
     (firstNumber [jfield v ''refresh_interval_ms'', jfield (pageStatus previous) ''refresh_interval_ms''] 1000 * 10))"

definition usableResource :: "resource option \<Rightarrow> int \<Rightarrow> rat \<Rightarrow> bool" where
  "usableResource r now maxAge = (case r of None \<Rightarrow> False
     | Some res \<Rightarrow> truthy (resValue res) \<and> resPhase res \<noteq> Error \<and> resPhase res \<noteq> Invalid \<and>
         \<not> (resPhase res = Loading \<and> \<not> resUsable res) \<and>
         (case fetchedAt res of None \<Rightarrow> False | Some f \<Rightarrow> f \<le> now \<and> of_int (now - f) \<le> maxAge))"

definition validateFor :: "string \<Rightarrow> jval \<Rightarrow> verdict" where
  "validateFor key v = (if key = ''diagnostics'' then validateDiagnosticsContract v else validateRuntimeResponse v key)"

definition freshResource :: "string \<Rightarrow> jval \<Rightarrow> int \<Rightarrow> nat \<Rightarrow> resource" where
  "freshResource key v now reqId = (let ph = phaseForValue key v in
     \<lparr>resKey = key, resPhase = ph, resValue = v, resUsable = True, resRetained = False, fetchedAt = Some now,
      producedAt = Some now, retainedFrom = None, ageMs = Some 0, resRequest = reqId, resError = None,
      attempt = (if ph = Empty then Empty else Success)\<rparr>)"

definition errorOr :: "rpc_error option \<Rightarrow> rpc_error" where
  "errorOr e = (case e of Some x \<Rightarrow> x | None \<Rightarrow> rpcErrorInfo JNull ''transport'')"

definition failedResource :: "string \<Rightarrow> rpc_error option \<Rightarrow> resource option \<Rightarrow> page option \<Rightarrow> int \<Rightarrow> nat \<Rightarrow> resource" where
  "failedResource key err previous previousState now reqId =
     (if usableResource previous now (retentionLimit previousState (pageStatus previousState))
      then (let p = the previous in
        \<lparr>resKey = key, resPhase = Stale, resValue = resValue p, resUsable = True, resRetained = True,
         fetchedAt = fetchedAt p,
         producedAt = (if producedAt p = None \<or> producedAt p = Some 0 then fetchedAt p else producedAt p),
         retainedFrom = fetchedAt p, ageMs = map_option (\<lambda>f. max 0 (now - f)) (fetchedAt p),
         resRequest = reqId, resError = Some (errorOr err), attempt = Error\<rparr>)
      else \<lparr>resKey = key,
         resPhase = (if map_option errKind err = Some ''contract'' then Invalid else Error),
         resValue = emptyValue key, resUsable = False, resRetained = False, fetchedAt = None, producedAt = None,
         retainedFrom = None, ageMs = None, resRequest = reqId, resError = Some (errorOr err), attempt = Error\<rparr>)"

text \<open>
  A result that has not been validated yet is validated here; a TypeError of the validator
  passes through, as no value.
\<close>

definition resourceForResult :: "call_result \<Rightarrow> resource option \<Rightarrow> page option \<Rightarrow> int \<Rightarrow> nat \<Rightarrow> resource option" where
  "resourceForResult r previous previousState now reqId =
     (if callOk r then
        (case (case callValidation r of Some d \<Rightarrow> d | None \<Rightarrow> validateFor (callKey r) (callValue r)) of
           Accepted v \<Rightarrow> Some (freshResource (callKey r) v now reqId)
         | Refused i \<Rightarrow> Some (failedResource (callKey r) (Some (contractError i)) previous previousState now reqId)
         | Raised \<Rightarrow> None)
      else Some (failedResource (callKey r) (callError r) previous previousState now reqId))"

section \<open>Calls\<close>

definition callTimeout :: "jval \<Rightarrow> jnum" where
  "callTimeout timeoutMs = (let t = toNum timeoutMs in
     if \<not> isFinite t \<or> nle t (Fin 0) then Fin (of_nat DEFAULT_RPC_TIMEOUT_MS)
     else nmin (Fin (of_nat MAX_RPC_TIMEOUT_MS)) (nmax (Fin 250) t))"

text \<open>
  The promise of \<open>runCall\<close>: whether it is settled, whether its timer is armed, whether the
  call is still open, and the values it was resolved with.
\<close>

record call_state =
  settled :: bool
  timerArmed :: bool
  callOpen :: bool
  resolved :: "call_result list"

definition callInit :: call_state where
  "callInit = \<lparr>settled = False, timerArmed = True, callOpen = True, resolved = []\<rparr>"

definition failedCall :: "string \<Rightarrow> rpc_error \<Rightarrow> call_result" where
  "failedCall key e = \<lparr>callKey = key, callOk = False, callValue = JUndef, callValidation = None, callError = Some e\<rparr>"

definition timeoutError :: rpc_error where
  "timeoutError = rpcErrorInfo (JObj [(''code'', JStr ''TIMEOUT''), (''message'', JStr ''request timed out''),
     (''retriable'', JBool True)]) ''timeout''"

definition onTimeout :: "string \<Rightarrow> call_state \<Rightarrow> call_state" where
  "onTimeout key s = (if settled s then s\<lparr>timerArmed := False\<rparr>
     else s\<lparr>settled := True, timerArmed := False, resolved := resolved s @
[failedCall key timeoutError]\<rparr>)"

definition resolutionOf :: "string \<Rightarrow> jval \<Rightarrow> call_result list" where
  "resolutionOf key v = (case validateFor key v of
     Raised \<Rightarrow> []
   | Refused i \<Rightarrow> [(failedCall key (contractError i))\<lparr>callValidation := Some (Refused i)\<rparr>]
   | Accepted w \<Rightarrow> [\<lparr>callKey = key, callOk = True, callValue = v, callValidation = Some (Accepted w), callError = None\<rparr>])"

definition onValue :: "string \<Rightarrow> jval \<Rightarrow> call_state \<Rightarrow> call_state" where
  "onValue key v s = (if settled s then s\<lparr>callOpen := False\<rparr>
     else s\<lparr>settled := True, timerArmed := False, callOpen := False, resolved := resolved s @ resolutionOf key v\<rparr>)"

definition onRejection :: "string \<Rightarrow> jval \<Rightarrow> call_state \<Rightarrow> call_state" where
  "onRejection key e s = (if settled s then s\<lparr>callOpen := False\<rparr>
     else s\<lparr>settled := True, timerArmed := False, callOpen := False,
       resolved := resolved s @ [failedCall key (rpcErrorInfo e ''transport'')]\<rparr>)"

text \<open>The timer fires at most once, the call answers at most once, in either order.\<close>

inductive runCall :: "string \<Rightarrow> call_state \<Rightarrow> bool" for key where
  start: "runCall key callInit"
| timeout: "runCall key s \<Longrightarrow> timerArmed s \<Longrightarrow> runCall key (onTimeout key s)"
| answer: "runCall key s \<Longrightarrow> callOpen s \<Longrightarrow> runCall key (onValue key v s)"
| rejection: "runCall key s \<Longrightarrow> callOpen s \<Longrightarrow> runCall key (onRejection key e s)"

section \<open>Clocks and progress\<close>

definition maxValue :: "jval list \<Rightarrow> rat" where
  "maxValue vs = foldl (\<lambda>m v. case finiteNumber v of
     Some q \<Rightarrow> if 0 \<le> q \<and> m < q then q else m | None \<Rightarrow> m) 0 vs"

definition sampleClock :: "(string \<Rightarrow> jval) \<Rightarrow> clock" where
  "sampleClock data = (let part = (\<lambda>k. jor (data k) (JObj []));
       samples = (\<lambda>v. map (\<lambda>item. jfield item ''sample_ms'') (asArray v));
       i = maxValue (jget (part ''interfaces'') ''monotonic_ms'' # samples (jget (part ''interfaces'') ''interfaces''));
       c = maxValue (samples (jget (part ''clients'') ''clients''));
       ov = maxValue (samples (jget (part ''overview'') ''samples''))
     in \<lparr>clockInterfaces = i, clockClients = c, clockOverview = ov, clockOverall = maxValue [num i, num c, num ov]\<rparr>)"

datatype rpc_phase = RpcMissing | RpcPhase phase | RpcRetained | RpcFailed | RpcSuccess | RpcInvalid

record rpc_state =
  rsState :: rpc_phase
  rsPhase :: phase
  rsOk :: bool
  rsRetained :: bool

text \<open>The state names: \<open>success\<close> and \<open>invalid\<close> are both phases and outcomes.\<close>

definition phaseState :: "phase \<Rightarrow> rpc_phase" where
  "phaseState ph = (case ph of Success \<Rightarrow> RpcSuccess | Invalid \<Rightarrow> RpcInvalid | Error \<Rightarrow> RpcFailed | _ \<Rightarrow> RpcPhase ph)"

definition notUsablePhases :: "phase list" where
  "notUsablePhases = [Loading, Error, Invalid]"

definition rpcState :: "(string \<rightharpoonup> resource) \<Rightarrow> (string \<rightharpoonup> rpc_summary) \<Rightarrow> string \<Rightarrow> rpc_state" where
  "rpcState ress rps key = (case ress key of
     Some r \<Rightarrow> \<lparr>rsState = (if resPhase r = Stale then (if resRetained r then RpcRetained else RpcSuccess)
           else phaseState (resPhase r)),
         rsPhase = resPhase r, rsOk = (resUsable r \<and> resPhase r \<notin> set notUsablePhases), rsRetained = resRetained r\<rparr>
   | None \<Rightarrow> (case rps key of
       None \<Rightarrow> \<lparr>rsState = RpcMissing, rsPhase = Loading, rsOk = False, rsRetained = False\<rparr>
     | Some q \<Rightarrow> (let ok = (sumOk q \<and> sumPhase q \<notin> set notUsablePhases) in
         \<lparr>rsState = (if ok then RpcSuccess else if sumRetained q then RpcRetained
             else if sumPhase q = Invalid \<or> map_option errKind (sumError q) = Some ''contract'' then RpcInvalid else RpcFailed),
          rsPhase = sumPhase q, rsOk = ok, rsRetained = sumRetained q\<rparr>)))"

definition hasPreviousValue :: "int \<Rightarrow> page option \<Rightarrow> string \<Rightarrow> bool" where
  "hasPreviousValue now previous key = (case previous of None \<Rightarrow> False
     | Some p \<Rightarrow> (case resources p key of
         Some r \<Rightarrow> usableResource (Some r) (case checkedAt p of Some t \<Rightarrow> t | None \<Rightarrow> now)
           (retentionLimit previous (pageValues p ''status''))
       | None \<Rightarrow> (let v = pageValues p key in
           if \<not> truthy v then False
           else if (case rpcs p key of Some q \<Rightarrow> \<not> sumOk q \<and> \<not> sumRetained q | None \<Rightarrow> False) then False
           else if key = ''clients'' then isArr (jget v ''clients'')
           else if key = ''interfaces'' then isArr (jget v ''interfaces'')
           else if key = ''overview'' then isArr (jget v ''samples'')
           else if key = ''diagnostics'' then (case validateDiagnosticsContract v of Accepted _ \<Rightarrow> True | _ \<Rightarrow> False)
           else plainObject v)))"

definition progressRpcOk :: "(string \<rightharpoonup> rpc_summary) \<Rightarrow> string \<Rightarrow> bool" where
  "progressRpcOk rps key \<longleftrightarrow> (let st = rpcState Map.empty rps key in rsState st = RpcSuccess \<and> rsPhase st \<noteq> Stale)"

definition noProgress :: progress where
  "noProgress = \<lparr>checked = False, progressStale = False, lagging = False, staleSources = []\<rparr>"

definition clockOf :: "clock \<Rightarrow> string \<Rightarrow> rat" where
  "clockOf c key = (if key = ''interfaces'' then clockInterfaces c
     else if key = ''clients'' then clockClients c else clockOverview c)"

definition assessProgress :: "clock option \<Rightarrow> clock \<Rightarrow> jval \<Rightarrow> jval \<Rightarrow> (string \<rightharpoonup> rpc_summary) \<Rightarrow> progress" where
  "assessProgress previous current elapsedMs refreshMs rps = (
     let elapsed = max 0 (firstNumber [elapsedMs] 0); refresh = max 500 (firstNumber [refreshMs] 1000) in
     case previous of None \<Rightarrow> noProgress
     | Some p \<Rightarrow> if elapsed < max 750 (refresh * 9 / 10) then noProgress
         else (let compared = filter (\<lambda>k. progressRpcOk rps k \<and> 0 < clockOf p k \<and> 0 < clockOf current k)
                     [''interfaces'', ''clients'', ''overview''];
                   stale = filter (\<lambda>k. clockOf current k \<le> clockOf p k) compared
               in \<lparr>checked = (compared \<noteq> []), progressStale = (compared \<noteq> [] \<and> length stale = length compared),
                   lagging = (stale \<noteq> [] \<and> length stale < length compared), staleSources = stale\<rparr>))"

section \<open>The page\<close>

definition rpcStates :: "(string \<rightharpoonup> resource) \<Rightarrow> (string \<rightharpoonup> rpc_summary) \<Rightarrow> rpc_state list" where
  "rpcStates ress rps = map (rpcState ress rps) RPC_KEYS"

definition isHard :: "rpc_state \<Rightarrow> bool" where
  "isHard st \<longleftrightarrow> rsState st = RpcFailed \<or> rsState st = RpcInvalid"

definition pageState :: "(string \<rightharpoonup> resource) \<Rightarrow> (string \<rightharpoonup> rpc_summary) \<Rightarrow> page_phase" where
  "pageState ress rps = (let sts = rpcStates ress rps; hard = length (filter isHard sts);
       usable = length (filter (\<lambda>st. rsOk st \<or> rsRetained st) sts)
     in if list_ex (\<lambda>st. rsState st = RpcPhase Loading \<or> rsState st = RpcMissing) sts then PageLoading
        else if usable = 0 then (if hard = length sts then PageError else PageEmpty)
        else if hard = length sts then PageError
        else if hard > 0 then PagePartial
        else if list_ex (\<lambda>st. rsPhase st = Degraded \<or> rsPhase st = Stale) sts then PageDegraded
        else if list_all (\<lambda>k. rsPhase (rpcState ress rps k) = Empty) [''clients'', ''interfaces'', ''overview'']
          then PageEmpty
        else PageReady)"

definition resultFor :: "call_result list \<Rightarrow> string \<Rightarrow> call_result" where
  "resultFor results key = (case filter (\<lambda>r. callKey r = key) results of r # _ \<Rightarrow> r
     | [] \<Rightarrow> failedCall key (rpcErrorInfo (JObj [(''code'', JStr ''MISSING''), (''message'', JStr ''no result'')]) ''missing''))"

definition previousFor :: "int \<Rightarrow> page option \<Rightarrow> string \<Rightarrow> resource option" where
  "previousFor now previous key = (case previous of None \<Rightarrow> None
     | Some p \<Rightarrow> (case resources p key of Some r \<Rightarrow> Some r
       | None \<Rightarrow> if hasPreviousValue now previous key
           then Some \<lparr>resKey = key, resPhase = phaseForValue key (pageValues p key), resValue = pageValues p key,
             resUsable = True, resRetained = (case rpcs p key of Some q \<Rightarrow> sumRetained q | None \<Rightarrow> False),
             fetchedAt = checkedAt p, producedAt = checkedAt p, retainedFrom = None, ageMs = Some 0,
             resRequest = pageRequest p, resError = None, attempt = Success\<rparr>
           else None))"

definition summaryOf :: "call_result \<Rightarrow> resource \<Rightarrow> rpc_summary" where
  "summaryOf r res = \<lparr>sumOk = (callOk r \<and> (case callValidation r of Some (Refused i) \<Rightarrow> False | _ \<Rightarrow> True) \<and> resError res = None),
     sumRetained = resRetained res, sumPhase = resPhase res, sumError = resError res\<rparr>"

text \<open>
  One round: the next page from the results of the calls and the previous page. \<open>None\<close> is a
  TypeError thrown by the validator of a result that came without a verdict.
\<close>

definition nextResource :: "call_result list \<Rightarrow> page option \<Rightarrow> int \<Rightarrow> nat \<Rightarrow> string \<Rightarrow> resource option" where
  "nextResource results previous now reqId key =
     resourceForResult (resultFor results key) (previousFor now previous key) previous now reqId"

definition elapsedSince :: "page option \<Rightarrow> int \<Rightarrow> jval" where
  "elapsedSince previous now = (case previous of None \<Rightarrow> num 0
     | Some p \<Rightarrow> (case checkedAt p of None \<Rightarrow> JNum NaN | Some t \<Rightarrow> num (of_int (now - t))))"

definition normalizeResults :: "call_result list \<Rightarrow> page option \<Rightarrow> int \<Rightarrow> nat \<Rightarrow> page option" where
  "normalizeResults results previous now reqId = (
     if list_ex (\<lambda>k. nextResource results previous now reqId k = None) RPC_KEYS then None
     else (let res = (\<lambda>k. if k \<in> set RPC_KEYS then nextResource results previous now reqId k else None);
               rps = (\<lambda>k. map_option (summaryOf (resultFor results k)) (res k));
               vals = (\<lambda>k. case res k of Some r \<Rightarrow> resValue r | None \<Rightarrow> JUndef);
               obs = sampleClock vals;
               prog = assessProgress (Option.bind previous observation) obs (elapsedSince previous now)
                 (jfield (vals ''status'') ''refresh_interval_ms'') rps
           in Some \<lparr>resources = res, rpcs = rps, pageValues = vals, checkedAt = Some now, pageRequest = reqId,
                 observation = Some obs, pageProgress = Some prog, pagePhase = pageState res rps\<rparr>))"

text \<open>\<open>next.errors\<close>: the calls that are not in order.\<close>

definition pageErrors :: "page \<Rightarrow> (string \<times> rpc_error option) list" where
  "pageErrors p = List.map_filter (\<lambda>k. case rpcs p k of
     Some q \<Rightarrow> if sumOk q then None else Some (k, sumError q) | None \<Rightarrow> None) RPC_KEYS"

section \<open>How long a value is kept\<close>

lemma retentionLimit_bounds: "30000 \<le> retentionLimit previous v \<and> retentionLimit previous v \<le> 120000"
  by (simp add: retentionLimit_def MAX_RETAIN_MS_def DEFAULT_RETAIN_MS_def)

lemma validateFor_same: "validateFor key v = Accepted w \<Longrightarrow> w = v"
  by (auto simp: validateFor_def validateDiagnosticsContract_def validateRuntimeResponse_def validateClientsResponse_def
      split: if_splits option.splits walk.splits)

lemma validateFor_Raised: "validateFor key v = Raised \<Longrightarrow> key = ''clients''"
  by (auto simp: validateFor_def validateDiagnosticsContract_def validateRuntimeResponse_def verdictOf_def
      split: if_splits option.splits)

text \<open>What holds of a resource of a page checked at time \<open>t\<close>.\<close>

definition resourceOk :: "int \<Rightarrow> string \<Rightarrow> resource \<Rightarrow> bool" where
  "resourceOk t key r \<longleftrightarrow> resPhase r \<noteq> Loading \<and> (resRetained r \<longrightarrow> resUsable r \<and> resPhase r = Stale) \<and>
     (resError r = None \<or> resUsable r \<and> \<not> resRetained r \<longrightarrow> fetchedAt r = Some t) \<and>
     (if resUsable r
      then validateFor key (resValue r) = Accepted (resValue r) \<and> resPhase r \<noteq> Error \<and> resPhase r \<noteq> Invalid \<and>
        (\<exists>f. fetchedAt r = Some f \<and> f \<le> t \<and> t - f \<le> 120000)
      else resValue r = emptyValue key \<and> (resPhase r = Error \<or> resPhase r = Invalid))"

text \<open>What holds of a resource at any time, also while its next check is under way.\<close>

definition keptOk :: "string \<Rightarrow> resource \<Rightarrow> bool" where
  "keptOk key r \<longleftrightarrow> (if resUsable r then validateFor key (resValue r) = Accepted (resValue r)
     else resPhase r \<in> {Loading, Error, Invalid})"

lemma resourceOk_kept: "resourceOk t key r \<Longrightarrow> keptOk key r"
  by (auto simp: resourceOk_def keptOk_def split: if_splits)

lemma validated_truthy: "validateFor key v = Accepted w \<Longrightarrow> truthy v"
  by (cases v) (auto simp: validateFor_def validateDiagnosticsContract_def validateRuntimeResponse_def validateClientsResponse_def
      contractIssue_def clientsBefore_def verdictOf_def failIf_def split: if_splits option.splits)

lemma phaseForValue_settled: "phaseForValue key v \<in> {Success, Empty, Stale, Degraded}"
  by (simp add: phaseForValue_def Let_def)

lemma freshResource_ok: "validateFor key v = Accepted v \<Longrightarrow> resourceOk now key (freshResource key v now n)"
  using phaseForValue_settled [of key v] by (auto simp: resourceOk_def freshResource_def Let_def)

lemma failedResource_ok:
  assumes "\<And>p. previous = Some p \<Longrightarrow> keptOk key p"
  shows "resourceOk now key (failedResource key e previous previousState now n)"
proof (cases "usableResource previous now (retentionLimit previousState (pageStatus previousState))")
  case True
  then obtain p f where p: "previous = Some p" "fetchedAt p = Some f" "f \<le> now"
    "of_int (now - f) \<le> retentionLimit previousState (pageStatus previousState)" "resPhase p \<noteq> Error" "resPhase p \<noteq> Invalid"
    "\<not> (resPhase p = Loading \<and> \<not> resUsable p)"
    by (auto simp: usableResource_def split: option.splits)
  then have valid: "validateFor key (resValue p) = Accepted (resValue p)"
    using assms [OF p(1)] by (auto simp: keptOk_def split: if_splits)
  have "(of_int (now - f) :: rat) \<le> of_int 120000"
    using p(4) retentionLimit_bounds [of previousState "pageStatus previousState"] by simp
  then have "now - f \<le> 120000" by (simp only: of_int_le_iff)
  then show ?thesis using True p valid by (simp add: resourceOk_def failedResource_def Let_def)
next
  case False
  then show ?thesis by (simp add: resourceOk_def failedResource_def)
qed

section \<open>One call\<close>

lemma resolutionOf_length: "length (resolutionOf key v) \<le> 1 \<and> (key \<noteq> ''clients'' \<longrightarrow> resolutionOf key v \<noteq> [])"
  using validateFor_Raised [of key v] by (cases "validateFor key v") (auto simp: resolutionOf_def)

lemma runCall_inv:
  "runCall key s \<Longrightarrow> (if settled s then \<not> timerArmed s \<and> length (resolved s) \<le> 1 \<and> (key \<noteq> ''clients'' \<longrightarrow> resolved s \<noteq> [])
    else timerArmed s \<and> callOpen s \<and> resolved s = [])"
proof (induction rule: runCall.induct)
  case start
  show ?case by (simp add: callInit_def)
next
  case (timeout s)
  then show ?case by (cases "settled s") (simp_all add: onTimeout_def)
next
  case (answer s v)
  then show ?case using resolutionOf_length [of key v] by (cases "settled s") (simp_all add: onValue_def)
next
  case (rejection s e)
  then show ?case by (cases "settled s") (simp_all add: onRejection_def)
qed

text \<open>A call is resolved at most once, however answer and timer race; and for every RPC but the client
  list it is resolved as soon as the call answers or the timer fires.\<close>

theorem runCall_settles:
  assumes "runCall key s"
  shows "length (resolved s) \<le> 1 \<and>
    (key \<noteq> ''clients'' \<longrightarrow> timerArmed s \<and> callOpen s \<or> length (resolved s) = 1)"
  using runCall_inv [OF assms] by (cases "settled s"; cases "resolved s") simp_all

theorem runCall_settles_witness:
  "length (resolved (onTimeout ''status'' callInit)) \<le> 1"
  using runCall_settles [OF runCall.timeout [OF runCall.start [of "''status''"]]] by (simp add: callInit_def)

text \<open>An answer of the client list with a null entry leaves the call unresolved for ever: the validator
  throws after the timer has been cleared, and nothing resolves the promise.\<close>

theorem runCall_hangs:
  "\<exists>s. runCall ''clients'' s \<and> \<not> timerArmed s \<and> \<not> callOpen s \<and> resolved s = []"
proof -
  let ?v = "JObj [(''clients'', JArr [JNull])]"
  have "resolutionOf ''clients'' ?v = []"
    by (simp add: resolutionOf_def validateFor_def validateRuntimeResponse_def validateClientsResponse_def
        clientsBefore_def onlyFields_def jget.simps asArray_def nullish_def failIf_def)
  then show ?thesis using runCall.answer [OF runCall.start, of "''clients''" ?v]
    by (intro exI [of _ "onValue ''clients'' ?v callInit"]) (simp add: onValue_def callInit_def)
qed

lemma runCall_results:
  "runCall key s \<Longrightarrow> r \<in> set (resolved s) \<Longrightarrow> callKey r = key \<and>
    (callOk r \<longrightarrow> (\<exists>v. callValidation r = Some (Accepted v) \<and> validateFor key v = Accepted v))"
proof (induction arbitrary: r rule: runCall.induct)
  case (answer s v)
  then show ?case using validateFor_same [of key v]
    by (auto simp: onValue_def resolutionOf_def failedCall_def split: if_splits verdict.splits)
qed (auto simp: callInit_def onTimeout_def onRejection_def failedCall_def split: if_splits)

section \<open>Rounds\<close>

text \<open>The pages a user sees: each round merges results of calls into the page before.\<close>

definition fromCalls :: "call_result list \<Rightarrow> bool" where
  "fromCalls results \<longleftrightarrow> list_all (\<lambda>r. \<exists>s. runCall (callKey r) s \<and> r \<in> set (resolved s)) results"

inductive rounds :: "page \<Rightarrow> bool" where
  first: "fromCalls results \<Longrightarrow> normalizeResults results None now n = Some p \<Longrightarrow> rounds p"
| later: "rounds q \<Longrightarrow> fromCalls results \<Longrightarrow> normalizeResults results (Some q) now n = Some p \<Longrightarrow> rounds p"

text \<open>Results whose values were accepted: those of calls, and those of a check that failed as a whole.\<close>

definition validResults :: "call_result list \<Rightarrow> bool" where
  "validResults results \<longleftrightarrow> list_all (\<lambda>r. callOk r \<longrightarrow>
     (\<exists>v. callValidation r = Some (Accepted v) \<and> validateFor (callKey r) v = Accepted v)) results"

lemma fromCalls_valid:
  assumes "fromCalls results"
  shows "validResults results"
  unfolding validResults_def list_all_iff
proof
  fix r assume "r \<in> set results"
  then obtain s where s: "runCall (callKey r) s" "r \<in> set (resolved s)" using assms by (auto simp: fromCalls_def list_all_iff)
  show "callOk r \<longrightarrow> (\<exists>v. callValidation r = Some (Accepted v) \<and> validateFor (callKey r) v = Accepted v)"
    using runCall_results [OF s] by blast
qed

lemma resultFor_cases:
  assumes "validResults results"
  shows "callKey (resultFor results key) = key" "callOk (resultFor results key) \<Longrightarrow>
    \<exists>v. callValidation (resultFor results key) = Some (Accepted v) \<and> validateFor key v = Accepted v"
proof -
  have "callKey (resultFor results key) = key \<and> (callOk (resultFor results key) \<longrightarrow>
    (\<exists>v. callValidation (resultFor results key) = Some (Accepted v) \<and> validateFor key v = Accepted v))"
  proof (cases "filter (\<lambda>r. callKey r = key) results")
    case Nil
    then show ?thesis by (simp add: resultFor_def failedCall_def)
  next
    case (Cons r rs)
    then have "r \<in> set (filter (\<lambda>r. callKey r = key) results)" by simp
    then have "r \<in> set results" "callKey r = key" by simp_all
    then show ?thesis using assms Cons by (auto simp: validResults_def list_all_iff resultFor_def)
  qed
  then show "callKey (resultFor results key) = key" "callOk (resultFor results key) \<Longrightarrow>
    \<exists>v. callValidation (resultFor results key) = Some (Accepted v) \<and> validateFor key v = Accepted v" by auto
qed

lemma nextResource_ok:
  assumes "validResults results" and "\<And>p. previousFor now previous key = Some p \<Longrightarrow> keptOk key p"
  shows "\<exists>r. nextResource results previous now n key = Some r \<and> resourceOk now key r"
proof (cases "callOk (resultFor results key)")
  case True
  then obtain v where "callValidation (resultFor results key) = Some (Accepted v)" "validateFor key v = Accepted v"
    using resultFor_cases [OF assms(1)] by blast
  then show ?thesis using True resultFor_cases(1) [OF assms(1), of key] freshResource_ok
    by (simp add: nextResource_def resourceForResult_def)
next
  case False
  then show ?thesis using failedResource_ok [OF assms(2)] resultFor_cases(1) [OF assms(1), of key]
    by (simp add: nextResource_def resourceForResult_def)
qed

definition pageOk :: "page \<Rightarrow> bool" where
  "pageOk p \<longleftrightarrow> (\<exists>t. checkedAt p = Some t \<and>
     (\<forall>key \<in> set RPC_KEYS. \<exists>r. resources p key = Some r \<and> resourceOk t key r)) \<and> pagePhase p = pageState (resources p) (rpcs p)"

definition keptPage :: "page \<Rightarrow> bool" where
  "keptPage p \<longleftrightarrow> (\<forall>key \<in> set RPC_KEYS. \<exists>r. resources p key = Some r \<and> keptOk key r)"

lemma pageOk_kept: "pageOk p \<Longrightarrow> keptPage p"
  using resourceOk_kept by (fastforce simp: pageOk_def keptPage_def)

lemma normalizeResults_ok:
  assumes "validResults results" and "\<And>q. previous = Some q \<Longrightarrow> keptPage q"
  shows "\<exists>p. normalizeResults results previous now n = Some p \<and> pageOk p"
proof -
  have "\<exists>r. nextResource results previous now n key = Some r \<and> resourceOk now key r" if key: "key \<in> set RPC_KEYS" for key
  proof (rule nextResource_ok [OF assms(1)])
    fix p assume p: "previousFor now previous key = Some p"
    then obtain q where q: "previous = Some q" by (auto simp: previousFor_def split: option.splits)
    then obtain r where "resources q key = Some r" "keptOk key r"
      using assms(2) key by (auto simp: keptPage_def)
    then show "keptOk key p" using p q by (simp add: previousFor_def)
  qed
  then have good: "\<forall>key \<in> set RPC_KEYS. \<exists>r. nextResource results previous now n key = Some r \<and> resourceOk now key r" by blast
  then have "\<not> list_ex (\<lambda>k. nextResource results previous now n k = None) RPC_KEYS"
    by (auto simp: list_ex_iff)
  then show ?thesis using good
    by (simp add: normalizeResults_def Let_def pageOk_def)
qed

lemma rounds_ok: "rounds p \<Longrightarrow> pageOk p"
proof (induction rule: rounds.induct)
  case (first results now n p)
  then show ?case using normalizeResults_ok [of results None now n] fromCalls_valid by simp
next
  case (later q results now n p)
  then show ?case using normalizeResults_ok [of results "Some q" now n] fromCalls_valid pageOk_kept by simp
qed



lemma pageOk_phase:
  assumes "pageOk p"
  shows "pagePhase p \<noteq> PageLoading \<and>
    (pagePhase p = PageError \<longleftrightarrow> list_all (\<lambda>key. \<exists>r. resources p key = Some r \<and> \<not> resUsable r) RPC_KEYS)"
proof -
  obtain t where t: "\<forall>key \<in> set RPC_KEYS. \<exists>r. resources p key = Some r \<and> resourceOk t key r" and
    phase: "pagePhase p = pageState (resources p) (rpcs p)"
    using assms by (auto simp: pageOk_def)
  have st: "rsState (rpcState (resources p) (rpcs p) key) \<noteq> RpcPhase Loading \<and>
      rsState (rpcState (resources p) (rpcs p) key) \<noteq> RpcMissing \<and>
      (isHard (rpcState (resources p) (rpcs p) key) \<longleftrightarrow> (\<exists>r. resources p key = Some r \<and> \<not> resUsable r)) \<and>
      (rsOk (rpcState (resources p) (rpcs p) key) \<or> rsRetained (rpcState (resources p) (rpcs p) key) \<longleftrightarrow>
        \<not> isHard (rpcState (resources p) (rpcs p) key))" if key: "key \<in> set RPC_KEYS" for key
  proof -
    obtain r where r: "resources p key = Some r" "resourceOk t key r" using bspec [OF t key] by blast
    then show ?thesis
      by (cases "resPhase r") (auto simp: rpcState_def resourceOk_def phaseState_def isHard_def notUsablePhases_def split: if_splits)
  qed
  let ?sts = "rpcStates (resources p) (rpcs p)"
  have usable: "filter (\<lambda>st. rsOk st \<or> rsRetained st) ?sts = filter (\<lambda>st. \<not> isHard st) ?sts"
    unfolding rpcStates_def by (rule filter_cong) (use st in auto)
  have none: "\<not> list_ex (\<lambda>st. rsState st = RpcPhase Loading \<or> rsState st = RpcMissing) ?sts"
    using st by (auto simp: rpcStates_def list_ex_iff)
  have counts: "length (filter isHard ?sts) + length (filter (\<lambda>st. \<not> isHard st) ?sts) = length ?sts"
    by (rule sum_length_filter_compl)
  have "length ?sts = 6" by (simp add: rpcStates_def RPC_KEYS_def)
  then have err: "pageState (resources p) (rpcs p) = PageError \<longleftrightarrow> length (filter isHard ?sts) = length ?sts"
    using counts none by (auto simp: pageState_def Let_def usable)
  have "length (filter isHard ?sts) = length ?sts \<longleftrightarrow> (\<forall>st \<in> set ?sts. isHard st)"
    by (metis filter_True length_filter_less linorder_neq_iff)
  then show ?thesis using err none st phase
    by (auto simp: rpcStates_def list_all_iff) (auto simp: pageState_def Let_def rpcStates_def split: if_splits)
qed

text \<open>A round always ends with a page that is out of the loading state, and the page is in the error state
  exactly when all six calls have failed with nothing left to show.\<close>

theorem page_settles:
  assumes "rounds p"
  shows "pagePhase p \<noteq> PageLoading \<and>
    (pagePhase p = PageError \<longleftrightarrow> list_all (\<lambda>key. \<exists>r. resources p key = Some r \<and> \<not> resUsable r) RPC_KEYS)"
  by (rule pageOk_phase [OF rounds_ok [OF assms]])

theorem page_settles_witness: "\<exists>p. normalizeResults [] None 5 1 = Some p \<and> pagePhase p \<noteq> PageLoading"
proof -
  obtain p where p: "normalizeResults [] None 5 1 = Some p"
    using normalizeResults_ok [of "[]" None 5 1] by (auto simp: validResults_def)
  then have "rounds p" by (intro rounds.first [of "[]"]) (simp_all add: fromCalls_def)
  from page_settles [OF this] show ?thesis using p by blast
qed

end
