(* ===== verification/DiagFacts.thy ===== *)
theory DiagFacts
  imports DiagResources Vocab JsSort
begin

text \<open>
  The first half of \<open>lanspeed/diagnosticsStates.js\<close>: texts, the states of a card and the facts
  collected from the rate metadata of the client list.
\<close>

section \<open>Health\<close>

text \<open>The four states of a card, in the order of \<open>stateRank\<close>.\<close>

datatype health = Neutral | Good | Warning | Bad

fun stateRank :: "health \<Rightarrow> nat" where
  "stateRank Neutral = 0"
| "stateRank Good = 1"
| "stateRank Warning = 2"
| "stateRank Bad = 3"

definition worseState :: "health \<Rightarrow> health \<Rightarrow> health" where
  "worseState first second = (if stateRank second > stateRank first then second else first)"

instantiation health :: linorder
begin

definition less_eq_health :: "health \<Rightarrow> health \<Rightarrow> bool" where
  "less_eq_health a b \<longleftrightarrow> stateRank a \<le> stateRank b"

definition less_health :: "health \<Rightarrow> health \<Rightarrow> bool" where
  "less_health a b \<longleftrightarrow> stateRank a < stateRank b"

instance
proof
  fix a b :: health
  show "a \<le> b \<Longrightarrow> b \<le> a \<Longrightarrow> a = b" by (cases a; cases b) (simp_all add: less_eq_health_def)
qed (auto simp: less_eq_health_def less_health_def)

end

lemma worseState_max: "worseState a b = max a b"
  by (cases a; cases b) (simp_all add: worseState_def max_def less_eq_health_def)

lemma worse_warning [simp]: "worseState a Warning \<noteq> Good" "worseState a Warning \<noteq> Neutral"
  by (cases a; simp add: worseState_def)+

section \<open>Texts\<close>

definition natT :: "nat \<Rightarrow> mtext" where
  "natT n = NumT (Fin (of_nat n))"

definition roundT :: "rat \<Rightarrow> mtext" where
  "roundT q = NumT (nround (Fin q))"

definition dot :: mtext where "dot = Tr '' - ''"

definition andThen :: "mtext \<Rightarrow> mtext \<Rightarrow> mtext" where
  "andThen a b = Cat [a, Lit '' '', b]"

fun separate :: "mtext \<Rightarrow> mtext list \<Rightarrow> mtext list" where
  "separate sep [] = []"
| "separate sep [t] = [t]"
| "separate sep (t # ts) = t # sep # separate sep ts"

definition joinText :: "mtext \<Rightarrow> mtext list \<Rightarrow> mtext" where
  "joinText sep ts = Cat (separate sep ts)"

text \<open>\<open>labels[key] || fallback\<close> on an object literal.\<close>

definition labelOr :: "(string \<times> mtext) list \<Rightarrow> string \<Rightarrow> mtext \<Rightarrow> mtext" where
  "labelOr labels key d = (case map_of labels key of Some t \<Rightarrow> t
     | None \<Rightarrow> if key \<in> set protoKeys then Lit (toStr (JProto key)) else d)"

text \<open>\<open>String(v || d)\<close>\<close>

definition textOr :: "jval \<Rightarrow> string \<Rightarrow> string" where
  "textOr v d = toStr (jor v (JStr d))"

definition formatDuration :: "jval \<Rightarrow> mtext" where
  "formatDuration v = (case finiteNumber v of
     None \<Rightarrow> Lit ''-''
   | Some q \<Rightarrow> if q < 0 then Lit ''-''
       else if q < 1000 then Fmt ''%d ms'' [roundT q]
       else if q < 60000 then Fmt ''%s s'' [NumT (nscale (1 / 10) (nround (Fin (q / 100))))]
       else Fmt ''%s min'' [NumT (nscale (1 / 10) (nround (Fin (q / 6000))))])"

definition jnumber :: "rat option \<Rightarrow> jval" where
  "jnumber q = (case q of None \<Rightarrow> JNull | Some x \<Rightarrow> num x)"

definition INTERFACE_SAMPLE_CLOCK_SKEW_MS :: rat where
  "INTERFACE_SAMPLE_CLOCK_SKEW_MS = 50"

definition sampleAge :: "jval \<Rightarrow> jval \<Rightarrow> rat option" where
  "sampleAge clockValue sampleValue = (case (finiteNumber clockValue, finiteNumber sampleValue) of
     (Some clk, Some sample) \<Rightarrow> if sample > clk
       then (if sample - clk \<le> INTERFACE_SAMPLE_CLOCK_SKEW_MS then Some 0 else None)
       else Some (clk - sample)
   | _ \<Rightarrow> None)"

definition formatPercent :: "jval \<Rightarrow> mtext" where
  "formatPercent v = (case finiteNumber v of None \<Rightarrow> Lit ''-''
     | Some q \<Rightarrow> Cat [NumT (nscale (1 / 10) (nround (Fin (q * 10)))), Lit ''%''])"

definition reasonText :: "jval \<Rightarrow> mtext" where
  "reasonText reason = (let key = textOr reason []; plain = map (\<lambda>c. if c = CHR ''_'' then CHR '' '' else c) key in
     labelOr REASON_LABELS key (if plain = [] then Lit ''-'' else Lit plain))"

definition collectorKey :: "jval \<Rightarrow> string" where
  "collectorKey v = (let key = toLowerCase (jtrim (textOr v [])) in
     if key = [] \<or> key = ''auto'' \<or> key = ''unsupported'' then ''unsupported'' else key)"

definition knownCollector :: "jval \<Rightarrow> bool" where
  "knownCollector v \<longleftrightarrow> collectorKey v \<in> set (map fst COLLECTOR_REPORT_LABELS)"

definition collectorDisplayLabel :: "jval \<Rightarrow> mtext" where
  "collectorDisplayLabel v = (let key = collectorKey v in
     if knownCollector (JStr key) then collectorLabel (JStr key) else Tr ''unknown'')"

section \<open>Which source owns the rates\<close>

definition given :: "jval \<Rightarrow> bool" where
  "given v \<longleftrightarrow> v \<noteq> JUndef \<and> v \<noteq> JNull \<and> v \<noteq> JStr []"

definition nssPlatform :: "jval \<Rightarrow> bool" where
  "nssPlatform status = (let evidence = jor (jfield status ''evidence'') (JObj []);
       platform = jor (jget evidence ''platform'') (JObj [])
     in if given (jget platform ''profile'') then jget platform ''profile'' = JStr ''nss_aarch64''
        else if given (jget platform ''target_arch'')
        then toStr (jget platform ''target_arch'') = ''aarch64'' \<and>
          (\<not> hasOwn platform ''nss_compiled'' \<or> jget platform ''nss_compiled'' \<noteq> JBool False) \<and>
          (\<not> truthy (jget status ''capabilities'') \<or> jget (jget status ''capabilities'') ''nss'' \<noteq> JBool False)
        else False)"

definition currentRateUsesAccessEdge :: "jval \<Rightarrow> bool" where
  "currentRateUsesAccessEdge status \<longleftrightarrow> nssPlatform status \<and> textOr (jfield status ''rate_collector_mode'') [] = ''auto'' \<and>
     textOr (jfield status ''access_edge_mode'') [] = ''active'' \<and>
     textOr (jfield status ''internet_view_mode'') [] \<noteq> ''routed''"

definition currentRateUsesRoutedInternet :: "jval \<Rightarrow> bool" where
  "currentRateUsesRoutedInternet status \<longleftrightarrow> nssPlatform status \<and> textOr (jfield status ''internet_view_mode'') [] = ''routed''"

section \<open>Counts\<close>

text \<open>An object without prototype, from names to how often they were seen.\<close>

type_synonym counts = "(string \<times> nat) list"

fun addCount :: "string \<Rightarrow> nat \<Rightarrow> counts \<Rightarrow> counts" where
  "addCount k n [] = [(k, n)]"
| "addCount k n ((j, m) # cs) = (if j = k then (j, m + n) # cs else (j, m) # addCount k n cs)"

definition countOf :: "counts \<Rightarrow> string \<Rightarrow> nat" where
  "countOf cs k = (case map_of cs k of Some n \<Rightarrow> n | None \<Rightarrow> 0)"

text \<open>The default order of \<open>sort\<close>: by code units.\<close>

fun textLess :: "string \<Rightarrow> string \<Rightarrow> bool" where
  "textLess [] [] = False"
| "textLess [] (_ # _) = True"
| "textLess (_ # _) [] = False"
| "textLess (a # as) (b # bs) = (code a < code b \<or> a = b \<and> textLess as bs)"

definition defaultOrder :: "string \<Rightarrow> string \<Rightarrow> jnum" where
  "defaultOrder a b = (if textLess a b then Fin (-1) else if textLess b a then Fin 1 else Fin 0)"

definition countKeys :: "counts \<Rightarrow> string list \<Rightarrow> string list" where
  "countKeys cs preferred = (let first = filter (\<lambda>k. countOf cs k \<noteq> 0) preferred in
     first @ filter (\<lambda>k. countOf cs k \<noteq> 0 \<and> k \<notin> set first) (jsSort defaultOrder (map fst cs)))"

definition countSummary :: "counts \<Rightarrow> (string \<times> mtext) list \<Rightarrow> string list \<Rightarrow> mtext" where
  "countSummary cs labels preferred = (let keys = countKeys cs preferred in
     if keys = [] then Lit ''-''
     else joinText dot (map (\<lambda>k. Cat [labelOr labels k (Tr ''unknown''), Lit '' '', natT (countOf cs k)]) keys))"

definition edgeReasonText :: "string \<Rightarrow> mtext" where
  "edgeReasonText c = labelOr ACCESS_EDGE_REASON_LABELS c (Tr ''an unknown limit'')"

section \<open>Facts of the client list\<close>

record rate_facts =
  rfClients :: "jval list"
  rfOwner :: nat
  rfUnavailable :: nat
  rfFallback :: nat
  rfStaleClients :: nat
  rfStale :: nat
  rfSources :: counts
  rfCoverage :: counts
  rfScopes :: counts
  rfKinds :: counts
  rfTrust :: counts
  rfReasons :: "string list"
  rfWindows :: "rat list"

definition noFacts :: "jval list \<Rightarrow> rate_facts" where
  "noFacts clients = \<lparr>rfClients = clients, rfOwner = 0, rfUnavailable = 0, rfFallback = 0, rfStaleClients = 0, rfStale = 0,
     rfSources = [], rfCoverage = [], rfScopes = [], rfKinds = [], rfTrust = [], rfReasons = [], rfWindows = []\<rparr>"

definition addReason :: "jval \<Rightarrow> string list \<Rightarrow> string list" where
  "addReason v rs = (let c = textOr v [] in if c \<noteq> [] \<and> c \<notin> set rs then rs @ [c] else rs)"

definition fallbackSources :: "string list" where
  "fallbackSources = [''fast_routed_lease'', ''ecm_bpf_fallback'', ''ecm_nss_lower_bound'', ''tc_bpf_lower_bound'']"

definition addDirection :: "jval \<Rightarrow> jval \<Rightarrow> rate_facts \<Rightarrow> rate_facts" where
  "addDirection meta direction f = (let plain = plainObject direction; metaWindow = finiteNumber (jget meta ''window_ms'');
       source = (if plain then textOr (jget direction ''source'') ''none'' else ''none'');
       coverage = (if plain then textOr (jget direction ''coverage'') ''unavailable'' else ''unavailable'');
       stale = (if plain \<and> isBool (jget direction ''stale'') then jget direction ''stale'' = JBool True
         else jget meta ''stale'' = JBool True);
       own = (if plain then finiteNumber (jget direction ''window_ms'') else None);
       window = (if own = None then metaWindow else own);
       none = (source = ''none'' \<or> coverage = ''unavailable'')
     in f\<lparr>rfWindows := (case window of
           Some w \<Rightarrow> if w > 0 \<and> (\<not> none \<or> metaWindow \<noteq> None) then rfWindows f @ [w] else rfWindows f
         | None \<Rightarrow> rfWindows f),
        rfSources := addCount source 1 (rfSources f), rfCoverage := addCount coverage 1 (rfCoverage f),
        rfStale := (if stale then rfStale f + 1 else rfStale f),
        rfUnavailable := (if none then rfUnavailable f + 1 else rfUnavailable f),
        rfOwner := (if none then rfOwner f else rfOwner f + 1),
        rfFallback := (if source \<in> set fallbackSources then rfFallback f + 1 else rfFallback f)\<rparr>)"

definition addAttachment :: "jval \<Rightarrow> rate_facts \<Rightarrow> rate_facts" where
  "addAttachment a f = (if plainObject a
     then f\<lparr>rfKinds := addCount (textOr (jget a ''kind'') ''unknown'') 1 (rfKinds f),
            rfTrust := addCount (textOr (jget a ''trust'') ''unknown'') 1 (rfTrust f)\<rparr> else f)"

definition addClient :: "jval \<Rightarrow> rate_facts \<Rightarrow> rate_facts" where
  "addClient client f = (let meta = jfield client ''rate_meta'' in
     if \<not> plainObject meta
     then f\<lparr>rfSources := addCount ''none'' 2 (rfSources f), rfCoverage := addCount ''unavailable'' 2 (rfCoverage f),
            rfScopes := addCount ''none'' 1 (rfScopes f), rfUnavailable := rfUnavailable f + 2\<rparr>
     else (let f1 = (if jget meta ''stale'' = JBool True then f\<lparr>rfStaleClients := rfStaleClients f + 1\<rparr> else f);
            f2 = addAttachment (jget meta ''attachment'') f1;
            f3 = f2\<lparr>rfScopes := addCount (textOr (jget meta ''scope'') ''none'') 1 (rfScopes f2),
              rfReasons := foldl (\<lambda>rs v. addReason v rs) (rfReasons f2) (asArray (jget meta ''reason_codes''))\<rparr>
          in addDirection meta (jget meta ''rx'') (addDirection meta (jget meta ''tx'') f3)))"

definition collectRateFacts :: "jval \<Rightarrow> rate_facts" where
  "collectRateFacts response = (let clients = asArray (jfield response ''clients'');
       f = foldl (\<lambda>f c. addClient c f) (noFacts clients) clients
     in f\<lparr>rfWindows := sort (rfWindows f)\<rparr>)"

text \<open>The fields derived from the sorted windows: the median, the least and the largest.\<close>

definition windowMs :: "rate_facts \<Rightarrow> rat option" where
  "windowMs f = (let ws = rfWindows f; middle = length ws div 2 in
     if ws = [] then None
     else if odd (length ws) then Some (ws ! middle)
     else Some (of_int \<lfloor>(ws ! (middle - 1) + ws ! middle) / 2 + 1 / 2\<rfloor>))"

definition windowMinMs :: "rate_facts \<Rightarrow> rat option" where
  "windowMinMs f = (if rfWindows f = [] then None else Some (hd (rfWindows f)))"

definition windowMaxMs :: "rate_facts \<Rightarrow> rat option" where
  "windowMaxMs f = (if rfWindows f = [] then None else Some (last (rfWindows f)))"

definition totalDirections :: "rate_facts \<Rightarrow> nat" where
  "totalDirections f = length (rfClients f) * 2"

definition rateWindowText :: "rate_facts \<Rightarrow> mtext \<Rightarrow> mtext" where
  "rateWindowText f fallback = (case windowMs f of
     Some w \<Rightarrow> if w \<le> 0 then fallback
       else Fmt ''window of about %s%s'' [formatDuration (num w),
         if windowMinMs f \<noteq> windowMaxMs f
         then Fmt '' (from %s to %s)'' [formatDuration (jnumber (windowMinMs f)), formatDuration (jnumber (windowMaxMs f))]
         else Lit []]
   | None \<Rightarrow> fallback)"

section \<open>What the facts count\<close>

definition total :: "counts \<Rightarrow> nat" where
  "total cs = sum_list (map snd cs)"

lemma total_addCount [simp]: "total (addCount k n cs) = total cs + n"
  by (induction cs) (auto simp: total_def)

lemma keys_addCount: "map fst (addCount k n cs) = (if k \<in> set (map fst cs) then map fst cs else map fst cs @ [k])"
  by (induction cs) (auto simp: rev_image_eqI)

lemma distinct_addCount [simp]: "distinct (map fst cs) \<Longrightarrow> distinct (map fst (addCount k n cs))"
  by (simp add: keys_addCount)

text \<open>The two directions of a client, and whether a direction has a source and is stale.\<close>

definition directionsOf :: "jval \<Rightarrow> (jval \<times> jval) list" where
  "directionsOf client = (let meta = jfield client ''rate_meta'' in
     if plainObject meta then [(meta, jget meta ''tx''), (meta, jget meta ''rx'')] else [(JUndef, JUndef), (JUndef, JUndef)])"

definition hasOwner :: "jval \<times> jval \<Rightarrow> bool" where
  "hasOwner d \<longleftrightarrow> plainObject (snd d) \<and> textOr (jget (snd d) ''source'') ''none'' \<noteq> ''none'' \<and>
     textOr (jget (snd d) ''coverage'') ''unavailable'' \<noteq> ''unavailable''"

definition isStale :: "jval \<times> jval \<Rightarrow> bool" where
  "isStale d \<longleftrightarrow> (if plainObject (snd d) \<and> isBool (jget (snd d) ''stale'') then jget (snd d) ''stale'' = JBool True
     else jget (fst d) ''stale'' = JBool True)"

definition usesFallback :: "jval \<times> jval \<Rightarrow> bool" where
  "usesFallback d \<longleftrightarrow> plainObject (snd d) \<and> textOr (jget (snd d) ''source'') ''none'' \<in> set fallbackSources"

definition directions :: "jval list \<Rightarrow> (jval \<times> jval) list" where
  "directions clients = concat (map directionsOf clients)"

definition factsInv :: "jval list \<Rightarrow> rate_facts \<Rightarrow> bool" where
  "factsInv seen f \<longleftrightarrow> rfOwner f = length (filter hasOwner (directions seen)) \<and>
     rfUnavailable f = length (filter (\<lambda>d. \<not> hasOwner d) (directions seen)) \<and>
     rfStale f = length (filter isStale (directions seen)) \<and> rfFallback f = length (filter usesFallback (directions seen)) \<and>
     total (rfSources f) = 2 * length seen \<and> total (rfCoverage f) = 2 * length seen \<and> total (rfScopes f) = length seen \<and>
     distinct (map fst (rfSources f)) \<and> distinct (map fst (rfCoverage f)) \<and> distinct (map fst (rfScopes f)) \<and>
     (\<forall>w \<in> set (rfWindows f). w > 0)"

lemma none_fallback: "''none'' \<notin> set fallbackSources"
  by (simp add: fallbackSources_def)

lemma addDirection_counts:
  "rfOwner (addDirection meta d f) = rfOwner f + (if hasOwner (meta, d) then 1 else 0)"
  "rfUnavailable (addDirection meta d f) = rfUnavailable f + (if hasOwner (meta, d) then 0 else 1)"
  "rfStale (addDirection meta d f) = rfStale f + (if isStale (meta, d) then 1 else 0)"
  "rfFallback (addDirection meta d f) = rfFallback f + (if usesFallback (meta, d) then 1 else 0)"
  by (cases "plainObject d"; simp add: addDirection_def Let_def hasOwner_def isStale_def usesFallback_def none_fallback)+

lemma addDirection_totals [simp]:
  "total (rfSources (addDirection meta d f)) = total (rfSources f) + 1"
  "total (rfCoverage (addDirection meta d f)) = total (rfCoverage f) + 1"
  "rfScopes (addDirection meta d f) = rfScopes f" "rfClients (addDirection meta d f) = rfClients f"
  "distinct (map fst (rfSources f)) \<Longrightarrow> distinct (map fst (rfSources (addDirection meta d f)))"
  "distinct (map fst (rfCoverage f)) \<Longrightarrow> distinct (map fst (rfCoverage (addDirection meta d f)))"
  by (simp_all add: addDirection_def Let_def)

lemma addDirection_windows: "\<forall>w \<in> set (rfWindows f). w > 0 \<Longrightarrow> \<forall>w \<in> set (rfWindows (addDirection meta d f)). w > 0"
  by (simp add: addDirection_def Let_def split: option.split)

lemma addAttachment_keeps [simp]:
  "rfOwner (addAttachment a f) = rfOwner f" "rfUnavailable (addAttachment a f) = rfUnavailable f"
  "rfStale (addAttachment a f) = rfStale f" "rfFallback (addAttachment a f) = rfFallback f"
  "rfSources (addAttachment a f) = rfSources f" "rfCoverage (addAttachment a f) = rfCoverage f"
  "rfScopes (addAttachment a f) = rfScopes f" "rfClients (addAttachment a f) = rfClients f"
  "rfWindows (addAttachment a f) = rfWindows f"
  by (simp_all add: addAttachment_def)

lemma jget_JUndef: "jget JUndef k = JUndef" by (simp add: jget.simps)

lemma addClient_plain:
  assumes "plainObject (jfield c ''rate_meta'')"
  shows "\<exists>g. addClient c f = addDirection (jfield c ''rate_meta'') (jget (jfield c ''rate_meta'') ''rx'')
      (addDirection (jfield c ''rate_meta'') (jget (jfield c ''rate_meta'') ''tx'') g) \<and>
    rfOwner g = rfOwner f \<and> rfUnavailable g = rfUnavailable f \<and> rfStale g = rfStale f \<and> rfFallback g = rfFallback f \<and>
    rfSources g = rfSources f \<and> rfCoverage g = rfCoverage f \<and> rfWindows g = rfWindows f \<and> rfClients g = rfClients f \<and>
    rfScopes g = addCount (textOr (jget (jfield c ''rate_meta'') ''scope'') ''none'') 1 (rfScopes f)"
  using assms by (simp only: addClient_def Let_def not_True_eq_False if_False) (intro exI conjI, rule refl, simp_all)

lemma addClient_inv:
  assumes "factsInv seen f" shows "factsInv (seen @ [c]) (addClient c f)"
proof -
  have d: "directions (seen @ [c]) = directions seen @ directionsOf c" by (simp add: directions_def)
  show ?thesis
  proof (cases "plainObject (jfield c ''rate_meta'')")
    case False
    then have "directionsOf c = [(JUndef, JUndef), (JUndef, JUndef)]" by (simp add: directionsOf_def Let_def)
    then show ?thesis using assms False
      by (simp add: factsInv_def addClient_def d hasOwner_def isStale_def usesFallback_def jget_JUndef)
  next
    case True
    let ?m = "jfield c ''rate_meta''"
    have e: "directionsOf c = [(?m, jget ?m ''tx''), (?m, jget ?m ''rx'')]" using True by (simp add: directionsOf_def Let_def)
    obtain g where g: "addClient c f = addDirection ?m (jget ?m ''rx'') (addDirection ?m (jget ?m ''tx'') g)"
      "rfOwner g = rfOwner f" "rfUnavailable g = rfUnavailable f" "rfStale g = rfStale f" "rfFallback g = rfFallback f"
      "rfSources g = rfSources f" "rfCoverage g = rfCoverage f" "rfWindows g = rfWindows f" "rfClients g = rfClients f"
      "rfScopes g = addCount (textOr (jget ?m ''scope'') ''none'') 1 (rfScopes f)"
      using addClient_plain [OF True] by blast
    have "\<forall>w \<in> set (rfWindows g). w > 0" using assms by (simp add: g(8) factsInv_def)
    then have w: "\<forall>w \<in> set (rfWindows (addClient c f)). w > 0" unfolding g(1) by (intro addDirection_windows)
    have "rfOwner (addClient c f) = length (filter hasOwner (directions seen @ directionsOf c)) \<and>
        rfUnavailable (addClient c f) = length (filter (\<lambda>d. \<not> hasOwner d) (directions seen @ directionsOf c)) \<and>
        rfStale (addClient c f) = length (filter isStale (directions seen @ directionsOf c)) \<and>
        rfFallback (addClient c f) = length (filter usesFallback (directions seen @ directionsOf c))"
      unfolding e g(1) addDirection_counts g(2-5) using assms by (simp add: factsInv_def)
    then show ?thesis using assms w by (simp add: factsInv_def d) (simp add: g)
  qed
qed

lemma addClients_inv: "factsInv seen f \<Longrightarrow> factsInv (seen @ cs) (foldl (\<lambda>f c. addClient c f) f cs)"
proof (induction cs arbitrary: f seen)
  case (Cons c cs)
  from Cons.IH [OF addClient_inv [OF Cons.prems, of c]] show ?case by simp
qed simp

lemma addClient_clients [simp]: "rfClients (addClient c f) = rfClients f"
proof (cases "plainObject (jfield c ''rate_meta'')")
  case True
  then show ?thesis using addClient_plain [OF True, of f] by auto
qed (simp add: addClient_def)

lemma addClients_keep [simp]: "rfClients (foldl (\<lambda>f c. addClient c f) f cs) = rfClients f"
  by (induction cs arbitrary: f) simp_all

lemma collectRateFacts_inv: "factsInv (asArray (jfield response ''clients'')) (collectRateFacts response)"
proof -
  let ?cs = "asArray (jfield response ''clients'')"
  have "factsInv [] (noFacts ?cs)" by (simp add: factsInv_def noFacts_def directions_def total_def)
  from addClients_inv [OF this, of ?cs] show ?thesis by (simp add: collectRateFacts_def Let_def factsInv_def)
qed

lemma collectRateFacts_clients [simp]: "rfClients (collectRateFacts response) = asArray (jfield response ''clients'')"
  by (simp add: collectRateFacts_def Let_def) (simp add: noFacts_def)

lemma length_directions: "length (directions cs) = 2 * length cs"
  by (induction cs) (simp_all add: directions_def directionsOf_def Let_def)

lemma sorted_ends: "sorted (ws :: rat list) \<Longrightarrow> i < length ws \<Longrightarrow> hd ws \<le> ws ! i \<and> ws ! i \<le> last ws"
  using sorted_nth_mono [of ws 0 i] sorted_nth_mono [of ws i "length ws - 1"]
  by (cases "ws = []") (simp_all add: hd_conv_nth last_conv_nth)

lemma rounded_between:
  fixes m :: rat
  assumes "lo \<le> m" "m \<le> hi"
  shows "lo - 1 / 2 \<le> of_int \<lfloor>m + 1 / 2\<rfloor> \<and> of_int \<lfloor>m + 1 / 2\<rfloor> \<le> hi + 1 / 2"
  using assms floor_correct [of "m + 1 / 2"] unfolding of_int_add of_int_1 by linarith

lemma window_bounds:
  assumes "sorted (rfWindows f)"
  shows "case windowMs f of None \<Rightarrow> rfWindows f = [] \<and> windowMinMs f = None \<and> windowMaxMs f = None
    | Some w \<Rightarrow> (\<exists>lo hi. windowMinMs f = Some lo \<and> windowMaxMs f = Some hi \<and> lo - 1 / 2 \<le> w \<and> w \<le> hi + 1 / 2 \<and>
        set (rfWindows f) \<subseteq> {lo..hi})"
proof (cases "rfWindows f = []")
  case True
  then show ?thesis by (simp add: windowMs_def windowMinMs_def windowMaxMs_def)
next
  case False
  let ?ws = "rfWindows f"
  have ends: "hd ?ws \<le> ?ws ! i \<and> ?ws ! i \<le> last ?ws" if "i < length ?ws" for i by (rule sorted_ends [OF assms that])
  have m: "length ?ws div 2 < length ?ws" "length ?ws div 2 - 1 < length ?ws" using False by (simp_all add: less_imp_diff_less)
  let ?mean = "(?ws ! (length ?ws div 2 - 1) + ?ws ! (length ?ws div 2)) / 2"
  have mean: "hd ?ws \<le> ?mean" "?mean \<le> last ?ws" using ends [OF m(1)] ends [OF m(2)] by simp_all
  have "hd ?ws - 1 / 2 \<le> of_int \<lfloor>?mean + 1 / 2\<rfloor> \<and> of_int \<lfloor>?mean + 1 / 2\<rfloor> \<le> last ?ws + 1 / 2"
    by (rule rounded_between [OF mean])
  moreover have "\<forall>x \<in> set ?ws. hd ?ws \<le> x \<and> x \<le> last ?ws" using ends by (metis in_set_conv_nth)
  moreover have "hd ?ws - 1 / 2 \<le> ?ws ! (length ?ws div 2) \<and> ?ws ! (length ?ws div 2) \<le> last ?ws + 1 / 2"
    using ends [OF m(1)] by linarith
  ultimately show ?thesis using False
    by (auto simp: windowMs_def windowMinMs_def windowMaxMs_def Let_def)
qed

text \<open>
  Whatever the client list holds, the facts count it completely: every direction of every
  client has an owner or is unavailable, sources and coverages are counted once per direction and
  scopes once per client, and the window shown lies between the least and the largest window, which
  bound all of them.
\<close>
theorem rate_facts_complete:
  fixes response :: jval
  defines "f \<equiv> collectRateFacts response" and "ds \<equiv> directions (asArray (jfield response ''clients''))"
  shows "rfOwner f = length (filter hasOwner ds) \<and> rfUnavailable f = length (filter (\<lambda>d. \<not> hasOwner d) ds) \<and>
    rfOwner f + rfUnavailable f = totalDirections f \<and> rfStale f = length (filter isStale ds) \<and>
    rfFallback f = length (filter usesFallback ds) \<and>
    total (rfSources f) = totalDirections f \<and> total (rfCoverage f) = totalDirections f \<and>
    total (rfScopes f) = length (rfClients f) \<and>
    (case windowMs f of None \<Rightarrow> rfWindows f = [] \<and> windowMinMs f = None \<and> windowMaxMs f = None
      | Some w \<Rightarrow> (\<exists>lo hi. windowMinMs f = Some lo \<and> windowMaxMs f = Some hi \<and> lo - 1 / 2 \<le> w \<and> w \<le> hi + 1 / 2 \<and>
          set (rfWindows f) \<subseteq> {lo..hi}))"
proof -
  have inv: "factsInv (asArray (jfield response ''clients'')) f" unfolding f_def by (rule collectRateFacts_inv)
  have n: "totalDirections f = length ds" by (simp add: totalDirections_def f_def ds_def length_directions)
  have "length (filter hasOwner ds) + length (filter (\<lambda>d. \<not> hasOwner d) ds) = length ds" by (rule sum_length_filter_compl)
  moreover have "sorted (rfWindows f)" by (simp add: f_def collectRateFacts_def Let_def)
  ultimately show ?thesis
    using inv window_bounds [of f] unfolding n ds_def [symmetric]
    by (simp add: factsInv_def ds_def [symmetric]) (simp add: f_def ds_def length_directions)
qed

end
