(* ===== verification/DiagStates.thy ===== *)
theory DiagStates
  imports DiagFacts
begin

text \<open>
  The cards of the diagnostics page that \<open>lanspeed/diagnosticsStates.js\<close> derives from a page of
  resources: who owns the rates, the access edge, the classification, the client control, the
  integrity of the rates and the coverage.
\<close>

section \<open>Cards\<close>

record card =
  cdState :: health
  cdBadge :: mtext
  cdValue :: mtext
  cdText :: mtext
  cdMeta :: mtext

definition rpcOf :: "page \<Rightarrow> string \<Rightarrow> rpc_state" where
  "rpcOf p key = rpcState (resources p) (rpcs p) key"

definition part :: "page \<Rightarrow> string \<Rightarrow> jval" where
  "part p key = jor (pageValues p key) (JObj [])"

definition noAnswer :: "rpc_state \<Rightarrow> bool" where
  "noAnswer st \<longleftrightarrow> rsState st = RpcFailed \<or> rsState st = RpcInvalid \<or> rsState st = RpcMissing"

definition isLoading :: "rpc_state \<Rightarrow> bool" where
  "isLoading st \<longleftrightarrow> rsState st = RpcPhase Loading"

definition isRetained :: "rpc_state \<Rightarrow> bool" where
  "isRetained st \<longleftrightarrow> rsState st = RpcRetained"

text \<open>
  The last steps of most cards: the RPCs the card rests on overrule what was derived from
  their values.
\<close>

definition overrule :: "rpc_state list \<Rightarrow> mtext \<Rightarrow> mtext \<Rightarrow> mtext \<Rightarrow> 'a card_scheme \<Rightarrow> 'a card_scheme" where
  "overrule sts failedText loadingText retainedText c = (
     if list_ex noAnswer sts then c\<lparr>cdState := Bad, cdBadge := Tr ''unavailable'', cdText := failedText\<rparr>
     else if list_ex isLoading sts then c\<lparr>cdState := Warning, cdBadge := Tr ''checking'', cdText := loadingText\<rparr>
     else if list_ex isRetained sts
     then c\<lparr>cdState := worseState (cdState c) Warning, cdBadge := Tr ''old value'', cdText := andThen (cdText c) retainedText\<rparr>
     else c)"

section \<open>Coverage\<close>

record coverage_card = card +
  ccQuality :: string
  ccSource :: string
  ccActive :: "rat option"
  ccPublished :: "rat option"
  ccTx :: "rat option"
  ccRx :: "rat option"
  ccMinimum :: "rat option"

definition coverageCard :: "health \<Rightarrow> mtext \<Rightarrow> mtext \<Rightarrow> mtext \<Rightarrow> mtext \<Rightarrow> string \<Rightarrow> string \<Rightarrow> coverage_card" where
  "coverageCard st badge v descr meta quality source = \<lparr>cdState = st, cdBadge = badge, cdValue = v, cdText = descr, cdMeta = meta,
     ccQuality = quality, ccSource = source, ccActive = None, ccPublished = None, ccTx = None, ccRx = None, ccMinimum = None\<rparr>"

definition edgeEvidence :: "jval \<Rightarrow> jval" where
  "edgeEvidence clients = jfield (jfield clients ''evidence'') ''access_edge''"

definition publicationComplete :: "jval \<Rightarrow> bool" where
  "publicationComplete evidence = (jget evidence ''topology_complete'' = JBool True \<and>
     (case (finiteNumber (jget evidence ''active_attachments''), finiteNumber (jget evidence ''published_attachments'')) of
       (Some active, Some published) \<Rightarrow> published \<ge> active | _ \<Rightarrow> False))"

definition COVERAGE_LABELS :: "(string \<times> mtext) list" where
  "COVERAGE_LABELS = [(''full'', Tr ''full''), (''partial'', Tr ''partial''), (''degraded'', Tr ''degraded''),
     (''unavailable'', Tr ''unavailable'')]"

definition accessEdgeCoverageState :: "jval \<Rightarrow> coverage_card" where
  "accessEdgeCoverageState clients = (let evidence = edgeEvidence clients in
     if \<not> plainObject evidence
     then coverageCard Warning (Tr ''waiting for samples'') (Tr ''...'') (Tr ''no access point coverage received yet'')
       (Tr ''precise rate, no coverage contract'') ''warmup'' ''access_edge''
     else (let quality = textOr (jget evidence ''coverage'') ''unavailable'';
         active = finiteNumber (jget evidence ''active_attachments''); published = finiteNumber (jget evidence ''published_attachments'');
         countText = (case (active, published) of
             (Some a, Some b) \<Rightarrow> Fmt ''%d/%d access points known'' [roundT b, roundT a]
           | _ \<Rightarrow> Tr ''number of access points unknown'');
         st = (if quality = ''unavailable'' then Bad
           else if quality = ''degraded'' \<or> \<not> publicationComplete evidence then Warning else Good);
         descr = (if quality = ''full'' then Tr ''all active clients have a complete source''
           else if quality = ''partial'' then Tr ''some clients or broadcast traffic cannot be attributed''
           else if quality = ''degraded'' then Tr ''only degraded rates of the classifier''
           else Tr ''no source of client rates'');
         label = labelOr COVERAGE_LABELS quality (Tr ''unavailable'')
       in (coverageCard st (if st = Good then Tr ''normal'' else label) label (Cat [countText, dot, descr])
         (Fmt ''precise rate - %s'' [countText]) quality ''access_edge'')\<lparr>ccActive := active, ccPublished := published\<rparr>))"

definition gradeOf :: "rat \<Rightarrow> health" where
  "gradeOf q = (if q < 60 then Bad else if q < 85 then Warning else Good)"

definition percentPair :: "string \<Rightarrow> rat option \<Rightarrow> rat option \<Rightarrow> mtext" where
  "percentPair fmt tx rx = Fmt fmt [formatPercent (jnumber tx), formatPercent (jnumber rx)]"

definition minimumOf :: "rat option \<Rightarrow> rat option \<Rightarrow> rat option" where
  "minimumOf tx rx = (case (tx, rx) of (Some a, Some b) \<Rightarrow> Some (min a b) | _ \<Rightarrow> None)"

text \<open>State, badge, value and description of each quality of the coverage, given its minimum.\<close>

definition coverageVerdict :: "string \<Rightarrow> rat option \<Rightarrow> rat option \<Rightarrow> health \<times> mtext \<times> mtext \<times> mtext" where
  "coverageVerdict quality tx rx = (let minimum = minimumOf tx rx;
       value = (case minimum of None \<Rightarrow> Lit ''-'' | Some q \<Rightarrow> formatPercent (num q)) in
     if quality = ''ok'' \<and> minimum \<noteq> None
     then (let st = gradeOf (the minimum) in (st, if st = Good then Tr ''trustworthy'' else if st = Bad then Tr ''large gap'' else Tr ''gap'',
       value, percentPair ''up %s, down %s'' tx rx))
     else if quality = ''idle'' then (Good, Tr ''idle'', Lit ''-'', Tr ''no active traffic'')
     else if quality = ''low_traffic''
     then (case minimum of None \<Rightarrow> Warning | Some q \<Rightarrow> gradeOf q, Tr ''low traffic'', value,
       if minimum = None then Tr ''too little traffic to judge'' else percentPair ''measured at low traffic: up %s, down %s'' tx rx)
     else if quality = ''warmup'' then (Warning, Tr ''sampling'', Lit ''-'', Tr ''collecting samples'')
     else if quality = ''pending''
     then (Warning, Tr ''catching up'', value, if minimum = None then Tr ''the coverage window is catching up''
       else Tr ''the last coverage, waiting for an aligned window'')
     else if quality = ''counter_reset'' then (Warning, Tr ''sampling again'', value, Tr ''counters were reset'')
     else if quality = ''counter_skew''
     then (Warning, Tr ''aligning'', value, if minimum = None then Tr ''client and LAN counters do not match''
       else Tr ''the last coverage, aligning the counters'')
     else if quality = ''unsupported'' then (Bad, Tr ''unavailable'', Lit ''-'', Tr ''no source of coverage'')
     else (Warning, Tr ''unknown'', value, Tr ''incomplete coverage''))"

definition coverageState :: "jval \<Rightarrow> jval \<Rightarrow> coverage_card" where
  "coverageState status clients = (
     if textOr (jfield status ''rate_collector_mode'') [] = ''auto'' \<and> textOr (jfield status ''access_edge_mode'') [] = ''active''
     then accessEdgeCoverageState clients
     else (let coverage = jfield status ''coverage'' in
       if \<not> plainObject coverage
       then coverageCard Warning (Tr ''unknown'') (Lit ''-'') (Tr ''no coverage received'') (Tr ''no coverage contract'') [] ''collector''
       else (let quality = textOr (jget coverage ''quality'') [];
           tx = finiteNumber (jget coverage ''tx_pct''); rx = finiteNumber (jget coverage ''rx_pct'');
           (st, badge, v, descr) = coverageVerdict quality tx rx
         in (coverageCard st badge v descr (Fmt ''%d samples, window %s''
             [NumT (nround (numOr (jget coverage ''samples'') (Fin 0))), formatDuration (jget coverage ''window_ms'')])
             quality ''collector'')\<lparr>ccTx := tx, ccRx := rx, ccMinimum := minimumOf tx rx\<rparr>)))"

section \<open>Who owns the rates\<close>

record owner_card = card +
  ocSource :: string
  ocSourceText :: mtext
  ocCoverageText :: mtext
  ocWindowText :: mtext
  ocScopeText :: mtext
  ocFacts :: rate_facts
  ocEdge :: bool
  ocRouted :: bool

definition sourceText :: "rate_facts \<Rightarrow> mtext" where
  "sourceText f = countSummary (rfSources f) RATE_SOURCE_LABELS [''edge_port'', ''edge_wifi'', ''fast_routed_lease'',
     ''fast_routed_internet'', ''ecm_bpf_fallback'', ''ecm_nss_lower_bound'', ''tc_bpf_lower_bound'', ''none'']"

definition directionsText :: "string \<Rightarrow> rate_facts \<Rightarrow> mtext \<Rightarrow> mtext" where
  "directionsText fmt f fallback = Fmt fmt [natT (rfOwner f), natT (totalDirections f), rateWindowText f fallback]"

definition edgeOwnerCard :: "coverage_card \<Rightarrow> rate_facts \<Rightarrow> card" where
  "edgeOwnerCard coverage f = (let
       c = \<lparr>cdState = cdState coverage, cdBadge = cdBadge coverage,
         cdValue = (if sourceText f = Lit ''-'' then Tr ''waiting for the source of the rates'' else sourceText f),
         cdText = andThen (cdText coverage) (Tr ''each direction has one owner; classes are not added to it''),
         cdMeta = directionsText ''%d/%d directions have a source - %s'' f (Tr ''target window 1 s'')\<rparr>
     in if rfUnavailable f \<noteq> 0 \<or> ccQuality coverage = ''unavailable''
        then c\<lparr>cdState := Bad, cdBadge := Tr ''missing'',
          cdText := andThen (cdText c) (Fmt ''%d directions have no owner'' [natT (rfUnavailable f)])\<rparr>
        else if rfFallback f \<noteq> 0 \<or> countOf (rfCoverage f) ''degraded'' \<noteq> 0 \<or> ccQuality coverage = ''degraded''
        then c\<lparr>cdState := Warning, cdBadge := Tr ''degraded'',
          cdText := andThen (cdText c) (Tr ''some directions use a fallback that sees routed traffic only'')\<rparr>
        else if rfStale f \<noteq> 0
        then c\<lparr>cdState := Warning, cdBadge := Tr ''stale values'',
          cdText := andThen (cdText c) (Fmt ''%d directions are stale'' [natT (rfStale f)])\<rparr>
        else if ccQuality coverage = ''full'' \<or> ccQuality coverage = ''partial''
        then c\<lparr>cdState := Good, cdBadge := Tr ''normal'',
          cdText := (if countOf (rfCoverage f) ''partial'' \<noteq> 0
            then andThen (cdText c) (Tr ''all directions are fresh; the limits of attribution are in the report'') else cdText c)\<rparr>
        else c)"

definition routedOwnerCard :: "rate_facts \<Rightarrow> card" where
  "routedOwnerCard f = (let st = (if rfUnavailable f \<noteq> 0 then Bad else if rfStale f \<noteq> 0 then Warning else Good);
       descr = Tr ''the routed view shows observed routed traffic only''
     in \<lparr>cdState = st, cdBadge = (if st = Bad then Tr ''missing'' else if st = Warning then Tr ''stale values'' else Tr ''routed view''),
         cdValue = (if sourceText f = Lit ''-'' then Tr ''waiting for the source of the routed rates'' else sourceText f),
         cdText = (if rfUnavailable f \<noteq> 0 then andThen descr (Fmt ''%d directions have no window'' [natT (rfUnavailable f)])
           else if rfStale f \<noteq> 0 then andThen descr (Fmt ''%d directions are stale'' [natT (rfStale f)]) else descr),
         cdMeta = directionsText ''%d/%d directions have a routed source - %s'' f (Tr ''sampling window unknown'')\<rparr>)"

definition collectorEvidence :: "jval \<Rightarrow> jval" where
  "collectorEvidence status = jor (jfield (jfield status ''evidence'') ''collector'') (JObj [])"

definition manualSource :: "jval \<Rightarrow> jval \<Rightarrow> string" where
  "manualSource status clients = collectorKey (jor (jfield (jget status ''evidence'') ''effective_collector'')
     (jor (jget (collectorEvidence status) ''primary_source'') (effectiveCollector status clients)))"

definition manualOwnerCard :: "string \<Rightarrow> coverage_card \<Rightarrow> card" where
  "manualOwnerCard source coverage = \<lparr>cdState = (if source = ''unsupported'' then Bad else cdState coverage),
     cdBadge = (if source = ''unsupported'' then Tr ''unavailable'' else Tr ''manual path''),
     cdValue = collectorDisplayLabel (JStr source),
     cdText = (if source = ''unsupported'' then Tr ''the manual mode has no source'' else Tr ''only what the chosen path can see is shown''),
     cdMeta = Fmt ''the access edge does not own the rates - %s'' [cdText coverage]\<rparr>"

definition rateOwnerStateWithRpc :: "page \<Rightarrow> owner_card" where
  "rateOwnerStateWithRpc p = (let status = part p ''status''; clients = part p ''clients''; f = collectRateFacts clients;
       edge = currentRateUsesAccessEdge status; routed = currentRateUsesRoutedInternet status;
       coverage = coverageState status clients; source = manualSource status clients;
       base = (if edge then edgeOwnerCard coverage f else if routed then routedOwnerCard f else manualOwnerCard source coverage);
       c = overrule [rpcOf p ''status'', rpcOf p ''clients''] (Tr ''status or clients gave no verifiable source of the rates'')
         (Tr ''waiting for the owner of the rates'') (Tr ''showing the last successful result'') base
     in \<lparr>cdState = cdState c, cdBadge = cdBadge c, cdValue = cdValue c, cdText = cdText c, cdMeta = cdMeta c,
         ocSource = (if edge then ''access_edge'' else if routed then ''nss_ecm_bpf'' else source),
         ocSourceText = sourceText f,
         ocCoverageText = countSummary (rfCoverage f) RATE_COVERAGE_LABELS [''full'', ''partial'', ''degraded'', ''unavailable''],
         ocWindowText = rateWindowText f (if routed then Tr ''sampling window unknown'' else Tr ''target window 1 s''),
         ocScopeText = countSummary (rfScopes f) RATE_SCOPE_LABELS
           [''all_frames'', ''unicast'', ''routed_observed'', ''lower_bound'', ''none''],
         ocFacts = f, ocEdge = edge, ocRouted = routed\<rparr>)"

end
