(* ===== verification/DiagCards.thy ===== *)
theory DiagCards
  imports DiagStates
begin

text \<open>
  The other cards of \<open>lanspeed/diagnosticsStates.js\<close>: access edge, classification, client control,
  integrity, freshness, data path, connections, interfaces, versions and quality.
\<close>

section \<open>The access edge\<close>

record edge_card = card +
  ecReasons :: "string list"
  ecReasonText :: mtext
  ecTopology :: bool
  ecActive :: "rat option"
  ecPublished :: "rat option"
  ecAttachmentText :: mtext
  ecTrustText :: mtext
  ecQuality :: "string option"

definition edgeCard :: "health \<Rightarrow> mtext \<Rightarrow> mtext \<Rightarrow> mtext \<Rightarrow> mtext \<Rightarrow> rat option \<Rightarrow> edge_card" where
  "edgeCard st badge v descr meta n = \<lparr>cdState = st, cdBadge = badge, cdValue = v, cdText = descr, cdMeta = meta,
     ecReasons = [], ecReasonText = Lit ''-'', ecTopology = False, ecActive = n, ecPublished = n,
     ecAttachmentText = Lit ''-'', ecTrustText = Lit ''-'', ecQuality = None\<rparr>"

definition reasonList :: "string list \<Rightarrow> mtext" where
  "reasonList rs = joinText (Tr ''; '') (map edgeReasonText rs)"

definition edgeReasons :: "jval \<Rightarrow> string list" where
  "edgeReasons evidence = firstsFrom {} (filter (\<lambda>c. c \<noteq> []) (map toStr (asArray (jget evidence ''reason_codes''))))"

definition liveEdgeCard :: "jval \<Rightarrow> rate_facts \<Rightarrow> bool \<Rightarrow> edge_card" where
  "liveEdgeCard evidence f owner = (let quality = textOr (jget evidence ''coverage'') ''unavailable'';
       active = finiteNumber (jget evidence ''active_attachments''); published = finiteNumber (jget evidence ''published_attachments'');
       topology = (jget evidence ''topology_complete'' = JBool True); reasons = edgeReasons evidence;
       st = (if quality = ''unavailable'' \<and> owner then Bad
         else if \<not> publicationComplete evidence \<or> quality = ''degraded'' \<and> owner then Warning else Good);
       descr = (if owner then Tr ''the access edge owns the client rates'' else Tr ''the access edge only checks in the background'')
     in \<lparr>cdState = st,
         cdBadge = (if \<not> owner then Tr ''background check'' else if st = Good then Tr ''normal'' else if st = Bad then Tr ''unavailable''
           else if quality = ''degraded'' then Tr ''degraded'' else Tr ''incomplete''),
         cdValue = (case (active, published) of (Some a, Some b) \<Rightarrow> Fmt ''%d/%d access points'' [NumT (Fin b), NumT (Fin a)]
           | _ \<Rightarrow> Tr ''access points unknown''),
         cdText = (if reasons = [] then descr else andThen descr (Cat [reasonList (take 2 reasons), Tr ''.''])),
         cdMeta = Fmt ''topology %s, FDB %s'' [if topology then Tr ''complete'' else Tr ''incomplete'',
           labelOr FDB_SOURCE_LABELS (textOr (jget evidence ''fdb_source'') []) (Tr ''unknown source'')],
         ecReasons = reasons, ecReasonText = (if reasons = [] then Tr ''none'' else reasonList reasons), ecTopology = topology,
         ecActive = active, ecPublished = published,
         ecAttachmentText = countSummary (rfKinds f) [(''ethernet'', Tr ''wired''), (''wifi'', Tr ''Wi-Fi''), (''unknown'', Tr ''unknown'')]
           [''ethernet'', ''wifi'', ''unknown''],
         ecTrustText = countSummary (rfTrust f) [(''associated_station'', Tr ''associated station''),
           (''observed_exclusive'', Tr ''single MAC seen''), (''shared'', Tr ''shared''), (''unknown'', Tr ''unknown'')]
           [''associated_station'', ''observed_exclusive'', ''shared'', ''unknown''],
         ecQuality = Some quality\<rparr>)"

definition accessEdgeStateWithRpc :: "page \<Rightarrow> edge_card" where
  "accessEdgeStateWithRpc p = (let status = part p ''status''; clients = part p ''clients''; rpc = rpcOf p ''clients'';
       mode = textOr (jget status ''access_edge_mode'') ''off''; evidence = edgeEvidence clients in
     if \<not> nssPlatform status
     then edgeCard Neutral (Tr ''not applicable'') (Tr ''x86 TC-BPF'') (Tr ''no access edge in the x86 build'') (Tr ''left out'') (Some 0)
     else if mode = ''off''
     then edgeCard Neutral (Tr ''off'') (Tr ''takes no part'') (Tr ''the access edge is switched off'') (Tr ''mode off'') (Some 0)
     else if \<not> plainObject evidence
     then edgeCard (if rsState rpc = RpcFailed then Bad else Warning)
       (if isLoading rpc then Tr ''checking'' else Tr ''waiting for samples'') (Tr ''...'')
       (Tr ''no evidence of access points received yet'')
       (if mode = ''shadow'' then Tr ''background check only'' else Tr ''source of the rates'') None
     else overrule [rpc] (Tr ''clients gave no evidence of access points'') (Tr ''waiting for evidence of access points'')
       (Tr ''this round shows the old value'') (liveEdgeCard evidence (collectRateFacts clients) (currentRateUsesAccessEdge status)))"

section \<open>The classification\<close>

record map_state =
  mapAvailable :: bool
  mapLoss :: bool
  mapPressure :: bool
  mapParts :: "mtext list"
  mapDetails :: "mtext list"

definition noMaps :: map_state where
  "noMaps = \<lparr>mapAvailable = False, mapLoss = False, mapPressure = False, mapParts = [], mapDetails = []\<rparr>"

definition addMap :: "jval \<Rightarrow> string \<times> mtext \<Rightarrow> map_state \<Rightarrow> map_state" where
  "addMap maps kl r = (let item = jget maps (fst kl); label = snd kl;
       shown = (\<lambda>v. case finiteNumber v of None \<Rightarrow> Lit ''-'' | Some q \<Rightarrow> roundT q);
       entry = Cat [label, Lit '' '', shown (jget item ''entries'')]
     in if \<not> plainObject item then r
        else r\<lparr>mapAvailable := True,
          mapLoss := (mapLoss r \<or> jget item ''map_loss'' = JBool True \<or> jget item ''current_truncated'' = JBool True),
          mapPressure := (mapPressure r \<or> jget item ''pressure'' = JBool True \<or> jget item ''truncated'' = JBool True),
          mapParts := mapParts r @ [entry],
          mapDetails := mapDetails r @ [Cat [entry, Lit ''/'', shown (jget item ''capacity'')]]\<rparr>)"

definition classifierMapState :: "jval \<Rightarrow> map_state" where
  "classifierMapState clients = (let maps = jfield (jfield clients ''evidence'') ''classifier_maps'' in
     if \<not> plainObject maps then noMaps
     else foldl (\<lambda>r kl. addMap maps kl r) noMaps [(''ecm_nss'', Tr ''NSS''), (''tc_bpf'', Tr ''CPU'')])"

text \<open>The fields \<open>text\<close> and \<open>detailText\<close> of the result.\<close>

definition partsText :: "mtext list \<Rightarrow> mtext" where
  "partsText ts = (if ts = [] then Lit ''-'' else joinText dot ts)"

record class_facts =
  cfCounts :: counts
  cfClassified :: nat
  cfTx :: "rat list"
  cfRx :: "rat list"
  cfComparable :: nat
  cfAligned :: nat
  cfWifi :: nat
  cfMismatch :: nat
  cfWindow :: "rat option"
  cfComparison :: "rat option"

definition noClasses :: class_facts where
  "noClasses = \<lparr>cfCounts = [], cfClassified = 0, cfTx = [], cfRx = [], cfComparable = 0, cfAligned = 0, cfWifi = 0,
     cfMismatch = 0, cfWindow = None, cfComparison = None\<rparr>"

definition classState :: "jval \<Rightarrow> string" where
  "classState c = (if plainObject c then textOr (jget c ''state'') ''unavailable'' else ''unavailable'')"

text \<open>A direction whose bytes can be compared, and whether its classification is aligned.\<close>

definition comparableDirection :: "jval \<Rightarrow> bool" where
  "comparableDirection d = (textOr (jget d ''source'') [] = ''edge_port'' \<and>
     (textOr (jget d ''byte_domain'') [] = ''l2_no_fcs'' \<or> textOr (jget d ''byte_domain'') [] = ''l2_with_fcs''))"

definition wifiDirection :: "jval \<Rightarrow> bool" where
  "wifiDirection d = (textOr (jget d ''source'') [] = ''edge_wifi'' \<or> textOr (jget d ''byte_domain'') [] = ''station_data'')"

definition directionState :: "jval \<Rightarrow> string \<Rightarrow> string" where
  "directionState c name = toStr (jor (jget c (name @ ''_state'')) (JStr (classState c)))"

definition directionAligned :: "jval \<Rightarrow> string \<Rightarrow> bool" where
  "directionAligned c name = (directionState c name = ''aligned'' \<or>
     \<not> truthy (jget c (name @ ''_state'')) \<and> classState c = ''counter_skew'' \<and>
       finiteNumber (jget c (name @ ''_coverage_pct'')) \<noteq> None)"

definition addClass :: "jval \<Rightarrow> string \<Rightarrow> class_facts \<Rightarrow> class_facts" where
  "addClass meta name f = (let d = jfield meta name; c = jfield meta ''classification'' in
     if \<not> plainObject d then f
     else if wifiDirection d then f\<lparr>cfWifi := cfWifi f + 1\<rparr>
     else if \<not> comparableDirection d then f
     else (let f1 = f\<lparr>cfComparable := cfComparable f + 1\<rparr>; coverage = finiteNumber (jget c (name @ ''_coverage_pct'')) in
       if \<not> plainObject c then f1
       else if directionAligned c name then (case coverage of
           None \<Rightarrow> f1\<lparr>cfAligned := cfAligned f + 1\<rparr>
         | Some q \<Rightarrow> if name = ''tx'' then f1\<lparr>cfAligned := cfAligned f + 1, cfTx := cfTx f @ [q]\<rparr>
             else f1\<lparr>cfAligned := cfAligned f + 1, cfRx := cfRx f @ [q]\<rparr>)
       else if directionState c name = ''domain_mismatch'' then f1\<lparr>cfMismatch := cfMismatch f + 1\<rparr>
       else f1))"

definition laterOf :: "rat option \<Rightarrow> rat option \<Rightarrow> rat option" where
  "laterOf a b = (case b of None \<Rightarrow> a | Some y \<Rightarrow> (case a of None \<Rightarrow> Some y | Some x \<Rightarrow> Some (max x y)))"

definition addClassified :: "jval \<Rightarrow> class_facts \<Rightarrow> class_facts" where
  "addClassified client f = (let meta = jfield client ''rate_meta''; c = jfield meta ''classification'';
       f1 = (if plainObject c then f\<lparr>cfClassified := cfClassified f + 1, cfCounts := addCount (classState c) 1 (cfCounts f)\<rparr> else f);
       f2 = addClass meta ''rx'' (addClass meta ''tx'' f1)
     in if \<not> plainObject c then f2
        else f2\<lparr>cfWindow := laterOf (cfWindow f2) (finiteNumber (jget c ''window_ms'')),
                cfComparison := laterOf (cfComparison f2) (finiteNumber (jget c ''comparison_window_ms''))\<rparr>)"

definition minimumNumber :: "rat list \<Rightarrow> rat option" where
  "minimumNumber qs = (if qs = [] then None else Some (Min (set qs)))"

record class_card = card +
  clFacts :: class_facts
  clCounts :: counts
  clTotal :: nat
  clTxMin :: "rat option"
  clRxMin :: "rat option"
  clStateText :: mtext
  clCoverageText :: mtext
  clVerificationText :: mtext
  clMaps :: map_state

definition missingClients :: "jval list \<Rightarrow> class_facts \<Rightarrow> nat" where
  "missingClients items f = length items - cfClassified f"

definition allCounts :: "jval list \<Rightarrow> class_facts \<Rightarrow> counts" where
  "allCounts items f = (if missingClients items f = 0 then cfCounts f
     else addCount ''unavailable'' (missingClients items f) (cfCounts f))"

definition classPending :: "jval list \<Rightarrow> class_facts \<Rightarrow> bool" where
  "classPending items f = (missingClients items f \<noteq> 0 \<or> cfMismatch f \<noteq> 0 \<or>
     list_ex (\<lambda>k. countOf (allCounts items f) k \<noteq> 0) [''warmup'', ''partial'', ''stale'', ''window_mismatch'', ''unavailable''])"

text \<open>State and badge of the classification before the RPC is looked at.\<close>

definition classVerdict :: "jval list \<Rightarrow> class_facts \<Rightarrow> map_state \<Rightarrow> health \<times> mtext" where
  "classVerdict items f maps = (let pending = classPending items f;
       complete = (items \<noteq> [] \<and> cfClassified f = length items \<and> \<not> pending);
       st = (if cfClassified f = 0 \<or> pending then Warning else Good);
       badge = (if cfClassified f = 0 then Tr ''waiting for classes'' else if complete then Tr ''working'' else Tr ''settling'')
     in if mapLoss maps \<or> countOf (allCounts items f) ''map_loss'' \<noteq> 0 then (Bad, Tr ''map loss'')
        else if mapPressure maps then (worseState st Warning, Tr ''map pressure'')
        else if \<not> mapAvailable maps then (worseState st Warning, Tr ''maps unconfirmed'')
        else (st, badge))"

definition plural :: "nat \<Rightarrow> mtext \<Rightarrow> mtext \<Rightarrow> mtext" where
  "plural n descr extra = (if n = 0 then descr else andThen descr extra)"

definition classDescription :: "jval list \<Rightarrow> class_facts \<Rightarrow> map_state \<Rightarrow> mtext" where
  "classDescription items f maps = (let
       d1 = (if cfClassified f = 0 then Tr ''no classification per client received yet'' else Tr ''classes are not added to the rates'');
       d2 = plural (missingClients items f) d1 (Fmt ''%d clients have no window yet'' [natT (missingClients items f)]);
       d3 = plural (cfWifi f) d2 (Tr ''Wi-Fi is observed only'');
       d4 = plural (cfMismatch f) d3 (Tr ''wired byte domains differ'')
     in if mapLoss maps then Tr ''the maps were not read completely''
        else if \<not> mapAvailable maps then andThen d4 (Tr ''no evidence of the capacity of the maps'') else d4)"

definition classificationStateWithRpc :: "page \<Rightarrow> class_card" where
  "classificationStateWithRpc p = (
     if \<not> nssPlatform (part p ''status'')
     then \<lparr>cdState = Neutral, cdBadge = Tr ''not applicable'', cdValue = Tr ''x86 TC-BPF'',
       cdText = Tr ''no NSS/CPU classification in the x86 build'', cdMeta = Tr ''left out'', clFacts = noClasses, clCounts = [], clTotal = 0,
       clTxMin = None, clRxMin = None, clStateText = Lit ''-'', clCoverageText = Lit ''-'', clVerificationText = Lit ''-'',
       clMaps = classifierMapState (JObj [])\<rparr>
     else (let clients = part p ''clients''; items = asArray (jget clients ''clients''); maps = classifierMapState clients;
         f = foldl (\<lambda>f c. addClassified c f) noClasses items; verdict = classVerdict items f maps;
         least = (\<lambda>qs. if mapLoss maps \<or> \<not> mapAvailable maps then None else minimumNumber qs);
         share = (\<lambda>fmt q. case q of None \<Rightarrow> [] | Some x \<Rightarrow> [Fmt fmt [formatPercent (num x)]]);
         verified = (if cfComparable f = 0 then [] else [Fmt ''wired: %d/%d directions checked'' [natT (cfAligned f), natT (cfComparable f)]]) @
           (if cfWifi f = 0 then [] else [Fmt ''Wi-Fi: %d directions observed'' [natT (cfWifi f)]])
       in overrule [rpcOf p ''clients''] (Tr ''clients gave no classification'') (Tr ''waiting for the classification'')
         (Tr ''this round shows the old value'')
         \<lparr>cdState = fst verdict, cdBadge = snd verdict,
          cdValue = (if items = [] then Tr ''no classification window yet''
            else Fmt ''%d/%d clients classified'' [natT (cfClassified f), natT (length items)]),
          cdText = classDescription items f maps,
          cdMeta = Fmt ''window %s, comparison %s'' [formatDuration (jnumber (cfWindow f)), formatDuration (jnumber (cfComparison f))],
          clFacts = f, clCounts = allCounts items f, clTotal = length items, clTxMin = least (cfTx f), clRxMin = least (cfRx f),
          clStateText = countSummary (allCounts items f) CLASSIFICATION_STATE_LABELS
            [''aligned'', ''domain_mismatch'', ''counter_skew'', ''window_mismatch'', ''partial'', ''warmup'', ''stale'', ''map_loss'', ''unavailable''],
          clCoverageText = partsText (share ''up at least %s'' (least (cfTx f)) @ share ''down at least %s'' (least (cfRx f))),
          clVerificationText = (if verified = [] then Tr ''no direction to check'' else joinText dot verified),
          clMaps = maps\<rparr>))"

section \<open>The client control on NSS\<close>

record control_card = card +
  ncConfigured :: jnum
  ncActive :: jnum
  ncEffective :: jnum
  ncPending :: jnum
  ncErrors :: jnum
  ncOverflow :: jnum
  ncLimited :: jnum
  ncDisabled :: jnum
  ncBlocked :: jnum
  ncRequired :: jnum
  ncVerified :: jnum
  ncNss :: jnum
  ncCpu :: jnum
  ncReason :: "string option"
  ncDetail :: "string option"
  ncShaping :: bool
  ncBlocking :: bool

definition controlNumber :: "jval \<Rightarrow> string \<Rightarrow> jnum" where
  "controlNumber evidence n = numOr (jget evidence n) (Fin 0)"

definition controlCard :: "health \<Rightarrow> mtext \<Rightarrow> mtext \<Rightarrow> mtext \<Rightarrow> mtext \<Rightarrow> jval \<Rightarrow> string option \<Rightarrow> string option \<Rightarrow> control_card" where
  "controlCard st badge v descr meta e reason detail = \<lparr>cdState = st, cdBadge = badge, cdValue = v, cdText = descr, cdMeta = meta,
     ncConfigured = controlNumber e ''configured_clients'', ncActive = controlNumber e ''active_clients'',
     ncEffective = controlNumber e ''effective_clients'', ncPending = controlNumber e ''pending_clients'',
     ncErrors = controlNumber e ''error_clients'', ncOverflow = controlNumber e ''queue_overflow_clients'',
     ncLimited = controlNumber e ''rate_limited_clients'', ncDisabled = controlNumber e ''internet_disabled_clients'',
     ncBlocked = controlNumber e ''block_active_clients'', ncRequired = controlNumber e ''required_directions'',
     ncVerified = controlNumber e ''verified_directions'', ncNss = controlNumber e ''nss_verified_directions'',
     ncCpu = controlNumber e ''cpu_verified_directions'', ncReason = reason, ncDetail = detail,
     ncShaping = (jget e ''shaping_supported'' = JBool True), ncBlocking = (jget e ''blocking_supported'' = JBool True)\<rparr>"

definition codeOf :: "jval \<Rightarrow> string option" where
  "codeOf v = (if v = JNull then None else Some (textOr v []))"

definition controlVerdict :: "string \<Rightarrow> health" where
  "controlVerdict raw = (if raw = ''verified'' then Good else if raw = ''error'' \<or> raw = ''unavailable'' then Bad
     else if raw = ''inactive'' then Neutral else Warning)"

definition CONTROL_BADGES :: "(string \<times> mtext) list" where
  "CONTROL_BADGES = [(''verified'', Tr ''verified''), (''error'', Tr ''failed''), (''unavailable'', Tr ''unavailable''),
     (''inactive'', Tr ''not in use''), (''pending'', Tr ''waiting for verification'')]"

text \<open>Here the retained value is looked at before a failed RPC; the two exclude each other.\<close>

definition nssControlStateWithRpc :: "page \<Rightarrow> control_card" where
  "nssControlStateWithRpc p = (let clients = part p ''clients''; rpc = rpcOf p ''clients'';
       e = jfield (jget clients ''evidence'') ''nss_control''
     in if \<not> nssPlatform (part p ''status'')
        then controlCard Neutral (Tr ''not applicable'') (Tr ''x86 client control'') (Tr ''no NSS control in the x86 build'') (Tr ''left out'')
          (JObj []) None None
        else if \<not> plainObject e
        then controlCard (if noAnswer rpc then Bad else Warning) (if isLoading rpc then Tr ''checking'' else Tr ''no evidence'')
          (Tr ''not confirmed'') (Tr ''no summary of the client control received yet'') (Tr ''waiting for the control evidence'')
          (JObj []) (Some ''nss_control_diagnostics_unavailable'') None
        else (let raw = textOr (jget e ''state'') ''unavailable''; configured = controlNumber e ''configured_clients'';
            some = truthy (JNum configured);
            c = controlCard (controlVerdict raw) (labelOr CONTROL_BADGES raw (Tr ''unknown''))
              (if some then Fmt ''%d/%d active clients in effect'' [NumT (controlNumber e ''effective_clients''), NumT (controlNumber e ''active_clients'')]
               else Tr ''no control rules'')
              (if raw = ''verified'' then Tr ''queues, classifiers and traffic of all controlled clients are verified''
               else if raw = ''inactive'' then (if some then Tr ''rules are saved, no client to verify is online''
                 else Tr ''no limits or blocks are configured'')
               else if raw = ''pending'' then Tr ''waiting for proof of the path and of counters''
               else Tr ''the executor is incomplete or failed'')
              (Fmt ''%d/%d limited directions verified, NSS %d, CPU %d'' [NumT (controlNumber e ''verified_directions''),
                NumT (controlNumber e ''required_directions''), NumT (controlNumber e ''nss_verified_directions''),
                NumT (controlNumber e ''cpu_verified_directions'')])
              e (codeOf (jget e ''reason_code'')) (codeOf (jget e ''detail_code''))
          in if isRetained rpc
             then c\<lparr>cdState := worseState (cdState c) Warning, cdBadge := Tr ''old value'',
               cdText := andThen (cdText c) (Tr ''showing the last successful result'')\<rparr>
             else if isLoading rpc then c\<lparr>cdState := Warning, cdBadge := Tr ''checking''\<rparr>
             else if noAnswer rpc
             then c\<lparr>cdState := Bad, cdBadge := Tr ''unavailable'', cdText := Tr ''clients gave no verifiable control state''\<rparr>
             else c))"

section \<open>Integrity\<close>

record integrity_card = card +
  inReasons :: "string list"
  inReasonText :: mtext
  inFacts :: rate_facts

definition integrityReasons :: "jval \<Rightarrow> rate_facts \<Rightarrow> string list" where
  "integrityReasons evidence f = foldl (\<lambda>rs v. addReason v rs) [] (asArray (jget evidence ''reason_codes'') @ map JStr (rfReasons f))"

definition integrityStateWithRpc :: "page \<Rightarrow> integrity_card" where
  "integrityStateWithRpc p = (let clients = part p ''clients''; f = collectRateFacts clients;
       reasons = integrityReasons (jor (edgeEvidence clients) (JObj [])) f;
       st = (if rfUnavailable f \<noteq> 0 then Bad else if rfFallback f \<noteq> 0 \<or> rfStale f \<noteq> 0 \<or> reasons \<noteq> [] then Warning else Good)
     in overrule [rpcOf p ''clients''] (Tr ''clients failed, the limits cannot be verified'') (Tr ''collecting the limits'')
       (Tr ''this round shows the old value'')
       \<lparr>cdState = st, cdBadge = (if st = Bad then Tr ''gaps'' else if st = Warning then Tr ''needs attention'' else Tr ''normal''),
        cdValue = (if reasons = [] then Tr ''no unexplained gap'' else Fmt ''%d limits'' [natT (length reasons)]),
        cdText = andThen (if reasons = [] then Tr ''nothing to explain'' else Cat [reasonList (take 3 reasons), Tr ''.''])
          (Tr ''unclassified traffic is computed within one window and byte domain only''),
        cdMeta = Fmt ''fallback %d, unavailable %d, stale %d'' [natT (rfFallback f), natT (rfUnavailable f), natT (rfStale f)],
        inReasons = reasons, inReasonText = (if reasons = [] then Tr ''none'' else reasonList reasons), inFacts = f\<rparr>)"

section \<open>The diagnostics contract\<close>

record contract_state =
  ctUsable :: bool
  ctValid :: bool
  ctState :: rpc_phase
  ctRetained :: bool
  ctRpcRetained :: bool
  ctPayloadRetained :: bool
  ctAge :: "int option"
  ctData :: jval

definition contractOf :: "(string \<rightharpoonup> resource) \<Rightarrow> (string \<rightharpoonup> rpc_summary) \<Rightarrow> jval \<Rightarrow> contract_state" where
  "contractOf ress rps v = (let rpc = rpcState ress rps ''diagnostics'';
       valid = (case validateDiagnosticsContract v of Accepted _ \<Rightarrow> True | _ \<Rightarrow> False);
       usable = (valid \<and> (rsOk rpc \<or> rsRetained rpc));
       payload = (usable \<and> jfield (jget v ''collection'') ''retained'' = JBool True)
     in \<lparr>ctUsable = usable, ctValid = valid, ctState = (if \<not> valid \<and> rsState rpc = RpcSuccess then RpcInvalid else rsState rpc),
         ctRetained = (rsRetained rpc \<or> payload), ctRpcRetained = rsRetained rpc, ctPayloadRetained = payload,
         ctAge = (case ress ''diagnostics'' of Some r \<Rightarrow> ageMs r | None \<Rightarrow> None), ctData = (if usable then v else JNull)\<rparr>)"

definition diagnosticsContractState :: "page \<Rightarrow> contract_state" where
  "diagnosticsContractState p = contractOf (resources p) (rpcs p) (pageValues p ''diagnostics'')"

text \<open>A numeric field of the contract; the validator has seen to it that it is a number.\<close>

definition numberIn :: "jval \<Rightarrow> string \<Rightarrow> rat" where
  "numberIn v k = (case jget v k of JNum (Fin q) \<Rightarrow> q | _ \<Rightarrow> 0)"

section \<open>Freshness\<close>

record fresh_card = card +
  fcOldest :: "rat option"
  fcClock :: "clock + jval"
  fcRetained :: "string list"

definition softened :: "contract_state \<Rightarrow> health \<Rightarrow> health" where
  "softened contract st = (if ctRetained contract \<and> st = Good then Warning else st)"

definition freshnessFromContract :: "page \<Rightarrow> fresh_card option" where
  "freshnessFromContract p = (let contract = diagnosticsContractState p; collection = jget (ctData contract) ''collection'';
       state = jget collection ''state''; retained = ctRetained contract;
       transport = (if ctRpcRetained contract then (case ctAge contract of Some a \<Rightarrow> of_int a | None \<Rightarrow> 0) else 0);
       age = (if jget collection ''age_ms'' = JNull then None else Some (numberIn collection ''age_ms'' + max 0 transport));
       st = softened contract (if state = JStr ''fresh'' then Good else if state = JStr ''unavailable'' then Bad else Warning);
       descr = (if state = JStr ''fresh'' then Tr ''the collection ended within its period''
         else if state = JStr ''stale'' then Tr ''the last success is older than the period''
         else if state = JStr ''degraded'' then Tr ''the collection was degraded'' else Tr ''no result of the collection'')
     in if \<not> ctUsable contract then None
        else Some \<lparr>cdState = st, cdBadge = (if st = Good then Tr ''fresh'' else if st = Warning
            then (if retained then Tr ''old value'' else if state = JStr ''stale'' then Tr ''stale'' else Tr ''degraded'')
            else Tr ''unavailable''),
          cdValue = formatDuration (jnumber age),
          cdText = (if retained then andThen descr (Tr ''showing the last successful result'') else descr),
          cdMeta = Fmt ''generation %d, period %s'' [NumT (toNum (jget collection ''generation'')),
            formatDuration (jget collection ''refresh_interval_ms'')],
          fcOldest = age, fcClock = Inr (jget collection ''last_success_ms''),
          fcRetained = (if retained then [''diagnostics''] else [])\<rparr>)"

definition contractCollectionState :: "page \<Rightarrow> fresh_card option" where
  "contractCollectionState p = freshnessFromContract p"

definition sampleAges :: "page \<Rightarrow> rat list" where
  "sampleAges p = (let clk = sampleClock (pageValues p);
       seen = (\<lambda>k. case observation p of Some c \<Rightarrow> if clockOf c k \<noteq> 0 then clockOf c k else clockOf clk k | None \<Rightarrow> clockOf clk k)
     in List.map_filter (\<lambda>k. if clockOverall clk \<noteq> 0 \<and> seen k \<noteq> 0 then Some (clockOverall clk - seen k) else None)
       [''interfaces'', ''clients'', ''overview''])"

definition freshnessState :: "page \<Rightarrow> progress option \<Rightarrow> fresh_card" where
  "freshnessState p pr = (case freshnessFromContract p of Some c \<Rightarrow> c
   | None \<Rightarrow> (let refresh = nmax (Fin 500) (numOr (jfield (pageValues p ''status'') ''refresh_interval_ms'') (Fin 1000));
         ages = sampleAges p; oldest = (if ages = [] then None else Some (Max (set ages)));
         isChecked = (case pr of Some q \<Rightarrow> checked q | None \<Rightarrow> False);
         loading = isLoading (rpcOf p ''diagnostics'');
         st = (if loading then Warning
           else if oldest = None \<or> \<not> isChecked then Warning
           else if progressStale (the pr) then Bad
           else if nlt (nscale 5 refresh) (Fin (the oldest)) then Bad
           else if nlt (nscale (5 / 2) refresh) (Fin (the oldest)) \<or> lagging (the pr) then Warning else Good)
       in \<lparr>cdState = st, cdBadge = (if st = Good then Tr ''fresh'' else if st = Bad then Tr ''stopped'' else Tr ''to be checked again''),
           cdValue = formatDuration (jnumber oldest),
           cdText = (if loading then Tr ''waiting for the freshness'' else if oldest = None then Tr ''not enough sample clocks''
             else if \<not> isChecked then Tr ''check again to see whether the clocks advance''
             else if st = Good then Tr ''the sample clocks advance'' else Tr ''some sample clocks do not advance''),
           cdMeta = Fmt ''period %s'' [formatDuration (JNum refresh)],
           fcOldest = oldest, fcClock = Inl (sampleClock (pageValues p)), fcRetained = []\<rparr>))"

section \<open>The data path\<close>

record path_card = card +
  pcRate :: string
  pcConnection :: string
  pcRateLabel :: mtext
  pcConnectionLabel :: mtext
  pcRateKnown :: bool
  pcConnectionKnown :: bool
  pcConfiguredRate :: jval
  pcConfiguredConnection :: jval
  pcRateReason :: jval
  pcConnectionReason :: jval
  pcClassifier :: "(string \<times> mtext) option"

definition pathCard :: "health \<Rightarrow> mtext \<Rightarrow> mtext \<Rightarrow> string \<Rightarrow> string \<Rightarrow> jval \<Rightarrow> jval \<Rightarrow> jval \<Rightarrow> jval \<Rightarrow> path_card" where
  "pathCard st descr meta rate connection rateMode connectionMode rateReason connectionReason = (
     let label = (\<lambda>k. collectorDisplayLabel (JStr k)) in
     \<lparr>cdState = st, cdBadge = (if st = Good then Tr ''determined'' else if st = Bad then Tr ''unavailable'' else Tr ''degraded''),
      cdValue = Cat [label rate, Lit '' / '', label connection], cdText = descr, cdMeta = meta, pcRate = rate, pcConnection = connection,
      pcRateLabel = label rate, pcConnectionLabel = label connection, pcRateKnown = knownCollector (JStr rate),
      pcConnectionKnown = knownCollector (JStr connection), pcConfiguredRate = rateMode, pcConfiguredConnection = connectionMode,
      pcRateReason = rateReason, pcConnectionReason = connectionReason, pcClassifier = None\<rparr>)"

definition dataPathState :: "jval \<Rightarrow> jval \<Rightarrow> path_card" where
  "dataPathState s0 c0 = (let status = jor s0 (JObj []); clients = jor c0 (JObj []); evidence = collectorEvidence status;
       rate = collectorKey (jor (jfield (jget status ''evidence'') ''effective_collector'') (effectiveCollector status clients));
       connection = collectorKey (jor (jget clients ''conn_source'') (jor (jget clients ''conn_collector_mode'')
         (jor (jget evidence ''effective_connection_collector'') (jget evidence ''connection_source''))));
       unknown = (\<not> knownCollector (JStr rate) \<or> \<not> knownCollector (JStr connection));
       none = (rate = ''unsupported'' \<or> connection = ''unsupported'');
       confidence = toLowerCase (toStr (jor (jget evidence ''confidence'') (jor (jget status ''confidence'') (JStr ''unknown''))));
       st = (if none then Bad else if unknown \<or> confidence \<noteq> ''high'' then Warning else Good)
     in pathCard st (if none then Tr ''rates or connections lack a source''
           else if st = Good then Tr ''rates and connections use verifiable sources'' else Tr ''the data path is not fully confirmed'')
         (Cat [reasonText (jget evidence ''rate_reason''), dot, reasonText (jget evidence ''connection_reason'')]) rate connection
         (jor (jget status ''rate_collector_mode'') (JStr ''-'')) (jor (jget status ''conn_collector_mode'') (JStr ''-''))
         (jor (jget evidence ''rate_reason'') (JStr [])) (jor (jget evidence ''connection_reason'') (JStr [])))"

definition contractPathState :: "page \<Rightarrow> path_card option" where
  "contractPathState p = (let contract = diagnosticsContractState p; path = jget (ctData contract) ''data_path'';
       rate = collectorKey (jget path ''effective_rate''); connection = collectorKey (jget path ''effective_connection'');
       none = (rate = ''unsupported'' \<or> connection = ''unsupported''); fallback = truthy (jget path ''fallback_active'');
       st = softened contract (if none then Bad else if fallback then Warning else Good); reason = jget path ''reason_code''
     in if \<not> ctUsable contract then None
        else Some (pathCard st (if none then Tr ''rates or connections lack a source''
             else if fallback then Tr ''a fallback path is in use'' else Tr ''the paths are determined'')
           (Cat (reasonText reason # (if ctRetained contract then [dot, Tr ''old value''] else []))) rate connection
           (jget path ''configured_rate'') (jget path ''configured_connection'') (jor reason (JStr [])) (jor reason (JStr []))))"

definition periodNote :: "page \<Rightarrow> path_card \<Rightarrow> path_card" where
  "periodNote p c = (let status = pageValues p ''status''; clients = pageValues p ''clients'';
       interval = finiteNumber (jget (collectorEvidence status) ''effective_interval_ms'');
       ecm = jor (jfield (jfield clients ''evidence'') ''ecm_bpf'') (JObj []);
       own = finiteNumber (jget ecm ''collector_min_interval_ms'');
       nss = (pcRate c = ''nss_ecm_node'' \<or> pcRate c = ''nss_ecm_bpf'')
     in if currentRateUsesAccessEdge status
        then (let label = collectorDisplayLabel (JStr ''access_edge''); old = collectorDisplayLabel (JStr (pcRate c)) in
          c\<lparr>pcClassifier := Some (pcRate c, old), pcRate := ''access_edge'', pcRateLabel := label,
            cdValue := Cat [label, Lit '' / '', pcConnectionLabel c],
            cdText := Fmt ''rates come from the access edge, %s only classifies'' [old],
            cdMeta := Fmt ''rates every second, classes every %s'' [formatDuration (if own = None \<and> nss then num 2000 else jnumber own)]\<rparr>)
        else if nss \<and> (case interval of Some q \<Rightarrow> q \<ge> 500 | None \<Rightarrow> False)
        then c\<lparr>cdMeta := Cat [cdMeta c, dot, Fmt ''data every %s'' [formatDuration (jnumber interval)]]\<rparr>
        else c)"

definition isEmptyAnswer :: "rpc_state \<Rightarrow> bool" where
  "isEmptyAnswer st \<longleftrightarrow> rsState st = RpcPhase Empty"

definition pathStateWithRpc :: "page \<Rightarrow> path_card" where
  "pathStateWithRpc p = (let base = (case contractPathState p of Some c \<Rightarrow> c
         | None \<Rightarrow> dataPathState (pageValues p ''status'') (pageValues p ''clients''));
       c = periodNote p base; clients = rpcOf p ''clients''; all = [clients, rpcOf p ''status'', rpcOf p ''health'']
     in if list_ex noAnswer all
        then (let st = (if noAnswer clients then Bad else worseState (cdState c) Warning) in
          c\<lparr>cdState := st, cdBadge := (if st = Bad then Tr ''unavailable'' else Tr ''not fully confirmed''),
            cdText := Tr ''one or more RPCs of the path gave no verifiable result''\<rparr>)
        else if list_ex isRetained all
        then c\<lparr>cdState := worseState (cdState c) Warning, cdBadge := Tr ''old value'', cdText := andThen (cdText c) (Tr ''parts are old'')\<rparr>
        else if isEmptyAnswer clients
        then c\<lparr>cdState := worseState (cdState c) Warning, cdBadge := Tr ''not fully confirmed'', cdText := Tr ''no client to cross-check the path''\<rparr>
        else if list_ex isLoading all
        then c\<lparr>cdState := Warning, cdBadge := Tr ''checking'', cdText := Tr ''waiting for the RPCs of the path''\<rparr>
        else c)"

section \<open>Connections\<close>

record connection_card = card +
  kcSource :: jval
  kcSeen :: "rat option"
  kcMatched :: "rat option"
  kcShare :: "rat option"
  kcErrors :: rat
  kcReason :: "string option"

definition conntrackFailed :: "jval \<Rightarrow> string option" where
  "conntrackFailed clients = (
     if jfield (jfield (jget clients ''evidence'') ''details'') ''conntrack_status'' = JStr ''unavailable''
     then Some ''conntrack_read_failed'' else None)"

definition textOption :: "jval \<Rightarrow> string option" where
  "textOption v = (if truthy v then Some (toStr v) else None)"

definition diagnosticConnectionCode :: "page \<Rightarrow> string option" where
  "diagnosticConnectionCode p = (let contract = diagnosticsContractState p; d = ctData contract;
       code = (case filter (\<lambda>i. truthy i \<and> jget i ''id'' = JStr ''conntrack'') (asArray (jget d ''subsystems'')) of
         i # _ \<Rightarrow> textOption (jget i ''code'') | [] \<Rightarrow> None);
       path = jget d ''data_path''
     in if \<not> ctUsable contract then None
        else if code \<noteq> None then code
        else if conntrackFailed (part p ''clients'') \<noteq> None then conntrackFailed (part p ''clients'')
        else if jget path ''effective_connection'' = JStr ''unsupported'' then textOption (jget path ''reason_code'') else None)"

definition countsText :: "string \<Rightarrow> rat option \<Rightarrow> rat option \<Rightarrow> rat list \<Rightarrow> mtext \<Rightarrow> mtext" where
  "countsText fmt seen matched errors otherwise = (case (seen, matched) of
     (Some a, Some b) \<Rightarrow> Fmt fmt (NumT (Fin b) # NumT (Fin a) # map (\<lambda>e. NumT (Fin e)) errors) | _ \<Rightarrow> otherwise)"

definition healthBadge :: "health \<Rightarrow> mtext" where
  "healthBadge st = (if st = Good then Tr ''normal'' else if st = Bad then Tr ''unavailable'' else Tr ''needs attention'')"

definition connectionState :: "jval \<Rightarrow> jval \<Rightarrow> connection_card" where
  "connectionState c0 s0 = (let clients = jor c0 (JObj []); status = jor s0 (JObj []);
       source = jor (jget clients ''conn_source'') (jor (jget clients ''conn_collector_mode'') (JStr []));
       seen = finiteNumber (jget clients ''conntrack_entries_seen''); matched = finiteNumber (jget clients ''conntrack_entries_matched'');
       errors = max 0 (case finiteNumber (jget clients ''conntrack_parse_errors'') of Some q \<Rightarrow> q | None \<Rightarrow> 0);
       none = (\<not> truthy source \<or> source = JStr ''unsupported'');
       more = (case (seen, matched) of (Some a, Some b) \<Rightarrow> b > a | _ \<Rightarrow> False);
       share = (case (seen, matched) of (Some a, Some b) \<Rightarrow> if a > 0 \<and> b \<le> a then Some (b * 100 / a) else None | _ \<Rightarrow> None);
       st0 = (if none then Bad else if \<not> knownCollector source then Warning else Good);
       st = (if more then Bad else if errors > 10 then Bad
         else if errors \<noteq> 0 \<or> (case share of Some q \<Rightarrow> q < 70 | None \<Rightarrow> False) \<or> seen = None \<or> matched = None then Warning else st0);
       reason = (if none then (case textOption (jget (collectorEvidence status) ''connection_reason'') of
           Some c \<Rightarrow> Some c | None \<Rightarrow> conntrackFailed clients) else None)
     in \<lparr>cdState = st, cdBadge = healthBadge st, cdValue = (if truthy source then collectorDisplayLabel source else Lit ''-''),
         cdText = countsText ''%d / %d matched, %d parse errors'' seen matched [errors]
           (case reason of Some c \<Rightarrow> reasonText (JStr c) | None \<Rightarrow> Tr ''incomplete connection statistics''),
         cdMeta = Fmt ''TCP %d, UDP %d'' [NumT (nmax (Fin 0) (numOr (jget clients ''tcp_conns_total'') (Fin 0))),
           NumT (nmax (Fin 0) (numOr (jget clients ''udp_conns_total'') (Fin 0)))],
         kcSource = source, kcSeen = seen, kcMatched = matched, kcShare = share, kcErrors = errors, kcReason = reason\<rparr>)"

definition contractConnectionState :: "page \<Rightarrow> connection_card option" where
  "contractConnectionState p = (let contract = diagnosticsContractState p; k = jget (ctData contract) ''connection'';
       seen = finiteNumber (jget k ''entries_seen''); matched = finiteNumber (jget k ''entries_matched'');
       st = softened contract (if jget k ''state'' = JStr ''healthy'' then Good else if jget k ''state'' = JStr ''degraded'' then Warning else Bad);
       reason = diagnosticConnectionCode p; errors = numberIn k ''parse_errors''
     in if \<not> ctUsable contract then None
        else Some \<lparr>cdState = st, cdBadge = healthBadge st,
          cdValue = (if truthy (jget k ''source'') then collectorDisplayLabel (jget k ''source'') else Lit ''-''),
          cdText = countsText ''%d / %d matched'' seen matched [] (case reason of Some c \<Rightarrow> reasonText (JStr c)
            | None \<Rightarrow> Tr ''the daemon returned no connection statistics''),
          cdMeta = (if errors \<noteq> 0 then Fmt ''%d parse errors'' [NumT (Fin errors)] else Tr ''diagnostics contract''),
          kcSource = jor (jget k ''source'') (JStr []), kcSeen = seen, kcMatched = matched,
          kcShare = (case (seen, matched) of (Some a, Some b) \<Rightarrow> if a > 0 then Some (b * 100 / a) else None | _ \<Rightarrow> None),
          kcErrors = errors, kcReason = reason\<rparr>)"

definition connectionStateWithRpc :: "page \<Rightarrow> connection_card" where
  "connectionStateWithRpc p = (let rpc = rpcOf p ''clients'';
       c = (case contractConnectionState p of Some c \<Rightarrow> c
         | None \<Rightarrow> connectionState (pageValues p ''clients'') (pageValues p ''status''))
     in if noAnswer rpc then c\<lparr>cdState := Bad, cdBadge := Tr ''unavailable'', cdText := Tr ''clients gave no verifiable result''\<rparr>
        else if isRetained rpc
        then c\<lparr>cdState := worseState (cdState c) Warning, cdBadge := Tr ''old value'', cdText := andThen (cdText c) (Tr ''clients failed this time'')\<rparr>
        else if isEmptyAnswer rpc
        then c\<lparr>cdState := worseState (cdState c) Warning, cdBadge := Tr ''no client data'', cdText := Tr ''no client to cross-check with''\<rparr>
        else if isLoading rpc then c\<lparr>cdState := Warning, cdBadge := Tr ''checking'', cdText := Tr ''waiting for clients''\<rparr>
        else c)"

section \<open>Interfaces\<close>

record iface_card = card +
  icItems :: "jval list"
  icAvailable :: rat
  icPending :: rat
  icBad :: rat
  icExcluded :: rat
  icUnknown :: rat
  icTotal :: rat

datatype iface_class = Available | Pending | Absent | Excluded | Unknown

definition classOf :: "jval \<Rightarrow> iface_class" where
  "classOf item = (let status = toStr (jor (jfield item ''status'') (JStr ''unknown'')) in
     if status = ''available'' \<or> status = ''active'' then Available
     else if status = ''pending'' then Pending
     else if status = ''missing'' \<or> status = ''unsupported'' then Absent
     else if status = ''excluded'' then Excluded else Unknown)"

definition ofClass :: "iface_class \<Rightarrow> jval list \<Rightarrow> nat" where
  "ofClass k items = length (filter (\<lambda>i. classOf i = k) items)"

definition interfaceState :: "jval \<Rightarrow> iface_card" where
  "interfaceState interfaces = (let items = asArray (jfield interfaces ''interfaces''); n = (\<lambda>k. ofClass k items);
       st = (if n Absent \<noteq> 0 then Bad
         else if items = [] \<or> n Pending \<noteq> 0 \<or> n Unknown \<noteq> 0 \<or> n Available = 0 then Warning else Good)
     in \<lparr>cdState = st,
         cdBadge = (if n Absent \<noteq> 0 then Fmt ''%d broken'' [natT (n Absent)] else if n Pending \<noteq> 0 then Fmt ''%d waiting'' [natT (n Pending)]
           else if items = [] then Tr ''no interface data'' else if n Unknown \<noteq> 0 then Fmt ''%d unknown'' [natT (n Unknown)]
           else Fmt ''%d available'' [natT (n Available)]),
         cdValue = Fmt ''%d / %d'' [natT (n Available), natT (length items)],
         cdText = (if n Absent \<noteq> 0 then Tr ''interfaces are missing or unsupported'' else if items = [] then Tr ''no interface data''
           else if n Pending \<noteq> 0 then Tr ''some interfaces wait for their first sample'' else Tr ''the interfaces were listed''),
         cdMeta = Lit [], icItems = items, icAvailable = of_nat (n Available), icPending = of_nat (n Pending), icBad = of_nat (n Absent),
         icExcluded = of_nat (n Excluded), icUnknown = of_nat (n Unknown), icTotal = of_nat (length items)\<rparr>)"

definition contractInterfaceState :: "page \<Rightarrow> iface_card \<Rightarrow> iface_card option" where
  "contractInterfaceState p fallback = (let contract = diagnosticsContractState p; sum = jget (ctData contract) ''interfaces'';
       n = numberIn sum; age = sampleAge (jfield (pageValues p ''interfaces'') ''monotonic_ms'') (jget sum ''sample_ms'');
       st = softened contract (if jget sum ''state'' = JStr ''healthy'' then Good else if jget sum ''state'' = JStr ''degraded'' then Warning else Bad)
     in if \<not> ctUsable contract then None
        else Some \<lparr>cdState = st,
          cdBadge = (if st = Good then Fmt ''%d available'' [NumT (Fin (n ''available''))]
            else if st = Bad then Tr ''interfaces unavailable'' else Tr ''interfaces degraded''),
          cdValue = Fmt ''%d / %d'' [NumT (Fin (n ''available'')), NumT (Fin (n ''total''))],
          cdText = (if n ''missing'' \<noteq> 0 then Fmt ''%d interfaces are missing'' [NumT (Fin (n ''missing''))] else Tr ''from the diagnostics contract''),
          cdMeta = (case age of None \<Rightarrow> Tr ''not sampled yet'' | Some q \<Rightarrow> Fmt ''sampled %s'' [formatDuration (num q)]),
          icItems = icItems fallback, icAvailable = n ''available'', icPending = 0, icBad = n ''missing'', icExcluded = 0, icUnknown = 0,
          icTotal = n ''total''\<rparr>)"

definition interfaceStateWithRpc :: "page \<Rightarrow> iface_card" where
  "interfaceStateWithRpc p = (let base = interfaceState (pageValues p ''interfaces'');
       c = (case contractInterfaceState p base of Some k \<Rightarrow> k | None \<Rightarrow> base); rpc = rpcOf p ''interfaces''
     in if noAnswer rpc then c\<lparr>cdState := Bad, cdBadge := Tr ''unavailable'', cdText := Tr ''interfaces gave no verifiable result''\<rparr>
        else if isRetained rpc then c\<lparr>cdState := worseState (cdState c) Warning, cdBadge := Tr ''old value''\<rparr>
        else if isEmptyAnswer rpc
        then (if icTotal c > 0 then c\<lparr>cdState := Bad, cdBadge := Tr ''inconsistent'', cdText := Tr ''the summary has interfaces, the list has none''\<rparr>
          else c\<lparr>cdState := Warning, cdBadge := Tr ''no interface data'', cdText := Tr ''no interface is configured''\<rparr>)
        else if rsOk rpc \<and> icTotal c \<noteq> of_nat (length (icItems c))
        then c\<lparr>cdState := Bad, cdBadge := Tr ''inconsistent'', cdText := Tr ''summary and list have different numbers of interfaces''\<rparr>
        else if isLoading rpc then c\<lparr>cdState := Warning, cdBadge := Tr ''checking'', cdText := Tr ''waiting for interfaces''\<rparr>
        else c)"

section \<open>Versions\<close>

definition versionState :: "jval \<Rightarrow> jval \<Rightarrow> jval \<Rightarrow> card" where
  "versionState backend frontend package = (let daemon = textOr backend []; front = textOr frontend [];
       pack = textOr package daemon; matches = (daemon \<noteq> [] \<and> daemon = front \<and> daemon = pack)
     in \<lparr>cdState = (if matches then Good else Warning), cdBadge = (if matches then Tr ''consistent'' else Tr ''inconsistent''),
         cdValue = Lit (front @ '' / '' @ daemon @ '' / '' @ pack),
         cdText = (if matches then Tr ''LuCI, package and daemon have one version'' else Tr ''LuCI, package and daemon versions differ''),
         cdMeta = Lit []\<rparr>)"

record version_card = card +
  vcContract :: "(jval \<times> jval) option"

definition contractVersionState :: "page \<Rightarrow> jval \<Rightarrow> version_card option" where
  "contractVersionState p frontend = (let contract = diagnosticsContractState p; vs = jget (ctData contract) ''versions'';
       c = card.extend (versionState (jget vs ''daemon'') frontend (jget vs ''package''))
         (version_card.fields (Some (jget vs ''contract_version'', jget vs ''schema_version'')))
     in if \<not> ctUsable contract then None
        else Some (if ctRetained contract \<and> cdState c = Good then c\<lparr>cdState := Warning, cdBadge := Tr ''old value''\<rparr> else c))"

definition versionStateWithRpc :: "page \<Rightarrow> jval \<Rightarrow> jval \<Rightarrow> version_card" where
  "versionStateWithRpc p backend frontend = (let contract = diagnosticsContractState p; rpc = rpcOf p ''status'';
       c = (case contractVersionState p frontend of Some k \<Rightarrow> k
         | None \<Rightarrow> card.extend (versionState backend frontend JUndef) (version_card.fields None))
     in if noAnswer rpc then c\<lparr>cdState := Warning, cdBadge := Tr ''to be confirmed'', cdText := Tr ''no status, the versions cannot be compared''\<rparr>
        else if isRetained rpc \<and> cdState c = Good then c\<lparr>cdState := Warning, cdBadge := Tr ''old value''\<rparr>
        else if isLoading rpc then c\<lparr>cdState := Warning, cdBadge := Tr ''checking'', cdText := Tr ''waiting for the version''\<rparr>
        else if ctUsable contract \<and> truthy backend \<and> \<not> strictEq (JStr (toStr backend)) (jget (jget (ctData contract) ''versions'') ''daemon'')
        then c\<lparr>cdState := Warning, cdBadge := Tr ''inconsistent'', cdText := Tr ''status and contract report different daemons''\<rparr>
        else c)"

section \<open>Quality\<close>

record quality_card = card +
  qcCoverage :: coverage_card
  qcFreshness :: fresh_card

definition coverageByStatus :: "rpc_state \<Rightarrow> coverage_card \<Rightarrow> coverage_card" where
  "coverageByStatus rpc c = (if noAnswer rpc then c\<lparr>cdState := Bad\<rparr>
     else if isLoading rpc then c\<lparr>cdState := Warning, cdBadge := Tr ''checking''\<rparr> else c)"

definition coverageByClients :: "rpc_state \<Rightarrow> coverage_card \<Rightarrow> coverage_card" where
  "coverageByClients rpc c = (
     if ccSource c \<noteq> ''access_edge'' then c
     else if noAnswer rpc
     then c\<lparr>cdState := Bad, cdBadge := Tr ''unavailable'', cdText := Tr ''clients gave no coverage of the precise rates''\<rparr>
     else if isLoading rpc then c\<lparr>cdState := Warning, cdBadge := Tr ''checking''\<rparr>
     else if isRetained rpc
     then c\<lparr>cdState := worseState (cdState c) Warning, cdBadge := Tr ''old value'',
       cdText := andThen (cdText c) (Tr ''showing the last successful coverage'')\<rparr>
     else c)"

definition qualityState :: "page \<Rightarrow> progress option \<Rightarrow> quality_card" where
  "qualityState p pr = (let freshness = freshnessState p pr;
       coverage = coverageByClients (rpcOf p ''clients'') (coverageByStatus (rpcOf p ''status'')
         (coverageState (pageValues p ''status'') (pageValues p ''clients'')));
       st = worseState (cdState coverage) (cdState freshness)
     in \<lparr>cdState = st, cdBadge = (if st = Bad then Tr ''abnormal'' else if st = Warning then Tr ''needs attention'' else cdBadge coverage),
         cdValue = cdValue coverage, cdText = andThen (cdText coverage) (cdText freshness),
         cdMeta = Cat [cdMeta coverage, dot, Tr ''sample age '', cdValue freshness], qcCoverage = coverage, qcFreshness = freshness\<rparr>)"

end
