(* ===== verification/DiagWarnings.thy ===== *)
theory DiagWarnings
  imports DiagCards
begin

text \<open>
  The warnings of the diagnostics page: \<open>probeFailureBundle\<close>, \<open>warningGroups\<close> and their texts in
  \<open>lanspeed/diagnosticsStates.js\<close>.
\<close>

section \<open>Probe failures\<close>

record probes =
  pbItems :: "jval list"
  pbTotal :: rat
  pbTruncated :: bool

definition probeFailureBundle :: "jval \<Rightarrow> probes" where
  "probeFailureBundle health = (let raw = jfield (jfield health ''evidence'') ''probe_failures'' in
     if isArr raw
     then \<lparr>pbItems = take MAX_PROBE_FAILURES (arrItems raw), pbTotal = of_nat (length (arrItems raw)),
       pbTruncated = (length (arrItems raw) > MAX_PROBE_FAILURES)\<rparr>
     else (let items = take MAX_PROBE_FAILURES (asArray (jget raw ''items'')); total = finiteNumber (jget raw ''total'');
             n = of_nat (length items)
       in \<lparr>pbItems = items, pbTotal = (case total of None \<Rightarrow> n | Some q \<Rightarrow> max n (of_int \<lfloor>q + 1 / 2\<rfloor>)),
           pbTruncated = (jget raw ''truncated'' = JBool True \<or> (case total of None \<Rightarrow> False | Some q \<Rightarrow> q > n))\<rparr>))"

text \<open>The four parts joined by a unit separator; \<open>join\<close> writes an absent part as nothing.\<close>

definition probeFailureKey :: "jval \<Rightarrow> string" where
  "probeFailureKey item = joinStr [char_of (31 :: nat)] (map (\<lambda>k. let v = jfield item k in if nullish v then [] else toStr v)
     [''kind'', ''source'', ''reason'', ''exit_code''])"

text \<open>The items with a new key, as long as there is room; a key is seen even when there is none.\<close>

fun mergeItems :: "string set \<Rightarrow> jval list \<Rightarrow> jval list \<Rightarrow> jval list" where
  "mergeItems seen kept [] = kept"
| "mergeItems seen kept (i # rest) = (if probeFailureKey i \<in> seen then mergeItems seen kept rest
     else mergeItems (insert (probeFailureKey i) seen)
       (if length kept < MAX_PROBE_FAILURES then kept @ [i] else kept) rest)"

definition mergeProbeFailureBundles :: "jval \<Rightarrow> jval \<Rightarrow> probes" where
  "mergeProbeFailureBundles first second = (let a = probeFailureBundle first; b = probeFailureBundle second;
       items = mergeItems {} [] (pbItems a @ pbItems b); n = of_nat (length items);
       total = max (max (pbTotal a) (pbTotal b)) n
     in \<lparr>pbItems = items, pbTotal = total, pbTruncated = (pbTruncated a \<or> pbTruncated b \<or> total > n)\<rparr>)"

definition probeFailureText :: "jval \<Rightarrow> mtext" where
  "probeFailureText f = (let failure = jor f (JObj []); word = (\<lambda>k. toLowerCase (textOr (jget failure k) [])) in
     Cat ([labelOr PROBE_KIND_REPORT_LABELS (word ''kind'') (Tr ''environment probe''), dot,
       labelOr PROBE_REASON_LABELS (word ''reason'') (Tr ''probe failed'')] @
       (case finiteNumber (jget failure ''exit_code'') of None \<Rightarrow> [] | Some q \<Rightarrow> [dot, Lit ''exit '', roundT q])))"

section \<open>Texts of failed calls\<close>

definition errorKinds :: "(string \<times> mtext \<times> string) list" where
  "errorKinds = [(''transport'', Tr ''transmission failed'', ''RPC_ERROR''), (''timeout'', Tr ''timed out'', ''TIMEOUT''),
     (''contract'', Tr ''invalid contract'', ''INVALID_CONTRACT''), (''missing'', Tr ''no result'', ''MISSING''),
     (''client'', Tr ''page failed'', ''CLIENT_ERROR'')]"

definition rpcReportErrorText :: "rpc_summary \<Rightarrow> mtext" where
  "rpcReportErrorText q = (let kind = (case sumError q of Some e \<Rightarrow> if errKind e \<in> set (map fst errorKinds) then errKind e else ''transport''
         | None \<Rightarrow> ''transport'');
       found = the (map_of errorKinds kind)
     in Cat [fst found, dot, Lit (snd found), dot,
       if (case sumError q of Some e \<Rightarrow> \<not> errRetriable e | None \<Rightarrow> False) then Tr ''cannot be retried'' else Tr ''can be retried''])"

section \<open>Warnings\<close>

datatype severity = Info | Minor | Critical

datatype source = FromStatus | FromHealth | FromConflict | FromRpc | FromDiagnostics | FromConfig | FromProbe

record warning =
  wnId :: string
  wnSource :: source
  wnSeverity :: severity
  wnText :: mtext
  wnRaw :: jval

fun severityRank :: "severity \<Rightarrow> nat" where
  "severityRank Info = 0"
| "severityRank Minor = 1"
| "severityRank Critical = 2"

definition severityOf :: "jval \<Rightarrow> severity" where
  "severityOf v = (if v = JStr ''info'' then Info else if v = JStr ''critical'' then Critical else Minor)"

definition canonicalWarningId :: "jval \<Rightarrow> string" where
  "canonicalWarningId v = (let k = textOr v [] in
     if k \<noteq> [] then toStr (jor (normalizeWarningId (JStr k)) (JStr k)) else k)"

definition emptyText :: "mtext \<Rightarrow> bool" where
  "emptyText t \<longleftrightarrow> t = Lit []"

text \<open>\<open>add\<close>: a warning already there takes the words of the diagnostics contract, or the worse severity.\<close>

definition mergeWarning :: "warning \<Rightarrow> warning \<Rightarrow> warning" where
  "mergeWarning new old = (
     if wnSource new = FromDiagnostics
     then old\<lparr>wnSource := FromDiagnostics, wnSeverity := wnSeverity new,
       wnText := (if emptyText (wnText new) then wnText old else wnText new), wnRaw := wnRaw new\<rparr>
     else if wnSource old \<noteq> FromDiagnostics \<and> severityRank (wnSeverity new) > severityRank (wnSeverity old)
     then old\<lparr>wnSeverity := wnSeverity new\<rparr> else old)"

definition publicText :: "string \<Rightarrow> mtext \<Rightarrow> mtext" where
  "publicText k t = (if hasWarning (JStr k) then warningText (JStr k) else t)"

definition addWarning :: "jval \<Rightarrow> source \<Rightarrow> severity \<Rightarrow> mtext \<Rightarrow> jval \<Rightarrow> warning list \<Rightarrow> warning list" where
  "addWarning item src sev t id0 items = (let k = canonicalWarningId id0;
       new = \<lparr>wnId = k, wnSource = src, wnSeverity = sev, wnText = publicText k t, wnRaw = item\<rparr>
     in if k \<in> wnId ` set items then map (\<lambda>w. if wnId w = k then mergeWarning new w else w) items else items @ [new])"

text \<open>\<open>id || item || source || 'unknown'\<close>\<close>

definition sourceName :: "source \<Rightarrow> string" where
  "sourceName s = (case s of FromStatus \<Rightarrow> ''status'' | FromHealth \<Rightarrow> ''health'' | FromConflict \<Rightarrow> ''conflict'' | FromRpc \<Rightarrow> ''rpc''
     | FromDiagnostics \<Rightarrow> ''diagnostics'' | FromConfig \<Rightarrow> ''config'' | FromProbe \<Rightarrow> ''probe'')"

definition add :: "jval \<Rightarrow> source \<Rightarrow> severity \<Rightarrow> mtext \<Rightarrow> jval \<Rightarrow> warning list \<Rightarrow> warning list" where
  "add item src sev t id0 items = addWarning item src sev t (jor id0 (jor item (JStr (sourceName src)))) items"

section \<open>What belongs to NSS only\<close>

text \<open>\<open>JSON.stringify\<close>; a value it leaves out is \<open>None\<close>.\<close>

definition jsonChar :: "char \<Rightarrow> string" where
  "jsonChar c = (if c = CHR 0x22 then [CHR 0x5C, CHR 0x22] else if c = CHR 0x5C then [CHR 0x5C, CHR 0x5C]
     else if code c = 8 then [CHR 0x5C, CHR ''b''] else if code c = 9 then [CHR 0x5C, CHR ''t'']
     else if code c = 10 then [CHR 0x5C, CHR ''n''] else if code c = 12 then [CHR 0x5C, CHR ''f'']
     else if code c = 13 then [CHR 0x5C, CHR ''r'']
     else if code c < 32 then CHR 0x5C # ''u00'' @ [digitChar (code c div 16), (''0123456789abcdef'' ! (code c mod 16))]
     else [c])"

definition jsonString :: "string \<Rightarrow> string" where
  "jsonString s = CHR 0x22 # concat (map jsonChar s) @ [CHR 0x22]"

fun jsonText :: "jval \<Rightarrow> string option" where
  "jsonText JUndef = None"
| "jsonText JNull = Some ''null''"
| "jsonText (JBool b) = Some (if b then ''true'' else ''false'')"
| "jsonText (JNum n) = Some (if isFinite n then numToString n else ''null'')"
| "jsonText (JStr s) = Some (jsonString s)"
| "jsonText (JArr xs) = Some (''['' @ joinStr '','' (map (\<lambda>x. case jsonText x of Some t \<Rightarrow> t | None \<Rightarrow> ''null'') xs) @ '']'')"
| "jsonText (JObj ps) = Some (CHR 0x7B # joinStr '','' (concat (map (\<lambda>(k, v). case jsonText v of None \<Rightarrow> []
     | Some t \<Rightarrow> [jsonString k @ '':'' @ t]) ps)) @ [CHR 0x7D])"
| "jsonText (JProto k) = None"

definition wordChar :: "char \<Rightarrow> bool" where
  "wordChar c \<longleftrightarrow> isDigit c \<or> isUpperAz c \<or> isLowerAz c \<or> c = CHR ''_''"

text \<open>\<open>\bword\b\<close>; the flag tells whether the character before is part of a word.\<close>

fun hasWord :: "string \<Rightarrow> bool \<Rightarrow> string \<Rightarrow> bool" where
  "hasWord w before [] = False"
| "hasWord w before (c # cs) = (\<not> before \<and> take (length w) (c # cs) = w \<and>
     (case drop (length w) (c # cs) of [] \<Rightarrow> True | d # _ \<Rightarrow> \<not> wordChar d) \<or> hasWord w (wordChar c) cs)"

definition edgeNames :: "string list" where
  "edgeNames = [''accessedge'', ''access_edge'', ''access-edge'', ''lantopology'', ''lan_topology'', ''lan-topology'',
     ''classifier'', ''classification'']"

definition nssName :: "string \<Rightarrow> bool" where
  "nssName s \<longleftrightarrow> list_ex (\<lambda>n. take (length n) s = n \<and>
     (case drop (length n) s of [] \<Rightarrow> True | d # _ \<Rightarrow> d = CHR ''_'' \<or> d = CHR '':'' \<or> d = CHR ''-'' \<or> d = CHR ''.''))
     ([''nss'', ''ecm''] @ edgeNames)"

definition nssText :: "string \<Rightarrow> bool" where
  "nssText s \<longleftrightarrow> hasWord ''nss'' False s \<or> hasWord ''ecm'' False s \<or> list_ex (\<lambda>n. sublist n s) edgeNames"

text \<open>
  A raw value that is null or empty belongs to a warning named after its source, whose fields
  hold none of these names.
\<close>

definition nssArtifact :: "string \<Rightarrow> jval \<Rightarrow> bool" where
  "nssArtifact key raw \<longleftrightarrow> nssName (toLowerCase key) \<or>
     truthy raw \<and> nssText (toLowerCase (case jsonText raw of Some t \<Rightarrow> t | None \<Rightarrow> []))"

section \<open>The groups\<close>

record groups =
  wgAll :: "warning list"
  wgCritical :: "warning list"
  wgWarnings :: "warning list"
  wgInfo :: "warning list"
  wgImportant :: "warning list"
  wgProbes :: probes
  wgAlerts :: "jval list"
  wgIssues :: "jval list"

definition sourceUsable :: "(string \<rightharpoonup> rpc_summary) \<Rightarrow> string \<Rightarrow> bool" where
  "sourceUsable rps key = (list_all (\<lambda>k. rps k = None) RPC_KEYS \<or>
     rsOk (rpcState Map.empty rps key) \<or> rsRetained (rpcState Map.empty rps key))"

definition isDanger :: "jval \<Rightarrow> bool" where
  "isDanger w = (warningClass w = ''label label-danger'')"

definition knownText :: "jval \<Rightarrow> mtext \<Rightarrow> mtext" where
  "knownText w otherwise = (if hasWarning w then warningText w else otherwise)"

definition bpfCauses :: "string list" where
  "bpfCauses = [''no_collect_interface'', ''package_missing'', ''object_missing'', ''object_load_failed'', ''tc_unavailable'',
     ''tc_unsupported'', ''tc_conflict'', ''tc_attach_failed'', ''map_read_failed'']"

text \<open>A status warning that the capabilities or the alerts of the contract make pointless.\<close>

definition suppressed :: "jval \<Rightarrow> jval list \<Rightarrow> jval \<Rightarrow> bool" where
  "suppressed status alerts w \<longleftrightarrow>
     w = JStr ''live_metrics_unavailable'' \<and> jfield (jget status ''capabilities'') ''live_metrics'' = JBool True \<or>
     w = JStr ''bpf_runtime_loader_unavailable'' \<and>
       list_ex (\<lambda>c. c \<in> (\<lambda>a. canonicalWarningId (jfield a ''id'')) ` set alerts) bpfCauses"

definition addStatus :: "jval \<Rightarrow> warning list \<Rightarrow> warning list" where
  "addStatus w items = add w FromStatus (if isDanger w then Critical else Minor) (knownText w (Tr ''an unclassified running warning'')) w items"

definition addHealth :: "jval \<Rightarrow> warning list \<Rightarrow> warning list" where
  "addHealth w items = add w FromHealth (if hasWarning w \<and> isDanger w then Critical else Minor)
     (knownText w (Tr ''an unclassified environment warning'')) w items"

definition addConflict :: "jval \<Rightarrow> warning list \<Rightarrow> warning list" where
  "addConflict c items = add c FromConflict (severityOf (jor (jfield c ''severity'') (JStr ''warning'')))
     (Lit (boundedText (jor (jfield c ''message'') (JStr [])) 480)) (jfield c ''id'') items"

text \<open>The fields of a call that are numbers are left out: they hold no name looked for.\<close>

definition phaseName :: "phase \<Rightarrow> string" where
  "phaseName ph = (case ph of Loading \<Rightarrow> ''loading'' | Success \<Rightarrow> ''success'' | Empty \<Rightarrow> ''empty'' | Stale \<Rightarrow> ''stale''
     | Degraded \<Rightarrow> ''degraded'' | Error \<Rightarrow> ''error'' | Invalid \<Rightarrow> ''invalid'')"

definition rpcJson :: "rpc_summary \<Rightarrow> jval" where
  "rpcJson q = JObj [(''ok'', JBool (sumOk q)), (''retained'', JBool (sumRetained q)), (''phase'', JStr (phaseName (sumPhase q))),
     (''error'', case sumError q of None \<Rightarrow> JNull
       | Some e \<Rightarrow> JObj [(''kind'', JStr (errKind e)), (''code'', JStr (errCode e)), (''message'', JStr (errMessage e)),
           (''category'', errCategory e), (''stage'', errStage e), (''retriable'', JBool (errRetriable e))])]"

definition addRpc :: "(string \<rightharpoonup> rpc_summary) \<Rightarrow> string \<Rightarrow> warning list \<Rightarrow> warning list" where
  "addRpc rps key items = (case rps key of None \<Rightarrow> items
     | Some q \<Rightarrow> if sumPhase q = Loading \<or> sumOk q then items
         else add (rpcJson q) FromRpc (if sumRetained q \<or> sumPhase q = Degraded \<or> sumPhase q = Stale then Minor else Critical)
           (rpcReportErrorText q) (JStr (''rpc:'' @ key)) items)"

definition addPublic :: "source \<Rightarrow> jval \<Rightarrow> warning list \<Rightarrow> warning list" where
  "addPublic src a items = add a src (severityOf (jget a ''severity'')) (Lit (toStr (jget a ''message_public''))) (jget a ''id'') items"

definition addProbe :: "jval \<Rightarrow> warning list \<Rightarrow> warning list" where
  "addProbe i items = add i FromProbe Minor (probeFailureText i) (JStr (''probe:'' @ probeFailureKey i)) items"

definition addAll :: "('a \<Rightarrow> warning list \<Rightarrow> warning list) \<Rightarrow> 'a list \<Rightarrow> warning list \<Rightarrow> warning list" where
  "addAll f xs items = foldl (\<lambda>acc x. f x acc) items xs"

definition whenUsable :: "bool \<Rightarrow> jval list \<Rightarrow> jval list" where
  "whenUsable b xs = (if b then xs else [])"

definition probesFor :: "jval \<Rightarrow> jval \<Rightarrow> (string \<rightharpoonup> rpc_summary) \<Rightarrow> probes" where
  "probesFor status health rps = mergeProbeFailureBundles (if sourceUsable rps ''status'' then status else JNull)
     (if sourceUsable rps ''health'' then health else JNull)"

definition collectWarnings :: "jval \<Rightarrow> jval \<Rightarrow> (string \<rightharpoonup> rpc_summary) \<Rightarrow> contract_state \<Rightarrow> warning list" where
  "collectWarnings status health rps contract = (let alerts = whenUsable (ctUsable contract) (asArray (jget (ctData contract) ''alerts''));
       issues = whenUsable (ctUsable contract) (asArray (jget (ctData contract) ''config_issues''));
       w1 = addAll addStatus (filter (\<lambda>w. \<not> suppressed status alerts w)
         (whenUsable (sourceUsable rps ''status'') (asArray (jget status ''warnings'')))) [];
       w2 = addAll addHealth (whenUsable (sourceUsable rps ''health'') (asArray (jget health ''warnings''))) w1;
       w3 = addAll addConflict (whenUsable (sourceUsable rps ''health'') (asArray (jget health ''conflicts''))) w2;
       w4 = addAll (addRpc rps) RPC_KEYS w3;
       w5 = addAll (addPublic FromConfig) issues (addAll (addPublic FromDiagnostics) alerts w4)
     in addAll addProbe (pbItems (probesFor status health rps)) w5)"

definition keptWarnings :: "jval \<Rightarrow> warning list \<Rightarrow> warning list" where
  "keptWarnings status items = (if nssPlatform status then items else filter (\<lambda>w. \<not> nssArtifact (wnId w) (wnRaw w)) items)"

definition keptProbes :: "jval \<Rightarrow> probes \<Rightarrow> probes" where
  "keptProbes status pb = (if nssPlatform status then pb
     else (let items = filter (\<lambda>i. \<not> nssArtifact [] i) (pbItems pb) in
       \<lparr>pbItems = items, pbTotal = of_nat (length items), pbTruncated = False\<rparr>))"

definition warningGroups :: "jval \<Rightarrow> jval \<Rightarrow> (string \<rightharpoonup> rpc_summary) \<Rightarrow> jval \<Rightarrow> groups" where
  "warningGroups status0 health0 rps diagnostics = (let status = jor status0 (JObj []); health = jor health0 (JObj []);
       contract = contractOf Map.empty rps diagnostics;
       items = keptWarnings status (collectWarnings status health rps contract);
       sort = (\<lambda>sev. filter (\<lambda>w. wnSeverity w = sev) items)
     in \<lparr>wgAll = sort Critical @ sort Minor @ sort Info, wgCritical = sort Critical, wgWarnings = sort Minor, wgInfo = sort Info,
         wgImportant = filter (\<lambda>w. wnSeverity w = Critical \<or> wnSeverity w = Minor) items,
         wgProbes = keptProbes status (probesFor status health rps),
         wgAlerts = whenUsable (ctUsable contract) (asArray (jget (ctData contract) ''alerts'')),
         wgIssues = whenUsable (ctUsable contract) (asArray (jget (ctData contract) ''config_issues''))\<rparr>)"

end
