(* ===== verification/DiagCurrent.thy ===== *)
theory DiagCurrent
  imports DiagWarnings
begin

text \<open>
  What the cards and the warnings of the diagnostics page promise: a card shown as good rests on
  answers of the last check, the owner of the rates and the classification are good only when
  every direction and every client is, and no failed call goes unreported.
\<close>

section \<open>Good cards rest on the last check\<close>

text \<open>The resource was answered, accepted and fetched in the very check the page shows.\<close>

definition current :: "page \<Rightarrow> string \<Rightarrow> bool" where
  "current p key \<longleftrightarrow> (\<exists>r t. resources p key = Some r \<and> checkedAt p = Some t \<and> resUsable r \<and> \<not> resRetained r \<and>
     fetchedAt r = Some t \<and> validateFor key (resValue r) = Accepted (resValue r))"

definition settledOn :: "page \<Rightarrow> string \<Rightarrow> bool" where
  "settledOn p key \<longleftrightarrow> \<not> noAnswer (rpcOf p key) \<and> \<not> isRetained (rpcOf p key) \<and> \<not> isLoading (rpcOf p key)"

lemma settled_current:
  assumes "pageOk p" "key \<in> set RPC_KEYS" "settledOn p key"
  shows "current p key"
proof -
  obtain t r where t: "checkedAt p = Some t" and r: "resources p key = Some r" "resourceOk t key r"
    using assms(1,2) by (auto simp: pageOk_def)
  have "rsState (rpcOf p key) = (if resPhase r = Stale then (if resRetained r then RpcRetained else RpcSuccess) else phaseState (resPhase r))"
    by (simp add: rpcOf_def rpcState_def r(1))
  then have "resPhase r \<noteq> Error \<and> resPhase r \<noteq> Invalid \<and> \<not> resRetained r"
    using assms(3) r(2) by (auto simp: settledOn_def noAnswer_def isRetained_def phaseState_def resourceOk_def split: if_splits)
  then show ?thesis using t r by (auto simp: current_def resourceOk_def split: if_splits)
qed

lemma worse_good [simp]: "worseState st Warning \<noteq> Good"
  by (cases st) (simp_all add: worseState_def)

lemma overrule_good:
  "cdState (overrule sts a b c d) = Good \<Longrightarrow> cdState d = Good"
  "cdState (overrule sts a b c d) = Good \<Longrightarrow> st \<in> set sts \<Longrightarrow> \<not> noAnswer st \<and> \<not> isRetained st \<and> \<not> isLoading st"
  by (auto simp: overrule_def list_ex_iff split: if_splits)

lemma rateOwner_overruled:
  "\<exists>a b c d. cdState (rateOwnerStateWithRpc p) = cdState (overrule [rpcOf p ''status'', rpcOf p ''clients''] a b c (d :: card)) \<and>
    d = (if currentRateUsesAccessEdge (part p ''status'')
      then edgeOwnerCard (coverageState (part p ''status'') (part p ''clients'')) (collectRateFacts (part p ''clients''))
      else if currentRateUsesRoutedInternet (part p ''status'') then routedOwnerCard (collectRateFacts (part p ''clients''))
      else manualOwnerCard (manualSource (part p ''status'') (part p ''clients''))
        (coverageState (part p ''status'') (part p ''clients'')))"
  unfolding rateOwnerStateWithRpc_def Let_def card.simps by (intro exI conjI, rule refl, rule refl)

lemma rateOwner_good:
  assumes "cdState (rateOwnerStateWithRpc p) = Good"
  shows "settledOn p ''status'' \<and> settledOn p ''clients''"
proof -
  obtain a b c d where "cdState (overrule [rpcOf p ''status'', rpcOf p ''clients''] a b c (d :: card)) = Good"
    using rateOwner_overruled [of p] assms by metis
  from overrule_good(2) [OF this] show ?thesis by (simp add: settledOn_def)
qed

lemma edge_good:
  assumes "cdState (accessEdgeStateWithRpc p) = Good"
  shows "settledOn p ''clients''"
proof -
  obtain a b c d where "cdState (overrule [rpcOf p ''clients''] a b c (d :: edge_card)) = Good"
    using assms by (auto simp: accessEdgeStateWithRpc_def Let_def edgeCard_def split: if_splits)
  from overrule_good(2) [OF this] show ?thesis by (simp add: settledOn_def)
qed

lemma classification_good:
  assumes "cdState (classificationStateWithRpc p) = Good"
  shows "settledOn p ''clients''"
proof -
  obtain a b c d where "cdState (overrule [rpcOf p ''clients''] a b c (d :: class_card)) = Good"
    using assms by (auto simp: classificationStateWithRpc_def Let_def split: if_splits)
  from overrule_good(2) [OF this] show ?thesis by (simp add: settledOn_def)
qed

lemma integrity_good:
  assumes "cdState (integrityStateWithRpc p) = Good"
  shows "settledOn p ''clients''"
proof -
  obtain a b c d where "cdState (overrule [rpcOf p ''clients''] a b c (d :: integrity_card)) = Good"
    using assms unfolding integrityStateWithRpc_def Let_def by blast
  from overrule_good(2) [OF this] show ?thesis by (simp add: settledOn_def)
qed

lemma control_good: "cdState (nssControlStateWithRpc p) = Good \<Longrightarrow> settledOn p ''clients''"
  unfolding settledOn_def
  by (auto simp: nssControlStateWithRpc_def Let_def controlCard_def split: if_splits)

lemma path_good: "cdState (pathStateWithRpc p) = Good \<Longrightarrow> settledOn p ''clients'' \<and> settledOn p ''status'' \<and> settledOn p ''health''"
  unfolding settledOn_def
  by (auto simp: pathStateWithRpc_def Let_def split: if_splits)

lemma connection_good: "cdState (connectionStateWithRpc p) = Good \<Longrightarrow> settledOn p ''clients''"
  unfolding settledOn_def
  by (auto simp: connectionStateWithRpc_def Let_def split: if_splits)

lemma interface_good: "cdState (interfaceStateWithRpc p) = Good \<Longrightarrow> settledOn p ''interfaces''"
  unfolding settledOn_def
  by (auto simp: interfaceStateWithRpc_def Let_def split: if_splits)

lemma version_good: "cdState (versionStateWithRpc p backend frontend) = Good \<Longrightarrow> settledOn p ''status''"
  unfolding settledOn_def
  by (auto simp: versionStateWithRpc_def Let_def split: if_splits)

lemma rsOk_settled: "rsOk (rpcOf p key) \<Longrightarrow> \<not> rsRetained (rpcOf p key) \<Longrightarrow> settledOn p key"
proof (cases "resources p key")
  case (Some r)
  assume "rsOk (rpcOf p key)" "\<not> rsRetained (rpcOf p key)"
  then show ?thesis using Some
    by (cases "resPhase r")
      (simp_all add: settledOn_def rpcOf_def rpcState_def noAnswer_def isRetained_def isLoading_def phaseState_def notUsablePhases_def)
next
  case None
  assume "rsOk (rpcOf p key)" "\<not> rsRetained (rpcOf p key)"
  then show ?thesis using None
    by (cases "rpcs p key") (simp_all add: settledOn_def rpcOf_def rpcState_def noAnswer_def isRetained_def isLoading_def Let_def)
qed

lemma contract_good:
  assumes "freshnessFromContract p = Some c" "cdState c = Good"
  shows "settledOn p ''diagnostics''"
proof (rule rsOk_settled)
  have u: "ctUsable (diagnosticsContractState p)"
    by (rule ccontr) (use assms(1) in \<open>simp add: freshnessFromContract_def Let_def\<close>)
  then have "\<exists>x. cdState (the (freshnessFromContract p)) = softened (diagnosticsContractState p) x"
    unfolding freshnessFromContract_def Let_def by (simp only: not_True_eq_False if_False option.sel card.simps) blast
  then have n: "\<not> ctRetained (diagnosticsContractState p)" using assms by (auto simp: softened_def split: if_splits)
  show "rsOk (rpcOf p ''diagnostics'')" "\<not> rsRetained (rpcOf p ''diagnostics'')"
    using u n by (simp_all add: diagnosticsContractState_def contractOf_def rpcOf_def Let_def)
qed

text \<open>A card shown as good rests only on values of the last check.\<close>

definition cardsCurrent :: "page \<Rightarrow> bool" where
  "cardsCurrent p \<longleftrightarrow> (cdState (rateOwnerStateWithRpc p) = Good \<longrightarrow> current p ''status'' \<and> current p ''clients'') \<and>
    (cdState (accessEdgeStateWithRpc p) = Good \<longrightarrow> current p ''clients'') \<and>
    (cdState (classificationStateWithRpc p) = Good \<longrightarrow> current p ''clients'') \<and>
    (cdState (nssControlStateWithRpc p) = Good \<longrightarrow> current p ''clients'') \<and>
    (cdState (integrityStateWithRpc p) = Good \<longrightarrow> current p ''clients'') \<and>
    (cdState (pathStateWithRpc p) = Good \<longrightarrow> current p ''clients'' \<and> current p ''status'' \<and> current p ''health'') \<and>
    (cdState (connectionStateWithRpc p) = Good \<longrightarrow> current p ''clients'') \<and>
    (cdState (interfaceStateWithRpc p) = Good \<longrightarrow> current p ''interfaces'') \<and>
    (\<forall>backend frontend. cdState (versionStateWithRpc p backend frontend) = Good \<longrightarrow> current p ''status'') \<and>
    (\<forall>c. freshnessFromContract p = Some c \<and> cdState c = Good \<longrightarrow> current p ''diagnostics'')"

lemma cards_current:
  assumes cur: "\<And>key. key \<in> set RPC_KEYS \<Longrightarrow> settledOn p key \<Longrightarrow> current p key"
  shows "cardsCurrent p"
proof -
  have status: "settledOn p ''status'' \<Longrightarrow> current p ''status''" and clients: "settledOn p ''clients'' \<Longrightarrow> current p ''clients''"
    and health: "settledOn p ''health'' \<Longrightarrow> current p ''health''"
    and interfaces: "settledOn p ''interfaces'' \<Longrightarrow> current p ''interfaces''"
    and diagnostics: "settledOn p ''diagnostics'' \<Longrightarrow> current p ''diagnostics''"
    by (rule cur, simp add: RPC_KEYS_def, assumption)+
  show ?thesis unfolding cardsCurrent_def
    by (intro conjI impI allI; (elim conjE)?)
      (rule status clients health interfaces diagnostics,
       ((drule rateOwner_good edge_good classification_good control_good integrity_good path_good connection_good
         interface_good version_good) | drule (1) contract_good), (elim conjE)?, assumption)+
qed


definition firstPage :: page where
  "firstPage = the (normalizeResults (resolved (onValue ''clients'' (JObj [(''clients'', JArr [])]) callInit)) None 5 1)"


section \<open>A good owner owns every direction\<close>

lemma edgeOwner_complete:
  "cdState (edgeOwnerCard coverage f) = Good \<Longrightarrow> rfUnavailable f = 0 \<and> rfFallback f = 0 \<and> rfStale f = 0"
  by (auto simp: edgeOwnerCard_def Let_def split: if_splits)

lemma routedOwner_complete: "cdState (routedOwnerCard f) = Good \<Longrightarrow> rfUnavailable f = 0 \<and> rfStale f = 0"
  by (auto simp: routedOwnerCard_def Let_def split: if_splits)

lemma rateOwner_base:
  assumes "cdState (rateOwnerStateWithRpc p) = Good" "ocEdge (rateOwnerStateWithRpc p) \<or> ocRouted (rateOwnerStateWithRpc p)"
  shows "let f = collectRateFacts (part p ''clients'') in rfUnavailable f = 0 \<and> rfStale f = 0 \<and>
    (ocEdge (rateOwnerStateWithRpc p) \<longrightarrow> rfFallback f = 0)"
proof -
  let ?f = "collectRateFacts (part p ''clients'')" and ?c = "coverageState (part p ''status'') (part p ''clients'')"
  have e: "ocEdge (rateOwnerStateWithRpc p) = currentRateUsesAccessEdge (part p ''status'')"
    "ocRouted (rateOwnerStateWithRpc p) = currentRateUsesRoutedInternet (part p ''status'')"
    by (simp_all add: rateOwnerStateWithRpc_def Let_def)
  have g: "cdState (if currentRateUsesAccessEdge (part p ''status'') then edgeOwnerCard ?c ?f
      else if currentRateUsesRoutedInternet (part p ''status'') then routedOwnerCard ?f
      else manualOwnerCard (manualSource (part p ''status'') (part p ''clients'')) ?c) = Good"
    using rateOwner_overruled [of p] assms(1) by (elim exE conjE) (simp only: overrule_good(1))
  show ?thesis
  proof (cases "currentRateUsesAccessEdge (part p ''status'')")
    case True
    then show ?thesis using edgeOwner_complete g e by (simp add: Let_def)
  next
    case False
    then show ?thesis using routedOwner_complete g e assms(2) by (simp add: Let_def)
  qed
qed

text \<open>
  C24: When the access edge or the routed view owns the rates, the card of the owner is good only if
  every direction of every client has a source and a fresh window, and on the access edge none of
  them is a fallback.
\<close>
theorem good_owner_complete:
  assumes "cdState (rateOwnerStateWithRpc p) = Good" "ocEdge (rateOwnerStateWithRpc p) \<or> ocRouted (rateOwnerStateWithRpc p)"
    and "d \<in> set (directions (asArray (jfield (part p ''clients'') ''clients'')))"
  shows "hasOwner d \<and> \<not> isStale d \<and> (ocEdge (rateOwnerStateWithRpc p) \<longrightarrow> \<not> usesFallback d)"
proof -
  have "factsInv (asArray (jfield (part p ''clients'') ''clients'')) (collectRateFacts (part p ''clients''))"
    by (rule collectRateFacts_inv)
  then show ?thesis using rateOwner_base [OF assms(1,2)] assms(3)
    by (auto simp: factsInv_def Let_def filter_empty_conv)
qed

definition demoPage :: page where
  "demoPage = (let d = JObj [(''source'', JStr ''fast_routed_internet''), (''coverage'', JStr ''full''), (''window_ms'', num 1000)];
     clients = JObj [(''clients'', JArr [JObj [(''rate_meta'', JObj [(''tx'', d), (''rx'', d),
         (''classification'', JObj [(''state'', JStr ''aligned'')])])]]),
       (''evidence'', JObj [(''classifier_maps'', JObj [(''ecm_nss'', JObj [(''entries'', num 1)])])])];
     status = JObj [(''evidence'', JObj [(''platform'', JObj [(''profile'', JStr ''nss_aarch64'')])]),
       (''internet_view_mode'', JStr ''routed'')] in
     \<lparr>resources = Map.empty, rpcs = (\<lambda>_. Some \<lparr>sumOk = True, sumRetained = False, sumPhase = Success, sumError = None\<rparr>),
      pageValues = (\<lambda>k. if k = ''status'' then status else if k = ''clients'' then clients else JNull),
      checkedAt = Some 5, pageRequest = 1, observation = None, pageProgress = None, pagePhase = PageReady\<rparr>)"

theorem good_owner_complete_witness:
  "hasOwner (hd (directions (asArray (jfield (part demoPage ''clients'') ''clients''))))"
proof -
  have "cdState (rateOwnerStateWithRpc demoPage) = Good" by code_simp
  moreover have "ocRouted (rateOwnerStateWithRpc demoPage)" by code_simp
  moreover have "directions (asArray (jfield (part demoPage ''clients'') ''clients'')) \<noteq> []" by code_simp
  ultimately show ?thesis using good_owner_complete [of demoPage] hd_in_set by blast
qed

section \<open>A good classification covers every client\<close>

definition classification :: "jval \<Rightarrow> jval" where
  "classification client = jfield (jfield client ''rate_meta'') ''classification''"

lemma countOf_addCount: "countOf (addCount k n cs) j = countOf cs j + (if j = k then n else 0)"
  by (induction cs) (auto simp: countOf_def)

lemma addClass_keeps [simp]:
  "cfClassified (addClass meta n f) = cfClassified f" "cfCounts (addClass meta n f) = cfCounts f"
  by (simp_all add: addClass_def Let_def split: option.split)

lemma addClassified_counts:
  "cfClassified (addClassified c f) = cfClassified f + (if plainObject (classification c) then 1 else 0)"
  "countOf (cfCounts (addClassified c f)) k = countOf (cfCounts f) k +
     (if plainObject (classification c) \<and> classState (classification c) = k then 1 else 0)"
  by (simp_all add: addClassified_def Let_def classification_def countOf_addCount)

definition classifiedAs :: "string \<Rightarrow> jval list \<Rightarrow> jval list" where
  "classifiedAs k items = filter (\<lambda>c. plainObject (classification c) \<and> classState (classification c) = k) items"

lemma classified_counts:
  "cfClassified (foldl (\<lambda>f c. addClassified c f) f items) = cfClassified f + length (filter (\<lambda>c. plainObject (classification c)) items) \<and>
   countOf (cfCounts (foldl (\<lambda>f c. addClassified c f) f items)) k = countOf (cfCounts f) k + length (classifiedAs k items)"
  by (induction items arbitrary: f) (simp_all add: addClassified_counts classifiedAs_def)

definition unsettledClasses :: "string list" where
  "unsettledClasses = [''warmup'', ''partial'', ''stale'', ''window_mismatch'', ''unavailable'', ''map_loss'']"

lemma classVerdict_good:
  assumes "fst (classVerdict items f maps) = Good"
  shows "\<not> classPending items f \<and> mapAvailable maps \<and> \<not> mapLoss maps \<and> \<not> mapPressure maps \<and>
    countOf (allCounts items f) ''map_loss'' = 0"
  using assms unfolding classVerdict_def Let_def by (simp split: if_splits)

lemma classification_base:
  assumes "cdState (classificationStateWithRpc p) = Good"
  shows "nssPlatform (part p ''status'') \<and> (let items = asArray (jget (part p ''clients'') ''clients'') in
    fst (classVerdict items (foldl (\<lambda>f c. addClassified c f) noClasses items) (classifierMapState (part p ''clients''))) = Good)"
proof -
  have nss: "nssPlatform (part p ''status'')"
    by (rule ccontr) (use assms in \<open>simp add: classificationStateWithRpc_def\<close>)
  then have "\<exists>a b c d. cdState (classificationStateWithRpc p) = cdState (overrule [rpcOf p ''clients''] a b c (d :: class_card)) \<and>
    cdState d = fst (classVerdict (asArray (jget (part p ''clients'') ''clients''))
      (foldl (\<lambda>f c. addClassified c f) noClasses (asArray (jget (part p ''clients'') ''clients'')))
      (classifierMapState (part p ''clients'')))"
    unfolding classificationStateWithRpc_def Let_def
    by (simp only: not_True_eq_False if_False) (intro exI conjI, rule refl, simp only: card.simps)
  then obtain a b c d where "cdState (overrule [rpcOf p ''clients''] a b c (d :: class_card)) = Good" and
    d: "cdState d = fst (classVerdict (asArray (jget (part p ''clients'') ''clients''))
      (foldl (\<lambda>f c. addClassified c f) noClasses (asArray (jget (part p ''clients'') ''clients'')))
      (classifierMapState (part p ''clients'')))"
    using assms by metis
  from overrule_good(1) [OF this(1)] d nss show ?thesis by (simp add: Let_def)
qed

lemma settled_classes:
  assumes "\<not> classPending items f" "countOf (allCounts items f) ''map_loss'' = 0" "f = foldl (\<lambda>f c. addClassified c f) noClasses items"
    and "c \<in> set items"
  shows "plainObject (classification c) \<and> classState (classification c) \<notin> set unsettledClasses"
proof -
  have n: "cfClassified f = length (filter (\<lambda>c. plainObject (classification c)) items)"
    and k: "countOf (cfCounts f) j = length (classifiedAs j items)" for j
    using classified_counts [of noClasses items j] by (simp_all add: assms(3) noClasses_def countOf_def)
  have m: "missingClients items f = 0" using assms(1) by (simp add: classPending_def)
  then have "length items \<le> length (filter (\<lambda>c. plainObject (classification c)) items)" by (simp add: missingClients_def n)
  then have all: "filter (\<lambda>c. plainObject (classification c)) items = items"
    by (metis filter_id_conv length_filter_less linorder_not_le)
  then have c: "plainObject (classification c)" using assms(4) by (simp add: filter_id_conv)
  have "classifiedAs j items = []" if "j \<in> set unsettledClasses" for j
    using that assms(1,2) k [of j] m by (auto simp: unsettledClasses_def classPending_def allCounts_def)
  then show ?thesis using c assms(4) by (auto simp: classifiedAs_def filter_empty_conv)
qed

text \<open>
  The classification is shown as good only on NSS, when every client has a classification whose
  state is settled, and when the maps of the classifier were read without loss or pressure.
\<close>
theorem good_classification_complete:
  assumes "cdState (classificationStateWithRpc p) = Good"
    and "c \<in> set (asArray (jget (part p ''clients'') ''clients''))"
  shows "nssPlatform (part p ''status'') \<and> plainObject (classification c) \<and>
    classState (classification c) \<notin> set unsettledClasses \<and>
    mapAvailable (classifierMapState (part p ''clients'')) \<and> \<not> mapLoss (classifierMapState (part p ''clients'')) \<and>
    \<not> mapPressure (classifierMapState (part p ''clients''))"
proof -
  have b: "nssPlatform (part p ''status'')" and
    v: "fst (classVerdict (asArray (jget (part p ''clients'') ''clients''))
      (foldl (\<lambda>f c. addClassified c f) noClasses (asArray (jget (part p ''clients'') ''clients'')))
      (classifierMapState (part p ''clients''))) = Good"
    using classification_base [OF assms(1)] by (simp_all add: Let_def)
  from classVerdict_good [OF v] settled_classes [OF _ _ refl assms(2)] b show ?thesis by blast
qed

theorem good_classification_complete_witness:
  "classState (classification (hd (asArray (jget (part demoPage ''clients'') ''clients'')))) \<notin> set unsettledClasses"
proof -
  have "cdState (classificationStateWithRpc demoPage) = Good" by code_simp
  moreover have "asArray (jget (part demoPage ''clients'') ''clients'') \<noteq> []" by code_simp
  ultimately show ?thesis using good_classification_complete [of demoPage] hd_in_set by blast
qed

section \<open>The warnings\<close>

lemma addAll_induct:
  assumes "P items" "\<And>x acc. x \<in> set xs \<Longrightarrow> P acc \<Longrightarrow> P (f x acc)"
  shows "P (addAll f xs items)"
proof -
  have "set ys \<subseteq> set xs \<Longrightarrow> P acc \<Longrightarrow> P (foldl (\<lambda>acc x. f x acc) acc ys)" for ys acc
    using assms(2) by (induction ys arbitrary: acc) auto
  then show ?thesis using assms(1) by (simp add: addAll_def)
qed

lemma addRpc_induct: "P acc \<Longrightarrow> (\<And>item src sev t i acc. P acc \<Longrightarrow> P (add item src sev t i acc)) \<Longrightarrow> P (addRpc rps key acc)"
  by (simp add: addRpc_def split: option.split)

lemma collectWarnings_induct:
  assumes "P []" and step: "\<And>item src sev t i acc. P acc \<Longrightarrow> P (add item src sev t i acc)"
  shows "P (collectWarnings status health rps contract)"
proof -
  note steps = addAll_induct [where P = P] addRpc_induct [where P = P]
  have status: "P (addStatus w acc)" and health: "P (addHealth w acc)" and conflict: "P (addConflict w acc)"
    and public: "P (addPublic src w acc)" and probe: "P (addProbe w acc)" if "P acc" for w acc src
    unfolding addStatus_def addHealth_def addConflict_def addPublic_def addProbe_def by (rule step [OF that])+
  have rpc: "P (addRpc rps key acc)" if "P acc" for key acc by (rule steps(2) [OF that step])
  show ?thesis unfolding collectWarnings_def Let_def
    by (intro steps(1); (rule assms(1) status health conflict rpc public probe, assumption | rule assms(1)))
qed

lemma mergeWarning_id [simp]: "wnId (mergeWarning new old) = wnId old"
  by (simp add: mergeWarning_def)

text \<open>Distinct ids, and the text of the vocabulary for every warning it knows.\<close>

definition itemsOk :: "warning list \<Rightarrow> bool" where
  "itemsOk items \<longleftrightarrow> distinct (map wnId items) \<and>
     (\<forall>w \<in> set items. hasWarning (JStr (wnId w)) \<longrightarrow> wnText w = warningText (JStr (wnId w)))"

lemma mergeWarning_text:
  "wnId new = wnId old \<Longrightarrow> hasWarning (JStr (wnId old)) \<Longrightarrow> wnText new = warningText (JStr (wnId old)) \<Longrightarrow>
   wnText old = warningText (JStr (wnId old)) \<Longrightarrow> wnText (mergeWarning new old) = warningText (JStr (wnId old))"
  by (simp add: mergeWarning_def)

lemma addWarning_ok:
  assumes "itemsOk items"
  shows "itemsOk (addWarning item src sev t i items)"
proof (cases "canonicalWarningId i \<in> wnId ` set items")
  case True
  define new where "new = \<lparr>wnId = canonicalWarningId i, wnSource = src, wnSeverity = sev,
    wnText = publicText (canonicalWarningId i) t, wnRaw = item\<rparr>"
  define step where "step = (\<lambda>w. if wnId w = canonicalWarningId i then mergeWarning new w else w)"
  have e: "addWarning item src sev t i items = map step items"
    using True unfolding addWarning_def Let_def step_def new_def by simp
  have ids: "wnId (step w) = wnId w" for w by (simp add: step_def)
  have "wnText (step w) = warningText (JStr (wnId w))" if "w \<in> set items" "hasWarning (JStr (wnId w))" for w
    using that assms mergeWarning_text [of new w] by (auto simp: itemsOk_def publicText_def step_def new_def)
  moreover have "wnId \<circ> step = wnId" by (rule ext) (simp add: ids)
  ultimately show ?thesis using assms unfolding itemsOk_def e by (simp add: ids)
next
  case False
  then show ?thesis using assms by (auto simp: itemsOk_def addWarning_def Let_def publicText_def)
qed

lemma collectWarnings_ok: "itemsOk (collectWarnings status health rps contract)"
  by (rule collectWarnings_induct) (simp_all add: itemsOk_def add_def addWarning_ok [unfolded itemsOk_def])

lemma keptWarnings_ok: "itemsOk items \<Longrightarrow> itemsOk (keptWarnings status items)"
  by (auto simp: itemsOk_def keptWarnings_def distinct_map_filter)

lemma severity_split: "mset (filter (\<lambda>w. wnSeverity w = Critical) ws @ filter (\<lambda>w. wnSeverity w = Minor) ws @
    filter (\<lambda>w. wnSeverity w = Info) ws) = mset ws"
proof (induction ws)
  case (Cons w ws)
  then show ?case by (cases "wnSeverity w") simp_all
qed simp

text \<open>
  The list of the warnings holds every kept warning exactly once, in one of the three groups, no
  id twice, and a warning the vocabulary knows is shown in the words of the vocabulary, whatever text
  the router sent with it.
\<close>
theorem warning_groups_complete:
  fixes status health diagnostics :: jval and rps :: "string \<rightharpoonup> rpc_summary"
  defines "g \<equiv> warningGroups status health rps diagnostics"
    and "kept \<equiv> keptWarnings (jor status (JObj [])) (collectWarnings (jor status (JObj [])) (jor health (JObj [])) rps
      (contractOf Map.empty rps diagnostics))"
  shows "mset (wgAll g) = mset kept \<and> wgAll g = wgCritical g @ wgWarnings g @ wgInfo g \<and> distinct (map wnId (wgAll g)) \<and>
    set (wgImportant g) = set (wgCritical g) \<union> set (wgWarnings g) \<and>
    {w \<in> set (wgAll g). hasWarning (JStr (wnId w))} \<subseteq> {w. wnText w = warningText (JStr (wnId w))}"
proof -
  have ok: "itemsOk kept" unfolding kept_def by (intro keptWarnings_ok collectWarnings_ok)
  have all: "wgAll g = filter (\<lambda>w. wnSeverity w = Critical) kept @ filter (\<lambda>w. wnSeverity w = Minor) kept @
      filter (\<lambda>w. wnSeverity w = Info) kept"
    by (simp add: g_def warningGroups_def Let_def kept_def)
  then have m: "mset (wgAll g) = mset kept" using severity_split by simp
  then have "mset (map wnId (wgAll g)) = mset (map wnId kept)" by simp
  then have "distinct (map wnId (wgAll g))" using ok mset_eq_imp_distinct_iff unfolding itemsOk_def by blast
  moreover have "set (wgAll g) = set kept" using m by (rule mset_eq_setD)
  moreover have "wgAll g = wgCritical g @ wgWarnings g @ wgInfo g" "set (wgImportant g) = set (wgCritical g) \<union> set (wgWarnings g)"
    by (auto simp: g_def warningGroups_def Let_def)
  ultimately show ?thesis using m ok by (auto simp: itemsOk_def)
qed

section \<open>Failed calls are reported\<close>

text \<open>A failed call has its warning, at least as severe as the call's own, and no alert of the contract has
  taken it over.\<close>

definition reported :: "string \<Rightarrow> nat \<Rightarrow> warning list \<Rightarrow> bool" where
  "reported k n items \<longleftrightarrow> (\<exists>w \<in> set items. wnId w = k \<and> wnSource w \<noteq> FromDiagnostics \<and> n \<le> severityRank (wnSeverity w))"

definition unowned :: "warning list \<Rightarrow> bool" where
  "unowned items \<longleftrightarrow> (\<forall>w \<in> set items. wnSource w \<noteq> FromDiagnostics)"

lemma mergeWarning_source:
  "wnSource new \<noteq> FromDiagnostics \<Longrightarrow> wnSource (mergeWarning new old) = wnSource old"
  "wnSource new \<noteq> FromDiagnostics \<Longrightarrow> severityRank (wnSeverity old) \<le> severityRank (wnSeverity (mergeWarning new old))"
  "wnSource new \<noteq> FromDiagnostics \<Longrightarrow> wnSource old \<noteq> FromDiagnostics \<Longrightarrow>
    severityRank (wnSeverity new) \<le> severityRank (wnSeverity (mergeWarning new old))"
  by (simp_all add: mergeWarning_def)

lemma addWarning_unowned: "src \<noteq> FromDiagnostics \<Longrightarrow> unowned items \<Longrightarrow> unowned (addWarning item src sev t i items)"
  by (auto simp: unowned_def addWarning_def Let_def mergeWarning_source)

lemma addWarning_reported:
  assumes "src \<noteq> FromDiagnostics \<or> canonicalWarningId i \<noteq> k" "reported k n items"
  shows "reported k n (addWarning item src sev t i items)"
proof -
  obtain w where w: "w \<in> set items" "wnId w = k" "wnSource w \<noteq> FromDiagnostics" "n \<le> severityRank (wnSeverity w)"
    using assms(2) by (auto simp: reported_def)
  let ?new = "\<lparr>wnId = canonicalWarningId i, wnSource = src, wnSeverity = sev,
    wnText = publicText (canonicalWarningId i) t, wnRaw = item\<rparr>"
  let ?v = "if wnId w = canonicalWarningId i then mergeWarning ?new w else w"
  have "wnId ?v = k" by (simp add: w(2))
  moreover have "wnSource ?v \<noteq> FromDiagnostics \<and> n \<le> severityRank (wnSeverity ?v)"
    using assms(1) w mergeWarning_source(1,2) [of ?new w] by auto
  moreover have "?v \<in> set (addWarning item src sev t i items)"
  proof (cases "wnId w = canonicalWarningId i")
    case True
    then have "canonicalWarningId i \<in> wnId ` set items" using imageI [OF w(1), of wnId] by simp
    then show ?thesis using w(1) True unfolding addWarning_def Let_def by (auto intro!: rev_image_eqI [of w])
  qed (use w(1) in \<open>auto simp: addWarning_def Let_def\<close>)
  ultimately show ?thesis unfolding reported_def by blast
qed

lemma addWarning_reports:
  assumes "src \<noteq> FromDiagnostics" "unowned items" "canonicalWarningId i = k"
  shows "reported k (severityRank sev) (addWarning item src sev t i items)"
proof (cases "k \<in> wnId ` set items")
  case True
  then obtain w where w: "w \<in> set items" "wnId w = k" by auto
  let ?new = "\<lparr>wnId = k, wnSource = src, wnSeverity = sev, wnText = publicText k t, wnRaw = item\<rparr>"
  have "mergeWarning ?new w \<in> set (addWarning item src sev t i items)"
    using w(1) True unfolding addWarning_def Let_def assms(3) by (auto simp: w(2) intro!: image_eqI [of _ _ w])
  moreover have "wnSource w \<noteq> FromDiagnostics" using w(1) assms(2) by (simp add: unowned_def)
  ultimately show ?thesis unfolding reported_def
    using w(2) assms(1) mergeWarning_source [of ?new w] by (intro bexI [of _ "mergeWarning ?new w"]) simp_all
next
  case False
  then show ?thesis using assms by (simp add: reported_def addWarning_def Let_def)
qed

lemma canonical_rpc: "key \<in> set RPC_KEYS \<Longrightarrow> canonicalWarningId (JStr (''rpc:'' @ key)) = ''rpc:'' @ key"
proof -
  have "list_all (\<lambda>key. canonicalWarningId (JStr (''rpc:'' @ key)) = ''rpc:'' @ key) RPC_KEYS" by code_simp
  then show "key \<in> set RPC_KEYS \<Longrightarrow> ?thesis" by (simp add: list_all_iff)
qed

lemma isCode_colon: "isCode s \<Longrightarrow> CHR '':'' \<notin> set s"
  by (auto simp: isCode_def list_all_iff isCodeChar_def isDigit_def isUpperAz_def isLowerAz_def code_def dest!: bspec)

lemma alias_colon: "map_of WARNING_ALIASES k = Some v \<Longrightarrow> \<exists>t. v = JStr t \<and> t \<noteq> [] \<and> CHR '':'' \<notin> set t"
proof -
  have "list_all (\<lambda>(k, v). isStr v \<and> toStr v \<noteq> [] \<and> CHR '':'' \<notin> set (toStr v)) WARNING_ALIASES" by code_simp
  moreover assume "map_of WARNING_ALIASES k = Some v"
  then have "(k, v) \<in> set WARNING_ALIASES" by (rule map_of_SomeD)
  ultimately show ?thesis by (cases v) (auto simp: list_all_iff)
qed

lemma canonical_code:
  assumes "isCode s"
  shows "canonicalWarningId (JStr s) \<noteq> ''rpc:'' @ key"
proof (cases "s \<in> set protoKeys")
  case True
  then have "normalizeWarningId (JStr s) = JProto s" by (simp add: normalizeWarningId_cases)
  then show ?thesis using assms by (simp add: canonicalWarningId_def textOr_def jor_def isCode_def Let_def)
next
  case False
  have "\<exists>t. normalizeWarningId (JStr s) = JStr t \<and> CHR '':'' \<notin> set t"
    using False assms alias_colon [of s] isCode_colon [OF assms]
    by (cases "map_of WARNING_ALIASES s") (auto simp: normalizeWarningId_cases)
  then obtain t where "normalizeWarningId (JStr s) = JStr t" "CHR '':'' \<notin> set t" by blast
  then show ?thesis using assms isCode_colon [OF assms]
    by (auto simp: canonicalWarningId_def textOr_def jor_def isCode_def Let_def)
qed

lemma contract_codes:
  assumes "ctUsable (contractOf ress rps v)" "a \<in> set (asArray (jget (ctData (contractOf ress rps v)) ''alerts''))"
  shows "\<exists>s. jget a ''id'' = JStr s \<and> isCode s"
proof -
  have v: "ctData (contractOf ress rps v) = v" using assms(1) by (simp add: contractOf_def Let_def)
  obtain w where "validateDiagnosticsContract v = Accepted w"
    using assms(1) by (auto simp: contractOf_def Let_def split: verdict.splits)
  then have "contractIssue v = None" by (auto simp: validateDiagnosticsContract_def verdictOf_def split: option.splits)
  then have "itemsIssue MAX_DIAGNOSTIC_ALERTS alertOk ''diagnostics.alerts'' (jget v ''alerts'') = None"
    by (simp add: contractIssue_def)
  then have "alertOk a" using assms(2) unfolding v by (simp add: itemsIssue_def failIf_def list_all_iff split: if_splits)
  then show ?thesis by (cases "jget a ''id''") (auto simp: alertOk_def codeString_def boundedString_def)
qed

lemma add_reported:
  "src \<noteq> FromDiagnostics \<Longrightarrow> reported k n items \<Longrightarrow> reported k n (add item src sev t i items)"
  "src \<noteq> FromDiagnostics \<Longrightarrow> unowned items \<Longrightarrow> unowned (add item src sev t i items)"
  by (simp_all add: add_def addWarning_reported addWarning_unowned)

lemma addRpc_reported:
  "reported k n items \<Longrightarrow> reported k n (addRpc rps key items)" "unowned items \<Longrightarrow> unowned (addRpc rps key items)"
  by (simp_all add: addRpc_def add_reported split: option.split)

definition ownSeverity :: "rpc_summary \<Rightarrow> severity" where
  "ownSeverity q = (if sumRetained q \<or> sumPhase q = Degraded \<or> sumPhase q = Stale then Minor else Critical)"

lemma addRpc_reports:
  assumes "key \<in> set RPC_KEYS" "rps key = Some q" "\<not> sumOk q" "sumPhase q \<noteq> Loading" "unowned items"
  shows "reported (''rpc:'' @ key) (severityRank (ownSeverity q)) (addRpc rps key items)"
proof -
  have "jor (JStr (''rpc:'' @ key)) v = JStr (''rpc:'' @ key)" for v by (simp add: jor_def)
  then show ?thesis using assms(2-5) canonical_rpc [OF assms(1)]
    by (simp add: addRpc_def add_def ownSeverity_def addWarning_reports)
qed

lemma rpcs_reported:
  assumes "key \<in> set keys" "set keys \<subseteq> set RPC_KEYS" "rps key = Some q" "\<not> sumOk q" "sumPhase q \<noteq> Loading" "unowned items"
  shows "reported (''rpc:'' @ key) (severityRank (ownSeverity q)) (addAll (addRpc rps) keys items)"
  using assms(1,2,6)
proof (induction keys arbitrary: items)
  case (Cons k keys)
  show ?case
  proof (cases "key = k")
    case True
    then have "reported (''rpc:'' @ key) (severityRank (ownSeverity q)) (addRpc rps k items)"
      using addRpc_reports [of key rps q items] assms(3-5) Cons.prems by simp
    then have "reported (''rpc:'' @ key) (severityRank (ownSeverity q)) (addAll (addRpc rps) keys (addRpc rps k items))"
      by (rule addAll_induct) (rule addRpc_reported)
    then show ?thesis by (simp add: addAll_def)
  next
    case False
    then show ?thesis using Cons.IH [of "addRpc rps k items"] Cons.prems addRpc_reported(2) by (simp add: addAll_def)
  qed
qed simp

lemma collect_reported:
  assumes "key \<in> set RPC_KEYS" "rps key = Some q" "\<not> sumOk q" "sumPhase q \<noteq> Loading"
  shows "reported (''rpc:'' @ key) (severityRank (ownSeverity q)) (collectWarnings status health rps (contractOf Map.empty rps v))"
proof -
  let ?c = "contractOf Map.empty rps v" and ?R = "reported (''rpc:'' @ key) (severityRank (ownSeverity q))"
  have own: "unowned (addStatus x acc)" "unowned (addHealth x acc)" "unowned (addConflict x acc)" if "unowned acc" for x acc
    using that by (simp_all add: addStatus_def addHealth_def addConflict_def add_reported(2))
  have conf: "?R (addPublic FromConfig x acc)" "?R (addProbe x acc)" if "?R acc" for x acc
    using that by (simp_all add: addPublic_def addProbe_def add_reported(1))
  have diag: "?R (addPublic FromDiagnostics a acc)"
    if mem: "a \<in> set (whenUsable (ctUsable ?c) (asArray (jget (ctData ?c) ''alerts'')))" "?R acc" for a acc
  proof -
    obtain s where s: "jget a ''id'' = JStr s" "isCode s"
      using contract_codes [of Map.empty rps v a] mem by (auto simp: whenUsable_def split: if_splits)
    then have "jor (jget a ''id'') b = JStr s" for b by (simp add: jor_def isCode_def)
    then show ?thesis using addWarning_reported canonical_code [OF s(2)] that(2) by (simp add: addPublic_def add_def)
  qed
  have calls: "?R (addAll (addRpc rps) RPC_KEYS acc)" if "unowned acc" for acc
    by (rule rpcs_reported) (simp_all add: assms that)
  have start: "unowned []" by (simp add: unowned_def)
  show ?thesis unfolding collectWarnings_def Let_def
    by (rule addAll_induct [where P = ?R], rule addAll_induct [where P = ?R], rule addAll_induct [where P = ?R], rule calls,
      rule addAll_induct [where P = unowned], rule addAll_induct [where P = unowned], rule addAll_induct [where P = unowned],
      rule start) (rule own conf diag; assumption)+
qed


definition deadCall :: rpc_summary where
  "deadCall = \<lparr>sumOk = False, sumRetained = False, sumPhase = Error, sumError = None\<rparr>"


section \<open>What the code gets wrong\<close>

text \<open>
  Off NSS the filter for NSS artifacts reads the text of the error as well. It applies whenever
  status failed, since then nothing says that the router is an NSS router.
\<close>

definition refusedStatus :: "string \<Rightarrow> jval" where
  "refusedStatus field = JObj [(''mode'', JStr ''Full''), (''confidence'', JStr ''high''), (''warnings'', JArr []), (''evidence'', JObj []),
     (''refresh_interval_ms'', num 1000), (''rate_collector_mode'', JStr ''auto''), (''conn_collector_mode'', JStr ''auto''),
     (''version'', JStr ''1''), (''capabilities'', JObj []), (field, JStr ''?'')]"

definition refusedCall :: "string \<Rightarrow> rpc_summary" where
  "refusedCall field = the (rpcs (the (normalizeResults (resolved (onValue ''status'' (refusedStatus field) callInit)) None 5 1)) ''status'')"

definition otherwiseFine :: "rpc_summary \<Rightarrow> string \<rightharpoonup> rpc_summary" where
  "otherwiseFine q = (\<lambda>k. Some (if k = ''status'' then q else \<lparr>sumOk = True, sumRetained = False, sumPhase = Success, sumError = None\<rparr>))"

text \<open>
  C38: Off NSS a status answer refused for its field \<open>access_edge_mode\<close> is a failed call without any
  warning, while one refused for its field \<open>internet_view_mode\<close> has one.
\<close>
theorem failed_status_hidden:
  "map wnId (wgAll (warningGroups (JObj []) JNull (otherwiseFine (refusedCall ''access_edge_mode'')) JNull)) = [] \<and>
   map wnId (wgAll (warningGroups (JObj []) JNull (otherwiseFine (refusedCall ''internet_view_mode'')) JNull)) = [''rpc:status'']"
proof -
  have "refusedCall ''access_edge_mode'' = \<lparr>sumOk = False, sumRetained = False, sumPhase = Invalid,
      sumError = Some \<lparr>errKind = ''contract'', errCode = ''INVALID_CONTRACT'', errMessage = ''status.access_edge_mode: invalid field'',
        errCategory = JStr ''contract'', errStage = JStr ''rpc'', errRetriable = False\<rparr>\<rparr>" by code_simp
  moreover have "refusedCall ''internet_view_mode'' = \<lparr>sumOk = False, sumRetained = False, sumPhase = Invalid,
      sumError = Some \<lparr>errKind = ''contract'', errCode = ''INVALID_CONTRACT'', errMessage = ''status.internet_view_mode: invalid field'',
        errCategory = JStr ''contract'', errStage = JStr ''rpc'', errRetriable = False\<rparr>\<rparr>" by code_simp
  moreover have "map wnId (wgAll (warningGroups (JObj []) JNull (otherwiseFine \<lparr>sumOk = False, sumRetained = False, sumPhase = Invalid,
      sumError = Some \<lparr>errKind = ''contract'', errCode = ''INVALID_CONTRACT'', errMessage = ''status.access_edge_mode: invalid field'',
        errCategory = JStr ''contract'', errStage = JStr ''rpc'', errRetriable = False\<rparr>\<rparr>) JNull)) = []" by code_simp
  moreover have "map wnId (wgAll (warningGroups (JObj []) JNull (otherwiseFine \<lparr>sumOk = False, sumRetained = False, sumPhase = Invalid,
      sumError = Some \<lparr>errKind = ''contract'', errCode = ''INVALID_CONTRACT'', errMessage = ''status.internet_view_mode: invalid field'',
        errCategory = JStr ''contract'', errStage = JStr ''rpc'', errRetriable = False\<rparr>\<rparr>) JNull)) = [''rpc:status'']" by code_simp
  ultimately show ?thesis by simp
qed

text \<open>
  A client list without connection source and without counts is only worth a warning: the last test
  on the counts overwrites the bad state the missing source was given.
\<close>

theorem connection_source_missing:
  "cdState (connectionState (JObj []) JNull) = Warning \<and> cdState (connectionState (JObj [(''conn_source'', JStr ''unsupported'')]) JNull) = Warning \<and>
   cdState (connectionState (JObj [(''conntrack_entries_seen'', num 2), (''conntrack_entries_matched'', num 2)]) JNull) = Bad"
proof -
  have "cdState (connectionState (JObj []) JNull) = Warning" by code_simp
  moreover have "cdState (connectionState (JObj [(''conn_source'', JStr ''unsupported'')]) JNull) = Warning" by code_simp
  moreover have "cdState (connectionState (JObj [(''conntrack_entries_seen'', num 2), (''conntrack_entries_matched'', num 2)]) JNull) = Bad"
    by code_simp
  ultimately show ?thesis by blast
qed

end
