(* ===== verification/DiagController.thy ===== *)
theory DiagController
  imports DiagCurrent
begin

text \<open>
  The controller of the diagnostics page, \<open>lanspeed/diagnosticsView.js\<close>: checking, restarting
  the service and copying the report, as a state machine over the user's clicks, the timers and
  the events of the six calls of every check under way.
\<close>

section \<open>The page while a check is under way\<close>

definition loadingResource :: "string \<Rightarrow> nat \<Rightarrow> resource option \<Rightarrow> resource" where
  "loadingResource key n previous = (case previous of
     None \<Rightarrow> \<lparr>resKey = key, resPhase = Loading, resValue = emptyValue key, resUsable = False, resRetained = False,
       fetchedAt = None, producedAt = None, retainedFrom = None, ageMs = None, resRequest = n, resError = None, attempt = Loading\<rparr>
   | Some r \<Rightarrow> \<lparr>resKey = key, resPhase = Loading, resValue = (if truthy (resValue r) then resValue r else emptyValue key),
       resUsable = resUsable r, resRetained = resRetained r, fetchedAt = fetchedAt r, producedAt = producedAt r,
       retainedFrom = retainedFrom r, ageMs = ageMs r, resRequest = n, resError = None, attempt = Loading\<rparr>)"

definition createLoadingState :: "page option \<Rightarrow> nat \<Rightarrow> page" where
  "createLoadingState previous n = (let
       res = (\<lambda>key. if key \<in> set RPC_KEYS
         then Some (loadingResource key n (Option.bind previous (\<lambda>p. resources p key))) else None)
     in \<lparr>resources = res,
         rpcs = (\<lambda>key. map_option (\<lambda>r. \<lparr>sumOk = False, sumRetained = resRetained r, sumPhase = Loading, sumError = None\<rparr>) (res key)),
         pageValues = (\<lambda>key. case res key of Some r \<Rightarrow> resValue r | None \<Rightarrow> JUndef),
         checkedAt = Option.bind previous checkedAt, pageRequest = n, observation = Option.bind previous observation,
         pageProgress = Some (case Option.bind previous pageProgress of Some g \<Rightarrow> g | None \<Rightarrow> noProgress),
         pagePhase = PageLoading\<rparr>)"

section \<open>The state of the page\<close>

text \<open>
  A check under way: its number, the page it is merged into, its six calls, and the error that
  drawing the loading page ended with, when it did; then no call is made.
\<close>

record load =
  ldRequest :: nat
  ldPrevious :: page
  ldFailed :: "jval option"
  ldCalls :: "string \<Rightarrow> call_state"

text \<open>Restarting: waiting for the answer, for the delay after it, or for the check that follows.\<close>

datatype restart = NoRestart | Asking | Waiting | Checking nat

record diag_view =
  dvPage :: page
  dvStart :: bool
  dvOpen :: "load list"
  dvCopying :: bool
  dvRestart :: restart
  dvRefreshOff :: bool
  dvRefreshText :: mtext
  dvRestartOff :: bool
  dvRestartText :: mtext
  dvCopyOff :: bool
  dvBusy :: bool
  dvCopyNote :: "mtext \<times> string"
  dvRestartNote :: "(mtext \<times> mtext \<times> string) option"

definition restarting :: "diag_view \<Rightarrow> bool" where
  "restarting v \<longleftrightarrow> dvRestart v \<noteq> NoRestart"

text \<open>The buttons as \<open>refresh\<close> of \<open>diagnosticsRefresh.js\<close> leaves them.\<close>

definition renderButtons :: "diag_view \<Rightarrow> diag_view" where
  "renderButtons v = (let loading = (pageState (resources (dvPage v)) (rpcs (dvPage v)) = PageLoading) in
     v\<lparr>dvRefreshOff := loading \<or> restarting v, dvRefreshText := (if loading then Tr ''checking'' else Tr ''check again''),
       dvRestartOff := loading \<or> restarting v, dvRestartText := (if restarting v then Tr ''restarting'' else Tr ''restart''),
       dvCopyOff := loading \<or> dvCopying v \<or> restarting v, dvBusy := loading\<rparr>)"

definition restoreControls :: "nat \<Rightarrow> diag_view \<Rightarrow> diag_view" where
  "restoreControls n v = (let loading = (pagePhase (dvPage v) = PageLoading) in
     if n \<noteq> pageRequest (dvPage v) then v
     else v\<lparr>dvRefreshOff := loading \<or> restarting v, dvRefreshText := Tr ''check again'',
       dvRestartOff := loading \<or> restarting v, dvRestartText := (if restarting v then Tr ''restarting'' else Tr ''restart''),
       dvCopyOff := loading \<or> restarting v \<or> dvCopying v, dvBusy := loading \<or> restarting v\<rparr>)"

definition copyIdle :: "mtext \<times> string" where
  "copyIdle = (Tr ''copy the redacted report'', ''neutral'')"

text \<open>\<open>render\<close>: the shell with all buttons disabled, the first check scheduled.\<close>

definition initView :: diag_view where
  "initView = renderButtons \<lparr>dvPage = createLoadingState None 0, dvStart = True, dvOpen = [], dvCopying = False,
     dvRestart = NoRestart, dvRefreshOff = True, dvRefreshText = Tr ''check again'', dvRestartOff = True,
     dvRestartText = Tr ''restart'', dvCopyOff = True, dvBusy = True, dvCopyNote = copyIdle, dvRestartNote = None\<rparr>"

section \<open>Checking\<close>

definition reload :: "jval option \<Rightarrow> diag_view \<Rightarrow> diag_view" where
  "reload e v = (let n = pageRequest (dvPage v) + 1 in
     renderButtons (v\<lparr>dvPage := createLoadingState (Some (dvPage v)) n,
       dvOpen := \<lparr>ldRequest = n, ldPrevious = dvPage v, ldFailed = e, ldCalls = (\<lambda>key. callInit)\<rparr> # dvOpen v,
       dvCopyNote := copyIdle, dvRestartNote := (if restarting v then dvRestartNote v else None)\<rparr>))"

text \<open>
  What the promise of a check ends with: it was overtaken, it was merged into the page, or
  merging or drawing threw. \<open>drawn\<close> tells whether drawing the new page went through.
\<close>

datatype outcome = Ignored | Merged page_phase | Threw

definition mergeLoad :: "load \<Rightarrow> call_result list \<Rightarrow> int \<Rightarrow> bool \<Rightarrow> diag_view \<Rightarrow> outcome \<times> diag_view" where
  "mergeLoad l results now drawn v = (
     if ldRequest l \<noteq> pageRequest (dvPage v) then (Ignored, v)
     else case normalizeResults results (Some (ldPrevious l)) now (ldRequest l) of
       None \<Rightarrow> (Threw, restoreControls (ldRequest l) v)
     | Some p \<Rightarrow> (if drawn then Merged (pagePhase p) else Threw, restoreControls (ldRequest l) (renderButtons (v\<lparr>dvPage := p\<rparr>))))"

definition finishRestart :: "mtext \<times> mtext \<times> string \<Rightarrow> diag_view \<Rightarrow> diag_view" where
  "finishRestart note v = restoreControls (pageRequest (dvPage v)) (v\<lparr>dvRestart := NoRestart, dvRestartNote := Some note\<rparr>)"

definition restartFailed :: "mtext \<times> mtext \<times> string" where
  "restartFailed = (Tr ''restart failed'', Tr ''check the permissions or the log and try again'', ''error'')"

definition restartNote :: "outcome \<Rightarrow> mtext \<times> mtext \<times> string" where
  "restartNote r = (case r of Threw \<Rightarrow> restartFailed
     | _ \<Rightarrow> if r \<noteq> Merged PageError then (Tr ''restarted'', Tr ''the diagnostics were checked again'', ''ready'')
         else (Tr ''restarted'', Tr ''the diagnostics are not back yet'', ''degraded''))"

text \<open>The end of a check, with what the restart that waits for it does then.\<close>

definition endLoad :: "load \<Rightarrow> call_result list \<Rightarrow> int \<Rightarrow> bool \<Rightarrow> diag_view \<Rightarrow> diag_view" where
  "endLoad l results now drawn v = (let (r, v') = mergeLoad l results now drawn (v\<lparr>dvOpen := filter (\<lambda>k. ldRequest k \<noteq> ldRequest l) (dvOpen v)\<rparr>) in
     if dvRestart v' = Checking (ldRequest l) then finishRestart (restartNote r) v' else v')"

definition callResults :: "load \<Rightarrow> call_result list" where
  "callResults l = concat (map (\<lambda>key. resolved (ldCalls l key)) RPC_KEYS)"

text \<open>\<open>Promise.all\<close>: every call has been resolved.\<close>

definition allResolved :: "load \<Rightarrow> bool" where
  "allResolved l = list_all (\<lambda>key. resolved (ldCalls l key) \<noteq> []) RPC_KEYS"

definition unexpectedResults :: "jval \<Rightarrow> call_result list" where
  "unexpectedResults e = map (\<lambda>key. failedCall key (rpcErrorInfo e ''client'')) RPC_KEYS"

text \<open>One event of one call.\<close>

definition onCall :: "load \<Rightarrow> string \<Rightarrow> (call_state \<Rightarrow> call_state) \<Rightarrow> diag_view \<Rightarrow> diag_view" where
  "onCall l key f v = v\<lparr>dvOpen := map (\<lambda>k. if ldRequest k = ldRequest l then k\<lparr>ldCalls := (ldCalls k)(key := f (ldCalls k key))\<rparr> else k) (dvOpen v)\<rparr>"

section \<open>Restarting the service\<close>

definition restartService :: "diag_view \<Rightarrow> diag_view" where
  "restartService v = (if restarting v \<or> pagePhase (dvPage v) = PageLoading then v
     else v\<lparr>dvRestart := Asking, dvRestartNote := Some (Tr ''restarting the service'', Tr ''the check runs again afterwards'', ''loading''),
       dvRestartOff := True, dvRestartText := Tr ''restarting'', dvRefreshOff := True, dvCopyOff := True, dvBusy := True\<rparr>)"

text \<open>The answer of the RPC: only \<open>true\<close> is a restart; a rejection is no answer.\<close>

definition restartAnswer :: "jval option \<Rightarrow> diag_view \<Rightarrow> diag_view" where
  "restartAnswer answer v = (if answer = Some (JBool True) then v\<lparr>dvRestart := Waiting\<rparr> else finishRestart restartFailed v)"

definition restartTimer :: "jval option \<Rightarrow> diag_view \<Rightarrow> diag_view" where
  "restartTimer e v = reload e (v\<lparr>dvRestart := Checking (pageRequest (dvPage v) + 1)\<rparr>)"

section \<open>Copying the report\<close>

text \<open>The argument tells whether the report could be built.\<close>

definition copyReport :: "bool \<Rightarrow> diag_view \<Rightarrow> diag_view" where
  "copyReport built v = (
     if dvCopying v then v
     else if restarting v then v\<lparr>dvCopyNote := (Tr ''wait for the restart'', ''warning'')\<rparr>
     else if pagePhase (dvPage v) = PageLoading then v\<lparr>dvCopyNote := (Tr ''wait for the check'', ''warning'')\<rparr>
     else if \<not> built then v\<lparr>dvCopyNote := (Tr ''the report failed'', ''error'')\<rparr>
     else v\<lparr>dvCopying := True, dvCopyOff := True, dvCopyNote := (Tr ''copying'', ''loading'')\<rparr>)"

text \<open>The clipboard, when there is one, and the copy command of the document otherwise.\<close>

definition copyText :: "bool option \<Rightarrow> bool \<Rightarrow> bool" where
  "copyText clipboard fallback = (clipboard = Some True \<or> fallback)"

definition copyEnds :: "bool \<Rightarrow> diag_view \<Rightarrow> diag_view" where
  "copyEnds ok v = v\<lparr>dvCopying := False, dvCopyOff := (pagePhase (dvPage v) = PageLoading),
     dvCopyNote := (if ok then (Tr ''copied'', ''success'') else (Tr ''copying failed, select the report by hand'', ''error''))\<rparr>"

section \<open>Runs\<close>

text \<open>Everything that can happen on the page; disabled buttons ignore clicks.\<close>

inductive diag_step :: "diag_view \<Rightarrow> diag_view \<Rightarrow> bool" where
  start: "dvStart v \<Longrightarrow> diag_step v (reload e (v\<lparr>dvStart := False\<rparr>))"
| refresh: "\<not> dvRefreshOff v \<Longrightarrow> diag_step v (reload e v)"
| timeout: "l \<in> set (dvOpen v) \<Longrightarrow> ldFailed l = None \<Longrightarrow> key \<in> set RPC_KEYS \<Longrightarrow>
    timerArmed (ldCalls l key) \<Longrightarrow> diag_step v (onCall l key (onTimeout key) v)"
| answer: "l \<in> set (dvOpen v) \<Longrightarrow> ldFailed l = None \<Longrightarrow> key \<in> set RPC_KEYS \<Longrightarrow>
    callOpen (ldCalls l key) \<Longrightarrow> diag_step v (onCall l key (onValue key a) v)"
| rejection: "l \<in> set (dvOpen v) \<Longrightarrow> ldFailed l = None \<Longrightarrow> key \<in> set RPC_KEYS \<Longrightarrow>
    callOpen (ldCalls l key) \<Longrightarrow> diag_step v (onCall l key (onRejection key r) v)"
| ends: "l \<in> set (dvOpen v) \<Longrightarrow> ldFailed l = None \<Longrightarrow> allResolved l \<Longrightarrow>
    diag_step v (endLoad l (callResults l) now drawn v)"
| fails: "l \<in> set (dvOpen v) \<Longrightarrow> ldFailed l = Some e \<Longrightarrow> diag_step v (endLoad l (unexpectedResults e) now drawn v)"
| restart: "\<not> dvRestartOff v \<Longrightarrow> diag_step v (restartService v)"
| answered: "dvRestart v = Asking \<Longrightarrow> diag_step v (restartAnswer r v)"
| delayed: "dvRestart v = Waiting \<Longrightarrow> diag_step v (restartTimer e v)"
| copy: "\<not> dvCopyOff v \<Longrightarrow> diag_step v (copyReport built v)"
| copied: "dvCopying v \<Longrightarrow> diag_step v (copyEnds (copyText clipboard fallback) v)"

inductive diag_run :: "diag_view \<Rightarrow> bool" where
  render: "diag_run initView"
| step: "diag_run v \<Longrightarrow> diag_step v w \<Longrightarrow> diag_run w"

section \<open>What holds throughout\<close>

text \<open>Values that count as usable have passed their validator.\<close>

definition loadOk :: "load \<Rightarrow> bool" where
  "loadOk l \<longleftrightarrow> keptPage (ldPrevious l) \<and> (\<forall>key \<in> set RPC_KEYS. runCall key (ldCalls l key))"

definition loading :: "diag_view \<Rightarrow> bool" where
  "loading v \<longleftrightarrow> pagePhase (dvPage v) = PageLoading"

definition openOk :: "diag_view \<Rightarrow> bool" where
  "openOk v \<longleftrightarrow> (if dvStart v then dvOpen v = [] \<and> loading v \<and> dvRestart v = NoRestart
     else if loading v then (\<exists>l. dvOpen v = [l] \<and> ldRequest l = pageRequest (dvPage v) \<and> loadOk l) else dvOpen v = [])"

definition restartOk :: "diag_view \<Rightarrow> bool" where
  "restartOk v \<longleftrightarrow> (case dvRestart v of NoRestart \<Rightarrow> True | Checking n \<Rightarrow> loading v \<and> n = pageRequest (dvPage v) | _ \<Rightarrow> \<not> loading v)"

definition buttonsOk :: "diag_view \<Rightarrow> bool" where
  "buttonsOk v \<longleftrightarrow> (dvRefreshOff v \<longleftrightarrow> loading v \<or> restarting v) \<and> (dvRestartOff v \<longleftrightarrow> loading v \<or> restarting v) \<and>
     (loading v \<or> dvCopying v \<longrightarrow> dvCopyOff v)"

text \<open>While a check is under way every resource is loading.\<close>

definition loadingPage :: "page \<Rightarrow> bool" where
  "loadingPage p \<longleftrightarrow> (\<forall>key \<in> set RPC_KEYS. (\<exists>r. resources p key = Some r \<and> resPhase r = Loading) \<and>
     (\<exists>q. rpcs p key = Some q \<and> \<not> sumOk q \<and> sumPhase q = Loading \<and> sumError q = None))"

definition pageKnown :: "diag_view \<Rightarrow> bool" where
  "pageKnown v \<longleftrightarrow> keptPage (dvPage v) \<and> (if loading v then loadingPage (dvPage v)
     else pageOk (dvPage v))"

definition diagInv :: "diag_view \<Rightarrow> bool" where
  "diagInv v \<longleftrightarrow> openOk v \<and> restartOk v \<and> buttonsOk v \<and> pageKnown v"

subsection \<open>Pages\<close>

lemma emptyValue_truthy: "truthy (emptyValue key)"
  by (simp add: emptyValue_def)

lemma loadingResource_kept:
  assumes "\<And>r. previous = Some r \<Longrightarrow> keptOk key r"
  shows "keptOk key (loadingResource key n previous)"
proof (cases previous)
  case (Some r)
  then show ?thesis using assms validated_truthy [of key "resValue r"] by (auto simp: keptOk_def loadingResource_def)
qed (simp add: keptOk_def loadingResource_def)

lemma createLoadingState_kept:
  assumes "\<And>q. previous = Some q \<Longrightarrow> keptPage q"
  shows "keptPage (createLoadingState previous n)"
proof -
  have "keptOk key (loadingResource key n (Option.bind previous (\<lambda>p. resources p key)))" if "key \<in> set RPC_KEYS" for key
    using assms that by (intro loadingResource_kept) (force simp: keptPage_def split: Option.bind_splits)
  then show ?thesis by (simp add: keptPage_def createLoadingState_def Let_def)
qed

lemma loadingResource_phase [simp]: "resPhase (loadingResource key n previous) = Loading"
  by (cases previous) (simp_all add: loadingResource_def)

lemma loadingPage_state:
  assumes "loadingPage p"
  shows "pageState (resources p) (rpcs p) = PageLoading"
proof -
  have key: "''status'' \<in> set RPC_KEYS" by (simp add: RPC_KEYS_def)
  then have "rsState (rpcState (resources p) (rpcs p) ''status'') = RpcPhase Loading"
    using assms by (auto simp: loadingPage_def rpcState_def phaseState_def)
  then have "list_ex (\<lambda>st. rsState st = RpcPhase Loading \<or> rsState st = RpcMissing) (rpcStates (resources p) (rpcs p))"
    using key by (auto simp: list_ex_iff rpcStates_def)
  then show ?thesis unfolding pageState_def Let_def by (rule if_P)
qed

lemma createLoadingState_loading: "loadingPage (createLoadingState previous n)"
  by (simp add: loadingPage_def createLoadingState_def Let_def)

lemma createLoadingState_simps [simp]:
  "pagePhase (createLoadingState previous n) = PageLoading" "pageRequest (createLoadingState previous n) = n"
  by (simp_all add: createLoadingState_def Let_def)

subsection \<open>Buttons\<close>

lemma renderButtons_simps [simp]:
  "dvPage (renderButtons v) = dvPage v" "dvStart (renderButtons v) = dvStart v" "dvOpen (renderButtons v) = dvOpen v"
  "dvCopying (renderButtons v) = dvCopying v" "dvRestart (renderButtons v) = dvRestart v"
  by (simp_all add: renderButtons_def Let_def)

lemma restoreControls_simps [simp]:
  "dvPage (restoreControls n v) = dvPage v" "dvStart (restoreControls n v) = dvStart v" "dvOpen (restoreControls n v) = dvOpen v"
  "dvCopying (restoreControls n v) = dvCopying v" "dvRestart (restoreControls n v) = dvRestart v"
  by (simp_all add: restoreControls_def Let_def)

lemma renderButtons_ok: "loading v \<Longrightarrow> loadingPage (dvPage v) \<Longrightarrow> buttonsOk (renderButtons v)"
  using loadingPage_state [of "dvPage v"] by (simp add: buttonsOk_def renderButtons_def Let_def loading_def restarting_def)

lemma restoreControls_ok: "n = pageRequest (dvPage v) \<Longrightarrow> buttonsOk (restoreControls n v)"
  by (simp add: buttonsOk_def restoreControls_def Let_def loading_def restarting_def)

subsection \<open>Steps\<close>

lemma initView_inv: "diagInv initView"
proof -
  have "keptPage (createLoadingState None 0)" by (rule createLoadingState_kept) simp
  then show ?thesis
    by (simp add: diagInv_def initView_def openOk_def restartOk_def pageKnown_def loading_def createLoadingState_loading renderButtons_ok)
qed

lemma reload_inv:
  assumes "keptPage (dvPage v)" "dvOpen v = []" "\<not> dvStart v"
    "dvRestart v = NoRestart \<or> dvRestart v = Checking (pageRequest (dvPage v) + 1)"
  shows "diagInv (reload e v)"
proof -
  have k: "keptPage (createLoadingState (Some (dvPage v)) (Suc (pageRequest (dvPage v))))"
    using assms(1) by (intro createLoadingState_kept) simp
  have l: "loadOk \<lparr>ldRequest = Suc (pageRequest (dvPage v)), ldPrevious = dvPage v, ldFailed = e, ldCalls = \<lambda>key. callInit\<rparr>"
    using assms(1) runCall.start by (simp add: loadOk_def)
  show ?thesis using assms(2-4) k l
    by (auto simp: diagInv_def reload_def openOk_def restartOk_def pageKnown_def loading_def createLoadingState_loading Let_def
        intro!: renderButtons_ok)
qed

lemma invD:
  assumes "diagInv v"
  shows "keptPage (dvPage v)" "dvStart v \<Longrightarrow> dvOpen v = [] \<and> loading v \<and> dvRestart v = NoRestart"
    "loading v \<Longrightarrow> \<not> dvStart v \<Longrightarrow> \<exists>l. dvOpen v = [l] \<and> ldRequest l = pageRequest (dvPage v) \<and> loadOk l"
    "\<not> loading v \<Longrightarrow> dvOpen v = [] \<and> pageOk (dvPage v) \<and> \<not> dvStart v"
    "loading v \<Longrightarrow> dvRestart v = NoRestart \<or> dvRestart v = Checking (pageRequest (dvPage v))"
    "\<not> loading v \<Longrightarrow> dvRestart v \<in> {NoRestart, Asking, Waiting}"
    "dvRefreshOff v \<longleftrightarrow> loading v \<or> restarting v" "dvRestartOff v \<longleftrightarrow> loading v \<or> restarting v"
    "loading v \<or> dvCopying v \<Longrightarrow> dvCopyOff v"
  using assms by (auto simp: diagInv_def openOk_def restartOk_def buttonsOk_def pageKnown_def split: if_splits restart.splits)

lemma open_load:
  assumes "diagInv v" "l \<in> set (dvOpen v)"
  shows "dvOpen v = [l]" "ldRequest l = pageRequest (dvPage v)" "loadOk l" "loading v" "\<not> dvStart v"
proof -
  show l: "loading v" by (rule ccontr) (use invD(4) [OF assms(1)] assms(2) in simp)
  show n: "\<not> dvStart v" using invD(2) [OF assms(1)] assms(2) by auto
  obtain k where "dvOpen v = [k]" "ldRequest k = pageRequest (dvPage v)" "loadOk k" using invD(3) [OF assms(1) l n] by blast
  then show "dvOpen v = [l]" "ldRequest l = pageRequest (dvPage v)" "loadOk l" using assms(2) by simp_all
qed

lemma onCall_inv:
  assumes "diagInv v" "l \<in> set (dvOpen v)" "runCall key (f (ldCalls l key))"
  shows "diagInv (onCall l key f v)"
proof -
  note l = open_load [OF assms(1,2)]
  have "loadOk (l\<lparr>ldCalls := (ldCalls l)(key := f (ldCalls l key))\<rparr>)" using l(3) assms(3) by (simp add: loadOk_def)
  then show ?thesis using assms(1) l
    by (simp add: diagInv_def onCall_def openOk_def restartOk_def buttonsOk_def pageKnown_def loading_def restarting_def
        split: restart.splits)
qed

subsection \<open>The end of a check\<close>

lemma callResults_valid: "loadOk l \<Longrightarrow> validResults (callResults l)"
proof (rule fromCalls_valid)
  assume l: "loadOk l"
  show "fromCalls (callResults l)" unfolding fromCalls_def list_all_iff
  proof
    fix r assume "r \<in> set (callResults l)"
    then obtain key where k: "key \<in> set RPC_KEYS" "r \<in> set (resolved (ldCalls l key))" by (auto simp: callResults_def)
    then have "runCall key (ldCalls l key)" using l by (simp add: loadOk_def)
    then show "\<exists>s. runCall (callKey r) s \<and> r \<in> set (resolved s)" using k(2) runCall_results by blast
  qed
qed

lemma unexpectedResults_valid: "validResults (unexpectedResults e)"
  by (simp add: validResults_def unexpectedResults_def failedCall_def list_all_iff)

lemma normalizeResults_request: "normalizeResults results q now n = Some p \<Longrightarrow> pageRequest p = n"
  by (auto simp: normalizeResults_def Let_def split: if_splits)

lemma mergeLoad_settles:
  assumes "loadOk l" "ldRequest l = pageRequest (dvPage v)" "validResults results"
  obtains p where "normalizeResults results (Some (ldPrevious l)) now (ldRequest l) = Some p" "pageOk p" "pagePhase p \<noteq> PageLoading"
    "mergeLoad l results now drawn v = (if drawn then Merged (pagePhase p) else Threw,
      restoreControls (pageRequest p) (renderButtons (v\<lparr>dvPage := p\<rparr>)))"
proof -
  have "\<exists>p. normalizeResults results (Some (ldPrevious l)) now (ldRequest l) = Some p \<and> pageOk p"
    using assms(1,3) by (intro normalizeResults_ok) (simp_all add: loadOk_def)
  then obtain p where p: "normalizeResults results (Some (ldPrevious l)) now (ldRequest l) = Some p" "pageOk p" by blast
  have "mergeLoad l results now drawn v = (if drawn then Merged (pagePhase p) else Threw,
      restoreControls (pageRequest p) (renderButtons (v\<lparr>dvPage := p\<rparr>)))"
    using assms(2) p(1) normalizeResults_request [OF p(1)] by (simp add: mergeLoad_def)
  then show ?thesis using that p pageOk_phase [OF p(2)] by blast
qed

text \<open>However a check ends, it ends the loading and leaves the buttons enabled.\<close>

lemma endLoad_settles:
  assumes "diagInv v" "l \<in> set (dvOpen v)" "validResults results"
  shows "diagInv (endLoad l results now drawn v)" "\<not> loading (endLoad l results now drawn v)"
    "dvRestart (endLoad l results now drawn v) = NoRestart"
proof -
  note l = open_load [OF assms(1,2)]
  let ?v = "v\<lparr>dvOpen := filter (\<lambda>k. ldRequest k \<noteq> ldRequest l) (dvOpen v)\<rparr>"
  have "ldRequest l = pageRequest (dvPage ?v)" using l(2) by simp
  then obtain p where p: "pageOk p" "pagePhase p \<noteq> PageLoading"
    "normalizeResults results (Some (ldPrevious l)) now (ldRequest l) = Some p"
    "mergeLoad l results now drawn ?v = (if drawn then Merged (pagePhase p) else Threw,
      restoreControls (pageRequest p) (renderButtons (?v\<lparr>dvPage := p\<rparr>)))"
    using mergeLoad_settles [OF l(3) _ assms(3)] by metis
  let ?w = "restoreControls (pageRequest p) (renderButtons (?v\<lparr>dvPage := p\<rparr>))"
  have w: "dvPage ?w = p" "dvOpen ?w = []" "\<not> dvStart ?w" "dvRestart ?w = dvRestart v" "\<not> loading ?w"
    using l p(2) by (simp_all add: loading_def)
  have e: "endLoad l results now drawn v = (if dvRestart v = Checking (ldRequest l)
      then finishRestart (restartNote (if drawn then Merged (pagePhase p) else Threw)) ?w else ?w)"
    unfolding endLoad_def Let_def p(4) by simp
  have ready: "diagInv u" if "dvPage u = p" "dvOpen u = []" "\<not> dvStart u" "dvRestart u = NoRestart" "buttonsOk u" for u
    using that p(1,2) pageOk_kept [OF p(1)] by (simp add: diagInv_def openOk_def restartOk_def pageKnown_def loading_def)
  have b: "buttonsOk ?w" by (rule restoreControls_ok) simp
  have f: "diagInv (finishRestart n ?w) \<and> dvRestart (finishRestart n ?w) = NoRestart \<and> \<not> loading (finishRestart n ?w)" for n
  proof -
    have "buttonsOk (finishRestart n ?w)" unfolding finishRestart_def by (rule restoreControls_ok) simp
    moreover have "dvPage (finishRestart n ?w) = p \<and> dvOpen (finishRestart n ?w) = [] \<and> \<not> dvStart (finishRestart n ?w) \<and>
        dvRestart (finishRestart n ?w) = NoRestart" using w by (simp add: finishRestart_def)
    ultimately show ?thesis using ready p(2) by (simp add: loading_def)
  qed
  have "diagInv (endLoad l results now drawn v) \<and> \<not> loading (endLoad l results now drawn v) \<and>
    dvRestart (endLoad l results now drawn v) = NoRestart"
  proof (cases "dvRestart v = Checking (ldRequest l)")
    case True
    then show ?thesis unfolding e using f by simp
  next
    case False
    then have "dvRestart v = NoRestart" using invD(5) [OF assms(1) l(4)] l(2) by simp
    then show ?thesis unfolding e using False w b ready by simp
  qed
  then show "diagInv (endLoad l results now drawn v)" "\<not> loading (endLoad l results now drawn v)"
    "dvRestart (endLoad l results now drawn v) = NoRestart" by simp_all
qed

subsection \<open>Every step\<close>

lemma restartService_inv: "diagInv v \<Longrightarrow> diagInv (restartService v)"
  by (auto simp: diagInv_def restartService_def openOk_def restartOk_def buttonsOk_def pageKnown_def loading_def restarting_def
      split: if_splits)

lemma restartAnswer_inv:
  assumes "diagInv v" "dvRestart v = Asking"
  shows "diagInv (restartAnswer r v)"
proof -
  have n: "\<not> loading v" using invD(5) [OF assms(1)] assms(2) by auto
  note settled = invD(1) [OF assms(1)] invD(4) [OF assms(1) n]
  have "buttonsOk (finishRestart restartFailed v)" unfolding finishRestart_def by (rule restoreControls_ok) simp
  then show ?thesis using settled n assms
    by (auto simp: diagInv_def restartAnswer_def finishRestart_def openOk_def restartOk_def pageKnown_def loading_def buttonsOk_def
        restarting_def)
qed

lemma restartTimer_inv:
  assumes "diagInv v" "dvRestart v = Waiting"
  shows "diagInv (restartTimer e v)"
proof -
  have n: "\<not> loading v" using invD(5) [OF assms(1)] assms(2) by auto
  show ?thesis unfolding restartTimer_def using invD(1) [OF assms(1)] invD(4) [OF assms(1) n] by (intro reload_inv) simp_all
qed

lemma same_inv:
  assumes "diagInv v" "dvPage w = dvPage v" "dvStart w = dvStart v" "dvOpen w = dvOpen v" "dvRestart w = dvRestart v"
    "dvRefreshOff w = dvRefreshOff v" "dvRestartOff w = dvRestartOff v" "loading v \<or> dvCopying w \<Longrightarrow> dvCopyOff w"
  shows "diagInv w"
proof -
  have "loading w = loading v" "restarting w = restarting v" using assms(2,5) by (simp_all add: loading_def restarting_def)
  then show ?thesis using assms by (simp add: diagInv_def openOk_def restartOk_def buttonsOk_def pageKnown_def split: restart.splits)
qed

lemma copyReport_inv: "diagInv v \<Longrightarrow> diagInv (copyReport built v)"
  by (rule same_inv [of v]) (use invD(9) [of v] in \<open>auto simp: copyReport_def loading_def split: if_splits\<close>)

lemma copyEnds_inv: "diagInv v \<Longrightarrow> diagInv (copyEnds ok v)"
  by (rule same_inv [of v]) (simp_all add: copyEnds_def loading_def)

lemma diag_step_inv:
  assumes "diag_step v w" "diagInv v"
  shows "diagInv w"
  using assms
proof (cases rule: diag_step.cases)
  case (start e)
  then show ?thesis using invD(1,2) [OF assms(2)] by (auto intro!: reload_inv)
next
  case (refresh e)
  then have "\<not> loading v" "dvRestart v = NoRestart" using invD(7) [OF assms(2)] by (auto simp: restarting_def)
  then show ?thesis using refresh invD(1,4) [OF assms(2)] by (auto intro!: reload_inv)
next
  case (timeout l key)
  then have "runCall key (ldCalls l key)" using open_load(3) [OF assms(2)] by (simp add: loadOk_def)
  then show ?thesis using timeout runCall.timeout by (auto intro!: onCall_inv [OF assms(2)])
next
  case (answer l key a)
  then have "runCall key (ldCalls l key)" using open_load(3) [OF assms(2)] by (simp add: loadOk_def)
  then show ?thesis using answer runCall.answer by (auto intro!: onCall_inv [OF assms(2)])
next
  case (rejection l key r)
  then have "runCall key (ldCalls l key)" using open_load(3) [OF assms(2)] by (simp add: loadOk_def)
  then show ?thesis using rejection runCall.rejection by (auto intro!: onCall_inv [OF assms(2)])
next
  case (ends l now drawn)
  then show ?thesis using endLoad_settles(1) [OF assms(2)] callResults_valid [OF open_load(3) [OF assms(2)]] by simp
next
  case (fails l e now drawn)
  then show ?thesis using endLoad_settles(1) [OF assms(2)] unexpectedResults_valid by simp
qed (simp_all add: assms(2) restartService_inv restartAnswer_inv restartTimer_inv copyReport_inv copyEnds_inv)

lemma diag_run_inv: "diag_run v \<Longrightarrow> diagInv v"
  by (induction rule: diag_run.induct) (simp_all add: initView_inv diag_step_inv)

section \<open>What the user can rely on\<close>

text \<open>The page right after the first check was started.\<close>

definition startedView :: diag_view where
  "startedView = reload None (initView\<lparr>dvStart := False\<rparr>)"

lemma startedView_run: "diag_run startedView"
proof -
  have "dvStart initView" by (simp add: initView_def)
  from diag_step.start [OF this] show ?thesis unfolding startedView_def by (rule diag_run.step [OF diag_run.render])
qed

lemma startedView_open:
  "dvOpen startedView = [\<lparr>ldRequest = 1, ldPrevious = dvPage initView, ldFailed = None, ldCalls = (\<lambda>key. callInit)\<rparr>]"
  "loading startedView" "dvRestart startedView = NoRestart"
  by (simp_all add: startedView_def reload_def initView_def loading_def)





subsection \<open>Progress\<close>

text \<open>What time alone does to a check: every timer that is still armed fires, then the check ends.\<close>

definition expire :: "string list \<Rightarrow> load \<Rightarrow> load" where
  "expire keys l = l\<lparr>ldCalls := (\<lambda>key. if key \<in> set keys \<and> timerArmed (ldCalls l key)
     then onTimeout key (ldCalls l key) else ldCalls l key)\<rparr>"

definition timeEnds :: "load \<Rightarrow> int \<Rightarrow> bool \<Rightarrow> diag_view \<Rightarrow> diag_view" where
  "timeEnds l now drawn v = (case ldFailed l of
     Some e \<Rightarrow> endLoad l (unexpectedResults e) now drawn v
   | None \<Rightarrow> (let k = expire RPC_KEYS l in endLoad k (callResults k) now drawn (v\<lparr>dvOpen := [k]\<rparr>)))"

text \<open>The call of the client list ended without a result.\<close>

definition hung :: "load \<Rightarrow> bool" where
  "hung l \<longleftrightarrow> ldFailed l = None \<and> settled (ldCalls l ''clients'') \<and> resolved (ldCalls l ''clients'') = []"

lemma expire_simps [simp]: "ldRequest (expire keys l) = ldRequest l" "ldFailed (expire keys l) = ldFailed l"
  by (simp_all add: expire_def)

lemma expire_reach:
  assumes "dvOpen v = [l]" "ldFailed l = None" "set keys \<subseteq> set RPC_KEYS" "distinct keys"
  shows "diag_step\<^sup>*\<^sup>* v (v\<lparr>dvOpen := [expire keys l]\<rparr>)"
  using assms(3,4)
proof (induction keys)
  case Nil
  have "expire [] l = l" by (simp add: expire_def)
  then have "v\<lparr>dvOpen := [expire [] l]\<rparr> = v" using assms(1) by simp
  then show ?case by simp
next
  case (Cons key keys)
  let ?k = "expire keys l" and ?v = "v\<lparr>dvOpen := [expire keys l]\<rparr>"
  have reach: "diag_step\<^sup>*\<^sup>* v ?v" using Cons by simp
  have same: "ldCalls ?k key = ldCalls l key" using Cons.prems(2) by (simp add: expire_def)
  show ?case
  proof (cases "timerArmed (ldCalls l key)")
    case True
    then have "diag_step ?v (onCall ?k key (onTimeout key) ?v)"
      using Cons.prems assms(2) same by (intro diag_step.timeout) simp_all
    moreover have "onCall ?k key (onTimeout key) ?v = v\<lparr>dvOpen := [expire (key # keys) l]\<rparr>"
      using True Cons.prems(2) by (auto simp: onCall_def expire_def fun_eq_iff)
    ultimately show ?thesis using reach by simp
  next
    case False
    then have "expire (key # keys) l = ?k"
      unfolding expire_def by (intro arg_cong [where f = "\<lambda>c. l\<lparr>ldCalls := c\<rparr>"]) (auto simp: fun_eq_iff)
    then show ?thesis using reach by simp
  qed
qed

lemma expire_resolved:
  assumes "loadOk l" "\<not> hung l" "ldFailed l = None"
  shows "allResolved (expire RPC_KEYS l)"
  unfolding allResolved_def list_all_iff
proof
  fix key assume key: "key \<in> set RPC_KEYS"
  then have run: "runCall key (ldCalls l key)" using assms(1) by (simp add: loadOk_def)
  show "resolved (ldCalls (expire RPC_KEYS l) key) \<noteq> []"
  proof (cases "settled (ldCalls l key)")
    case True
    then show ?thesis using runCall_inv [OF run] assms(2,3) key by (auto simp: expire_def hung_def)
  next
    case False
    then show ?thesis using runCall_inv [OF run] key by (simp add: expire_def onTimeout_def)
  qed
qed

text \<open>
  C8: A check always comes to its end by itself, unless the call of the client list hangs: when no RPC
  answers any more, the timers that are armed resolve every call, the check ends, the page leaves the
  loading state, a restart that was waiting is over, and the refresh and restart buttons work again.
\<close>
theorem diag_page_progress:
  assumes "diag_run v" "dvOpen v = [l]" "\<not> hung l"
  shows "diag_step\<^sup>*\<^sup>* v (timeEnds l now drawn v) \<and> \<not> loading (timeEnds l now drawn v) \<and> \<not> restarting (timeEnds l now drawn v) \<and>
    \<not> dvRefreshOff (timeEnds l now drawn v) \<and> \<not> dvRestartOff (timeEnds l now drawn v)"
proof -
  note inv = diag_run_inv [OF assms(1)]
  have mem: "l \<in> set (dvOpen v)" using assms(2) by simp
  have finish: ?thesis if "diag_step\<^sup>*\<^sup>* v (timeEnds l now drawn v)" "diagInv (timeEnds l now drawn v)"
    "\<not> loading (timeEnds l now drawn v)" "dvRestart (timeEnds l now drawn v) = NoRestart"
    using that invD(7,8) [OF that(2)] by (simp add: restarting_def)
  show ?thesis
  proof (cases "ldFailed l")
    case (Some e)
    then have "timeEnds l now drawn v = endLoad l (unexpectedResults e) now drawn v" by (simp add: timeEnds_def)
    then show ?thesis using endLoad_settles [OF inv mem unexpectedResults_valid] diag_step.fails [OF mem Some]
      by (intro finish) auto
  next
    case None
    let ?k = "expire RPC_KEYS l" and ?v = "v\<lparr>dvOpen := [expire RPC_KEYS l]\<rparr>"
    have keys: "distinct RPC_KEYS" by (simp add: RPC_KEYS_def)
    have reach: "diag_step\<^sup>*\<^sup>* v ?v" using expire_reach [OF assms(2) None _ keys] by simp
    have inv2: "diagInv ?v" using reach inv by (induction rule: rtranclp_induct) (auto intro: diag_step_inv)
    have mem2: "?k \<in> set (dvOpen ?v)" by simp
    have "loadOk ?k" by (rule open_load(3) [OF inv2 mem2])
    then have valid: "validResults (callResults ?k)" by (rule callResults_valid)
    have "allResolved ?k" by (rule expire_resolved [OF open_load(3) [OF inv mem] assms(3) None])
    then have step: "diag_step ?v (endLoad ?k (callResults ?k) now drawn ?v)" using None by (intro diag_step.ends [OF mem2]) simp_all
    have e: "timeEnds l now drawn v = endLoad ?k (callResults ?k) now drawn ?v" by (simp add: timeEnds_def None Let_def)
    show ?thesis
    proof (rule finish)
      show "diag_step\<^sup>*\<^sup>* v (timeEnds l now drawn v)" unfolding e using reach step by (rule rtranclp.rtrancl_into_rtrancl)
    qed (simp_all only: e endLoad_settles [OF inv2 mem2 valid] not_False_eq_True)
  qed
qed

theorem diag_page_progress_witness:
  "\<exists>l. dvOpen startedView = [l] \<and> \<not> dvRefreshOff (timeEnds l 5 True startedView)"
proof -
  let ?l = "\<lparr>ldRequest = 1, ldPrevious = dvPage initView, ldFailed = None, ldCalls = (\<lambda>key. callInit)\<rparr>"
  have "\<not> hung ?l" by (simp add: hung_def callInit_def)
  from diag_page_progress [OF startedView_run startedView_open(1) this] show ?thesis using startedView_open(1) by blast
qed

subsection \<open>The page that hangs\<close>

text \<open>A check whose client list hangs.\<close>

definition stuck :: "diag_view \<Rightarrow> bool" where
  "stuck v \<longleftrightarrow> diagInv v \<and> (\<exists>l. dvOpen v = [l] \<and> hung l)"

lemma hung_event:
  assumes "hung l"
  shows "hung (l\<lparr>ldCalls := (ldCalls l)(key := onTimeout key (ldCalls l key))\<rparr>)"
    "hung (l\<lparr>ldCalls := (ldCalls l)(key := onValue key a (ldCalls l key))\<rparr>)"
    "hung (l\<lparr>ldCalls := (ldCalls l)(key := onRejection key a (ldCalls l key))\<rparr>)"
  using assms by (auto simp: hung_def onTimeout_def onValue_def onRejection_def)

lemma stuck_off:
  assumes "stuck v"
  shows "loading v" "dvRefreshOff v" "dvRestartOff v" "dvCopyOff v" "\<not> dvStart v"
    "dvRestart v \<noteq> Asking" "dvRestart v \<noteq> Waiting"
proof -
  obtain l where inv: "diagInv v" and l: "dvOpen v = [l]" using assms by (auto simp: stuck_def)
  then have mem: "l \<in> set (dvOpen v)" by simp
  show on: "loading v" and "\<not> dvStart v" by (rule open_load [OF inv mem])+
  then show "dvRefreshOff v" "dvRestartOff v" "dvCopyOff v" "dvRestart v \<noteq> Asking" "dvRestart v \<noteq> Waiting"
    using invD(5,7-9) [OF inv] by auto
qed

lemma stuck_step:
  assumes "diag_step v w" "stuck v"
  shows "stuck w"
proof -
  obtain l where inv: "diagInv v" and l: "dvOpen v = [l]" "hung l" using assms(2) by (auto simp: stuck_def)
  have inv2: "diagInv w" by (rule diag_step_inv [OF assms(1) inv])
  have clients: "''clients'' \<in> set RPC_KEYS" by (simp add: RPC_KEYS_def)
  have "\<exists>k. dvOpen w = [k] \<and> hung k"
    using assms(1)
  proof (cases rule: diag_step.cases)
    case (timeout k key)
    then show ?thesis using l hung_event(1) [OF l(2)] by (simp add: onCall_def)
  next
    case (answer k key a)
    then show ?thesis using l hung_event(2) [OF l(2)] by (simp add: onCall_def)
  next
    case (rejection k key r)
    then show ?thesis using l hung_event(3) [OF l(2)] by (simp add: onCall_def)
  next
    case (ends k now drawn)
    then show ?thesis using l clients by (auto simp: allResolved_def list_all_iff hung_def)
  next
    case (fails k e now drawn)
    then show ?thesis using l by (simp add: hung_def)
  next
    case (copied clipboard fallback)
    then show ?thesis using l by (simp add: copyEnds_def)
  qed (use stuck_off [OF assms(2)] in simp_all)
  then show ?thesis using inv2 by (simp add: stuck_def)
qed


end
