(* ===== verification/DiagRefresh.thy ===== *)
theory DiagRefresh
  imports DiagController ClientControl Format
begin

text \<open>
  What the diagnostics page shows, \<open>lanspeed/diagnosticsRefresh.js\<close> and \<open>mergeRuntime\<close> of
  \<open>lanspeed/diagnosticsModel.js\<close>: each function that fills nodes becomes the values it fills
  them with.
\<close>

section \<open>Labels\<close>

definition stateClass :: "string \<Rightarrow> string" where
  "stateClass s = (if s = ''good'' then ''label-success''
     else if s = ''warning'' \<or> s = ''degraded'' \<or> s = ''partial'' then ''label-warning''
     else if s = ''bad'' \<or> s = ''error'' \<or> s = ''invalid'' then ''label-danger'' else [])"

definition healthName :: "health \<Rightarrow> string" where
  "healthName h = (case h of Neutral \<Rightarrow> ''neutral'' | Good \<Rightarrow> ''good'' | Warning \<Rightarrow> ''warning'' | Bad \<Rightarrow> ''bad'')"

definition pagePhaseName :: "page_phase \<Rightarrow> string" where
  "pagePhaseName ph = (case ph of PageLoading \<Rightarrow> ''loading'' | PageError \<Rightarrow> ''error'' | PageEmpty \<Rightarrow> ''empty''
     | PagePartial \<Rightarrow> ''partial'' | PageDegraded \<Rightarrow> ''degraded'' | PageReady \<Rightarrow> ''ready'')"

definition phaseLabel :: "string \<Rightarrow> mtext" where
  "phaseLabel ph = labelOr [(''loading'', Tr ''checking''), (''success'', Tr ''successful''), (''empty'', Tr ''no data''),
     (''stale'', Tr ''out of date''), (''degraded'', Tr ''degraded''), (''error'', Tr ''failed''), (''invalid'', Tr ''invalid contract''),
     (''fresh'', Tr ''fresh''), (''healthy'', Tr ''normal''), (''unavailable'', Tr ''unavailable''), (''disabled'', Tr ''not enabled'')]
     ph (Tr ''not checked'')"

definition SUBSYSTEM_LABELS :: "(string \<times> mtext) list" where
  "SUBSYSTEM_LABELS = [(''bpf'', Tr ''slow path (BPF)''), (''tc'', Tr ''hooks (TC)''), (''bpf_map'', Tr ''classifier maps''),
     (''conntrack'', Tr ''connection tracking''), (''nss'', Tr ''NSS acceleration''), (''nss_control'', Tr ''NSS client control''),
     (''identity'', Tr ''attachment of clients''), (''ubus'', Tr ''RPC service'')]"

definition subsystemLabel :: "string \<Rightarrow> bool \<Rightarrow> mtext" where
  "subsystemLabel k nss = (if \<not> nss \<and> k = ''identity'' then Tr ''identity of clients''
     else labelOr SUBSYSTEM_LABELS k (Tr ''unknown component''))"

definition NEUTRAL_DISABLED_SUBSYSTEM_CODES :: "string list" where
  "NEUTRAL_DISABLED_SUBSYSTEM_CODES = [''bpf_disabled'', ''bpf_not_selected'', ''tc_bpf_not_selected'', ''nss_not_present'',
     ''nss_control_not_configured'', ''nss_control_no_active_client'']"

text \<open>Whether the reason is only the general sentence of \<open>clientControlReasons.js\<close>.\<close>

definition generalReason :: "mtext \<Rightarrow> bool" where
  "generalReason t = (case t of Fmt f ts \<Rightarrow> f = ''control unavailable: %s'' | _ \<Rightarrow> False)"

definition subsystemCodeText :: "jval \<Rightarrow> mtext" where
  "subsystemCodeText k = (if \<not> truthy k then Lit ''-''
     else if hasWarning k then warningText k
     else (let t = ClientControl.reasonText k in
       if t \<noteq> Lit [] \<and> \<not> generalReason t then t else Fmt ''unknown diagnostic code: %s'' [Lit (toStr k)]))"

text \<open>A lookup of the neutral codes; a member every object inherits counts as one.\<close>

definition subsystemRowState :: "jval \<Rightarrow> jval \<Rightarrow> health" where
  "subsystemRowState state k = (if state = JStr ''healthy'' then Good else if state = JStr ''degraded'' then Warning
     else if state = JStr ''unavailable'' then Bad
     else if state = JStr ''disabled''
     then (if k = JStr ''no_collect_interface'' then Bad
       else if toStr k \<in> set NEUTRAL_DISABLED_SUBSYSTEM_CODES \<or> toStr k \<in> set protoKeys then Neutral else Warning)
     else Neutral)"

definition rpcErrorText :: "rpc_summary \<Rightarrow> mtext" where
  "rpcErrorText q = (case sumError q of None \<Rightarrow> Tr ''unknown RPC failure''
     | Some e \<Rightarrow> Cat ([labelOr [(''timeout'', Tr ''timed out''), (''contract'', Tr ''invalid contract''), (''missing'', Tr ''no result''),
           (''client'', Tr ''page failed''), (''transport'', Tr ''transmission failed'')] (errKind e) (Tr ''RPC failed''), dot,
         if errMessage e = [] then Tr ''unknown RPC failure'' else Lit (errMessage e)] @
         (if errCode e = [] then [] else [Lit '' ('', Lit (errCode e), Lit '')''])))"

definition emptyText :: "mtext \<Rightarrow> bool" where
  "emptyText t = (t = Lit [])"

definition shownText :: "mtext \<Rightarrow> mtext" where
  "shownText t = (if emptyText t then Lit ''-'' else t)"

section \<open>Facts and stages\<close>

record fact =
  ftState :: health
  ftValue :: mtext
  ftMeta :: mtext

definition setFact :: "health \<Rightarrow> mtext \<Rightarrow> mtext \<Rightarrow> fact" where
  "setFact st v meta = \<lparr>ftState = st, ftValue = shownText v, ftMeta = meta\<rparr>"

record stage =
  sgState :: health
  sgClass :: string
  sgBadge :: mtext
  sgValue :: mtext
  sgText :: mtext
  sgMeta :: mtext
  sgEvidence :: "(mtext \<times> mtext) list"

definition setStage :: "health \<Rightarrow> mtext \<Rightarrow> mtext \<Rightarrow> mtext \<Rightarrow> mtext \<Rightarrow> (mtext \<times> mtext) list \<Rightarrow> stage" where
  "setStage st badge v descr meta evidence = \<lparr>sgState = st, sgClass = ''label lanspeed-diagnostic-stage-badge '' @ stateClass (healthName st),
     sgBadge = (if emptyText badge then phaseLabel (healthName st) else badge), sgValue = shownText v, sgText = descr, sgMeta = meta,
     sgEvidence = evidence\<rparr>"

section \<open>The state of the page\<close>

record page_notice =
  pnClass :: string
  pnTitle :: mtext
  pnText :: mtext
  pnHidden :: bool
  pnState :: string

definition pageMessages :: "page_phase \<Rightarrow> mtext \<times> mtext" where
  "pageMessages ph = (case ph of
     PageLoading \<Rightarrow> (Tr ''the check is running'', Tr ''waiting for each RPC'')
   | PageReady \<Rightarrow> (Tr ''the check is done'', Tr ''all RPCs returned usable results'')
   | PageDegraded \<Rightarrow> (Tr ''the check is done but degraded'', Tr ''parts are out of date, old or from a fallback'')
   | PagePartial \<Rightarrow> (Tr ''parts of the check failed'', Tr ''the failures are listed with the RPCs'')
   | PageEmpty \<Rightarrow> (Tr ''no data'', Tr ''the RPCs answered without samples'')
   | PageError \<Rightarrow> (Tr ''the check failed'', Tr ''no RPC gave a verifiable result''))"

definition renderPageState :: "page \<Rightarrow> page_notice" where
  "renderPageState p = (let ph = pageState (resources p) (rpcs p) in
     \<lparr>pnClass = ''label lanspeed-diagnostics-summary '' @ stateClass (pagePhaseName ph), pnTitle = fst (pageMessages ph),
      pnText = snd (pageMessages ph), pnHidden = (ph = PageReady), pnState = pagePhaseName ph\<rparr>)"

definition renderErrors :: "page \<Rightarrow> (mtext \<times> mtext \<times> bool) list" where
  "renderErrors p = (if pagePhase p = PageLoading then [] else
     List.map_filter (\<lambda>(key, e). map_option (\<lambda>q. (labelOr RPC_LABELS key (Lit []),
         Cat [phaseLabel (phaseName (sumPhase q)), dot, rpcErrorText q], sumRetained q)) (rpcs p key)) (pageErrors p))"

section \<open>The four facts\<close>

text \<open>The view without resources that \<open>refreshStatusCards\<close> builds for itself.\<close>

definition cardPage :: "page \<Rightarrow> page" where
  "cardPage p = p\<lparr>resources := Map.empty, pageValues := (\<lambda>key. if key \<in> set [''status'', ''health'', ''clients'', ''diagnostics'']
     then part p key else JUndef)\<rparr>"

definition objectProps :: "jval \<Rightarrow> props" where
  "objectProps v = (case v of JObj ps \<Rightarrow> ps | _ \<Rightarrow> [])"

definition mergeRuntime :: "jval \<Rightarrow> jval \<Rightarrow> contract_state \<Rightarrow> props" where
  "mergeRuntime status health contract = (let source = jor status (JObj []); otherwise = jor health (JObj []);
       fresh = (jget (jget (ctData contract) ''collection'') ''state'' = JStr ''fresh'')
     in assignProps (assignProps (objectProps otherwise) (objectProps source))
       (if ctUsable contract
        then [(''version'', jget (jget (ctData contract) ''versions'') ''daemon''),
          (''mode'', JStr (if fresh then ''Full'' else ''Degraded'')), (''confidence'', JStr (if fresh then ''high'' else ''low'')),
          (''collector'', jget (jget (ctData contract) ''data_path'') ''effective_rate''),
          (''capabilities'', jor (jget source ''capabilities'') (jor (jget otherwise ''capabilities'') (JObj [])))]
        else []))"

definition serviceHealth :: "contract_state \<Rightarrow> phase \<Rightarrow> health" where
  "serviceHealth c ph = (let service = jget (ctData c) ''service'' in
     if ctUsable c
     then (if jget service ''state'' = JStr ''running'' \<and> truthy (jget service ''ubus_connected'') then Good
       else if \<not> truthy (jget service ''ubus_connected'') then Bad else Warning)
     else if ph = Loading then Neutral else if ph = Error \<or> ph = Invalid then Bad else Warning)"

definition collectionHealth :: "contract_state \<Rightarrow> phase \<Rightarrow> health" where
  "collectionHealth c ph = (let collection = jget (ctData c) ''collection'' in
     if ctUsable c
     then (if jget collection ''state'' = JStr ''fresh'' \<and> \<not> truthy (jget collection ''retained'') then Good
       else if jget collection ''state'' = JStr ''unavailable'' then Bad else Warning)
     else serviceHealth c ph)"

definition connectionTotal :: "page \<Rightarrow> string \<Rightarrow> jnum" where
  "connectionTotal p key = nmax (Fin 0) (numOr (jget (part p ''status'') key) (numOr (jget (part p ''clients'') key) (Fin 0)))"

record status_cards =
  scService :: fact
  scCollection :: fact
  scConnections :: fact
  scVersion :: fact
  scAttention :: nat

definition refreshStatusCards :: "jval \<Rightarrow> page \<Rightarrow> status_cards" where
  "refreshStatusCards front p0 = (let p = cardPage p0; c = diagnosticsContractState p; ph = rsPhase (rpcOf p ''diagnostics'');
       runtime = mergeRuntime (pageValues p0 ''status'') (pageValues p0 ''health'') c;
       versions = versionStateWithRpc p (jor (jget (part p0 ''status'') ''version'') (jor (jget (part p0 ''health'') ''version'')
         (jget (JObj runtime) ''version''))) front;
       connections = connectionStateWithRpc p; service = jget (ctData c) ''service''; collection = jget (ctData c) ''collection'';
       up = truthy (jget service ''ubus_connected'');
       states = [serviceHealth c ph, collectionHealth c ph, cdState connections, cdState versions]
     in \<lparr>scService = setFact (serviceHealth c ph)
           (if ctUsable c then Cat (Lit (toStr (jget service ''state'')) # (if up then [] else [Tr '' - ubus disconnected'']))
            else Tr ''not confirmed'')
           (if ctUsable c then Fmt ''ubus %s'' [if up then Tr ''connected'' else Tr ''not connected''] else Tr ''waiting for status and health''),
         scCollection = setFact (collectionHealth c ph)
           (if ctUsable c then phaseLabel (toStr (jget collection ''state'')) else phaseLabel (phaseName ph))
           (if ctUsable c then Fmt ''generation %d, age %s'' [NumT (toNum (jget collection ''generation'')), formatDuration (jget collection ''age_ms'')]
            else Tr ''contract not confirmed''),
         scConnections = setFact (cdState connections) (cdValue connections)
           (case kcShare connections of None \<Rightarrow> cdText connections
            | Some q \<Rightarrow> Fmt ''%s matched, TCP %d, UDP %d'' [formatPercent (num q), NumT (connectionTotal p0 ''tcp_conns_total''),
                NumT (connectionTotal p0 ''udp_conns_total'')]),
         scVersion = setFact (cdState versions) (if cdState versions = Good then Tr ''consistent'' else cdBadge versions) (cdValue versions),
         scAttention = length (filter (\<lambda>st. st \<noteq> Good) states)\<rparr>)"

section \<open>The pipeline\<close>

record pipeline =
  plRate :: stage
  plEdge :: stage
  plClasses :: stage
  plSummary :: mtext

definition renderPipeline :: "page \<Rightarrow> pipeline option" where
  "renderPipeline p = (if \<not> Format.nssPlatform (pageValues p ''status'') then None
     else (let rate = rateOwnerStateWithRpc p; edge = accessEdgeStateWithRpc p; classes = classificationStateWithRpc p;
         f = ocFacts rate; g = clFacts classes; n = totalDirections f
       in Some \<lparr>plRate = setStage (cdState rate) (cdBadge rate) (cdValue rate) (Lit [])
             (Fmt ''%d/%d directions, %s'' [natT (rfOwner f), natT n, ocWindowText rate])
             [(Tr ''coverage of the clients'', if n \<noteq> 0 then formatPercent (num (of_nat (rfOwner f * 100) / of_nat n)) else Lit ''-''),
              (Tr ''scope'', ocScopeText rate)],
           plEdge = setStage (cdState edge) (cdBadge edge) (cdValue edge) (Lit []) (cdMeta edge)
             [(Tr ''attached'', ecAttachmentText edge), (Tr ''trust'', ecTrustText edge)],
           plClasses = setStage (cdState classes) (cdBadge classes) (cdValue classes) (Lit [])
             (Fmt ''window %s, comparison %s'' [formatDuration (jnumber (cfWindow g)), formatDuration (jnumber (cfComparison g))])
             ((Tr ''checked'', clVerificationText classes) #
              (if clCoverageText classes = Lit ''-'' then [] else [(Tr ''coverage'', clCoverageText classes)]) @
              [(Tr ''maps'', partsText (mapParts (clMaps classes)))]),
           plSummary = Fmt ''%d/%d directions, %d/%d clients classified''
             [natT (rfOwner f), natT n, natT (cfClassified g), natT (clTotal classes)]\<rparr>))"

section \<open>The client control\<close>

text \<open>The states of the four stages: capability, path, queue and block.\<close>

record control_states =
  csCapability :: health
  csPath :: health
  csQueue :: health
  csBlock :: health

definition isSome :: "jnum \<Rightarrow> bool" where
  "isSome n = truthy (JNum n)"

definition controlStates :: "control_card \<Rightarrow> control_states" where
  "controlStates c = \<lparr>csCapability = (if ncShaping c \<or> ncBlocking c then Good else Bad),
     csPath = (if ncRequired c = Fin 0 then Neutral else if ncVerified c = ncRequired c then Good
       else if isSome (ncErrors c) then Bad else Warning),
     csQueue = (if isSome (ncOverflow c) \<or> isSome (ncErrors c) then Bad
       else if isSome (ncRequired c) \<and> nlt (ncVerified c) (ncRequired c) then Warning
       else if isSome (ncRequired c) then Good else Neutral),
     csBlock = (if ncDisabled c = Fin 0 then Neutral else if ncBlocked c = ncDisabled c \<and> \<not> isSome (ncErrors c) then Good else Bad)\<rparr>"

definition dimmed :: "health \<Rightarrow> health" where
  "dimmed st = (if st = Good then Warning else st)"

definition guardedStates :: "control_card \<Rightarrow> control_states" where
  "guardedStates c = (let s = controlStates c in
     if cdState c = Bad then \<lparr>csCapability = Bad, csPath = Bad, csQueue = Bad, csBlock = Bad\<rparr>
     else if cdState c = Warning
     then \<lparr>csCapability = dimmed (csCapability s), csPath = dimmed (csPath s), csQueue = dimmed (csQueue s), csBlock = dimmed (csBlock s)\<rparr>
     else s)"

record control_stages =
  ctlCapability :: stage
  ctlPath :: stage
  ctlQueue :: stage
  ctlBlock :: stage
  ctlSummary :: mtext

definition controlCode :: "control_card \<Rightarrow> jval" where
  "controlCode c = (case ncDetail c of Some (x # xs) \<Rightarrow> JStr (x # xs)
     | _ \<Rightarrow> (case ncReason c of Some s \<Rightarrow> JStr s | None \<Rightarrow> JNull))"

definition renderControl :: "page \<Rightarrow> control_stages option" where
  "renderControl p = (if \<not> Format.nssPlatform (pageValues p ''status'') then None
     else (let c = nssControlStateWithRpc p; s = guardedStates c; available = (\<lambda>b. if b then Tr ''available'' else Tr ''unavailable'') in
       Some \<lparr>ctlCapability = setStage (csCapability s) (available (csCapability s = Good))
           (Fmt ''limits %s, blocking %s'' [available (ncShaping c), available (ncBlocking c)]) (Lit [])
           (Fmt ''%d rules, %d active clients'' [NumT (ncConfigured c), NumT (ncActive c)])
           [(Tr ''limited clients'', NumT (ncLimited c)), (Tr ''blocked clients'', NumT (ncDisabled c))],
         ctlPath = setStage (csPath s) (case csPath s of Good \<Rightarrow> Tr ''proved'' | Bad \<Rightarrow> Tr ''failed'' | Warning \<Rightarrow> Tr ''waiting for proof''
             | Neutral \<Rightarrow> Tr ''nothing to prove'')
           (Fmt ''%d/%d directions'' [NumT (ncVerified c), NumT (ncRequired c)]) (Lit []) (Tr ''each direction enters one executor only'')
           [(Lit ''NSS'', NumT (ncNss c)), (Lit ''CPU'', NumT (ncCpu c))],
         ctlQueue = setStage (csQueue s) (case csQueue s of Good \<Rightarrow> Tr ''complete'' | Bad \<Rightarrow> Tr ''abnormal'' | Warning \<Rightarrow> Tr ''waiting for counts''
             | Neutral \<Rightarrow> Tr ''not in use'')
           (Fmt ''%d/%d clients in effect'' [NumT (ncEffective c), NumT (ncActive c)]) (Lit []) (Tr ''overflow is reported by drops'')
           [(Tr ''waiting'', NumT (ncPending c)), (Tr ''errors'', NumT (ncErrors c)), (Tr ''overflow'', NumT (ncOverflow c))],
         ctlBlock = setStage (csBlock s) (case csBlock s of Good \<Rightarrow> Tr ''in effect'' | Bad \<Rightarrow> Tr ''abnormal'' | _ \<Rightarrow> Tr ''not configured'')
           (Fmt ''%d/%d clients'' [NumT (ncBlocked c), NumT (ncDisabled c)]) (Lit []) (Tr ''only the internet is blocked'')
           [(Tr ''diagnostic code'', subsystemCodeText (controlCode c))],
         ctlSummary = Cat [cdBadge c, dot, cdValue c]\<rparr>))"

definition renderPlatformIntro :: "page \<Rightarrow> mtext" where
  "renderPlatformIntro p = (let status = pageValues p ''status''; platform = jor (jfield (jfield status ''evidence'') ''platform'') (JObj []) in
     if jget platform ''profile'' = JUndef \<and> jget platform ''target_arch'' = JUndef then Tr ''the platform is being determined''
     else if \<not> Format.nssPlatform status then Tr ''x86 uses native TC-BPF''
     else if currentRateUsesRoutedInternet status then Tr ''rates show observed routed traffic only''
     else Tr ''rates come from the access edge'')"

section \<open>Interfaces and subsystems\<close>

definition interfaceRoleLabel :: "jval \<Rightarrow> mtext" where
  "interfaceRoleLabel role = labelOr [(''lan'', Tr ''LAN''), (''observe'', Tr ''observed''), (''wan'', Tr ''WAN''), (''excluded'', Tr ''excluded''),
     (''unknown'', Tr ''unknown'')] (textOr role ''unknown'') (Tr ''unknown'')"

definition interfaceStatusLabel :: "jval \<Rightarrow> mtext" where
  "interfaceStatusLabel status = labelOr [(''available'', Tr ''available''), (''active'', Tr ''collecting''), (''pending'', Tr ''waiting for a sample''),
     (''missing'', Tr ''missing''), (''unsupported'', Tr ''not supported''), (''excluded'', Tr ''left out'')]
     (textOr status ''unknown'') (Tr ''unknown'')"

definition interfaceRowState :: "jval \<Rightarrow> health" where
  "interfaceRowState status = (if status = JStr ''available'' \<or> status = JStr ''active'' then Good
     else if status = JStr ''pending'' then Warning
     else if status = JStr ''missing'' \<or> status = JStr ''unsupported'' then Bad else Neutral)"

definition rateText :: "jval \<Rightarrow> mtext" where
  "rateText item = (if jget item ''rx_bps'' = JUndef \<and> jget item ''tx_bps'' = JUndef then Lit ''-''
     else Fmt ''down %s, up %s'' [formatRate (JNum (numOr (jget item ''rx_bps'') (Fin 0))) ''bit'',
       formatRate (JNum (numOr (jget item ''tx_bps'') (Fin 0))) ''bit''])"

record iface_row =
  irState :: health
  irName :: string
  irRole :: mtext
  irStatus :: mtext
  irSampled :: mtext
  irRate :: mtext

definition interfaceRow :: "jval \<Rightarrow> jval \<Rightarrow> iface_row" where
  "interfaceRow clk item0 = (let item = (if item0 \<noteq> JNull \<and> typeofObject item0 then item0 else JObj []) in
     \<lparr>irState = interfaceRowState (jget item ''status''), irName = textOr (jget item ''name'') ''-'',
      irRole = interfaceRoleLabel (jget item ''role''), irStatus = interfaceStatusLabel (jget item ''status''),
      irSampled = (case sampleAge clk (jget item ''sample_ms'') of None \<Rightarrow> Tr ''not sampled'' | Some q \<Rightarrow> formatDuration (num q)),
      irRate = rateText item\<rparr>)"

text \<open>The rows, the text in their place when there are none, and the line above the table.\<close>

definition renderInterfaces :: "page \<Rightarrow> iface_row list \<times> mtext \<times> mtext" where
  "renderInterfaces p = (let c = interfaceStateWithRpc p in
     (map (interfaceRow (jfield (pageValues p ''interfaces'') ''monotonic_ms'')) (icItems c),
      (if isLoading (rpcOf p ''interfaces'') then Tr ''waiting for interfaces'' else Tr ''no interface data''),
      Cat [cdBadge c, dot, cdValue c]))"

record subsystem_row =
  srLabel :: mtext
  srState :: health
  srText :: mtext
  srCode :: mtext

definition renderSubsystems :: "page \<Rightarrow> subsystem_row list \<times> mtext" where
  "renderSubsystems p = (let c = diagnosticsContractState p; nss = Format.nssPlatform (pageValues p ''status'');
       items = (if ctUsable c then asArray (jget (ctData c) ''subsystems'') else [])
     in (map (\<lambda>item. \<lparr>srLabel = subsystemLabel (toStr (jget item ''id'')) nss, srState = subsystemRowState (jget item ''state'') (jget item ''code''),
           srText = phaseLabel (toStr (jget item ''state'')), srCode = subsystemCodeText (jget item ''code'')\<rparr>)
         (filter (\<lambda>item. nss \<or> textOr (jfield item ''id'') [] \<notin> {''nss'', ''nss_control''}) items),
       (if ctValid c then Tr ''the daemon gave no subsystems'' else Tr ''contract not confirmed'')))"

section \<open>The six calls\<close>

definition rpcRowState :: "phase \<Rightarrow> health" where
  "rpcRowState ph = (if ph = Success then Good else if ph = Empty \<or> ph = Stale \<or> ph = Degraded then Warning
     else if ph = Loading then Neutral else Bad)"

record rpc_row =
  rrLabel :: mtext
  rrState :: health
  rrPhase :: mtext
  rrKept :: bool
  rrTime :: "int option"
  rrResult :: mtext

definition rpcRow :: "page \<Rightarrow> string \<Rightarrow> rpc_row" where
  "rpcRow p key = (let q = rpcs p key; ph = (case q of None \<Rightarrow> Loading | Some s \<Rightarrow> sumPhase s) in
     \<lparr>rrLabel = labelOr RPC_LABELS key (Lit []), rrState = rpcRowState ph, rrPhase = phaseLabel (phaseName ph),
      rrKept = (case q of None \<Rightarrow> False | Some s \<Rightarrow> sumRetained s),
      rrTime = (case q of None \<Rightarrow> None | Some s \<Rightarrow> Option.bind (resources p key) fetchedAt),
      rrResult = (case q of None \<Rightarrow> Tr ''waiting for the result''
        | Some s \<Rightarrow> if sumOk s then Tr ''data returned'' else if sumError s \<noteq> None then rpcErrorText s else Tr ''waiting for the result'')\<rparr>)"

record rpc_table =
  rtRows :: "rpc_row list"
  rtFailed :: "string list"
  rtAttention :: nat
  rtSummary :: mtext
  rtState :: health

definition renderRpcChecks :: "page \<Rightarrow> rpc_table" where
  "renderRpcChecks p = (let rows = map (rpcRow p) RPC_KEYS; n = length RPC_KEYS;
       attention = length (filter (\<lambda>r. rrState r = Warning) rows);
       issues = length (filter (\<lambda>key. case rpcs p key of None \<Rightarrow> True | Some s \<Rightarrow> \<not> sumOk s) RPC_KEYS)
     in \<lparr>rtRows = rows, rtFailed = filter (\<lambda>key. rrState (rpcRow p key) = Bad) RPC_KEYS, rtAttention = attention,
         rtSummary = (if issues \<noteq> 0 then Fmt ''%d / %d RPCs failed'' [natT issues, natT n]
           else if attention \<noteq> 0 then Fmt ''%d RPCs answered, %d need attention'' [natT n, natT attention]
           else Fmt ''all %d RPCs succeeded'' [natT n]),
         rtState = (if issues = n then Bad else if issues \<noteq> 0 \<or> attention \<noteq> 0 then Warning else Good)\<rparr>)"

section \<open>Warnings\<close>

definition alertNode :: "warning \<Rightarrow> severity \<times> mtext" where
  "alertNode w = (wnSeverity w, if emptyText (wnText w) then Tr ''an event was detected'' else wnText w)"

record warning_lists =
  wlImportant :: "(severity \<times> mtext) list"
  wlEnvironment :: "(severity \<times> mtext) list"
  wlSummary :: mtext
  wlState :: health
  wlCritical :: nat
  wlMinor :: nat
  wlProbes :: rat

text \<open>An empty list shows one line that says so.\<close>

definition alertList :: "warning list \<Rightarrow> mtext \<Rightarrow> (severity \<times> mtext) list" where
  "alertList ws none = (if ws = [] then [(Info, none)] else map alertNode ws)"

definition renderWarnings :: "jval \<Rightarrow> jval \<Rightarrow> (string \<rightharpoonup> rpc_summary) \<Rightarrow> jval \<Rightarrow> warning_lists" where
  "renderWarnings status health rps diagnostics = (let g = warningGroups status health rps diagnostics;
       important = wgImportant g; environment = wgInfo g;
       critical = length (filter (\<lambda>w. wnSeverity w = Critical) important); minor = length important - critical
     in \<lparr>wlImportant = alertList important (Tr ''no serious warning''), wlEnvironment = alertList environment (Tr ''nothing else''),
         wlSummary = (if critical \<noteq> 0 \<or> minor \<noteq> 0 \<or> environment \<noteq> []
           then Fmt ''%d critical, %d warnings, %d notes'' [natT critical, natT minor, natT (length environment)] else Tr ''no active alert''),
         wlState = (if critical \<noteq> 0 then Bad else if minor \<noteq> 0 \<or> environment \<noteq> [] then Warning else Good),
         wlCritical = critical, wlMinor = minor, wlProbes = pbTotal (wgProbes g)\<rparr>)"

section \<open>The page\<close>

record shown_page =
  spNotice :: page_notice
  spIntro :: mtext
  spCards :: status_cards
  spPipeline :: "pipeline option"
  spControl :: "control_stages option"
  spRpc :: rpc_table
  spInterfaces :: "iface_row list \<times> mtext \<times> mtext"
  spSubsystems :: "subsystem_row list \<times> mtext"
  spWarnings :: warning_lists
  spErrors :: "(mtext \<times> mtext \<times> bool) list"
  spChecked :: mtext

text \<open>The time of the check is shown as the browser writes it; here it stays a number.\<close>

definition checkedText :: "page \<Rightarrow> mtext" where
  "checkedText p = (case checkedAt p of None \<Rightarrow> Tr ''not checked yet''
     | Some t \<Rightarrow> Fmt (if pageState (resources p) (rpcs p) = PageLoading then ''last check %s, checking again'' else ''checked at %s'')
         [NumT (Fin (of_int t))])"

definition refresh :: "jval \<Rightarrow> page \<Rightarrow> shown_page" where
  "refresh front p = \<lparr>spNotice = renderPageState p, spIntro = renderPlatformIntro p, spCards = refreshStatusCards front p,
     spPipeline = renderPipeline p, spControl = renderControl p, spRpc = renderRpcChecks p, spInterfaces = renderInterfaces p,
     spSubsystems = renderSubsystems p,
     spWarnings = renderWarnings (pageValues p ''status'') (pageValues p ''health'') (rpcs p) (pageValues p ''diagnostics''),
     spErrors = renderErrors p, spChecked = checkedText p\<rparr>"

section \<open>Green stages rest on the last check\<close>

lemma guarded_good:
  assumes "Good \<in> {csCapability (guardedStates c), csPath (guardedStates c), csQueue (guardedStates c), csBlock (guardedStates c)}"
  shows "cdState c \<noteq> Bad \<and> cdState c \<noteq> Warning"
  using assms by (auto simp: guardedStates_def dimmed_def Let_def split: if_splits)

lemma setStage_state [simp]: "sgState (setStage st badge v descr meta evidence) = st"
  by (simp add: setStage_def)

lemma renderControl_good:
  assumes "renderControl p = Some s" "Good \<in> {sgState (ctlCapability s), sgState (ctlPath s), sgState (ctlQueue s), sgState (ctlBlock s)}"
  shows "Good \<in> {csCapability (guardedStates (nssControlStateWithRpc p)), csPath (guardedStates (nssControlStateWithRpc p)),
       csQueue (guardedStates (nssControlStateWithRpc p)), csBlock (guardedStates (nssControlStateWithRpc p))}"
    using assms by (auto simp: renderControl_def Let_def split: if_splits)

text \<open>Without evidence of the control nothing is good.\<close>

lemma control_unproved:
  assumes "cdState c = Neutral" "\<not> ncShaping c" "\<not> ncBlocking c" "ncRequired c = Fin 0" "ncDisabled c = Fin 0"
  shows "Good \<notin> {csCapability (guardedStates c), csPath (guardedStates c), csQueue (guardedStates c), csBlock (guardedStates c)}"
  using assms by (auto simp: guardedStates_def controlStates_def isSome_def Let_def)

lemma worse_bad_or_warning: "worseState st Warning = Bad \<or> worseState st Warning = Warning"
  by (cases st) (simp_all add: worseState_def)

lemma control_stage_settled:
  assumes "renderControl p = Some s" "Good \<in> {sgState (ctlCapability s), sgState (ctlPath s), sgState (ctlQueue s), sgState (ctlBlock s)}"
  shows "settledOn p ''clients''"
proof -
  let ?c = "nssControlStateWithRpc p" and ?rpc = "rpcOf p ''clients''"
  note good = renderControl_good [OF assms]
  have st: "cdState ?c \<noteq> Bad" "cdState ?c \<noteq> Warning" using guarded_good [OF good] by simp_all
  have nss: "DiagFacts.nssPlatform (part p ''status'')"
  proof (rule ccontr)
    assume "\<not> DiagFacts.nssPlatform (part p ''status'')"
    then have "cdState ?c = Neutral" "\<not> ncShaping ?c" "\<not> ncBlocking ?c" "ncRequired ?c = Fin 0" "ncDisabled ?c = Fin 0"
      by (simp_all add: nssControlStateWithRpc_def controlCard_def controlNumber_def numOr_def jget.simps)
    from control_unproved [OF this] good show False by contradiction
  qed
  have e: "plainObject (jfield (jget (part p ''clients'') ''evidence'') ''nss_control'')"
    by (rule ccontr) (use st nss in \<open>simp add: nssControlStateWithRpc_def controlCard_def Let_def split: if_splits\<close>)
  have "\<not> isRetained ?rpc"
  proof
    assume "isRetained ?rpc"
    then have "\<exists>x. cdState ?c = worseState x Warning" using nss e
      unfolding nssControlStateWithRpc_def Let_def by auto
    then show False using st worse_bad_or_warning by metis
  qed
  moreover have "\<not> isLoading ?rpc"
    by (rule notI) (use st nss e calculation in \<open>simp add: nssControlStateWithRpc_def Let_def\<close>)
  moreover have "\<not> noAnswer ?rpc"
    by (rule notI) (use st nss e calculation in \<open>simp add: nssControlStateWithRpc_def Let_def\<close>)
  ultimately show ?thesis by (simp add: settledOn_def)
qed

section \<open>What the user sees\<close>

text \<open>
  C25: A stage of the client control is shown green only on the strength of an answer of the client list
  that neither failed, nor is kept from an earlier check, nor is still being waited for; on the pages of
  finished checks it was fetched and accepted in the last check.
\<close>
theorem green_stages_current:
  assumes "renderControl p = Some s" "Good \<in> {sgState (ctlCapability s), sgState (ctlPath s), sgState (ctlQueue s), sgState (ctlBlock s)}"
  shows "\<not> noAnswer (rpcOf p ''clients'') \<and> \<not> isRetained (rpcOf p ''clients'') \<and> \<not> isLoading (rpcOf p ''clients'') \<and>
    (pageOk p \<longrightarrow> current p ''clients'')"
proof -
  have "settledOn p ''clients''" by (rule control_stage_settled [OF assms])
  moreover have "''clients'' \<in> set RPC_KEYS" by (simp add: RPC_KEYS_def)
  ultimately show ?thesis using settled_current unfolding settledOn_def by blast
qed

definition controlPage :: page where
  "controlPage = (let
     status = JObj [(''evidence'', JObj [(''platform'', JObj [(''profile'', JStr ''nss_aarch64'')])])];
     control = JObj [(''state'', JStr ''verified''), (''shaping_supported'', JBool True), (''required_directions'', num 2),
       (''verified_directions'', num 2)];
     clients = JObj [(''clients'', JArr []), (''evidence'', JObj [(''nss_control'', control)])] in
     \<lparr>resources = Map.empty, rpcs = (\<lambda>_. Some \<lparr>sumOk = True, sumRetained = False, sumPhase = Success, sumError = None\<rparr>),
      pageValues = (\<lambda>k. if k = ''status'' then status else if k = ''clients'' then clients else JNull),
      checkedAt = Some 5, pageRequest = 1, observation = None, pageProgress = None, pagePhase = PageReady\<rparr>)"

theorem green_stages_current_witness:
  "\<exists>s. renderControl controlPage = Some s \<and> sgState (ctlPath s) = Good \<and> \<not> isRetained (rpcOf controlPage ''clients'')"
proof -
  have "map_option (\<lambda>s. sgState (ctlPath s)) (renderControl controlPage) = Some Good" by code_simp
  then obtain s where s: "renderControl controlPage = Some s" "sgState (ctlPath s) = Good" by auto
  then show ?thesis using green_stages_current [OF s(1)] by simp
qed

subsection \<open>While a check is under way\<close>

text \<open>
  While a check is under way, also during the very first one, the table of the calls has no failed
  row and yet the line above it says that all six calls failed; and the fact about the connections
  is bad, as if the client list had failed, unless it was kept already.
\<close>
theorem recheck_shows_failure:
  assumes "diag_run v" "loading v"
  shows "rtSummary (renderRpcChecks (dvPage v)) = Fmt ''%d / %d RPCs failed'' [natT 6, natT 6] \<and>
    rtState (renderRpcChecks (dvPage v)) = Bad \<and> rtFailed (renderRpcChecks (dvPage v)) = [] \<and>
    (map_option sumRetained (rpcs (dvPage v) ''clients'') = Some False \<longrightarrow>
      ftState (scConnections (refreshStatusCards front (dvPage v))) = Bad)"
proof -
  have page: "loadingPage (dvPage v)" using diag_run_inv [OF assms(1)] assms(2) by (simp add: diagInv_def pageKnown_def)
  have q: "\<exists>q. rpcs (dvPage v) key = Some q \<and> \<not> sumOk q \<and> sumPhase q = Loading \<and> sumError q = None" if "key \<in> set RPC_KEYS" for key
    using page that by (auto simp: loadingPage_def)
  have "filter (\<lambda>key. case rpcs (dvPage v) key of None \<Rightarrow> True | Some s \<Rightarrow> \<not> sumOk s) RPC_KEYS = RPC_KEYS"
    by (rule filter_True) (use q in fastforce)
  moreover have "filter (\<lambda>key. rrState (rpcRow (dvPage v) key) = Bad) RPC_KEYS = []"
    by (rule filter_False) (use q in \<open>fastforce simp: rpcRow_def rpcRowState_def Let_def\<close>)
  moreover have "length RPC_KEYS = 6" by (simp add: RPC_KEYS_def)
  ultimately have table: "rtSummary (renderRpcChecks (dvPage v)) = Fmt ''%d / %d RPCs failed'' [natT 6, natT 6] \<and>
    rtState (renderRpcChecks (dvPage v)) = Bad \<and> rtFailed (renderRpcChecks (dvPage v)) = []"
    by (simp add: renderRpcChecks_def Let_def)
  have "ftState (scConnections (refreshStatusCards front (dvPage v))) = Bad"
    if kept: "map_option sumRetained (rpcs (dvPage v) ''clients'') = Some False"
  proof -
    have "''clients'' \<in> set RPC_KEYS" by (simp add: RPC_KEYS_def)
    from q [OF this] obtain c where "rpcs (dvPage v) ''clients'' = Some c" "\<not> sumOk c" "sumPhase c = Loading" "sumError c = None" by blast
    then have "noAnswer (rpcOf (cardPage (dvPage v)) ''clients'')"
      using kept by (simp add: noAnswer_def rpcOf_def rpcState_def cardPage_def Let_def)
    then have "cdState (connectionStateWithRpc (cardPage (dvPage v))) = Bad"
      by (simp add: connectionStateWithRpc_def Let_def)
    then show ?thesis by (simp add: refreshStatusCards_def setFact_def Let_def)
  qed
  then show ?thesis using table by blast
qed

theorem recheck_shows_failure_witness:
  "rtState (renderRpcChecks (dvPage startedView)) = Bad \<and>
   ftState (scConnections (refreshStatusCards (JStr ''1'') (dvPage startedView))) = Bad"
proof -
  have "map_option sumRetained (rpcs (dvPage startedView) ''clients'') = Some False"
    by (simp add: startedView_def reload_def initView_def createLoadingState_def loadingResource_def RPC_KEYS_def Let_def)
  then show ?thesis using recheck_shows_failure [OF startedView_run startedView_open(2)] by simp
qed

subsection \<open>After the daemon is gone\<close>

text \<open>The answer of a running daemon.\<close>

definition goodContract :: jval where
  "goodContract = JObj [(''contract_version'', num 1), (''service'', JObj [(''state'', JStr ''running''), (''ubus_connected'', JBool True)]),
     (''collection'', JObj [(''state'', JStr ''fresh''), (''generation'', num 1), (''last_attempt_ms'', num 1), (''last_success_ms'', num 1),
       (''age_ms'', num 0), (''refresh_interval_ms'', num 1000), (''consecutive_failures'', num 0), (''retained'', JBool False),
       (''last_error'', JNull)]),
     (''data_path'', JObj [(''configured_rate'', JStr ''auto''), (''effective_rate'', JStr ''bpf''), (''configured_connection'', JStr ''auto''),
       (''effective_connection'', JStr ''conntrack_netlink''), (''fallback_active'', JBool False), (''reason_code'', JNull)]),
     (''interfaces'', JObj [(''state'', JStr ''healthy''), (''total'', num 1), (''available'', num 1), (''missing'', num 0), (''sample_ms'', num 1)]),
     (''connection'', JObj [(''state'', JStr ''healthy''), (''source'', JStr ''conntrack_netlink''), (''entries_seen'', num 1),
       (''entries_matched'', num 1), (''parse_errors'', num 0)]),
     (''subsystems'', JArr []), (''versions'', JObj [(''daemon'', JStr ''1''), (''package'', JStr ''1''), (''contract_version'', num 1),
       (''schema_version'', num 1)]), (''alerts'', JArr []), (''config_issues'', JArr [])]"

lemma diagnostics_answered:
  assumes "validateDiagnosticsContract v = Accepted v" "normalizeResults (resolutionOf ''diagnostics'' v) None now n = Some q"
  shows "resources q ''diagnostics'' = Some (freshResource ''diagnostics'' v now n)"
proof -
  have "resultFor (resolutionOf ''diagnostics'' v) ''diagnostics'' = \<lparr>callKey = ''diagnostics'', callOk = True, callValue = v,
      callValidation = Some (Accepted v), callError = None\<rparr>"
    using assms(1) by (simp add: resolutionOf_def validateFor_def resultFor_def)
  then have "nextResource (resolutionOf ''diagnostics'' v) None now n ''diagnostics'' = Some (freshResource ''diagnostics'' v now n)"
    by (simp add: nextResource_def resourceForResult_def)
  then show ?thesis using assms(2) by (auto simp: normalizeResults_def Let_def RPC_KEYS_def split: if_splits)
qed

lemma allFailed: "key \<in> set RPC_KEYS \<Longrightarrow> resultFor (map (\<lambda>k. failedCall k e) RPC_KEYS) key = failedCall key e"
  by (auto simp: resultFor_def failedCall_def RPC_KEYS_def)

lemma diagnostics_kept:
  assumes "validateDiagnosticsContract v = Accepted v" "resources q ''diagnostics'' = Some (freshResource ''diagnostics'' v now n)"
    "normalizeResults (map (\<lambda>k. failedCall k e) RPC_KEYS) (Some q) later m = Some p" "now \<le> later" "later - now \<le> 30000"
  shows "part p ''diagnostics'' = v"
    "\<exists>s. rpcs p ''diagnostics'' = Some s \<and> sumRetained s \<and> \<not> sumOk s"
    "list_all (\<lambda>key. map_option sumOk (rpcs p key) = Some False) RPC_KEYS"
proof -
  let ?fresh = "freshResource ''diagnostics'' v now n" and ?rs = "map (\<lambda>k. failedCall k e) RPC_KEYS"
  have key: "''diagnostics'' \<in> set RPC_KEYS" by (simp add: RPC_KEYS_def)
  have truthy: "truthy v" using validated_truthy [of "''diagnostics''" v v] assms(1) by (simp add: validateFor_def)
  have "(of_int (later - now) :: rat) \<le> of_int 30000" using assms(5) by (simp only: of_int_le_iff)
  then have "(of_int (later - now) :: rat) \<le> retentionLimit (Some q) (pageStatus (Some q))"
    using retentionLimit_bounds [of "Some q" "pageStatus (Some q)"] by simp
  then have usable: "usableResource (Some ?fresh) later (retentionLimit (Some q) (pageStatus (Some q)))"
    using phaseForValue_settled [of "''diagnostics''" v] truthy assms(4) by (auto simp: usableResource_def freshResource_def Let_def)
  have next_all: "nextResource ?rs (Some q) later m k = Some (failedResource k (Some e) (previousFor later (Some q) k) (Some q) later m)"
    if "k \<in> set RPC_KEYS" for k
    using allFailed [OF that, of e] by (simp add: nextResource_def resourceForResult_def failedCall_def)
  have prev: "previousFor later (Some q) ''diagnostics'' = Some ?fresh" using assms(2) by (simp add: previousFor_def)
  define r where "r = failedResource ''diagnostics'' (Some e) (Some ?fresh) (Some q) later m"
  have r: "resValue r = v" "resRetained r" unfolding r_def failedResource_def if_P [OF usable]
    by (simp_all add: freshResource_def Let_def)
  have d: "nextResource ?rs (Some q) later m ''diagnostics'' = Some r" using next_all [OF key] prev by (simp add: r_def)
  have pages: "pageValues p ''diagnostics'' = resValue r"
    "\<And>k. k \<in> set RPC_KEYS \<Longrightarrow> rpcs p k = map_option (summaryOf (failedCall k e)) (nextResource ?rs (Some q) later m k)"
    using assms(3) d key allFailed [of _ e] by (auto simp: normalizeResults_def Let_def split: if_splits)
  show "part p ''diagnostics'' = v" using pages(1) r(1) truthy by (simp add: part_def jor_def)
  show "\<exists>s. rpcs p ''diagnostics'' = Some s \<and> sumRetained s \<and> \<not> sumOk s"
    using pages(2) [OF key] d r(2) by (simp add: summaryOf_def failedCall_def)
  show "list_all (\<lambda>key. map_option sumOk (rpcs p key) = Some False) RPC_KEYS"
    using pages(2) next_all by (simp add: list_all_iff summaryOf_def failedCall_def)
qed



end
