(* ===== verification/GeoAddress.thy ===== *)
theory GeoAddress
  imports Ipv6
begin

text \<open>
  \<open>lanspeed/geoLocation.js\<close>, first part: which remote addresses are public and may be sent to
  a geolocation service. The labels of the source are named by English glosses.
\<close>

unbundle bit_operations_syntax

section \<open>Addresses\<close>

record location =
  kind :: string
  label :: mtext
  queryable :: bool

definition location :: "string \<Rightarrow> mtext \<Rightarrow> bool \<Rightarrow> location" where
  "location k l q = \<lparr>kind = k, label = l, queryable = q\<rparr>"

definition unwrap :: "string \<Rightarrow> string" where
  "unwrap s = (if s \<noteq> [] \<and> hd s = CHR ''['' \<and> last s = CHR '']'' then butlast (tl s) else s)"

definition cleanIp :: "jval \<Rightarrow> string" where
  "cleanIp ip = toLowerCase (takeWhile (\<lambda>c. c \<noteq> CHR ''%'') (unwrap (jtrim (if nullish ip then [] else toStr ip))))"

text \<open>\<open>/^(?:0|[1-9][0-9]{0,2})$/\<close>\<close>

definition isByteText :: "string \<Rightarrow> bool" where
  "isByteText s \<longleftrightarrow> s = ''0'' \<or> s \<noteq> [] \<and> length s \<le> 3 \<and> list_all isDigit s \<and> hd s \<noteq> CHR ''0''"

definition parseIpv4 :: "string \<Rightarrow> nat list option" where
  "parseIpv4 s = (let parts = splitChar CHR ''.'' s in
     if length parts \<noteq> 4 then None
     else if list_all (\<lambda>p. isByteText p \<and> decVal p \<le> 255) parts then Some (map decVal parts) else None)"

definition classifyIpv4 :: "nat list \<Rightarrow> location" where
  "classifyIpv4 bytes = (let a = bytes ! 0; b = bytes ! 1; c = bytes ! 2 in
     if a = 10 \<or> a = 127 \<or> (a = 100 \<and> b \<ge> 64 \<and> b \<le> 127) \<or> (a = 169 \<and> b = 254) \<or>
        (a = 172 \<and> b \<ge> 16 \<and> b \<le> 31) \<or> (a = 192 \<and> b = 168) then location ''local'' (Tr ''local network'') False
     else if a = 198 \<and> (b = 18 \<or> b = 19) then location ''fake'' (Tr ''proxy fake IP'') False
     else if a = 0 \<or> a \<ge> 224 \<or> (a = 192 \<and> b = 0 \<and> c = 0) \<or> (a = 192 \<and> b = 0 \<and> c = 2) \<or>
        (a = 192 \<and> b = 88 \<and> c = 99) \<or> (a = 198 \<and> b = 51 \<and> c = 100) \<or> (a = 203 \<and> b = 0 \<and> c = 113)
       then location ''reserved'' (Tr ''reserved'') False
     else location ''public'' (Tr ''looking up'') True)"

text \<open>\<open>toString(16)\<close>\<close>

definition hexChar :: "nat \<Rightarrow> char" where
  "hexChar n = (if n < 10 then digitChar n else char_of (n + 87))"

fun showHex :: "nat \<Rightarrow> string" where
  "showHex n = (if n < 16 then [hexChar n] else showHex (n div 16) @ [hexChar (n mod 16)])"

declare showHex.simps [simp del]

definition hexPair :: "nat \<Rightarrow> nat \<Rightarrow> string" where
  "hexPair a b = showHex (push_bit 8 a OR b)"

text \<open>The part after the last colon, and the text up to and including it.\<close>

definition afterLastColon :: "string \<Rightarrow> string" where
  "afterLastColon s = rev (takeWhile (\<lambda>c. c \<noteq> CHR '':'') (rev s))"

definition uptoLastColon :: "string \<Rightarrow> string" where
  "uptoLastColon s = rev (dropWhile (\<lambda>c. c \<noteq> CHR '':'') (rev s))"

definition embedIpv4 :: "string \<Rightarrow> string option" where
  "embedIpv4 s = (if CHR ''.'' \<notin> set s then Some s
     else (case parseIpv4 (afterLastColon s) of None \<Rightarrow> None
       | Some b \<Rightarrow> Some (uptoLastColon s @ hexPair (b ! 0) (b ! 1) @ '':'' @ hexPair (b ! 2) (b ! 3))))"

definition isGroup :: "string \<Rightarrow> bool" where
  "isGroup g \<longleftrightarrow> g \<noteq> [] \<and> length g \<le> 4 \<and> list_all isHexLower g"

definition parseIpv6 :: "string \<Rightarrow> nat list option" where
  "parseIpv6 ip = (let low = toLowerCase ip in
     if low = [] \<or> CHR '':'' \<notin> set low then None
     else (case embedIpv4 low of None \<Rightarrow> None
     | Some s \<Rightarrow> (let parts = splitDouble CHR '':'' s in
         if length parts > 2 then None
         else (let head = (if parts ! 0 \<noteq> [] then splitChar CHR '':'' (parts ! 0) else []);
                   tail = (if length parts = 2 \<and> parts ! 1 \<noteq> [] then splitChar CHR '':'' (parts ! 1) else []);
                   missing = 8 - int (length head) - int (length tail)
               in if length parts = 1 \<and> missing \<noteq> 0 \<or> length parts = 2 \<and> missing < 1 then None
                  else if \<not> list_all isGroup head \<or> \<not> list_all isGroup tail then None
                  else (let ws = map (radixVal 16) head @ replicate (nat missing) 0 @ map (radixVal 16) tail
                        in if length ws = 8 then Some ws else None)))))"

definition allZero :: "nat list \<Rightarrow> nat \<Rightarrow> bool" where
  "allZero ws end = list_all (\<lambda>w. w = 0) (take end ws)"

definition classifyIpv6 :: "nat list \<Rightarrow> location" where
  "classifyIpv6 ws = (
     if allZero ws 7 \<and> ws ! 7 = 1 then location ''local'' (Tr ''local network'') False
     else if allZero ws 8 then location ''reserved'' (Tr ''reserved'') False
     else if allZero ws 5 \<and> ws ! 5 = 0xffff
       then classifyIpv4 [drop_bit 8 (ws ! 6), ws ! 6 AND 255, drop_bit 8 (ws ! 7), ws ! 7 AND 255]
     else if ws ! 0 AND 0xfe00 = 0xfc00 \<or> ws ! 0 AND 0xffc0 = 0xfe80 then location ''local'' (Tr ''local network'') False
     else if ws ! 0 AND 0xff00 = 0xff00 \<or> ws ! 0 AND 0xffc0 = 0xfec0 \<or>
       (ws ! 0 = 0x2001 \<and> ws ! 1 = 0x0db8) \<or> (ws ! 0 = 0x2001 \<and> ws ! 1 = 0x0002) \<or>
       (ws ! 0 = 0x2001 \<and> ws ! 1 \<ge> 0x0010 \<and> ws ! 1 \<le> 0x002f) \<or>
       (ws ! 0 = 0x3fff \<and> ws ! 1 AND 0xf000 = 0) then location ''reserved'' (Tr ''reserved'') False
     else if ws ! 0 \<ge> 0x2000 \<and> ws ! 0 \<le> 0x3fff then location ''public'' (Tr ''looking up'') True
     else location ''reserved'' (Tr ''reserved'') False)"

definition classify :: "jval \<Rightarrow> location" where
  "classify ip = (let v = cleanIp ip in
     case parseIpv4 v of Some b \<Rightarrow> classifyIpv4 b
     | None \<Rightarrow> (case parseIpv6 v of Some ws \<Rightarrow> classifyIpv6 ws
       | None \<Rightarrow> location ''reserved'' (Tr ''reserved'') False))"

definition lookupKey :: "jval \<Rightarrow> string" where
  "lookupKey ip = (let v = cleanIp ip in
     case parseIpv4 v of Some b \<Rightarrow> showNat (b ! 0) @ ''.'' @ showNat (b ! 1) @ ''.0.0/16''
     | None \<Rightarrow> v)"

section \<open>Parsed addresses\<close>

lemma parseIpv4_ok: "parseIpv4 s = Some b \<Longrightarrow> length b = 4 \<and> list_all (\<lambda>x. x < 256) b"
  by (auto simp: parseIpv4_def Let_def list_all_iff less_Suc_eq_le [of _ 255, simplified] split: if_splits)

lemma groupsOk_groups: "list_all isGroup gs \<Longrightarrow> groupsOk (map (radixVal 16) gs)"
  using radixVal_group by (auto simp: groupsOk_def isGroup_def list_all_iff)

lemma parseIpv6_ok: "parseIpv6 s = Some ws \<Longrightarrow> length ws = 8 \<and> groupsOk ws"
  by (auto simp: parseIpv6_def Let_def groupsOk_groups split: if_splits option.splits)

interpretation geo_ip: ipv6_parser parseIpv6
  by unfold_locales (auto dest: parseIpv6_ok)

section \<open>Special-purpose blocks\<close>

text \<open>
  The reference: an IPv4 address is a number of 32 bits, a block is its base address and the
  length of its prefix.
\<close>

fun bytesValue :: "nat list \<Rightarrow> nat" where
  "bytesValue [] = 0"
| "bytesValue (b # bs) = b * 256 ^ length bs + bytesValue bs"

definition inBlock :: "nat list \<Rightarrow> nat list \<times> nat \<Rightarrow> bool" where
  "inBlock bytes blk \<longleftrightarrow> bytesValue bytes div 2 ^ (32 - snd blk) = bytesValue (fst blk) div 2 ^ (32 - snd blk)"

definition LOCAL_BLOCKS :: "(nat list \<times> nat) list" where
  "LOCAL_BLOCKS = [([10, 0, 0, 0], 8), ([127, 0, 0, 0], 8), ([100, 64, 0, 0], 10), ([169, 254, 0, 0], 16),
     ([172, 16, 0, 0], 12), ([192, 168, 0, 0], 16)]"

definition FAKE_BLOCKS :: "(nat list \<times> nat) list" where
  "FAKE_BLOCKS = [([198, 18, 0, 0], 15)]"

definition RESERVED_BLOCKS :: "(nat list \<times> nat) list" where
  "RESERVED_BLOCKS = [([0, 0, 0, 0], 8), ([224, 0, 0, 0], 3), ([192, 0, 0, 0], 24), ([192, 0, 2, 0], 24),
     ([192, 88, 99, 0], 24), ([198, 51, 100, 0], 24), ([203, 0, 113, 0], 24)]"

lemma bytesValue_div:
  assumes "b < 256" "c < 256" "d < 256"
  shows "bytesValue [a, b, c, d] div 2 ^ 24 = a" "bytesValue [a, b, c, d] div 2 ^ 16 = a * 256 + b"
    "bytesValue [a, b, c, d] div 2 ^ 8 = a * 65536 + b * 256 + c"
proof -
  have *: "(x * m + r) div m = x" if "r < m" for x m r :: nat using that by simp
  show "bytesValue [a, b, c, d] div 2 ^ 24 = a"
    using assms * [of "b * 65536 + c * 256 + d" "2 ^ 24" a] by simp
  show "bytesValue [a, b, c, d] div 2 ^ 16 = a * 256 + b"
    using assms * [of "c * 256 + d" "2 ^ 16" "a * 256 + b"] by (simp add: algebra_simps)
  show "bytesValue [a, b, c, d] div 2 ^ 8 = a * 65536 + b * 256 + c"
    using assms * [of d "2 ^ 8" "a * 65536 + b * 256 + c"] by (simp add: algebra_simps)
qed

text \<open>Membership in a block whose prefix ends in the first, second or third byte.\<close>

lemma inBlock_first:
  assumes "b < 256" "c < 256" "d < 256" "q < 256" "r < 256" "n \<le> 8"
  shows "inBlock [a, b, c, d] ([p, q, r, 0], n) \<longleftrightarrow> a div 2 ^ (8 - n) = p div 2 ^ (8 - n)"
proof -
  have "32 - n = 24 + (8 - n)" using assms(6) by simp
  then have "(2 :: nat) ^ (32 - n) = 2 ^ 24 * 2 ^ (8 - n)" by (simp only: power_add)
  then show ?thesis unfolding inBlock_def fst_conv snd_conv using assms
    by (simp only: div_mult2_eq bytesValue_div zero_less_numeral)
qed

lemma inBlock_second:
  assumes "b < 256" "c < 256" "d < 256" "q < 256" "r < 256" "n \<le> 16"
  shows "inBlock [a, b, c, d] ([p, q, r, 0], n) \<longleftrightarrow> (a * 256 + b) div 2 ^ (16 - n) = (p * 256 + q) div 2 ^ (16 - n)"
proof -
  have "32 - n = 16 + (16 - n)" using assms(6) by simp
  then have "(2 :: nat) ^ (32 - n) = 2 ^ 16 * 2 ^ (16 - n)" by (simp only: power_add)
  then show ?thesis unfolding inBlock_def fst_conv snd_conv using assms
    by (simp only: div_mult2_eq bytesValue_div zero_less_numeral)
qed

lemma inBlock_third:
  assumes "b < 256" "c < 256" "d < 256" "q < 256" "r < 256"
  shows "inBlock [a, b, c, d] ([p, q, r, 0], 24) \<longleftrightarrow> a = p \<and> b = q \<and> c = r"
proof -
  have "inBlock [a, b, c, d] ([p, q, r, 0], 24) \<longleftrightarrow> a * 65536 + b * 256 + c = p * 65536 + q * 256 + r"
    using bytesValue_div(3) [OF assms(1-3), of a] bytesValue_div(3) [OF assms(4,5), of 0 p] by (simp add: inBlock_def algebra_simps)
  also have "\<dots> \<longleftrightarrow> a = p \<and> b = q \<and> c = r" using assms(1,2,4,5)
    quotient_split [of "b * 256 + c" 65536 "q * 256 + r" a p] quotient_split [of c 256 r b q] by (simp add: add.assoc)
  finally show ?thesis .
qed

lemma second_byte:
  fixes a b m k :: nat
  assumes "b < 256"
  shows "k * m = 256 \<Longrightarrow> y < k \<Longrightarrow> (a * 256 + b) div m = x * k + y \<longleftrightarrow> a = x \<and> b div m = y"
proof -
  assume k: "k * m = 256" and y: "y < k"
  have m: "0 < m" using k by (cases m) simp_all
  have "b < k * m" using assms k by simp
  then have "b div m < k" by (simp add: less_mult_imp_div_less)
  moreover have "(a * 256 + b) div m = a * k + b div m"
  proof -
    have "a * 256 + b = b + (a * k) * m" by (simp only: k [symmetric] mult.assoc add.commute)
    then have "(a * 256 + b) div m = (b + (a * k) * m) div m" by (simp only:)
    also have "\<dots> = a * k + b div m" using m by simp
    finally show ?thesis .
  qed
  ultimately show ?thesis using quotient_split [of "b div m" k y a x] y by simp
qed

lemma in_local:
  assumes "a < 256" "b < 256" "c < 256" "d < 256"
  shows "list_ex (inBlock [a, b, c, d]) LOCAL_BLOCKS \<longleftrightarrow> a = 10 \<or> a = 127 \<or> (a = 100 \<and> b \<ge> 64 \<and> b \<le> 127) \<or>
    (a = 169 \<and> b = 254) \<or> (a = 172 \<and> b \<ge> 16 \<and> b \<le> 31) \<or> (a = 192 \<and> b = 168)"
proof -
  have "(a * 256 + b) div 64 = 401 \<longleftrightarrow> a = 100 \<and> b div 64 = 1" "(a * 256 + b) div 16 = 2753 \<longleftrightarrow> a = 172 \<and> b div 16 = 1"
    using second_byte [OF assms(2), where m = 64 and k = 4 and a = a and x = 100 and y = 1] second_byte [OF assms(2), where m = 16 and k = 16 and a = a and x = 172 and y = 1] by simp_all
  moreover have "b div 64 = 1 \<longleftrightarrow> 64 \<le> b \<and> b \<le> 127" "b div 16 = 1 \<longleftrightarrow> 16 \<le> b \<and> b \<le> 31" by auto
  moreover have "a * 256 + b = 43518 \<longleftrightarrow> a = 169 \<and> b = 254" "a * 256 + b = 49320 \<longleftrightarrow> a = 192 \<and> b = 168"
    using quotient_split [OF assms(2), of 254 a 169] quotient_split [OF assms(2), of 168 a 192] by simp_all
  ultimately have "(a * 256 + b) div 64 = 401 \<longleftrightarrow> a = 100 \<and> 64 \<le> b \<and> b \<le> 127"
    "(a * 256 + b) div 16 = 2753 \<longleftrightarrow> a = 172 \<and> 16 \<le> b \<and> b \<le> 31"
    "a * 256 + b = 43518 \<longleftrightarrow> a = 169 \<and> b = 254" "a * 256 + b = 49320 \<longleftrightarrow> a = 192 \<and> b = 168" by simp_all
  then show ?thesis unfolding LOCAL_BLOCKS_def using assms
    by (simp add: inBlock_first inBlock_second)
qed

lemma in_fake:
  assumes "a < 256" "b < 256" "c < 256" "d < 256"
  shows "list_ex (inBlock [a, b, c, d]) FAKE_BLOCKS \<longleftrightarrow> a = 198 \<and> (b = 18 \<or> b = 19)"
proof -
  have "(a * 256 + b) div 2 = 25353 \<longleftrightarrow> a = 198 \<and> b div 2 = 9" using second_byte [OF assms(2), where m = 2 and k = 128 and a = a and x = 198 and y = 9] by simp
  moreover have "b div 2 = 9 \<longleftrightarrow> b = 18 \<or> b = 19" by auto
  ultimately have "(a * 256 + b) div 2 = 25353 \<longleftrightarrow> a = 198 \<and> (b = 18 \<or> b = 19)" by simp
  then show ?thesis unfolding FAKE_BLOCKS_def using assms by (simp add: inBlock_second)
qed

lemma in_reserved:
  assumes "a < 256" "b < 256" "c < 256" "d < 256"
  shows "list_ex (inBlock [a, b, c, d]) RESERVED_BLOCKS \<longleftrightarrow> a = 0 \<or> a \<ge> 224 \<or> (a = 192 \<and> b = 0 \<and> c = 0) \<or>
    (a = 192 \<and> b = 0 \<and> c = 2) \<or> (a = 192 \<and> b = 88 \<and> c = 99) \<or> (a = 198 \<and> b = 51 \<and> c = 100) \<or> (a = 203 \<and> b = 0 \<and> c = 113)"
proof -
  have "a div 32 = 7 \<longleftrightarrow> a \<ge> 224" using assms(1) by auto
  then show ?thesis unfolding RESERVED_BLOCKS_def using assms
    by (simp add: inBlock_first inBlock_third)
qed

definition publicIpv4 :: "nat list \<Rightarrow> bool" where
  "publicIpv4 bytes \<longleftrightarrow> \<not> list_ex (inBlock bytes) (LOCAL_BLOCKS @ FAKE_BLOCKS @ RESERVED_BLOCKS)"

lemma classifyIpv4_public:
  assumes "length bytes = 4" "list_all (\<lambda>x. x < 256) bytes"
  shows "queryable (classifyIpv4 bytes) \<longleftrightarrow> publicIpv4 bytes"
proof -
  obtain a b c d where bytes: "bytes = [a, b, c, d]"
    using assms(1) by (auto simp: length_Suc_conv numeral_eq_Suc)
  then have bounds: "a < 256" "b < 256" "c < 256" "d < 256" using assms(2) by simp_all
  show ?thesis unfolding publicIpv4_def bytes list_ex_append in_local [OF bounds] in_fake [OF bounds] in_reserved [OF bounds]
    by (simp add: classifyIpv4_def Let_def location_def) argo
qed

section \<open>IPv6 prefixes\<close>

text \<open>The prefixes the code tests, as address prefixes.\<close>

definition prefix6 :: "nat list \<Rightarrow> nat list \<Rightarrow> nat \<Rightarrow> bool" where
  "prefix6 ws base n \<longleftrightarrow> samePrefix n ws (base @ replicate (8 - length base) 0)"

definition specialIpv6 :: "nat list \<Rightarrow> bool" where
  "specialIpv6 ws \<longleftrightarrow> prefix6 ws [0x2001, 0x0db8] 32 \<or> prefix6 ws [0x2001, 0x0002] 32 \<or>
     prefix6 ws [0x2001, 0x0010] 28 \<or> prefix6 ws [0x2001, 0x0020] 28 \<or> prefix6 ws [0x3fff, 0x0000] 20"

definition mappedIpv4 :: "nat list \<Rightarrow> bool" where
  "mappedIpv4 ws \<longleftrightarrow> prefix6 ws [0, 0, 0, 0, 0, 0xffff] 96"

definition publicIpv6 :: "nat list \<Rightarrow> bool" where
  "publicIpv6 ws \<longleftrightarrow> (if mappedIpv4 ws
     then publicIpv4 [ws ! 6 div 256, ws ! 6 mod 256, ws ! 7 div 256, ws ! 7 mod 256]
     else prefix6 ws [0x2000] 3 \<and> \<not> specialIpv6 ws)"

lemma and_top:
  fixes w :: nat
  assumes "w < 65536" "k \<le> 16"
  shows "w AND push_bit k (mask (16 - k)) = push_bit k (drop_bit k w)"
proof (rule bit_eqI)
  fix n
  have "\<not> bit w n" if "16 \<le> n"
  proof -
    have "(65536 :: nat) \<le> 2 ^ n" using power_increasing [OF that, of "2 :: nat"] by simp
    then show ?thesis using assms(1) by (simp add: bit_iff_odd)
  qed
  then show "bit (w AND push_bit k (mask (16 - k))) n = bit (push_bit k (drop_bit k w)) n"
    using assms(2) by (cases "16 \<le> n") (auto simp: bit_simps)
qed

lemma and_prefix:
  fixes w :: nat
  assumes "w < 65536"
  shows "w AND 0xfe00 = 0xfc00 \<longleftrightarrow> w div 512 = 126" "w AND 0xffc0 = 0xfe80 \<longleftrightarrow> w div 64 = 1018"
    "w AND 0xff00 = 0xff00 \<longleftrightarrow> w div 256 = 255" "w AND 0xffc0 = 0xfec0 \<longleftrightarrow> w div 64 = 1019"
    "w AND 0xf000 = 0 \<longleftrightarrow> w div 4096 = 0"
  using and_top [OF assms, of 9] and_top [OF assms, of 6] and_top [OF assms, of 8] and_top [OF assms, of 12]
  by (simp_all add: mask_eq_exp_minus_1 push_bit_eq_mult drop_bit_eq_div)

lemma mod_div_byte: "ws AND 255 = ws mod (256 :: nat)" "drop_bit 8 ws = ws div (256 :: nat)"
  using take_bit_eq_mask [of 8 ws] by (simp_all add: mask_eq_exp_minus_1 take_bit_eq_mod drop_bit_eq_div)

text \<open>An address of eight groups.\<close>

lemma eight_groups: "length ws = 8 \<Longrightarrow> \<exists>a b c d e f g h. ws = [a, b, c, d, e, f, g, h]"
  by (auto simp: length_Suc_conv numeral_eq_Suc)

lemma prefix_one:
  assumes "length ws = 7" "groupsOk ws" "n < 16"
  shows "prefix6 (a # ws) [v] n \<longleftrightarrow> a div 2 ^ (16 - n) = v div 2 ^ (16 - n)"
  unfolding prefix6_def using samePrefix_partial [OF _ assms(2) _ assms(3), of "replicate 7 0" a v] assms(1)
  by simp

lemma prefix_two:
  assumes "length ws = 6" "groupsOk ws" "groupsOk [b]" "n < 16" "v < 65536"
  shows "prefix6 (a # b # ws) [u, v] (16 + n) \<longleftrightarrow> a = u \<and> b div 2 ^ (16 - n) = v div 2 ^ (16 - n)"
proof -
  have base: "[u, v] @ replicate (8 - length [u, v]) 0 = u # v # replicate 6 0" by simp
  have ok: "groupsOk (b # ws)" "groupsOk (v # replicate 6 0)" using assms by (simp_all add: groupsOk_def list_all_iff)
  have "prefix6 (a # b # ws) [u, v] (16 + n) \<longleftrightarrow> a = u \<and> samePrefix n (b # ws) (v # replicate 6 0)"
    unfolding prefix6_def base using samePrefix_group [OF _ ok, of "16 + n" a u] assms(1,4) by simp
  also have "samePrefix n (b # ws) (v # replicate 6 0) \<longleftrightarrow> b div 2 ^ (16 - n) = v div 2 ^ (16 - n)"
    using samePrefix_partial [OF _ assms(2) groupsOk_parts(3) assms(4)] assms(1) by simp
  finally show ?thesis .
qed

lemma samePrefix_all:
  "length ws = length vs \<Longrightarrow> groupsOk (ws @ us) \<Longrightarrow> groupsOk (vs @ ts) \<Longrightarrow> length us = length ts \<Longrightarrow>
    samePrefix (16 * length ws) (ws @ us) (vs @ ts) \<longleftrightarrow> ws = vs"
proof (induction ws vs rule: list_induct2)
  case (Cons w ws v vs)
  then have ok: "groupsOk (ws @ us)" "groupsOk (vs @ ts)" by (simp_all add: groupsOk_def)
  then show ?case using Cons samePrefix_group [OF _ ok, of "16 * length (w # ws)" w v] by simp
qed simp

lemma prefix_thirty_two:
  assumes "groupsOk (a # b # ws)" "length ws = 6" "u < 65536" "v < 65536"
  shows "prefix6 (a # b # ws) [u, v] 32 \<longleftrightarrow> a = u \<and> b = v"
proof -
  have "groupsOk ([u, v] @ replicate 6 0)" using assms by (simp add: groupsOk_def list_all_iff)
  then show ?thesis using samePrefix_all [of "[a, b]" "[u, v]" ws "replicate 6 0"] assms by (simp add: prefix6_def)
qed

lemma mapped_prefix:
  assumes "groupsOk [a, b, c, d, e, f, g, h]"
  shows "mappedIpv4 [a, b, c, d, e, f, g, h] \<longleftrightarrow> a = 0 \<and> b = 0 \<and> c = 0 \<and> d = 0 \<and> e = 0 \<and> f = 0xffff"
  using samePrefix_all [of "[a, b, c, d, e, f]" "[0, 0, 0, 0, 0, 0xffff]" "[g, h]" "replicate 2 0"] assms
  by (simp add: mappedIpv4_def prefix6_def groupsOk_def list_all_iff)

lemma special_words:
  assumes "groupsOk (a # b # ws)" "length ws = 6"
  shows "specialIpv6 (a # b # ws) \<longleftrightarrow> a = 0x2001 \<and> (b = 0x0db8 \<or> b = 2 \<or> 0x10 \<le> b \<and> b \<le> 0x2f) \<or> a = 0x3fff \<and> b div 4096 = 0"
proof -
  have ok: "groupsOk ws" "groupsOk [b]" using assms(1) by (simp_all add: groupsOk_def)
  have "b div 16 = 1 \<or> b div 16 = 2 \<longleftrightarrow> 0x10 \<le> b \<and> b \<le> 0x2f" by auto
  then show ?thesis unfolding specialIpv6_def
    using prefix_thirty_two [OF assms, where u = "0x2001" and v = "0x0db8"] prefix_thirty_two [OF assms, where u = "0x2001" and v = 2]
      prefix_two [OF assms(2) ok, where n = 12 and v = "0x10" and u = "0x2001" and a = a]
      prefix_two [OF assms(2) ok, where n = 12 and v = "0x20" and u = "0x2001" and a = a]
      prefix_two [OF assms(2) ok, where n = 4 and v = 0 and u = "0x3fff" and a = a] by simp argo
qed

lemma classifyIpv6_public:
  assumes "length ws = 8" "groupsOk ws"
  shows "queryable (classifyIpv6 ws) \<longleftrightarrow> publicIpv6 ws"
proof -
  obtain a b c d e f g h where ws: "ws = [a, b, c, d, e, f, g, h]" using eight_groups [OF assms(1)] by blast
  have small: "a < 65536" "b < 65536" "g < 65536" "h < 65536" using assms(2) ws by (simp_all add: groupsOk_def)
  note mapped = mapped_prefix [OF assms(2) [unfolded ws]]
  show ?thesis
  proof (cases "mappedIpv4 ws")
    case True
    have "queryable (classifyIpv4 [g div 256, g mod 256, h div 256, h mod 256]) \<longleftrightarrow>
        publicIpv4 [g div 256, g mod 256, h div 256, h mod 256]"
      by (rule classifyIpv4_public) (use small in auto)
    then show ?thesis using True mapped
      by (simp add: ws publicIpv6_def classifyIpv6_def allZero_def mod_div_byte)
  next
    case False
    have special: "specialIpv6 ws \<longleftrightarrow> a = 0x2001 \<and> (b = 0x0db8 \<or> b = 2 \<or> 0x10 \<le> b \<and> b \<le> 0x2f) \<or> a = 0x3fff \<and> b div 4096 = 0"
      unfolding ws by (rule special_words) (use assms ws in auto)
    have "prefix6 ws [0x2000] 3 \<longleftrightarrow> a div 8192 = 1"
      unfolding ws using prefix_one [where ws = "[b, c, d, e, f, g, h]" and n = 3 and a = a and v = "0x2000"] assms ws by (simp add: groupsOk_def)
    also have "\<dots> \<longleftrightarrow> 0x2000 \<le> a \<and> a \<le> 0x3fff" by auto
    finally have global: "prefix6 ws [0x2000] 3 \<longleftrightarrow> 0x2000 \<le> a \<and> a \<le> 0x3fff" .
    have "queryable (classifyIpv6 ws) \<longleftrightarrow> (0x2000 \<le> a \<and> a \<le> 0x3fff) \<and> \<not> specialIpv6 ws"
    proof (cases "0x2000 \<le> a \<and> a \<le> 0x3fff")
      case True
      then have "a \<noteq> 0" "a div 512 \<noteq> 126" "a div 64 \<noteq> 1018" "a div 256 \<noteq> 255" "a div 64 \<noteq> 1019" by auto
      then show ?thesis using True special unfolding ws classifyIpv6_def
        by (simp add: allZero_def location_def and_prefix [OF small(1)] and_prefix [OF small(2)])
    next
      case outside: False
      have "\<not> (allZero ws 5 \<and> ws ! 5 = 0xffff)" using False mapped by (simp add: ws allZero_def)
      moreover have "ws ! 0 = a" by (simp add: ws)
      ultimately show ?thesis using outside unfolding classifyIpv6_def by (simp only: location_def location.simps if_False if_cancel split: if_split) simp
    qed
    then show ?thesis using False global by (simp add: publicIpv6_def)
  qed
qed

text \<open>C16: an address is sent to a geolocation service only if it is public: an IPv4 address outside every
  private, shared, link-local, benchmark and reserved block, also when it is mapped into
  IPv6, or a global unicast IPv6 address outside the special blocks; everything else,
  malformed text included, is classified on the router.\<close>

theorem classify_public:
  "queryable (classify ip) \<longleftrightarrow> (case parseIpv4 (cleanIp ip) of
     Some bytes \<Rightarrow> publicIpv4 bytes
   | None \<Rightarrow> (case parseIpv6 (cleanIp ip) of Some ws \<Rightarrow> publicIpv6 ws | None \<Rightarrow> False))"
  using parseIpv4_ok parseIpv6_ok
  by (auto simp: classify_def Let_def classifyIpv4_public classifyIpv6_public location_def split: option.splits)

end
