(* ===== verification/GeoResolver.thy ===== *)
theory GeoResolver
  imports GeoAddress ClientConnections
begin

text \<open>
  \<open>lanspeed/geoLocation.js\<close>, second part: the lookup of public addresses. Answers are cached,
  one request per key is under way at a time and at most four in all; the others wait in a
  queue.

  What the network answers is an argument: a function from the address of a request to its
  outcome. So are the parser of the stored cache, the clock and the names of countries in the
  language of the browser. The Chinese names of provinces and countries are outside the
  character range of the model: they are named by glosses as results, and the comparisons of
  an answer with them, which cannot succeed within the range, are left out.
\<close>

section \<open>Constants\<close>

definition CACHE_VERSION :: rat where
  "CACHE_VERSION = 6"

definition LOOKUP_ENDPOINT :: string where
  "LOOKUP_ENDPOINT = ''https://free.freeipapi.com/api/json/''"

text \<open>The services asked one after the other when the first one fails.\<close>

definition SECONDARY_SOURCES :: "(string \<Rightarrow> string) list" where
  "SECONDARY_SOURCES = [
     \<lambda>ip. ''https://geolocation-db.com/json/'' @ encodeURIComponent ip,
     \<lambda>ip. ''https://ipapi.co/'' @ encodeURIComponent ip @ ''/json/'',
     \<lambda>ip. ''https://ipinfo.io/'' @ encodeURIComponent ip @ ''/json'',
     \<lambda>ip. ''https://api.db-ip.com/v2/free/'' @ encodeURIComponent ip,
     \<lambda>ip. ''https://ipwho.is/'' @ encodeURIComponent ip]"

definition MAX_CACHE_ENTRIES :: nat where
  "MAX_CACHE_ENTRIES = 4096"

definition POSITIVE_TTL_MS :: rat where
  "POSITIVE_TTL_MS = 7 * 24 * 60 * 60 * 1000"

definition NEGATIVE_TTL_MS :: rat where
  "NEGATIVE_TTL_MS = 30 * 1000"

definition MAX_CONCURRENCY :: nat where
  "MAX_CONCURRENCY = 4"

definition CHINA_PROVINCES :: "(string \<times> mtext) list" where
  "CHINA_PROVINCES = [
     (''AH'', Tr ''Anhui''), (''BJ'', Tr ''Beijing''), (''CQ'', Tr ''Chongqing''),
     (''FJ'', Tr ''Fujian''), (''GS'', Tr ''Gansu''), (''GD'', Tr ''Guangdong''),
     (''GX'', Tr ''Guangxi''), (''GZ'', Tr ''Guizhou''), (''HI'', Tr ''Hainan''), (''HE'', Tr ''Hebei''),
     (''HL'', Tr ''Heilongjiang''), (''HA'', Tr ''Henan''), (''HB'', Tr ''Hubei''),
     (''HN'', Tr ''Hunan''), (''NM'', Tr ''Inner Mongolia''), (''JS'', Tr ''Jiangsu''),
     (''JX'', Tr ''Jiangxi''), (''JL'', Tr ''Jilin''), (''LN'', Tr ''Liaoning''),
     (''NX'', Tr ''Ningxia''), (''QH'', Tr ''Qinghai''), (''SN'', Tr ''Shaanxi''),
     (''SD'', Tr ''Shandong''), (''SH'', Tr ''Shanghai''), (''SX'', Tr ''Shanxi''),
     (''SC'', Tr ''Sichuan''), (''TJ'', Tr ''Tianjin''), (''XJ'', Tr ''Xinjiang''),
     (''XZ'', Tr ''Tibet''), (''YN'', Tr ''Yunnan''), (''ZJ'', Tr ''Zhejiang'')]"

definition CHINA_PROVINCE_NAMES :: "(string \<times> mtext) list" where
  "CHINA_PROVINCE_NAMES = [
     (''anhui'', Tr ''Anhui''), (''beijing'', Tr ''Beijing''), (''chongqing'', Tr ''Chongqing''),
     (''fujian'', Tr ''Fujian''), (''gansu'', Tr ''Gansu''), (''guangdong'', Tr ''Guangdong''),
     (''guangxi'', Tr ''Guangxi''), (''guizhou'', Tr ''Guizhou''), (''hainan'', Tr ''Hainan''),
     (''hebei'', Tr ''Hebei''), (''heilongjiang'', Tr ''Heilongjiang''), (''henan'', Tr ''Henan''),
     (''hubei'', Tr ''Hubei''), (''hunan'', Tr ''Hunan''), (''inner mongolia'', Tr ''Inner Mongolia''),
     (''nei mongol'', Tr ''Inner Mongolia''), (''jiangsu'', Tr ''Jiangsu''),
     (''jiangxi'', Tr ''Jiangxi''), (''jilin'', Tr ''Jilin''), (''liaoning'', Tr ''Liaoning''),
     (''ningxia'', Tr ''Ningxia''), (''qinghai'', Tr ''Qinghai''), (''shaanxi'', Tr ''Shaanxi''),
     (''shandong'', Tr ''Shandong''), (''shanghai'', Tr ''Shanghai''), (''shanxi'', Tr ''Shanxi''),
     (''sichuan'', Tr ''Sichuan''), (''tianjin'', Tr ''Tianjin''), (''xinjiang'', Tr ''Xinjiang''),
     (''tibet'', Tr ''Tibet''), (''xizang'', Tr ''Tibet''), (''yunnan'', Tr ''Yunnan''),
     (''zhejiang'', Tr ''Zhejiang''), (''guangxi zhuangzu zizhiqu'', Tr ''Guangxi''),
     (''ningxia huizu zizhiqu'', Tr ''Ningxia''), (''xinjiang uygur zizhiqu'', Tr ''Xinjiang''),
     (''xinjiang weiwuer zizhiqu'', Tr ''Xinjiang''), (''xizang zizhiqu'', Tr ''Tibet'')]"

section \<open>Answers\<close>

definition unknownLocation :: location where
  "unknownLocation = location ''unknown'' (Tr ''unknown'') False"

text \<open>Keys written with an object literal's inherited names find a function.\<close>

definition provinceNamed :: "string \<Rightarrow> mtext option" where
  "provinceNamed name = (case map_of CHINA_PROVINCE_NAMES name of Some p \<Rightarrow> Some p
     | None \<Rightarrow> if name \<in> set protoKeys then Some (Lit (toStr (JProto name))) else None)"

definition hasEnding :: "string \<Rightarrow> string \<Rightarrow> bool" where
  "hasEnding name e \<longleftrightarrow> suffix e name \<and> length e < length name \<and> isSpace (name ! (length name - length e - 1))"

definition dropEnding :: "string \<Rightarrow> string \<Rightarrow> string" where
  "dropEnding name e = rev (dropWhile isSpace (rev (take (length name - length e) name)))"

definition withoutEnding :: "string \<Rightarrow> string" where
  "withoutEnding name = (if hasEnding name ''sheng'' then dropEnding name ''sheng''
     else if hasEnding name ''shi'' then dropEnding name ''shi'' else name)"

definition trimmedText :: "jval \<Rightarrow> string" where
  "trimmedText v = jtrim (toStr (jor v (JStr [])))"

definition chinaProvince :: "jval \<Rightarrow> jval \<Rightarrow> mtext option" where
  "chinaProvince regionCode region = (let code = toUpperCase (trimmedText regionCode);
       name = replaceRuns 1 isSpace (replaceRuns 1 (\<lambda>c. c \<in> set ''_.-'') (toLowerCase (trimmedText region)))
     in case map_of CHINA_PROVINCES code of Some p \<Rightarrow> Some p
        | None \<Rightarrow> if name = [] then None
            else (case provinceNamed name of Some p \<Rightarrow> Some p | None \<Rightarrow> provinceNamed (withoutEnding name)))"

record country_fields =
  fcode :: string
  fcountry :: string
  fregionCode :: string
  fregion :: string

definition objectPart :: "jval \<Rightarrow> string \<Rightarrow> jval" where
  "objectPart v k = (if truthy (jget v k) \<and> typeofObject (jget v k) then jget v k else JObj [])"

definition firstTruthy :: "jval list \<Rightarrow> jval" where
  "firstTruthy vs = (case filter truthy vs of v # _ \<Rightarrow> v | [] \<Rightarrow> JStr [])"

definition isUpperPair :: "string \<Rightarrow> bool" where
  "isUpperPair s \<longleftrightarrow> length s = 2 \<and> list_all isUpperAz s"

definition territoryCode :: "string \<Rightarrow> string option" where
  "territoryCode n = (if n \<in> {''hong kong'', ''hong kong sar''} then Some ''HK''
     else if n \<in> {''taiwan'', ''taiwan province of china''} then Some ''TW''
     else if n \<in> {''macao'', ''macau'', ''macao sar'', ''macau sar''} then Some ''MO'' else None)"

definition countryFields :: "jval \<Rightarrow> country_fields" where
  "countryFields payload = (
     let d = (if truthy payload \<and> typeofObject payload then payload else JObj []);
         l = objectPart d ''location'';
         a = objectPart (objectPart d ''network'') ''autonomous_system'';
         rawCode = firstTruthy [jget l ''country_code'', jget l ''countryCode'', jget l ''country_a2'', jget a ''country'',
           jget d ''country_code'', jget d ''countryCode'', jget d ''country_a2''];
         rawCountry = firstTruthy [jget l ''country'', jget l ''country_name'', jget l ''countryName'', jget d ''country'',
           jget d ''country_name'', jget d ''countryName''];
         regionCode = firstTruthy [jget l ''region_code'', jget l ''regionCode'', jget l ''subdivision_code'',
           jget d ''region_code'', jget d ''regionCode'', jget d ''subdivision_code'', jget d ''state_prov_code'',
           jget d ''stateProvCode''];
         region = firstTruthy [jget l ''region'', jget l ''region_name'', jget l ''regionName'', jget l ''subdivision'',
           jget d ''region'', jget d ''region_name'', jget d ''regionName'', jget d ''subdivision'', jget d ''state_prov'',
           jget d ''stateProv'', jget d ''state''];
         country = trimmedText rawCountry;
         given = (case territoryCode (replaceRuns 1 (\<lambda>c. isSpace c \<or> c \<in> set ''_.-'') (toLowerCase country)) of
           Some c \<Rightarrow> c | None \<Rightarrow> toUpperCase (trimmedText rawCode));
         code = (if isUpperPair given then given
           else if length country = 2 \<and> list_all (\<lambda>c. isUpperAz c \<or> isLowerAz c) country then toUpperCase country else [])
     in \<lparr>fcode = code, fcountry = country, fregionCode = toUpperCase (trimmedText regionCode),
         fregion = trimmedText region\<rparr>)"

text \<open>\<open>names\<close> is the table of country names; a failed lookup gives the empty text.\<close>

definition countryResult :: "jval \<Rightarrow> (string \<Rightarrow> string) option \<Rightarrow> location" where
  "countryResult entry names = (
     let code = jget entry ''code'';
         own = (if code = JStr ''TW'' then Some (Tr ''Taiwan, China'')
           else (case names of Some f \<Rightarrow> if truthy code \<and> f (toStr code) \<noteq> [] then Some (Lit (f (toStr code))) else None
             | None \<Rightarrow> None));
         plain = firstTruthy [jget entry ''country'', code];
         base = (case own of Some t \<Rightarrow> Some t | None \<Rightarrow> if truthy plain then Some (Lit (toStr plain)) else None);
         label = (if code = JStr ''CN'' then (case chinaProvince (jget entry ''regionCode'') (jget entry ''region'') of
             Some p \<Rightarrow> Some (Cat [Tr ''China: '', p]) | None \<Rightarrow> base) else base)
     in case label of Some t \<Rightarrow> location ''country'' t False | None \<Rightarrow> unknownLocation)"

section \<open>The cache\<close>

definition storedAt :: "jval \<Rightarrow> jnum" where
  "storedAt entry = numOr (jget entry ''storedAt'') (Fin 0)"

definition oldestFirst :: "props \<Rightarrow> string \<Rightarrow> string \<Rightarrow> jnum" where
  "oldestFirst cache l r = nsub (storedAt (jget (JObj cache) l)) (storedAt (jget (JObj cache) r))"

definition trimCache :: "props \<Rightarrow> nat \<Rightarrow> props" where
  "trimCache cache maxEntries = (let ks = map fst cache in
     if length ks \<le> maxEntries then cache
     else (let gone = take (length ks - maxEntries) (jsSort (oldestFirst cache) ks)
           in filter (\<lambda>e. fst e \<notin> set gone) cache))"

definition entryOk :: "jval \<Rightarrow> rat \<Rightarrow> bool" where
  "entryOk entry now \<longleftrightarrow> truthy entry \<and>
     (jget entry ''status'' = JStr ''ok'' \<or> jget entry ''status'' = JStr ''fail'') \<and>
     (case jget entry ''expiresAt'' of JNum n \<Rightarrow> \<not> nle n (Fin now) | _ \<Rightarrow> False) \<and>
     \<not> (jget entry ''status'' = JStr ''ok'' \<and> \<not> isStr (jget entry ''code'') \<and> \<not> isStr (jget entry ''country'')) \<and>
     (jget entry ''regionCode'' = JUndef \<or> isStr (jget entry ''regionCode'')) \<and>
     (jget entry ''region'' = JUndef \<or> isStr (jget entry ''region''))"

definition usableEntries :: "jval \<Rightarrow> rat \<Rightarrow> props" where
  "usableEntries entries now = filter (\<lambda>(k, e). entryOk e now) (map (\<lambda>k. (k, jget entries k)) (objectKeys entries))"

text \<open>
  The stored text is absent when there is no storage or reading it throws.
\<close>

definition readCache :: "string option \<Rightarrow> (string \<Rightarrow> jval option) \<Rightarrow> nat \<Rightarrow> rat \<Rightarrow> props" where
  "readCache stored parse maxEntries now = (case stored of
     None \<Rightarrow> []
   | Some raw \<Rightarrow> if raw = [] \<or> length raw > 2 * 1024 * 1024 then []
       else (case parse raw of None \<Rightarrow> []
         | Some parsed \<Rightarrow> (let entries = (if truthy parsed \<and> jget parsed ''version'' = num CACHE_VERSION
               then jget parsed ''entries'' else JUndef)
             in case entries of
                  JObj ps \<Rightarrow> trimCache (usableEntries entries now) maxEntries
                | _ \<Rightarrow> [])))"

section \<open>Requests\<close>

datatype fetch_answer = Failed | BadResponse | Payload jval

definition lookupSource :: "(string \<Rightarrow> fetch_answer) \<Rightarrow> string \<Rightarrow> country_fields option" where
  "lookupSource net endpoint = (if endpoint = [] then None
     else (case net endpoint of
       Payload p \<Rightarrow> if truthy p \<and> jget p ''success'' = JBool False then None
         else (let f = countryFields p in if fcode f = [] \<and> fcountry f = [] then None else Some f)
     | _ \<Rightarrow> None))"

fun fallbackLookup :: "(string \<Rightarrow> fetch_answer) \<Rightarrow> (string \<Rightarrow> string) list \<Rightarrow> string \<Rightarrow> country_fields option" where
  "fallbackLookup net [] ip = None"
| "fallbackLookup net (source # rest) ip = (case lookupSource net (source ip) of
     Some f \<Rightarrow> Some f | None \<Rightarrow> fallbackLookup net rest ip)"

definition requestFields :: "(string \<Rightarrow> fetch_answer) \<Rightarrow> (string \<Rightarrow> string) list \<Rightarrow> string \<Rightarrow> country_fields option" where
  "requestFields net sources ip = (case lookupSource net (LOOKUP_ENDPOINT @ encodeURIComponent ip) of
     Some f \<Rightarrow> Some f | None \<Rightarrow> fallbackLookup net sources ip)"

section \<open>The resolver\<close>

record task =
  taskIp :: string
  taskKey :: string

record resolver =
  gcache :: props
  gpending :: "string list"
  gqueue :: "task list"
  grunning :: "task list"
  gactive :: nat
  gdisposed :: bool
  gpersist :: bool
  gmax :: nat
  gconcurrency :: nat
  gnames :: "(string \<Rightarrow> string) option"
  gsettled :: "(task \<times> location) list"

definition clampOption :: "jval \<Rightarrow> nat \<Rightarrow> nat" where
  "clampOption v maximum = (case nmax (Fin 1) (nmin (Fin (of_nat maximum)) (nfloor (numOr v (Fin (of_nat maximum))))) of
     Fin q \<Rightarrow> nat \<lfloor>q\<rfloor> | _ \<Rightarrow> 1)"

definition createResolver :: "string option \<Rightarrow> (string \<Rightarrow> jval option) \<Rightarrow> rat \<Rightarrow> jval \<Rightarrow> jval \<Rightarrow> (string \<Rightarrow> string) option \<Rightarrow> resolver" where
  "createResolver stored parse now maxEntries concurrency names = \<lparr>
     gcache = readCache stored parse (clampOption maxEntries MAX_CACHE_ENTRIES) now, gpending = [], gqueue = [], grunning = [],
     gactive = 0, gdisposed = False, gpersist = False, gmax = clampOption maxEntries MAX_CACHE_ENTRIES,
     gconcurrency = clampOption concurrency MAX_CONCURRENCY, gnames = names, gsettled = []\<rparr>"

text \<open>The timer callback: the text written to the storage, when there is one.\<close>

definition persist :: "resolver \<Rightarrow> resolver \<times> props option" where
  "persist g = (if gdisposed g then (g\<lparr>gpersist := False\<rparr>, None)
     else (let c = trimCache (gcache g) (gmax g) in (g\<lparr>gpersist := False, gcache := c\<rparr>, Some c)))"

definition persistSoon :: "resolver \<Rightarrow> resolver" where
  "persistSoon g = (if gdisposed g \<or> gpersist g then g else g\<lparr>gpersist := True\<rparr>)"

definition expired :: "jval \<Rightarrow> rat \<Rightarrow> bool" where
  "expired entry now \<longleftrightarrow> nle (toNum (jget entry ''expiresAt'')) (Fin now)"

definition cached :: "rat \<Rightarrow> jval \<Rightarrow> resolver \<Rightarrow> resolver \<times> location option" where
  "cached now ip g = (let key = lookupKey ip in
     case map_of (gcache g) key of
       None \<Rightarrow> (g, None)
     | Some entry \<Rightarrow> if \<not> truthy entry then (g, None)
         else if expired entry now then (persistSoon (g\<lparr>gcache := delProp key (gcache g)\<rparr>), None)
         else (g, Some (if jget entry ''status'' = JStr ''ok'' then countryResult entry (gnames g) else unknownLocation)))"

definition peek :: "rat \<Rightarrow> jval \<Rightarrow> resolver \<Rightarrow> resolver \<times> location" where
  "peek now ip g = (let v = JStr (cleanIp ip); c = classify v in
     if \<not> queryable c then (g, c)
     else (case cached now v g of (g', Some hit) \<Rightarrow> (g', hit) | (g', None) \<Rightarrow> (g', c)))"

definition okEntry :: "country_fields \<Rightarrow> rat \<Rightarrow> jval" where
  "okEntry f now = JObj [(''status'', JStr ''ok''), (''code'', JStr (fcode f)), (''country'', JStr (fcountry f)),
     (''regionCode'', JStr (fregionCode f)), (''region'', JStr (fregion f)), (''storedAt'', num now),
     (''expiresAt'', num (now + POSITIVE_TTL_MS))]"

definition failEntry :: "rat \<Rightarrow> jval" where
  "failEntry now = JObj [(''status'', JStr ''fail''), (''storedAt'', num now), (''expiresAt'', num (now + NEGATIVE_TTL_MS))]"

definition store :: "string \<Rightarrow> jval \<Rightarrow> resolver \<Rightarrow> resolver" where
  "store key entry g = persistSoon (g\<lparr>gcache := trimCache (putProp key entry (gcache g)) (gmax g)\<rparr>)"

text \<open>
  \<open>countryResult(cache[key], ...)\<close> after the cache was trimmed: when the new entry itself was
  dropped, reading its code throws, and the handler that follows stores a failure instead.
\<close>

definition storeFailure :: "rat \<Rightarrow> string \<Rightarrow> resolver \<Rightarrow> resolver \<times> location" where
  "storeFailure now ip g = (store (lookupKey (JStr ip)) (failEntry now) g, unknownLocation)"

definition storeSuccess :: "rat \<Rightarrow> string \<Rightarrow> country_fields \<Rightarrow> resolver \<Rightarrow> resolver \<times> location" where
  "storeSuccess now ip f g = (let key = lookupKey (JStr ip); g' = store key (okEntry f now) g in
     case map_of (gcache g') key of
       Some entry \<Rightarrow> (g', countryResult entry (gnames g))
     | None \<Rightarrow> storeFailure now ip g')"

text \<open>
  The end of a request: \<open>outcome\<close> is what the services answered in time, if anything.
\<close>

definition fetchOne :: "rat \<Rightarrow> task \<Rightarrow> country_fields option \<Rightarrow> resolver \<Rightarrow> resolver \<times> location" where
  "fetchOne now t outcome g = (if gdisposed g then (g, unknownLocation)
     else (case outcome of Some f \<Rightarrow> storeSuccess now (taskIp t) f g | None \<Rightarrow> storeFailure now (taskIp t) g))"

function pump :: "resolver \<Rightarrow> resolver" where
  "pump g = (if \<not> gdisposed g \<and> gactive g < gconcurrency g then
     (case gqueue g of [] \<Rightarrow> g
      | t # ts \<Rightarrow> pump (g\<lparr>gqueue := ts, gactive := Suc (gactive g), grunning := grunning g @ [t]\<rparr>))
   else g)"
  by pat_completeness auto
termination by (relation "measure (\<lambda>g. length (gqueue g))") auto

declare pump.simps [simp del]

definition finish :: "rat \<Rightarrow> task \<Rightarrow> country_fields option \<Rightarrow> resolver \<Rightarrow> resolver" where
  "finish now t outcome g = (let (g', v) = fetchOne now t outcome g in
     pump (g'\<lparr>gsettled := gsettled g' @ [(t, v)], gactive := gactive g' - 1, grunning := remove1 t (grunning g'),
       gpending := removeAll (taskKey t) (gpending g')\<rparr>))"

text \<open>\<open>resolve\<close> answers at once, or hands out the promise of a task; a second request for a key
  that is under way gets the promise of the first.\<close>

datatype reply = Now location | Later string

definition resolve :: "rat \<Rightarrow> jval \<Rightarrow> resolver \<Rightarrow> resolver \<times> reply" where
  "resolve now ip g = (let v = cleanIp ip; key = lookupKey (JStr v); (g1, immediate) = peek now (JStr v) g in
     if gdisposed g1 then (g1, Now unknownLocation)
     else if \<not> queryable immediate then (g1, Now immediate)
     else if key \<in> set (gpending g1) then (g1, Later key)
     else (pump (g1\<lparr>gpending := key # gpending g1, gqueue := gqueue g1 @ [\<lparr>taskIp = v, taskKey = key\<rparr>]\<rparr>), Later key))"

definition dispose :: "resolver \<Rightarrow> resolver" where
  "dispose g = (if gdisposed g then g
     else g\<lparr>gdisposed := True, gpersist := False,
       gpending := filter (\<lambda>k. k \<notin> taskKey ` set (gqueue g)) (gpending g),
       gsettled := gsettled g @ map (\<lambda>t. (t, unknownLocation)) (gqueue g), gqueue := []\<rparr>)"

text \<open>The events of a page: lookups, ends of requests, the storage timer, leaving the page.\<close>

inductive geo_run :: "resolver \<Rightarrow> bool" where
  create: "geo_run (createResolver stored parse now m c names)"
| resolve: "geo_run g \<Longrightarrow> geo_run (fst (resolve now ip g))"
| finish: "geo_run g \<Longrightarrow> t \<in> set (grunning g) \<Longrightarrow> geo_run (finish now t outcome g)"
| persist: "geo_run g \<Longrightarrow> gpersist g \<Longrightarrow> geo_run (fst (persist g))"
| dispose: "geo_run g \<Longrightarrow> geo_run (dispose g)"

section \<open>Trimming\<close>

lemma trimCache_set: "set (trimCache c m) \<subseteq> set c"
  by (auto simp: trimCache_def Let_def)

lemma trimCache_distinct: "distinct (map fst c) \<Longrightarrow> distinct (map fst (trimCache c m))"
  by (auto simp: trimCache_def Let_def distinct_map inj_on_def)

lemma trimCache_length:
  assumes "distinct (map fst c)"
  shows "length (trimCache c m) \<le> m"
proof (cases "length c \<le> m")
  case False
  let ?gone = "take (length c - m) (jsSort (oldestFirst c) (map fst c))"
  have gone: "set ?gone \<subseteq> fst ` set c" using set_take_subset [of "length c - m" "jsSort (oldestFirst c) (map fst c)"] by auto
  have card: "card (set ?gone) = length c - m"
    using distinct_card [of ?gone] assms by simp
  have keys: "fst ` set (filter (\<lambda>e. fst e \<notin> set ?gone) c) = fst ` set c - set ?gone" by auto
  have "length (filter (\<lambda>e. fst e \<notin> set ?gone) c) = card (fst ` set (filter (\<lambda>e. fst e \<notin> set ?gone) c))"
    using distinct_card [of "map fst (filter (\<lambda>e. fst e \<notin> set ?gone) c)"] assms
    by (simp add: distinct_map_filter)
  also have "\<dots> = card (fst ` set c) - card (set ?gone)"
    unfolding keys using card_Diff_subset [OF _ gone] by simp
  also have "card (fst ` set c) = length c" using distinct_card [OF assms] by simp
  finally show ?thesis using False card by (simp add: trimCache_def Let_def)
qed (simp add: trimCache_def)

lemma usableEntries_distinct: "distinct (map fst (usableEntries v now))"
proof -
  have "map fst (map (\<lambda>k. (k, jget v k)) (objectKeys v)) = objectKeys v" by (simp add: comp_def)
  moreover have "distinct (objectKeys v)" by (cases v) simp_all
  ultimately show ?thesis unfolding usableEntries_def by (intro distinct_map_filter) simp
qed

lemma readCache_ok: "distinct (map fst (readCache stored parse m now)) \<and> length (readCache stored parse m now) \<le> m"
  by (auto simp: readCache_def Let_def trimCache_distinct trimCache_length usableEntries_distinct split: option.splits jval.splits)

section \<open>The queue\<close>

lemma pump_eq:
  "pump g = (let n = (if gdisposed g then 0 else min (gconcurrency g - gactive g) (length (gqueue g)))
     in g\<lparr>gqueue := drop n (gqueue g), gactive := gactive g + n, grunning := grunning g @ take n (gqueue g)\<rparr>)"
proof (induction g rule: pump.induct)
  case (1 g)
  show ?case
  proof (cases "\<not> gdisposed g \<and> gactive g < gconcurrency g \<and> gqueue g \<noteq> []")
    case True
    then obtain t ts where q: "gqueue g = t # ts" by (cases "gqueue g") auto
    have n: "min (gconcurrency g - gactive g) (length (gqueue g)) = Suc (min (gconcurrency g - Suc (gactive g)) (length ts))"
      using True q by (auto simp: min_def)
    have "pump g = pump (g\<lparr>gqueue := ts, gactive := Suc (gactive g), grunning := grunning g @ [t]\<rparr>)"
      using True q by (simp add: pump.simps [of g])
    then show ?thesis using True 1 [of t ts] unfolding n by (simp add: q Let_def)
  next
    case False
    then have "min (gconcurrency g - gactive g) (length (gqueue g)) = 0 \<or> gdisposed g" by auto
    then show ?thesis using False by (subst pump.simps) (auto simp: Let_def split: list.splits)
  qed
qed

lemma persistSoon_fields [simp]:
  "gcache (persistSoon g) = gcache g" "gpending (persistSoon g) = gpending g" "gqueue (persistSoon g) = gqueue g"
  "grunning (persistSoon g) = grunning g" "gactive (persistSoon g) = gactive g" "gdisposed (persistSoon g) = gdisposed g"
  "gmax (persistSoon g) = gmax g" "gconcurrency (persistSoon g) = gconcurrency g" "gsettled (persistSoon g) = gsettled g"
  by (simp_all add: persistSoon_def)

text \<open>What an operation leaves alone when it only touches the cache.\<close>

definition sameTasks :: "resolver \<Rightarrow> resolver \<Rightarrow> bool" where
  "sameTasks g h \<longleftrightarrow> gpending h = gpending g \<and> gqueue h = gqueue g \<and> grunning h = grunning g \<and> gactive h = gactive g \<and>
     gdisposed h = gdisposed g \<and> gmax h = gmax g \<and> gconcurrency h = gconcurrency g \<and> gsettled h = gsettled g"

definition cacheOk :: "resolver \<Rightarrow> bool" where
  "cacheOk g \<longleftrightarrow> distinct (map fst (gcache g)) \<and> length (gcache g) \<le> gmax g"

lemma store_ok: "cacheOk g \<Longrightarrow> sameTasks g (store k e g) \<and> cacheOk (store k e g)"
  by (simp add: store_def sameTasks_def cacheOk_def trimCache_length trimCache_distinct distinct_putProp)

lemma sameTasks_trans: "sameTasks f g \<Longrightarrow> sameTasks g h \<Longrightarrow> sameTasks f h"
  by (simp add: sameTasks_def)

lemma sameTasks_refl: "sameTasks g g"
  by (simp add: sameTasks_def)

lemma fetchOne_ok:
  assumes "cacheOk g"
  shows "sameTasks g (fst (fetchOne now t outcome g)) \<and> cacheOk (fst (fetchOne now t outcome g))"
proof -
  have fail: "sameTasks g (fst (storeFailure now ip g)) \<and> cacheOk (fst (storeFailure now ip g))" if "cacheOk g" for ip g
    using store_ok [OF that] by (simp add: storeFailure_def)
  have "sameTasks g (fst (storeSuccess now ip f g)) \<and> cacheOk (fst (storeSuccess now ip f g))" for ip f
  proof -
    let ?h = "store (lookupKey (JStr ip)) (okEntry f now) g"
    have h: "sameTasks g ?h" "cacheOk ?h" using store_ok [OF assms] by blast+
    then show ?thesis using fail [OF h(2), of ip] sameTasks_trans [OF h(1)]
      by (auto simp: storeSuccess_def Let_def split: option.splits)
  qed
  then show ?thesis using assms fail [OF assms] sameTasks_refl
    by (auto simp: fetchOne_def split: option.splits)
qed

lemma cached_ok:
  assumes "cacheOk g"
  shows "sameTasks g (fst (cached now ip g)) \<and> cacheOk (fst (cached now ip g))"
proof -
  have "length (delProp k c) \<le> length c" for k c by (simp add: delProp_def)
  moreover have "distinct (map fst c) \<Longrightarrow> distinct (map fst (delProp k c))" for k c
    by (simp add: delProp_def distinct_map_filter)
  ultimately show ?thesis using assms sameTasks_refl
    by (auto simp: cached_def Let_def cacheOk_def sameTasks_def intro: le_trans split: option.splits)
qed

lemma cached_not_queryable: "snd (cached now ip g) = Some l \<Longrightarrow> \<not> queryable l"
  by (auto simp: cached_def Let_def countryResult_def unknownLocation_def location_def split: option.splits if_splits)

lemma peek_ok:
  assumes "cacheOk g"
  shows "sameTasks g (fst (peek now ip g)) \<and> cacheOk (fst (peek now ip g))"
  using cached_ok [OF assms, of now] assms sameTasks_refl
  by (auto simp: peek_def Let_def split: prod.splits option.splits) (metis fst_conv)+

lemma peek_queryable: "queryable (snd (peek now ip g)) \<Longrightarrow> queryable (classify (JStr (cleanIp ip)))"
  by (auto simp: peek_def Let_def split: if_splits)

section \<open>Invariant\<close>

text \<open>The address a task was made for is public.\<close>

definition publicTask :: "task \<Rightarrow> bool" where
  "publicTask t \<longleftrightarrow> taskKey t = lookupKey (JStr (taskIp t)) \<and> queryable (classify (JStr (cleanIp (JStr (taskIp t)))))"

definition geoInv :: "resolver \<Rightarrow> bool" where
  "geoInv g \<longleftrightarrow> cacheOk g \<and> gactive g = length (grunning g) \<and> gactive g \<le> gconcurrency g \<and>
     1 \<le> gconcurrency g \<and> gconcurrency g \<le> MAX_CONCURRENCY \<and>
     distinct (map taskKey (grunning g @ gqueue g)) \<and> set (gpending g) = taskKey ` set (grunning g @ gqueue g) \<and>
     list_all publicTask (grunning g @ gqueue g) \<and>
     (if gdisposed g then gqueue g = [] else gqueue g \<noteq> [] \<longrightarrow> gactive g = gconcurrency g)"

text \<open>The part of the invariant that \<open>pump\<close> needs; it restores the rest.\<close>

definition preInv :: "resolver \<Rightarrow> bool" where
  "preInv g \<longleftrightarrow> cacheOk g \<and> gactive g = length (grunning g) \<and> gactive g \<le> gconcurrency g \<and>
     1 \<le> gconcurrency g \<and> gconcurrency g \<le> MAX_CONCURRENCY \<and>
     distinct (map taskKey (grunning g @ gqueue g)) \<and> set (gpending g) = taskKey ` set (grunning g @ gqueue g) \<and>
     list_all publicTask (grunning g @ gqueue g) \<and> (gdisposed g \<longrightarrow> gqueue g = [])"

lemma pump_inv:
  assumes "preInv g"
  shows "geoInv (pump g)"
proof -
  let ?n = "if gdisposed g then 0 else min (gconcurrency g - gactive g) (length (gqueue g))"
  have tasks: "grunning (pump g) @ gqueue (pump g) = grunning g @ gqueue g" by (simp add: pump_eq Let_def)
  have fields: "gactive (pump g) = gactive g + ?n" "gcache (pump g) = gcache g" "gmax (pump g) = gmax g"
    "gconcurrency (pump g) = gconcurrency g" "gpending (pump g) = gpending g" "gdisposed (pump g) = gdisposed g"
    "gqueue (pump g) = drop ?n (gqueue g)" "length (grunning (pump g)) = length (grunning g) + ?n"
    by (simp_all add: pump_eq Let_def)
  show ?thesis using assms unfolding geoInv_def preInv_def cacheOk_def unfolding tasks unfolding fields by auto
qed

lemma clampOption_range: "0 < m \<Longrightarrow> 1 \<le> clampOption v m \<and> clampOption v m \<le> m"
proof -
  assume m: "0 < m"
  obtain n where n: "nfloor (numOr v (Fin (of_nat m))) = n" by blast
  show ?thesis
  proof (cases n)
    case (Fin q)
    have "clampOption v m = nat \<lfloor>max 1 (min (of_nat m) q)\<rfloor>" using n Fin by (simp add: clampOption_def max_def min_def)
    moreover have "1 \<le> max 1 (min (of_nat m) q)" "max 1 (min (of_nat m) q) \<le> of_nat m" using m by auto
    ultimately show ?thesis by linarith
  qed (use n m in \<open>simp_all add: clampOption_def\<close>)
qed

lemma create_inv: "geoInv (createResolver stored parse now m c names)"
  using readCache_ok clampOption_range [of MAX_CONCURRENCY c]
  by (simp add: geoInv_def createResolver_def cacheOk_def MAX_CONCURRENCY_def)

lemma geoInv_sameTasks: "geoInv g \<Longrightarrow> sameTasks g h \<Longrightarrow> cacheOk h \<Longrightarrow> geoInv h"
  unfolding geoInv_def sameTasks_def by (elim conjE) (simp only: simp_thms)

lemma resolve_inv:
  assumes "geoInv g"
  shows "geoInv (fst (resolve now ip g))"
proof -
  let ?v = "cleanIp ip" let ?key = "lookupKey (JStr ?v)"
  obtain h l where p: "peek now (JStr ?v) g = (h, l)" by fastforce
  have ok: "sameTasks g h" "cacheOk h" using peek_ok [of g now "JStr ?v"] assms p by (auto simp: geoInv_def)
  then have h: "geoInv h" using geoInv_sameTasks assms by blast
  show ?thesis
  proof (cases "gdisposed h \<or> \<not> queryable l \<or> ?key \<in> set (gpending h)")
    case True
    then show ?thesis using h p by (auto simp: resolve_def Let_def)
  next
    case False
    have "queryable (classify (JStr (cleanIp (JStr ?v))))" using peek_queryable [of now "JStr ?v" g] p False by simp
    then have "publicTask \<lparr>taskIp = ?v, taskKey = ?key\<rparr>" by (simp add: publicTask_def)
    then have "preInv (h\<lparr>gpending := ?key # gpending h, gqueue := gqueue h @ [\<lparr>taskIp = ?v, taskKey = ?key\<rparr>]\<rparr>)"
      using h False by (auto simp: geoInv_def preInv_def cacheOk_def)
    then show ?thesis using pump_inv False p by (simp add: resolve_def Let_def)
  qed
qed

lemma finish_inv:
  assumes "geoInv g" "t \<in> set (grunning g)"
  shows "geoInv (finish now t outcome g)"
proof -
  obtain h v where f: "fetchOne now t outcome g = (h, v)" by fastforce
  have ok: "sameTasks g h" "cacheOk h" using fetchOne_ok [of g now t outcome] assms f by (auto simp: geoInv_def)
  then have h: "geoInv h" "t \<in> set (grunning h)" using geoInv_sameTasks assms by (auto simp: sameTasks_def)
  have keys: "distinct (map taskKey (grunning h @ gqueue h))" using h by (simp add: geoInv_def)
  then have inj: "s \<in> set (grunning h @ gqueue h) \<Longrightarrow> taskKey s = taskKey t \<Longrightarrow> s = t" for s
    using h(2) unfolding distinct_map inj_on_def by auto
  have dist: "distinct (grunning h @ gqueue h)" using keys unfolding distinct_map by blast
  then have rest: "set (remove1 t (grunning h) @ gqueue h) = set (grunning h @ gqueue h) - {t}"
    using h(2) by auto
  have "set (removeAll (taskKey t) (gpending h)) = taskKey ` set (remove1 t (grunning h) @ gqueue h)"
    unfolding rest using h(1) inj by (auto simp: geoInv_def)
  moreover have "distinct (map taskKey (remove1 t (grunning h) @ gqueue h))"
    using keys dist unfolding distinct_map rest by (auto simp: inj_on_def)
  moreover have "length (remove1 t (grunning h)) = gactive h - 1" using h by (simp add: length_remove1 geoInv_def)
  moreover have "list_all publicTask (remove1 t (grunning h) @ gqueue h)"
    unfolding list_all_iff rest using h(1) by (auto simp: geoInv_def list_all_iff)
  ultimately have "preInv (h\<lparr>gsettled := gsettled h @ [(t, v)], gactive := gactive h - 1, grunning := remove1 t (grunning h),
       gpending := removeAll (taskKey t) (gpending h)\<rparr>)"
    using h(1) by (auto simp: preInv_def geoInv_def cacheOk_def split: if_splits)
  then show ?thesis using pump_inv f by (simp add: finish_def)
qed

lemma geo_run_inv: "geo_run g \<Longrightarrow> geoInv g"
proof (induction rule: geo_run.induct)
  case (create stored parse now m c names)
  show ?case by (rule create_inv)
next
  case (persist g)
  then show ?case
    by (auto simp: persist_def Let_def geoInv_def cacheOk_def trimCache_length trimCache_distinct)
next
  case (dispose g)
  then show ?case by (auto simp: dispose_def geoInv_def cacheOk_def)
qed (simp_all add: resolve_inv finish_inv)

text \<open>C13: however lookups, answers, timers and leaving the page interleave: at most four requests run, never two
  for the same key, every request under way or waiting is for a public address, the cache
  stays within its bound, and requests wait only while all slots are taken.\<close>

theorem geo_run_invariant:
  assumes "geo_run g"
  shows "length (grunning g) \<le> 4 \<and> distinct (map taskKey (grunning g @ gqueue g)) \<and>
    list_all publicTask (grunning g @ gqueue g) \<and> length (gcache g) \<le> gmax g \<and>
    (gqueue g = [] \<or> length (grunning g) = gconcurrency g)"
  using geo_run_inv [OF assms] by (auto simp: geoInv_def cacheOk_def MAX_CONCURRENCY_def split: if_splits)

theorem geo_run_invariant_witness:
  "length (grunning (fst (resolve 0 (JStr ''8.8.8.8'') (createResolver None (\<lambda>s. None) 0 JUndef JUndef None)))) \<le> 4"
  using geo_run_invariant [OF geo_run.resolve [OF geo_run.create [of None "\<lambda>s. None" 0 JUndef JUndef None]]] by simp

lemma pump_tasks: "grunning (pump g) @ gqueue (pump g) = grunning g @ gqueue g" "gsettled (pump g) = gsettled g"
  by (simp_all add: pump_eq Let_def)

text \<open>No lookup is forgotten: while one is unanswered a request is running, and the end of a request, by an answer or by
  its timeout, answers exactly its own lookup and leaves one fewer unanswered.\<close>

theorem geo_progress:
  assumes "geo_run g" "t \<in> set (grunning g @ gqueue g)"
  shows "grunning g \<noteq> [] \<and> (t \<in> set (grunning g) \<longrightarrow>
    (\<exists>v. gsettled (finish now t outcome g) = gsettled g @ [(t, v)]) \<and>
    Suc (length (grunning (finish now t outcome g) @ gqueue (finish now t outcome g))) = length (grunning g @ gqueue g))"
proof -
  have inv: "geoInv g" by (rule geo_run_inv [OF assms(1)])
  have "grunning g \<noteq> []" using inv assms(2) by (auto simp: geoInv_def split: if_splits)
  moreover obtain h v where f: "fetchOne now t outcome g = (h, v)" by fastforce
  have "sameTasks g h" using fetchOne_ok [of g now t outcome] inv f by (auto simp: geoInv_def)
  then have "t \<in> set (grunning g) \<Longrightarrow> gsettled (finish now t outcome g) = gsettled g @ [(t, v)] \<and>
      grunning (finish now t outcome g) @ gqueue (finish now t outcome g) = remove1 t (grunning g) @ gqueue g"
    using f by (simp add: finish_def pump_tasks sameTasks_def)
  moreover have "t \<in> set (grunning g) \<Longrightarrow> Suc (length (remove1 t (grunning g))) = length (grunning g)"
    using length_pos_if_in_set [of t "grunning g"] by (simp add: length_remove1)
  ultimately show ?thesis by auto
qed

theorem geo_progress_witness:
  "grunning (fst (resolve 0 (JStr ''8.8.8.8'') (createResolver None (\<lambda>s. None) 0 JUndef JUndef None))) \<noteq> []"
proof -
  let ?g = "fst (resolve 0 (JStr ''8.8.8.8'') (createResolver None (\<lambda>s. None) 0 JUndef JUndef None))"
  have "grunning ?g @ gqueue ?g \<noteq> []" by code_simp
  then obtain t where "t \<in> set (grunning ?g @ gqueue ?g)" by (metis last_in_set)
  from geo_progress [OF geo_run.resolve [OF geo_run.create] this] show ?thesis by blast
qed

section \<open>What trimming drops\<close>

lemma storedAt_number: "storedAt e \<noteq> NaN"
  by (auto simp: storedAt_def numOr_def)

lemma oldestFirst_comparator: "js_comparator UNIV (oldestFirst c)"
proof -
  have "consistent UNIV (\<lambda>l r. nsub (storedAt (jget (JObj c) l)) (storedAt (jget (JObj c) r)))"
    by (rule consistent_key [OF consistent_nsub]) (auto simp: storedAt_number)
  moreover have "oldestFirst c = (\<lambda>l r. nsub (storedAt (jget (JObj c) l)) (storedAt (jget (JObj c) r)))"
    by (intro ext) (simp add: oldestFirst_def)
  ultimately show ?thesis using consistent_comparator by metis
qed

lemma positive_nsub: "a \<noteq> NaN \<Longrightarrow> b \<noteq> NaN \<Longrightarrow> positive (nsub a b) \<longleftrightarrow> nlt b a"
  by (cases a; cases b) (auto simp: positive_def nsub_def)

text \<open>A cache over its bound loses the oldest entries: it is cut down to the bound, and no entry that is
  dropped is newer than one that is kept.\<close>

theorem trimCache_newest:
  assumes "distinct (map fst c)" "(k, e) \<in> set (trimCache c m)" "(j, f) \<in> set c" "(j, f) \<notin> set (trimCache c m)"
  shows "length (trimCache c m) \<le> m \<and> \<not> nlt (storedAt e) (storedAt f)"
proof -
  let ?ks = "map fst c" let ?sorted = "jsSort (oldestFirst c) ?ks" and ?n = "length c - m"
  have big: "\<not> length c \<le> m" using assms(3,4) by (auto simp: trimCache_def split: if_splits)
  then have trim: "trimCache c m = filter (\<lambda>e. fst e \<notin> set (take ?n ?sorted)) c" by (simp add: trimCache_def Let_def)
  have vals: "jget (JObj c) k = e" "jget (JObj c) j = f"
    using assms(1,2,3) trimCache_set [of c m] by (auto simp: jget.simps)
  have gone: "j \<in> set (take ?n ?sorted)" using assms(3,4) trim by simp
  have kept: "k \<in> set (drop ?n ?sorted)"
  proof -
    have "k \<in> set ?sorted" using assms(2) trim by force
    then have "k \<in> set (take ?n ?sorted) \<union> set (drop ?n ?sorted)" by (metis append_take_drop_id set_append)
    then show ?thesis using assms(2) trim by auto
  qed
  have "sorted_wrt (js_comparator.le (oldestFirst c)) (take ?n ?sorted @ drop ?n ?sorted)"
    using js_comparator.sorted_sort [OF oldestFirst_comparator] by simp
  then have "js_comparator.le (oldestFirst c) j k" using gone kept by (simp only: sorted_wrt_append)
  then have "\<not> positive (oldestFirst c j k)" by (simp add: js_comparator.le_def [OF oldestFirst_comparator])
  then have "\<not> nlt (storedAt e) (storedAt f)" by (simp add: oldestFirst_def vals positive_nsub storedAt_number)
  then show ?thesis using trimCache_length [OF assms(1)] by blast
qed

theorem trimCache_newest_witness:
  "\<not> nlt (storedAt (failEntry 7)) (storedAt (failEntry 5))"
proof -
  let ?c = "[(''a'', failEntry 5), (''b'', failEntry 7)]"
  have "trimCache ?c 1 = [(''b'', failEntry 7)]"
    by (simp add: trimCache_def jsSort_def oldestFirst_def storedAt_def failEntry_def jget.simps numOr_def nsub_def positive_def)
  then show ?thesis using trimCache_newest [of ?c "''b''" "failEntry 7" 1 "''a''" "failEntry 5"] by simp
qed

end
