(* ===== verification/ClientDetail.thy ===== *)
theory ClientDetail
  imports DiagFacts ClientConnections GeoResolver DhcpHostnames Format
begin

text \<open>
  The page of one client, \<open>lanspeed/clientDetailRefresh.js\<close>: labels, the groups of connections, pages,
  and what is shown. The page is drawn from its state; drawing also clamps the page number,
  forgets expanded groups that are gone and asks for the locations of the addresses on the page.
  Texts are English glosses; \<open>say\<close> is the translation of a gloss, by which groups are searched.
\<close>

section \<open>Labels\<close>

definition warningLabel :: "jval \<Rightarrow> mtext" where
  "warningLabel w = (if w = JStr ''client_not_found'' then Tr ''client not found''
     else if w = JStr ''conntrack_unavailable'' then Tr ''connection tracking unavailable''
     else if w = JStr ''conntrack_snapshot_incomplete'' then Tr ''connection snapshot incomplete'' else Lit (textOr w []))"

definition sourceLabel :: "jval \<Rightarrow> mtext" where
  "sourceLabel s = (if s = JStr ''conntrack_netlink'' then Lit ''Conntrack Netlink''
     else if s = JStr ''conntrack_procfs'' then Lit ''Conntrack Procfs''
     else if truthy s then Lit (toStr s) else Tr ''unknown'')"

definition rateSourceLabel :: "jval \<Rightarrow> mtext" where
  "rateSourceLabel s = labelOr [(''edge_port'', Lit ''Edge-Port''), (''edge_wifi'', Lit ''Edge-WiFi''),
     (''fast_routed_lease'', Lit ''FastN+FastS lease''), (''fast_routed_internet'', Lit ''FastN+FastS routed Internet''),
     (''ecm_bpf_fallback'', Lit ''ECM+BPF fallback''), (''ecm_nss_lower_bound'', Lit ''ECM NSS lower-bound''),
     (''tc_bpf_lower_bound'', Lit ''TC-BPF lower-bound''), (''none'', Tr ''unavailable'')]
     (textOr s []) (if truthy s then Lit (toStr s) else Tr ''unknown'')"

definition collectorLabel :: "jval \<Rightarrow> mtext" where
  "collectorLabel m = labelOr [(''access_edge'', Lit ''Access Edge''), (''bpf'', Lit ''TC-BPF''), (''nss_ecm_node'', Lit ''NSS ECM''),
     (''nss_ecm_bpf'', Lit ''NSS ECM+BPF''), (''conntrack_netlink'', Lit ''Conntrack Netlink''),
     (''conntrack_procfs'', Lit ''Conntrack Procfs'')] (textOr m []) (if truthy m then Lit (toStr m) else Tr ''unknown'')"

definition rateWindowLabel :: "jval \<Rightarrow> mtext option" where
  "rateWindowLabel v = (case toNum v of
     Fin ms \<Rightarrow> if ms \<le> 0 then None
       else (let seconds = ms / 1000; p = (if seconds \<ge> 10 \<or> of_int \<lfloor>seconds\<rfloor> = seconds then 1 else 10) in
         Some (Fmt ''window of %s s'' [NumT (Fin (of_int \<lfloor>seconds * p + 1 / 2\<rfloor> / p))]))
   | _ \<Rightarrow> None)"

text \<open>Both directions when they agree, else each with a dash for the missing one.\<close>

definition pairLabel :: "mtext option \<Rightarrow> mtext option \<Rightarrow> mtext option" where
  "pairLabel tx rx = (if tx \<noteq> None \<and> tx = rx then tx
     else if tx = None \<and> rx = None then None
     else (let shown = (\<lambda>t. case t of Some x \<Rightarrow> x | None \<Rightarrow> Lit ''-'') in Some (Fmt ''up %s, down %s'' [shown tx, shown rx])))"

definition metaOf :: "jval \<Rightarrow> jval option" where
  "metaOf client = (let m = jfield client ''rate_meta'' in if truthy m \<and> typeofObject m then Some m else None)"

definition clientRateSource :: "jval \<Rightarrow> mtext" where
  "clientRateSource client = (let fallback = collectorLabel (jfield client ''rate_collector_mode'') in
     case metaOf client of None \<Rightarrow> fallback
     | Some m \<Rightarrow> (let tx = jfield (jget m ''tx'') ''source''; rx = jfield (jget m ''rx'') ''source'' in
         if truthy tx \<or> truthy rx
         then (if rateSourceLabel tx = rateSourceLabel rx then rateSourceLabel tx
           else Fmt ''up %s / down %s'' [rateSourceLabel tx, rateSourceLabel rx])
         else fallback))"

definition clientRateWindow :: "jval \<Rightarrow> mtext option" where
  "clientRateWindow client = (case metaOf client of None \<Rightarrow> None
     | Some m \<Rightarrow> (case rateWindowLabel (jget m ''window_ms'') of Some t \<Rightarrow> Some t
       | None \<Rightarrow> (let part = (\<lambda>d. if truthy (jget m d) then rateWindowLabel (jget (jget m d) ''window_ms'') else None)
         in pairLabel (part ''tx'') (part ''rx''))))"

definition rateCoverageLabel :: "jval \<Rightarrow> mtext option" where
  "rateCoverageLabel v = (let t = labelOr [(''full'', Tr ''full coverage''), (''partial'', Tr ''partial coverage''),
       (''degraded'', Tr ''degraded coverage''), (''unavailable'', Tr ''coverage unavailable'')] (textOr v []) (Lit [])
     in if t = Lit [] then None else Some t)"

definition clientRateCoverage :: "jval \<Rightarrow> mtext option" where
  "clientRateCoverage client = (case metaOf client of None \<Rightarrow> None
     | Some m \<Rightarrow> pairLabel (rateCoverageLabel (jfield (jget m ''tx'') ''coverage'')) (rateCoverageLabel (jfield (jget m ''rx'') ''coverage'')))"

definition routedSource :: "jval \<Rightarrow> bool" where
  "routedSource d \<longleftrightarrow> truthy d \<and> (jget d ''source'' = JStr ''fast_routed_internet'' \<or> jget d ''source'' = JStr ''fast_routed_lease'')"

definition routedRateView :: "jval \<Rightarrow> jval \<Rightarrow> bool" where
  "routedRateView client status \<longleftrightarrow> truthy status \<and> textOr (jget status ''internet_view_mode'') [] = ''routed'' \<or>
     (case metaOf client of None \<Rightarrow> False
     | Some m \<Rightarrow> jget m ''scope'' = JStr ''routed_observed'' \<and> (routedSource (jget m ''tx'') \<or> routedSource (jget m ''rx'')))"

definition optional :: "bool \<Rightarrow> mtext \<Rightarrow> mtext list" where
  "optional b t = (if b then [t] else [])"

definition someText :: "mtext option \<Rightarrow> mtext list" where
  "someText t = (case t of None \<Rightarrow> [] | Some x \<Rightarrow> [x])"

definition clientRateMetaLabel :: "jval \<Rightarrow> jval \<Rightarrow> mtext" where
  "clientRateMetaLabel client response = (if \<not> truthy client then Lit ''-''
     else (let m = jget client ''rate_meta''; ifname = jfield (jfield m ''attachment'') ''ifname'' in
       joinText dot ([Fmt ''rates sampled: %s'' [clientRateSource client]] @ optional (truthy ifname) (Lit (toStr ifname)) @
         someText (clientRateCoverage client) @ someText (clientRateWindow client) @
         optional (jfield m ''stale'' = JBool True) (Tr ''out of date'') @
         optional (truthy (jfield response ''conn_source'')) (Fmt ''connections sampled: %s'' [sourceLabel (jget response ''conn_source'')]) @
         optional (truthy response \<and> jget response ''available'' = JBool False) (Tr ''connections unavailable''))))"

definition stateLabel :: "jval \<Rightarrow> mtext" where
  "stateLabel s = (let v = toLowerCase (textOr s []) in
     if v = ''established'' then Tr ''established'' else if v = ''assured'' then Tr ''active''
     else if v = [] then Lit ''-'' else Lit (toStr s))"

definition inbound :: "jval \<Rightarrow> bool" where
  "inbound direction \<longleftrightarrow> toLowerCase (textOr direction []) = ''inbound''"

definition directionLabel :: "jval \<Rightarrow> mtext" where
  "directionLabel direction = (if inbound direction then Tr ''inbound'' else Tr ''outbound'')"

definition detailEndpoint :: "jval \<Rightarrow> mtext" where
  "detailEndpoint c = (let client = formatEndpoint (jfield c ''client_ip'') (jfield c ''client_port'');
       remote = formatEndpoint (jfield c ''remote_ip'') (jfield c ''remote_port'')
     in if inbound (jfield c ''direction'') then Fmt ''%s to %s'' [Lit remote, Lit client] else Fmt ''%s to %s'' [Lit client, Lit remote])"

section \<open>Addresses of the client\<close>

text \<open>\<open>parseInt(s, 16)\<close>.\<close>

definition parseInt16 :: "string \<Rightarrow> int option" where
  "parseInt16 s = (let t = dropWhile isSpace s; neg = (take 1 t = ''-'');
       u = (if neg \<or> take 1 t = ''+'' then tl t else t);
       w = (if take 2 u = ''0x'' \<or> take 2 u = ''0X'' then drop 2 u else u); ds = takeWhile isHexAny w
     in if ds = [] then None else Some (if neg then - int (radixVal 16 ds) else int (radixVal 16 ds)))"

definition upTo :: "char \<Rightarrow> string \<Rightarrow> string" where
  "upTo c s = takeWhile (\<lambda>x. x \<noteq> c) s"

definition ipDisplayRank :: "jval \<Rightarrow> nat" where
  "ipDisplayRank v = (let a = toLowerCase (textOr v []) in
     if CHR '':'' \<notin> set a then 0
     else (let b = (if take 1 a = ''['' then tl a else a) in
       case parseInt16 (upTo (CHR '':'') (upTo (CHR ''%'') b)) of
         Some n \<Rightarrow> if 0xfe80 \<le> n \<and> n \<le> 0xfebf then 1 else 2 | None \<Rightarrow> 2))"

definition rankCompare :: "jval \<times> nat \<Rightarrow> jval \<times> nat \<Rightarrow> jnum" where
  "rankCompare l r = (let d = int (ipDisplayRank (fst l)) - int (ipDisplayRank (fst r)) in
     if d \<noteq> 0 then Fin (of_int d) else Fin (of_int (int (snd l) - int (snd r))))"

definition orderedClientIps :: "jval \<Rightarrow> jval list" where
  "orderedClientIps v = (let ips = asArray v in map fst (jsSort rankCompare (zip ips [0..<length ips])))"

record client_meta =
  cmIps :: "string list"
  cmFacts :: "(mtext \<times> string) list"

definition renderClientMeta :: "jval \<Rightarrow> jval list \<Rightarrow> jval \<Rightarrow> client_meta" where
  "renderClientMeta client ips identity = (let
       facts = (if truthy (jfield client ''mac'') then [(Tr ''MAC address'', toStr (jget client ''mac''))] else []) @
         (if truthy (jfield client ''interface'') then [(Tr ''interface'', toStr (jget client ''interface''))] else [])
     in \<lparr>cmIps = map toStr ips, cmFacts = (if ips = [] \<and> facts = [] \<and> truthy identity
       then [(Tr ''identity'', toStr identity)] else facts)\<rparr>)"

definition clientSummaryRate :: "jval \<Rightarrow> string \<Rightarrow> string \<Rightarrow> mtext" where
  "clientSummaryRate client f unit = (if \<not> truthy client \<or> nullish (jget client f) then Lit ''-'' else formatRate (jget client f) unit)"

definition errorText :: "jval \<Rightarrow> jval \<Rightarrow> mtext" where
  "errorText error response = (let detail = (if truthy (jfield error ''message'') then toStr (jget error ''message'') else textOr error []);
       prefix = (if \<not> truthy response then Tr ''the first load failed''
         else if jget response ''available'' = JBool False then Tr ''the refresh failed and the data are unavailable''
         else Tr ''the refresh failed, showing the last data'')
     in if detail = [] then prefix else Fmt ''%s: %s'' [prefix, Lit detail])"

section \<open>The state of the page\<close>

text \<open>The choices of refresh periods of \<open>format.js\<close>, and the preferences the page uses.\<close>

definition REFRESH_CHOICES :: "rat list" where
  "REFRESH_CHOICES = [1000, 2000, 3000, 5000, 10000]"

definition CONNECTION_PAGE_SIZE :: nat where
  "CONNECTION_PAGE_SIZE = 100"

definition LAZY_DETAIL_THRESHOLD :: nat where
  "LAZY_DETAIL_THRESHOLD = 32"

record detail_prefs =
  dpRefresh :: jnum
  dpNss :: jnum
  dpPaused :: bool

datatype dialog_status = NoStatus | SavingNote | InvalidName save_error | SaveFailed save_error

record dialog =
  dgOriginal :: string
  dgInput :: string
  dgStatus :: dialog_status

text \<open>A request under way: when it started and the status it falls back to.\<close>

record detail_request =
  rqAt :: nat
  rqStatus :: jval

record detail_view =
  dtIdentity :: jval
  dtResponse :: jval
  dtUpdated :: "nat option"
  dtFailure :: jval
  dtProtocol :: string
  dtFilter :: string
  dtExpanded :: "string list"
  dtPage :: nat
  dtSort :: sort_state
  dtPrefs :: detail_prefs
  dtUnit :: string
  dtStatus :: jval
  dtChoices :: "rat list"
  dtTimer :: "jnum option"
  dtLoading :: bool
  dtManual :: bool
  dtPending :: "detail_request option"
  dtDestroyed :: bool
  dtCustom :: string
  dtAvailable :: bool
  dtMac :: string
  dtOpening :: bool
  dtSaving :: bool
  dtDialog :: "dialog option"
  dtGeo :: resolver
  dtBatch :: "string list option"
  dtPolicy :: string
  dtOptions :: "rat list"
  dtStore :: "storage option"

section \<open>The groups on the page\<close>

definition warnings :: "detail_view \<Rightarrow> jval list" where
  "warnings v = asArray (jfield (dtResponse v) ''warnings'')"

definition clientOf :: "detail_view \<Rightarrow> jval" where
  "clientOf v = jfield (dtResponse v) ''client''"

definition notFound :: "detail_view \<Rightarrow> bool" where
  "notFound v \<longleftrightarrow> truthy (dtResponse v) \<and> (\<not> truthy (jget (dtResponse v) ''client'') \<or> JStr ''client_not_found'' \<in> set (warnings v))"

definition usable :: "detail_view \<Rightarrow> bool" where
  "usable v \<longleftrightarrow> truthy (dtResponse v) \<and> jget (dtResponse v) ''available'' = JBool True \<and> \<not> notFound v"

definition incomplete :: "detail_view \<Rightarrow> bool" where
  "incomplete v \<longleftrightarrow> truthy (dtResponse v) \<and> jget (dtResponse v) ''available'' = JBool False \<and>
     JStr ''conntrack_snapshot_incomplete'' \<in> set (warnings v)"

definition rateUsable :: "detail_view \<Rightarrow> bool" where
  "rateUsable v \<longleftrightarrow> truthy (dtResponse v) \<and> truthy (clientOf v) \<and> \<not> notFound v"

text \<open>\<open>locationLabelFor\<close>: the text of what the resolver knows about an address.\<close>

definition locationLabelFor :: "(mtext \<Rightarrow> string) \<Rightarrow> nat \<Rightarrow> detail_view \<Rightarrow> lookup" where
  "locationLabelFor say now v = Some (\<lambda>ip. let t = say (label (snd (peek (of_nat now) ip (dtGeo v)))) in
     Some (JStr (if t = [] then say (Tr ''unknown'') else t)))"

definition allGroups :: "(mtext \<Rightarrow> string) \<Rightarrow> nat \<Rightarrow> detail_view \<Rightarrow> group list" where
  "allGroups say now v = (if usable v
     then groupsForResponse (dtResponse v) (JStr ''all'') (JStr []) (locationLabelFor say now v) else [])"

definition shownGroups :: "(mtext \<Rightarrow> string) \<Rightarrow> (string \<Rightarrow> string \<Rightarrow> int) \<Rightarrow> nat \<Rightarrow> detail_view \<Rightarrow> group list" where
  "shownGroups say collate now v = sortGroups collate (if usable v
       then groupsForResponse (dtResponse v) (JStr (dtProtocol v)) (JStr (dtFilter v)) (locationLabelFor say now v) else [])
     (sortKey (dtSort v)) (sortDir (dtSort v))"

definition pagesOf :: "group list \<Rightarrow> nat" where
  "pagesOf gs = (if gs = [] then 1 else ceilDiv (length gs) CONNECTION_PAGE_SIZE)"

definition pageGroups :: "group list \<Rightarrow> nat \<Rightarrow> group list" where
  "pageGroups gs n = take CONNECTION_PAGE_SIZE (drop (n * CONNECTION_PAGE_SIZE) gs)"

section \<open>Drawing\<close>

text \<open>The addresses on the page, each once; an open batch of lookups is waited for.\<close>

definition distinctLower :: "string list \<Rightarrow> string list" where
  "distinctLower ips = rev (remdups (rev (filter (\<lambda>s. s \<noteq> []) (map toLowerCase ips))))"

definition requestOne :: "rat \<Rightarrow> string \<Rightarrow> resolver \<times> reply list \<Rightarrow> resolver \<times> reply list" where
  "requestOne now ip s = (case s of (g, rs) \<Rightarrow> (case peek now (JStr ip) g of (g1, l) \<Rightarrow>
     if queryable l then (case resolve now (JStr ip) g1 of (g2, r) \<Rightarrow> (g2, rs @ [r])) else (g1, rs)))"

definition awaited :: "reply list \<Rightarrow> string list" where
  "awaited rs = List.map_filter (\<lambda>r. case r of Now l \<Rightarrow> None | Later k \<Rightarrow> Some k) rs"

definition requestLocations :: "nat \<Rightarrow> string list \<Rightarrow> detail_view \<Rightarrow> detail_view" where
  "requestLocations now ips v = (if dtDestroyed v \<or> dtBatch v \<noteq> None then v
     else (let (g, rs) = fold (requestOne (of_nat now)) (distinctLower ips) (dtGeo v, [])
       in v\<lparr>dtGeo := g, dtBatch := (if rs = [] then None else Some (awaited rs))\<rparr>))"

text \<open>The period in effect.\<close>

definition detailRefreshMs :: "jval \<Rightarrow> detail_prefs \<Rightarrow> jnum" where
  "detailRefreshMs status p = (if nssRefreshRestricted status then normalizeNssRefreshMs (JNum (dpNss p))
     else nmax (Fin MIN_REFRESH_MS) (numOr (JNum (dpRefresh p)) (Fin 1000)))"

text \<open>The menu of refresh periods: its options are built again when the policy changes.\<close>

definition refreshPolicy :: "jval \<Rightarrow> string" where
  "refreshPolicy status = (if nssRefreshRestricted status then ''nss'' else ''default'')"

definition refreshIntervalControl :: "detail_view \<Rightarrow> detail_view" where
  "refreshIntervalControl v = (let policy = refreshPolicy (dtStatus v) in
     if dtPolicy v \<noteq> policy then v\<lparr>dtOptions := dtChoices v, dtPolicy := policy\<rparr> else v)"

text \<open>What drawing changes: the resolver forgets expired answers it is asked about, expanded groups that
  are gone are forgotten, the page number is clamped, and locations are asked for.\<close>

definition lookedUp :: "nat \<Rightarrow> group list \<Rightarrow> resolver \<Rightarrow> resolver" where
  "lookedUp now gs g = fold (\<lambda>k g. fst (peek (of_nat now) (JStr (remoteIp k)) g)) gs g"

definition draw :: "(mtext \<Rightarrow> string) \<Rightarrow> (string \<Rightarrow> string \<Rightarrow> int) \<Rightarrow> nat \<Rightarrow> detail_view \<Rightarrow> detail_view" where
  "draw say collate now v = (let every = allGroups say now v; gs = shownGroups say collate now v;
       n = min (dtPage v) (pagesOf gs - 1)
     in refreshIntervalControl (requestLocations now (map remoteIp (pageGroups gs n))
       (v\<lparr>dtGeo := lookedUp now every (dtGeo v), dtPage := n,
          dtExpanded := filter (\<lambda>ip. ip \<in> remoteIp ` set every) (dtExpanded v)\<rparr>)))"

section \<open>What is shown\<close>

text \<open>One connection of an expanded group, and a group with its expanded row.\<close>

record detail_item =
  diEndpoint :: mtext
  diMeta :: mtext
  diTx :: mtext
  diRx :: mtext

definition detailItem :: "string \<Rightarrow> jval \<Rightarrow> detail_item" where
  "detailItem unit c = \<lparr>diEndpoint = detailEndpoint c,
     diMeta = joinText dot [directionLabel (jfield c ''direction''), Lit (toUpperCase (textOr (jfield c ''protocol'') ''-'')),
       stateLabel (jfield c ''state'')],
     diTx = formatRate (jfield c ''tx_bps'') unit, diRx = formatRate (jfield c ''rx_bps'') unit\<rparr>"

record group_row =
  grIp :: string
  grLocation :: mtext
  grPorts :: string
  grProtocol :: string
  grState :: string
  grTx :: mtext
  grRx :: mtext
  grCount :: nat
  grExpanded :: bool
  grDetails :: "detail_item list"

definition buildGroupRow :: "detail_view \<Rightarrow> group \<Rightarrow> group_row" where
  "buildGroupRow v g = (let open_row = (remoteIp g \<in> set (dtExpanded v)) in
     \<lparr>grIp = (if remoteIp g = [] then ''-'' else remoteIp g), grLocation = (if glocation g = [] then Tr ''unknown'' else Lit (glocation g)),
      grPorts = portLabel g, grProtocol = gprotocol g, grState = gstate g, grTx = formatRate (JNum (txBps g)) (dtUnit v),
      grRx = formatRate (JNum (rxBps g)) (dtUnit v), grCount = gcount g, grExpanded = open_row,
      grDetails = (if length (gconnections g) \<le> LAZY_DETAIL_THRESHOLD \<or> open_row then map (detailItem (dtUnit v)) (gconnections g) else [])\<rparr>)"

definition displayName :: "detail_view \<Rightarrow> jval list \<Rightarrow> jval" where
  "displayName v ips = (let c = clientOf v in jor (JStr (dtCustom v)) (jor (jfield c ''hostname'')
     (jor (case ips of [] \<Rightarrow> JUndef | ip # _ \<Rightarrow> ip) (jor (jfield c ''mac'') (jor (dtIdentity v) (JStr ''-''))))))"

definition headingTitle :: "detail_view \<Rightarrow> mtext" where
  "headingTitle v = (if dtOpening v then Tr ''reading the DHCP configuration'' else if dtMac v = [] then Tr ''the host name cannot be changed''
     else if \<not> dtAvailable v then Tr ''click to read the DHCP configuration again'' else Tr ''click to change the host name'')"

definition total :: "detail_view \<Rightarrow> string \<Rightarrow> jnum" where
  "total v k = numOr (jget (dtResponse v) k) (Fin 0)"

definition connectionState :: "detail_view \<Rightarrow> mtext \<times> string" where
  "connectionState v = (if usable v
     then (if nlt (Fin 0) (toNum (jget (dtResponse v) ''total_connections'')) then (Tr ''has connections'', ''active'') else (Tr ''no connections'', ''idle''))
     else if truthy (dtResponse v) \<and> jget (dtResponse v) ''available'' = JBool False then (Tr ''data unavailable'', ''unavailable'')
     else (Tr ''waiting for data'', ''pending''))"

definition emptyMessage :: "detail_view \<Rightarrow> group list \<Rightarrow> mtext" where
  "emptyMessage v gs = (let r = dtResponse v in
     if truthy (dtFailure v) \<and> \<not> truthy r then Tr ''the first load failed''
     else if notFound v then Tr ''the client is gone''
     else if incomplete v then Tr ''the snapshot is incomplete''
     else if truthy r \<and> jget r ''available'' = JBool False then Tr ''connections cannot be collected now''
     else if usable v \<and> toNum (jget r ''total_connections'') = Fin 0 then Tr ''the client has no connections''
     else if usable v \<and> gs = [] then Tr ''no connection matches the filter''
     else if \<not> truthy r then Tr ''nothing was loaded yet'' else Lit [])"

definition footerText :: "detail_view \<Rightarrow> mtext list" where
  "footerText v = (let r = dtResponse v in
     (if truthy r then [Fmt ''connections: %s'' [sourceLabel (jget r ''conn_source'')]] @
        (if usable v then [Fmt ''%d shown of %d'' [NumT (total v ''returned_connections''), NumT (total v ''total_connections'')]] @
           (if truthy (jget r ''truncated'') then [Fmt ''only the first %d are shown'' [NumT (total v ''limit'')],
             Tr ''the rates of groups add the shown ones only''] else []) else []) @
        (if warnings v = [] then [] else [Fmt ''warnings: %s'' [joinText (Lit '', '') (map warningLabel (warnings v))]]) @
        (if rateUsable v \<and> Format.nssPlatform (dtStatus v)
         then [if routedRateView (clientOf v) (dtStatus v) then Tr ''NSS: the rates come from routed traffic''
           else Tr ''NSS: the rates come from the access edge''] else []) else []) @
     [if dpPaused (dtPrefs v) then Tr ''automatic refresh is paused''
      else Fmt ''refreshed every %s s'' [NumT (nscale (1 / 10) (nround (nscale (1 / 100) (detailRefreshMs (dtStatus v) (dtPrefs v)))))],
      Tr ''locations are guessed from addresses''])"

record shown_detail =
  sdName :: string
  sdMeta :: client_meta
  sdEditable :: bool
  sdTitle :: mtext
  sdState :: "mtext \<times> string"
  sdTargets :: mtext
  sdConnections :: mtext
  sdTx :: mtext
  sdRx :: mtext
  sdRateMeta :: mtext
  sdUpdated :: "nat option"
  sdRows :: "group_row list"
  sdEmpty :: mtext
  sdError :: "mtext option"
  sdRefreshOff :: bool
  sdPrevOff :: bool
  sdNextOff :: bool
  sdPageText :: mtext
  sdPagerHidden :: bool
  sdInterval :: jnum
  sdFooter :: "mtext list"

text \<open>\<open>gs\<close> are the groups of the page before it was drawn, \<open>every\<close> those without a filter.\<close>

definition render :: "group list \<Rightarrow> group list \<Rightarrow> detail_view \<Rightarrow> shown_detail" where
  "render every gs v = (let r = dtResponse v; ips = orderedClientIps (jfield (clientOf v) ''ips''); n = pagesOf gs;
       page = dtPage v; rates = (\<lambda>t. if rateUsable v then t else Lit ''-'') in
     \<lparr>sdName = toStr (displayName v ips), sdMeta = renderClientMeta (clientOf v) ips (dtIdentity v),
      sdEditable = (dtMac v \<noteq> [] \<and> \<not> dtOpening v), sdTitle = headingTitle v, sdState = connectionState v,
      sdTargets = (if usable v then Cat (optional (truthy (jget r ''truncated'')) (Tr ''at least '') @ [natT (length every)]) else Lit ''-''),
      sdConnections = (if usable v then NumT (total v ''total_connections'') else Lit ''-''),
      sdTx = rates (clientSummaryRate (clientOf v) ''tx_bps'' (dtUnit v)), sdRx = rates (clientSummaryRate (clientOf v) ''rx_bps'' (dtUnit v)),
      sdRateMeta = rates (clientRateMetaLabel (clientOf v) r), sdUpdated = dtUpdated v,
      sdRows = map (buildGroupRow v) (pageGroups gs page), sdEmpty = emptyMessage v gs,
      sdError = (if truthy (dtFailure v) then Some (errorText (dtFailure v) r) else None), sdRefreshOff = dtManual v,
      sdPrevOff = (page = 0 \<or> \<not> usable v \<or> dtLoading v), sdNextOff = (n \<le> page + 1 \<or> \<not> usable v \<or> dtLoading v),
      sdPageText = (if usable v \<and> gs \<noteq> [] then Fmt ''%d / %d'' [natT (page + 1), natT n] else Lit ''-''),
      sdPagerHidden = (\<not> usable v \<or> n \<le> 1),
      sdInterval = detailRefreshMs (dtStatus v) (dtPrefs v), sdFooter = footerText v\<rparr>)"

section \<open>The headers of the columns\<close>

definition headerTitle :: "sort_state \<Rightarrow> string \<Rightarrow> mtext \<Rightarrow> mtext" where
  "headerTitle s key l = (let active = (sortCustom s \<and> sortKey s = key); up = (sortDir s = ''asc'') in
     if \<not> sortCustom s \<and> sortKey s = key then Fmt ''%s: default order, click to sort downwards'' [l]
     else if active \<and> up then Fmt ''%s: upwards, click for the default order'' [l]
     else if active then Fmt ''%s: downwards, click to sort upwards'' [l] else Fmt ''sort by %s downwards'' [l])"

definition ariaSort :: "sort_state \<Rightarrow> string \<Rightarrow> string" where
  "ariaSort s key = (if sortKey s = key then (if sortDir s = ''asc'' then ''ascending'' else ''descending'') else ''none'')"

end
