(* ===== verification/DetailController.thy ===== *)
theory DetailController
  imports ClientDetail
begin

text \<open>
  The controller of the page of one client, \<open>lanspeed/clientDetailView.js\<close>: its preferences in
  \<open>localStorage\<close>, loading, the refresh timer, filters, the lookups of locations and the dialog for the
  host name, as a step relation over clicks, timers and answers. \<open>say\<close> is the translation and \<open>collate\<close>
  the collation of the browser.
\<close>

section \<open>Preferences\<close>

definition DETAIL_PREF_KEY :: string where
  "DETAIL_PREF_KEY = ''luci-app-lanspeed.detail-prefs.v2''"

definition LEGACY_DETAIL_PREF_KEY :: string where
  "LEGACY_DETAIL_PREF_KEY = ''luci-app-lanspeed.detail-prefs.v1''"

definition detailDefaults :: props where
  "detailDefaults = [(''refreshMs'', num 1000), (''nssRefreshMs'', num NSS_REFRESH_MS), (''paused'', JBool False)]"

text \<open>\<open>Object.assign(defaults, stored)\<close>, for the properties that are read afterwards.\<close>

definition mergeStored :: "jval \<Rightarrow> props" where
  "mergeStored v = (case v of JObj ps \<Rightarrow> assignProps detailDefaults ps | _ \<Rightarrow> detailDefaults)"

definition migrateStored :: "jval \<Rightarrow> jval" where
  "migrateStored v = (case v of JObj ps \<Rightarrow> JObj (migrateLegacy ps) | _ \<Rightarrow> v)"

definition finishDetail :: "props \<Rightarrow> detail_prefs" where
  "finishDetail ps = (let n = toNum (jget (JObj ps) ''refreshMs'') in
     \<lparr>dpRefresh = (if list_ex (\<lambda>c. n = Fin c) REFRESH_CHOICES then n else Fin 1000),
      dpNss = normalizeNssRefreshMs (jget (JObj ps) ''nssRefreshMs''), dpPaused = (jget (JObj ps) ''paused'' = JBool True)\<rparr>)"

text \<open>Without storage the shared preferences are taken over; a throwing storage leaves the defaults.\<close>

definition detailPrefs :: "storage option \<Rightarrow> props \<Rightarrow> storage option \<times> detail_prefs" where
  "detailPrefs box shared = (case box of
     None \<Rightarrow> (None, finishDetail [(''refreshMs'', jget (JObj shared) ''refreshMs''), (''nssRefreshMs'', jget (JObj shared) ''nssRefreshMs''),
       (''paused'', JBool (jget (JObj shared) ''paused'' = JBool True))])
   | Some st \<Rightarrow> if \<not> readable st then (box, finishDetail detailDefaults)
       else (let legacy = (rawItem st DETAIL_PREF_KEY = EmptyText);
             raw = (if legacy then rawItem st LEGACY_DETAIL_PREF_KEY else rawItem st DETAIL_PREF_KEY)
         in case raw of
           Doc v \<Rightarrow> if \<not> truthy v \<or> \<not> typeofObject v then (box, finishDetail detailDefaults)
             else if \<not> legacy then (box, finishDetail (mergeStored v))
             else if \<not> writable st then (box, finishDetail detailDefaults)
             else (Some (st\<lparr>items := (items st)(DETAIL_PREF_KEY \<mapsto> Doc (migrateStored v))\<rparr>), finishDetail (mergeStored (migrateStored v)))
         | _ \<Rightarrow> (box, finishDetail detailDefaults)))"

definition saveDetailPrefs :: "detail_prefs \<Rightarrow> storage option \<Rightarrow> storage option" where
  "saveDetailPrefs p box = (case box of None \<Rightarrow> None
   | Some st \<Rightarrow> if \<not> writable st then box
       else Some (st\<lparr>items := (items st)(DETAIL_PREF_KEY \<mapsto> Doc (JObj [(''refreshMs'', JNum (numOr (JNum (dpRefresh p)) (Fin 1000))),
         (''nssRefreshMs'', JNum (normalizeNssRefreshMs (JNum (dpNss p)))), (''paused'', JBool (dpPaused p))]))\<rparr>))"

text \<open>The prefs of the page: the shared ones, with the period and the pause of this page.\<close>

definition normalizedPrefs :: "storage option \<Rightarrow> storage option \<times> detail_prefs \<times> string" where
  "normalizedPrefs box = (let
       shared = (case box of None \<Rightarrow> (None, DEFAULT_PREFS) | Some st \<Rightarrow> (case loadPrefs st of (st', ps) \<Rightarrow> (Some st', ps)));
       (box', p) = detailPrefs (fst shared) (snd shared); unit = jget (JObj (snd shared)) ''unit''
     in (box', p\<lparr>dpRefresh := nmax (Fin MIN_REFRESH_MS) (dpRefresh p)\<rparr>, case unit of JStr u \<Rightarrow> u | _ \<Rightarrow> []))"

section \<open>Loading\<close>

definition detailRefreshChoices :: "jval \<Rightarrow> rat list" where
  "detailRefreshChoices status = (if nssRefreshRestricted status then NSS_REFRESH_CHOICES else REFRESH_CHOICES)"

text \<open>The status RPC never fails a refresh: its answer, or the status before, or null.\<close>

definition collectorStatus :: "jval option \<Rightarrow> jval \<Rightarrow> jval" where
  "collectorStatus answer previous = (case answer of Some s \<Rightarrow> jor s (jor previous JNull) | None \<Rightarrow> jor previous JNull)"

datatype detail_end = Answered jval "jval option" | Refused jval

record detail_data =
  ddIdentity :: jval
  ddResponse :: jval
  ddCustom :: string
  ddAvailable :: bool
  ddStatus :: jval
  ddUpdated :: "nat option"
  ddError :: jval

definition loadClient :: "jval \<Rightarrow> detail_end \<Rightarrow> load_result \<Rightarrow> nat \<Rightarrow> detail_data" where
  "loadClient identity e r now = (case e of
     Answered response status \<Rightarrow> \<lparr>ddIdentity = identity, ddResponse = response,
       ddCustom = (case loadedHost r of Some h \<Rightarrow> hostName h | None \<Rightarrow> []), ddAvailable = available r,
       ddStatus = collectorStatus status JNull, ddUpdated = Some now, ddError = JNull\<rparr>
   | Refused err \<Rightarrow> \<lparr>ddIdentity = identity, ddResponse = JNull, ddCustom = [], ddAvailable = True, ddStatus = JNull,
       ddUpdated = None, ddError = err\<rparr>)"

section \<open>The timer\<close>

definition stopTimer :: "detail_view \<Rightarrow> detail_view" where
  "stopTimer v = v\<lparr>dtTimer := None\<rparr>"

definition schedule :: "nat option \<Rightarrow> nat \<Rightarrow> detail_view \<Rightarrow> detail_view" where
  "schedule anchorAt now v0 = (let v = stopTimer v0; interval = detailRefreshMs (dtStatus v) (dtPrefs v);
       anchor = (case anchorAt of None \<Rightarrow> now | Some a \<Rightarrow> if a > now then now else a)
     in if dtDestroyed v \<or> dpPaused (dtPrefs v) then v
        else v\<lparr>dtTimer := Some (if nssRefreshRestricted (dtStatus v)
          then nmax (Fin 0) (nsub interval (Fin (of_nat (now - anchor)))) else interval)\<rparr>)"

section \<open>Refreshing\<close>

text \<open>\<open>reload\<close>: one request at a time; a click while one is under way only shows that it waits.\<close>

definition reload :: "(mtext \<Rightarrow> string) \<Rightarrow> (string \<Rightarrow> string \<Rightarrow> int) \<Rightarrow> bool \<Rightarrow> nat \<Rightarrow> detail_view \<Rightarrow> detail_view" where
  "reload say collate manual now v = (if dtPending v \<noteq> None
     then (if manual \<and> \<not> dtManual v then draw say collate now (v\<lparr>dtManual := True\<rparr>) else v)
     else (draw say collate now ((stopTimer v)\<lparr>dtLoading := True, dtManual := manual\<rparr>))
       \<lparr>dtPending := Some \<lparr>rqAt = now, rqStatus = dtStatus v\<rparr>\<rparr>)"

definition takeAnswer :: "detail_end \<Rightarrow> detail_request \<Rightarrow> nat \<Rightarrow> detail_view \<Rightarrow> detail_view" where
  "takeAnswer e rq now v = (case e of
     Answered response status \<Rightarrow> (let st = jor (collectorStatus status (rqStatus rq)) (dtStatus v) in
       v\<lparr>dtResponse := response, dtUpdated := Some now, dtStatus := st, dtChoices := detailRefreshChoices st, dtFailure := JNull\<rparr>)
   | Refused err \<Rightarrow> v\<lparr>dtFailure := err\<rparr>)"

definition requestEnds :: "(mtext \<Rightarrow> string) \<Rightarrow> (string \<Rightarrow> string \<Rightarrow> int) \<Rightarrow> detail_end \<Rightarrow> nat \<Rightarrow> detail_view \<Rightarrow> detail_view" where
  "requestEnds say collate e now v = (case dtPending v of None \<Rightarrow> v
   | Some rq \<Rightarrow> (schedule (Some (rqAt rq)) now
       (draw say collate now ((takeAnswer e rq now v)\<lparr>dtLoading := False, dtManual := False\<rparr>)))\<lparr>dtPending := None\<rparr>)"

definition timerFires :: "(mtext \<Rightarrow> string) \<Rightarrow> (string \<Rightarrow> string \<Rightarrow> int) \<Rightarrow> nat \<Rightarrow> detail_view \<Rightarrow> detail_view" where
  "timerFires say collate now v = (if dtTimer v = None then v else reload say collate False now (v\<lparr>dtTimer := None\<rparr>))"

section \<open>The toolbar\<close>

definition setProtocol :: "string \<Rightarrow> detail_view \<Rightarrow> detail_view" where
  "setProtocol p v = v\<lparr>dtProtocol := (if p = ''tcp'' \<or> p = ''udp'' then p else ''all''), dtPage := 0\<rparr>"

definition setFilter :: "string \<Rightarrow> detail_view \<Rightarrow> detail_view" where
  "setFilter f v = v\<lparr>dtFilter := f, dtPage := 0\<rparr>"

definition setSort :: "string \<Rightarrow> detail_view \<Rightarrow> detail_view" where
  "setSort key v = v\<lparr>dtSort := nextSort (dtSort v) key, dtPage := 0\<rparr>"

text \<open>\<open>Math.trunc\<close>.\<close>

definition jsTrunc :: "jnum \<Rightarrow> int" where
  "jsTrunc n = (case n of Fin q \<Rightarrow> if 0 \<le> q then \<lfloor>q\<rfloor> else - \<lfloor>- q\<rfloor> | _ \<Rightarrow> 0)"

definition setPage :: "jval \<Rightarrow> detail_view \<Rightarrow> detail_view" where
  "setPage delta v = v\<lparr>dtPage := nat (max 0 (int (dtPage v) + jsTrunc (toNum delta)))\<rparr>"

definition toggleGroup :: "string \<Rightarrow> detail_view \<Rightarrow> detail_view" where
  "toggleGroup ip v = v\<lparr>dtExpanded := (if ip \<in> set (dtExpanded v) then removeAll ip (dtExpanded v) else dtExpanded v @ [ip])\<rparr>"

definition setRefreshMs :: "(mtext \<Rightarrow> string) \<Rightarrow> (string \<Rightarrow> string \<Rightarrow> int) \<Rightarrow> jval \<Rightarrow> nat \<Rightarrow> detail_view \<Rightarrow> detail_view" where
  "setRefreshMs say collate value now v = (let selected = toNum value; p = dtPrefs v;
       q = (if nssRefreshRestricted (dtStatus v) then p\<lparr>dpNss := selected\<rparr> else p\<lparr>dpRefresh := selected\<rparr>)
     in if \<not> list_ex (\<lambda>c. selected = Fin c) (dtChoices v) then v
        else (let u = draw say collate now (v\<lparr>dtPrefs := q, dtStore := saveDetailPrefs q (dtStore v)\<rparr>)
          in if dtLoading u then u else schedule None now u))"

text \<open>The click on the pause button, \<open>setPaused()\<close> without an argument.\<close>

definition setPaused :: "(mtext \<Rightarrow> string) \<Rightarrow> (string \<Rightarrow> string \<Rightarrow> int) \<Rightarrow> nat \<Rightarrow> detail_view \<Rightarrow> detail_view" where
  "setPaused say collate now v = (let q = (dtPrefs v)\<lparr>dpPaused := \<not> dpPaused (dtPrefs v)\<rparr>;
       w = v\<lparr>dtPrefs := q, dtStore := saveDetailPrefs q (dtStore v)\<rparr>;
       u = draw say collate now (if dpPaused q then stopTimer w else w)
     in if \<not> dpPaused q \<and> \<not> dtLoading u then schedule None now u else u)"

section \<open>The dialog for the host name\<close>

definition openHostnameDialog :: "(mtext \<Rightarrow> string) \<Rightarrow> (string \<Rightarrow> string \<Rightarrow> int) \<Rightarrow> nat \<Rightarrow> detail_view \<Rightarrow> detail_view" where
  "openHostnameDialog say collate now v = (if dtOpening v \<or> dtSaving v \<or> dtMac v = [] then v
     else draw say collate now (v\<lparr>dtOpening := True\<rparr>))"

definition loadedName :: "load_result \<Rightarrow> string" where
  "loadedName r = (case loadedHost r of Some h \<Rightarrow> hostName h | None \<Rightarrow> [])"

definition showHostnameDialog :: "string \<Rightarrow> detail_view \<Rightarrow> detail_view" where
  "showHostnameDialog current v = v\<lparr>dtDialog := Some \<lparr>dgOriginal = jtrim current, dgInput = jtrim current, dgStatus = NoStatus\<rparr>\<rparr>"

definition hostnameLoaded :: "(mtext \<Rightarrow> string) \<Rightarrow> (string \<Rightarrow> string \<Rightarrow> int) \<Rightarrow> DhcpHostnames.store \<Rightarrow> nat \<Rightarrow> detail_view \<Rightarrow> detail_view" where
  "hostnameLoaded say collate st now v = (let r = loadForMac st (JStr (dtMac v)) in
     if \<not> dtOpening v then v
     else if \<not> available r then draw say collate now (v\<lparr>dtOpening := False, dtAvailable := False\<rparr>)
     else showHostnameDialog (loadedName r)
       (draw say collate now (v\<lparr>dtOpening := False, dtAvailable := True, dtCustom := loadedName r\<rparr>)))"

definition saveDisabled :: "bool \<Rightarrow> dialog \<Rightarrow> bool" where
  "saveDisabled saving d \<longleftrightarrow> saving \<or> (case normalizeName (JStr (dgInput d)) of Inl _ \<Rightarrow> True | Inr n \<Rightarrow> n = dgOriginal d)"

definition dialogInput :: "string \<Rightarrow> detail_view \<Rightarrow> detail_view" where
  "dialogInput t v = (case dtDialog v of None \<Rightarrow> v
   | Some d \<Rightarrow> if dtSaving v then v
       else v\<lparr>dtDialog := Some (d\<lparr>dgInput := t, dgStatus := (case normalizeName (JStr t) of Inl e \<Rightarrow> InvalidName e | Inr _ \<Rightarrow> NoStatus)\<rparr>)\<rparr>)"

definition dialogCancel :: "detail_view \<Rightarrow> detail_view" where
  "dialogCancel v = (if dtSaving v then v else v\<lparr>dtDialog := None\<rparr>)"

text \<open>A click on the save button, or the enter key, while the button is enabled.\<close>

definition dialogSave :: "detail_view \<Rightarrow> detail_view" where
  "dialogSave v = (case dtDialog v of None \<Rightarrow> v
   | Some d \<Rightarrow> if saveDisabled (dtSaving v) d then v
       else (case normalizeName (JStr (dgInput d)) of
         Inl e \<Rightarrow> v\<lparr>dtDialog := Some (d\<lparr>dgStatus := InvalidName e\<rparr>)\<rparr>
       | Inr name \<Rightarrow> if name = dgOriginal d then v\<lparr>dtDialog := None\<rparr>
           else v\<lparr>dtSaving := True, dtDialog := Some (d\<lparr>dgStatus := SavingNote\<rparr>)\<rparr>))"

text \<open>The name that is saved; the input is disabled meanwhile.\<close>

definition namedIn :: "dialog \<Rightarrow> string" where
  "namedIn d = (case normalizeName (JStr (dgInput d)) of Inl _ \<Rightarrow> [] | Inr n \<Rightarrow> n)"

definition saveOf :: "DhcpHostnames.store \<Rightarrow> detail_view \<Rightarrow> dialog \<Rightarrow> rpc list \<times> (save_error + save_result)" where
  "saveOf st v d = saveForMac st (JStr (dtMac v)) (JStr (namedIn d))"

definition saveEnds :: "(mtext \<Rightarrow> string) \<Rightarrow> (string \<Rightarrow> string \<Rightarrow> int) \<Rightarrow> DhcpHostnames.store \<Rightarrow> nat \<Rightarrow> detail_view \<Rightarrow> detail_view" where
  "saveEnds say collate st now v = (case dtDialog v of None \<Rightarrow> v
   | Some d \<Rightarrow> if \<not> dtSaving v then v
       else (case snd (saveOf st v d) of
         Inl e \<Rightarrow> v\<lparr>dtSaving := False, dtDialog := Some (d\<lparr>dgStatus := SaveFailed e\<rparr>)\<rparr>
       | Inr r \<Rightarrow> reload say collate True now ((draw say collate now
           (v\<lparr>dtCustom := savedName r, dtAvailable := True, dtSaving := False\<rparr>))\<lparr>dtDialog := None\<rparr>)))"

section \<open>Locations\<close>

definition geoEnds :: "task \<Rightarrow> country_fields option \<Rightarrow> nat \<Rightarrow> detail_view \<Rightarrow> detail_view" where
  "geoEnds t outcome now v = (if t \<in> set (grunning (dtGeo v)) then v\<lparr>dtGeo := finish (of_nat now) t outcome (dtGeo v)\<rparr> else v)"

definition geoPersist :: "detail_view \<Rightarrow> detail_view" where
  "geoPersist v = (if gpersist (dtGeo v) then v\<lparr>dtGeo := fst (persist (dtGeo v))\<rparr> else v)"

text \<open>All requests of the open batch are answered.\<close>

definition batchReady :: "detail_view \<Rightarrow> bool" where
  "batchReady v \<longleftrightarrow> (case dtBatch v of None \<Rightarrow> False | Some ks \<Rightarrow> list_all (\<lambda>k. k \<notin> set (gpending (dtGeo v))) ks)"

definition batchEnds :: "(mtext \<Rightarrow> string) \<Rightarrow> (string \<Rightarrow> string \<Rightarrow> int) \<Rightarrow> nat \<Rightarrow> detail_view \<Rightarrow> detail_view" where
  "batchEnds say collate now v = (if batchReady v \<and> \<not> dtDestroyed v then draw say collate now (v\<lparr>dtBatch := None\<rparr>) else v)"

definition destroy :: "detail_view \<Rightarrow> detail_view" where
  "destroy v = (if dtDestroyed v then v
     else (stopTimer (v\<lparr>dtDestroyed := True\<rparr>))\<lparr>dtBatch := None, dtGeo := dispose (dtGeo v)\<rparr>)"

section \<open>The page\<close>

definition initialDetail :: "storage option \<Rightarrow> resolver \<Rightarrow> detail_data \<Rightarrow> detail_view" where
  "initialDetail st g d = (let (box', p, unit) = normalizedPrefs st; status = jor (ddStatus d) JNull in
     \<lparr>dtIdentity = jor (ddIdentity d) (JStr []), dtResponse = jor (ddResponse d) JNull, dtUpdated = ddUpdated d,
      dtFailure = jor (ddError d) JNull, dtProtocol = ''all'', dtFilter = [], dtExpanded = [], dtPage = 0,
      dtSort = \<lparr>sortKey = ''rx'', sortDir = ''desc'', sortCustom = False\<rparr>, dtPrefs = p, dtUnit = unit, dtStatus = status,
      dtChoices = detailRefreshChoices (ddStatus d), dtTimer = None, dtLoading = False, dtManual = False, dtPending = None,
      dtDestroyed = False, dtCustom = ddCustom d, dtAvailable = ddAvailable d, dtMac = identityMac (jor (ddIdentity d) (JStr [])),
      dtOpening = False, dtSaving = False, dtDialog = None, dtGeo = g, dtBatch = None, dtPolicy = refreshPolicy status,
      dtOptions = detailRefreshChoices (ddStatus d), dtStore = box'\<rparr>)"

definition openDetail :: "(mtext \<Rightarrow> string) \<Rightarrow> (string \<Rightarrow> string \<Rightarrow> int) \<Rightarrow> storage option \<Rightarrow> resolver \<Rightarrow> detail_data \<Rightarrow> nat \<Rightarrow> detail_view" where
  "openDetail say collate st g d now = schedule None now (draw say collate now (initialDetail st g d))"

datatype detail_event = Reload | TimerFires | Ends detail_end | Protocol string | Filter string | Sort string | Page jval
  | Toggle string | Interval jval | PauseClick | HeadingClick | HostLoaded DhcpHostnames.store | DialogInput string | DialogCancel
  | DialogSave | SaveEnds DhcpHostnames.store | GeoEnds task "country_fields option" | GeoPersist | BatchEnds | Leave

text \<open>The dialog covers the page, so that its heading cannot be clicked while one is open.\<close>

definition detailStep :: "(mtext \<Rightarrow> string) \<Rightarrow> (string \<Rightarrow> string \<Rightarrow> int) \<Rightarrow> detail_event \<Rightarrow> nat \<Rightarrow> detail_view \<Rightarrow> detail_view" where
  "detailStep say collate ev now v = (case ev of
     Reload \<Rightarrow> reload say collate True now v
   | TimerFires \<Rightarrow> timerFires say collate now v
   | Ends e \<Rightarrow> requestEnds say collate e now v
   | Protocol p \<Rightarrow> draw say collate now (setProtocol p v)
   | Filter f \<Rightarrow> draw say collate now (setFilter f v)
   | Sort key \<Rightarrow> draw say collate now (setSort key v)
   | Page delta \<Rightarrow> draw say collate now (setPage delta v)
   | Toggle ip \<Rightarrow> toggleGroup ip v
   | Interval value \<Rightarrow> setRefreshMs say collate value now v
   | PauseClick \<Rightarrow> setPaused say collate now v
   | HeadingClick \<Rightarrow> if dtDialog v = None then openHostnameDialog say collate now v else v
   | HostLoaded st \<Rightarrow> hostnameLoaded say collate st now v
   | DialogInput t \<Rightarrow> dialogInput t v
   | DialogCancel \<Rightarrow> dialogCancel v
   | DialogSave \<Rightarrow> dialogSave v
   | SaveEnds st \<Rightarrow> saveEnds say collate st now v
   | GeoEnds t outcome \<Rightarrow> geoEnds t outcome now v
   | GeoPersist \<Rightarrow> geoPersist v
   | BatchEnds \<Rightarrow> batchEnds say collate now v
   | Leave \<Rightarrow> destroy v)"

inductive detail_run :: "(mtext \<Rightarrow> string) \<Rightarrow> (string \<Rightarrow> string \<Rightarrow> int) \<Rightarrow> detail_view \<Rightarrow> bool" for say collate where
  opened: "detail_run say collate (openDetail say collate st (createResolver text parse t JUndef JUndef names)
     (loadClient identity e (loadForMac hosts (JStr (identityMac identity))) now) now')"
| stepped: "detail_run say collate v \<Longrightarrow> detail_run say collate (detailStep say collate ev now v)"

section \<open>What drawing leaves alone\<close>

lemma requestLocations_fields [simp]:
  "dtPending (requestLocations now ips v) = dtPending v" "dtTimer (requestLocations now ips v) = dtTimer v"
  "dtLoading (requestLocations now ips v) = dtLoading v" "dtManual (requestLocations now ips v) = dtManual v"
  "dtPrefs (requestLocations now ips v) = dtPrefs v" "dtStatus (requestLocations now ips v) = dtStatus v"
  "dtChoices (requestLocations now ips v) = dtChoices v" "dtDestroyed (requestLocations now ips v) = dtDestroyed v"
  "dtSaving (requestLocations now ips v) = dtSaving v" "dtDialog (requestLocations now ips v) = dtDialog v"
  "dtOpening (requestLocations now ips v) = dtOpening v" "dtMac (requestLocations now ips v) = dtMac v"
  "dtResponse (requestLocations now ips v) = dtResponse v" "dtFailure (requestLocations now ips v) = dtFailure v"
  "dtUpdated (requestLocations now ips v) = dtUpdated v" "dtCustom (requestLocations now ips v) = dtCustom v"
  "dtAvailable (requestLocations now ips v) = dtAvailable v" "dtStore (requestLocations now ips v) = dtStore v"
  "dtPage (requestLocations now ips v) = dtPage v" "dtExpanded (requestLocations now ips v) = dtExpanded v"
  "dtPolicy (requestLocations now ips v) = dtPolicy v" "dtOptions (requestLocations now ips v) = dtOptions v"
  by (simp_all add: requestLocations_def split: prod.splits)

lemma refreshIntervalControl_fields [simp]:
  "dtPending (refreshIntervalControl v) = dtPending v" "dtTimer (refreshIntervalControl v) = dtTimer v"
  "dtLoading (refreshIntervalControl v) = dtLoading v" "dtManual (refreshIntervalControl v) = dtManual v"
  "dtPrefs (refreshIntervalControl v) = dtPrefs v" "dtStatus (refreshIntervalControl v) = dtStatus v"
  "dtChoices (refreshIntervalControl v) = dtChoices v" "dtDestroyed (refreshIntervalControl v) = dtDestroyed v"
  "dtSaving (refreshIntervalControl v) = dtSaving v" "dtDialog (refreshIntervalControl v) = dtDialog v"
  "dtOpening (refreshIntervalControl v) = dtOpening v" "dtMac (refreshIntervalControl v) = dtMac v"
  "dtResponse (refreshIntervalControl v) = dtResponse v" "dtFailure (refreshIntervalControl v) = dtFailure v"
  "dtUpdated (refreshIntervalControl v) = dtUpdated v" "dtCustom (refreshIntervalControl v) = dtCustom v"
  "dtAvailable (refreshIntervalControl v) = dtAvailable v" "dtStore (refreshIntervalControl v) = dtStore v"
  "dtPage (refreshIntervalControl v) = dtPage v" "dtExpanded (refreshIntervalControl v) = dtExpanded v"
  "dtGeo (refreshIntervalControl v) = dtGeo v" "dtBatch (refreshIntervalControl v) = dtBatch v"
  by (simp_all add: refreshIntervalControl_def Let_def)

lemma draw_fields [simp]:
  "dtPending (draw say collate now v) = dtPending v" "dtTimer (draw say collate now v) = dtTimer v"
  "dtLoading (draw say collate now v) = dtLoading v" "dtManual (draw say collate now v) = dtManual v"
  "dtPrefs (draw say collate now v) = dtPrefs v" "dtStatus (draw say collate now v) = dtStatus v"
  "dtChoices (draw say collate now v) = dtChoices v" "dtDestroyed (draw say collate now v) = dtDestroyed v"
  "dtSaving (draw say collate now v) = dtSaving v" "dtDialog (draw say collate now v) = dtDialog v"
  "dtOpening (draw say collate now v) = dtOpening v" "dtMac (draw say collate now v) = dtMac v"
  "dtResponse (draw say collate now v) = dtResponse v" "dtFailure (draw say collate now v) = dtFailure v"
  "dtUpdated (draw say collate now v) = dtUpdated v" "dtCustom (draw say collate now v) = dtCustom v"
  "dtAvailable (draw say collate now v) = dtAvailable v" "dtStore (draw say collate now v) = dtStore v"
  by (simp_all add: draw_def Let_def)

lemma detail_schedule_fields [simp]:
  "dtPending (schedule a now v) = dtPending v" "dtLoading (schedule a now v) = dtLoading v"
  "dtPrefs (schedule a now v) = dtPrefs v" "dtStatus (schedule a now v) = dtStatus v"
  "dtChoices (schedule a now v) = dtChoices v" "dtDestroyed (schedule a now v) = dtDestroyed v"
  "dtSaving (schedule a now v) = dtSaving v" "dtDialog (schedule a now v) = dtDialog v"
  "dtOpening (schedule a now v) = dtOpening v" "dtMac (schedule a now v) = dtMac v"
  "dtResponse (schedule a now v) = dtResponse v" "dtFailure (schedule a now v) = dtFailure v"
  "dtUpdated (schedule a now v) = dtUpdated v" "dtCustom (schedule a now v) = dtCustom v"
  "dtAvailable (schedule a now v) = dtAvailable v" "dtStore (schedule a now v) = dtStore v"
  "dtPolicy (schedule a now v) = dtPolicy v" "dtOptions (schedule a now v) = dtOptions v"
  "dtGeo (schedule a now v) = dtGeo v" "dtBatch (schedule a now v) = dtBatch v" "dtPage (schedule a now v) = dtPage v"
  by (simp_all add: schedule_def stopTimer_def Let_def)

section \<open>The refresh loop\<close>

definition prefsOk :: "detail_prefs \<Rightarrow> bool" where
  "prefsOk p \<longleftrightarrow> dpRefresh p \<in> Fin ` set REFRESH_CHOICES \<and> dpNss p \<in> Fin ` set NSS_REFRESH_CHOICES"

definition delayOk :: "jnum \<Rightarrow> jnum option \<Rightarrow> bool" where
  "delayOk period t = (case t of None \<Rightarrow> True | Some d \<Rightarrow> nle (Fin 0) d \<and> nle d period)"

lemma delayOk_none [simp]: "delayOk period None"
  by (simp add: delayOk_def)

definition timerOk :: "detail_view \<Rightarrow> bool" where
  "timerOk v \<longleftrightarrow> (dtTimer v = None) = (dtLoading v \<or> dpPaused (dtPrefs v) \<or> dtDestroyed v) \<and>
     delayOk (detailRefreshMs (dtStatus v) (dtPrefs v)) (dtTimer v)"

definition loopOk :: "detail_view \<Rightarrow> bool" where
  "loopOk v \<longleftrightarrow> (dtLoading v \<longleftrightarrow> dtPending v \<noteq> None) \<and> timerOk v \<and> prefsOk (dtPrefs v)"

lemma refresh_choice: "prefsOk p \<Longrightarrow> detailRefreshMs status p \<in> Fin ` set (detailRefreshChoices status)"
proof -
  assume p: "prefsOk p"
  have nss: "normalizeNssRefreshMs (JNum n) \<in> Fin ` set NSS_REFRESH_CHOICES" for n
    by (auto simp: normalizeNssRefreshMs_def Let_def list_ex_iff NSS_REFRESH_MS_def) (auto simp: NSS_REFRESH_CHOICES_def)
  have "nmax (Fin MIN_REFRESH_MS) (numOr (JNum (dpRefresh p)) (Fin 1000)) = dpRefresh p"
    using p by (auto simp: prefsOk_def REFRESH_CHOICES_def MIN_REFRESH_MS_def numOr_def)
  then show ?thesis using p nss by (simp add: detailRefreshMs_def detailRefreshChoices_def prefsOk_def)
qed

lemma refresh_positive: "prefsOk p \<Longrightarrow> \<exists>q. detailRefreshMs status p = Fin q \<and> 1000 \<le> q"
proof -
  assume "prefsOk p"
  from refresh_choice [OF this, of status] show ?thesis
    by (auto simp: detailRefreshChoices_def NSS_REFRESH_CHOICES_def REFRESH_CHOICES_def split: if_splits)
qed

lemma detail_schedule_timer:
  assumes "prefsOk (dtPrefs v)"
  shows "(dtTimer (schedule a now v) = None) = (dpPaused (dtPrefs v) \<or> dtDestroyed v)"
    "delayOk (detailRefreshMs (dtStatus v) (dtPrefs v)) (dtTimer (schedule a now v))"
proof -
  obtain q where q: "detailRefreshMs (dtStatus v) (dtPrefs v) = Fin q" "1000 \<le> q" using refresh_positive [OF assms] by blast
  show "(dtTimer (schedule a now v) = None) = (dpPaused (dtPrefs v) \<or> dtDestroyed v)"
    by (simp add: schedule_def stopTimer_def Let_def)
  show "delayOk (detailRefreshMs (dtStatus v) (dtPrefs v)) (dtTimer (schedule a now v))"
    using q by (auto simp: delayOk_def schedule_def stopTimer_def Let_def nsub_def split: if_splits)
qed

lemma schedule_timerOk: "prefsOk (dtPrefs v) \<Longrightarrow> \<not> dtLoading v \<Longrightarrow> timerOk (schedule a now v)"
  using detail_schedule_timer [of v a now] by (simp add: timerOk_def)

lemma draw_timerOk [simp]: "timerOk (draw say collate now v) = timerOk v"
  by (simp add: timerOk_def)

lemma draw_loopOk [simp]: "loopOk (draw say collate now v) = loopOk v"
  by (simp add: loopOk_def)

lemma loopOk_cong:
  assumes "loopOk v" "dtLoading u = dtLoading v" "dtPending u = dtPending v" "dtTimer u = dtTimer v" "dtPrefs u = dtPrefs v"
    "dtDestroyed u = dtDestroyed v" "dtStatus u = dtStatus v"
  shows "loopOk u"
  using assms(1) by (simp only: loopOk_def timerOk_def assms(2-))

lemma reload_loopOk:
  assumes "prefsOk (dtPrefs v)" "dtPending v \<noteq> None \<longrightarrow> loopOk v"
  shows "loopOk (reload say collate m now v)"
proof (cases "dtPending v")
  case None
  then show ?thesis using assms by (simp add: reload_def loopOk_def timerOk_def stopTimer_def)
next
  case (Some rq)
  then have v: "loopOk v" using assms by simp
  then have "loopOk (v\<lparr>dtManual := True\<rparr>)" by (rule loopOk_cong) simp_all
  then show ?thesis using Some v by (simp add: reload_def)
qed

lemma requestEnds_loopOk:
  assumes "loopOk v"
  shows "loopOk (requestEnds say collate e now v)"
proof (cases "dtPending v")
  case None
  then show ?thesis using assms by (simp add: requestEnds_def)
next
  case (Some rq)
  let ?u = "draw say collate now ((takeAnswer e rq now v)\<lparr>dtLoading := False, dtManual := False\<rparr>)"
  have p: "prefsOk (dtPrefs ?u)" using assms by (simp add: takeAnswer_def loopOk_def Let_def split: detail_end.splits)
  have t: "timerOk (schedule (Some (rqAt rq)) now ?u)" by (rule schedule_timerOk [OF p]) simp
  then show ?thesis using Some p by (simp add: requestEnds_def loopOk_def timerOk_def)
qed

lemma setRefreshMs_loopOk:
  assumes "loopOk v" "dtChoices v = detailRefreshChoices (dtStatus v)"
  shows "loopOk (setRefreshMs say collate value now v)"
proof (cases "list_ex (\<lambda>c. toNum value = Fin c) (dtChoices v)")
  case True
  let ?p = "dtPrefs v"
  let ?q = "if nssRefreshRestricted (dtStatus v) then ?p\<lparr>dpNss := toNum value\<rparr> else ?p\<lparr>dpRefresh := toNum value\<rparr>"
  have q: "prefsOk ?q" using True assms by (auto simp: list_ex_iff prefsOk_def detailRefreshChoices_def loopOk_def)
  let ?u = "draw say collate now (v\<lparr>dtPrefs := ?q, dtStore := saveDetailPrefs ?q (dtStore v)\<rparr>)"
  have eq: "setRefreshMs say collate value now v = (if dtLoading v then ?u else schedule None now ?u)"
    using True by (simp add: setRefreshMs_def Let_def)
  show ?thesis
  proof (cases "dtLoading v")
    case True
    then show ?thesis unfolding eq using assms q by (simp add: loopOk_def timerOk_def)
  next
    case False
    have "timerOk (schedule None now ?u)" by (rule schedule_timerOk) (use q False in simp_all)
    then show ?thesis unfolding eq using assms q False by (simp add: loopOk_def)
  qed
qed (use assms in \<open>simp add: setRefreshMs_def Let_def\<close>)

lemma setPaused_loopOk:
  assumes "loopOk v"
  shows "loopOk (setPaused say collate now v)"
proof -
  let ?q = "(dtPrefs v)\<lparr>dpPaused := \<not> dpPaused (dtPrefs v)\<rparr>"
  let ?w = "v\<lparr>dtPrefs := ?q, dtStore := saveDetailPrefs ?q (dtStore v)\<rparr>"
  have q: "prefsOk ?q" using assms by (simp add: loopOk_def prefsOk_def)
  consider "dpPaused ?q" | "\<not> dpPaused ?q" "dtLoading v" | "\<not> dpPaused ?q" "\<not> dtLoading v" by blast
  then show ?thesis
  proof cases
    case 1
    then show ?thesis using assms q by (simp add: setPaused_def Let_def loopOk_def timerOk_def stopTimer_def)
  next
    case 2
    then show ?thesis using assms q by (simp add: setPaused_def Let_def loopOk_def timerOk_def)
  next
    case 3
    have "timerOk (schedule None now (draw say collate now ?w))" by (rule schedule_timerOk) (use q 3 in simp_all)
    then show ?thesis using assms q 3 by (simp add: setPaused_def Let_def loopOk_def)
  qed
qed

section \<open>The menu of periods\<close>

definition menuPre :: "detail_view \<Rightarrow> bool" where
  "menuPre v \<longleftrightarrow> dtChoices v = detailRefreshChoices (dtStatus v) \<and>
     (dtPolicy v = ''nss'' \<and> dtOptions v = NSS_REFRESH_CHOICES \<or> dtPolicy v = ''default'' \<and> dtOptions v = REFRESH_CHOICES)"

definition menuOk :: "detail_view \<Rightarrow> bool" where
  "menuOk v \<longleftrightarrow> menuPre v \<and> dtPolicy v = refreshPolicy (dtStatus v)"

lemma menuOk_options: "menuOk v \<Longrightarrow> dtOptions v = detailRefreshChoices (dtStatus v)"
  by (auto simp: menuOk_def menuPre_def refreshPolicy_def detailRefreshChoices_def split: if_splits)

lemma draw_menu_fields:
  "dtPolicy (draw say collate now v) = refreshPolicy (dtStatus v)"
  "dtOptions (draw say collate now v) = (if dtPolicy v = refreshPolicy (dtStatus v) then dtOptions v else dtChoices v)"
  by (simp_all add: draw_def refreshIntervalControl_def Let_def)

lemma draw_menuOk: "menuPre v \<Longrightarrow> menuOk (draw say collate now v)"
  by (auto simp: menuOk_def menuPre_def draw_menu_fields refreshPolicy_def detailRefreshChoices_def split: if_splits)

lemma menuPre_cong:
  assumes "menuPre v" "dtChoices u = dtChoices v" "dtStatus u = dtStatus v" "dtPolicy u = dtPolicy v" "dtOptions u = dtOptions v"
  shows "menuPre u"
  using assms(1) by (simp only: menuPre_def assms(2-))

lemma menuOk_cong:
  assumes "menuOk v" "dtChoices u = dtChoices v" "dtStatus u = dtStatus v" "dtPolicy u = dtPolicy v" "dtOptions u = dtOptions v"
  shows "menuOk u"
  using assms(1) unfolding menuOk_def menuPre_def assms(2-) .

lemma menuOk_pre: "menuOk v \<Longrightarrow> menuPre v"
  by (simp add: menuOk_def)

lemma draw_menu_same:
  assumes "menuOk v" "dtChoices u = dtChoices v" "dtStatus u = dtStatus v" "dtPolicy u = dtPolicy v" "dtOptions u = dtOptions v"
  shows "menuOk (draw say collate now u)"
  by (rule draw_menuOk, rule menuPre_cong [OF menuOk_pre [OF assms(1)]]) (simp_all add: assms)

section \<open>The dialog\<close>

definition dialogOk :: "detail_view \<Rightarrow> bool" where
  "dialogOk v \<longleftrightarrow> (if dtSaving v then dtDialog v \<noteq> None else True) \<and> (if dtOpening v then dtDialog v = None else True) \<and>
     (if dtDialog v \<noteq> None \<or> dtOpening v then dtMac v \<noteq> [] else True)"

lemma dialogOk_cong:
  assumes "dialogOk v" "dtSaving u = dtSaving v" "dtDialog u = dtDialog v" "dtOpening u = dtOpening v" "dtMac u = dtMac v"
  shows "dialogOk u"
  using assms(1) by (simp only: dialogOk_def assms(2-))

section \<open>Lookups\<close>

definition geoOk :: "detail_view \<Rightarrow> bool" where
  "geoOk v \<longleftrightarrow> geoInv (dtGeo v) \<and> gdisposed (dtGeo v) = dtDestroyed v \<and> (if dtDestroyed v then dtBatch v = None else True)"

lemma geoOk_cong:
  assumes "geoOk v" "dtGeo u = dtGeo v" "dtDestroyed u = dtDestroyed v" "dtBatch u = dtBatch v"
  shows "geoOk u"
  using assms(1) unfolding geoOk_def assms(2-) .

lemma pump_disposed: "gdisposed (pump g) = gdisposed g"
  by (simp add: pump_eq Let_def)

lemma peek_inv:
  assumes "geoInv g"
  shows "geoInv (fst (peek now ip g)) \<and> gdisposed (fst (peek now ip g)) = gdisposed g"
proof -
  have "cacheOk g" using assms by (simp add: geoInv_def)
  from peek_ok [OF this] show ?thesis using geoInv_sameTasks [OF assms] by (auto simp: sameTasks_def)
qed

lemma resolve_disposed:
  assumes "geoInv g"
  shows "gdisposed (fst (resolve now ip g)) = gdisposed g"
proof -
  obtain h l where p: "peek now (JStr (cleanIp ip)) g = (h, l)" by fastforce
  then have "gdisposed h = gdisposed g" using peek_inv [OF assms, of now "JStr (cleanIp ip)"] by simp
  then show ?thesis using p by (simp add: resolve_def Let_def pump_disposed)
qed

lemma lookedUp_inv: "geoInv g \<Longrightarrow> geoInv (lookedUp now gs g) \<and> gdisposed (lookedUp now gs g) = gdisposed g"
proof (induction gs arbitrary: g)
  case (Cons k gs)
  from peek_inv [OF Cons.prems] Cons.IH show ?case by (simp add: lookedUp_def)
qed (simp add: lookedUp_def)

lemma requestOne_inv:
  assumes "geoInv (fst s)"
  shows "geoInv (fst (requestOne now ip s)) \<and> gdisposed (fst (requestOne now ip s)) = gdisposed (fst s)"
proof -
  obtain g rs where s: "s = (g, rs)" by fastforce
  obtain h l where p: "peek now (JStr ip) g = (h, l)" by fastforce
  have h: "geoInv h" "gdisposed h = gdisposed g" using peek_inv [of g now "JStr ip"] assms s p by auto
  obtain k r where r: "resolve now (JStr ip) h = (k, r)" by fastforce
  have k: "geoInv k" "gdisposed k = gdisposed h"
    using resolve_inv [OF h(1), of now "JStr ip"] resolve_disposed [OF h(1), of now "JStr ip"] r by auto
  show ?thesis using s p r h k by (simp add: requestOne_def)
qed

lemma requests_inv:
  "geoInv (fst s) \<Longrightarrow> geoInv (fst (fold (requestOne now) ips s)) \<and> gdisposed (fst (fold (requestOne now) ips s)) = gdisposed (fst s)"
proof (induction ips arbitrary: s)
  case (Cons ip ips)
  from requestOne_inv [OF Cons.prems] Cons.IH [of "requestOne now ip s"] show ?case by simp
qed simp

lemma requestLocations_geoOk:
  assumes "geoOk v"
  shows "geoOk (requestLocations now ips v)"
proof (cases "dtDestroyed v \<or> dtBatch v \<noteq> None")
  case False
  obtain g rs where f: "fold (requestOne (of_nat now)) (distinctLower ips) (dtGeo v, []) = (g, rs)" by fastforce
  have "geoInv g \<and> gdisposed g = gdisposed (dtGeo v)"
    using requests_inv [of "(dtGeo v, [])" "of_nat now" "distinctLower ips"] assms f by (simp add: geoOk_def)
  then show ?thesis using False f assms by (simp add: requestLocations_def geoOk_def)
qed (use assms in \<open>simp add: requestLocations_def\<close>)

lemma draw_geoOk:
  assumes "geoOk v"
  shows "geoOk (draw say collate now v)"
proof -
  let ?w = "v\<lparr>dtGeo := lookedUp now (allGroups say now v) (dtGeo v), dtPage := min (dtPage v) (pagesOf (shownGroups say collate now v) - 1),
     dtExpanded := filter (\<lambda>ip. ip \<in> remoteIp ` set (allGroups say now v)) (dtExpanded v)\<rparr>"
  have "geoOk ?w" using assms lookedUp_inv by (simp add: geoOk_def)
  from requestLocations_geoOk [OF this] show ?thesis
    by (simp add: draw_def Let_def geoOk_def)
qed

lemma draw_geo_same:
  assumes "geoOk v" "dtGeo u = dtGeo v" "dtDestroyed u = dtDestroyed v" "dtBatch u = dtBatch v"
  shows "geoOk (draw say collate now u)"
  by (rule draw_geoOk, rule geoOk_cong [OF assms])

section \<open>Every step keeps the page in order\<close>

definition detailInv :: "detail_view \<Rightarrow> bool" where
  "detailInv v \<longleftrightarrow> loopOk v \<and> menuOk v \<and> dialogOk v \<and> geoOk v"

lemma detailInv_cong:
  assumes "detailInv v" "dtLoading u = dtLoading v" "dtPending u = dtPending v" "dtTimer u = dtTimer v" "dtPrefs u = dtPrefs v"
    "dtDestroyed u = dtDestroyed v" "dtStatus u = dtStatus v" "dtChoices u = dtChoices v" "dtPolicy u = dtPolicy v"
    "dtOptions u = dtOptions v" "dtSaving u = dtSaving v" "dtDialog u = dtDialog v" "dtOpening u = dtOpening v"
    "dtMac u = dtMac v" "dtGeo u = dtGeo v" "dtBatch u = dtBatch v"
  shows "detailInv u"
  using assms(1) unfolding detailInv_def loopOk_def timerOk_def menuOk_def menuPre_def dialogOk_def geoOk_def assms(2-) .

lemma draw_inv: "loopOk v \<Longrightarrow> menuPre v \<Longrightarrow> dialogOk v \<Longrightarrow> geoOk v \<Longrightarrow> detailInv (draw say collate now v)"
  by (simp add: detailInv_def draw_menuOk draw_geoOk) (erule dialogOk_cong, simp_all)

lemma detailInv_draw: "detailInv v \<Longrightarrow> detailInv (draw say collate now v)"
  by (simp add: detailInv_def [of v] draw_inv menuOk_pre)

lemma draw_after:
  assumes "detailInv v" "dtLoading u = dtLoading v" "dtPending u = dtPending v" "dtTimer u = dtTimer v" "dtPrefs u = dtPrefs v"
    "dtDestroyed u = dtDestroyed v" "dtStatus u = dtStatus v" "dtChoices u = dtChoices v" "dtPolicy u = dtPolicy v"
    "dtOptions u = dtOptions v" "dtSaving u = dtSaving v" "dtDialog u = dtDialog v" "dtOpening u = dtOpening v"
    "dtMac u = dtMac v" "dtGeo u = dtGeo v" "dtBatch u = dtBatch v"
  shows "detailInv (draw say collate now u)"
  by (rule detailInv_draw, rule detailInv_cong [OF assms])

lemma inv_parts: "detailInv v \<Longrightarrow> loopOk v" "detailInv v \<Longrightarrow> menuOk v" "detailInv v \<Longrightarrow> dialogOk v" "detailInv v \<Longrightarrow> geoOk v"
  by (simp_all add: detailInv_def)

lemma draw_parts: "dialogOk (draw say collate now v) = dialogOk v"
  by (simp add: dialogOk_def)

lemma reload_rest:
  assumes "menuOk v" "dialogOk v" "geoOk v"
  shows "menuOk (reload say collate m now v) \<and> dialogOk (reload say collate m now v) \<and> geoOk (reload say collate m now v)"
proof -
  let ?a = "draw say collate now (v\<lparr>dtManual := True\<rparr>)"
  let ?b = "draw say collate now ((stopTimer v)\<lparr>dtLoading := True, dtManual := m\<rparr>)"
  have a: "menuOk ?a" by (rule draw_menu_same [OF assms(1)]) simp_all
  have a': "geoOk ?a" by (rule draw_geo_same [OF assms(3)]) simp_all
  have b: "menuOk ?b" by (rule draw_menu_same [OF assms(1)]) (simp_all add: stopTimer_def)
  have b': "geoOk ?b" by (rule draw_geo_same [OF assms(3)]) (simp_all add: stopTimer_def)
  have c: "menuOk (?b\<lparr>dtPending := r\<rparr>)" for r by (rule menuOk_cong [OF b]) simp_all
  have c': "geoOk (?b\<lparr>dtPending := r\<rparr>)" for r by (rule geoOk_cong [OF b']) simp_all
  have d: "dialogOk ?a" "dialogOk (?b\<lparr>dtPending := r\<rparr>)" for r
    using assms(2) by (simp_all add: dialogOk_def stopTimer_def)
  show ?thesis using assms a a' c c' d by (simp add: reload_def)
qed

lemma detail_reload_inv:
  assumes "detailInv v"
  shows "detailInv (reload say collate m now v)"
  using reload_rest [OF inv_parts(2) [OF assms] inv_parts(3) [OF assms] inv_parts(4) [OF assms]]
    reload_loopOk [of v say collate m now] inv_parts(1) [OF assms] by (simp add: detailInv_def loopOk_def)

lemma timerFires_inv:
  assumes "detailInv v"
  shows "detailInv (timerFires say collate now v)"
proof (cases "dtTimer v")
  case (Some d)
  let ?u = "v\<lparr>dtTimer := None\<rparr>"
  have idle: "dtPending v = None" using inv_parts(1) [OF assms] Some by (auto simp: loopOk_def timerOk_def)
  have "menuOk ?u" by (rule menuOk_cong [OF inv_parts(2) [OF assms]]) simp_all
  moreover have "dialogOk ?u" by (rule dialogOk_cong [OF inv_parts(3) [OF assms]]) simp_all
  moreover have "geoOk ?u" by (rule geoOk_cong [OF inv_parts(4) [OF assms]]) simp_all
  moreover have "loopOk (reload say collate False now ?u)"
    by (rule reload_loopOk) (use inv_parts(1) [OF assms] idle in \<open>simp_all add: loopOk_def\<close>)
  ultimately show ?thesis using Some reload_rest by (simp add: timerFires_def detailInv_def)
qed (use assms in \<open>simp add: timerFires_def\<close>)

lemma requestEnds_inv:
  assumes "detailInv v"
  shows "detailInv (requestEnds say collate e now v)"
proof (cases "dtPending v")
  case None
  then show ?thesis using assms by (simp add: requestEnds_def)
next
  case (Some rq)
  let ?t = "(takeAnswer e rq now v)\<lparr>dtLoading := False, dtManual := False\<rparr>"
  let ?e = "(schedule (Some (rqAt rq)) now (draw say collate now ?t))\<lparr>dtPending := None\<rparr>"
  have e: "requestEnds say collate e now v = ?e" using Some by (simp add: requestEnds_def)
  have m: "menuPre ?t" using inv_parts(2) [OF assms]
    by (auto simp: takeAnswer_def menuOk_def menuPre_def Let_def split: detail_end.splits)
  have g: "geoOk ?t" by (rule geoOk_cong [OF inv_parts(4) [OF assms]]) (simp_all add: takeAnswer_def Let_def split: detail_end.splits)
  have d: "dialogOk ?t" by (rule dialogOk_cong [OF inv_parts(3) [OF assms]]) (simp_all add: takeAnswer_def Let_def split: detail_end.splits)
  have "menuOk ?e" by (rule menuOk_cong [OF draw_menuOk [OF m]]) simp_all
  moreover have "geoOk ?e" by (rule geoOk_cong [OF draw_geoOk [OF g]]) simp_all
  moreover have "dialogOk ?e" by (rule dialogOk_cong [OF d]) simp_all
  moreover have "loopOk ?e" unfolding e [symmetric] by (rule requestEnds_loopOk [OF inv_parts(1) [OF assms]])
  ultimately show ?thesis unfolding e by (simp add: detailInv_def)
qed

lemma schedule_rest:
  "menuOk (schedule a now v) = menuOk v" "dialogOk (schedule a now v) = dialogOk v" "geoOk (schedule a now v) = geoOk v"
  by (simp_all add: menuOk_def menuPre_def dialogOk_def geoOk_def)

lemma setRefreshMs_inv:
  assumes "detailInv v"
  shows "detailInv (setRefreshMs say collate value now v)"
proof -
  let ?p = "dtPrefs v"
  let ?q = "if nssRefreshRestricted (dtStatus v) then ?p\<lparr>dpNss := toNum value\<rparr> else ?p\<lparr>dpRefresh := toNum value\<rparr>"
  let ?u = "draw say collate now (v\<lparr>dtPrefs := ?q, dtStore := saveDetailPrefs ?q (dtStore v)\<rparr>)"
  have eq: "setRefreshMs say collate value now v \<in> {v, ?u, schedule None now ?u}"
    by (simp add: setRefreshMs_def Let_def)
  have m: "menuOk ?u" by (rule draw_menu_same [OF inv_parts(2) [OF assms]]) simp_all
  have g: "geoOk ?u" by (rule draw_geo_same [OF inv_parts(4) [OF assms]]) simp_all
  have d: "dialogOk ?u" by (rule dialogOk_cong [OF inv_parts(3) [OF assms]]) simp_all
  have "loopOk (setRefreshMs say collate value now v)"
    by (rule setRefreshMs_loopOk [OF inv_parts(1) [OF assms]]) (use inv_parts(2) [OF assms] in \<open>simp add: menuOk_def menuPre_def\<close>)
  then show ?thesis using eq assms m g d by (auto simp: detailInv_def schedule_rest)
qed

lemma setPaused_inv:
  assumes "detailInv v"
  shows "detailInv (setPaused say collate now v)"
proof -
  let ?q = "(dtPrefs v)\<lparr>dpPaused := \<not> dpPaused (dtPrefs v)\<rparr>"
  let ?w = "v\<lparr>dtPrefs := ?q, dtStore := saveDetailPrefs ?q (dtStore v)\<rparr>"
  let ?s = "if dpPaused ?q then stopTimer ?w else ?w"
  let ?u = "draw say collate now ?s"
  have eq: "setPaused say collate now v \<in> {?u, schedule None now ?u}"
    by (simp add: setPaused_def Let_def)
  have m: "menuOk ?u" by (rule draw_menu_same [OF inv_parts(2) [OF assms]]) (simp_all add: stopTimer_def)
  have g: "geoOk ?u" by (rule draw_geo_same [OF inv_parts(4) [OF assms]]) (simp_all add: stopTimer_def)
  have d: "dialogOk ?u" by (rule dialogOk_cong [OF inv_parts(3) [OF assms]]) (simp_all add: stopTimer_def)
  show ?thesis using eq setPaused_loopOk [OF inv_parts(1) [OF assms], of say collate now] m g d
    by (auto simp: detailInv_def schedule_rest)
qed

lemma openHostnameDialog_inv:
  assumes "detailInv v" "dtDialog v = None"
  shows "detailInv (openHostnameDialog say collate now v)"
proof (cases "dtOpening v \<or> dtSaving v \<or> dtMac v = []")
  case False
  let ?u = "v\<lparr>dtOpening := True\<rparr>"
  have "loopOk ?u" by (rule loopOk_cong [OF inv_parts(1) [OF assms(1)]]) simp_all
  moreover have "menuPre ?u" by (rule menuPre_cong [OF menuOk_pre [OF inv_parts(2) [OF assms(1)]]]) simp_all
  moreover have "dialogOk ?u" using False assms(2) by (simp add: dialogOk_def)
  moreover have "geoOk ?u" by (rule geoOk_cong [OF inv_parts(4) [OF assms(1)]]) simp_all
  ultimately show ?thesis using False draw_inv by (simp add: openHostnameDialog_def)
qed (use assms in \<open>auto simp: openHostnameDialog_def\<close>)

text \<open>A change of the dialog and of the fields that only it uses.\<close>

lemma dialog_change:
  assumes "detailInv v" "dialogOk u" "dtLoading u = dtLoading v" "dtPending u = dtPending v" "dtTimer u = dtTimer v" "dtPrefs u = dtPrefs v"
    "dtDestroyed u = dtDestroyed v" "dtStatus u = dtStatus v" "dtChoices u = dtChoices v" "dtPolicy u = dtPolicy v"
    "dtOptions u = dtOptions v" "dtGeo u = dtGeo v" "dtBatch u = dtBatch v"
  shows "detailInv u"
proof -
  have "loopOk u" by (rule loopOk_cong [OF inv_parts(1) [OF assms(1)]]) (simp_all add: assms)
  moreover have "menuOk u" by (rule menuOk_cong [OF inv_parts(2) [OF assms(1)]]) (simp_all add: assms)
  moreover have "geoOk u" by (rule geoOk_cong [OF inv_parts(4) [OF assms(1)]]) (simp_all add: assms)
  ultimately show ?thesis using assms(2) by (simp add: detailInv_def)
qed

lemma hostnameLoaded_inv:
  assumes "detailInv v"
  shows "detailInv (hostnameLoaded say collate st now v)"
proof (cases "dtOpening v")
  case True
  let ?r = "loadForMac st (JStr (dtMac v))"
  let ?a = "v\<lparr>dtOpening := False, dtAvailable := False\<rparr>"
  let ?b = "v\<lparr>dtOpening := False, dtAvailable := True, dtCustom := loadedName ?r\<rparr>"
  have ok: "dialogOk v" by (rule inv_parts(3) [OF assms])
  then have d: "dtMac v \<noteq> []" "dtDialog v = None" using True by (simp_all add: dialogOk_def)
  with ok have "\<not> dtSaving v" by (cases "dtSaving v") (simp_all add: dialogOk_def)
  have o: "dialogOk ?a" "dialogOk ?b" using d \<open>\<not> dtSaving v\<close> by (simp_all add: dialogOk_def)
  have a: "detailInv ?a" by (rule dialog_change [OF assms o(1)]) simp_all
  have "detailInv ?b" by (rule dialog_change [OF assms o(2)]) simp_all
  then have b: "detailInv (draw say collate now ?b)" by (rule detailInv_draw)
  have "detailInv (showHostnameDialog n (draw say collate now ?b))" for n
    by (rule dialog_change [OF b]) (use d \<open>\<not> dtSaving v\<close> in \<open>simp_all add: showHostnameDialog_def dialogOk_def\<close>)
  then show ?thesis using True detailInv_draw [OF a] by (simp add: hostnameLoaded_def Let_def)
qed (use assms in \<open>simp add: hostnameLoaded_def Let_def\<close>)

lemma dialogInput_inv:
  assumes "detailInv v"
  shows "detailInv (dialogInput t v)"
proof (cases "dtDialog v = None \<or> dtSaving v")
  case False
  then obtain d where d: "dtDialog v = Some d" by auto
  have "detailInv (v\<lparr>dtDialog := Some x\<rparr>)" for x
    by (rule dialog_change [OF assms]) (use inv_parts(3) [OF assms] d in \<open>auto simp: dialogOk_def split: if_splits\<close>)
  then show ?thesis using False d by (simp add: dialogInput_def)
qed (use assms in \<open>auto simp: dialogInput_def split: option.splits\<close>)

lemma dialogCancel_inv:
  assumes "detailInv v"
  shows "detailInv (dialogCancel v)"
proof (cases "dtSaving v")
  case False
  have "detailInv (v\<lparr>dtDialog := None\<rparr>)"
    by (rule dialog_change [OF assms]) (use inv_parts(3) [OF assms] False in \<open>auto simp: dialogOk_def split: if_splits\<close>)
  then show ?thesis using False by (simp add: dialogCancel_def)
qed (use assms in \<open>simp add: dialogCancel_def\<close>)

lemma dialogSave_inv:
  assumes "detailInv v"
  shows "detailInv (dialogSave v)"
proof (cases "dtDialog v")
  case (Some d)
  have ok: "dialogOk v" by (rule inv_parts(3) [OF assms])
  have "detailInv (v\<lparr>dtDialog := x\<rparr>)" if "\<not> dtSaving v" for x
    by (rule dialog_change [OF assms]) (use ok that Some in \<open>auto simp: dialogOk_def\<close>)
  moreover have "detailInv (v\<lparr>dtSaving := True, dtDialog := Some x\<rparr>)" for x
    by (rule dialog_change [OF assms]) (use ok Some in \<open>auto simp: dialogOk_def\<close>)
  ultimately show ?thesis using assms Some by (auto simp: dialogSave_def saveDisabled_def split: sum.splits)
qed (use assms in \<open>simp add: dialogSave_def\<close>)

lemma saveEnds_inv:
  assumes "detailInv v"
  shows "detailInv (saveEnds say collate st now v)"
proof (cases "dtDialog v")
  case (Some d)
  have ok: "dialogOk v" by (rule inv_parts(3) [OF assms])
  have a: "detailInv (v\<lparr>dtSaving := False, dtDialog := Some x\<rparr>)" for x
    by (rule dialog_change [OF assms]) (use ok Some in \<open>auto simp: dialogOk_def\<close>)
  have "detailInv (reload say collate True now ((draw say collate now
      (v\<lparr>dtCustom := n, dtAvailable := True, dtSaving := False\<rparr>))\<lparr>dtDialog := None\<rparr>))" for n
  proof -
    let ?u = "v\<lparr>dtCustom := n, dtAvailable := True, dtSaving := False\<rparr>"
    have "detailInv ?u" by (rule dialog_change [OF assms]) (use ok Some in \<open>auto simp: dialogOk_def\<close>)
    then have u: "detailInv (draw say collate now ?u)" by (rule detailInv_draw)
    have "detailInv ((draw say collate now ?u)\<lparr>dtDialog := None\<rparr>)"
      by (rule dialog_change [OF u]) (use ok Some in \<open>auto simp: dialogOk_def\<close>)
    then show ?thesis by (rule detail_reload_inv)
  qed
  then show ?thesis using assms Some a by (auto simp: saveEnds_def split: sum.splits)
qed (use assms in \<open>simp add: saveEnds_def\<close>)

lemma geo_change:
  assumes "detailInv v" "geoOk u" "dtLoading u = dtLoading v" "dtPending u = dtPending v" "dtTimer u = dtTimer v" "dtPrefs u = dtPrefs v"
    "dtDestroyed u = dtDestroyed v" "dtStatus u = dtStatus v" "dtChoices u = dtChoices v" "dtPolicy u = dtPolicy v"
    "dtOptions u = dtOptions v" "dtSaving u = dtSaving v" "dtDialog u = dtDialog v" "dtOpening u = dtOpening v" "dtMac u = dtMac v"
  shows "detailInv u"
proof -
  have "loopOk u" by (rule loopOk_cong [OF inv_parts(1) [OF assms(1)]]) (simp_all add: assms)
  moreover have "menuOk u" by (rule menuOk_cong [OF inv_parts(2) [OF assms(1)]]) (simp_all add: assms)
  moreover have "dialogOk u" by (rule dialogOk_cong [OF inv_parts(3) [OF assms(1)]]) (simp_all add: assms)
  ultimately show ?thesis using assms(2) by (simp add: detailInv_def)
qed

lemma finish_disposed:
  assumes "cacheOk g"
  shows "gdisposed (finish now t outcome g) = gdisposed g"
proof -
  obtain h l where f: "fetchOne now t outcome g = (h, l)" by fastforce
  then have "gdisposed h = gdisposed g" using fetchOne_ok [OF assms, of now t outcome] by (simp add: sameTasks_def)
  then show ?thesis using f by (simp add: finish_def pump_disposed)
qed

lemma geoEnds_inv:
  assumes "detailInv v"
  shows "detailInv (geoEnds t outcome now v)"
proof (cases "t \<in> set (grunning (dtGeo v))")
  case True
  have g: "geoOk v" by (rule inv_parts(4) [OF assms])
  have "geoInv (finish (of_nat now) t outcome (dtGeo v))" by (rule finish_inv [OF _ True]) (use g in \<open>simp add: geoOk_def\<close>)
  moreover have "gdisposed (finish (of_nat now) t outcome (dtGeo v)) = gdisposed (dtGeo v)"
    using finish_disposed g by (simp add: geoOk_def geoInv_def)
  ultimately have "geoOk (v\<lparr>dtGeo := finish (of_nat now) t outcome (dtGeo v)\<rparr>)" using g by (simp add: geoOk_def)
  from geo_change [OF assms this] show ?thesis using True by (simp add: geoEnds_def)
qed (use assms in \<open>simp add: geoEnds_def\<close>)

lemma persist_inv: "geoInv g \<Longrightarrow> geoInv (fst (persist g)) \<and> gdisposed (fst (persist g)) = gdisposed g"
  by (auto simp: persist_def Let_def geoInv_def cacheOk_def trimCache_length trimCache_distinct)

lemma geoPersist_inv:
  assumes "detailInv v"
  shows "detailInv (geoPersist v)"
proof -
  have "geoOk (v\<lparr>dtGeo := fst (persist (dtGeo v))\<rparr>)" using inv_parts(4) [OF assms] persist_inv by (simp add: geoOk_def)
  from geo_change [OF assms this] show ?thesis using assms by (simp add: geoPersist_def)
qed

lemma batchEnds_inv:
  assumes "detailInv v"
  shows "detailInv (batchEnds say collate now v)"
proof -
  have "geoOk (v\<lparr>dtBatch := None\<rparr>)" using inv_parts(4) [OF assms] by (simp add: geoOk_def)
  from geo_change [OF assms this] have "detailInv (v\<lparr>dtBatch := None\<rparr>)" by simp
  then show ?thesis using assms detailInv_draw by (simp add: batchEnds_def)
qed

lemma dispose_inv: "geoInv g \<Longrightarrow> geoInv (dispose g) \<and> gdisposed (dispose g)"
  by (auto simp: dispose_def geoInv_def cacheOk_def)

lemma destroy_inv:
  assumes "detailInv v"
  shows "detailInv (destroy v)"
proof (cases "dtDestroyed v")
  case False
  let ?u = "(stopTimer (v\<lparr>dtDestroyed := True\<rparr>))\<lparr>dtBatch := None, dtGeo := dispose (dtGeo v)\<rparr>"
  have "loopOk ?u" using inv_parts(1) [OF assms] by (simp add: loopOk_def timerOk_def stopTimer_def)
  moreover have "menuOk ?u" by (rule menuOk_cong [OF inv_parts(2) [OF assms]]) (simp_all add: stopTimer_def)
  moreover have "dialogOk ?u" by (rule dialogOk_cong [OF inv_parts(3) [OF assms]]) (simp_all add: stopTimer_def)
  moreover have "geoOk ?u" using inv_parts(4) [OF assms] dispose_inv [of "dtGeo v"] by (simp add: geoOk_def stopTimer_def)
  ultimately show ?thesis using False by (simp add: destroy_def detailInv_def)
qed (use assms in \<open>simp add: destroy_def\<close>)

lemma toolbar_inv:
  assumes "detailInv v"
  shows "detailInv (draw say collate now (setProtocol p v))" "detailInv (draw say collate now (setFilter f v))"
    "detailInv (draw say collate now (setSort key v))" "detailInv (draw say collate now (setPage delta v))" "detailInv (toggleGroup ip v)"
  by (rule draw_after [OF assms], simp_all add: setProtocol_def setFilter_def setSort_def setPage_def)+
    (rule detailInv_cong [OF assms], simp_all add: toggleGroup_def)

lemma detailStep_inv: "detailInv v \<Longrightarrow> detailInv (detailStep say collate ev now v)"
  by (cases ev) (simp_all add: detailStep_def detail_reload_inv timerFires_inv requestEnds_inv toolbar_inv setRefreshMs_inv setPaused_inv
      openHostnameDialog_inv hostnameLoaded_inv dialogInput_inv dialogCancel_inv dialogSave_inv saveEnds_inv geoEnds_inv
      geoPersist_inv batchEnds_inv destroy_inv)

section \<open>Opening the page\<close>

lemma finishDetail_ok: "prefsOk (finishDetail ps)"
proof -
  have "normalizeNssRefreshMs v \<in> Fin ` set NSS_REFRESH_CHOICES" for v
    by (auto simp: normalizeNssRefreshMs_def Let_def list_ex_iff NSS_REFRESH_MS_def) (auto simp: NSS_REFRESH_CHOICES_def)
  moreover have "Fin 1000 \<in> Fin ` set REFRESH_CHOICES" by (simp add: REFRESH_CHOICES_def)
  ultimately show ?thesis by (auto simp: finishDetail_def prefsOk_def Let_def list_ex_iff)
qed

lemma detailPrefs_ok: "prefsOk (snd (detailPrefs box shared))"
  by (auto simp: detailPrefs_def Let_def finishDetail_ok split: option.splits stored.splits)

lemma prefsOk_min: "prefsOk p \<Longrightarrow> nmax (Fin MIN_REFRESH_MS) (dpRefresh p) = dpRefresh p"
  by (auto simp: prefsOk_def REFRESH_CHOICES_def MIN_REFRESH_MS_def)

lemma normalizedPrefs_ok: "prefsOk (fst (snd (normalizedPrefs box)))"
proof -
  define shared where "shared = (case box of None \<Rightarrow> (None, DEFAULT_PREFS) | Some st \<Rightarrow> (case loadPrefs st of (st', ps) \<Rightarrow> (Some st', ps)))"
  obtain b p where d: "detailPrefs (fst shared) (snd shared) = (b, p)" by fastforce
  have p: "prefsOk p" using detailPrefs_ok [of "fst shared" "snd shared"] d by simp
  have "fst (snd (normalizedPrefs box)) = p\<lparr>dpRefresh := nmax (Fin MIN_REFRESH_MS) (dpRefresh p)\<rparr>"
    using d by (simp add: normalizedPrefs_def Let_def shared_def [symmetric])
  then show ?thesis using p prefsOk_min [OF p] by simp
qed

lemma restricted_or: "nssRefreshRestricted (jor s JNull) = nssRefreshRestricted s"
proof (cases "truthy s")
  case False
  have "\<not> Format.nssPlatform x" if "\<not> truthy x" for x
    using that by (simp add: Format.nssPlatform_def jfield_def jor_def Let_def jget.simps nullish_def)
  then have "\<not> nssRefreshRestricted x" if "\<not> truthy x" for x
    using that by (simp add: nssRefreshRestricted_def)
  then show ?thesis using False by (simp add: jor_def)
qed (simp add: jor_def)

lemma initial_inv:
  assumes "geoInv g" "\<not> gdisposed g"
  shows "menuPre (initialDetail box g d)"
    "dialogOk (initialDetail box g d)" "geoOk (initialDetail box g d)" "prefsOk (dtPrefs (initialDetail box g d))"
    "dtLoading (initialDetail box g d) = False" "dtPending (initialDetail box g d) = None"
proof -
  obtain b p u where n: "normalizedPrefs box = (b, p, u)" by (metis prod_cases3)
  have p: "prefsOk p" using normalizedPrefs_ok [of box] n by simp
  show "menuPre (initialDetail box g d)"
    using n by (auto simp: initialDetail_def menuPre_def Let_def refreshPolicy_def detailRefreshChoices_def restricted_or split: if_splits)
  show "dialogOk (initialDetail box g d)" using n by (simp add: initialDetail_def dialogOk_def Let_def)
  show "geoOk (initialDetail box g d)" using n assms by (simp add: initialDetail_def geoOk_def Let_def)
  show "prefsOk (dtPrefs (initialDetail box g d))" using n p by (simp add: initialDetail_def Let_def)
  show "dtLoading (initialDetail box g d) = False" "dtPending (initialDetail box g d) = None"
    using n by (simp_all add: initialDetail_def Let_def)
qed

lemma openDetail_inv:
  assumes "geoInv g" "\<not> gdisposed g"
  shows "detailInv (openDetail say collate box g d now)"
proof -
  note i = initial_inv [OF assms, of box d]
  have "timerOk (openDetail say collate box g d now)"
    unfolding openDetail_def by (rule schedule_timerOk) (simp_all add: i)
  then have "loopOk (openDetail say collate box g d now)"
    using i by (simp add: openDetail_def loopOk_def)
  then show ?thesis using draw_menuOk [OF i(1)] draw_geoOk [OF i(3)] i(2)
    by (simp add: detailInv_def openDetail_def schedule_rest draw_parts)
qed

lemma create_open: "\<not> gdisposed (createResolver stored parse t m c names)"
  by (simp add: createResolver_def)

lemma detail_run_inv: "detail_run say collate v \<Longrightarrow> detailInv v"
  by (induction rule: detail_run.induct) (simp_all add: openDetail_inv create_inv create_open detailStep_inv)

end
