(* ===== verification/DetailPage.thy ===== *)
theory DetailPage
  imports DetailController
begin

text \<open>
  What the page of one client promises: the refresh loop, the menu of periods, the lookups, the pages of
  the table, the stored preferences and the dialog for the host name.
\<close>

section \<open>Preferences are found again\<close>

lemma normalizeNss_choice: "n \<in> Fin ` set NSS_REFRESH_CHOICES \<Longrightarrow> normalizeNssRefreshMs (JNum n) = n"
  by (auto simp: normalizeNssRefreshMs_def Let_def list_ex_iff)

lemma numOr_choice: "n \<in> Fin ` set REFRESH_CHOICES \<Longrightarrow> numOr (JNum n) (Fin 1000) = n"
  by (auto simp: numOr_def REFRESH_CHOICES_def)

definition savedProps :: "detail_prefs \<Rightarrow> props" where
  "savedProps p = [(''refreshMs'', JNum (dpRefresh p)), (''nssRefreshMs'', JNum (dpNss p)), (''paused'', JBool (dpPaused p))]"

lemma saveDetailPrefs_eq:
  assumes "prefsOk p" "writable st"
  shows "saveDetailPrefs p (Some st) = Some (st\<lparr>items := (items st)(DETAIL_PREF_KEY \<mapsto> Doc (JObj (savedProps p)))\<rparr>)"
  using assms by (simp add: saveDetailPrefs_def savedProps_def prefsOk_def normalizeNss_choice numOr_choice)

lemma finishDetail_saved:
  assumes "prefsOk p"
  shows "finishDetail (assignProps detailDefaults (savedProps p)) = p"
proof -
  have f: "jget (JObj (assignProps detailDefaults (savedProps p))) ''refreshMs'' = JNum (dpRefresh p)"
    "jget (JObj (assignProps detailDefaults (savedProps p))) ''nssRefreshMs'' = JNum (dpNss p)"
    "jget (JObj (assignProps detailDefaults (savedProps p))) ''paused'' = JBool (dpPaused p)"
    by (simp_all add: assignProps_def savedProps_def detailDefaults_def jget.simps)
  have "list_ex (\<lambda>c. dpRefresh p = Fin c) REFRESH_CHOICES" using assms by (auto simp: prefsOk_def list_ex_iff)
  then show ?thesis using assms by (simp add: finishDetail_def Let_def f prefsOk_def normalizeNss_choice)
qed

lemma detailPrefs_saved:
  assumes "prefsOk p" "readable st" "writable st"
  shows "detailPrefs (saveDetailPrefs p (Some st)) shared = (saveDetailPrefs p (Some st), p)"
  unfolding saveDetailPrefs_eq [OF assms(1,3)]
  using finishDetail_saved [OF assms(1)] assms(2) by (simp add: detailPrefs_def rawItem_def mergeStored_def)

text \<open>Only the two items of the page matter to the preferences.\<close>

definition sameItems :: "storage \<Rightarrow> storage \<Rightarrow> bool" where
  "sameItems a b \<longleftrightarrow> readable a = readable b \<and> writable a = writable b \<and>
     items a DETAIL_PREF_KEY = items b DETAIL_PREF_KEY \<and> items a LEGACY_DETAIL_PREF_KEY = items b LEGACY_DETAIL_PREF_KEY"

lemma loadPrefs_sameItems: "sameItems st (fst (loadPrefs st))"
  by (auto simp: loadPrefs_def sameItems_def Let_def PREF_KEY_def DETAIL_PREF_KEY_def LEGACY_DETAIL_PREF_KEY_def
      split: stored.splits jval.splits)

lemma detailPrefs_sameItems:
  assumes "sameItems a b"
  shows "snd (detailPrefs (Some a) s) = snd (detailPrefs (Some b) t)"
proof -
  have "rawItem a DETAIL_PREF_KEY = rawItem b DETAIL_PREF_KEY" "rawItem a LEGACY_DETAIL_PREF_KEY = rawItem b LEGACY_DETAIL_PREF_KEY"
    "readable a = readable b" "writable a = writable b" using assms by (simp_all add: sameItems_def rawItem_def)
  then show ?thesis by (simp add: detailPrefs_def Let_def split: stored.splits)
qed

lemma migrateStored_shape: "truthy v \<Longrightarrow> typeofObject v \<Longrightarrow> truthy (migrateStored v) \<and> typeofObject (migrateStored v)"
  by (cases v) (simp_all add: migrateStored_def)

text \<open>Reading the preferences once more, after a migration too, gives the same.\<close>

lemma detailPrefs_again:
  assumes "detailPrefs (Some st) s = (b, p)"
  shows "\<exists>st'. b = Some st' \<and> readable st' = readable st \<and> writable st' = writable st \<and> snd (detailPrefs (Some st') t) = p"
proof -
  have same: "snd (detailPrefs (Some st) t) = p" using detailPrefs_sameItems [of st st s t] assms by (simp add: sameItems_def)
  show ?thesis
  proof (cases "b = Some st")
    case False
    then obtain v where v: "readable st" "rawItem st DETAIL_PREF_KEY = EmptyText" "rawItem st LEGACY_DETAIL_PREF_KEY = Doc v"
      "truthy v" "typeofObject v" "writable st"
      using assms by (auto simp: detailPrefs_def Let_def split: if_splits stored.splits)
    then have "b = Some (st\<lparr>items := (items st)(DETAIL_PREF_KEY \<mapsto> Doc (migrateStored v))\<rparr>)" "p = finishDetail (mergeStored (migrateStored v))"
      using assms by (simp_all add: detailPrefs_def)
    then show ?thesis using v migrateStored_shape [OF v(4,5)] by (simp add: detailPrefs_def rawItem_def)
  qed (use same in simp)
qed

definition loadedShared :: "storage option \<Rightarrow> storage option \<times> props" where
  "loadedShared box = (case box of None \<Rightarrow> (None, DEFAULT_PREFS) | Some st \<Rightarrow> (case loadPrefs st of (st', ps) \<Rightarrow> (Some st', ps)))"

lemma normalizedPrefs_eq:
  "fst (normalizedPrefs box) = fst (detailPrefs (fst (loadedShared box)) (snd (loadedShared box)))"
  "fst (snd (normalizedPrefs box)) = snd (detailPrefs (fst (loadedShared box)) (snd (loadedShared box)))"
proof -
  obtain b p where d: "detailPrefs (fst (loadedShared box)) (snd (loadedShared box)) = (b, p)" by fastforce
  have p: "prefsOk p" using detailPrefs_ok [of "fst (loadedShared box)" "snd (loadedShared box)"] d by simp
  show "fst (normalizedPrefs box) = fst (detailPrefs (fst (loadedShared box)) (snd (loadedShared box)))"
    "fst (snd (normalizedPrefs box)) = snd (detailPrefs (fst (loadedShared box)) (snd (loadedShared box)))"
    using d prefsOk_min [OF p] by (simp_all add: normalizedPrefs_def Let_def loadedShared_def [symmetric])
qed

text \<open>What a page that opens on this storage would start with.\<close>

definition nextPrefs :: "storage \<Rightarrow> detail_prefs" where
  "nextPrefs st = snd (detailPrefs (Some st) [])"

lemma normalizedPrefs_next: "fst (snd (normalizedPrefs (Some st))) = nextPrefs st"
proof -
  obtain st' ps where l: "loadPrefs st = (st', ps)" by fastforce
  then have "sameItems st' st" using loadPrefs_sameItems [of st] by (simp add: sameItems_def)
  from detailPrefs_sameItems [OF this] show ?thesis by (simp add: normalizedPrefs_eq loadedShared_def l nextPrefs_def)
qed

lemma normalizedPrefs_box:
  assumes "normalizedPrefs (Some st) = (b, p, u)"
  obtains st' where "b = Some st'" "readable st' = readable st" "writable st' = writable st" "nextPrefs st' = p"
proof -
  obtain s1 ps where l: "loadPrefs st = (s1, ps)" by fastforce
  have s1: "readable s1 = readable st" "writable s1 = writable st" using loadPrefs_sameItems [of st] l by (simp_all add: sameItems_def)
  have "detailPrefs (Some s1) ps = (b, p)"
    using normalizedPrefs_eq [of "Some st"] assms by (cases "detailPrefs (Some s1) ps") (simp add: loadedShared_def l)
  from detailPrefs_again [OF this, of "[]"] show ?thesis using that s1 by (auto simp: nextPrefs_def)
qed

definition storedOk :: "detail_view \<Rightarrow> bool" where
  "storedOk v \<longleftrightarrow> (case dtStore v of None \<Rightarrow> True | Some st \<Rightarrow> \<not> readable st \<or> \<not> writable st \<or> nextPrefs st = dtPrefs v)"

lemma storedOk_cong:
  assumes "storedOk v" "dtStore u = dtStore v" "dtPrefs u = dtPrefs v"
  shows "storedOk u"
  using assms(1) unfolding storedOk_def assms(2,3) .

lemma initial_stored: "storedOk (initialDetail box g d)"
proof (cases box)
  case None
  obtain p u where n: "normalizedPrefs box = (None, p, u)"
    using None by (cases "normalizedPrefs box") (auto simp: normalizedPrefs_def detailPrefs_def)
  then show ?thesis by (simp add: initialDetail_def storedOk_def Let_def)
next
  case (Some st)
  obtain b p u where n: "normalizedPrefs (Some st) = (b, p, u)" by (metis prod_cases3)
  from normalizedPrefs_box [OF n] obtain st' where "b = Some st'" "nextPrefs st' = p" by metis
  then show ?thesis using n Some by (simp add: initialDetail_def storedOk_def Let_def)
qed

lemma saved_stored: "prefsOk q \<Longrightarrow> dtPrefs u = q \<Longrightarrow> dtStore u = saveDetailPrefs q box \<Longrightarrow> storedOk u"
proof -
  assume q: "prefsOk q" and u: "dtPrefs u = q" "dtStore u = saveDetailPrefs q box"
  show ?thesis
  proof (cases box)
    case (Some st)
    show ?thesis
    proof (cases "readable st \<and> writable st")
      case True
      then have "snd (detailPrefs (saveDetailPrefs q (Some st)) []) = q" using detailPrefs_saved [OF q] by simp
      then show ?thesis using u Some True by (simp add: storedOk_def saveDetailPrefs_eq [OF q] nextPrefs_def)
    next
      case False
      then have "dtStore u = Some x \<Longrightarrow> \<not> readable x \<or> \<not> writable x" for x
        using u(2) Some by (auto simp: saveDetailPrefs_def split: if_splits)
      then show ?thesis by (auto simp: storedOk_def split: option.splits)
    qed
  qed (use u in \<open>simp add: storedOk_def saveDetailPrefs_def\<close>)
qed

lemma step_prefs:
  "dtStore (reload say collate m now v) = dtStore v" "dtPrefs (reload say collate m now v) = dtPrefs v"
  "dtStore (timerFires say collate now v) = dtStore v" "dtPrefs (timerFires say collate now v) = dtPrefs v"
  "dtStore (requestEnds say collate e now v) = dtStore v" "dtPrefs (requestEnds say collate e now v) = dtPrefs v"
  "dtStore (openHostnameDialog say collate now v) = dtStore v" "dtPrefs (openHostnameDialog say collate now v) = dtPrefs v"
  "dtStore (hostnameLoaded say collate st now v) = dtStore v" "dtPrefs (hostnameLoaded say collate st now v) = dtPrefs v"
  "dtStore (dialogInput t v) = dtStore v" "dtPrefs (dialogInput t v) = dtPrefs v"
  "dtStore (dialogCancel v) = dtStore v" "dtPrefs (dialogCancel v) = dtPrefs v"
  "dtStore (dialogSave v) = dtStore v" "dtPrefs (dialogSave v) = dtPrefs v"
  "dtStore (batchEnds say collate now v) = dtStore v" "dtPrefs (batchEnds say collate now v) = dtPrefs v"
  by (simp_all add: reload_def timerFires_def requestEnds_def openHostnameDialog_def hostnameLoaded_def showHostnameDialog_def
      dialogInput_def dialogCancel_def dialogSave_def batchEnds_def takeAnswer_def stopTimer_def Let_def
      split: option.split sum.split detail_end.split)

lemma saveEnds_prefs: "dtStore (saveEnds say collate st now v) = dtStore v" "dtPrefs (saveEnds say collate st now v) = dtPrefs v"
  by (simp_all add: saveEnds_def step_prefs split: option.split sum.split)

lemma setRefreshMs_stored:
  assumes "storedOk v" "detailInv v"
  shows "storedOk (setRefreshMs say collate value now v)"
proof (cases "list_ex (\<lambda>c. toNum value = Fin c) (dtChoices v)")
  case True
  let ?p = "dtPrefs v"
  define q where "q = (if nssRefreshRestricted (dtStatus v) then ?p\<lparr>dpNss := toNum value\<rparr> else ?p\<lparr>dpRefresh := toNum value\<rparr>)"
  have q: "prefsOk q" using True inv_parts(1,2) [OF assms(2)]
    by (auto simp: q_def list_ex_iff prefsOk_def detailRefreshChoices_def loopOk_def menuOk_def menuPre_def)
  let ?u = "draw say collate now (v\<lparr>dtPrefs := q, dtStore := saveDetailPrefs q (dtStore v)\<rparr>)"
  have "setRefreshMs say collate value now v = (if dtLoading ?u then ?u else schedule None now ?u)"
    using True by (simp add: setRefreshMs_def Let_def q_def)
  then show ?thesis by (auto intro: saved_stored [OF q])
qed (use assms in \<open>simp add: setRefreshMs_def Let_def\<close>)

lemma setPaused_stored:
  assumes "detailInv v"
  shows "storedOk (setPaused say collate now v)"
proof -
  let ?q = "(dtPrefs v)\<lparr>dpPaused := \<not> dpPaused (dtPrefs v)\<rparr>"
  have "prefsOk ?q" using inv_parts(1) [OF assms] by (simp add: loopOk_def prefsOk_def)
  then show ?thesis by (rule saved_stored [where box = "dtStore v"]) (simp_all add: setPaused_def Let_def stopTimer_def)
qed

lemma detailStep_stored:
  assumes "storedOk v" "detailInv v"
  shows "storedOk (detailStep say collate ev now v)"
proof (cases ev)
  case (Interval x)
  then show ?thesis using setRefreshMs_stored [OF assms] by (simp add: detailStep_def)
next
  case PauseClick
  then show ?thesis using setPaused_stored [OF assms(2)] by (simp add: detailStep_def)
qed ((rule storedOk_cong [OF assms(1)]; simp add: detailStep_def step_prefs saveEnds_prefs setProtocol_def setFilter_def
    setSort_def setPage_def toggleGroup_def geoEnds_def geoPersist_def destroy_def stopTimer_def)+)

lemma openDetail_stored: "storedOk (openDetail say collate box g d now)"
  by (rule storedOk_cong [OF initial_stored [of box g d]]) (simp_all add: openDetail_def)

lemma detail_run_stored: "detail_run say collate v \<Longrightarrow> storedOk v"
proof (induction rule: detail_run.induct)
  case (stepped v ev now)
  then show ?case using detailStep_stored detail_run_inv by blast
qed (rule openDetail_stored)

section \<open>A save that is under way\<close>

text \<open>What is being saved is a valid name other than the one before.\<close>

definition savingOk :: "bool \<Rightarrow> dialog option \<Rightarrow> bool" where
  "savingOk saving dg \<longleftrightarrow> \<not> saving \<or> (case dg of None \<Rightarrow> False | Some d \<Rightarrow> \<not> saveDisabled False d)"

lemma savingOk_idle [simp]: "savingOk False dg"
  by (simp add: savingOk_def)

lemma reload_dialog: "dtSaving (reload say collate m now v) = dtSaving v" "dtDialog (reload say collate m now v) = dtDialog v"
  by (simp_all add: reload_def stopTimer_def)

lemma saveEnds_idle: "dtDialog v \<noteq> None \<Longrightarrow> dtSaving (saveEnds say collate st now v) = False"
  by (cases "dtSaving v") (auto simp: saveEnds_def reload_dialog split: sum.splits)

lemma dialogSave_saving: "savingOk (dtSaving v) (dtDialog v) \<Longrightarrow> savingOk (dtSaving (dialogSave v)) (dtDialog (dialogSave v))"
  by (auto simp: dialogSave_def savingOk_def saveDisabled_def split: option.splits sum.splits)

lemma dialogInput_saving: "savingOk (dtSaving v) (dtDialog v) \<Longrightarrow> savingOk (dtSaving (dialogInput t v)) (dtDialog (dialogInput t v))"
  by (auto simp: dialogInput_def split: option.splits)

lemma hostnameLoaded_saving:
  assumes "savingOk (dtSaving v) (dtDialog v)" "dialogOk v"
  shows "savingOk (dtSaving (hostnameLoaded say collate st now v)) (dtDialog (hostnameLoaded say collate st now v))"
proof (cases "dtOpening v")
  case True
  then have "dtDialog v = None" using assms(2) by (simp add: dialogOk_def)
  then have "\<not> dtSaving v" using assms(1) by (simp add: savingOk_def)
  then show ?thesis by (simp add: hostnameLoaded_def showHostnameDialog_def Let_def)
qed (use assms in \<open>simp add: hostnameLoaded_def Let_def\<close>)

lemma detailStep_saving:
  assumes "savingOk (dtSaving v) (dtDialog v)" "detailInv v"
  shows "savingOk (dtSaving (detailStep say collate ev now v)) (dtDialog (detailStep say collate ev now v))"
proof (cases ev)
  case (SaveEnds st)
  show ?thesis
  proof (cases "dtDialog v = None")
    case True
    then show ?thesis using SaveEnds assms by (simp add: detailStep_def saveEnds_def)
  qed (use SaveEnds in \<open>simp add: detailStep_def saveEnds_idle\<close>)
next
  case (HostLoaded st)
  then show ?thesis using hostnameLoaded_saving [OF assms(1) inv_parts(3) [OF assms(2)]] by (simp add: detailStep_def)
next
  case (DialogInput t)
  then show ?thesis using dialogInput_saving [OF assms(1)] by (simp add: detailStep_def)
next
  case DialogSave
  then show ?thesis using dialogSave_saving [OF assms(1)] by (simp add: detailStep_def)
next
  case DialogCancel
  then show ?thesis using assms(1) by (cases "dtSaving v") (simp_all add: detailStep_def dialogCancel_def)
next
  case HeadingClick
  have "dtSaving (detailStep say collate ev now v) = dtSaving v" "dtDialog (detailStep say collate ev now v) = dtDialog v"
    by (simp_all add: HeadingClick detailStep_def openHostnameDialog_def)
  then show ?thesis using assms(1) by simp
next
  case (Ends e)
  then show ?thesis using assms(1) by (simp add: detailStep_def requestEnds_def takeAnswer_def Let_def split: option.split detail_end.split)
qed (use assms(1) in \<open>simp_all add: detailStep_def reload_dialog timerFires_def setProtocol_def setFilter_def setSort_def setPage_def
    toggleGroup_def setRefreshMs_def setPaused_def stopTimer_def openHostnameDialog_def geoEnds_def geoPersist_def batchEnds_def
    destroy_def Let_def\<close>)

lemma detail_run_saving: "detail_run say collate v \<Longrightarrow> savingOk (dtSaving v) (dtDialog v)"
proof (induction rule: detail_run.induct)
  case (stepped v ev now)
  then show ?case using detailStep_saving detail_run_inv by blast
next
  case (opened box raw parse t names identity e hosts now now')
  show ?case by (simp add: openDetail_def initialDetail_def Let_def split: prod.split)
qed

section \<open>Names that are saved\<close>

lemma alnum_not_space: "isAlnum c \<or> c \<in> set ''._-'' \<Longrightarrow> \<not> isSpace c"
  by (auto simp: isAlnum_def isDigit_def isUpperAz_def isLowerAz_def isSpace_def code_def)

lemma normalizeName_again: "normalizeName v = Inr n \<Longrightarrow> normalizeName (JStr n) = Inr n"
proof -
  assume v: "normalizeName v = Inr n"
  have "\<forall>c \<in> set n. \<not> isSpace c"
    using normalizeName_form [OF v] alnum_not_space by (auto simp: HOSTNAME_PATTERN_def list_all_iff split: list.splits)
  then have "jtrim n = n" by (simp add: jtrim_def trimBy_none)
  then show ?thesis using normalizeName_form [OF v] by (auto simp: normalizeName_def stringValue_def nullish_def)
qed

lemma namedIn_valid: "\<not> saveDisabled False d \<Longrightarrow> normalizeName (JStr (namedIn d)) = Inr (namedIn d)"
  using normalizeName_again by (auto simp: saveDisabled_def namedIn_def split: sum.splits)

lemma savedName_is: "normalizeName nameV = Inr n \<Longrightarrow> snd (saveForMac st macV nameV) = Inr r \<Longrightarrow> savedName r = n"
  unfolding saveForMac_eq createHost_def updateHost_def Let_def
  by (auto split: if_splits sum.splits option.splits)

lemma dtMac_normal: "detail_run say collate v \<Longrightarrow> normalizeMac (JStr (dtMac v)) = dtMac v"
proof (induction rule: detail_run.induct)
  case (stepped v ev now)
  have "dtMac (detailStep say collate ev now v) = dtMac v"
  proof (cases ev)
    case (Ends e)
    then show ?thesis by (simp add: detailStep_def requestEnds_def takeAnswer_def Let_def split: option.split detail_end.split)
  qed (simp_all add: detailStep_def reload_def saveEnds_def dialogInput_def dialogSave_def hostnameLoaded_def showHostnameDialog_def
      dialogCancel_def timerFires_def setProtocol_def setFilter_def setSort_def setPage_def toggleGroup_def setRefreshMs_def
      setPaused_def stopTimer_def openHostnameDialog_def geoEnds_def geoPersist_def batchEnds_def destroy_def Let_def
      split: option.split sum.split)
  then show ?case using stepped.IH by simp
next
  case (opened box raw parse t names identity e hosts now now')
  show ?case by (simp add: openDetail_def initialDetail_def Let_def identityMac_def normalizeMac_idem split: prod.split)
qed

section \<open>Properties of the page\<close>

text \<open>C27: whatever the user does and however requests, timers and lookups interleave, the page of a client is
  loading exactly while a request is under way; the refresh timer is armed exactly when the page is neither
  loading nor paused nor left, and never for longer than the period in effect; and that period is always
  one of the options of the menu, which are those the platform allows.\<close>

theorem detail_page_loop:
  assumes "detail_run say collate v"
  shows "(dtLoading v \<longleftrightarrow> dtPending v \<noteq> None) \<and>
    (dtTimer v = None \<longleftrightarrow> dtLoading v \<or> dpPaused (dtPrefs v) \<or> dtDestroyed v) \<and>
    (case dtTimer v of None \<Rightarrow> True | Some d \<Rightarrow> nle (Fin 0) d \<and> nle d (detailRefreshMs (dtStatus v) (dtPrefs v))) \<and>
    dtOptions v = detailRefreshChoices (dtStatus v) \<and>
    detailRefreshMs (dtStatus v) (dtPrefs v) \<in> Fin ` set (dtOptions v)"
proof -
  have inv: "detailInv v" by (rule detail_run_inv [OF assms])
  have "prefsOk (dtPrefs v)" using inv_parts(1) [OF inv] by (simp add: loopOk_def)
  from refresh_choice [OF this] show ?thesis
    using inv_parts(1) [OF inv] menuOk_options [OF inv_parts(2) [OF inv]] by (simp add: loopOk_def timerOk_def delayOk_def)
qed

definition sampleDetail :: detail_view where
  "sampleDetail = openDetail (\<lambda>t. []) (\<lambda>a b. 0) (Some \<lparr>items = Map.empty, readable = True, writable = True\<rparr>)
     (createResolver None (\<lambda>s. None) 0 JUndef JUndef None)
     (loadClient (JStr ''aa:bb:cc:dd:ee:ff@lan'') (Refused (JStr ''timeout''))
       (loadForMac \<lparr>loadAnswer = Inr (), sectionsAnswer = Some [], addAnswer = Inr (JStr ''cfg01''), setAnswer = Inr (),
         deleteAnswer = Inr ()\<rparr> (JStr (identityMac (JStr ''aa:bb:cc:dd:ee:ff@lan'')))) 5) 7"

lemma sample_run: "detail_run (\<lambda>t. []) (\<lambda>a b. 0) sampleDetail"
  unfolding sampleDetail_def by (rule detail_run.opened)

theorem detail_page_loop_witness:
  "dtTimer (detailStep (\<lambda>t. []) (\<lambda>a b. 0) Reload 9 sampleDetail) = None"
proof -
  let ?v = "detailStep (\<lambda>t. []) (\<lambda>a b. 0) Reload 9 sampleDetail"
  have "dtPending ?v \<noteq> None" by (simp add: detailStep_def reload_def)
  then show ?thesis using detail_page_loop [OF detail_run.stepped [OF sample_run, of Reload 9]] by blast
qed



text \<open>C30: the pages of the table hold every group that passes the filters exactly once and in order, and the page
  that is drawn always exists.\<close>

theorem detail_pages:
  "let gs = shownGroups say collate now v; drawn = (\<lambda>n. dtPage (draw say collate now (v\<lparr>dtPage := n\<rparr>))) in
   concat (map (\<lambda>n. pageGroups gs (drawn n)) [0..<pagesOf gs]) = gs \<and> dtPage (draw say collate now v) < pagesOf gs"
proof -
  define gs where "gs = shownGroups say collate now v"
  have ge: "1 \<le> pagesOf gs"
    using ceilDiv_covers [of CONNECTION_PAGE_SIZE "length gs"]
    by (cases "ceilDiv (length gs) CONNECTION_PAGE_SIZE") (auto simp: pagesOf_def CONNECTION_PAGE_SIZE_def)
  have same: "shownGroups say collate now (v\<lparr>dtPage := n\<rparr>) = gs" for n
    by (simp add: gs_def shownGroups_def usable_def notFound_def ClientDetail.warnings_def locationLabelFor_def)
  have page: "dtPage (draw say collate now w) = min (dtPage w) (pagesOf (shownGroups say collate now w) - 1)" for w
    by (simp add: draw_def Let_def)
  have "map (\<lambda>n. pageGroups gs (dtPage (draw say collate now (v\<lparr>dtPage := n\<rparr>)))) [0..<pagesOf gs] =
      map (\<lambda>n. take CONNECTION_PAGE_SIZE (drop (n * CONNECTION_PAGE_SIZE) gs)) [0..<pagesOf gs]"
    by (rule map_cong) (auto simp: page same pageGroups_def)
  moreover have "length gs \<le> pagesOf gs * CONNECTION_PAGE_SIZE"
    using ceilDiv_covers [of CONNECTION_PAGE_SIZE "length gs"] by (auto simp: pagesOf_def CONNECTION_PAGE_SIZE_def)
  ultimately have "concat (map (\<lambda>n. pageGroups gs (dtPage (draw say collate now (v\<lparr>dtPage := n\<rparr>)))) [0..<pagesOf gs]) = gs"
    by (simp only: concat_chunks take_all)
  then show ?thesis using ge page [of v] by (simp add: gs_def Let_def)
qed

text \<open>The period and the pause chosen on the page are those the next page of a client opens with, as long as
  the browser stores them; migrating the preferences of an older version does not change this.\<close>

theorem detail_prefs_kept:
  assumes "detail_run say collate v" "dtStore v = Some st" "readable st" "writable st"
  shows "dtPrefs (openDetail say' collate' (dtStore v) g d now) = dtPrefs v"
proof -
  obtain b p u where n: "normalizedPrefs (Some st) = (b, p, u)" by (metis prod_cases3)
  have "dtPrefs (openDetail say' collate' (dtStore v) g d now) = nextPrefs st"
    using normalizedPrefs_next [of st] n assms(2) by (simp add: openDetail_def initialDetail_def Let_def)
  then show ?thesis using detail_run_stored [OF assms(1)] assms(2-4) by (simp add: storedOk_def)
qed


theorem detail_prefs_kept_witness:
  "dpPaused (dtPrefs (openDetail (\<lambda>t. []) (\<lambda>a b. 0) (dtStore (detailStep (\<lambda>t. []) (\<lambda>a b. 0) PauseClick 9 sampleDetail))
     (createResolver None (\<lambda>s. None) 0 JUndef JUndef None) (loadClient JNull (Refused JNull) \<lparr>available = False, loadedMac = [],
       loadedHost = None, loadError = None\<rparr> 11) 12))"
proof -
  let ?v = "detailStep (\<lambda>t. []) (\<lambda>a b. 0) PauseClick 9 sampleDetail"
  have prefs: "prefsOk (dtPrefs sampleDetail)" "\<not> dpPaused (dtPrefs sampleDetail)"
    using detail_run_inv [OF sample_run] by (simp add: detailInv_def loopOk_def) code_simp
  have "case dtStore sampleDetail of None \<Rightarrow> False | Some b \<Rightarrow> readable b \<and> writable b" by code_simp
  then obtain b where box: "dtStore sampleDetail = Some b" "readable b" "writable b" by (auto split: option.splits)
  let ?q = "(dtPrefs sampleDetail)\<lparr>dpPaused := \<not> dpPaused (dtPrefs sampleDetail)\<rparr>"
  have "dtStore ?v = saveDetailPrefs ?q (Some b)"
    using box by (simp add: detailStep_def setPaused_def stopTimer_def Let_def)
  then obtain st where st: "dtStore ?v = Some st" "readable st" "writable st"
    using box by (simp add: saveDetailPrefs_def)
  have "dpPaused (dtPrefs ?v)" using prefs(2) by (simp add: detailStep_def setPaused_def stopTimer_def Let_def)
  then show ?thesis using detail_prefs_kept [OF detail_run.stepped [OF sample_run] st] by simp
qed

definition sampleStore :: DhcpHostnames.store where
  "sampleStore = \<lparr>loadAnswer = Inr (), sectionsAnswer = Some [], addAnswer = Inr (JStr ''cfg01''), setAnswer = Inr (), deleteAnswer = Inr ()\<rparr>"

definition sampleSaving :: detail_view where
  "sampleSaving = (let step = detailStep (\<lambda>t. []) (\<lambda>a b. 0) in
     step DialogSave 13 (step (DialogInput ''nas'') 12 (step (HostLoaded sampleStore) 11 (step HeadingClick 10 sampleDetail))))"


section \<open>Addresses of the client\<close>

interpretation ips: js_comparator UNIV rankCompare
  by unfold_locales (auto simp: rankCompare_def positive_def Let_def split: if_splits)

lemma ips_le: "ips.le p q \<longleftrightarrow> ipDisplayRank (fst p) < ipDisplayRank (fst q) \<or>
    ipDisplayRank (fst p) = ipDisplayRank (fst q) \<and> snd p \<le> snd q"
  by (auto simp: ips.le_def rankCompare_def positive_def Let_def)

lemma rank_range: "ipDisplayRank ip \<in> {0, 1, 2}"
  by (auto simp: ipDisplayRank_def Let_def split: option.splits)

definition rankKey :: "nat \<Rightarrow> jval \<times> nat \<Rightarrow> nat" where
  "rankKey n p = ipDisplayRank (fst p) * n + snd p"

lemma rankKey_mono:
  assumes "snd p < n" "snd q < n"
  shows "ips.le p q \<longleftrightarrow> rankKey n p \<le> rankKey n q"
proof -
  have less: "a * n + i < b * n + j" if "a < b" "i < n" for a b i j :: nat
  proof -
    have "a * n + i < Suc a * n" using that(2) by simp
    also have "\<dots> \<le> b * n" using that(1) by (intro mult_right_mono) simp_all
    finally show ?thesis by simp
  qed
  consider "ipDisplayRank (fst p) < ipDisplayRank (fst q)" | "ipDisplayRank (fst p) = ipDisplayRank (fst q)"
    | "ipDisplayRank (fst q) < ipDisplayRank (fst p)" by linarith
  then show ?thesis
    by cases (use less [of "ipDisplayRank (fst p)" "ipDisplayRank (fst q)" "snd p" "snd q"]
      less [of "ipDisplayRank (fst q)" "ipDisplayRank (fst p)" "snd q" "snd p"] assms in \<open>auto simp: ips_le rankKey_def\<close>)
qed

lemma sorted_keys:
  assumes "sorted_wrt ips.le ps" "snd ` set ps \<subseteq> {..<n}"
  shows "sorted (map (rankKey n) ps)"
  using assms
proof (induction ps)
  case (Cons p ps)
  have "rankKey n p \<le> rankKey n q" if "q \<in> set ps" for q
    using Cons.prems that rankKey_mono [of p n q] by (auto simp: image_subset_iff)
  then show ?case using Cons by simp
qed simp

lemma ranks_all:
  "mset (filter (\<lambda>p. ipDisplayRank (fst p) = 0) zs @ filter (\<lambda>p. ipDisplayRank (fst p) = 1) zs @
     filter (\<lambda>p. ipDisplayRank (fst p) = 2) zs) = mset zs"
proof (induction zs)
  case (Cons p zs)
  then show ?case using rank_range [of "fst p"] by auto
qed simp

lemma rankKey_inj:
  assumes "distinct (map snd ps)" "snd ` set ps \<subseteq> {..<n}"
  shows "inj_on (rankKey n) (set ps)"
proof (rule inj_onI)
  fix p q assume p: "p \<in> set ps" "q \<in> set ps" and eq: "rankKey n p = rankKey n q"
  have "rankKey n r mod n = snd r" if "r \<in> set ps" for r
    using that assms(2) by (auto simp: rankKey_def)
  with p eq have "snd p = snd q" by metis
  then show "p = q" using p assms(1) unfolding distinct_map inj_on_def by blast
qed

text \<open>The page lists the addresses of the client by their kind, IPv4 before link-local before other IPv6
  addresses, each kind in the order of the report, and drops none.\<close>

theorem client_ips_order:
  "orderedClientIps v = concat (map (\<lambda>r. filter (\<lambda>ip. ipDisplayRank ip = r) (asArray v)) [0, 1, 2]) \<and>
   mset (orderedClientIps v) = mset (asArray v)"
proof -
  let ?xs = "asArray v" let ?n = "length (asArray v)" let ?zs = "zip (asArray v) [0..<length (asArray v)]"
  let ?by = "\<lambda>r. filter (\<lambda>p. ipDisplayRank (fst p) = r) ?zs"
  let ?ys = "?by 0 @ ?by 1 @ ?by 2"
  have idx: "snd ` set ?zs \<subseteq> {..<?n}" by (auto dest: set_zip_rightD)
  have inc: "sorted_wrt (\<lambda>p q. snd p < snd q) ?zs" by (simp add: sorted_wrt_iff_nth_less)
  have part: "sorted_wrt ips.le (?by r)" for r
  proof -
    have "sorted_wrt (\<lambda>p q. snd p < snd q) (?by r)" using sorted_wrt_filter [OF inc] by blast
    then show ?thesis by (rule sorted_wrt_mono_rel [rotated]) (auto simp: ips_le)
  qed
  have sorted: "sorted_wrt ips.le ?ys"
    using part by (auto simp: sorted_wrt_append ips_le)
  have ms: "mset ?ys = mset ?zs" by (rule ranks_all)
  have "snd ` set ?ys \<subseteq> {..<?n}" using idx by auto
  then have s1: "sorted (map (rankKey ?n) ?ys)" by (rule sorted_keys [OF sorted])
  have "sorted_wrt ips.le (jsSort rankCompare ?zs)" by (rule ips.sorted_sort) simp
  then have s2: "sorted (map (rankKey ?n) (jsSort rankCompare ?zs))" by (rule sorted_keys) (use idx in simp)
  have "inj_on (rankKey ?n) (set ?zs)" by (rule rankKey_inj) (use idx in simp_all)
  then have "jsSort rankCompare ?zs = ?ys"
    using sort_key_inj_key_eq [of ?zs ?ys "rankKey ?n"] sort_key_inj_key_eq [of ?zs "jsSort rankCompare ?zs" "rankKey ?n"] s1 s2 ms
    by simp
  moreover have "map fst (?by r) = filter (\<lambda>ip. ipDisplayRank ip = r) ?xs" for r
    using filter_map [of "\<lambda>ip. ipDisplayRank ip = r" fst ?zs] by (simp add: comp_def)
  moreover have "mset (map fst (jsSort rankCompare ?zs)) = mset (map fst ?zs)" unfolding mset_map by simp
  ultimately show ?thesis by (simp add: orderedClientIps_def Let_def)
qed

text \<open>A table without rows is explained: when the answer says whether connection data are available, the page
  shows rows or a message why there are none.\<close>

theorem detail_empty_explained:
  assumes "isBool (jget (dtResponse v) ''available'') \<or> \<not> truthy (dtResponse v)" "dtPage v < pagesOf gs"
    "gs = shownGroups say collate now v"
  shows "sdRows (render every gs v) \<noteq> [] \<or> sdEmpty (render every gs v) \<noteq> Lit []"
proof (cases "gs = []")
  case True
  have "emptyMessage v gs \<noteq> Lit []" if "truthy (dtResponse v)" "\<not> notFound v"
  proof -
    have "isBool (jget (dtResponse v) ''available'')" using assms(1) that(1) by simp
    then obtain b where "jget (dtResponse v) ''available'' = JBool b" by (cases "jget (dtResponse v) ''available''") simp_all
    then show ?thesis using that True by (cases b) (simp_all add: emptyMessage_def usable_def Let_def)
  qed
  moreover have "emptyMessage v gs \<noteq> Lit []" if "\<not> truthy (dtResponse v) \<or> notFound v"
    using that by (auto simp: emptyMessage_def notFound_def usable_def Let_def)
  ultimately show ?thesis by (auto simp: render_def Let_def)
next
  case False
  have "(ceilDiv (length gs) CONNECTION_PAGE_SIZE - 1) * CONNECTION_PAGE_SIZE < length gs"
    by (rule ceilDiv_tight) (use False in \<open>simp_all add: CONNECTION_PAGE_SIZE_def\<close>)
  moreover have "dtPage v \<le> ceilDiv (length gs) CONNECTION_PAGE_SIZE - 1" using assms(2) False by (simp add: pagesOf_def)
  then have "dtPage v * CONNECTION_PAGE_SIZE \<le> (ceilDiv (length gs) CONNECTION_PAGE_SIZE - 1) * CONNECTION_PAGE_SIZE"
    by (rule mult_right_mono) simp
  ultimately have "pageGroups gs (dtPage v) \<noteq> []" by (simp add: pageGroups_def CONNECTION_PAGE_SIZE_def)
  then show ?thesis by (simp add: render_def Let_def)
qed

theorem detail_empty_explained_witness:
  "sdRows (render [] [] sampleDetail) \<noteq> [] \<or> sdEmpty (render [] [] sampleDetail) \<noteq> Lit []"
proof (rule detail_empty_explained)
  show "isBool (jget (dtResponse sampleDetail) ''available'') \<or> \<not> truthy (dtResponse sampleDetail)" by code_simp
  show "dtPage sampleDetail < pagesOf []" by code_simp
  show "[] = shownGroups (\<lambda>t. []) (\<lambda>a b. 0) 0 sampleDetail" by code_simp
qed

end
