(* ===== verification/LiveData.thy ===== *)
theory LiveData
  imports Format StatusIp StatusRateMeta ConfigModel
begin

text \<open>
  The data of the overview, from \<open>lanspeed/statusOverview.js\<close>: what one refresh makes of the
  answers of the daemon. Each source is validated and falls back to its last success; the
  samples of status, clients and interfaces are shown together only when their clocks belong
  together, else the previous round stays on the page.

  Clocks of the browser are integers, clocks of samples rationals. The answers of the RPCs, with
  the time at which they come, are arguments; a list of interfaces is an array, as validated. The messages of errors are named by a gloss.
\<close>

section \<open>Sources\<close>

definition SOURCE_KEYS :: "string list" where
  "SOURCE_KEYS = [''status'', ''clients'', ''interfaces'', ''uci'']"

definition LIVE_SOURCE_KEYS :: "string list" where
  "LIVE_SOURCE_KEYS = [''status'', ''clients'', ''interfaces'']"

definition ACCESS_EDGE_SAMPLE_SKEW_MS :: rat where "ACCESS_EDGE_SAMPLE_SKEW_MS = 50"
definition LIVE_RPC_TIMEOUT_MS :: rat where "LIVE_RPC_TIMEOUT_MS = 2500"

definition emptySource :: "string \<Rightarrow> jval" where
  "emptySource key = (if key = ''clients'' then JObj [(''clients'', JArr [])]
     else if key = ''interfaces'' then JObj [(''interfaces'', JArr [])] else JObj [])"

definition isObject :: "jval \<Rightarrow> bool" where
  "isObject v \<longleftrightarrow> v \<noteq> JNull \<and> typeofObject v \<and> \<not> isArr v"

definition plainSource :: "string \<Rightarrow> jval \<Rightarrow> bool" where
  "plainSource key v \<longleftrightarrow> isObject v \<and> (if key = ''clients'' then isArr (jget v ''clients'')
     else if key = ''interfaces'' then isArr (jget v ''interfaces'') else True)"

definition sourceIsValid :: "string \<Rightarrow> jval \<Rightarrow> bool" where
  "sourceIsValid key v = (if key = ''realtime'' then isObject v \<and> plainSource ''status'' (jget v ''status'') \<and>
       plainSource ''clients'' (jget v ''clients'') \<and> plainSource ''interfaces'' (jget v ''interfaces'')
     else plainSource key v)"

text \<open>An \<open>Error\<close>, and what a call may throw.\<close>

record live_error =
  errMessage :: mtext
  errCode :: jval

datatype thrown = IsError live_error | Other jval

definition invalidResponseError :: "string \<Rightarrow> live_error" where
  "invalidResponseError key = \<lparr>errMessage = Cat [Tr ''Invalid response of '', Lit key], errCode = JStr ''INVALID_RESPONSE''\<rparr>"

definition timeoutError :: "string \<Rightarrow> live_error" where
  "timeoutError key = \<lparr>errMessage = Cat [Tr ''realtime request timed out: '', Lit key], errCode = JStr ''TIMEOUT''\<rparr>"

definition errorObject :: "thrown \<Rightarrow> live_error" where
  "errorObject t = (case t of IsError e \<Rightarrow> e
     | Other v \<Rightarrow> \<lparr>errMessage = Lit (if truthy v \<and> truthy (jget v ''message'') then toStr (jget v ''message'')
           else if nullish v then ''Unknown RPC failure'' else toStr v),
         errCode = (if truthy v \<and> typeofObject v then jget v ''code'' else JUndef)\<rparr>)"

section \<open>Clocks of the samples\<close>

definition sampleTime :: "jval \<Rightarrow> rat option" where
  "sampleTime v = (if nullish v \<or> v = JStr [] then None
     else (case toNum v of Fin q \<Rightarrow> if 0 \<le> q then Some q else None | _ \<Rightarrow> None))"

fun laterOf :: "rat option \<Rightarrow> rat option \<Rightarrow> rat option" where
  "laterOf latest None = latest"
| "laterOf None (Some c) = Some c"
| "laterOf (Some l) (Some c) = Some (if c > l then c else l)"

definition maxSampleClock :: "jval list \<Rightarrow> rat option" where
  "maxSampleClock rows = foldl laterOf None (map (\<lambda>item. sampleTime (jfield item ''sample_ms'')) rows)"

definition maxRateMetaClock :: "jval list \<Rightarrow> rat option" where
  "maxRateMetaClock rows = foldl laterOf None (concat (map (\<lambda>item. let meta = jfield item ''rate_meta'' in
     map (\<lambda>d. sampleTime (jfield (jfield meta d) ''sample_ms'')) [''tx'', ''rx'']) rows))"

definition evidenceOf :: "jval \<Rightarrow> jval" where
  "evidenceOf d = jor (jfield d ''evidence'') (JObj [])"

definition evidenceCollector :: "jval \<Rightarrow> jval" where
  "evidenceCollector d = jor (jget (evidenceOf d) ''effective_collector'')
     (jor (jfield (jget (evidenceOf d) ''collector'') ''primary_source'') (JStr []))"

definition collectorSampleClock :: "jval \<Rightarrow> rat option" where
  "collectorSampleClock d = (let evidence = evidenceOf d; collector = evidenceCollector d in
     if collector = JStr ''nss_ecm_bpf'' then
       (case sampleTime (jfield (jget evidence ''ecm_bpf_rate_window'') ''window_end_ms'') of Some t \<Rightarrow> Some t
        | None \<Rightarrow> sampleTime (jfield (jget evidence ''ecm_bpf'') ''sample_ms''))
     else if collector = JStr ''nss_ecm_node'' then sampleTime (jfield (jget evidence ''nss_window'') ''window_end_ms'')
     else if collector = JStr ''bpf'' then sampleTime (jfield (jget evidence ''bpf'') ''last_complete_snapshot_ms'')
     else None)"

text \<open>\<open>String(x || '')\<close> of a mode of the status.\<close>

definition modeField :: "jval \<Rightarrow> string \<Rightarrow> string" where
  "modeField d k = toStr (jor (jfield d k) (JStr []))"

definition routedView :: "jval \<Rightarrow> bool" where
  "routedView status \<longleftrightarrow> nssPlatform status \<and> modeField status ''internet_view_mode'' = ''routed''"

definition edgeSelected :: "jval \<Rightarrow> bool" where
  "edgeSelected status \<longleftrightarrow> nssPlatform status \<and> modeField status ''access_edge_mode'' = ''active''"

definition edgeTime :: "jval \<Rightarrow> rat option" where
  "edgeTime d = sampleTime (jfield (jfield (jfield d ''evidence'') ''access_edge'') ''sample_ms'')"

text \<open>\<open>statusBatch\<close>: the clock of the status and whether it reports coverage.\<close>

definition statusBatch :: "jval \<Rightarrow> rat option \<times> bool" where
  "statusBatch d = (if routedView d then None
       else (case edgeTime d of Some t \<Rightarrow> Some t
         | None \<Rightarrow> if edgeSelected d then None else collectorSampleClock d),
     truthy d \<and> truthy (jget d ''coverage'') \<and> typeofObject (jget d ''coverage''))"

definition clientCollector :: "jval \<Rightarrow> jval \<Rightarrow> jval" where
  "clientCollector d status = (let c = evidenceCollector d in
     if \<not> nssPlatform status \<and> (c = JStr ''nss_ecm_node'' \<or> c = JStr ''nss_ecm_bpf'') then JStr ''bpf'' else c)"

definition hasRate :: "jval \<Rightarrow> jval \<Rightarrow> jval \<Rightarrow> bool" where
  "hasRate d status item = (let mode = toStr (jor (jfield item ''collector_mode'') (JStr []));
       collector = clientCollector d status
     in if routedView status then routedCollector (jfield item ''rate_meta'') \<noteq> []
        else if edgeSelected status then mode = ''access_edge'' \<or> truthy (jfield item ''rate_meta'')
        else if truthy collector then JStr mode = collector
        else if nssPlatform status then mode \<in> {''access_edge'', ''bpf'', ''nss_ecm_node'', ''nss_ecm_bpf''}
        else mode = ''bpf'')"

definition clientBatch :: "jval \<Rightarrow> jval \<Rightarrow> rat option \<times> bool" where
  "clientBatch d0 status = (let d = jor d0 (JObj []); rows = filter (hasRate d status) (arrItems (jget d ''clients''));
       edgeClock = (if edgeSelected status \<and> \<not> routedView status then edgeTime d else None)
     in (case edgeClock of Some t \<Rightarrow> Some t
         | None \<Rightarrow> if routedView status then maxRateMetaClock rows
             else (case collectorSampleClock d of Some t \<Rightarrow> Some t | None \<Rightarrow> maxSampleClock rows), rows \<noteq> []))"

definition interfaceBatch :: "jval \<Rightarrow> rat option" where
  "interfaceBatch d0 = (let d = jor d0 (JObj []) in
     case sampleTime (jget d ''monotonic_ms'') of Some t \<Rightarrow> Some t
     | None \<Rightarrow> maxSampleClock (arrItems (jget d ''interfaces'')))"

section \<open>Samples that belong together\<close>

record live_pair =
  lpCoverage :: "rat option"
  lpClient :: "rat option"
  lpInterface :: "rat option"
  lpSample :: "rat option"
  lpAligned :: "bool option"
  lpHasCoverage :: bool
  lpHasRates :: bool
  lpRetained :: bool
  lpRenderable :: bool
  lpPending :: "(rat option \<times> rat option \<times> rat option) option"

definition sampleSkew :: "jval \<Rightarrow> rat" where
  "sampleSkew status = (if edgeSelected status \<and> \<not> routedView status then ACCESS_EDGE_SAMPLE_SKEW_MS
     else if routedView status then 2500 else 0)"

definition sampleClocks :: "jval \<Rightarrow> jval \<Rightarrow> jval \<Rightarrow> rat list" where
  "sampleClocks status clients interfaces = List.map_filter id
     [fst (statusBatch status), fst (clientBatch clients status), interfaceBatch interfaces]"

definition livePair :: "jval \<Rightarrow> jval \<Rightarrow> jval \<Rightarrow> live_pair" where
  "livePair status clients interfaces = (let s = statusBatch status; c = clientBatch clients status;
       i = interfaceBatch interfaces; clocks = sampleClocks status clients interfaces;
       comparable = (1 < length clocks);
       aligned = (\<not> comparable \<or> list_all (\<lambda>t. \<bar>t - hd clocks\<bar> \<le> sampleSkew status) clocks)
     in \<lparr>lpCoverage = fst s, lpClient = fst c, lpInterface = i,
          lpSample = (if aligned then (if i \<noteq> None then i else if fst c \<noteq> None then fst c else fst s) else None),
          lpAligned = (if comparable then Some aligned else None), lpHasCoverage = snd s, lpHasRates = snd c,
          lpRetained = False, lpRenderable = False, lpPending = None\<rparr>)"

definition nssAccessEdgeRenderable :: "jval \<Rightarrow> live_pair \<Rightarrow> bool" where
  "nssAccessEdgeRenderable status p \<longleftrightarrow> edgeSelected status \<and>
     modeField status ''internet_view_mode'' \<noteq> ''routed'' \<and> lpHasRates p"

section \<open>The data of the page\<close>

record rpc_state =
  rpcOk :: bool
  rpcRetained :: bool
  rpcCached :: bool
  rpcFailure :: "live_error option"
  rpcCheckedAt :: int
  rpcLastSuccessAt :: int

record page_data =
  dStatus :: jval
  dClients :: jval
  dInterfaces :: jval
  dUci :: jval
  dRpc :: "(string \<times> rpc_state) list"
  dCheckedAt :: int
  dPair :: "live_pair option"
  dShowClientStatus :: bool
  dShowIpv6 :: bool
  dHidePrivateIpv6 :: bool
  dHideIpv6Ranges :: string
  dError :: "live_error option"
  dDegraded :: bool
  dHardFailure :: bool

definition sourceOf :: "page_data \<Rightarrow> string \<Rightarrow> jval" where
  "sourceOf p key = (if key = ''status'' then dStatus p else if key = ''clients'' then dClients p
     else if key = ''interfaces'' then dInterfaces p else if key = ''uci'' then dUci p else JUndef)"

definition hasPreviousSuccess :: "page_data option \<Rightarrow> string \<Rightarrow> bool" where
  "hasPreviousSuccess previous key = (case previous of None \<Rightarrow> False | Some p \<Rightarrow>
     (case map_of (dRpc p) key of None \<Rightarrow> False | Some s \<Rightarrow> rpcOk s \<or> 0 < rpcLastSuccessAt s))"

definition previousValue :: "page_data option \<Rightarrow> string \<Rightarrow> jval" where
  "previousValue previous key = (case previous of None \<Rightarrow> emptySource key
     | Some p \<Rightarrow> if nullish (sourceOf p key) then emptySource key else sourceOf p key)"

definition failedKeys :: "(string \<times> rpc_state) list \<Rightarrow> string list" where
  "failedKeys rpc = filter (\<lambda>k. case map_of rpc k of None \<Rightarrow> False | Some s \<Rightarrow> \<not> rpcOk s) SOURCE_KEYS"

definition retainedKey :: "(string \<times> rpc_state) list \<Rightarrow> string \<Rightarrow> bool" where
  "retainedKey rpc k = (case map_of rpc k of None \<Rightarrow> False | Some s \<Rightarrow> rpcRetained s)"

definition hardFailureOf :: "(string \<times> rpc_state) list \<Rightarrow> bool" where
  "hardFailureOf rpc \<longleftrightarrow> length (failedKeys rpc) = length SOURCE_KEYS \<and> list_all (\<lambda>k. \<not> retainedKey rpc k) (failedKeys rpc)"

definition firstError :: "(string \<times> rpc_state) list \<Rightarrow> live_error option" where
  "firstError rpc = (case List.map_filter (\<lambda>k. case map_of rpc k of None \<Rightarrow> None | Some s \<Rightarrow> rpcFailure s) (failedKeys rpc) of
     [] \<Rightarrow> None | e # _ \<Rightarrow> Some e)"

definition normalizeData :: "page_data \<Rightarrow> page_data" where
  "normalizeData d = (let u = jor (dUci d) (JObj []); hard = hardFailureOf (dRpc d) in d\<lparr>
     dStatus := jor (dStatus d) (JObj []), dClients := jor (dClients d) (emptySource ''clients''),
     dInterfaces := jor (dInterfaces d) (emptySource ''interfaces''), dUci := u,
     dShowClientStatus := (jget u ''show_client_status'' = JStr ''1''), dShowIpv6 := (jget u ''show_ipv6'' \<noteq> JStr ''0''),
     dHidePrivateIpv6 := (jget u ''hide_private_ipv6'' = JStr ''1''),
     dHideIpv6Ranges := hideIpv6RangesValue (jget u ''hide_ipv6_ranges''),
     dError := firstError (dRpc d), dDegraded := (failedKeys (dRpc d) \<noteq> [] \<and> \<not> hard), dHardFailure := hard\<rparr>)"

definition emptyPage :: page_data where
  "emptyPage = \<lparr>dStatus = JObj [], dClients = emptySource ''clients'', dInterfaces = emptySource ''interfaces'',
     dUci = JObj [], dRpc = [], dCheckedAt = 0, dPair = None, dShowClientStatus = False, dShowIpv6 = True,
     dHidePrivateIpv6 = False, dHideIpv6Ranges = [], dError = None, dDegraded = False, dHardFailure = False\<rparr>"

section \<open>Showing one batch\<close>

definition pairOf :: "page_data \<Rightarrow> live_pair" where
  "pairOf p = livePair (dStatus p) (dClients p) (dInterfaces p)"

definition oldPairOf :: "page_data option \<Rightarrow> live_pair" where
  "oldPairOf previous = (case previous of None \<Rightarrow> livePair JUndef JUndef JUndef
     | Some p \<Rightarrow> (case dPair p of Some q \<Rightarrow> q | None \<Rightarrow> pairOf p))"

text \<open>\<open>Object.assign({}, status)\<close> with \<open>coverage\<close> set to null.\<close>

definition withoutCoverage :: "jval \<Rightarrow> jval" where
  "withoutCoverage status = JObj (putProp ''coverage'' JNull (case jor status (JObj []) of JObj ps \<Rightarrow> ps | _ \<Rightarrow> []))"

definition clearedPage :: "page_data \<Rightarrow> page_data" where
  "clearedPage p = p\<lparr>dStatus := withoutCoverage (dStatus p), dClients := emptySource ''clients'',
     dInterfaces := emptySource ''interfaces''\<rparr>"

definition retainedPage :: "page_data option \<Rightarrow> page_data \<Rightarrow> page_data" where
  "retainedPage previous p = p\<lparr>dStatus := previousValue previous ''status'',
     dClients := previousValue previous ''clients'', dInterfaces := previousValue previous ''interfaces''\<rparr>"

definition canRetain :: "page_data option \<Rightarrow> bool" where
  "canRetain previous \<longleftrightarrow> previous \<noteq> None \<and> lpAligned (oldPairOf previous) \<noteq> Some False"

definition alignLiveSamples :: "page_data \<Rightarrow> page_data option \<Rightarrow> page_data" where
  "alignLiveSamples nxt previous = (let p = pairOf nxt in
     if lpAligned p \<noteq> Some False then nxt\<lparr>dPair := Some p\<rparr>
     else (let retain = canRetain previous; cold = (\<not> retain \<and> nssAccessEdgeRenderable (dStatus nxt) p);
         shown = (if retain then retainedPage previous nxt else if cold then nxt else clearedPage nxt);
         visible = (if cold then p else oldPairOf previous)
       in shown\<lparr>dPair := Some (visible\<lparr>lpRetained := retain, lpRenderable := cold,
         lpPending := Some (lpCoverage p, lpClient p, lpInterface p)\<rparr>)\<rparr>))"

section \<open>One source\<close>

text \<open>
  The first event of a call settles it: its value, its rejection or its timer. \<open>sourceSettled\<close>
  is the value its promise has after a list of events with the clock at each of them.
\<close>

datatype call_event = Answered jval | Threw thrown | TimedOut

record source_result =
  srKey :: string
  srValue :: jval
  srRpc :: rpc_state

definition requestTimeout :: "jnum \<Rightarrow> rat" where
  "requestTimeout n = (case n of Fin q \<Rightarrow> if 0 < q then q else LIVE_RPC_TIMEOUT_MS | _ \<Rightarrow> LIVE_RPC_TIMEOUT_MS)"

definition lastSuccess :: "page_data option \<Rightarrow> string \<Rightarrow> int" where
  "lastSuccess previous key = (case previous of None \<Rightarrow> 0 | Some p \<Rightarrow>
     (case map_of (dRpc p) key of None \<Rightarrow> 0 | Some s \<Rightarrow> rpcLastSuccessAt s))"

definition failedSource :: "string \<Rightarrow> page_data option \<Rightarrow> live_error \<Rightarrow> int \<Rightarrow> source_result" where
  "failedSource key previous e checked = (let retained = hasPreviousSuccess previous key in
     \<lparr>srKey = key, srValue = (if retained then previousValue previous key else emptySource key),
      srRpc = \<lparr>rpcOk = False, rpcRetained = retained, rpcCached = False, rpcFailure = Some e, rpcCheckedAt = checked,
        rpcLastSuccessAt = (if retained then lastSuccess previous key else 0)\<rparr>\<rparr>)"

definition goodSource :: "string \<Rightarrow> jval \<Rightarrow> int \<Rightarrow> source_result" where
  "goodSource key v checked = \<lparr>srKey = key, srValue = v, srRpc = \<lparr>rpcOk = True, rpcRetained = False,
     rpcCached = False, rpcFailure = None, rpcCheckedAt = checked, rpcLastSuccessAt = checked\<rparr>\<rparr>"

definition eventResult :: "string \<Rightarrow> page_data option \<Rightarrow> int \<Rightarrow> call_event \<Rightarrow> int \<Rightarrow> source_result" where
  "eventResult key previous startedAt ev now = (let checked = max now startedAt in case ev of
       Answered v \<Rightarrow> if sourceIsValid key v then goodSource key v checked
         else failedSource key previous (invalidResponseError key) checked
     | Threw t \<Rightarrow> failedSource key previous (errorObject t) checked
     | TimedOut \<Rightarrow> failedSource key previous (timeoutError key) checked)"

definition sourceSettled :: "string \<Rightarrow> page_data option \<Rightarrow> int \<Rightarrow> (call_event \<times> int) list \<Rightarrow> source_result option" where
  "sourceSettled key previous startedAt evs = (case evs of [] \<Rightarrow> None
     | (ev, now) # _ \<Rightarrow> Some (eventResult key previous startedAt ev now))"

section \<open>One refresh\<close>

definition storeSource :: "source_result \<Rightarrow> page_data \<Rightarrow> page_data" where
  "storeSource r p = (let k = srKey r; v = srValue r in
     p\<lparr>dStatus := (if k = ''status'' then v else dStatus p), dClients := (if k = ''clients'' then v else dClients p),
       dInterfaces := (if k = ''interfaces'' then v else dInterfaces p), dUci := (if k = ''uci'' then v else dUci p),
       dRpc := putAssoc k (srRpc r) (dRpc p), dCheckedAt := max (dCheckedAt p) (rpcCheckedAt (srRpc r))\<rparr>)"

definition aggregateResults :: "source_result list \<Rightarrow> int \<Rightarrow> page_data" where
  "aggregateResults results checkedAt = normalizeData (foldl (\<lambda>p r. storeSource r p) (emptyPage\<lparr>dCheckedAt := checkedAt\<rparr>) results)"

text \<open>How each call of a refresh ends: when it started, its first event and the clock then.\<close>

type_synonym calls = "string \<Rightarrow> int \<times> call_event \<times> int"

record round_calls =
  rdStartedAt :: int
  rdHasRealtime :: bool
  rdRealtime :: "int \<times> call_event \<times> int"
  rdUci :: "int \<times> call_event \<times> int"
  rdLegacyAt :: int
  rdFirst :: calls
  rdSecond :: calls

definition callResult :: "string \<Rightarrow> page_data option \<Rightarrow> int \<times> call_event \<times> int \<Rightarrow> source_result" where
  "callResult key previous c = (case c of (startedAt, ev, now) \<Rightarrow> eventResult key previous startedAt ev now)"

definition loadLegacy :: "page_data option \<Rightarrow> round_calls \<Rightarrow> page_data" where
  "loadLegacy previous rd = (
     let results = map (\<lambda>k. callResult k previous (rdFirst rd k)) SOURCE_KEYS;
         nxt = aggregateResults results (rdLegacyAt rd); p = pairOf nxt;
         liveSucceeded = list_all (\<lambda>k. case map_of (dRpc nxt) k of None \<Rightarrow> False | Some s \<Rightarrow> rpcOk s) LIVE_SOURCE_KEYS
     in if lpAligned p \<noteq> Some False \<or> \<not> liveSucceeded \<or> nssAccessEdgeRenderable (dStatus nxt) p
        then alignLiveSamples nxt previous
        else alignLiveSamples (aggregateResults
            (map (\<lambda>k. callResult k (Some nxt) (rdSecond rd k)) LIVE_SOURCE_KEYS @
             filter (\<lambda>r. srKey r = ''uci'') results) (rdLegacyAt rd)) previous)"

definition cachedUci :: "page_data option \<Rightarrow> int \<times> call_event \<times> int \<Rightarrow> source_result" where
  "cachedUci previous c = (if \<not> hasPreviousSuccess previous ''uci'' then callResult ''uci'' previous c
     else (let now = fst c; old = lastSuccess previous ''uci'' in
       \<lparr>srKey = ''uci'', srValue = previousValue previous ''uci'', srRpc = \<lparr>rpcOk = True, rpcRetained = False,
         rpcCached = True, rpcFailure = None, rpcCheckedAt = now, rpcLastSuccessAt = (if old \<noteq> 0 then old else now)\<rparr>\<rparr>))"

definition bundledResult :: "string \<Rightarrow> source_result \<Rightarrow> source_result" where
  "bundledResult key r = \<lparr>srKey = key, srValue = jget (srValue r) key, srRpc = srRpc r\<rparr>"

definition loadRealtime :: "page_data option \<Rightarrow> round_calls \<Rightarrow> page_data" where
  "loadRealtime previous rd = (let r = callResult ''realtime'' previous (rdRealtime rd); u = cachedUci previous (rdUci rd) in
     if \<not> rpcOk (srRpc r) then loadLegacy previous rd
     else alignLiveSamples (aggregateResults (map (\<lambda>k. bundledResult k r) LIVE_SOURCE_KEYS @ [u]) (rdStartedAt rd)) previous)"

definition loadAll :: "page_data option \<Rightarrow> round_calls \<Rightarrow> page_data" where
  "loadAll previous rd = (if rdHasRealtime rd then loadRealtime previous rd else loadLegacy previous rd)"

text \<open>When the loader itself throws, every source counts as failed.\<close>

definition failureData :: "page_data option \<Rightarrow> thrown \<Rightarrow> int \<Rightarrow> page_data" where
  "failureData previous e now = alignLiveSamples
     (aggregateResults (map (\<lambda>k. failedSource k previous (errorObject e) now) SOURCE_KEYS) now) previous"

section \<open>Every source is well-formed\<close>

definition pageValid :: "page_data \<Rightarrow> bool" where
  "pageValid p \<longleftrightarrow> list_all (\<lambda>k. plainSource k (sourceOf p k)) SOURCE_KEYS"

lemma isObject_iff: "isObject v \<longleftrightarrow> (\<exists>ps. v = JObj ps)"
  by (cases v) (auto simp: isObject_def)

lemma plainSource_object: "plainSource k v \<Longrightarrow> \<exists>ps. v = JObj ps"
  by (simp add: plainSource_def isObject_iff)

lemma plainSource_or [simp]: "plainSource k v \<Longrightarrow> jor v w = v" "plainSource k v \<Longrightarrow> \<not> nullish v"
  by (auto dest!: plainSource_object simp: jor_def nullish_def)

lemma plainSource_empty [simp]: "plainSource k (emptySource k)"
  by (auto simp: plainSource_def emptySource_def isObject_def jget.simps)

lemma pageValid_iff: "pageValid p \<longleftrightarrow> plainSource ''status'' (dStatus p) \<and> plainSource ''clients'' (dClients p) \<and>
    plainSource ''interfaces'' (dInterfaces p) \<and> plainSource ''uci'' (dUci p)"
  by (simp add: pageValid_def SOURCE_KEYS_def sourceOf_def)

lemma previousValue_valid:
  assumes "\<And>p. previous = Some p \<Longrightarrow> pageValid p" "key \<in> set SOURCE_KEYS"
  shows "plainSource key (previousValue previous key)"
  using assms by (auto simp: previousValue_def pageValid_def list_all_iff split: option.splits)

lemma failedSource_valid:
  assumes "\<And>p. previous = Some p \<Longrightarrow> pageValid p" "key \<in> set SOURCE_KEYS"
  shows "plainSource key (srValue (failedSource key previous e c))"
  using previousValue_valid [OF assms] by (simp add: failedSource_def Let_def)

lemma failedSource_key [simp]: "srKey (failedSource k p e c) = k" "\<not> rpcOk (srRpc (failedSource k p e c))"
  by (simp_all add: failedSource_def Let_def)

lemma eventResult_key [simp]: "srKey (eventResult k p s e n) = k"
  by (simp add: eventResult_def Let_def goodSource_def split: call_event.splits)

lemma eventResult_valid:
  assumes "\<And>p. previous = Some p \<Longrightarrow> pageValid p" "key \<in> set SOURCE_KEYS"
  shows "plainSource key (srValue (eventResult key previous s e n))"
proof -
  have "key \<noteq> ''realtime''" using assms(2) by (auto simp: SOURCE_KEYS_def)
  then show ?thesis using failedSource_valid [OF assms]
    by (simp add: eventResult_def Let_def goodSource_def sourceIsValid_def split: call_event.splits)
qed

lemma eventResult_realtime:
  "rpcOk (srRpc (eventResult key p s e n)) \<Longrightarrow> sourceIsValid key (srValue (eventResult key p s e n))"
  by (auto simp: eventResult_def Let_def goodSource_def split: call_event.splits if_splits)

lemma storeSource_valid:
  "pageValid p \<Longrightarrow> plainSource (srKey r) (srValue r) \<Longrightarrow> pageValid (storeSource r p)"
  by (auto simp: storeSource_def Let_def pageValid_iff)

lemma storeSources_valid:
  "pageValid p \<Longrightarrow> list_all (\<lambda>r. plainSource (srKey r) (srValue r)) rs \<Longrightarrow> pageValid (foldl (\<lambda>p r. storeSource r p) p rs)"
  by (induction rs arbitrary: p) (simp_all add: storeSource_valid)

lemma emptyPage_valid [simp]: "pageValid (emptyPage\<lparr>dCheckedAt := c\<rparr>)"
  by (simp add: pageValid_iff emptyPage_def) (simp add: plainSource_def isObject_def)

lemma normalizeData_fields [simp]:
  assumes "pageValid p"
  shows "dStatus (normalizeData p) = dStatus p" "dClients (normalizeData p) = dClients p"
    "dInterfaces (normalizeData p) = dInterfaces p" "dUci (normalizeData p) = dUci p"
    "dPair (normalizeData p) = dPair p" "dRpc (normalizeData p) = dRpc p" "pageValid (normalizeData p)"
  using assms by (auto simp: normalizeData_def Let_def pageValid_iff)

lemma aggregateResults_valid:
  "list_all (\<lambda>r. plainSource (srKey r) (srValue r)) rs \<Longrightarrow> pageValid (aggregateResults rs c)"
  by (simp add: aggregateResults_def storeSources_valid)

section \<open>Samples shown together belong together\<close>

text \<open>Two clocks of what the page shows differ by at most twice the skew its mode allows.\<close>

definition samplesCoherent :: "page_data \<Rightarrow> bool" where
  "samplesCoherent p \<longleftrightarrow> lpAligned (pairOf p) \<noteq> Some False \<or> nssAccessEdgeRenderable (dStatus p) (pairOf p)"

definition pairTruthful :: "page_data \<Rightarrow> bool" where
  "pairTruthful p \<longleftrightarrow> (lpAligned (oldPairOf (Some p)) \<noteq> Some False \<longrightarrow> lpAligned (pairOf p) \<noteq> Some False)"

definition pageInv :: "page_data \<Rightarrow> bool" where
  "pageInv p \<longleftrightarrow> pageValid p \<and> samplesCoherent p \<and> pairTruthful p"

lemma laterOf_None: "list_all (\<lambda>c. c = None) cs \<Longrightarrow> foldl laterOf None cs = None"
  by (induction cs) auto

lemma batch_empty:
  "fst (clientBatch (emptySource ''clients'') status) = None" "interfaceBatch (emptySource ''interfaces'') = None"
  by (simp_all add: clientBatch_def interfaceBatch_def emptySource_def jor_def jget.simps Let_def edgeTime_def jfield_def
      sampleTime_def nullish_def collectorSampleClock_def evidenceCollector_def evidenceOf_def maxSampleClock_def
      maxRateMetaClock_def protoKeys_def split: option.splits)

lemma cleared_aligned: "lpAligned (pairOf (clearedPage p)) = None"
  by (simp add: pairOf_def clearedPage_def livePair_def sampleClocks_def batch_empty Let_def List.map_filter_simps split: option.splits)

lemma pairOf_dPair [simp]: "pairOf (p\<lparr>dPair := q\<rparr>) = pairOf p"
  by (simp add: pairOf_def)

lemma pageValid_dPair [simp]: "pageValid (p\<lparr>dPair := q\<rparr>) = pageValid p"
  by (simp add: pageValid_iff)

lemma clearedPage_valid: "pageValid p \<Longrightarrow> pageValid (clearedPage p)"
  by (auto simp: pageValid_iff clearedPage_def) (simp add: plainSource_def isObject_def withoutCoverage_def)

lemma retainedPage_prev:
  assumes "pageValid p" "pageValid nxt"
  shows "pairOf (retainedPage (Some p) nxt) = pairOf p" "pageValid (retainedPage (Some p) nxt)"
    "dStatus (retainedPage (Some p) nxt) = dStatus p"
proof -
  have "\<not> nullish (dStatus p)" "\<not> nullish (dClients p)" "\<not> nullish (dInterfaces p)"
    using assms(1) plainSource_or(2) unfolding pageValid_iff by blast+
  then show "pairOf (retainedPage (Some p) nxt) = pairOf p" "pageValid (retainedPage (Some p) nxt)"
      "dStatus (retainedPage (Some p) nxt) = dStatus p"
    using assms by (simp_all add: pairOf_def retainedPage_def previousValue_def sourceOf_def pageValid_iff)
qed

lemma alignLiveSamples_inv:
  assumes nxt: "pageValid nxt" and prev: "\<And>p. previous = Some p \<Longrightarrow> pageInv p"
  shows "pageInv (alignLiveSamples nxt previous)"
proof (cases "lpAligned (pairOf nxt) = Some False")
  case False
  then show ?thesis using nxt
    by (simp add: alignLiveSamples_def Let_def pageInv_def samplesCoherent_def pairTruthful_def)
next
  case True
  let ?cold = "nssAccessEdgeRenderable (dStatus nxt) (pairOf nxt)"
  show ?thesis
  proof (cases "canRetain previous")
    case retain: True
    then obtain p where p: "previous = Some p" "lpAligned (oldPairOf (Some p)) \<noteq> Some False"
      by (auto simp: canRetain_def)
    then have inv: "pageInv p" by (simp add: prev)
    then have "lpAligned (pairOf p) \<noteq> Some False" using p(2) by (simp add: pageInv_def pairTruthful_def)
    then show ?thesis
      using True retain p inv nxt retainedPage_prev [of p nxt]
      by (simp add: alignLiveSamples_def Let_def pageInv_def samplesCoherent_def pairTruthful_def)
  next
    case drop: False
    show ?thesis
      using True drop nxt clearedPage_valid [OF nxt] cleared_aligned [of nxt]
      by (cases ?cold) (simp_all add: alignLiveSamples_def Let_def pageInv_def samplesCoherent_def pairTruthful_def oldPairOf_def)
  qed
qed

lemma loadLegacy_inv:
  assumes prev: "\<And>p. previous = Some p \<Longrightarrow> pageInv p"
  shows "pageInv (loadLegacy previous rd)"
proof -
  have pv: "previous = Some p \<Longrightarrow> pageValid p" for p using prev by (simp add: pageInv_def)
  define rs where "rs = map (\<lambda>k. callResult k previous (rdFirst rd k)) SOURCE_KEYS"
  define nxt where "nxt = aggregateResults rs (rdLegacyAt rd)"
  have rs: "list_all (\<lambda>r. plainSource (srKey r) (srValue r)) rs"
    using eventResult_valid [OF pv] by (auto simp: rs_def list_all_iff callResult_def split: prod.splits)
  then have nv: "pageValid nxt" unfolding nxt_def by (rule aggregateResults_valid)
  have "list_all (\<lambda>r. plainSource (srKey r) (srValue r)) (map (\<lambda>k. callResult k (Some nxt) (rdSecond rd k)) LIVE_SOURCE_KEYS @
      filter (\<lambda>r. srKey r = ''uci'') rs)"
    using rs eventResult_valid [where previous = "Some nxt"] nv
    by (auto simp: list_all_iff callResult_def LIVE_SOURCE_KEYS_def SOURCE_KEYS_def split: prod.splits)
  then have "pageValid (aggregateResults (map (\<lambda>k. callResult k (Some nxt) (rdSecond rd k)) LIVE_SOURCE_KEYS @
      filter (\<lambda>r. srKey r = ''uci'') rs) (rdLegacyAt rd))" by (rule aggregateResults_valid)
  then show ?thesis using alignLiveSamples_inv [OF _ prev] nv
    unfolding loadLegacy_def rs_def [symmetric] Let_def nxt_def [symmetric] by simp
qed

lemma loadRealtime_inv:
  assumes prev: "\<And>p. previous = Some p \<Longrightarrow> pageInv p"
  shows "pageInv (loadRealtime previous rd)"
proof -
  have pv: "previous = Some p \<Longrightarrow> pageValid p" for p using prev by (simp add: pageInv_def)
  define r where "r = callResult ''realtime'' previous (rdRealtime rd)"
  have u: "plainSource ''uci'' (srValue (cachedUci previous c)) \<and> srKey (cachedUci previous c) = ''uci''" for c
    using eventResult_valid [OF pv, where key = "''uci''"] previousValue_valid [OF pv, where key = "''uci''"]
    by (auto simp: cachedUci_def callResult_def SOURCE_KEYS_def Let_def split: prod.splits)
  have "rpcOk (srRpc r) \<Longrightarrow> sourceIsValid ''realtime'' (srValue r)"
    using eventResult_realtime unfolding r_def callResult_def by (auto split: prod.splits)
  then have "rpcOk (srRpc r) \<Longrightarrow> pageValid (aggregateResults (map (\<lambda>k. bundledResult k r) LIVE_SOURCE_KEYS @
      [cachedUci previous (rdUci rd)]) (rdStartedAt rd))"
    using u by (intro aggregateResults_valid) (auto simp: LIVE_SOURCE_KEYS_def bundledResult_def sourceIsValid_def)
  then show ?thesis using alignLiveSamples_inv [OF _ prev] loadLegacy_inv [OF prev]
    unfolding loadRealtime_def r_def [symmetric] Let_def by simp
qed

lemma loadAll_inv: "(\<And>p. previous = Some p \<Longrightarrow> pageInv p) \<Longrightarrow> pageInv (loadAll previous rd)"
  by (simp add: loadAll_def loadRealtime_inv loadLegacy_inv)

lemma failureData_inv:
  assumes prev: "\<And>p. previous = Some p \<Longrightarrow> pageInv p"
  shows "pageInv (failureData previous e now)"
proof -
  have pv: "previous = Some p \<Longrightarrow> pageValid p" for p using prev by (simp add: pageInv_def)
  show ?thesis unfolding failureData_def
    using failedSource_valid [OF pv] by (intro alignLiveSamples_inv aggregateResults_valid prev) (auto simp: list_all_iff)
qed

end
