(* ===== verification/LiveController.thy ===== *)
theory LiveController
  imports LiveData
begin

text \<open>
  The refresh loop of the overview: \<open>createController\<close> of \<open>lanspeed/statusOverview.js\<close>, the
  availability notice of \<open>lanspeed/statusRefresh.js\<close> and the controls of
  \<open>lanspeed/statusShell.js\<close> that act on the loop. One step is one event of the browser: a click,
  a timer, the end of a request, the page being hidden or left. Clocks are natural numbers.
\<close>

section \<open>Availability\<close>

definition ERROR_NOTICE_MS :: int where "ERROR_NOTICE_MS = 3000"

definition sampleSyncPending :: "page_data \<Rightarrow> bool" where
  "sampleSyncPending d = (case dPair d of None \<Rightarrow> False
     | Some p \<Rightarrow> if lpRetained p \<or> lpAligned p = Some True \<or> lpRenderable p then False else lpPending p \<noteq> None)"

definition hardNow :: "page_data \<Rightarrow> bool" where
  "hardNow d \<longleftrightarrow> dHardFailure d \<or> hardFailureOf (dRpc d)"

definition liveUnavailable :: "page_data \<Rightarrow> bool" where
  "liveUnavailable d \<longleftrightarrow> truthy (jget (dStatus d) ''capabilities'') \<and>
     jget (jget (dStatus d) ''capabilities'') ''live_metrics'' = JBool False"

definition samplePending :: "page_data \<Rightarrow> bool" where
  "samplePending d \<longleftrightarrow> failedKeys (dRpc d) = [] \<and> \<not> liveUnavailable d \<and> sampleSyncPending d"

text \<open>The attribute \<open>data-state\<close> of the page.\<close>

definition pageAttribute :: "page_data \<Rightarrow> string" where
  "pageAttribute d = (if samplePending d then ''loading''
     else if hardNow d \<or> liveUnavailable d \<and> jget (dStatus d) ''mode'' = JStr ''Unsupported'' then ''bad''
     else if failedKeys (dRpc d) \<noteq> [] \<or> liveUnavailable d then ''warning'' else ''good'')"

definition noticeSignature :: "page_data \<Rightarrow> string option" where
  "noticeSignature d = (if failedKeys (dRpc d) = [] then None
     else Some ((if hardNow d then ''hard:'' else ''partial:'') @ joinStr '','' (failedKeys (dRpc d))))"

section \<open>The controller\<close>

record request =
  rqSeq :: nat
  rqStartedAt :: nat
  rqPrevious :: page_data

record overview =
  oData :: page_data
  oPrefs :: props
  oLoading :: bool
  oManualBusy :: bool
  oPending :: "nat option"
  oSeq :: nat
  oRequests :: "request list"
  oTimer :: "jnum option"
  oHolds :: nat
  oSignature :: "string option"
  oNoticeVisible :: bool
  oNoticeUntil :: int
  oNoticeTimer :: "int option"
  oDestroyed :: bool

definition isPaused :: "overview \<Rightarrow> bool" where
  "isPaused v \<longleftrightarrow> truthy (jget (JObj (oPrefs v)) ''paused'')"

definition stopTimer :: "overview \<Rightarrow> overview" where
  "stopTimer v = v\<lparr>oTimer := None\<rparr>"

definition clearErrorNoticeTimer :: "overview \<Rightarrow> overview" where
  "clearErrorNoticeTimer v = v\<lparr>oNoticeTimer := None\<rparr>"

definition scheduleErrorNoticeHide :: "nat \<Rightarrow> overview \<Rightarrow> overview" where
  "scheduleErrorNoticeHide now v = (let u = clearErrorNoticeTimer v in
     if oNoticeUntil u = 0 then u else u\<lparr>oNoticeTimer := Some (max 0 (oNoticeUntil u - int now))\<rparr>)"

definition triggerErrorNotice :: "nat \<Rightarrow> overview \<Rightarrow> overview" where
  "triggerErrorNotice now v = scheduleErrorNoticeHide now (v\<lparr>oNoticeVisible := True,
     oNoticeUntil := int now + ERROR_NOTICE_MS\<rparr>)"

text \<open>\<open>refreshAvailability\<close>, which every redraw runs: the state of the notice follows the failed sources.\<close>

definition refreshAvailability :: "nat \<Rightarrow> overview \<Rightarrow> overview" where
  "refreshAvailability now v = (case noticeSignature (oData v) of
     None \<Rightarrow> clearErrorNoticeTimer (v\<lparr>oSignature := None, oNoticeVisible := True, oNoticeUntil := 0\<rparr>)
   | Some sig \<Rightarrow> if oSignature v \<noteq> Some sig then triggerErrorNotice now (v\<lparr>oSignature := Some sig\<rparr>) else v)"

text \<open>Whether the error box is on the page.\<close>

definition noticeShown :: "nat \<Rightarrow> overview \<Rightarrow> bool" where
  "noticeShown now v \<longleftrightarrow> noticeSignature (oData v) \<noteq> None \<and> oNoticeVisible v \<and>
     (oNoticeUntil v = 0 \<or> oNoticeUntil v > int now)"

definition refreshDelay :: "nat option \<Rightarrow> nat \<Rightarrow> overview \<Rightarrow> jnum" where
  "refreshDelay anchorAt now v = (let anchor = (case anchorAt of None \<Rightarrow> now | Some a \<Rightarrow> if a > now then now else a) in
     nmax (Fin 0) (nsub (effectiveRefreshMs (dStatus (oData v)) (JObj (oPrefs v))) (Fin (of_nat (now - anchor)))))"

definition schedule :: "nat option \<Rightarrow> nat \<Rightarrow> overview \<Rightarrow> overview" where
  "schedule anchorAt now v0 = (let v = stopTimer v0 in
     if oDestroyed v \<or> oPending v \<noteq> None \<or> isPaused v then v
     else v\<lparr>oTimer := Some (refreshDelay anchorAt now v)\<rparr>)"

definition snapshot :: "overview \<Rightarrow> page_data" where
  "snapshot v = (let d = oData v in d\<lparr>dStatus := jor (dStatus d) (JObj []),
     dClients := jor (dClients d) (emptySource ''clients''), dInterfaces := jor (dInterfaces d) (emptySource ''interfaces''),
     dUci := jor (dUci d) (JObj [])\<rparr>)"

definition reload :: "bool \<Rightarrow> nat \<Rightarrow> overview \<Rightarrow> overview" where
  "reload manual now v = (if oDestroyed v then v
     else if oPending v \<noteq> None then (if manual then refreshAvailability now (v\<lparr>oManualBusy := True\<rparr>) else v)
     else (let u = refreshAvailability now ((stopTimer v)\<lparr>oSeq := oSeq v + 1, oLoading := True, oManualBusy := manual\<rparr>)
       in u\<lparr>oPending := Some (oSeq u),
            oRequests := oRequests u @ [\<lparr>rqSeq = oSeq u, rqStartedAt = now, rqPrevious = snapshot u\<rparr>]\<rparr>))"

text \<open>How the loader of a request ends: with the calls of a refresh, or by throwing.\<close>

datatype load_end = Loaded round_calls | LoaderThrew thrown

definition loadedData :: "request \<Rightarrow> load_end \<Rightarrow> nat \<Rightarrow> page_data" where
  "loadedData rq e now = (case e of Loaded rd \<Rightarrow> loadAll (Some (rqPrevious rq)) rd
     | LoaderThrew t \<Rightarrow> failureData (Some (rqPrevious rq)) t (int now))"

definition applyData :: "page_data \<Rightarrow> overview \<Rightarrow> overview" where
  "applyData nxt v = v\<lparr>oData := normalizeData nxt\<rparr>"

definition requestEnds :: "nat \<Rightarrow> load_end \<Rightarrow> nat \<Rightarrow> overview \<Rightarrow> overview" where
  "requestEnds sq e now v = (case find (\<lambda>r. rqSeq r = sq) (oRequests v) of None \<Rightarrow> v
   | Some rq \<Rightarrow> (let u = v\<lparr>oRequests := filter (\<lambda>r. rqSeq r \<noteq> sq) (oRequests v)\<rparr> in
       if sq \<noteq> oSeq u \<or> oDestroyed u then u
       else schedule (Some (rqStartedAt rq)) now (refreshAvailability now
         ((applyData (loadedData rq e now) u)\<lparr>oLoading := False, oManualBusy := False, oPending := None\<rparr>))))"

definition destroy :: "overview \<Rightarrow> overview" where
  "destroy v = (if oDestroyed v then v
     else clearErrorNoticeTimer (stopTimer (v\<lparr>oDestroyed := True, oSeq := oSeq v + 1, oPending := None\<rparr>)))"

text \<open>\<open>visibilitychange\<close>, while its listener is there.\<close>

definition visibilityChanged :: "bool \<Rightarrow> nat \<Rightarrow> overview \<Rightarrow> overview" where
  "visibilityChanged hidden now v = (if oDestroyed v then v
     else if hidden then refreshAvailability now ((clearErrorNoticeTimer v)\<lparr>oNoticeVisible := False, oNoticeUntil := 0\<rparr>)
     else if oSignature v \<noteq> None then refreshAvailability now (triggerErrorNotice now v) else v)"

definition noticeTimeout :: "nat \<Rightarrow> overview \<Rightarrow> overview" where
  "noticeTimeout now v = (if oNoticeTimer v = None then v
     else (let u = v\<lparr>oNoticeTimer := None, oNoticeVisible := False\<rparr> in if oDestroyed u then u else refreshAvailability now u))"

definition timerFires :: "nat \<Rightarrow> overview \<Rightarrow> overview" where
  "timerFires now v = (if oTimer v = None then v else reload False now (v\<lparr>oTimer := None\<rparr>))"

section \<open>Controls of the shell\<close>

definition pauseClick :: "nat \<Rightarrow> overview \<Rightarrow> overview" where
  "pauseClick now v = (let u = v\<lparr>oPrefs := putProp ''paused'' (JBool (\<not> isPaused v)) (oPrefs v)\<rparr> in
     if isPaused u then stopTimer u else schedule None now u)"

definition intervalChange :: "jnum \<Rightarrow> nat \<Rightarrow> overview \<Rightarrow> overview" where
  "intervalChange n now v = (let nss = nssRefreshRestricted (dStatus (oData v)) in
     if nss \<and> list_ex (\<lambda>c. n = Fin c) NSS_REFRESH_CHOICES
       then schedule None now (v\<lparr>oPrefs := putProp ''nssRefreshMs'' (JNum n) (oPrefs v)\<rparr>)
     else if \<not> nss \<and> nle (Fin MIN_REFRESH_MS) n
       then schedule None now (v\<lparr>oPrefs := putProp ''refreshMs'' (JNum n) (oPrefs v)\<rparr>)
     else v)"

text \<open>
  A control request of \<open>ClientControl\<close> stops the timer when it starts and schedules again when
  it ends, unless the page was paused when it started.
\<close>

definition holdStart :: "overview \<Rightarrow> overview" where
  "holdStart v = (if isPaused v then v else (stopTimer v)\<lparr>oHolds := oHolds v + 1\<rparr>)"

definition holdEnd :: "nat \<Rightarrow> overview \<Rightarrow> overview" where
  "holdEnd now v = (if oHolds v = 0 then v else schedule None now (v\<lparr>oHolds := oHolds v - 1\<rparr>))"

datatype overview_event = Reload | TimerFires | Ends nat load_end | Leave | Visibility bool | NoticeTimeout | Redraw
  | PauseClick | IntervalChange jnum | HoldStart | HoldEnd

fun overviewStep :: "overview_event \<Rightarrow> nat \<Rightarrow> overview \<Rightarrow> overview" where
  "overviewStep Reload now v = reload True now v"
| "overviewStep TimerFires now v = timerFires now v"
| "overviewStep (Ends sq e) now v = requestEnds sq e now v"
| "overviewStep Leave now v = destroy v"
| "overviewStep (Visibility hidden) now v = visibilityChanged hidden now v"
| "overviewStep NoticeTimeout now v = noticeTimeout now v"
| "overviewStep Redraw now v = refreshAvailability now v"
| "overviewStep PauseClick now v = pauseClick now v"
| "overviewStep (IntervalChange n) now v = intervalChange n now v"
| "overviewStep HoldStart now v = holdStart v"
| "overviewStep HoldEnd now v = holdEnd now v"

text \<open>The page opens with the data of a first refresh.\<close>

definition firstData :: "load_end \<Rightarrow> nat \<Rightarrow> page_data" where
  "firstData e now = (case e of Loaded rd \<Rightarrow> loadAll None rd | LoaderThrew t \<Rightarrow> failureData None t (int now))"

definition overviewOpen :: "props \<Rightarrow> load_end \<Rightarrow> nat \<Rightarrow> overview" where
  "overviewOpen prefs e now = schedule None now (refreshAvailability now \<lparr>oData = normalizeData (firstData e now),
     oPrefs = prefs, oLoading = False, oManualBusy = False, oPending = None, oSeq = 0, oRequests = [], oTimer = None,
     oHolds = 0, oSignature = None, oNoticeVisible = True, oNoticeUntil = 0, oNoticeTimer = None, oDestroyed = False\<rparr>)"

inductive overview_run :: "overview \<Rightarrow> bool" where
  opened: "overview_run (overviewOpen prefs e now)"
| stepped: "overview_run v \<Longrightarrow> overview_run (overviewStep ev now v)"

section \<open>Invariants\<close>

lemma notice_fields [simp]:
  "oData (refreshAvailability now v) = oData v" "oPrefs (refreshAvailability now v) = oPrefs v"
  "oLoading (refreshAvailability now v) = oLoading v" "oPending (refreshAvailability now v) = oPending v"
  "oSeq (refreshAvailability now v) = oSeq v" "oRequests (refreshAvailability now v) = oRequests v"
  "oTimer (refreshAvailability now v) = oTimer v" "oHolds (refreshAvailability now v) = oHolds v"
  "oDestroyed (refreshAvailability now v) = oDestroyed v" "oManualBusy (refreshAvailability now v) = oManualBusy v"
  by (simp_all add: refreshAvailability_def clearErrorNoticeTimer_def triggerErrorNotice_def scheduleErrorNoticeHide_def
      Let_def split: option.splits)

lemma isPaused_cong: "oPrefs v = oPrefs u \<Longrightarrow> isPaused v = isPaused u"
  by (simp add: isPaused_def)

lemma paused_refresh [simp]: "isPaused (refreshAvailability now v) = isPaused v"
  by (rule isPaused_cong) simp

lemma schedule_fields [simp]:
  "oData (schedule a now v) = oData v" "oPrefs (schedule a now v) = oPrefs v" "oLoading (schedule a now v) = oLoading v"
  "oPending (schedule a now v) = oPending v" "oSeq (schedule a now v) = oSeq v" "oRequests (schedule a now v) = oRequests v"
  "oHolds (schedule a now v) = oHolds v" "oDestroyed (schedule a now v) = oDestroyed v"
  "oSignature (schedule a now v) = oSignature v" "oNoticeVisible (schedule a now v) = oNoticeVisible v"
  "oNoticeTimer (schedule a now v) = oNoticeTimer v" "oNoticeUntil (schedule a now v) = oNoticeUntil v"
  by (simp_all add: schedule_def stopTimer_def Let_def)

lemma paused_schedule [simp]: "isPaused (schedule a now v) = isPaused v"
  by (rule isPaused_cong) simp

lemma paused_updates [simp]:
  "isPaused (v\<lparr>oTimer := t\<rparr>) = isPaused v" "isPaused (v\<lparr>oPending := q\<rparr>) = isPaused v"
  "isPaused (v\<lparr>oRequests := rs\<rparr>) = isPaused v" "isPaused (v\<lparr>oHolds := n\<rparr>) = isPaused v"
  "isPaused (v\<lparr>oData := d\<rparr>) = isPaused v" "isPaused (v\<lparr>oLoading := b\<rparr>) = isPaused v"
  "isPaused (v\<lparr>oManualBusy := b\<rparr>) = isPaused v" "isPaused (v\<lparr>oSeq := k\<rparr>) = isPaused v"
  "isPaused (v\<lparr>oDestroyed := b\<rparr>) = isPaused v" "isPaused (v\<lparr>oNoticeTimer := x\<rparr>) = isPaused v"
  "isPaused (v\<lparr>oNoticeVisible := b\<rparr>) = isPaused v" "isPaused (v\<lparr>oNoticeUntil := y\<rparr>) = isPaused v"
  by (simp_all add: isPaused_def)

lemma schedule_timer: "oTimer (schedule a now v) \<noteq> None \<longleftrightarrow> \<not> oDestroyed v \<and> oPending v = None \<and> \<not> isPaused v"
  by (simp add: schedule_def stopTimer_def Let_def)

text \<open>The data: of the page, and of the requests that will fall back to it.\<close>

definition dataInv :: "overview \<Rightarrow> bool" where
  "dataInv v \<longleftrightarrow> pageInv (oData v) \<and> list_all (\<lambda>r. pageInv (rqPrevious r)) (oRequests v)"

text \<open>The loop: at most one request, no timer beside it, and something always under way.\<close>

definition requestsOk :: "overview \<Rightarrow> bool" where
  "requestsOk v \<longleftrightarrow> (if oDestroyed v then oPending v = None \<and> length (oRequests v) \<le> 1 \<and>
        (\<exists>sq. list_all (\<lambda>r. rqSeq r = sq) (oRequests v) \<and> sq < oSeq v)
      else (case oPending v of None \<Rightarrow> oRequests v = [] \<and> \<not> oLoading v
        | Some sq \<Rightarrow> sq = oSeq v \<and> map rqSeq (oRequests v) = [sq] \<and> oLoading v))"

definition loopInv :: "overview \<Rightarrow> bool" where
  "loopInv v \<longleftrightarrow> requestsOk v \<and> (if oDestroyed v \<or> oPending v \<noteq> None \<or> isPaused v then oTimer v = None
     else oHolds v = 0 \<longrightarrow> oTimer v \<noteq> None)"

text \<open>The notice: it belongs to the failed sources shown, and while it is visible its timer runs.\<close>

definition noticeInv :: "overview \<Rightarrow> bool" where
  "noticeInv v \<longleftrightarrow> oSignature v = noticeSignature (oData v) \<and>
     oNoticeTimer v = (if \<not> oDestroyed v \<and> oSignature v \<noteq> None \<and> oNoticeVisible v then Some ERROR_NOTICE_MS else None)"

lemma pageInv_normalize: "pageInv d \<Longrightarrow> pageInv (normalizeData d)"
  by (auto simp: pageInv_def samplesCoherent_def pairTruthful_def pairOf_def oldPairOf_def split: option.splits)

lemma pageInv_snapshot: "pageInv (oData v) \<Longrightarrow> pageInv (snapshot v)"
proof -
  assume "pageInv (oData v)"
  moreover from this have "snapshot v = oData v"
    using plainSource_or(1) by (cases "oData v") (auto simp: snapshot_def Let_def pageInv_def pageValid_iff)
  ultimately show ?thesis by simp
qed

lemma loadedData_inv: "pageInv (rqPrevious rq) \<Longrightarrow> pageInv (loadedData rq e now)"
  by (auto simp: loadedData_def intro!: loadAll_inv failureData_inv split: load_end.splits)

lemma reload_dataInv: "dataInv v \<Longrightarrow> dataInv (reload m now v)"
  by (auto simp: reload_def dataInv_def Let_def stopTimer_def intro!: pageInv_snapshot)

lemma data_step: "dataInv v \<Longrightarrow> dataInv (overviewStep ev now v)"
proof (cases ev)
  case (Ends sq e)
  assume inv: "dataInv v"
  show ?thesis
  proof (cases "find (\<lambda>r. rqSeq r = sq) (oRequests v)")
    case None
    then show ?thesis using inv Ends by (simp add: requestEnds_def)
  next
    case (Some rq)
    then have "rq \<in> set (oRequests v)" by (auto simp: find_Some_iff)
    then have "pageInv (loadedData rq e now)" using inv by (auto simp: dataInv_def list_all_iff intro: loadedData_inv)
    then show ?thesis using inv Some Ends
      by (auto simp: requestEnds_def Let_def dataInv_def applyData_def list_all_iff intro: pageInv_normalize)
  qed
qed (auto simp: reload_dataInv timerFires_def destroy_def clearErrorNoticeTimer_def stopTimer_def visibilityChanged_def
      triggerErrorNotice_def scheduleErrorNoticeHide_def noticeTimeout_def pauseClick_def intervalChange_def holdStart_def
      holdEnd_def Let_def dataInv_def intro!: reload_dataInv [unfolded dataInv_def, THEN conjunct1]
      reload_dataInv [unfolded dataInv_def, THEN conjunct2])

lemma requestsOk_cong:
  assumes "requestsOk v" "oPending u = oPending v" "oDestroyed u = oDestroyed v" "oRequests u = oRequests v"
    "oLoading u = oLoading v" "oSeq u = oSeq v"
  shows "requestsOk u"
  using assms(1) by (simp only: requestsOk_def assms(2-6))

lemma loopInv_cong:
  assumes "loopInv v" "oPending u = oPending v" "oDestroyed u = oDestroyed v" "oRequests u = oRequests v"
    "oLoading u = oLoading v" "oSeq u = oSeq v" "oTimer u = oTimer v" "oHolds u = oHolds v" "oPrefs u = oPrefs v"
  shows "loopInv u"
  using assms(1) requestsOk_cong [of v u] isPaused_cong [of u v] by (simp add: loopInv_def assms(2-9))

lemma schedule_loopInv: "requestsOk v \<Longrightarrow> loopInv (schedule a now v)"
  using schedule_timer [of a now v] requestsOk_cong [of v "schedule a now v"] by (auto simp: loopInv_def)

lemma reload_loopInv: "requestsOk v \<Longrightarrow> oPending v \<noteq> None \<longrightarrow> loopInv v \<Longrightarrow> oDestroyed v \<longrightarrow> loopInv v \<Longrightarrow>
    loopInv (reload m now v)"
proof -
  assume ok: "requestsOk v" and p: "oPending v \<noteq> None \<longrightarrow> loopInv v" and d: "oDestroyed v \<longrightarrow> loopInv v"
  consider "oDestroyed v" | "\<not> oDestroyed v" "oPending v \<noteq> None" | "\<not> oDestroyed v" "oPending v = None" by blast
  then show ?thesis
  proof cases
    case 1
    then show ?thesis using d by (simp add: reload_def)
  next
    case 2
    then have "loopInv v" using p by simp
    then have "loopInv (refreshAvailability now (v\<lparr>oManualBusy := True\<rparr>))" by (rule loopInv_cong) simp_all
    then show ?thesis using 2 \<open>loopInv v\<close> by (simp add: reload_def)
  next
    case 3
    then show ?thesis using ok by (simp add: reload_def Let_def stopTimer_def loopInv_def requestsOk_def)
  qed
qed

lemma ends_loopInv:
  assumes inv: "loopInv v"
  shows "loopInv (requestEnds sq e now v)"
proof (cases "find (\<lambda>r. rqSeq r = sq) (oRequests v)")
  case None
  then show ?thesis using inv by (simp add: requestEnds_def)
next
  case (Some rq)
  then have rq: "rq \<in> set (oRequests v)" "rqSeq rq = sq" by (auto simp: find_Some_iff)
  have ok: "requestsOk v" using inv by (simp add: loopInv_def)
  let ?u = "v\<lparr>oRequests := filter (\<lambda>r. rqSeq r \<noteq> sq) (oRequests v)\<rparr>"
  show ?thesis
  proof (cases "oDestroyed v")
    case True
    then obtain k where k: "\<forall>r \<in> set (oRequests v). rqSeq r = k" "k < oSeq v" "oPending v = None"
      using ok by (auto simp: list_all_iff requestsOk_def)
    then have "filter (\<lambda>r. rqSeq r \<noteq> sq) (oRequests v) = []" using rq by (auto simp: filter_empty_conv)
    then have "loopInv ?u" using inv True k by (auto simp: loopInv_def requestsOk_def)
    then show ?thesis using Some True by (simp add: requestEnds_def Let_def)
  next
    case False
    then have p: "oPending v = Some (oSeq v)" "map rqSeq (oRequests v) = [oSeq v]"
      using ok rq(1) by (auto simp: requestsOk_def split: option.splits)
    then have "sq = oSeq v" and nil: "filter (\<lambda>r. rqSeq r \<noteq> sq) (oRequests v) = []" using rq by (auto simp: filter_empty_conv)
    then show ?thesis using Some False p
      by (auto simp: requestEnds_def Let_def applyData_def requestsOk_def intro!: schedule_loopInv)
  qed
qed

lemma loop_destroy: "loopInv v \<Longrightarrow> loopInv (destroy v)"
proof (cases "oDestroyed v")
  case False
  assume inv: "loopInv v"
  have "length (oRequests v) \<le> 1" "\<exists>sq. list_all (\<lambda>r. rqSeq r = sq) (oRequests v) \<and> sq < Suc (oSeq v)"
    using inv False by (cases "oPending v"; auto simp: loopInv_def requestsOk_def list_all_iff intro: exI [of _ "oSeq v"])+
  then show ?thesis using False
    by (simp add: destroy_def clearErrorNoticeTimer_def stopTimer_def loopInv_def requestsOk_def)
qed (simp add: destroy_def)

lemma loop_notice:
  assumes "loopInv v"
  shows "loopInv (visibilityChanged hidden now v)" "loopInv (noticeTimeout now v)" "loopInv (refreshAvailability now v)"
  using assms
  by (auto simp: visibilityChanged_def clearErrorNoticeTimer_def triggerErrorNotice_def scheduleErrorNoticeHide_def
      noticeTimeout_def Let_def intro: loopInv_cong)

lemma loop_controls:
  assumes inv: "loopInv v"
  shows "loopInv (pauseClick now v)" "loopInv (intervalChange n now v)" "loopInv (holdStart v)" "loopInv (holdEnd now v)"
proof -
  have ok: "requestsOk v" using inv by (simp add: loopInv_def)
  let ?u = "v\<lparr>oPrefs := putProp ''paused'' (JBool (\<not> isPaused v)) (oPrefs v)\<rparr>"
  have u: "requestsOk ?u" using ok by (rule requestsOk_cong) simp_all
  have "requestsOk (?u\<lparr>oTimer := None\<rparr>)" using u by (rule requestsOk_cong) simp_all
  then show "loopInv (pauseClick now v)"
    using u inv by (simp add: pauseClick_def Let_def stopTimer_def schedule_loopInv) (simp add: loopInv_def)
  have "requestsOk (v\<lparr>oPrefs := ps\<rparr>)" for ps by (rule requestsOk_cong [OF ok]) simp_all
  then show "loopInv (intervalChange n now v)" using inv by (simp add: intervalChange_def Let_def schedule_loopInv)
  have "requestsOk (v\<lparr>oTimer := None, oHolds := oHolds v + 1\<rparr>)" by (rule requestsOk_cong [OF ok]) simp_all
  then show "loopInv (holdStart v)" using inv by (auto simp: holdStart_def stopTimer_def loopInv_def)
  have "requestsOk (v\<lparr>oHolds := k\<rparr>)" for k by (rule requestsOk_cong [OF ok]) simp_all
  then show "loopInv (holdEnd now v)" using inv by (simp add: holdEnd_def schedule_loopInv)
qed

lemma loop_timer: "loopInv v \<Longrightarrow> loopInv (timerFires now v)"
proof -
  assume inv: "loopInv v"
  show ?thesis
  proof (cases "oTimer v = None")
    case False
    then have "\<not> oDestroyed v" "oPending v = None" using inv by (auto simp: loopInv_def split: if_splits)
    moreover have "requestsOk v" using inv unfolding loopInv_def by (rule conjunct1)
    then have "requestsOk (v\<lparr>oTimer := None\<rparr>)" by (rule requestsOk_cong) simp_all
    ultimately have "loopInv (reload False now (v\<lparr>oTimer := None\<rparr>))" by (intro reload_loopInv) simp_all
    then show ?thesis using False by (auto simp: timerFires_def)
  qed (simp add: inv timerFires_def)
qed

lemma loop_step: "loopInv v \<Longrightarrow> loopInv (overviewStep ev now v)"
proof (cases ev)
  case Reload
  assume inv: "loopInv v"
  then have "requestsOk v" by (simp add: loopInv_def)
  then show ?thesis using inv Reload by (simp add: reload_loopInv)
qed (simp_all add: loop_timer ends_loopInv loop_destroy loop_notice loop_controls)

lemma trigger_notice [simp]:
  "oNoticeTimer (triggerErrorNotice now v) = Some ERROR_NOTICE_MS" "oNoticeVisible (triggerErrorNotice now v)"
  "oSignature (triggerErrorNotice now v) = oSignature v" "oData (triggerErrorNotice now v) = oData v"
  "oDestroyed (triggerErrorNotice now v) = oDestroyed v" "oNoticeUntil (triggerErrorNotice now v) = int now + 3000"
  by (simp_all add: triggerErrorNotice_def scheduleErrorNoticeHide_def clearErrorNoticeTimer_def Let_def ERROR_NOTICE_MS_def)

text \<open>A redraw brings the notice up to date, whatever data came in.\<close>

definition noticeReady :: "overview \<Rightarrow> bool" where
  "noticeReady v \<longleftrightarrow> \<not> oDestroyed v \<and> (oSignature v \<noteq> None \<longrightarrow> oNoticeTimer v = (if oNoticeVisible v then Some ERROR_NOTICE_MS else None))"

lemma refresh_notice: "noticeReady v \<Longrightarrow> noticeInv (refreshAvailability now v)"
  by (auto simp: noticeReady_def refreshAvailability_def noticeInv_def clearErrorNoticeTimer_def split: option.splits)

lemma refresh_notice_same: "noticeInv v \<Longrightarrow> noticeInv (refreshAvailability now v)"
  by (cases "oDestroyed v"; cases "noticeSignature (oData v)")
    (simp_all add: noticeInv_def refreshAvailability_def clearErrorNoticeTimer_def)

lemma noticeInv_ready: "noticeInv v \<Longrightarrow> \<not> oDestroyed v \<Longrightarrow> noticeReady v"
  by (auto simp: noticeInv_def noticeReady_def)

lemma noticeInv_cong:
  assumes "noticeInv v" "oData u = oData v" "oSignature u = oSignature v" "oNoticeVisible u = oNoticeVisible v"
    "oNoticeTimer u = oNoticeTimer v" "oDestroyed u = oDestroyed v"
  shows "noticeInv u"
  using assms(1) unfolding noticeInv_def assms(2-6) .

lemma noticeReady_cong:
  assumes "noticeReady v" "oSignature u = oSignature v" "oNoticeVisible u = oNoticeVisible v"
    "oNoticeTimer u = oNoticeTimer v" "oDestroyed u = oDestroyed v"
  shows "noticeReady u"
  using assms(1) unfolding noticeReady_def assms(2-5) .

lemma noticeInv_schedule [simp]: "noticeInv (schedule a now v) = noticeInv v"
  using noticeInv_cong [of v "schedule a now v"] noticeInv_cong [of "schedule a now v" v] by auto

lemma reload_notice: "noticeInv v \<Longrightarrow> noticeInv (reload m now v)"
proof -
  assume inv: "noticeInv v"
  have r: "noticeInv (refreshAvailability now u)" if "oData u = oData v" "oSignature u = oSignature v"
      "oNoticeVisible u = oNoticeVisible v" "oNoticeTimer u = oNoticeTimer v" "oDestroyed u = oDestroyed v" for u
    by (intro refresh_notice_same noticeInv_cong [OF inv] that)
  have b: "noticeInv (refreshAvailability now (v\<lparr>oManualBusy := True\<rparr>))" by (rule r) simp_all
  have "noticeInv (refreshAvailability now ((stopTimer v)\<lparr>oSeq := oSeq v + 1, oLoading := True, oManualBusy := m\<rparr>))"
    by (rule r) (simp_all add: stopTimer_def)
  from noticeInv_cong [OF this] b inv show ?thesis by (auto simp: reload_def Let_def)
qed

lemma ends_notice: "noticeInv v \<Longrightarrow> noticeInv (requestEnds sq e now v)"
proof (cases "find (\<lambda>r. rqSeq r = sq) (oRequests v)")
  case (Some rq)
  assume inv: "noticeInv v"
  let ?u = "v\<lparr>oRequests := filter (\<lambda>r. rqSeq r \<noteq> sq) (oRequests v)\<rparr>"
  have u: "noticeInv ?u" by (rule noticeInv_cong [OF inv]) simp_all
  show ?thesis
  proof (cases "sq \<noteq> oSeq v \<or> oDestroyed v")
    case True
    then show ?thesis using Some u by (auto simp: requestEnds_def Let_def)
  next
    case False
    then have "noticeReady v" using noticeInv_ready [OF inv] by simp
    then have "noticeReady ((applyData (loadedData rq e now) ?u)\<lparr>oLoading := False, oManualBusy := False, oPending := None\<rparr>)"
      by (rule noticeReady_cong) (simp_all add: applyData_def)
    from refresh_notice [OF this] show ?thesis using False Some by (simp add: requestEnds_def Let_def)
  qed
qed (simp add: requestEnds_def)

lemma visibility_notice: "noticeInv v \<Longrightarrow> noticeInv (visibilityChanged hidden now v)"
proof (cases "oDestroyed v")
  case False
  assume inv: "noticeInv v"
  have "noticeReady ((clearErrorNoticeTimer v)\<lparr>oNoticeVisible := False, oNoticeUntil := 0\<rparr>)"
      "noticeReady (triggerErrorNotice now v)"
    using False by (simp_all add: noticeReady_def clearErrorNoticeTimer_def)
  then show ?thesis using False inv by (auto simp: visibilityChanged_def intro: refresh_notice)
qed (simp add: visibilityChanged_def)

lemma timeout_notice: "noticeInv v \<Longrightarrow> noticeInv (noticeTimeout now v)"
proof (cases "oNoticeTimer v = None")
  case False
  assume inv: "noticeInv v"
  then have "\<not> oDestroyed v" using False by (auto simp: noticeInv_def)
  moreover from this have "noticeReady (v\<lparr>oNoticeTimer := None, oNoticeVisible := False\<rparr>)" by (simp add: noticeReady_def)
  ultimately show ?thesis using False refresh_notice by (auto simp: noticeTimeout_def Let_def)
qed (simp add: noticeTimeout_def)

lemma notice_step: "noticeInv v \<Longrightarrow> noticeInv (overviewStep ev now v)"
proof (cases ev)
  case TimerFires
  assume inv: "noticeInv v"
  have "noticeInv (v\<lparr>oTimer := None\<rparr>)" by (rule noticeInv_cong [OF inv]) simp_all
  then show ?thesis using inv TimerFires by (auto simp: timerFires_def reload_notice)
next
  case Leave
  then show "noticeInv v \<Longrightarrow> ?thesis" by (auto simp: destroy_def clearErrorNoticeTimer_def stopTimer_def noticeInv_def)
next
  case PauseClick
  then show "noticeInv v \<Longrightarrow> ?thesis" by (auto simp: pauseClick_def Let_def stopTimer_def intro: noticeInv_cong)
next
  case (IntervalChange n)
  then show "noticeInv v \<Longrightarrow> ?thesis" by (auto simp: intervalChange_def Let_def intro: noticeInv_cong)
next
  case HoldStart
  then show "noticeInv v \<Longrightarrow> ?thesis" by (auto simp: holdStart_def stopTimer_def intro: noticeInv_cong)
next
  case HoldEnd
  then show "noticeInv v \<Longrightarrow> ?thesis" by (auto simp: holdEnd_def intro: noticeInv_cong)
qed (simp_all add: reload_notice ends_notice visibility_notice timeout_notice refresh_notice_same)

lemma open_inv: "dataInv (overviewOpen prefs e now) \<and> loopInv (overviewOpen prefs e now) \<and> noticeInv (overviewOpen prefs e now)"
proof -
  let ?v = "\<lparr>oData = normalizeData (firstData e now), oPrefs = prefs, oLoading = False, oManualBusy = False,
     oPending = None, oSeq = 0, oRequests = [], oTimer = None, oHolds = 0, oSignature = None, oNoticeVisible = True,
     oNoticeUntil = 0, oNoticeTimer = None, oDestroyed = False\<rparr>"
  have "pageInv (firstData e now)" by (auto simp: firstData_def intro!: loadAll_inv failureData_inv split: load_end.splits)
  then have "dataInv (refreshAvailability now ?v)" by (simp add: dataInv_def pageInv_normalize)
  moreover have "requestsOk (refreshAvailability now ?v)" by (simp add: requestsOk_def)
  moreover have "noticeInv (refreshAvailability now ?v)" by (rule refresh_notice) (simp add: noticeReady_def)
  ultimately show ?thesis by (auto simp: overviewOpen_def schedule_loopInv dataInv_def)
qed

lemma overview_run_inv: "overview_run v \<Longrightarrow> dataInv v \<and> loopInv v \<and> noticeInv v"
  by (induction rule: overview_run.induct) (simp_all add: open_inv data_step loop_step notice_step)

section \<open>What the page guarantees\<close>

lemma sampleSkew_nonneg: "0 \<le> sampleSkew status"
  by (simp add: sampleSkew_def ACCESS_EDGE_SAMPLE_SKEW_MS_def)

lemma aligned_clocks:
  assumes "lpAligned (livePair s c i) \<noteq> Some False" "a \<in> set (sampleClocks s c i)" "b \<in> set (sampleClocks s c i)"
  shows "\<bar>a - b\<bar> \<le> 2 * sampleSkew s"
proof (cases "1 < length (sampleClocks s c i)")
  case True
  then have all: "\<bar>t - hd (sampleClocks s c i)\<bar> \<le> sampleSkew s" if "t \<in> set (sampleClocks s c i)" for t
    using assms(1) that by (auto simp: livePair_def Let_def list_all_iff)
  show ?thesis using all [OF assms(2)] all [OF assms(3)] by linarith
next
  case False
  then have "a = b" using assms(2,3) by (cases "sampleClocks s c i") auto
  then show ?thesis using sampleSkew_nonneg by simp
qed


definition failedOpen :: overview where
  "failedOpen = overviewOpen [] (LoaderThrew (Other JNull)) 0"

lemma failedOpen_fields: "oPending failedOpen = None" "oSeq failedOpen = 0" "\<not> oDestroyed failedOpen"
    "oHolds failedOpen = 0" "\<not> isPaused failedOpen" "overview_run failedOpen"
  by (simp_all add: failedOpen_def overviewOpen_def isPaused_def jget.simps protoKeys_def overview_run.intros(1) [unfolded overviewOpen_def])


text \<open>
  C26: the refresh loop. In every reachable state at most one request is under way; while it runs
  no timer does and the page is marked as loading; a paused or left page has no timer, and a left
  page no notice timer either; otherwise the timer runs unless a control request holds it.
\<close>

theorem overview_loop:
  assumes "overview_run v"
  shows "length (oRequests v) \<le> 1 \<and>
    (if oDestroyed v then oPending v = None \<and> oTimer v = None \<and> oNoticeTimer v = None
     else if oPending v = None then oRequests v = [] \<and> \<not> oLoading v \<and>
       (if isPaused v then oTimer v = None else if oHolds v = 0 then oTimer v \<noteq> None else True)
     else oPending v = Some (oSeq v) \<and> map rqSeq (oRequests v) = [oSeq v] \<and> oLoading v \<and> oTimer v = None)"
  using overview_run_inv [OF assms]
  by (auto simp: loopInv_def requestsOk_def noticeInv_def split: if_splits option.splits)

theorem overview_loop_witness:
  "oLoading (overviewStep Reload 7 failedOpen) \<and> oTimer (overviewStep Reload 7 failedOpen) = None"
  using overview_loop [OF overview_run.intros(2) [OF failedOpen_fields(6)], of Reload 7] failedOpen_fields
  by (auto simp: reload_def Let_def stopTimer_def)

text \<open>
  The page keeps refreshing. Unless it is left, paused or a control request is under way,
  a page without a request has a timer whose end starts one, and a page with a request has, as
  soon as that ends, in whatever way, no request, no loading mark and a new timer.
\<close>

theorem overview_keeps_refreshing:
  assumes run: "overview_run v" and here: "\<not> oDestroyed v" "\<not> isPaused v" "oHolds v = 0"
  shows "if oPending v = None
    then oTimer v \<noteq> None \<and> oPending (overviewStep TimerFires now v) = Some (oSeq v + 1)
    else oPending (overviewStep (Ends (oSeq v) e) now v) = None \<and> \<not> oLoading (overviewStep (Ends (oSeq v) e) now v) \<and>
      oTimer (overviewStep (Ends (oSeq v) e) now v) \<noteq> None"
proof (cases "oPending v")
  case None
  then have "oTimer v \<noteq> None" using overview_run_inv [OF run] here by (simp add: loopInv_def)
  then show ?thesis using None here by (auto simp: timerFires_def reload_def Let_def stopTimer_def)
next
  case (Some sq)
  then have "map rqSeq (oRequests v) = [oSeq v]" using overview_run_inv [OF run] here by (simp add: loopInv_def requestsOk_def)
  then obtain rq where rq: "oRequests v = [rq]" "rqSeq rq = oSeq v" by auto
  let ?w = "refreshAvailability now ((applyData (loadedData rq e now) (v\<lparr>oRequests := []\<rparr>))
    \<lparr>oLoading := False, oManualBusy := False, oPending := None\<rparr>)"
  have step: "overviewStep (Ends (oSeq v) e) now v = schedule (Some (rqStartedAt rq)) now ?w"
    using rq here by (simp add: requestEnds_def Let_def)
  have "oTimer (schedule (Some (rqStartedAt rq)) now ?w) \<noteq> None"
    unfolding schedule_timer using here by (simp add: applyData_def)
  then show ?thesis using Some unfolding step by (simp add: applyData_def)
qed

theorem overview_keeps_refreshing_witness:
  "oPending (overviewStep TimerFires 9 failedOpen) = Some 1"
  using overview_keeps_refreshing [OF failedOpen_fields(6,3,5,4), of 9] failedOpen_fields by simp

text \<open>
  An outage is announced and then gets out of the way. Whenever the error notice is on the page,
  its timer is armed with three seconds; when it fires the notice is gone, and it stays
  away for as long as the same sources fail.
\<close>

theorem notice_disappears:
  assumes run: "overview_run v" and shown: "noticeShown t v" and here: "\<not> oDestroyed v"
  shows "oNoticeTimer v = Some 3000 \<and> \<not> noticeShown t' (overviewStep NoticeTimeout s v) \<and>
    \<not> noticeShown t' (overviewStep Redraw s (overviewStep NoticeTimeout s v))"
proof -
  have inv: "noticeInv v" using overview_run_inv [OF run] by blast
  then have timer: "oNoticeTimer v = Some 3000" using shown here
    by (auto simp: noticeInv_def noticeShown_def ERROR_NOTICE_MS_def)
  let ?u = "v\<lparr>oNoticeTimer := None, oNoticeVisible := False\<rparr>"
  have "refreshAvailability r ?u = ?u" for r
    using inv shown by (auto simp: refreshAvailability_def noticeInv_def noticeShown_def)
  then show ?thesis using timer here by (auto simp: noticeTimeout_def Let_def noticeShown_def)
qed

theorem notice_disappears_witness:
  "noticeShown 10 failedOpen \<and> \<not> noticeShown 4000 (overviewStep NoticeTimeout 3000 failedOpen)"
proof -
  have "(noticeSignature (oData failedOpen) \<noteq> None, oNoticeVisible failedOpen, oNoticeUntil failedOpen) = (True, True, 3000)"
    by code_simp
  then have "noticeShown t failedOpen" if "t < 3000" for t using that by (simp add: noticeShown_def)
  from this [of 10] notice_disappears [OF failedOpen_fields(6) this [of 2999] failedOpen_fields(3), of 4000 3000]
  show ?thesis by simp
qed

end
