(* ===== verification/StatusTable.thy ===== *)
theory StatusTable
  imports LiveController Vocab ClientConnections
begin

text \<open>
  What the overview shows: \<open>refreshLive\<close> of \<open>lanspeed/statusRefresh.js\<close>. The collector, the
  totals, the clients that match, their order and page, what each row and each interface line
  says, and how the rows of the table are reconciled with the nodes already there. Clients are
  objects (a null client raises in \<open>sumTotals\<close>, see \<open>Format\<close>); the buttons of a row are in
  \<open>ClientControl\<close>, and scroll positions are left to the browser.
\<close>

section \<open>Rates and collector\<close>

definition accessEdgeOwnsCurrentRate :: "jval \<Rightarrow> bool" where
  "accessEdgeOwnsCurrentRate status \<longleftrightarrow> nssPlatform status \<and> modeField status ''rate_collector_mode'' = ''auto'' \<and>
     modeField status ''access_edge_mode'' = ''active'' \<and> modeField status ''internet_view_mode'' \<noteq> ''routed''"

definition routedRate :: "jval \<Rightarrow> string \<Rightarrow> jnum" where
  "routedRate client direction = (if routedSource (jfield client ''rate_meta'') direction \<noteq> []
     then numOr (jfield client (direction @ ''_bps'')) (Fin 0) else Fin 0)"

definition rowRate :: "jval \<Rightarrow> jval \<Rightarrow> string \<Rightarrow> jnum" where
  "rowRate status c direction = (if routedView status then routedRate c direction
     else numOr (jget c (direction @ ''_bps'')) (Fin 0))"

definition routedCollectorOf :: "jval list \<Rightarrow> string" where
  "routedCollectorOf clients = foldl (\<lambda>current c. let mode = routedCollector (jfield c ''rate_meta'') in
     if mode = ''fast_routed_lease'' then mode else if current \<noteq> [] then current else mode) [] clients"

definition shownCollector :: "jval \<Rightarrow> jval \<Rightarrow> jval" where
  "shownCollector status clients = (let rc = routedCollectorOf (arrItems (jget clients ''clients''));
       c = (if routedView status then JStr (if rc \<noteq> [] then rc else ''fast_routed_internet'')
            else if accessEdgeOwnsCurrentRate status then JStr ''access_edge'' else effectiveCollector status clients)
     in if \<not> nssPlatform status \<and> c \<in> {JStr ''access_edge'', JStr ''nss_ecm_node'', JStr ''nss_ecm_bpf''} then JStr ''bpf'' else c)"

definition tableConfig :: "jval \<Rightarrow> jval" where
  "tableConfig status = activeConfig status JUndef"

definition overviewTotals :: "jval \<Rightarrow> jval list \<Rightarrow> totals option" where
  "overviewTotals status clients = (if routedView status
     then Some (foldl (\<lambda>t c. let tx = routedRate c ''tx''; rx = routedRate c ''rx'' in
       \<lparr>totTx = nadd (totTx t) tx, totRx = nadd (totRx t) rx, totActive =
          (if nle (toNum (jget (tableConfig status) ''activeMinBps'')) (nadd tx rx) then Suc (totActive t) else totActive t)\<rparr>)
       \<lparr>totTx = Fin 0, totRx = Fin 0, totActive = 0\<rparr> clients)
     else sumTotals clients (tableConfig status))"

section \<open>Clients, order and page\<close>

record table_view =
  tvStatus :: jval
  tvClients :: "jval list"
  tvFilter :: string
  tvPage :: jval
  tvActiveOnly :: bool
  tvSortKey :: string
  tvSortDir :: string
  tvPageSize :: jval

definition matching :: "table_view \<Rightarrow> jval list" where
  "matching v = filter (\<lambda>c. matchesFilter c (tvFilter v) \<and>
     (tvActiveOnly v \<longrightarrow> isActiveClient c (JNum (latestClientSampleMs (tvClients v))) (tableConfig (tvStatus v)))) (tvClients v)"

definition sortedRows :: "(string \<Rightarrow> string \<Rightarrow> int) \<Rightarrow> table_view \<Rightarrow> jval list" where
  "sortedRows collate v = sortClients collate (matching v) (tvSortKey v) (tvSortDir v)
     (JNum (latestClientSampleMs (tvClients v))) (tableConfig (tvStatus v))"

definition refreshPagination :: "(string \<Rightarrow> string \<Rightarrow> int) \<Rightarrow> table_view \<Rightarrow> page_view" where
  "refreshPagination collate v = paginate (JArr (sortedRows collate v)) (tvPage v) (tvPageSize v)"

text \<open>The state of the four page buttons: first and previous, next and last.\<close>

definition pageButtons :: "page_view \<Rightarrow> bool \<times> bool" where
  "pageButtons p = (pvPage p \<le> 1, pvPage p \<ge> pvPageCount p)"

section \<open>One row\<close>

definition CLIENT_INFO_WARNINGS :: props where
  "CLIENT_INFO_WARNINGS = [(''conntrack_connection_only'', JBool True)]"

text \<open>\<open>globalWarnings\<close> is an object literal, so the inherited names count as shown.\<close>

definition splitClientWarnings :: "jval list \<Rightarrow> string set \<Rightarrow> jval list \<times> jval list" where
  "splitClientWarnings raw shown = (
     filter (\<lambda>w. truthy (jget (JObj CLIENT_INFO_WARNINGS) (toStr w))) raw,
     filter (\<lambda>w. \<not> truthy (jget (JObj CLIENT_INFO_WARNINGS) (toStr w)) \<and> toStr w \<notin> shown \<union> set protoKeys \<and>
       isImportantWarning w JUndef) raw)"

definition globalWarnings :: "jval \<Rightarrow> string set" where
  "globalWarnings status = set (map (\<lambda>w. toStr (normalizeWarningId w)) (asArray (jget status ''warnings'')))"

definition rowName :: "jval \<Rightarrow> jval list \<Rightarrow> jval" where
  "rowName c ips = (if truthy (jget c ''hostname'') then jget c ''hostname'' else if ips \<noteq> [] then hd ips
     else jor (jget c ''mac'') (JStr ''-''))"

definition rowIpLine :: "jval \<Rightarrow> jval list \<Rightarrow> string" where
  "rowIpLine c ips = (let shown = joinStr '', '' \<circ> map (\<lambda>ip. if nullish ip then [] else toStr ip) in
     if truthy (jget c ''hostname'') \<and> ips \<noteq> [] then shown ips else if 1 < length ips then shown (tl ips) else [])"

definition rowMode :: "jval \<Rightarrow> jval \<Rightarrow> string" where
  "rowMode status c = (let mode = toStr (jor (jget c ''collector_mode'') (JStr ''-''));
       routed = (if routedView status then routedCollector (jget c ''rate_meta'') else []);
       m = (if routed \<noteq> [] then routed else mode)
     in if \<not> nssPlatform status \<and> (m = ''nss_ecm_node'' \<or> m = ''nss_ecm_bpf'') then ''unsupported'' else m)"

record client_row =
  crKey :: string
  crIdle :: bool
  crName :: jval
  crLink :: "string option"
  crIpLine :: string
  crMac :: string
  crTx :: mtext
  crRx :: mtext
  crTcp :: string
  crUdp :: string
  crMode :: mtext
  crBadges :: "badge list"
  crWarnings :: "mtext list"
  crCritical :: bool

definition countText :: "jval \<Rightarrow> string" where
  "countText v = (if isNum v then toStr v else ''-'')"

definition clientRow :: "jval \<Rightarrow> page_data \<Rightarrow> jval list \<Rightarrow> string \<Rightarrow> jval \<Rightarrow> client_row" where
  "clientRow basePath d clients unit c = (let status = dStatus d; latest = latestClientSampleMs clients;
       ips = displayIpsForClient (jget c ''ips'') (dShowIpv6 d) (dHidePrivateIpv6 d) (JStr (dHideIpv6Ranges d));
       ws = snd (splitClientWarnings (map normalizeWarningId (asArray (jget c ''warnings''))) (globalWarnings status))
     in \<lparr>crKey = toStr (identityOf c), crIdle = (\<not> isActiveClient c (JNum latest) (tableConfig status)),
          crName = rowName c ips,
          crLink = (if truthy (jget c ''identity_key'') then Some (detailHref basePath (jget c ''identity_key'')) else None),
          crIpLine = rowIpLine c ips, crMac = textOrDash (jget c ''mac''),
          crTx = formatRate (JNum (rowRate status c ''tx'')) unit, crRx = formatRate (JNum (rowRate status c ''rx'')) unit,
          crTcp = countText (jget c ''tcp_conns''), crUdp = countText (jget c ''udp_conns''),
          crMode = collectorLabel (JStr (rowMode status c)),
          crBadges = cells (jget c ''rate_meta'') (JBool (nssPlatform status)), crWarnings = map warningText ws,
          crCritical = list_ex (\<lambda>w. truthy (jget (JObj CRITICAL_WARNINGS) (toStr w))) ws\<rparr>)"

definition tableRows :: "(string \<Rightarrow> string \<Rightarrow> int) \<Rightarrow> jval \<Rightarrow> page_data \<Rightarrow> string \<Rightarrow> table_view \<Rightarrow> client_row list" where
  "tableRows collate basePath d unit v = map (clientRow basePath d (tvClients v) unit) (pvItems (refreshPagination collate v))"

section \<open>Sort headers\<close>

text \<open>\<open>aria-sort\<close>, the arrow and the message of a column header.\<close>

definition sortHeader :: "sort_state \<Rightarrow> string \<Rightarrow> string \<times> string \<times> mtext" where
  "sortHeader s key = (let sortedColumn = (sortKey s = key); active = (sortCustom s \<and> sortedColumn);
       ascending = (sortDir s = ''asc'')
     in (if sortedColumn then (if ascending then ''ascending'' else ''descending'') else ''none'',
         if active then (if ascending then ''up'' else ''down'') else [],
         if \<not> sortCustom s \<and> sortedColumn then Tr ''default order, click to sort descending''
         else if active \<and> ascending then Tr ''ascending, click for the default order''
         else if active then Tr ''descending, click to sort ascending'' else Tr ''sort descending''))"

section \<open>Reconciling the rows\<close>

text \<open>
  A row node has an identity and the attribute \<open>data-client-key\<close>; its contents are what
  \<open>replaceRowContents\<close> moves. \<open>existing\<close> maps the keys of the nodes in the table to their first
  node; a new row takes over the node of its key, at most once.
\<close>

record 'a row_node =
  rnId :: nat
  rnKey :: "string option"
  rnBody :: 'a

definition existingRows :: "'a row_node list \<Rightarrow> (string \<times> 'a row_node) list" where
  "existingRows children = foldl (\<lambda>ex r. case rnKey r of None \<Rightarrow> ex
     | Some k \<Rightarrow> if map_of ex k = None then ex @ [(k, r)] else ex) [] children"

fun takeOver :: "(string \<times> 'a row_node) list \<Rightarrow> 'a row_node list \<Rightarrow> 'a row_node list" where
  "takeOver ex [] = []"
| "takeOver ex (row # rows) = (case rnKey row of None \<Rightarrow> row # takeOver ex rows
     | Some k \<Rightarrow> (case map_of ex k of None \<Rightarrow> row # takeOver ex rows
         | Some current \<Rightarrow> current\<lparr>rnBody := rnBody row\<rparr> # takeOver (filter (\<lambda>(j, _). j \<noteq> k) ex) rows))"

text \<open>\<open>tbody.insertBefore(row, current)\<close> on the identities: the row leaves its old place.\<close>

fun insertBefore :: "nat \<Rightarrow> nat option \<Rightarrow> nat list \<Rightarrow> nat list" where
  "insertBefore x None ys = ys @ [x]"
| "insertBefore x (Some c) [] = [x]"
| "insertBefore x (Some c) (y # ys) = (if y = c then x # y # ys else y # insertBefore x (Some c) ys)"

definition placeRow :: "nat list \<Rightarrow> nat \<Rightarrow> nat \<Rightarrow> nat list" where
  "placeRow children index row = (let current = (if index < length children then Some (children ! index) else None) in
     if current = Some row then children else insertBefore row current (removeAll row children))"

fun placeRows :: "nat list \<Rightarrow> nat \<Rightarrow> nat list \<Rightarrow> nat list" where
  "placeRows children index [] = children"
| "placeRows children index (row # rows) = placeRows (placeRow children index row) (Suc index) rows"

definition reconcileClientRows :: "'a row_node list \<Rightarrow> 'a row_node list \<Rightarrow> nat list \<times> 'a row_node list" where
  "reconcileClientRows children rows = (let desired = takeOver (existingRows children) rows in
     (take (length desired) (placeRows (map rnId children) 0 (map rnId desired)), desired))"

section \<open>Interfaces\<close>

definition clientSum :: "jval \<Rightarrow> jval list \<Rightarrow> string \<Rightarrow> string \<Rightarrow> jnum" where
  "clientSum status clients direction name = (if name \<in> set protoKeys then NaN
     else foldl nadd (Fin 0) (map (\<lambda>c. rowRate status c direction)
       (filter (\<lambda>c. toStr (jor (jget c ''interface'') (JStr ''-'')) = name) clients)))"

record iface_line =
  ilName :: string
  ilUp :: mtext
  ilDown :: mtext
  ilClientUp :: mtext
  ilClientDown :: mtext

definition isLan :: "jval \<Rightarrow> bool" where
  "isLan i \<longleftrightarrow> jor (jget i ''role'') (JStr ''lan'') = JStr ''lan''"

text \<open>Seen from the router, what a LAN interface receives is what its clients send.\<close>

definition ifaceUp :: "jval \<Rightarrow> jnum" where
  "ifaceUp i = numOr (jget i (if isLan i then ''rx_bps'' else ''tx_bps'')) (Fin 0)"

definition ifaceDown :: "jval \<Rightarrow> jnum" where
  "ifaceDown i = numOr (jget i (if isLan i then ''tx_bps'' else ''rx_bps'')) (Fin 0)"

definition ifaceLine :: "jval \<Rightarrow> jval list \<Rightarrow> string \<Rightarrow> jval \<Rightarrow> iface_line" where
  "ifaceLine status clients unit i = (let n = toStr (jor (jget i ''name'') (JStr ''-'')) in
     \<lparr>ilName = n, ilUp = formatRate (JNum (ifaceUp i)) unit, ilDown = formatRate (JNum (ifaceDown i)) unit,
      ilClientUp = (if isLan i then formatRate (JNum (clientSum status clients ''tx'' n)) unit else Lit ''-''),
      ilClientDown = (if isLan i then formatRate (JNum (clientSum status clients ''rx'' n)) unit else Lit ''-'')\<rparr>)"

definition lanTotals :: "jval list \<Rightarrow> jnum \<times> jnum" where
  "lanTotals ifaces = foldl (\<lambda>(up, dn) i. if isLan i then (nadd up (ifaceUp i), nadd dn (ifaceDown i)) else (up, dn))
     (Fin 0, Fin 0) ifaces"

definition ifacesHint :: "jval \<Rightarrow> mtext" where
  "ifacesHint status = (let c = jor (jget status ''coverage'') (JObj []); tx = jget c ''tx_pct''; rx = jget c ''rx_pct'';
       pct = (\<lambda>v. case v of JNum n \<Rightarrow> n | _ \<Rightarrow> Fin 100)
     in if jget c ''quality'' = JStr ''ok'' \<or> jget c ''quality'' = JStr ''low_traffic'' \<and> (isNum tx \<or> isNum rx)
        then (if nlt (pct tx) (Fin 85) \<or> nlt (pct rx) (Fin 85) then Tr ''part of the traffic belongs to no client'' else Lit [])
        else Lit [])"

section \<open>The empty table\<close>

definition bpfReason :: "jval \<Rightarrow> string" where
  "bpfReason status = (let bpf = jfield (jfield status ''evidence'') ''bpf'' in
     if truthy bpf \<and> typeofObject bpf then toStr (jor (jget bpf ''reason_code'') (JStr [])) else [])"

definition emptyClientText :: "jval \<Rightarrow> mtext" where
  "emptyClientText status = (let reason = bpfReason status in
     if reason = ''no_collect_interface'' then Tr ''no interface is set to collect''
     else if reason \<in> {''tc_conflict'', ''tc_attach_failed'', ''tc_unavailable'', ''tc_unsupported''} then Tr ''TC is not attached''
     else if reason = ''map_read_failed'' then Tr ''the client map cannot be read''
     else if reason \<in> {''package_missing'', ''object_missing'', ''object_load_failed''} then Tr ''BPF components are incomplete''
     else if reason = ''disabled'' then Tr ''BPF is off''
     else if truthy (jfield status ''capabilities'') \<and> jget (jget status ''capabilities'') ''live_metrics'' = JBool False
       then Tr ''collecting is not ready''
     else Tr ''no client traffic in this sample'')"

definition emptyTableText :: "page_data \<Rightarrow> table_view \<Rightarrow> mtext" where
  "emptyTableText d v = (let failed = (case map_of (dRpc d) ''clients'' of None \<Rightarrow> False | Some s \<Rightarrow> \<not> rpcOk s);
       kept = retainedKey (dRpc d) ''clients''
     in if samplePending d then Tr ''synchronising''
     else if tvFilter v \<noteq> [] \<or> tvActiveOnly v then Tr ''no client matches''
     else if hardNow d \<or> failed \<and> \<not> kept then Tr ''client data unavailable''
     else if failed \<and> kept then Tr ''the request failed and the last result was empty''
     else emptyClientText (dStatus d))"

section \<open>Every matching client is on one page\<close>

text \<open>
  C35: filter, order and pages together. Going through the pages of the table shows every client
  that matches the filter and the activity box exactly once, in the order of the table, and
  whatever page is asked for, an existing one is shown.
\<close>

theorem table_complete:
  fixes v :: table_view and collate :: "string \<Rightarrow> string \<Rightarrow> int"
  defines "shown \<equiv> \<lambda>p. refreshPagination collate (v\<lparr>tvPage := p\<rparr>)"
  shows "concat (map (\<lambda>k. pvItems (shown (num (of_nat k)))) [1..<Suc (nat (pvPageCount (shown JUndef)))]) = sortedRows collate v \<and>
    mset (sortedRows collate v) = mset (matching v) \<and> 1 \<le> pvPage (shown p) \<and> pvPage (shown p) \<le> pvPageCount (shown p)"
proof (intro conjI)
  have "sortedRows collate (v\<lparr>tvPage := p\<rparr>) = sortedRows collate v" for p
    by (simp add: sortedRows_def matching_def)
  then have shown: "shown p = paginate (JArr (sortedRows collate v)) p (tvPageSize v)" for p
    by (simp add: shown_def refreshPagination_def)
  show "concat (map (\<lambda>k. pvItems (shown (num (of_nat k)))) [1..<Suc (nat (pvPageCount (shown JUndef)))]) = sortedRows collate v"
    unfolding shown by (rule paginate_partition)
  show "mset (sortedRows collate v) = mset (matching v)"
    by (simp add: sortedRows_def sortClients_def Let_def)
  have "1 \<le> pageCountOf (length (asArray (JArr (sortedRows collate v)))) (normalizePageSize (tvPageSize v))"
    by (rule pageCountOf_ge1)
  from currentPage_bounds [OF this] show "1 \<le> pvPage (shown p)" "pvPage (shown p) \<le> pvPageCount (shown p)"
    by (simp_all add: shown paginate_fields pageAt_fields)
qed

section \<open>Reconciling keeps the nodes\<close>

lemma find_append: "find P (xs @ ys) = (case find P xs of None \<Rightarrow> find P ys | Some x \<Rightarrow> Some x)"
  by (induction xs) auto

lemma existingRows_snoc: "existingRows (xs @ [r]) = (case rnKey r of None \<Rightarrow> existingRows xs
    | Some k \<Rightarrow> if map_of (existingRows xs) k = None then existingRows xs @ [(k, r)] else existingRows xs)"
  by (simp add: existingRows_def split: option.splits)

lemma existingRows_find: "map_of (existingRows xs) k = find (\<lambda>r. rnKey r = Some k) xs"
proof (induction xs rule: rev_induct)
  case (snoc r xs)
  then show ?case
    by (auto simp: existingRows_snoc find_append map_add_def split: option.splits)
qed (simp add: existingRows_def)

lemma existingRows_keys: "(k, r) \<in> set (existingRows xs) \<Longrightarrow> rnKey r = Some k \<and> r \<in> set xs"
  by (induction xs rule: rev_induct) (auto simp: existingRows_snoc existingRows_def [of "[]"] split: option.splits if_splits)

lemma existingRows_distinct: "distinct (map fst (existingRows xs))"
proof (induction xs rule: rev_induct)
  case (snoc r xs)
  then show ?case by (auto simp: existingRows_snoc map_of_eq_None_iff split: option.splits)
qed (simp add: existingRows_def)

lemma existingRows_ids: "distinct (map rnId xs) \<Longrightarrow> distinct (map (rnId \<circ> snd) (existingRows xs))"
proof (induction xs rule: rev_induct)
  case (snoc r xs)
  have "rnId r \<notin> (rnId \<circ> snd) ` set (existingRows xs)"
    using snoc.prems existingRows_keys [of _ _ xs] by force
  then show ?case using snoc by (auto simp: existingRows_snoc split: option.splits)
qed (simp add: existingRows_def)

lemma takeOver_body:
  "\<forall>(k, r) \<in> set ex. rnKey r = Some k \<Longrightarrow>
   map (\<lambda>r. (rnKey r, rnBody r)) (takeOver ex rows) = map (\<lambda>r. (rnKey r, rnBody r)) rows"
  by (induction ex rows rule: takeOver.induct) (auto split: option.splits dest!: map_of_SomeD)

lemma takeOver_ids: "rnId ` set (takeOver ex rows) \<subseteq> rnId ` set rows \<union> (rnId \<circ> snd) ` set ex"
proof (induction ex rows rule: takeOver.induct)
  case (2 ex row rows)
  show ?case
  proof (cases "rnKey row")
    case None
    then show ?thesis using 2(1) by auto
  next
    case (Some k)
    show ?thesis
    proof (cases "map_of ex k")
      case None
      then show ?thesis using 2(2) [OF Some None] Some by auto
    next
      case (Some current)
      have "rnId current \<in> (rnId \<circ> snd) ` set ex" using map_of_SomeD [OF Some] by force
      then show ?thesis using 2(3) [OF \<open>rnKey row = Some k\<close> Some] \<open>rnKey row = Some k\<close> Some by auto
    qed
  qed
qed simp

lemma takeOver_distinct:
  "distinct (map (rnId \<circ> snd) ex) \<Longrightarrow> distinct (map rnId rows) \<Longrightarrow> (rnId \<circ> snd) ` set ex \<inter> rnId ` set rows = {} \<Longrightarrow>
   distinct (map rnId (takeOver ex rows))"
proof (induction ex rows rule: takeOver.induct)
  case (2 ex row rows)
  show ?case
  proof (cases "rnKey row")
    case None
    then show ?thesis using 2(1) [OF None] 2(4-6) takeOver_ids [of ex rows] by auto
  next
    case (Some k)
    show ?thesis
    proof (cases "map_of ex k")
      case None
      then show ?thesis using 2(2) [OF Some None] 2(4-6) Some takeOver_ids [of ex rows] by auto
    next
      case (Some current)
      let ?ex = "filter (\<lambda>(j, _). j \<noteq> k) ex"
      have mem: "(k, current) \<in> set ex" using Some by (rule map_of_SomeD)
      have "distinct (map (rnId \<circ> snd) ?ex)" using 2(4) by (rule distinct_map_filter)
      moreover have "rnId current \<notin> (rnId \<circ> snd) ` set ?ex"
      proof
        assume "rnId current \<in> (rnId \<circ> snd) ` set ?ex"
        then obtain j r where jr: "(j, r) \<in> set ex" "j \<noteq> k" "rnId r = rnId current" by auto
        then have "(j, r) = (k, current)"
          using 2(4) mem unfolding distinct_map by (intro inj_onD [of "rnId \<circ> snd" "set ex"]) auto
        with jr(2) show False by simp
      qed
      moreover have "rnId current \<notin> rnId ` set rows" using 2(6) mem by force
      moreover have "(rnId \<circ> snd) ` set ?ex \<inter> rnId ` set rows = {}" using 2(6) by auto
      moreover have "distinct (map rnId rows)" using 2(5) by simp
      ultimately have "distinct (map rnId (takeOver ?ex rows))" "rnId current \<notin> rnId ` set (takeOver ?ex rows)"
        using 2(3) [OF \<open>rnKey row = Some k\<close> Some] takeOver_ids [of ?ex rows] by blast+
      then show ?thesis using \<open>rnKey row = Some k\<close> Some by simp
    qed
  qed
qed simp

lemma takeOver_nodes:
  "distinct (List.map_filter rnKey rows) \<Longrightarrow>
   map rnId (takeOver ex rows) = map (\<lambda>row. case rnKey row of None \<Rightarrow> rnId row
     | Some k \<Rightarrow> (case map_of ex k of None \<Rightarrow> rnId row | Some cur \<Rightarrow> rnId cur)) rows"
proof (induction ex rows rule: takeOver.induct)
  case (2 ex row rows)
  have other: "map_of (filter (\<lambda>(j, _). j \<noteq> k) ex) j = map_of ex j" if "j \<noteq> k" for j k
    using that by (induction ex) auto
  show ?case
  proof (cases "rnKey row")
    case None
    then show ?thesis using 2(1) [OF None] 2(4) by (simp add: List.map_filter_simps)
  next
    case (Some k)
    then have fresh: "rnKey r \<noteq> Some k" if "r \<in> set rows" for r
      using 2(4) that by (auto simp: List.map_filter_simps map_filter_def image_iff)
    show ?thesis
    proof (cases "map_of ex k")
      case None
      then show ?thesis using 2(2) [OF Some None] 2(4) Some by (simp add: List.map_filter_simps)
    next
      case (Some current)
      let ?node = "\<lambda>ex row. case rnKey row of None \<Rightarrow> rnId row
          | Some k \<Rightarrow> (case map_of ex k of None \<Rightarrow> rnId row | Some cur \<Rightarrow> rnId cur)"
      have "?node (filter (\<lambda>(j, _). j \<noteq> k) ex) r = ?node ex r" if "r \<in> set rows" for r
        using fresh [OF that] by (cases "rnKey r") (auto simp: other)
      then have "map (?node (filter (\<lambda>(j, _). j \<noteq> k) ex)) rows = map (?node ex) rows" by (rule map_cong [OF refl])
      then show ?thesis using 2(3) [OF \<open>rnKey row = Some k\<close> Some] 2(4) \<open>rnKey row = Some k\<close> Some
        by (simp add: List.map_filter_simps)
    qed
  qed
qed simp

lemma insertBefore_at: "c \<notin> set pre \<Longrightarrow> insertBefore x (Some c) (pre @ c # ys) = pre @ x # c # ys"
  by (induction pre) auto

lemma placeRow_at:
  assumes "distinct (pre @ rest)" "row \<notin> set pre"
  shows "\<exists>rest'. placeRow (pre @ rest) (length pre) row = (pre @ [row]) @ rest' \<and> distinct ((pre @ [row]) @ rest')"
proof (cases rest)
  case Nil
  then show ?thesis using assms by (auto simp: placeRow_def removeAll_id)
next
  case (Cons c cs)
  show ?thesis
  proof (cases "c = row")
    case True
    then show ?thesis using assms Cons by (auto simp: placeRow_def nth_append)
  next
    case False
    have "removeAll row (pre @ c # cs) = pre @ c # removeAll row cs" using False assms by (simp add: removeAll_id)
    then have "placeRow (pre @ rest) (length pre) row = pre @ row # c # removeAll row cs"
      using False Cons assms by (simp add: placeRow_def nth_append insertBefore_at)
    then show ?thesis using assms Cons False by (auto simp: distinct_removeAll)
  qed
qed

lemma placeRows_at:
  "distinct (pre @ rest) \<Longrightarrow> distinct (pre @ rows) \<Longrightarrow>
   \<exists>rest'. placeRows (pre @ rest) (length pre) rows = pre @ rows @ rest'"
proof (induction rows arbitrary: pre rest)
  case (Cons row rows)
  from placeRow_at [OF Cons.prems(1), of row] Cons.prems(2) obtain rest' where
    r: "placeRow (pre @ rest) (length pre) row = (pre @ [row]) @ rest'" "distinct ((pre @ [row]) @ rest')" by auto
  from Cons.IH [OF r(2)] Cons.prems(2) show ?case unfolding placeRows.simps r(1) by simp
qed simp

text \<open>
  C34: a refresh of the table body leaves exactly the new rows, in their order and with their
  contents, and a client that was in the table keeps its node, so that sorting moves rows
  instead of replacing them.
\<close>

theorem reconcile_rows:
  fixes children rows :: "'a row_node list"
  assumes ids: "distinct (map rnId children)" "distinct (map rnId rows)"
      "set (map rnId children) \<inter> set (map rnId rows) = {}"
    and keys: "distinct (List.map_filter rnKey rows)"
  defines "out \<equiv> reconcileClientRows children rows"
  shows "fst out = map rnId (snd out) \<and>
    map (\<lambda>r. (rnKey r, rnBody r)) (snd out) = map (\<lambda>r. (rnKey r, rnBody r)) rows \<and>
    map rnId (snd out) = map (\<lambda>row. case rnKey row of None \<Rightarrow> rnId row
      | Some k \<Rightarrow> (case find (\<lambda>r. rnKey r = Some k) children of None \<Rightarrow> rnId row | Some cur \<Rightarrow> rnId cur)) rows"
proof -
  let ?ex = "existingRows children" and ?d = "takeOver (existingRows children) rows"
  have "(rnId \<circ> snd) ` set ?ex \<subseteq> set (map rnId children)" using existingRows_keys by force
  then have "distinct (map rnId ?d)" using ids by (intro takeOver_distinct existingRows_ids) auto
  then obtain rest where "placeRows (map rnId children) 0 (map rnId ?d) = map rnId ?d @ rest"
    using placeRows_at [of "[]" "map rnId children" "map rnId ?d"] ids(1) by auto
  then have "fst out = map rnId ?d" by (simp add: out_def reconcileClientRows_def Let_def)
  moreover have "snd out = ?d" by (simp add: out_def reconcileClientRows_def Let_def)
  moreover have "map (\<lambda>r. (rnKey r, rnBody r)) ?d = map (\<lambda>r. (rnKey r, rnBody r)) rows"
    using existingRows_keys by (intro takeOver_body) auto
  ultimately show ?thesis using takeOver_nodes [OF keys, of ?ex] unfolding existingRows_find by simp
qed

theorem reconcile_rows_witness:
  "fst (reconcileClientRows
     [\<lparr>rnId = 1, rnKey = Some ''a'', rnBody = ''old a''\<rparr>, \<lparr>rnId = 2, rnKey = Some ''b'', rnBody = ''old b''\<rparr>]
     [\<lparr>rnId = 7, rnKey = Some ''b'', rnBody = ''new b''\<rparr>, \<lparr>rnId = 8, rnKey = Some ''c'', rnBody = ''new c''\<rparr>]) = [2, 8]"
  using reconcile_rows [of "[\<lparr>rnId = 1, rnKey = Some ''a'', rnBody = ''old a''\<rparr>, \<lparr>rnId = 2, rnKey = Some ''b'', rnBody = ''old b''\<rparr>]"
     "[\<lparr>rnId = 7, rnKey = Some ''b'', rnBody = ''new b''\<rparr>, \<lparr>rnId = 8, rnKey = Some ''c'', rnBody = ''new c''\<rparr>]"]
  by (simp add: List.map_filter_simps)

end
