(* ===== verification/ConfigForm.thy ===== *)
theory ConfigForm
  imports IfaceConfig
begin

text \<open>
  \<open>lanspeed/configForm.js\<close>, the form of the configuration page: the contract of the status
  reply, loading the configuration file, the values the inputs hold, filling and reading the
  form, its validation, and the editor of the hidden IPv6 ranges. The page is a record with the
  view of the interface section (theory \<open>IfaceConfig\<close>) as a component; nodes are reduced to what
  the code reads from them or shows in them. A disabled control fires no event.

  LuCI's \<open>uci\<close> client is a parameter: a record of its functions on an abstract state, each
  optional where the code tests \<open>typeof\<close>, and returning the error it throws, if any.
\<close>

section \<open>Constants\<close>

definition FIELD_NAMES :: "string list" where
  "FIELD_NAMES = [''refresh_interval_ms'', ''active_client_window_ms'', ''active_client_min_bps'',
     ''overview_window_samples'', ''rate_collector_mode'', ''internet_view_mode'', ''access_edge_mode'',
     ''nss_low_rate_window_ms'', ''nss_low_rate_high_watermark_bps'', ''nss_fifo_target_delay_ms'',
     ''nss_fifo_min_queue_packets'', ''rate_compensation_factor'', ''conn_collector_mode'', ''show_client_status'',
     ''show_ipv6'', ''hide_private_ipv6'', ''hide_ipv6_ranges'', ''collector_mode'', ''max_clients'', ''ifname'',
     ''interface_include'', ''interface_exclude'', ''observe'', ''enable_bpf'', ''enable_conntrack_fallback'']"

definition LIST_FIELDS :: "string list" where
  "LIST_FIELDS = [''ifname'', ''interface_include'', ''interface_exclude'', ''observe'']"

definition BOOLEAN_FIELDS :: "string list" where
  "BOOLEAN_FIELDS = [''show_client_status'', ''show_ipv6'', ''hide_private_ipv6'', ''enable_bpf'',
     ''enable_conntrack_fallback'']"

definition NUMBER_FIELDS :: "string list" where
  "NUMBER_FIELDS = [''refresh_interval_ms'', ''active_client_window_ms'', ''active_client_min_bps'',
     ''overview_window_samples'', ''max_clients'']"

definition NSS_NUMBER_FIELDS :: "string list" where
  "NSS_NUMBER_FIELDS = [''nss_low_rate_window_ms'', ''nss_low_rate_high_watermark_bps'',
     ''nss_fifo_target_delay_ms'', ''nss_fifo_min_queue_packets'', ''rate_compensation_factor'']"

section \<open>The contract of the status reply\<close>

definition formText :: "jval \<Rightarrow> string" where
  "formText v = (if nullish v then [] else toStr v)"

fun plainObject :: "jval \<Rightarrow> bool" where
  "plainObject (JObj _) = True"
| "plainObject _ = False"

definition oneOf :: "string list \<Rightarrow> jval \<Rightarrow> bool" where
  "oneOf names v = (v \<in> JStr ` set names)"

definition wholePeriod :: "jval \<Rightarrow> bool" where
  "wholePeriod v = (case v of JNum (Fin q) \<Rightarrow> of_int \<lfloor>q\<rfloor> = q \<and> q \<ge> 500 | _ \<Rightarrow> False)"

definition nullOrText :: "jval \<Rightarrow> bool" where
  "nullOrText v = (nullish v \<or> isStr v)"

definition statusContractIssue :: "jval \<Rightarrow> mtext option" where
  "statusContractIssue status = (
     if \<not> plainObject status then Some (Tr ''the reply is no object'')
     else if \<not> oneOf [''Full'', ''Degraded'', ''Unsupported''] (jget status ''mode'') then Some (Tr ''invalid running mode'')
     else if \<not> oneOf [''high'', ''medium'', ''low'', ''unsupported''] (jget status ''confidence'')
     then Some (Tr ''invalid confidence'')
     else if \<not> isArr (jget status ''warnings'') \<or> list_ex (\<lambda>w. \<not> isStr w) (arrItems (jget status ''warnings''))
     then Some (Tr ''invalid warnings'')
     else if \<not> isStr (jget status ''version'') \<or> jtrim (toStr (jget status ''version'')) = []
     then Some (Tr ''invalid version'')
     else if \<not> oneOf [''auto'', ''bpf'', ''nss_ecm_node'', ''nss_ecm_bpf''] (jget status ''rate_collector_mode'')
     then Some (Tr ''invalid rate mode'')
     else if \<not> oneOf [''auto'', ''conntrack_netlink'', ''conntrack_procfs''] (jget status ''conn_collector_mode'')
     then Some (Tr ''invalid connection mode'')
     else if jget status ''access_edge_mode'' \<noteq> JUndef \<and> \<not> oneOf [''off'', ''shadow'', ''active''] (jget status ''access_edge_mode'')
     then Some (Tr ''invalid access point mode'')
     else if \<not> wholePeriod (jget status ''refresh_interval_ms'') then Some (Tr ''invalid sampling period'')
     else (let caps = jget status ''capabilities''; evidence = jget status ''evidence''; collector = jget evidence ''collector'' in
       if \<not> plainObject caps \<or> list_ex (\<lambda>n. \<not> hasOwn caps n \<or> \<not> isBool (jget caps n)) [''bpf'', ''conntrack_fallback''] \<or>
         list_ex (\<lambda>n. \<not> isBool (jget caps n)) (objectKeys caps)
       then Some (Tr ''invalid capabilities'')
       else if \<not> plainObject evidence then Some (Tr ''invalid evidence'')
       else if \<not> nullOrText (jget evidence ''effective_collector'') then Some (Tr ''invalid effective rate source'')
       else if collector = JUndef then None
       else if \<not> plainObject collector then Some (Tr ''invalid collector evidence'')
       else if list_ex (\<lambda>n. \<not> nullOrText (jget collector n)) [''primary_source'', ''effective_connection_collector''] \<or>
         list_ex (\<lambda>n. jget collector n \<noteq> JUndef \<and> \<not> isBool (jget collector n))
           [''conntrack_netlink_available'', ''conntrack_procfs_available'']
       then Some (Tr ''invalid collector evidence'')
       else None))"

section \<open>Error texts\<close>

definition limitText :: "(limit \<Rightarrow> rat) \<Rightarrow> string \<Rightarrow> mtext" where
  "limitText f field = (case map_of LIMITS field of Some l \<Rightarrow> NumT (Fin (f l)) | None \<Rightarrow> Lit ''undefined'')"

definition errorMessages :: "string \<Rightarrow> (string \<times> mtext) list" where
  "errorMessages field = [
     (''integer_required'', Tr ''enter a whole number''),
     (''decimal_required'', Tr ''enter a factor with at most two decimals''),
     (''integer_out_of_range'', Tr ''the number is beyond what the browser handles safely''),
     (''below_min'', Fmt ''the value must not be below %s'' [limitText lim_min field]),
     (''above_max'', Fmt ''the value must not be above %s'' [limitText lim_max field]),
     (''boolean_required'', Tr ''a switch is 0 or 1''),
     (''enum_required'', Tr ''the configured value is not supported, choose again''),
     (''cidr_invalid'', Tr ''enter a valid IPv6 CIDR, such as 2001:db8::/32''),
     (''cidr_required'', Tr ''enter an IPv6 CIDR with a prefix length''),
     (''ipv6_required'', Tr ''only IPv6 addresses are accepted here''),
     (''prefix_required'', Tr ''the prefix length is a whole number from 0 to 128''),
     (''prefix_out_of_range'', Tr ''the prefix length is from 0 to 128''),
     (''too_many_ranges'', Tr ''too many IPv6 ranges''),
     (''interface_invalid'', Tr ''the interface list has an invalid name''),
     (''too_many_interfaces'', Tr ''more interfaces than the daemon takes''),
     (''bpf_disabled'', Tr ''enable CPU traffic detection (BPF) first, or use the automatic precise mode''),
     (''bpf_unavailable'', Tr ''the environment lacks BPF''),
     (''no_collect_interface'', Tr ''forced BPF needs at least one collected interface''),
     (''nss_node_unavailable'', Tr ''the device has no NSS ECM node counters''),
     (''nss_ecm_bpf_unavailable'', Tr ''the device lacks NSS ECM, BTF or the BPF object that ECM+BPF needs''),
     (''conntrack_fallback_disabled'', Tr ''allow the connection tracking fallback first, or choose another rate mode''),
     (''conntrack_netlink_unavailable'', Tr ''the environment has no CT-Netlink''),
     (''conntrack_procfs_unavailable'', Tr ''the environment has no CT-Procfs''),
     (''capability_unavailable'', Tr ''the environment does not support this value'')]"

definition errorMessage :: "string \<Rightarrow> string \<Rightarrow> mtext" where
  "errorMessage c field = (case map_of (errorMessages field) c of Some t \<Rightarrow> t
     | None \<Rightarrow> if c \<in> set protoKeys then Lit (toStr (JProto c))
               else if c \<noteq> [] then Lit c else Tr ''invalid configuration value'')"

section \<open>The configuration store\<close>

text \<open>
  \<open>uci\<close> of LuCI, for the section \<open>lanspeed.main\<close>. A call returns the error it throws, if
  any, and the next state; \<open>save\<close> and \<open>load\<close> return promises, which settle in a later step
  with a state of their own.
\<close>

type_synonym 'u act = "'u \<Rightarrow> mtext option \<times> 'u"

record 'u uci_api =
  uGet :: "'u \<Rightarrow> string \<Rightarrow> jval"
  uSet :: "string \<Rightarrow> jval \<Rightarrow> 'u act"
  uUnset :: "string \<Rightarrow> 'u act"
  uAdd :: "'u act option"
  uRemove :: "'u act option"
  uUnload :: "'u act option"
  uHasLoad :: bool
  uHasSave :: bool
  uSections :: "('u \<Rightarrow> mtext + jval list) option"
  uMain :: "'u \<Rightarrow> jval"

definition rawUciValues :: "'u uci_api \<Rightarrow> 'u \<Rightarrow> jval" where
  "rawUciValues api u = JObj (map (\<lambda>n. (n, uGet api u n)) FIELD_NAMES @ [(''dedicated_port'', uGet api u ''dedicated_port'')])"

definition hasMainSection :: "'u uci_api \<Rightarrow> 'u \<Rightarrow> jval \<Rightarrow> bool" where
  "hasMainSection api u raw = (
     if list_ex (\<lambda>n. \<not> nullish (jget raw n)) FIELD_NAMES then True
     else (case uSections api of
         Some f \<Rightarrow> (case f u of Inl e \<Rightarrow> False
           | Inr ss \<Rightarrow> list_ex (\<lambda>s. truthy s \<and> (jget s ''.name'' = JStr ''main'' \<or> jget s ''name'' = JStr ''main'')) ss)
       | None \<Rightarrow> truthy (uMain api u) \<and> typeofObject (uMain api u)))"

definition interfaceConfigFrom :: "jval \<Rightarrow> jval" where
  "interfaceConfigFrom raw = JObj (map (\<lambda>n. (n, JArr (map JStr (nr_valid (parseInterfaceList (jget raw n)))))) LIST_FIELDS @
     [(''present'', JObj (map (\<lambda>n. (n, JBool (\<not> nullish (jget raw n)))) LIST_FIELDS))])"

record load_data =
  ldModel :: normalized
  ldRaw :: jval
  ldStatus :: jval
  ldStatusOk :: bool
  ldPhase :: string
  ldError :: "mtext option"
  ldSectionMissing :: bool
  ldPageState :: string
  ldInterfaces :: jval

definition loadStatus :: "answer \<Rightarrow> load_data \<Rightarrow> load_data" where
  "loadStatus a d = (case a of
     Data status \<Rightarrow> (case statusContractIssue status of
         None \<Rightarrow> d\<lparr>ldStatus := status, ldStatusOk := True, ldPhase := ''success'', ldError := None\<rparr>
       | Some issue \<Rightarrow> d\<lparr>ldStatus := JObj [], ldStatusOk := False, ldPhase := ''invalid'',
           ldError := Some (Fmt ''the running state returned invalid data: %s'' [issue]), ldPageState := ''degraded''\<rparr>)
   | Failed e \<Rightarrow> d\<lparr>ldStatus := JObj [], ldStatusOk := False, ldPhase := ''error'', ldError := Some e, ldPageState := ''degraded''\<rparr>)"

text \<open>\<open>loadValues\<close> after \<open>uci.load\<close> resolved; a rejected load shows the failure page instead.\<close>

definition loadValues :: "'u uci_api \<Rightarrow> 'u \<Rightarrow> answer \<Rightarrow> load_data" where
  "loadValues api u a = (let raw = rawUciValues api u; n = normalize raw; present = hasMainSection api u raw in
     loadStatus a \<lparr>ldModel = n, ldRaw = raw, ldStatus = JObj [], ldStatusOk = False, ldPhase = [], ldError = None,
       ldSectionMissing = (\<not> present),
       ldPageState = (if \<not> present then ''empty'' else if normalizedValid n then ''ready'' else ''degraded''),
       ldInterfaces = interfaceConfigFrom raw\<rparr>)"

section \<open>The page\<close>

text \<open>
  The values of the number inputs and of the selects, the switches, the two selects that are
  rendered again and again, the editor of the ranges, the error shown at each field, and the
  controls that are disabled (the buttons that remove a range count as one).
\<close>

record config_form =
  fmValue :: "(string \<times> string) list"
  fmChecked :: "(string \<times> bool) list"
  fmRateChoices :: "mode_choice list"
  fmConnChoices :: "mode_choice list"
  fmRanges :: "string list"
  fmRangeInput :: string
  fmRangeInvalid :: bool
  fmErrors :: "(string \<times> mtext option) list"
  fmDisabled :: "string list"

record cfg_plan =
  cpValues :: props
  cpIface :: save_plan
  cpPatch :: uci_patch

text \<open>
  \<open>viewState\<close>. \<open>pgNss\<close> is whether the page was built with the inputs of the NSS platform,
  \<open>pgShown\<close> the state and the busy flag of the root, \<open>pgActions\<close> whether the native save and
  reset buttons are disabled.
\<close>

record page =
  pgIface :: iface_view
  pgForm :: config_form
  pgNss :: bool
  pgStatus :: jval
  pgStatusOk :: bool
  pgLoadState :: string
  pgRaw :: jval
  pgInitial :: props
  pgCurrent :: props
  pgValidation :: "validated option"
  pgPlan :: "save_plan option"
  pgSectionMissing :: bool
  pgInitialIface :: jval
  pgLastPlan :: "cfg_plan option"
  pgStaged :: bool
  pgDirty :: bool
  pgSaveState :: string
  pgSaveText :: mtext
  pgRuntime :: "mtext \<times> string"
  pgShown :: "string \<times> bool"
  pgActions :: "bool \<times> bool"

definition updatePageState :: "page \<Rightarrow> page" where
  "updatePageState p = (let v = pgIface p; st = fst (interfaceStatus v) in
     p\<lparr>pgShown := ((if st = ''loading'' \<and> \<not> ifcfgLoaded v then ''loading''
         else if st = ''hard-error'' \<and> \<not> ifcfgLoaded v then ''hard-error''
         else if st = ''degraded'' \<or> pgLoadState p = ''degraded'' then ''degraded''
         else if st = ''empty'' then ''empty''
         else if pgLoadState p \<noteq> [] then pgLoadState p else ''ready''),
       configSaving v \<or> ifcfgLoading v)\<rparr>)"

definition setFeedback :: "string \<Rightarrow> mtext \<Rightarrow> page \<Rightarrow> page" where
  "setFeedback st msg p = updatePageState (p\<lparr>pgSaveState := st, pgSaveText := msg\<rparr>)"

definition setNativeActionState :: "bool \<Rightarrow> bool \<Rightarrow> page \<Rightarrow> page" where
  "setNativeActionState valid busy p = p\<lparr>pgActions := (busy \<or> \<not> valid, busy)\<rparr>"

definition setDisabled :: "string \<Rightarrow> bool \<Rightarrow> config_form \<Rightarrow> config_form" where
  "setDisabled n b fm = fm\<lparr>fmDisabled := (if b then n # filter (\<lambda>x. x \<noteq> n) (fmDisabled fm) else filter (\<lambda>x. x \<noteq> n) (fmDisabled fm))\<rparr>"

definition setValue :: "string \<Rightarrow> string \<Rightarrow> config_form \<Rightarrow> config_form" where
  "setValue n s fm = fm\<lparr>fmValue := map (\<lambda>(m, w). (m, if m = n then s else w)) (fmValue fm)\<rparr>"

definition hasInput :: "config_form \<Rightarrow> string \<Rightarrow> bool" where
  "hasInput fm n \<longleftrightarrow> map_of (fmValue fm) n \<noteq> None"

definition inputValue :: "config_form \<Rightarrow> string \<Rightarrow> string" where
  "inputValue fm n = (case map_of (fmValue fm) n of Some s \<Rightarrow> s | None \<Rightarrow> [])"

definition isChecked :: "config_form \<Rightarrow> string \<Rightarrow> bool" where
  "isChecked fm n = (map_of (fmChecked fm) n = Some True)"

text \<open>A select has the value assigned to it if one of its options has it, and else none.\<close>

definition selectValue :: "mode_choice list \<Rightarrow> string \<Rightarrow> string" where
  "selectValue choices v = (if v \<in> mc_value ` set choices then v else [])"

section \<open>Reading and validating the form\<close>

definition listOf :: "page \<Rightarrow> string \<Rightarrow> jval" where
  "listOf p n = jor (jget (jor (ifaceOriginal (pgIface p)) (JObj [])) n) (JArr [])"

definition readInputs :: "config_form \<Rightarrow> props \<Rightarrow> props" where
  "readInputs fm vs = (let
       v1 = foldl (\<lambda>acc n. putProp n (JStr (inputValue fm n)) acc) vs NUMBER_FIELDS;
       v2 = foldl (\<lambda>acc n. if hasInput fm n then putProp n (JStr (inputValue fm n)) acc else acc) v1 NSS_NUMBER_FIELDS;
       v3 = putProp ''rate_collector_mode'' (JStr (inputValue fm ''rate_collector_mode'')) v2;
       v4 = putProp ''internet_view_mode''
         (JStr (if hasInput fm ''internet_view_mode'' then inputValue fm ''internet_view_mode'' else ''off'')) v3;
       v5 = putProp ''access_edge_mode''
         (JStr (if hasInput fm ''access_edge_mode'' then inputValue fm ''access_edge_mode'' else ''off'')) v4;
       v6 = putProp ''conn_collector_mode'' (JStr (inputValue fm ''conn_collector_mode'')) v5;
       v7 = foldl (\<lambda>acc n. putProp n (JStr (if isChecked fm n then ''1'' else ''0'')) acc) v6 BOOLEAN_FIELDS
     in putProp ''hide_ipv6_ranges'' (JStr (joinStr '' '' (fmRanges fm))) v7)"

definition readForm :: "page \<Rightarrow> props" where
  "readForm p = (let v8 = readInputs (pgForm p) (cloneValues (JObj (pgCurrent p)));
       v9 = putProp ''collector_mode'' (JStr (collectorModeFor (JObj v8))) v8
     in foldl (\<lambda>acc n. putProp n (listOf p n) acc) v9 LIST_FIELDS)"

fun glossOf :: "mtext \<Rightarrow> string" where
  "glossOf (Lit s) = s"
| "glossOf (Tr s) = s"
| "glossOf (Fmt s ts) = s @ concat (map glossOf ts)"
| "glossOf (NumT n) = numToString n"
| "glossOf (Cat ts) = concat (map glossOf ts)"

definition planErrorCodes :: "save_plan \<Rightarrow> (string \<times> string) list" where
  "planErrorCodes plan = (case planErrors plan of None \<Rightarrow> [] | Some t \<Rightarrow> [(''interfaces'', glossOf t)])"

definition withDesired :: "save_plan \<Rightarrow> props \<Rightarrow> props" where
  "withDesired plan vs = (case planDesired plan of None \<Rightarrow> vs
     | Some desired \<Rightarrow> foldl (\<lambda>acc n. putProp n (case map_of desired n of Some ns \<Rightarrow> JArr (map JStr ns) | None \<Rightarrow> JArr []) acc)
         vs LIST_FIELDS)"

definition checkForm :: "page \<Rightarrow> validated" where
  "checkForm p = (let plan = prepareIfaceSave (pgIface p) in
     validate (JObj (withDesired plan (normalizeValues (pgStatus p) (JObj (readForm p))))) (jor (pgStatus p) (JObj []))
       (planErrorCodes plan))"

definition updateDependencies :: "page \<Rightarrow> page" where
  "updateDependencies p = (let vs = JObj (readForm p); busy = configSaving (pgIface p); status = jor (pgStatus p) (JObj []);
       rate = modeChoices ''rate'' status vs; conn = modeChoices ''connection'' status vs;
       ranges = (\<not> busy \<and> jget vs ''show_ipv6'' = JStr ''1'' \<and> jget vs ''hide_private_ipv6'' = JStr ''1'');
       edge = (busy \<or> \<not> showAccessEdge (formPolicy (pgStatus p)));
       f1 = setValue ''rate_collector_mode'' (selectValue rate (toStr (jget vs ''rate_collector_mode'')))
              ((pgForm p)\<lparr>fmRateChoices := rate\<rparr>);
       f2 = setValue ''conn_collector_mode'' (selectValue conn (toStr (jget vs ''conn_collector_mode'')))
              (f1\<lparr>fmConnChoices := conn\<rparr>);
       f3 = setDisabled ''hide_private_ipv6'' (busy \<or> jget vs ''show_ipv6'' \<noteq> JStr ''1'') f2;
       f4 = (if hasInput f3 ''access_edge_mode'' then setDisabled ''access_edge_mode'' edge f3 else f3);
       f5 = (if hasInput f4 ''internet_view_mode'' then setDisabled ''internet_view_mode'' edge f4 else f4)
     in p\<lparr>pgForm := setDisabled ''range-remove'' (\<not> ranges) (setDisabled ''range-add'' (\<not> ranges)
            (setDisabled ''range-input'' (\<not> ranges) f5))\<rparr>)"

definition showErrors :: "(string \<times> string) list \<Rightarrow> config_form \<Rightarrow> config_form" where
  "showErrors errors fm = fm\<lparr>fmErrors := map (\<lambda>(n, _). (n, map_option (\<lambda>c. errorMessage c n) (map_of errors n))) (fmErrors fm)\<rparr>"

definition validateForm :: "page \<Rightarrow> page" where
  "validateForm p = (let plan = prepareIfaceSave (pgIface p); v = checkForm p;
       p1 = p\<lparr>pgCurrent := vd_values v, pgValidation := Some v, pgPlan := Some plan, pgForm := showErrors (vd_errors v) (pgForm p)\<rparr>;
       p2 = (case planErrors plan of
           Some t \<Rightarrow> setFeedback ''invalid'' t p1
         | None \<Rightarrow> if \<not> vd_valid v then setFeedback ''invalid'' (Tr ''correct the marked options first'') p1
             else if pgDirty p1 \<or> ifcfgDirty (pgIface p1) then setFeedback ''dirty'' (Tr ''changed, not saved yet'') p1
             else if pgSaveState p1 = ''invalid'' \<or> pgSaveState p1 = ''dirty'' then setFeedback ''ready'' noText p1
             else p1)
     in setNativeActionState (vd_valid v) (configSaving (pgIface p)) (updateDependencies p2))"

text \<open>\<open>viewState.markDirty\<close> of \<open>configView.js\<close>, with \<open>showNativeDirtyIndicator\<close>.\<close>

definition showNativeDirtyIndicator :: "page \<Rightarrow> page" where
  "showNativeDirtyIndicator p = (if pgDirty p \<or> configSaving (pgIface p) then p else p\<lparr>pgDirty := True\<rparr>)"

definition markFormDirty :: "page \<Rightarrow> page" where
  "markFormDirty p = updatePageState (validateForm (showNativeDirtyIndicator p))"

definition formChanged :: "page \<Rightarrow> page" where
  "formChanged p = (if configSaving (pgIface p) then p else validateForm (markFormDirty p))"

section \<open>Filling the form, editing\<close>

definition buildRangeList :: "page \<Rightarrow> page" where
  "buildRangeList p = updateDependencies (p\<lparr>pgForm := setDisabled ''range-remove'' False (pgForm p)\<rparr>)"

definition fillTexts :: "jval \<Rightarrow> config_form \<Rightarrow> config_form" where
  "fillTexts vs fm = (let
       f1 = foldl (\<lambda>f n. setValue n (toStr (jget vs n)) f) fm NUMBER_FIELDS;
       f2 = foldl (\<lambda>f n. if jget vs n \<noteq> JUndef then setValue n (toStr (jget vs n)) f else f) f1 NSS_NUMBER_FIELDS;
       f3 = setValue ''rate_collector_mode'' (selectValue (fmRateChoices f2) (toStr (jget vs ''rate_collector_mode''))) f2;
       f4 = setValue ''internet_view_mode'' (toStr (jget vs ''internet_view_mode'')) f3;
       f5 = setValue ''access_edge_mode'' (toStr (jget vs ''access_edge_mode'')) f4;
       f6 = setValue ''conn_collector_mode'' (selectValue (fmConnChoices f5) (toStr (jget vs ''conn_collector_mode''))) f5
     in f6)"

definition fillInputs :: "jval \<Rightarrow> config_form \<Rightarrow> config_form" where
  "fillInputs vs fm = (fillTexts vs fm)\<lparr>fmChecked := map (\<lambda>n. (n, jget vs n = JStr ''1'')) BOOLEAN_FIELDS,
          fmRanges := nr_valid (parseCidrList (jget vs ''hide_ipv6_ranges'')), fmRangeInput := []\<rparr>"

definition fillForm :: "jval \<Rightarrow> page \<Rightarrow> page" where
  "fillForm v p = (let vs = normalizeValues (pgStatus p) (JObj (nvalues (normalize (jor v (JObj DEFAULTS)))));
       p1 = buildRangeList (p\<lparr>pgForm := fillInputs (JObj vs) (pgForm p)\<rparr>)
     in updateDependencies (p1\<lparr>pgCurrent := cloneValues (JObj vs)\<rparr>))"

definition resetDefaults :: "page \<Rightarrow> page" where
  "resetDefaults p = (let d = normalizeValues (pgStatus p) (JObj DEFAULTS);
       d' = foldl (\<lambda>acc n. putProp n (listOf p n) acc) d LIST_FIELDS
     in formChanged (fillForm (JObj d') p))"

definition setFieldError :: "string \<Rightarrow> string \<Rightarrow> config_form \<Rightarrow> config_form" where
  "setFieldError n c fm = fm\<lparr>fmErrors := map (\<lambda>(m, e). (m, if m = n then Some (errorMessage c n) else e)) (fmErrors fm)\<rparr>"

definition addRange :: "page \<Rightarrow> page" where
  "addRange p = (let fm = pgForm p; r = parseCidr (JStr (fmRangeInput fm)); s = toStr (pr_value r) in
     if \<not> pr_valid r then p\<lparr>pgForm := (setFieldError ''hide_ipv6_ranges'' (pr_reason r) fm)\<lparr>fmRangeInvalid := True\<rparr>\<rparr>
     else if s \<notin> set (fmRanges fm) \<and> length (fmRanges fm) \<ge> MAX_RANGE_ITEMS
     then p\<lparr>pgForm := setFieldError ''hide_ipv6_ranges'' ''too_many_ranges'' fm\<rparr>
     else formChanged (buildRangeList (p\<lparr>pgForm := fm\<lparr>
       fmRanges := (if s \<in> set (fmRanges fm) then fmRanges fm else fmRanges fm @ [s]),
       fmRangeInput := [], fmRangeInvalid := False\<rparr>\<rparr>)))"

definition removeRange :: "string \<Rightarrow> page \<Rightarrow> page" where
  "removeRange s p = formChanged (buildRangeList (p\<lparr>pgForm := (pgForm p)\<lparr>fmRanges := filter (\<lambda>x. x \<noteq> s) (fmRanges (pgForm p))\<rparr>\<rparr>))"

definition typeValue :: "string \<Rightarrow> string \<Rightarrow> page \<Rightarrow> page" where
  "typeValue n s p = formChanged (p\<lparr>pgForm := setValue n s (pgForm p)\<rparr>)"

definition toggle :: "string \<Rightarrow> bool \<Rightarrow> page \<Rightarrow> page" where
  "toggle n b p = formChanged (p\<lparr>pgForm := (pgForm p)\<lparr>fmChecked := map (\<lambda>(m, w). (m, if m = n then b else w)) (fmChecked (pgForm p))\<rparr>\<rparr>)"

section \<open>Building the page\<close>

definition nssRows :: "string list" where
  "nssRows = [''access_edge_mode'', ''internet_view_mode''] @ NSS_NUMBER_FIELDS"

definition formRows :: "bool \<Rightarrow> string list" where
  "formRows nss = [''rate_collector_mode''] @ (if nss then nssRows else []) @ [''conn_collector_mode'', ''enable_bpf'',
     ''enable_conntrack_fallback'', ''refresh_interval_ms'', ''overview_window_samples'', ''max_clients'',
     ''active_client_window_ms'', ''active_client_min_bps'', ''show_client_status'', ''show_ipv6'', ''hide_private_ipv6'',
     ''hide_ipv6_ranges'']"

definition buildForm :: "jval \<Rightarrow> bool \<Rightarrow> jval \<Rightarrow> config_form" where
  "buildForm status nss vs = (let rate = modeChoices ''rate'' status vs; conn = modeChoices ''connection'' status vs;
       given = (\<lambda>n. (n, toStr (jget vs n))) in
     \<lparr>fmValue = map given (NUMBER_FIELDS @ (if nss then NSS_NUMBER_FIELDS else [])) @
        [(''rate_collector_mode'', selectValue rate (toStr (jget vs ''rate_collector_mode'')))] @
        (if nss then map given [''access_edge_mode'', ''internet_view_mode''] else []) @
        [(''conn_collector_mode'', selectValue conn (toStr (jget vs ''conn_collector_mode'')))],
      fmChecked = map (\<lambda>n. (n, jget vs n = JStr ''1'')) BOOLEAN_FIELDS, fmRateChoices = rate, fmConnChoices = conn,
      fmRanges = nr_valid (parseCidrList (jget vs ''hide_ipv6_ranges'')), fmRangeInput = [], fmRangeInvalid = False,
      fmErrors = map (\<lambda>n. (n, None)) (formRows nss), fmDisabled = []\<rparr>)"

definition applyRuntimeInfo :: "jval \<Rightarrow> page \<Rightarrow> page" where
  "applyRuntimeInfo status p = p\<lparr>pgRuntime := (runtimeInfo status, if pgStatusOk p then ''ready'' else ''degraded'')\<rparr>"

definition buildDaemonSection :: "load_data \<Rightarrow> page" where
  "buildDaemonSection d = (let status = ldStatus d; nss = showAccessEdge (formPolicy status);
       vs = normalizeValues status (JObj (nvalues (normalize (JObj (nvalues (ldModel d))))));
       p = \<lparr>pgIface = ifaceInit (ldInterfaces d), pgForm = buildForm status nss (JObj vs), pgNss = nss, pgStatus = status,
         pgStatusOk = ldStatusOk d, pgLoadState = ldPageState d, pgRaw = ldRaw d, pgInitial = cloneValues (JObj vs),
         pgCurrent = cloneValues (JObj vs), pgValidation = None, pgPlan = None, pgSectionMissing = ldSectionMissing d,
         pgInitialIface = ldInterfaces d, pgLastPlan = None, pgStaged = False, pgDirty = False, pgSaveState = [],
         pgSaveText = noText, pgRuntime = (noText, []), pgShown = (ldPageState d, True), pgActions = (False, False)\<rparr>;
       p1 = applyRuntimeInfo status (buildRangeList p)
     in updateDependencies (p1\<lparr>pgForm := foldl (\<lambda>f (n, c). setFieldError n c f) (pgForm p1) (nerrors (ldModel d))\<rparr>))"

text \<open>\<open>render\<close> of \<open>configView.js\<close>, up to the first scan of the interfaces.\<close>

definition renderPage :: "load_data \<Rightarrow> page" where
  "renderPage d = (let p = buildDaemonSection d in
     updatePageState (
       if \<not> normalizedValid (ldModel d) then setFeedback ''degraded'' (Tr ''invalid options, safe defaults are shown'') p
       else if \<not> ldStatusOk d then setFeedback ''degraded'' (Tr ''the running state could not be read'') p
       else setFeedback (if ldPageState d = ''empty'' then ''empty'' else ''ready'') noText p))"

section \<open>What the operations of the page leave alone\<close>

lemma updatePageState_keeps [simp]:
  "pgIface (updatePageState p) = pgIface p"
  "pgNss (updatePageState p) = pgNss p"
  "pgStatus (updatePageState p) = pgStatus p"
  "pgStatusOk (updatePageState p) = pgStatusOk p"
  "pgLoadState (updatePageState p) = pgLoadState p"
  "pgRaw (updatePageState p) = pgRaw p"
  "pgInitial (updatePageState p) = pgInitial p"
  "pgSectionMissing (updatePageState p) = pgSectionMissing p"
  "pgInitialIface (updatePageState p) = pgInitialIface p"
  "pgLastPlan (updatePageState p) = pgLastPlan p"
  "pgStaged (updatePageState p) = pgStaged p"
  "pgRuntime (updatePageState p) = pgRuntime p"
  "pgDirty (updatePageState p) = pgDirty p"
  "pgCurrent (updatePageState p) = pgCurrent p"
  "pgValidation (updatePageState p) = pgValidation p"
  "pgPlan (updatePageState p) = pgPlan p"
  "pgSaveState (updatePageState p) = pgSaveState p"
  "pgSaveText (updatePageState p) = pgSaveText p"
  "pgActions (updatePageState p) = pgActions p"
  "pgForm (updatePageState p) = pgForm p"
  by (simp_all add: updatePageState_def Let_def)

lemma setFeedback_keeps [simp]:
  "pgIface (setFeedback st msg p) = pgIface p"
  "pgNss (setFeedback st msg p) = pgNss p"
  "pgStatus (setFeedback st msg p) = pgStatus p"
  "pgStatusOk (setFeedback st msg p) = pgStatusOk p"
  "pgLoadState (setFeedback st msg p) = pgLoadState p"
  "pgRaw (setFeedback st msg p) = pgRaw p"
  "pgInitial (setFeedback st msg p) = pgInitial p"
  "pgSectionMissing (setFeedback st msg p) = pgSectionMissing p"
  "pgInitialIface (setFeedback st msg p) = pgInitialIface p"
  "pgLastPlan (setFeedback st msg p) = pgLastPlan p"
  "pgStaged (setFeedback st msg p) = pgStaged p"
  "pgRuntime (setFeedback st msg p) = pgRuntime p"
  "pgDirty (setFeedback st msg p) = pgDirty p"
  "pgCurrent (setFeedback st msg p) = pgCurrent p"
  "pgValidation (setFeedback st msg p) = pgValidation p"
  "pgPlan (setFeedback st msg p) = pgPlan p"
  "pgActions (setFeedback st msg p) = pgActions p"
  "pgForm (setFeedback st msg p) = pgForm p"
  by (simp_all add: setFeedback_def)

lemma setNativeActionState_keeps [simp]:
  "pgIface (setNativeActionState v b p) = pgIface p"
  "pgNss (setNativeActionState v b p) = pgNss p"
  "pgStatus (setNativeActionState v b p) = pgStatus p"
  "pgStatusOk (setNativeActionState v b p) = pgStatusOk p"
  "pgLoadState (setNativeActionState v b p) = pgLoadState p"
  "pgRaw (setNativeActionState v b p) = pgRaw p"
  "pgInitial (setNativeActionState v b p) = pgInitial p"
  "pgSectionMissing (setNativeActionState v b p) = pgSectionMissing p"
  "pgInitialIface (setNativeActionState v b p) = pgInitialIface p"
  "pgLastPlan (setNativeActionState v b p) = pgLastPlan p"
  "pgStaged (setNativeActionState v b p) = pgStaged p"
  "pgRuntime (setNativeActionState v b p) = pgRuntime p"
  "pgDirty (setNativeActionState v b p) = pgDirty p"
  "pgCurrent (setNativeActionState v b p) = pgCurrent p"
  "pgValidation (setNativeActionState v b p) = pgValidation p"
  "pgPlan (setNativeActionState v b p) = pgPlan p"
  "pgSaveState (setNativeActionState v b p) = pgSaveState p"
  "pgSaveText (setNativeActionState v b p) = pgSaveText p"
  "pgShown (setNativeActionState v b p) = pgShown p"
  "pgForm (setNativeActionState v b p) = pgForm p"
  by (simp_all add: setNativeActionState_def)

lemma updateDependencies_keeps [simp]:
  "pgIface (updateDependencies p) = pgIface p"
  "pgNss (updateDependencies p) = pgNss p"
  "pgStatus (updateDependencies p) = pgStatus p"
  "pgStatusOk (updateDependencies p) = pgStatusOk p"
  "pgLoadState (updateDependencies p) = pgLoadState p"
  "pgRaw (updateDependencies p) = pgRaw p"
  "pgInitial (updateDependencies p) = pgInitial p"
  "pgSectionMissing (updateDependencies p) = pgSectionMissing p"
  "pgInitialIface (updateDependencies p) = pgInitialIface p"
  "pgLastPlan (updateDependencies p) = pgLastPlan p"
  "pgStaged (updateDependencies p) = pgStaged p"
  "pgRuntime (updateDependencies p) = pgRuntime p"
  "pgDirty (updateDependencies p) = pgDirty p"
  "pgCurrent (updateDependencies p) = pgCurrent p"
  "pgValidation (updateDependencies p) = pgValidation p"
  "pgPlan (updateDependencies p) = pgPlan p"
  "pgSaveState (updateDependencies p) = pgSaveState p"
  "pgSaveText (updateDependencies p) = pgSaveText p"
  "pgShown (updateDependencies p) = pgShown p"
  "pgActions (updateDependencies p) = pgActions p"
  by (simp_all add: updateDependencies_def Let_def)

lemma validateForm_keeps [simp]:
  "pgIface (validateForm p) = pgIface p"
  "pgNss (validateForm p) = pgNss p"
  "pgStatus (validateForm p) = pgStatus p"
  "pgStatusOk (validateForm p) = pgStatusOk p"
  "pgLoadState (validateForm p) = pgLoadState p"
  "pgRaw (validateForm p) = pgRaw p"
  "pgInitial (validateForm p) = pgInitial p"
  "pgSectionMissing (validateForm p) = pgSectionMissing p"
  "pgInitialIface (validateForm p) = pgInitialIface p"
  "pgLastPlan (validateForm p) = pgLastPlan p"
  "pgStaged (validateForm p) = pgStaged p"
  "pgRuntime (validateForm p) = pgRuntime p"
  "pgDirty (validateForm p) = pgDirty p"
  by (simp_all add: validateForm_def Let_def split: option.split)

lemma dirty_keeps [simp]:
  "pgIface (showNativeDirtyIndicator p) = pgIface p"
  "pgNss (showNativeDirtyIndicator p) = pgNss p"
  "pgStatus (showNativeDirtyIndicator p) = pgStatus p"
  "pgStatusOk (showNativeDirtyIndicator p) = pgStatusOk p"
  "pgLoadState (showNativeDirtyIndicator p) = pgLoadState p"
  "pgRaw (showNativeDirtyIndicator p) = pgRaw p"
  "pgInitial (showNativeDirtyIndicator p) = pgInitial p"
  "pgSectionMissing (showNativeDirtyIndicator p) = pgSectionMissing p"
  "pgInitialIface (showNativeDirtyIndicator p) = pgInitialIface p"
  "pgLastPlan (showNativeDirtyIndicator p) = pgLastPlan p"
  "pgStaged (showNativeDirtyIndicator p) = pgStaged p"
  "pgRuntime (showNativeDirtyIndicator p) = pgRuntime p"
  "pgCurrent (showNativeDirtyIndicator p) = pgCurrent p"
  "pgValidation (showNativeDirtyIndicator p) = pgValidation p"
  "pgPlan (showNativeDirtyIndicator p) = pgPlan p"
  "pgSaveState (showNativeDirtyIndicator p) = pgSaveState p"
  "pgSaveText (showNativeDirtyIndicator p) = pgSaveText p"
  "pgShown (showNativeDirtyIndicator p) = pgShown p"
  "pgActions (showNativeDirtyIndicator p) = pgActions p"
  "pgForm (showNativeDirtyIndicator p) = pgForm p"
  by (simp_all add: showNativeDirtyIndicator_def)

lemma markFormDirty_keeps [simp]:
  "pgIface (markFormDirty p) = pgIface p"
  "pgNss (markFormDirty p) = pgNss p"
  "pgStatus (markFormDirty p) = pgStatus p"
  "pgStatusOk (markFormDirty p) = pgStatusOk p"
  "pgLoadState (markFormDirty p) = pgLoadState p"
  "pgRaw (markFormDirty p) = pgRaw p"
  "pgInitial (markFormDirty p) = pgInitial p"
  "pgSectionMissing (markFormDirty p) = pgSectionMissing p"
  "pgInitialIface (markFormDirty p) = pgInitialIface p"
  "pgLastPlan (markFormDirty p) = pgLastPlan p"
  "pgStaged (markFormDirty p) = pgStaged p"
  "pgRuntime (markFormDirty p) = pgRuntime p"
  by (simp_all add: markFormDirty_def)

lemma formChanged_keeps [simp]:
  "pgIface (formChanged p) = pgIface p"
  "pgNss (formChanged p) = pgNss p"
  "pgStatus (formChanged p) = pgStatus p"
  "pgStatusOk (formChanged p) = pgStatusOk p"
  "pgLoadState (formChanged p) = pgLoadState p"
  "pgRaw (formChanged p) = pgRaw p"
  "pgInitial (formChanged p) = pgInitial p"
  "pgSectionMissing (formChanged p) = pgSectionMissing p"
  "pgInitialIface (formChanged p) = pgInitialIface p"
  "pgLastPlan (formChanged p) = pgLastPlan p"
  "pgStaged (formChanged p) = pgStaged p"
  "pgRuntime (formChanged p) = pgRuntime p"
  by (simp_all add: formChanged_def)

lemma buildRangeList_keeps [simp]:
  "pgIface (buildRangeList p) = pgIface p"
  "pgNss (buildRangeList p) = pgNss p"
  "pgStatus (buildRangeList p) = pgStatus p"
  "pgStatusOk (buildRangeList p) = pgStatusOk p"
  "pgLoadState (buildRangeList p) = pgLoadState p"
  "pgRaw (buildRangeList p) = pgRaw p"
  "pgInitial (buildRangeList p) = pgInitial p"
  "pgSectionMissing (buildRangeList p) = pgSectionMissing p"
  "pgInitialIface (buildRangeList p) = pgInitialIface p"
  "pgLastPlan (buildRangeList p) = pgLastPlan p"
  "pgStaged (buildRangeList p) = pgStaged p"
  "pgRuntime (buildRangeList p) = pgRuntime p"
  "pgDirty (buildRangeList p) = pgDirty p"
  "pgCurrent (buildRangeList p) = pgCurrent p"
  "pgValidation (buildRangeList p) = pgValidation p"
  "pgPlan (buildRangeList p) = pgPlan p"
  "pgSaveState (buildRangeList p) = pgSaveState p"
  "pgSaveText (buildRangeList p) = pgSaveText p"
  "pgShown (buildRangeList p) = pgShown p"
  "pgActions (buildRangeList p) = pgActions p"
  by (simp_all add: buildRangeList_def)

lemma fillForm_keeps [simp]:
  "pgIface (fillForm v p) = pgIface p"
  "pgNss (fillForm v p) = pgNss p"
  "pgStatus (fillForm v p) = pgStatus p"
  "pgStatusOk (fillForm v p) = pgStatusOk p"
  "pgLoadState (fillForm v p) = pgLoadState p"
  "pgRaw (fillForm v p) = pgRaw p"
  "pgInitial (fillForm v p) = pgInitial p"
  "pgSectionMissing (fillForm v p) = pgSectionMissing p"
  "pgInitialIface (fillForm v p) = pgInitialIface p"
  "pgLastPlan (fillForm v p) = pgLastPlan p"
  "pgStaged (fillForm v p) = pgStaged p"
  "pgRuntime (fillForm v p) = pgRuntime p"
  "pgDirty (fillForm v p) = pgDirty p"
  "pgValidation (fillForm v p) = pgValidation p"
  "pgPlan (fillForm v p) = pgPlan p"
  "pgSaveState (fillForm v p) = pgSaveState p"
  "pgSaveText (fillForm v p) = pgSaveText p"
  "pgShown (fillForm v p) = pgShown p"
  "pgActions (fillForm v p) = pgActions p"
  by (simp_all add: fillForm_def Let_def)

lemma resetDefaults_keeps [simp]:
  "pgIface (resetDefaults p) = pgIface p"
  "pgNss (resetDefaults p) = pgNss p"
  "pgStatus (resetDefaults p) = pgStatus p"
  "pgStatusOk (resetDefaults p) = pgStatusOk p"
  "pgLoadState (resetDefaults p) = pgLoadState p"
  "pgRaw (resetDefaults p) = pgRaw p"
  "pgInitial (resetDefaults p) = pgInitial p"
  "pgSectionMissing (resetDefaults p) = pgSectionMissing p"
  "pgInitialIface (resetDefaults p) = pgInitialIface p"
  "pgLastPlan (resetDefaults p) = pgLastPlan p"
  "pgStaged (resetDefaults p) = pgStaged p"
  "pgRuntime (resetDefaults p) = pgRuntime p"
  by (simp_all add: resetDefaults_def Let_def)

lemma addRange_keeps [simp]:
  "pgIface (addRange p) = pgIface p"
  "pgNss (addRange p) = pgNss p"
  "pgStatus (addRange p) = pgStatus p"
  "pgStatusOk (addRange p) = pgStatusOk p"
  "pgLoadState (addRange p) = pgLoadState p"
  "pgRaw (addRange p) = pgRaw p"
  "pgInitial (addRange p) = pgInitial p"
  "pgSectionMissing (addRange p) = pgSectionMissing p"
  "pgInitialIface (addRange p) = pgInitialIface p"
  "pgLastPlan (addRange p) = pgLastPlan p"
  "pgStaged (addRange p) = pgStaged p"
  "pgRuntime (addRange p) = pgRuntime p"
  by (simp_all add: addRange_def Let_def)

lemma removeRange_keeps [simp]:
  "pgIface (removeRange r p) = pgIface p"
  "pgNss (removeRange r p) = pgNss p"
  "pgStatus (removeRange r p) = pgStatus p"
  "pgStatusOk (removeRange r p) = pgStatusOk p"
  "pgLoadState (removeRange r p) = pgLoadState p"
  "pgRaw (removeRange r p) = pgRaw p"
  "pgInitial (removeRange r p) = pgInitial p"
  "pgSectionMissing (removeRange r p) = pgSectionMissing p"
  "pgInitialIface (removeRange r p) = pgInitialIface p"
  "pgLastPlan (removeRange r p) = pgLastPlan p"
  "pgStaged (removeRange r p) = pgStaged p"
  "pgRuntime (removeRange r p) = pgRuntime p"
  by (simp_all add: removeRange_def)

lemma typeValue_keeps [simp]:
  "pgIface (typeValue n w p) = pgIface p"
  "pgNss (typeValue n w p) = pgNss p"
  "pgStatus (typeValue n w p) = pgStatus p"
  "pgStatusOk (typeValue n w p) = pgStatusOk p"
  "pgLoadState (typeValue n w p) = pgLoadState p"
  "pgRaw (typeValue n w p) = pgRaw p"
  "pgInitial (typeValue n w p) = pgInitial p"
  "pgSectionMissing (typeValue n w p) = pgSectionMissing p"
  "pgInitialIface (typeValue n w p) = pgInitialIface p"
  "pgLastPlan (typeValue n w p) = pgLastPlan p"
  "pgStaged (typeValue n w p) = pgStaged p"
  "pgRuntime (typeValue n w p) = pgRuntime p"
  by (simp_all add: typeValue_def)

lemma toggle_keeps [simp]:
  "pgIface (toggle n b p) = pgIface p"
  "pgNss (toggle n b p) = pgNss p"
  "pgStatus (toggle n b p) = pgStatus p"
  "pgStatusOk (toggle n b p) = pgStatusOk p"
  "pgLoadState (toggle n b p) = pgLoadState p"
  "pgRaw (toggle n b p) = pgRaw p"
  "pgInitial (toggle n b p) = pgInitial p"
  "pgSectionMissing (toggle n b p) = pgSectionMissing p"
  "pgInitialIface (toggle n b p) = pgInitialIface p"
  "pgLastPlan (toggle n b p) = pgLastPlan p"
  "pgStaged (toggle n b p) = pgStaged p"
  "pgRuntime (toggle n b p) = pgRuntime p"
  by (simp_all add: toggle_def)

lemma applyRuntimeInfo_keeps [simp]:
  "pgIface (applyRuntimeInfo st p) = pgIface p"
  "pgNss (applyRuntimeInfo st p) = pgNss p"
  "pgStatus (applyRuntimeInfo st p) = pgStatus p"
  "pgStatusOk (applyRuntimeInfo st p) = pgStatusOk p"
  "pgLoadState (applyRuntimeInfo st p) = pgLoadState p"
  "pgRaw (applyRuntimeInfo st p) = pgRaw p"
  "pgInitial (applyRuntimeInfo st p) = pgInitial p"
  "pgSectionMissing (applyRuntimeInfo st p) = pgSectionMissing p"
  "pgInitialIface (applyRuntimeInfo st p) = pgInitialIface p"
  "pgLastPlan (applyRuntimeInfo st p) = pgLastPlan p"
  "pgStaged (applyRuntimeInfo st p) = pgStaged p"
  "pgDirty (applyRuntimeInfo st p) = pgDirty p"
  "pgCurrent (applyRuntimeInfo st p) = pgCurrent p"
  "pgValidation (applyRuntimeInfo st p) = pgValidation p"
  "pgPlan (applyRuntimeInfo st p) = pgPlan p"
  "pgSaveState (applyRuntimeInfo st p) = pgSaveState p"
  "pgSaveText (applyRuntimeInfo st p) = pgSaveText p"
  "pgShown (applyRuntimeInfo st p) = pgShown p"
  "pgActions (applyRuntimeInfo st p) = pgActions p"
  "pgForm (applyRuntimeInfo st p) = pgForm p"
  by (simp_all add: applyRuntimeInfo_def)

section \<open>What the operations leave alone in the form\<close>

lemma setDisabled_keeps [simp]:
  "fmValue (setDisabled n b fm) = fmValue fm" "fmChecked (setDisabled n b fm) = fmChecked fm"
  "fmRateChoices (setDisabled n b fm) = fmRateChoices fm" "fmConnChoices (setDisabled n b fm) = fmConnChoices fm"
  "fmRanges (setDisabled n b fm) = fmRanges fm" "fmRangeInput (setDisabled n b fm) = fmRangeInput fm"
  "fmRangeInvalid (setDisabled n b fm) = fmRangeInvalid fm" "fmErrors (setDisabled n b fm) = fmErrors fm"
  "m \<in> set (fmDisabled (setDisabled n b fm)) \<longleftrightarrow> (if m = n then b else m \<in> set (fmDisabled fm))"
  by (auto simp: setDisabled_def)

lemma setValue_keeps [simp]:
  "fmChecked (setValue n w fm) = fmChecked fm" "fmDisabled (setValue n w fm) = fmDisabled fm"
  "fmRateChoices (setValue n w fm) = fmRateChoices fm" "fmConnChoices (setValue n w fm) = fmConnChoices fm"
  "fmRanges (setValue n w fm) = fmRanges fm" "fmRangeInput (setValue n w fm) = fmRangeInput fm"
  "fmRangeInvalid (setValue n w fm) = fmRangeInvalid fm" "fmErrors (setValue n w fm) = fmErrors fm"
  "map fst (fmValue (setValue n w fm)) = map fst (fmValue fm)"
  by (auto simp: setValue_def)

lemma setValue_lookup [simp]: "map_of (fmValue (setValue n w fm)) m =
    (if m = n then map_option (\<lambda>_. w) (map_of (fmValue fm) m) else map_of (fmValue fm) m)"
proof -
  have "map_of (map (\<lambda>(k, x). (k, if k = n then w else x)) xs) m =
      (if m = n then map_option (\<lambda>_. w) (map_of xs m) else map_of xs m)" for xs
    by (induction xs) auto
  then show ?thesis by (simp add: setValue_def)
qed

lemma hasInput_setValue [simp]: "hasInput (setValue n w fm) m = hasInput fm m"
  by (auto simp: hasInput_def)

lemma hasInput_setDisabled [simp]: "hasInput (setDisabled n b fm) m = hasInput fm m"
  by (simp add: hasInput_def)

lemma inputValue_setValue [simp]: "inputValue (setValue n w fm) m = (if m = n \<and> hasInput fm n then w else inputValue fm m)"
  by (auto simp: inputValue_def hasInput_def split: option.splits)

lemma inputValue_setDisabled [simp]: "inputValue (setDisabled n b fm) m = inputValue fm m"
  by (simp add: inputValue_def)

lemma isChecked_setters [simp]: "isChecked (setValue n w fm) m = isChecked fm m" "isChecked (setDisabled n b fm) m = isChecked fm m"
  by (simp_all add: isChecked_def)

lemma showErrors_keeps [simp]:
  "fmValue (showErrors es fm) = fmValue fm" "fmChecked (showErrors es fm) = fmChecked fm"
  "fmDisabled (showErrors es fm) = fmDisabled fm" "fmRanges (showErrors es fm) = fmRanges fm"
  "fmRateChoices (showErrors es fm) = fmRateChoices fm" "fmConnChoices (showErrors es fm) = fmConnChoices fm"
  by (simp_all add: showErrors_def)

lemma setFieldError_keeps [simp]:
  "fmValue (setFieldError n c fm) = fmValue fm" "fmChecked (setFieldError n c fm) = fmChecked fm"
  "fmDisabled (setFieldError n c fm) = fmDisabled fm" "fmRanges (setFieldError n c fm) = fmRanges fm"
  by (simp_all add: setFieldError_def)

lemma updateDependencies_form [simp]:
  "fmRanges (pgForm (updateDependencies p)) = fmRanges (pgForm p)"
  "fmChecked (pgForm (updateDependencies p)) = fmChecked (pgForm p)"
  "map fst (fmValue (pgForm (updateDependencies p))) = map fst (fmValue (pgForm p))"
  by (simp_all add: updateDependencies_def Let_def)

lemma validateForm_form [simp]:
  "fmRanges (pgForm (validateForm p)) = fmRanges (pgForm p)"
  "fmChecked (pgForm (validateForm p)) = fmChecked (pgForm p)"
  "map fst (fmValue (pgForm (validateForm p))) = map fst (fmValue (pgForm p))"
  by (simp_all add: validateForm_def Let_def split: option.split)

lemma formChanged_form [simp]:
  "fmRanges (pgForm (formChanged p)) = fmRanges (pgForm p)"
  "map fst (fmChecked (pgForm (formChanged p))) = map fst (fmChecked (pgForm p))"
  "map fst (fmValue (pgForm (formChanged p))) = map fst (fmValue (pgForm p))"
  by (simp_all add: formChanged_def markFormDirty_def)

lemma buildRangeList_form [simp]:
  "fmRanges (pgForm (buildRangeList p)) = fmRanges (pgForm p)"
  "fmChecked (pgForm (buildRangeList p)) = fmChecked (pgForm p)"
  "map fst (fmValue (pgForm (buildRangeList p))) = map fst (fmValue (pgForm p))"
  by (simp_all add: buildRangeList_def)

section \<open>The hidden ranges\<close>

definition rangesInv :: "config_form \<Rightarrow> bool" where
  "rangesInv fm \<longleftrightarrow> distinct (fmRanges fm) \<and> length (fmRanges fm) \<le> MAX_RANGE_ITEMS \<and> list_all cidrOk (fmRanges fm)"

lemma rangesInv_cong: "fmRanges fm = fmRanges fm' \<Longrightarrow> rangesInv fm' \<Longrightarrow> rangesInv fm"
  by (simp add: rangesInv_def)

lemma rangesInv_parse: "fmRanges fm = nr_valid (parseCidrList v) \<Longrightarrow> rangesInv fm"
  using parseCidrList_ok [of v] by (simp add: rangesInv_def list_all_iff)

lemma fillInputs_ranges [simp]: "fmRanges (fillInputs vs fm) = nr_valid (parseCidrList (jget vs ''hide_ipv6_ranges''))"
  by (simp add: fillInputs_def Let_def)

lemma fillForm_ranges: "rangesInv (pgForm (fillForm v p))"
  by (rule rangesInv_parse) (simp add: fillForm_def Let_def)

lemma addRange_ranges: "rangesInv (pgForm p) \<Longrightarrow> rangesInv (pgForm (addRange p))"
  using parseCidr_ok [of "JStr (fmRangeInput (pgForm p))"]
  by (auto simp: addRange_def Let_def rangesInv_def setFieldError_def)

lemma removeRange_ranges: "rangesInv (pgForm p) \<Longrightarrow> rangesInv (pgForm (removeRange v p))"
  by (auto simp: removeRange_def rangesInv_def list_all_iff intro: le_trans [OF length_filter_le])

section \<open>What the form reads\<close>

lemma fold_putProp: "jget (JObj (foldl (\<lambda>acc n. putProp n (f n) acc) vs ns)) k =
    (if k \<in> set ns then f k else jget (JObj vs) k)"
  by (induction ns arbitrary: vs) auto

lemma fold_putProp_if: "jget (JObj (foldl (\<lambda>acc n. if c n then putProp n (f n) acc else acc) vs ns)) k =
    (if k \<in> set ns \<and> c k then f k else jget (JObj vs) k)"
  by (induction ns arbitrary: vs) auto

lemma readInputs_value:
  "jget (JObj (readInputs fm vs)) k = (
     if k = ''hide_ipv6_ranges'' then JStr (joinStr '' '' (fmRanges fm))
     else if k \<in> set BOOLEAN_FIELDS then JStr (if isChecked fm k then ''1'' else ''0'')
     else if k = ''conn_collector_mode'' then JStr (inputValue fm k)
     else if k = ''access_edge_mode'' then JStr (if hasInput fm k then inputValue fm k else ''off'')
     else if k = ''internet_view_mode'' then JStr (if hasInput fm k then inputValue fm k else ''off'')
     else if k = ''rate_collector_mode'' then JStr (inputValue fm k)
     else if k \<in> set NSS_NUMBER_FIELDS \<and> hasInput fm k then JStr (inputValue fm k)
     else if k \<in> set NUMBER_FIELDS then JStr (inputValue fm k)
     else jget (JObj vs) k)"
  unfolding readInputs_def Let_def fold_putProp fold_putProp_if jget_putProp by simp

lemma readForm_value:
  "k \<notin> set LIST_FIELDS \<Longrightarrow> k \<noteq> ''collector_mode'' \<Longrightarrow>
     jget (JObj (readForm p)) k = jget (JObj (readInputs (pgForm p) (cloneValues (JObj (pgCurrent p))))) k"
  unfolding readForm_def Let_def fold_putProp jget_putProp by simp

lemma foldl_setValue_lookup: "map_of (fmValue (foldl (\<lambda>f n. setValue n (g n) f) fm ns)) m =
    (if m \<in> set ns then map_option (\<lambda>_. g m) (map_of (fmValue fm) m) else map_of (fmValue fm) m)"
  by (induction ns arbitrary: fm) (auto simp: option.map_comp comp_def)

lemma foldl_setValue_if_lookup: "map_of (fmValue (foldl (\<lambda>f n. if c n then setValue n (g n) f else f) fm ns)) m =
    (if m \<in> set ns \<and> c m then map_option (\<lambda>_. g m) (map_of (fmValue fm) m) else map_of (fmValue fm) m)"
  by (induction ns arbitrary: fm) (auto simp: option.map_comp comp_def)

lemma foldl_setValue_keeps [simp]:
  "fmRateChoices (foldl (\<lambda>f n. setValue n (g n) f) fm ns) = fmRateChoices fm"
  "fmConnChoices (foldl (\<lambda>f n. setValue n (g n) f) fm ns) = fmConnChoices fm"
  "fmRateChoices (foldl (\<lambda>f n. if c n then setValue n (g n) f else f) fm ns) = fmRateChoices fm"
  "fmConnChoices (foldl (\<lambda>f n. if c n then setValue n (g n) f else f) fm ns) = fmConnChoices fm"
  "fmDisabled (foldl (\<lambda>f n. setValue n (g n) f) fm ns) = fmDisabled fm"
  "fmDisabled (foldl (\<lambda>f n. if c n then setValue n (g n) f else f) fm ns) = fmDisabled fm"
  "map fst (fmValue (foldl (\<lambda>f n. setValue n (g n) f) fm ns)) = map fst (fmValue fm)"
  "map fst (fmValue (foldl (\<lambda>f n. if c n then setValue n (g n) f else f) fm ns)) = map fst (fmValue fm)"
  by (induction ns arbitrary: fm) auto

lemma fillInputs_keeps [simp]:
  "map fst (fmValue (fillInputs vs fm)) = map fst (fmValue fm)" "map fst (fmChecked (fillInputs vs fm)) = BOOLEAN_FIELDS"
  "fmDisabled (fillInputs vs fm) = fmDisabled fm" "fmRateChoices (fillInputs vs fm) = fmRateChoices fm"
  "fmConnChoices (fillInputs vs fm) = fmConnChoices fm"
  by (simp_all add: fillInputs_def fillTexts_def Let_def comp_def)

lemma setter_maps:
  "map_of (fmValue (setValue n w fm)) m = map_option (\<lambda>old. if m = n then w else old) (map_of (fmValue fm) m)"
  "map_of (fmValue (foldl (\<lambda>f n. setValue n (g n) f) fm ns)) m =
     map_option (\<lambda>old. if m \<in> set ns then g m else old) (map_of (fmValue fm) m)"
  "map_of (fmValue (foldl (\<lambda>f n. if c n then setValue n (g n) f else f) fm ns)) m =
     map_option (\<lambda>old. if m \<in> set ns \<and> c m then g m else old) (map_of (fmValue fm) m)"
  by (cases "map_of (fmValue fm) m"; auto simp: foldl_setValue_lookup foldl_setValue_if_lookup)+

lemma fillInputs_value:
  "map_of (fmValue (fillInputs vs fm)) k = map_option (\<lambda>old.
     if k = ''conn_collector_mode'' then selectValue (fmConnChoices fm) (toStr (jget vs ''conn_collector_mode''))
     else if k = ''access_edge_mode'' then toStr (jget vs ''access_edge_mode'')
     else if k = ''internet_view_mode'' then toStr (jget vs ''internet_view_mode'')
     else if k = ''rate_collector_mode'' then selectValue (fmRateChoices fm) (toStr (jget vs ''rate_collector_mode''))
     else if k \<in> set NSS_NUMBER_FIELDS \<and> jget vs k \<noteq> JUndef then toStr (jget vs k)
     else if k \<in> set NUMBER_FIELDS then toStr (jget vs k)
     else old) (map_of (fmValue fm) k)"
proof -
  have "fmValue (fillInputs vs fm) = fmValue (fillTexts vs fm)" by (simp add: fillInputs_def)
  then show ?thesis
    unfolding fillTexts_def Let_def
    by (simp only: setter_maps option.map_comp comp_def setValue_keeps foldl_setValue_keeps)
qed

lemma isChecked_fill: "isChecked (fillInputs vs fm) k \<longleftrightarrow> k \<in> set BOOLEAN_FIELDS \<and> jget vs k = JStr ''1''"
proof -
  have "map_of (map (\<lambda>n. (n, P n)) ns) k = (if k \<in> set ns then Some (P k) else None)" for P :: "string \<Rightarrow> bool" and ns
    by (induction ns) auto
  then show ?thesis by (simp add: isChecked_def fillInputs_def Let_def)
qed

section \<open>Filling the form and reading it back\<close>

definition inputNames :: "bool \<Rightarrow> string list" where
  "inputNames nss = NUMBER_FIELDS @ (if nss then NSS_NUMBER_FIELDS else []) @ [''rate_collector_mode''] @
     (if nss then [''access_edge_mode'', ''internet_view_mode''] else []) @ [''conn_collector_mode'']"

definition formShape :: "bool \<Rightarrow> config_form \<Rightarrow> bool" where
  "formShape nss fm \<longleftrightarrow> map fst (fmValue fm) = inputNames nss \<and> map fst (fmChecked fm) = BOOLEAN_FIELDS \<and>
     mc_value ` set (fmConnChoices fm) = set (map fst CONNECTION_MODES)"

lemma hasInput_iff: "hasInput fm n \<longleftrightarrow> n \<in> set (map fst (fmValue fm))"
  by (auto simp: hasInput_def map_of_eq_None_iff)

lemma choices_rate: "v \<in> set (map fst RATE_MODES) \<Longrightarrow> jget (JObj vs) ''rate_collector_mode'' = JStr v \<Longrightarrow>
    v \<in> mc_value ` set (modeChoices ''rate'' status (JObj vs))"
  by (auto simp: modeChoices_def Let_def jfield_def image_image) force

lemma choices_conn [simp]: "mc_value ` set (modeChoices ''connection'' status vs) = set (map fst CONNECTION_MODES)"
  by (auto simp: modeChoices_def Let_def image_image) force+

lemma updateDependencies_values:
  "map_of (fmValue (pgForm (updateDependencies p))) n = map_option (\<lambda>old.
     if n = ''conn_collector_mode'' then selectValue (modeChoices ''connection'' (jor (pgStatus p) (JObj [])) (JObj (readForm p)))
         (toStr (jget (JObj (readForm p)) ''conn_collector_mode''))
     else if n = ''rate_collector_mode'' then selectValue (modeChoices ''rate'' (jor (pgStatus p) (JObj [])) (JObj (readForm p)))
         (toStr (jget (JObj (readForm p)) ''rate_collector_mode''))
     else old) (map_of (fmValue (pgForm p)) n)"
  by (cases "map_of (fmValue (pgForm p)) n"; auto simp: updateDependencies_def Let_def setter_maps)

lemma list_fields_apart:
  "''rate_collector_mode'' \<notin> set LIST_FIELDS" "''conn_collector_mode'' \<notin> set LIST_FIELDS"
  "''rate_collector_mode'' \<notin> set BOOLEAN_FIELDS" "''conn_collector_mode'' \<notin> set BOOLEAN_FIELDS"
  by (simp_all add: LIST_FIELDS_def BOOLEAN_FIELDS_def)

lemma readForm_modes:
  "jget (JObj (readForm p)) ''rate_collector_mode'' = JStr (inputValue (pgForm p) ''rate_collector_mode'')"
  "jget (JObj (readForm p)) ''conn_collector_mode'' = JStr (inputValue (pgForm p) ''conn_collector_mode'')"
  by (simp_all add: readForm_value list_fields_apart readInputs_value)

text \<open>Rendering the selects again keeps the selected modes.\<close>

lemma updateDependencies_inputs:
  assumes "inputValue (pgForm p) ''rate_collector_mode'' \<in> set (map fst RATE_MODES)"
    and "inputValue (pgForm p) ''conn_collector_mode'' \<in> set (map fst CONNECTION_MODES)"
  shows "inputValue (pgForm (updateDependencies p)) n = inputValue (pgForm p) n"
proof -
  have r: "selectValue (modeChoices ''rate'' (jor (pgStatus p) (JObj [])) (JObj (readForm p)))
      (inputValue (pgForm p) ''rate_collector_mode'') = inputValue (pgForm p) ''rate_collector_mode''"
    using choices_rate [OF assms(1) readForm_modes(1)] by (simp add: selectValue_def)
  have c: "selectValue (modeChoices ''connection'' (jor (pgStatus p) (JObj [])) (JObj (readForm p)))
      (inputValue (pgForm p) ''conn_collector_mode'') = inputValue (pgForm p) ''conn_collector_mode''"
    using assms(2) by (simp add: selectValue_def)
  show ?thesis
    unfolding inputValue_def updateDependencies_values using r c
    by (cases "map_of (fmValue (pgForm p)) n") (auto simp: readForm_modes inputValue_def split: if_splits)
qed

lemma updateDependencies_hasInput [simp]: "hasInput (pgForm (updateDependencies p)) n = hasInput (pgForm p) n"
  by (simp add: hasInput_iff del: set_map)

lemma isChecked_update [simp]: "isChecked (pgForm (updateDependencies p)) n = isChecked (pgForm p) n"
  by (simp add: isChecked_def)

text \<open>The configuration shown after filling the form.\<close>

definition shownValues :: "jval \<Rightarrow> page \<Rightarrow> jval" where
  "shownValues v p = JObj (normalizeValues (pgStatus p) (JObj (nvalues (normalize (jor v (JObj DEFAULTS))))))"

lemma fillForm_form:
  assumes shape: "formShape (pgNss p) (pgForm p)"
    and offered: "jget (shownValues v p) ''rate_collector_mode'' \<in> JStr ` mc_value ` set (fmRateChoices (pgForm p))"
    and rate: "jget (shownValues v p) ''rate_collector_mode'' \<in> JStr ` set (map fst RATE_MODES)"
    and conn: "jget (shownValues v p) ''conn_collector_mode'' \<in> JStr ` set (map fst CONNECTION_MODES)"
  shows "hasInput (pgForm (fillForm v p)) n = hasInput (pgForm p) n"
    and "isChecked (pgForm (fillForm v p)) n = isChecked (fillInputs (shownValues v p) (pgForm p)) n"
    and "fmRanges (pgForm (fillForm v p)) = nr_valid (parseCidrList (jget (shownValues v p) ''hide_ipv6_ranges''))"
    and "n \<in> set (inputNames (pgNss p)) \<Longrightarrow> n \<in> set NSS_NUMBER_FIELDS \<longrightarrow> jget (shownValues v p) n \<noteq> JUndef \<Longrightarrow>
      inputValue (pgForm (fillForm v p)) n = toStr (jget (shownValues v p) n)"
proof -
  let ?vs = "shownValues v p"
  let ?f = "fillInputs ?vs (pgForm p)"
  define q where "q = p\<lparr>pgForm := setDisabled ''range-remove'' False ?f\<rparr>"
  define q1 where "q1 = (updateDependencies q)\<lparr>pgCurrent := cloneValues ?vs\<rparr>"
  have fill: "fillForm v p = updateDependencies q1"
    by (simp add: fillForm_def Let_def buildRangeList_def q_def q1_def shownValues_def)
  have keys: "map fst (fmValue (pgForm p)) = inputNames (pgNss p)"
      and cc: "mc_value ` set (fmConnChoices (pgForm p)) = set (map fst CONNECTION_MODES)"
    using shape by (simp_all add: formShape_def)
  have f: "inputValue ?f n = (if n = ''rate_collector_mode'' \<or> n = ''conn_collector_mode'' then toStr (jget ?vs n)
      else inputValue ?f n)" if n: "n \<in> set (inputNames (pgNss p))" for n
  proof -
    obtain w where w: "map_of (fmValue (pgForm p)) n = Some w"
      using n keys hasInput_iff [of "pgForm p" n] by (auto simp: hasInput_def simp del: set_map)
    have "selectValue (fmRateChoices (pgForm p)) (toStr (jget ?vs ''rate_collector_mode'')) = toStr (jget ?vs ''rate_collector_mode'')"
      using offered by (auto simp: selectValue_def)
    moreover have "selectValue (fmConnChoices (pgForm p)) (toStr (jget ?vs ''conn_collector_mode'')) = toStr (jget ?vs ''conn_collector_mode'')"
      using conn unfolding selectValue_def cc by (elim imageE) simp
    ultimately show ?thesis using w by (simp add: inputValue_def fillInputs_value)
  qed
  have q: "inputValue (pgForm q) n = inputValue ?f n" for n by (simp add: q_def)
  have "inputValue (pgForm q) ''rate_collector_mode'' = toStr (jget ?vs ''rate_collector_mode'')"
      "inputValue (pgForm q) ''conn_collector_mode'' = toStr (jget ?vs ''conn_collector_mode'')"
    using f [of "''rate_collector_mode''"] f [of "''conn_collector_mode''"] by (simp_all add: q inputNames_def)
  then have m: "inputValue (pgForm q) ''rate_collector_mode'' \<in> set (map fst RATE_MODES)"
      "inputValue (pgForm q) ''conn_collector_mode'' \<in> set (map fst CONNECTION_MODES)"
    using rate conn by (elim imageE; simp only: toStr.simps)+
  have q1: "inputValue (pgForm q1) n = inputValue (pgForm q) n" for n
    using updateDependencies_inputs [OF m] by (simp add: q1_def)
  have kept: "inputValue (pgForm (fillForm v p)) n = inputValue ?f n" for n
    unfolding fill using updateDependencies_inputs [of q1] m by (simp add: q1 q)
  show "hasInput (pgForm (fillForm v p)) n = hasInput (pgForm p) n"
    unfolding fill by (simp add: q1_def q_def hasInput_iff del: set_map)
  show "isChecked (pgForm (fillForm v p)) n = isChecked ?f n"
    unfolding fill by (simp add: q1_def q_def)
  show "fmRanges (pgForm (fillForm v p)) = nr_valid (parseCidrList (jget ?vs ''hide_ipv6_ranges''))"
    unfolding fill by (simp add: q1_def q_def)
  show "inputValue (pgForm (fillForm v p)) n = toStr (jget ?vs n)"
    if n: "n \<in> set (inputNames (pgNss p))" and u: "n \<in> set NSS_NUMBER_FIELDS \<longrightarrow> jget ?vs n \<noteq> JUndef"
  proof -
    obtain w where w: "map_of (fmValue (pgForm p)) n = Some w"
      using n keys hasInput_iff [of "pgForm p" n] by (auto simp: hasInput_def simp del: set_map)
    have "n \<in> {''rate_collector_mode'', ''conn_collector_mode'', ''access_edge_mode'', ''internet_view_mode''} \<or>
        n \<in> set NSS_NUMBER_FIELDS \<or> n \<in> set NUMBER_FIELDS"
      using n by (auto simp: inputNames_def split: if_splits)
    then show ?thesis unfolding kept using f [OF n] w u by (auto simp: inputValue_def fillInputs_value)
  qed
qed

lemma scalar_sorts:
  assumes "k \<in> set scalarFields" "k \<noteq> ''collector_mode''"
  shows "k \<notin> set LIST_FIELDS" "k \<notin> set protoKeys"
    and "k \<in> set NUMBER_FIELDS \<or> k \<in> set nssOnly \<or> k = ''rate_collector_mode'' \<or> k = ''conn_collector_mode'' \<or>
      k \<in> set BOOLEAN_FIELDS \<or> k = ''hide_ipv6_ranges''"
    and "k \<in> set BOOLEAN_FIELDS \<longleftrightarrow> k \<in> set boolFields"
  using assms unfolding scalarFields_def list.set
  by (auto simp: LIST_FIELDS_def NUMBER_FIELDS_def nssOnly_def nssTuning_def BOOLEAN_FIELDS_def boolFields_def protoKeys_def)

lemma scalar_inputs:
  assumes "k \<in> set scalarFields" "k \<noteq> ''collector_mode''"
  shows "k = ''hide_ipv6_ranges'' \<or> k \<in> set BOOLEAN_FIELDS \<or> k = ''conn_collector_mode'' \<or> k = ''access_edge_mode'' \<or>
      k = ''internet_view_mode'' \<or> k = ''rate_collector_mode'' \<or> k \<in> set NSS_NUMBER_FIELDS \<or> k \<in> set NUMBER_FIELDS"
    and "k \<notin> set BOOLEAN_FIELDS \<Longrightarrow> k \<noteq> ''hide_ipv6_ranges'' \<Longrightarrow> (k \<in> set nssOnly \<Longrightarrow> nss) \<Longrightarrow> k \<in> set (inputNames nss)"
proof -
  have "\<forall>k \<in> set scalarFields. k = ''collector_mode'' \<or> k = ''hide_ipv6_ranges'' \<or> k \<in> set BOOLEAN_FIELDS \<or>
      k = ''conn_collector_mode'' \<or> k = ''access_edge_mode'' \<or> k = ''internet_view_mode'' \<or> k = ''rate_collector_mode'' \<or>
      k \<in> set NSS_NUMBER_FIELDS \<or> k \<in> set NUMBER_FIELDS"
    unfolding list_all_iff [symmetric] by code_simp
  from bspec [OF this assms(1)] assms(2)
  show "k = ''hide_ipv6_ranges'' \<or> k \<in> set BOOLEAN_FIELDS \<or> k = ''conn_collector_mode'' \<or> k = ''access_edge_mode'' \<or>
      k = ''internet_view_mode'' \<or> k = ''rate_collector_mode'' \<or> k \<in> set NSS_NUMBER_FIELDS \<or> k \<in> set NUMBER_FIELDS"
    by argo
  have "\<forall>k \<in> set scalarFields. k = ''collector_mode'' \<or> k \<in> set BOOLEAN_FIELDS \<or> k = ''hide_ipv6_ranges'' \<or> k \<in> set (inputNames True)"
      "\<forall>k \<in> set scalarFields. k = ''collector_mode'' \<or> k \<in> set BOOLEAN_FIELDS \<or> k = ''hide_ipv6_ranges'' \<or> k \<in> set nssOnly \<or>
        k \<in> set (inputNames False)"
    unfolding list_all_iff [symmetric] by code_simp+
  from bspec [OF this(1) assms(1)] bspec [OF this(2) assms(1)] assms(2)
  show "k \<notin> set BOOLEAN_FIELDS \<Longrightarrow> k \<noteq> ''hide_ipv6_ranges'' \<Longrightarrow> (k \<in> set nssOnly \<Longrightarrow> nss) \<Longrightarrow> k \<in> set (inputNames nss)"
    by (cases nss) auto
qed

lemma readInputs_input:
  assumes "k \<in> set scalarFields" "k \<noteq> ''collector_mode''" "k \<notin> set BOOLEAN_FIELDS" "k \<noteq> ''hide_ipv6_ranges''" "hasInput fm k"
  shows "jget (JObj (readInputs fm vs)) k = JStr (inputValue fm k)"
  using scalar_inputs(1) [OF assms(1,2)] assms(3-5) unfolding readInputs_value by (elim disjE) auto

lemma scalar_in_FIELDS: "k \<in> set scalarFields \<Longrightarrow> k \<in> set FIELD_NAMES"
proof -
  have "list_all (\<lambda>k. k \<in> set FIELD_NAMES) scalarFields" by code_simp
  then show "k \<in> set scalarFields \<Longrightarrow> k \<in> set FIELD_NAMES" by (simp add: list_all_iff)
qed

lemma normalizeValues_idem:
  assumes "k \<notin> set protoKeys" "k \<in> set nssOnly \<Longrightarrow> \<not> isX86 status"
    and "k = ''rate_collector_mode'' \<Longrightarrow> jget (JObj ps) k = jget (JObj (normalizeValues status (JObj qs))) k"
  shows "jget (JObj (normalizeValues status (JObj ps))) k = jget (JObj ps) k"
proof (cases "isX86 status")
  case True
  have x86: "supportsRateMode status (JStr ''bpf'')"
    using True by (simp add: supportsRateMode_def isX86_def x86_supportsRateMode_def)
  have apart: "k \<noteq> ''access_edge_mode''" "k \<noteq> ''internet_view_mode''" "k \<notin> set nssTuning"
    using assms(2) True by (auto simp: nssOnly_def)
  have "supportsRateMode status (jget (JObj ps) k)" if "k = ''rate_collector_mode''"
    using assms(3) [OF that] normalizeValues_correct [OF assms(1), of status qs] True apart x86 that by (simp split: if_splits)
  then show ?thesis
    using True apart normalizeValues_correct [OF assms(1), of status ps] by (cases "k = ''rate_collector_mode''") simp_all
qed (simp add: normalizeValues_correct [OF assms(1)])

lemma shownValues_other:
  assumes "k \<notin> set protoKeys" "k \<in> set nssOnly \<Longrightarrow> \<not> isX86 (pgStatus p)" "k \<noteq> ''rate_collector_mode''"
  shows "jget (shownValues v p) k = jget (JObj (nvalues (normalize (jor v (JObj DEFAULTS))))) k"
  unfolding shownValues_def using assms by (auto simp: normalizeValues_correct nssOnly_def)

lemma shownValues_modes:
  "jget (shownValues v p) ''rate_collector_mode'' \<in> JStr ` set (map fst RATE_MODES)"
  "jget (shownValues v p) ''conn_collector_mode'' \<in> JStr ` set (map fst CONNECTION_MODES)"
proof -
  note d = configDomainD [OF normalize_in_domain [of "jor v (JObj DEFAULTS)"]]
  have k: "''rate_collector_mode'' \<notin> set protoKeys" "''conn_collector_mode'' \<notin> set protoKeys"
      "''conn_collector_mode'' \<notin> set nssOnly" "''rate_collector_mode'' \<notin> set nssTuning"
    by (simp_all add: protoKeys_def nssOnly_def nssTuning_def)
  have bpf: "JStr ''bpf'' \<in> JStr ` set (map fst RATE_MODES)" by (simp add: RATE_MODES_def)
  show "jget (shownValues v p) ''rate_collector_mode'' \<in> JStr ` set (map fst RATE_MODES)"
    unfolding shownValues_def normalizeValues_correct [OF k(1)] using d(5) bpf k(4) by simp
  show "jget (shownValues v p) ''conn_collector_mode'' \<in> JStr ` set (map fst CONNECTION_MODES)"
    using d(6) k(2,3) shownValues_other [of "''conn_collector_mode''" p v] by simp
qed

lemma withDesired_other: "k \<notin> set LIST_FIELDS \<Longrightarrow> jget (JObj (withDesired plan vs)) k = jget (JObj vs) k"
  by (simp add: withDesired_def fold_putProp split: option.split)

text \<open>What validation normalises after the form was filled: each option as the text of the value shown.\<close>

lemma filled_text:
  assumes shape: "formShape (pgNss p) (pgForm p)"
    and offered: "jget (shownValues v p) ''rate_collector_mode'' \<in> JStr ` mc_value ` set (fmRateChoices (pgForm p))"
    and k: "k \<in> set scalarFields" "k \<noteq> ''collector_mode''" "k \<in> set nssOnly \<Longrightarrow> pgNss p \<and> \<not> isX86 (pgStatus p)"
  shows "jget (JObj (withDesired plan (normalizeValues (pgStatus p) (JObj (readForm (fillForm v p)))))) k =
    (if k = ''hide_ipv6_ranges'' then JStr (joinStr '' '' (nr_valid (parseCidrList (jget (shownValues v p) k))))
     else JStr (toStr (jget (shownValues v p) k)))"
proof -
  note ff = fillForm_form [OF shape offered shownValues_modes]
  note srt = scalar_sorts [OF k(1,2)]
  let ?vs = "shownValues v p"
  have flag: "toStr (jget ?vs k) = (if jget ?vs k = JStr ''1'' then ''1'' else ''0'')" if "k \<in> set BOOLEAN_FIELDS"
  proof -
    have "k \<noteq> ''rate_collector_mode''" "k \<notin> set nssOnly"
      using that by (auto simp: BOOLEAN_FIELDS_def nssOnly_def nssTuning_def)
    then have "jget ?vs k = jget (JObj (nvalues (normalize (jor v (JObj DEFAULTS))))) k"
      using srt(2) by (intro shownValues_other) simp_all
    then show ?thesis
      using configDomainD(2) [OF normalize_in_domain [of "jor v (JObj DEFAULTS)"], of k] that srt(4) by auto
  qed
  have nss: "k \<in> set NSS_NUMBER_FIELDS \<longrightarrow> jget ?vs k \<noteq> JUndef"
  proof
    assume "k \<in> set NSS_NUMBER_FIELDS"
    then have n: "k \<in> set nssOnly" "k \<noteq> ''rate_collector_mode''" "k \<in> set numberFields \<or> k = ''rate_compensation_factor''"
      by (auto simp: NSS_NUMBER_FIELDS_def nssOnly_def nssTuning_def numberFields_def)
    then show "jget ?vs k \<noteq> JUndef"
      using shownValues_other [OF srt(2), of p v] k(3) configDomainD(1) [OF normalize_in_domain [of "jor v (JObj DEFAULTS)"], of k]
        configDomainD(3) [OF normalize_in_domain [of "jor v (JObj DEFAULTS)"]]
      by (auto simp: integerOk_def factorOk_def)
  qed
  have read: "jget (JObj (readForm (fillForm v p))) k =
      (if k = ''hide_ipv6_ranges'' then JStr (joinStr '' '' (nr_valid (parseCidrList (jget ?vs k))))
       else JStr (toStr (jget ?vs k)))"
  proof -
    have inp: "hasInput (pgForm (fillForm v p)) k \<and> inputValue (pgForm (fillForm v p)) k = toStr (jget ?vs k)"
      if "k \<in> set (inputNames (pgNss p))"
      using ff(4) [OF that nss] that shape unfolding ff(1) by (simp add: hasInput_iff formShape_def del: set_map)
    have inn: "k \<in> set (inputNames (pgNss p))" if "k \<notin> set BOOLEAN_FIELDS" "k \<noteq> ''hide_ipv6_ranges''"
      by (rule scalar_inputs(2) [OF k(1,2) that]) (simp add: k(3))
    have hide: "''hide_ipv6_ranges'' \<notin> set BOOLEAN_FIELDS" by (simp add: BOOLEAN_FIELDS_def)
    consider (h) "k = ''hide_ipv6_ranges''" | (b) "k \<in> set BOOLEAN_FIELDS" "k \<noteq> ''hide_ipv6_ranges''"
      | (i) "k \<notin> set BOOLEAN_FIELDS" "k \<noteq> ''hide_ipv6_ranges''" by blast
    then show ?thesis
    proof cases
      case h
      then show ?thesis unfolding readForm_value [OF srt(1) k(2)] readInputs_value by (simp add: ff(3))
    next
      case b
      then show ?thesis
        unfolding readForm_value [OF srt(1) k(2)] readInputs_value by (simp add: ff(2) isChecked_fill flag)
    next
      case i
      then show ?thesis
        using readInputs_input [OF k(1,2) i] inp [OF inn [OF i]] unfolding readForm_value [OF srt(1) k(2)] by simp
    qed
  qed
  have "jget (JObj (normalizeValues (pgStatus p) (JObj (readForm (fillForm v p))))) k = jget (JObj (readForm (fillForm v p))) k"
  proof (rule normalizeValues_idem [OF srt(2)])
    show "k \<in> set nssOnly \<Longrightarrow> \<not> isX86 (pgStatus p)" using k(3) by simp
    assume "k = ''rate_collector_mode''"
    then have "k \<noteq> ''hide_ipv6_ranges''" "jget ?vs k \<in> JStr ` set (map fst RATE_MODES)"
      using shownValues_modes(1) [of v p] by simp_all
    then show "jget (JObj (readForm (fillForm v p))) k =
        jget (JObj (normalizeValues (pgStatus p) (JObj (nvalues (normalize (jor v (JObj DEFAULTS))))))) k"
      unfolding read shownValues_def [symmetric] by auto
  qed
  then show ?thesis using srt(1) by (simp add: withDesired_other read)
qed

text \<open>An option given as the text of a value of its domain is read as that value.\<close>

definition fieldOk :: "string \<Rightarrow> jval \<Rightarrow> bool" where
  "fieldOk k w \<longleftrightarrow> (k \<in> set numberFields \<longrightarrow> integerOk k w) \<and> (k \<in> set boolFields \<longrightarrow> w \<in> {JStr ''0'', JStr ''1''}) \<and>
     (k = ''rate_compensation_factor'' \<longrightarrow> factorOk w) \<and>
     (k = ''rate_collector_mode'' \<longrightarrow> w \<in> JStr ` set (map fst RATE_MODES)) \<and>
     (k = ''conn_collector_mode'' \<longrightarrow> w \<in> JStr ` set (map fst CONNECTION_MODES)) \<and>
     (k = ''access_edge_mode'' \<longrightarrow> w \<in> JStr ` set (map fst ACCESS_EDGE_MODES)) \<and>
     (k = ''internet_view_mode'' \<longrightarrow> w \<in> JStr ` set (map fst INTERNET_VIEW_MODES)) \<and>
     (k = ''hide_ipv6_ranges'' \<longrightarrow> (\<exists>rs. w = JStr (joinStr '' '' rs) \<and>
        parseCidrList w = \<lparr>nr_valid = rs, nr_invalid = [], nr_truncated = False\<rparr>))"

lemma parseInteger_text: "\<not> nullish v \<Longrightarrow> parseInteger (JStr (toStr v)) l = parseInteger v l"
  by (simp add: parseInteger_def trimAscii_def asText_def nullish_def)

lemma fieldOk_text: "k \<in> set scalarFields \<Longrightarrow> k \<noteq> ''collector_mode'' \<Longrightarrow> fieldOk k w \<Longrightarrow> k \<notin> set numberFields \<Longrightarrow> JStr (toStr w) = w"
proof -
  assume k: "k \<in> set scalarFields" "k \<noteq> ''collector_mode''" "k \<notin> set numberFields" and ok: "fieldOk k w"
  have "k \<in> set numberFields \<or> k \<in> set boolFields \<or> k = ''rate_compensation_factor'' \<or> k = ''internet_view_mode'' \<or>
      k = ''access_edge_mode'' \<or> k = ''conn_collector_mode'' \<or> k = ''rate_collector_mode'' \<or> k = ''hide_ipv6_ranges''"
    using scalarFields_kinds [OF k(1)] k(2) by (simp only: insert_iff empty_iff simp_thms)
  then have "isStr w" using k(3) ok unfolding fieldOk_def factorOk_def by (elim disjE) auto
  then show "JStr (toStr w) = w" by (cases w) simp_all
qed

lemma reparse_field:
  assumes k: "k \<in> set scalarFields" "k \<noteq> ''collector_mode''" and either: "jget raw k = JStr (toStr w) \<or> jget raw k = w"
    and ok: "fieldOk k w" and raw: "truthy raw"
  shows "jget (JObj (nvalues (normalize raw))) k = w"
proof -
  have jor: "jor raw (JObj []) = raw" using raw by (simp add: jor_def)
  note val = normalize_value [where r = raw, unfolded jor]
  have acc: "pr_value (accepted x s) = x" "pr_valid (accepted x s)" for x s by (simp_all add: accepted_def)
  have given: "jget raw k = JStr (toStr w)" if "k \<notin> set numberFields"
    using either fieldOk_text [OF k ok that] by auto
  have rd: "rawOr raw k = JStr (toStr w)" if "k \<notin> set numberFields" by (rule rawOr_given [OF given [OF that]])
  have "k \<in> set numberFields \<or> k \<in> set boolFields \<or> k = ''rate_compensation_factor'' \<or> k = ''internet_view_mode'' \<or>
      k = ''access_edge_mode'' \<or> k = ''conn_collector_mode'' \<or> k = ''rate_collector_mode'' \<or> k = ''hide_ipv6_ranges''"
    using scalarFields_kinds [OF k(1)] k(2) by (simp only: insert_iff empty_iff simp_thms)
  then consider "k \<in> set numberFields" | "k \<in> set boolFields"
    | "k = ''rate_compensation_factor''" | "k = ''internet_view_mode''" | "k = ''access_edge_mode''"
    | "k = ''conn_collector_mode''" | "k = ''rate_collector_mode''" | "k = ''hide_ipv6_ranges''" by argo
  moreover have nonum: "''rate_compensation_factor'' \<notin> set numberFields" "''internet_view_mode'' \<notin> set numberFields"
      "''access_edge_mode'' \<notin> set numberFields" "''conn_collector_mode'' \<notin> set numberFields"
      "''rate_collector_mode'' \<notin> set numberFields" "''hide_ipv6_ranges'' \<notin> set numberFields"
    by (simp_all add: numberFields_def)
  ultimately show ?thesis
  proof cases
    case 1
    then have i: "integerOk k w" using ok by (simp add: fieldOk_def)
    then have "rawOr raw k = JStr (toStr w) \<or> rawOr raw k = w" "\<not> nullish w"
      using either by (auto simp: rawOr_def integerOk_def nullish_def)
    then have "parseInteger (rawOr raw k) (map_of LIMITS k) = accepted w (toStr w)"
      using integer_reparse [OF 1 i] parseInteger_text by auto
    then show ?thesis by (simp add: val(1) 1 numVal_def acc)
  next
    case 2
    then have n: "k \<notin> set numberFields" using fields_disjoint(1) by blast
    have "w \<in> {JStr ''0'', JStr ''1''}" using ok 2 by (simp add: fieldOk_def)
    then show ?thesis using bool_reparse by (simp add: val(2) 2 boolVal_def rd [OF n] acc)
  next
    case 3
    then show ?thesis using factor_reparse [of w] ok val(5) rd nonum by (simp add: factorVal_def acc fieldOk_def)
  next
    case 4
    then have "w \<in> JStr ` set (map fst INTERNET_VIEW_MODES)" using ok by (simp add: fieldOk_def)
    from enum_reparse [OF this modes_trimmed(4)] show ?thesis using 4 val(6) rd nonum by (simp add: enumVal_def acc)
  next
    case 5
    then have "w \<in> JStr ` set (map fst ACCESS_EDGE_MODES)" using ok by (simp add: fieldOk_def)
    from enum_reparse [OF this modes_trimmed(3)] show ?thesis using 5 val(7) rd nonum by (simp add: enumVal_def acc)
  next
    case 6
    then have "w \<in> JStr ` set (map fst CONNECTION_MODES)" using ok by (simp add: fieldOk_def)
    from enum_reparse [OF this modes_trimmed(2)] show ?thesis using 6 val(8) given nonum by (simp add: connEnum_def acc)
  next
    case 7
    then have "w \<in> JStr ` set (map fst RATE_MODES)" using ok by (simp add: fieldOk_def)
    from enum_reparse [OF this modes_trimmed(1)] show ?thesis using 7 val(9) given nonum by (simp add: rateEnum_def acc)
  next
    case 8
    then obtain rs where rs: "w = JStr (joinStr '' '' rs)" "parseCidrList w = \<lparr>nr_valid = rs, nr_invalid = [], nr_truncated = False\<rparr>"
      using ok by (auto simp: fieldOk_def)
    then have "rawOr raw ''hide_ipv6_ranges'' = w" using rd nonum 8 by simp
    then show ?thesis unfolding 8 val(4) rangesVal_def using rs by simp
  qed
qed

text \<open>What normalisation delivers is in the domain; for the ranges, if they were given as text.\<close>

lemma rangesVal_text:
  assumes "\<not> isArr (jget raw ''hide_ipv6_ranges'')"
  shows "\<exists>rs. rangesVal raw = JStr (joinStr '' '' rs) \<and>
    parseCidrList (rangesVal raw) = \<lparr>nr_valid = rs, nr_invalid = [], nr_truncated = False\<rparr>"
proof -
  have "\<not> isArr (rawOr raw ''hide_ipv6_ranges'')"
    using assms by (simp add: rawOr_def defaultOf_def DEFAULTS_def jget.simps(1) [of DEFAULTS] jget.simps(1))
  then have "parseCidrList (rangesVal raw) =
      \<lparr>nr_valid = nr_valid (parseCidrList (rawOr raw ''hide_ipv6_ranges'')), nr_invalid = [], nr_truncated = False\<rparr>"
    using cidrs_from_text parseCidrList_ok [of "rawOr raw ''hide_ipv6_ranges''"]
    unfolding rangesVal_def by (intro parseCidrList_reparse) (auto simp: list_all_iff)
  then show ?thesis by (intro exI conjI) (simp_all add: rangesVal_def)
qed

lemma normalize_fieldOk:
  assumes "k = ''hide_ipv6_ranges'' \<Longrightarrow> \<not> isArr (jget (jor r (JObj [])) ''hide_ipv6_ranges'')"
  shows "fieldOk k (jget (JObj (nvalues (normalize r))) k)"
proof -
  note d = configDomainD [OF normalize_in_domain [of r]]
  have "k = ''hide_ipv6_ranges'' \<Longrightarrow> \<exists>rs. jget (JObj (nvalues (normalize r))) k = JStr (joinStr '' '' rs) \<and>
      parseCidrList (jget (JObj (nvalues (normalize r))) k) = \<lparr>nr_valid = rs, nr_invalid = [], nr_truncated = False\<rparr>"
    using rangesVal_text assms by (simp add: normalize_value(4))
  then show ?thesis unfolding fieldOk_def using d by blast
qed

lemma form_round_trip:
  assumes shape: "formShape (pgNss p) (pgForm p)"
    and offered: "jget (shownValues v p) ''rate_collector_mode'' \<in> JStr ` mc_value ` set (fmRateChoices (pgForm p))"
    and plain: "\<not> isArr (jget (jor v (JObj DEFAULTS)) ''hide_ipv6_ranges'')"
    and k: "k \<in> set scalarFields" "k \<noteq> ''collector_mode''" "k \<in> set nssOnly \<Longrightarrow> pgNss p \<and> \<not> isX86 (pgStatus p)"
  shows "jget (JObj (vd_values (checkForm (fillForm v p)))) k = jget (shownValues v p) k"
proof -
  let ?cfg = "jor v (JObj DEFAULTS)"
  let ?vs = "shownValues v p"
  let ?raw = "JObj (withDesired (prepareIfaceSave (pgIface p)) (normalizeValues (pgStatus p) (JObj (readForm (fillForm v p)))))"
  note srt = scalar_sorts [OF k(1,2)]
  have jc: "jor ?cfg (JObj []) = ?cfg" by (simp add: jor_def)
  have ok: "fieldOk k (jget ?vs k)"
  proof (cases "k = ''rate_collector_mode''")
    case True
    have "''rate_collector_mode'' \<notin> set numberFields \<union> set boolFields" by (simp add: numberFields_def boolFields_def)
    then show ?thesis using True shownValues_modes(1) [of v p] by (simp add: fieldOk_def)
  next
    case False
    then show ?thesis
      using shownValues_other [OF srt(2), of p v] k(3) normalize_fieldOk [of k ?cfg] plain by (simp add: jc)
  qed
  have "jget ?raw k = JStr (toStr (jget ?vs k))"
  proof (cases "k = ''hide_ipv6_ranges''")
    case True
    then obtain rs where "jget ?vs k = JStr (joinStr '' '' rs)" "nr_valid (parseCidrList (jget ?vs k)) = rs"
      using ok unfolding fieldOk_def by force
    then show ?thesis using filled_text [OF shape offered k, of "prepareIfaceSave (pgIface p)"] True by simp
  qed (use filled_text [OF shape offered k, of "prepareIfaceSave (pgIface p)"] in simp)
  from reparse_field [OF k(1,2) disjI1 [OF this] ok] show ?thesis by (simp add: checkForm_def validate_def Let_def)
qed

end
