(* ===== verification/ConfigSave.thy ===== *)
theory ConfigSave
  imports ConfigForm
begin

text \<open>
  Saving, resetting and verifying the configuration: the flows of \<open>lanspeed/configForm.js\<close> and
  their drivers in \<open>lanspeed/configView.js\<close>. A flow that waits for a promise is a value, the
  rest of its handlers; the events are what the user does and how promises settle. The cache of
  the configuration store may be any state when a promise settles.
\<close>

section \<open>Calls to the store\<close>

fun forAct :: "('a \<Rightarrow> 'u act) \<Rightarrow> 'a list \<Rightarrow> 'u act" where
  "forAct f [] u = (None, u)"
| "forAct f (x # xs) u = (case f x u of (Some e, u') \<Rightarrow> (Some e, u') | (None, u') \<Rightarrow> forAct f xs u')"

definition thenAct :: "'u act \<Rightarrow> 'u act \<Rightarrow> 'u act" where
  "thenAct f g u = (case f u of (Some e, u') \<Rightarrow> (Some e, u') | (None, u') \<Rightarrow> g u')"

definition OWNED :: "string list" where
  "OWNED = FIELD_NAMES @ REMOVED_UCI_FIELDS"

definition snapshotOwnedValues :: "'u uci_api \<Rightarrow> 'u \<Rightarrow> props" where
  "snapshotOwnedValues api u = map (\<lambda>n. (n, uGet api u n)) OWNED"

definition applyLocalPatch :: "'u uci_api \<Rightarrow> uci_patch \<Rightarrow> 'u act" where
  "applyLocalPatch api patch = thenAct
     (forAct (\<lambda>n. uSet api n (jget (JObj (pset patch)) n)) (objectKeys (JObj (pset patch))))
     (forAct (uUnset api) (punset patch))"

definition restoreOwnedValues :: "'u uci_api \<Rightarrow> props \<Rightarrow> 'u act" where
  "restoreOwnedValues api snap = forAct (\<lambda>n. if nullish (jget (JObj snap) n) then uUnset api n
     else uSet api n (jget (JObj snap) n)) OWNED"

definition undoLocal :: "'u uci_api \<Rightarrow> bool \<Rightarrow> props \<Rightarrow> 'u act" where
  "undoLocal api missing snap = (case uRemove api of
     Some remove \<Rightarrow> if missing then remove else restoreOwnedValues api snap
   | None \<Rightarrow> restoreOwnedValues api snap)"

text \<open>\<open>ensureSection\<close>: the error it throws, if any.\<close>

definition ensureSection :: "'u uci_api \<Rightarrow> bool \<Rightarrow> 'u act" where
  "ensureSection api missing u = (if \<not> missing then (None, u)
     else (case uAdd api of None \<Rightarrow> (Some (Tr ''no main section and it cannot be created''), u) | Some add \<Rightarrow> add u))"

section \<open>State\<close>

text \<open>
  A write in flight: of a save (and whether it is to be applied), or of a reset with the values
  it goes back to and what was staged. \<open>Submitting\<close> waits for \<open>uci.save\<close>, \<open>Reloading\<close> for
  \<open>uci.load\<close> and \<open>Undoing\<close> for the \<open>uci.save\<close> of a rollback, \<open>Rescanning\<close> for the scan after a reset.
\<close>

datatype job = SaveJob cfg_plan bool | ResetJob props jval jval

datatype chain = NoChain | Submitting job props bool | Reloading job props bool mtext
  | Undoing job bool "mtext option" mtext | Rescanning

datatype wait = FirstLoad | ResetLoad

text \<open>
  What follows a write: \<open>ui.changes.init\<close>, then \<open>ui.changes.apply\<close>, then verifications with a
  pause after each that fails. A verification has asked the daemon and the interface section.
\<close>

datatype apply_run = InitPending bool | ApplyPending
  | VerifyPending nat cfg_plan "(bool \<times> jval) option" "bool option" | RetryWait nat | RunDone

record 'u session =
  ssPage :: page
  ssUci :: 'u
  ssChain :: chain
  ssWaits :: "wait list"
  ssRuns :: "apply_run list"
  ssNotices :: "mtext list"

definition onPage :: "(page \<Rightarrow> page) \<Rightarrow> 'u session \<Rightarrow> 'u session" where
  "onPage f s = s\<lparr>ssPage := f (ssPage s)\<rparr>"

definition notifyError :: "mtext \<Rightarrow> 'u session \<Rightarrow> 'u session" where
  "notifyError e s = s\<lparr>ssNotices := ssNotices s @ [e]\<rparr>"

section \<open>Busy\<close>

definition formControls :: "config_form \<Rightarrow> string list" where
  "formControls fm = map fst (fmValue fm) @ map fst (fmChecked fm) @
     [''range-input'', ''range-add'', ''reset-defaults'', ''range-remove'']"

definition formBusy :: "bool \<Rightarrow> page \<Rightarrow> page" where
  "formBusy busy p = (let
       p1 = p\<lparr>pgIface := setBusy busy (pgIface p),
         pgForm := (pgForm p)\<lparr>fmDisabled := (if busy then formControls (pgForm p) else [])\<rparr>\<rparr>;
       p2 = (if busy then p1 else updateDependencies p1)
     in setNativeActionState (case pgValidation p of Some v \<Rightarrow> vd_valid v | None \<Rightarrow> True) busy p2)"

section \<open>Saving\<close>

definition platformPatch :: "page \<Rightarrow> props \<Rightarrow> uci_patch" where
  "platformPatch p vs = applyPatchPolicy (pgStatus p) (pgRaw p) (buildUciPatch (JObj vs) (jor (pgRaw p) (JObj [])))"

definition prepareSave :: "page \<Rightarrow> (mtext + cfg_plan) \<times> page" where
  "prepareSave p = (let p1 = validateForm p; v = checkForm p; plan = prepareIfaceSave (pgIface p);
       vs = withDesired plan (vd_values v)
     in (if \<not> vd_valid v then Inl (Tr ''validation failed, correct the marked options'')
         else Inr \<lparr>cpValues = vs, cpIface = plan, cpPatch = platformPatch p1 vs\<rparr>, p1))"

definition saveAllSettings :: "'u uci_api \<Rightarrow> bool \<Rightarrow> 'u session \<Rightarrow> 'u session" where
  "saveAllSettings api apply s = (
     if configSaving (pgIface (ssPage s)) then notifyError (Tr ''a save is in progress'') s
     else (case prepareSave (ssPage s) of
       (Inl e, p1) \<Rightarrow> notifyError e (s\<lparr>ssPage := p1\<rparr>)
     | (Inr plan, p1) \<Rightarrow> (let missing = pgSectionMissing p1 in
         case ensureSection api missing (ssUci s) of
           (Some e, u1) \<Rightarrow> notifyError e (s\<lparr>ssPage := p1, ssUci := u1\<rparr>)
         | (None, u1) \<Rightarrow> (let snap = snapshotOwnedValues api u1 in
             case applyLocalPatch api (cpPatch plan) u1 of
               (Some e, u2) \<Rightarrow> notifyError e (s\<lparr>ssPage := p1, ssUci := snd (undoLocal api missing snap u2)\<rparr>)
             | (None, u2) \<Rightarrow> s\<lparr>ssPage := setFeedback ''saving'' (Tr ''staging the configuration'')
                   (formBusy True (p1\<lparr>pgSectionMissing := False\<rparr>)),
                 ssUci := u2, ssChain := Submitting (SaveJob plan apply) snap missing\<rparr>))))"

text \<open>The end of a write: busy is cleared, then the driver counts the native changes again.\<close>

definition chainDone :: "bool \<Rightarrow> 'u session \<Rightarrow> 'u session" where
  "chainDone apply s = (onPage (\<lambda>p. (formBusy False p)\<lparr>pgDirty := False\<rparr>) s)
     \<lparr>ssChain := NoChain, ssRuns := ssRuns s @ [InitPending apply]\<rparr>"

definition chainFailed :: "mtext \<Rightarrow> 'u session \<Rightarrow> 'u session" where
  "chainFailed e s = notifyError e ((onPage (\<lambda>p. setFeedback ''error'' e (formBusy False p)) s)\<lparr>ssChain := NoChain\<rparr>)"

definition pageSaved :: "cfg_plan \<Rightarrow> page \<Rightarrow> page" where
  "pageSaved plan p = setFeedback ''staged'' (Tr ''staged, waiting to be applied'')
     (p\<lparr>pgRaw := JObj (cpValues plan), pgCurrent := cpValues plan, pgLastPlan := Some plan, pgStaged := True,
        pgSectionMissing := False, pgIface := markSaved (cpIface plan) (pgIface p)\<rparr>)"

text \<open>The rescan of a reset; \<open>load\<close> does nothing while edits are unsaved, and waits for a scan in flight.\<close>

definition resetWritten :: "props \<Rightarrow> 'u session \<Rightarrow> 'u session" where
  "resetWritten vs s = (let p = setFeedback ''ready'' (Tr ''the staged values were revoked'')
         ((ssPage s)\<lparr>pgStaged := False, pgRaw := JObj vs\<rparr>);
       p' = p\<lparr>pgIface := loadIfaceConfig (pgIface p)\<rparr>; s' = s\<lparr>ssPage := p'\<rparr>
     in if ifcfgLoading (pgIface p') then s'\<lparr>ssChain := Rescanning\<rparr> else chainDone False s')"

section \<open>Rolling back\<close>

definition writeFailure :: "job \<Rightarrow> mtext" where
  "writeFailure j = (case j of SaveJob _ _ \<Rightarrow> Tr ''staging failed: '' | ResetJob _ _ _ \<Rightarrow> Tr ''reset failed: '')"

definition rolledBack :: "job \<Rightarrow> bool \<Rightarrow> page \<Rightarrow> page" where
  "rolledBack j missing p = (case j of
     SaveJob _ _ \<Rightarrow> p\<lparr>pgSectionMissing := missing\<rparr>
   | ResetJob _ stagedRaw stagedIface \<Rightarrow> fillForm stagedRaw (p\<lparr>pgRaw := stagedRaw,
       pgIface := (pgIface p)\<lparr>ifaceOriginal := stagedIface\<rparr>, pgStaged := True\<rparr>))"

definition rollbackDone :: "job \<Rightarrow> bool \<Rightarrow> mtext option \<Rightarrow> mtext \<Rightarrow> 'u session \<Rightarrow> 'u session" where
  "rollbackDone j missing reloadError e s = chainFailed
     (Cat [writeFailure j, e, case reloadError of Some r \<Rightarrow> Cat [Tr ''; refreshing the staged state failed: '', r]
        | None \<Rightarrow> Tr ''; the options of this page were rolled back''])
     (onPage (rolledBack j missing) s)"

definition rollbackFailed :: "job \<Rightarrow> bool \<Rightarrow> mtext \<Rightarrow> mtext \<Rightarrow> 'u session \<Rightarrow> 'u session" where
  "rollbackFailed j missing e e2 s = chainFailed (Cat [writeFailure j, e, Tr ''; rollback failed: '', e2])
     (onPage (\<lambda>p. case j of SaveJob _ _ \<Rightarrow> p\<lparr>pgSectionMissing := missing\<rparr> | ResetJob _ _ _ \<Rightarrow> p) s)"

definition undo :: "'u uci_api \<Rightarrow> job \<Rightarrow> props \<Rightarrow> bool \<Rightarrow> mtext option \<Rightarrow> mtext \<Rightarrow> 'u session \<Rightarrow> 'u session" where
  "undo api j snap missing reloadError e s = (case undoLocal api missing snap (ssUci s) of
     (Some e2, u) \<Rightarrow> rollbackFailed j missing e e2 (s\<lparr>ssUci := u\<rparr>)
   | (None, u) \<Rightarrow> s\<lparr>ssUci := u, ssChain := Undoing j missing reloadError e\<rparr>)"

definition rollbackOwnedValues :: "'u uci_api \<Rightarrow> job \<Rightarrow> props \<Rightarrow> bool \<Rightarrow> mtext \<Rightarrow> 'u session \<Rightarrow> 'u session" where
  "rollbackOwnedValues api j snap missing e s = (case uUnload api of
     None \<Rightarrow> undo api j snap missing None e s
   | Some unload \<Rightarrow> if \<not> uHasLoad api then undo api j snap missing None e s
       else (case unload (ssUci s) of
         (Some r, u) \<Rightarrow> undo api j snap missing (Some r) e (s\<lparr>ssUci := u\<rparr>)
       | (None, u) \<Rightarrow> s\<lparr>ssUci := u, ssChain := Reloading j snap missing e\<rparr>))"

text \<open>\<open>saveLocalChanges\<close> rejects when the client has no \<open>save\<close>.\<close>

definition saveOutcome :: "'u uci_api \<Rightarrow> mtext option \<Rightarrow> mtext option" where
  "saveOutcome api r = (if uHasSave api then r else Some (Tr ''local changes cannot be saved''))"

definition onStore :: "'u uci_api \<Rightarrow> mtext option \<Rightarrow> 'u \<Rightarrow> 'u session \<Rightarrow> 'u session" where
  "onStore api r u s = (let s1 = s\<lparr>ssUci := u\<rparr> in case ssChain s of
     NoChain \<Rightarrow> s
   | Rescanning \<Rightarrow> s
   | Submitting j snap missing \<Rightarrow> (case saveOutcome api r of
       Some e \<Rightarrow> rollbackOwnedValues api j snap missing e s1
     | None \<Rightarrow> (case j of SaveJob plan apply \<Rightarrow> chainDone apply (onPage (pageSaved plan) s1)
         | ResetJob vs _ _ \<Rightarrow> resetWritten vs s1))
   | Reloading j snap missing e \<Rightarrow> undo api j snap missing r e s1
   | Undoing j missing reloadError e \<Rightarrow> (case saveOutcome api r of
       Some e2 \<Rightarrow> rollbackFailed j missing e e2 s1
     | None \<Rightarrow> rollbackDone j missing reloadError e s1))"

section \<open>Resetting\<close>

definition resetIface :: "jval \<Rightarrow> jval" where
  "resetIface iface = JObj (map (\<lambda>n. (n, jor (jget iface n) (JArr []))) LIST_FIELDS @
     [(''present'', JObj (assignProps [] (ownProps (jor (jget iface ''present'') (JObj [])))))])"

definition resetAllSettings :: "'u uci_api \<Rightarrow> 'u session \<Rightarrow> 'u session" where
  "resetAllSettings api s = (let p = ssPage s in
     if configSaving (pgIface p) then notifyError (Tr ''a save is in progress'') s
     else (let iface = pgInitialIface p; stagedRaw = pgRaw p; stagedIface = ifaceOriginal (pgIface p);
         vs = foldl (\<lambda>acc n. putProp n (jor (jget iface n) (JArr [])) acc) (cloneValues (JObj (pgInitial p))) LIST_FIELDS;
         p1 = fillForm (JObj vs) (p\<lparr>pgIface := resetInterfaces (resetIface iface) (pgIface p)\<rparr>)
       in if \<not> pgStaged p then
            (let p2 = setFeedback ''ready'' (Tr ''back to the values loaded'') p1;
                 p3 = p2\<lparr>pgIface := loadIfaceConfig (pgIface p2)\<rparr>
             in if ifcfgLoading (pgIface p3) then s\<lparr>ssPage := p3, ssWaits := ssWaits s @ [ResetLoad]\<rparr>
                else s\<lparr>ssPage := p3\<lparr>pgDirty := False\<rparr>, ssRuns := ssRuns s @ [InitPending False]\<rparr>)
          else (case applyLocalPatch api (platformPatch p1 vs) (ssUci s) of
              (Some e, u) \<Rightarrow> notifyError e (s\<lparr>ssPage := p1, ssUci := u\<rparr>)
            | (None, u) \<Rightarrow> s\<lparr>ssPage := setFeedback ''saving'' (Tr ''revoking the staged values'') (formBusy True p1), ssUci := u,
                ssChain := Submitting (ResetJob vs stagedRaw stagedIface) (snapshotOwnedValues api (ssUci s))
                  (pgSectionMissing p)\<rparr>)))"

section \<open>Applying and verifying\<close>

definition sameNumber :: "jval \<Rightarrow> jval \<Rightarrow> bool" where
  "sameNumber a b \<longleftrightarrow> toNum a = toNum b \<and> toNum a \<noteq> NaN"

definition flagText :: "jval \<Rightarrow> string" where
  "flagText v = (if truthy v then ''1'' else ''0'')"

definition statusMatches :: "jval \<Rightarrow> jval \<Rightarrow> bool" where
  "statusMatches status vs = (
     if statusContractIssue status \<noteq> None then False
     else strictEq (jget status ''rate_collector_mode'') (jget vs ''rate_collector_mode'') \<and>
       (if showAccessEdge (formPolicy status) then strictEq (jget status ''access_edge_mode'') (jget vs ''access_edge_mode'') else True) \<and>
       strictEq (jget status ''conn_collector_mode'') (jget vs ''conn_collector_mode'') \<and>
       list_all (\<lambda>n. sameNumber (jget status n) (jget vs n))
         [''refresh_interval_ms'', ''active_client_window_ms'', ''active_client_min_bps''] \<and>
       list_all (\<lambda>n. jget status n = JUndef \<or> sameNumber (jget status n) (jget vs n))
         [''overview_window_samples'', ''max_clients''] \<and>
       list_all (\<lambda>n. jget status n = JUndef \<or> flagText (jget status n) = toStr (jget vs n))
         [''enable_bpf'', ''enable_conntrack_fallback''])"

definition markApplied :: "page \<Rightarrow> page" where
  "markApplied p = (case pgLastPlan p of None \<Rightarrow> p
   | Some plan \<Rightarrow> (let vs = JObj (cpValues plan); names = (\<lambda>n. jor (jget vs n) (JArr [])) in
       p\<lparr>pgInitial := cpValues plan,
         pgInitialIface := JObj (map (\<lambda>n. (n, names n)) LIST_FIELDS @
           [(''present'', JObj (map (\<lambda>n. (n, JBool (truthy (jget (names n) ''length'')))) LIST_FIELDS))]),
         pgStaged := False, pgDirty := False\<rparr>))"

definition setRun :: "nat \<Rightarrow> apply_run \<Rightarrow> 'u session \<Rightarrow> 'u session" where
  "setRun i r s = s\<lparr>ssRuns := (ssRuns s)[i := r]\<rparr>"

text \<open>The pauses after a verification that failed; \<open>attempt\<close> counts those taken.\<close>

definition retryDelays :: "nat list" where
  "retryDelays = [500, 750, 1000, 1500, 2000]"

definition afterVerify :: "nat \<Rightarrow> nat \<Rightarrow> bool \<Rightarrow> 'u session \<Rightarrow> 'u session" where
  "afterVerify i attempt ok s = (
     if ok then setRun i RunDone s
     else if attempt < length retryDelays
     then setRun i (RetryWait (attempt + 1))
       (onPage (setFeedback ''verifying'' (Tr ''applied, waiting for the daemon and the interfaces'')) s)
     else setRun i RunDone s)"

definition verifyAll :: "nat \<Rightarrow> nat \<Rightarrow> 'u session \<Rightarrow> 'u session" where
  "verifyAll i attempt s = (case pgLastPlan (ssPage s) of
     None \<Rightarrow> afterVerify i attempt False s
   | Some plan \<Rightarrow> setRun i (VerifyPending attempt plan None None)
       (onPage (\<lambda>p. (setFeedback ''verifying'' (Tr ''verifying the daemon and the interfaces'') p)
          \<lparr>pgIface := verify (JObj (cpValues plan)) (pgIface p)\<rparr>) s))"

definition showVerified :: "bool \<Rightarrow> jval \<Rightarrow> page \<Rightarrow> page" where
  "showVerified ok status p = (let p1 = (if truthy status then applyRuntimeInfo status (p\<lparr>pgStatus := status\<rparr>) else p) in
     if ok then setFeedback ''success'' (Tr ''applied and verified'') p1
     else setFeedback ''degraded'' (Tr ''applied, but the running state does not match yet'') p1)"

text \<open>\<open>Promise.all\<close>: the two answers, in either order.\<close>

definition verifyProgress :: "nat \<Rightarrow> apply_run \<Rightarrow> 'u session \<Rightarrow> 'u session" where
  "verifyProgress i r s = (case r of
     VerifyPending attempt plan (Some (ok1, status)) (Some ok2) \<Rightarrow>
       afterVerify i attempt (ok1 \<and> ok2) (onPage (showVerified (ok1 \<and> ok2) status) s)
   | _ \<Rightarrow> setRun i r s)"

definition runAt :: "nat \<Rightarrow> 'u session \<Rightarrow> apply_run" where
  "runAt i s = (if i < length (ssRuns s) then ssRuns s ! i else RunDone)"

definition onChangesInit :: "nat \<Rightarrow> mtext option \<Rightarrow> bool \<Rightarrow> 'u session \<Rightarrow> 'u session" where
  "onChangesInit i r canApply s = (case runAt i s of
     InitPending apply \<Rightarrow> (case r of Some e \<Rightarrow> notifyError e (setRun i RunDone s)
       | None \<Rightarrow> setRun i (if apply \<and> canApply then ApplyPending else RunDone) s)
   | _ \<Rightarrow> s)"

definition onApplied :: "nat \<Rightarrow> mtext option \<Rightarrow> 'u session \<Rightarrow> 'u session" where
  "onApplied i r s = (case runAt i s of
     ApplyPending \<Rightarrow> (case r of Some e \<Rightarrow> notifyError e (setRun i RunDone s)
       | None \<Rightarrow> verifyAll i 0 (onPage markApplied s))
   | _ \<Rightarrow> s)"

definition onStatus :: "nat \<Rightarrow> answer \<Rightarrow> 'u session \<Rightarrow> 'u session" where
  "onStatus i a s = (case runAt i s of
     VerifyPending attempt plan None r \<Rightarrow> verifyProgress i (VerifyPending attempt plan
       (Some (case a of Data st \<Rightarrow> (statusMatches st (JObj (cpValues plan)), st) | Failed _ \<Rightarrow> (False, JUndef))) r) s
   | _ \<Rightarrow> s)"

text \<open>The interface section's own verdict, true also when it was skipped.\<close>

definition onInterfaces :: "nat \<Rightarrow> bool \<Rightarrow> 'u session \<Rightarrow> 'u session" where
  "onInterfaces i ok s = (case runAt i s of
     VerifyPending attempt plan r None \<Rightarrow> verifyProgress i (VerifyPending attempt plan r (Some ok)) s
   | _ \<Rightarrow> s)"

definition onRetry :: "nat \<Rightarrow> 'u session \<Rightarrow> 'u session" where
  "onRetry i s = (case runAt i s of RetryWait attempt \<Rightarrow> verifyAll i attempt s | _ \<Rightarrow> s)"

section \<open>The interface section on the page\<close>

definition marksForm :: "(string \<Rightarrow> string \<Rightarrow> int) \<Rightarrow> iface_event \<Rightarrow> iface_view \<Rightarrow> bool" where
  "marksForm collate e v = (case e of Choose n m \<Rightarrow> snd (markSelection collate n m v)
     | Remove opt n \<Rightarrow> snd (removeOrphan collate opt n v) | _ \<Rightarrow> False)"

definition onIface :: "(string \<Rightarrow> string \<Rightarrow> int) \<Rightarrow> iface_event \<Rightarrow> page \<Rightarrow> page" where
  "onIface collate e p = (let p1 = p\<lparr>pgIface := ifaceStep collate e (pgIface p)\<rparr> in
     if marksForm collate e (pgIface p) then markFormDirty p1 else p1)"

definition runWait :: "wait \<Rightarrow> 'u session \<Rightarrow> 'u session" where
  "runWait w s = (case w of
     FirstLoad \<Rightarrow> onPage (\<lambda>p. validateForm (updatePageState p)) s
   | ResetLoad \<Rightarrow> (onPage (\<lambda>p. p\<lparr>pgDirty := False\<rparr>) s)\<lparr>ssRuns := ssRuns s @ [InitPending False]\<rparr>)"

text \<open>When the scan in flight is answered, what waited for it goes on.\<close>

definition onScan :: "(string \<Rightarrow> string \<Rightarrow> int) \<Rightarrow> nat \<Rightarrow> answer \<Rightarrow> 'u session \<Rightarrow> 'u session" where
  "onScan collate t a s = (let s1 = onPage (onIface collate (Answer t a)) s in
     if map_of (scans (pgIface (ssPage s))) t = None then s1
     else (let s2 = foldl (\<lambda>acc w. runWait w acc) (s1\<lparr>ssWaits := []\<rparr>) (ssWaits s) in
       if ssChain s = Rescanning then chainDone False s2 else s2))"

section \<open>Runs of the page\<close>

text \<open>Only a control on the form that is not disabled fires an event; a select offers its enabled options.\<close>

definition enabled :: "page \<Rightarrow> string \<Rightarrow> bool" where
  "enabled p n = (n \<notin> set (fmDisabled (pgForm p)))"

definition offeredModes :: "page \<Rightarrow> string \<Rightarrow> string list" where
  "offeredModes p n = (let open = (\<lambda>cs. map mc_value (filter (\<lambda>c. \<not> mc_disabled c) cs)) in
     if n = ''rate_collector_mode'' then open (fmRateChoices (pgForm p))
     else if n = ''conn_collector_mode'' then open (fmConnChoices (pgForm p))
     else if n = ''access_edge_mode'' then map fst ACCESS_EDGE_MODES
     else if n = ''internet_view_mode'' then map fst INTERNET_VIEW_MODES else [])"

datatype 'u config_event = Type string string | Pick string string | Toggle string bool | TypeRange string | AddRange
  | RemoveRange string | Defaults | Iface iface_event | Scan nat answer | Save bool | ResetAll
  | Store "mtext option" 'u | ChangesInit nat "mtext option" bool | Applied nat "mtext option"
  | StatusReply nat answer | Interfaces nat bool | Retry nat

definition whenEnabled :: "string \<Rightarrow> (page \<Rightarrow> page) \<Rightarrow> 'u session \<Rightarrow> 'u session" where
  "whenEnabled n f s = (if enabled (ssPage s) n then onPage f s else s)"

definition userIface :: "iface_event \<Rightarrow> iface_view \<Rightarrow> bool" where
  "userIface e v = (case e of Choose _ _ \<Rightarrow> True | Remove _ _ \<Rightarrow> True | Load \<Rightarrow> \<not> reloadDisabled v | _ \<Rightarrow> False)"

text \<open>The events of the form's own controls.\<close>

fun formEvent :: "'u config_event \<Rightarrow> bool" where
  "formEvent (Type n v) = True"
| "formEvent (Pick n v) = True"
| "formEvent (Toggle n b) = True"
| "formEvent (TypeRange v) = True"
| "formEvent AddRange = True"
| "formEvent (RemoveRange v) = True"
| "formEvent Defaults = True"
| "formEvent _ = False"

fun configStep :: "'u uci_api \<Rightarrow> (string \<Rightarrow> string \<Rightarrow> int) \<Rightarrow> 'u config_event \<Rightarrow> 'u session \<Rightarrow> 'u session" where
  "configStep api collate (Type n v) s =
     (if n \<in> set (NUMBER_FIELDS @ NSS_NUMBER_FIELDS) \<and> hasInput (pgForm (ssPage s)) n then whenEnabled n (typeValue n v) s else s)"
| "configStep api collate (Pick n v) s =
     (if v \<in> set (offeredModes (ssPage s) n) \<and> hasInput (pgForm (ssPage s)) n then whenEnabled n (typeValue n v) s else s)"
| "configStep api collate (Toggle n b) s = (if n \<in> set BOOLEAN_FIELDS then whenEnabled n (toggle n b) s else s)"
| "configStep api collate (TypeRange v) s =
     whenEnabled ''range-input'' (\<lambda>p. p\<lparr>pgForm := (pgForm p)\<lparr>fmRangeInput := v\<rparr>\<rparr>) s"
| "configStep api collate AddRange s = whenEnabled ''range-add'' addRange s"
| "configStep api collate (RemoveRange v) s = whenEnabled ''range-remove'' (removeRange v) s"
| "configStep api collate Defaults s = whenEnabled ''reset-defaults'' resetDefaults s"
| "configStep api collate (Iface e) s = (if userIface e (pgIface (ssPage s)) then onPage (onIface collate e) s else s)"
| "configStep api collate (Scan t a) s = onScan collate t a s"
| "configStep api collate (Save apply) s = saveAllSettings api apply s"
| "configStep api collate ResetAll s = resetAllSettings api s"
| "configStep api collate (Store r u) s = onStore api r u s"
| "configStep api collate (ChangesInit i r can) s = onChangesInit i r can s"
| "configStep api collate (Applied i r) s = onApplied i r s"
| "configStep api collate (StatusReply i a) s = onStatus i a s"
| "configStep api collate (Interfaces i ok) s = onInterfaces i ok s"
| "configStep api collate (Retry i) s = onRetry i s"

definition configInit :: "'u uci_api \<Rightarrow> 'u \<Rightarrow> answer \<Rightarrow> 'u session" where
  "configInit api u a = (let p = renderPage (loadValues api u a) in
     \<lparr>ssPage = p\<lparr>pgIface := loadIfaceConfig (pgIface p)\<rparr>, ssUci = u, ssChain = NoChain, ssWaits = [FirstLoad],
      ssRuns = [], ssNotices = []\<rparr>)"

inductive config_run :: "'u uci_api \<Rightarrow> (string \<Rightarrow> string \<Rightarrow> int) \<Rightarrow> 'u session \<Rightarrow> bool" for api collate where
  start: "config_run api collate (configInit api u a)"
| step: "config_run api collate s \<Longrightarrow> config_run api collate (configStep api collate e s)"

section \<open>An invariant of the page\<close>

text \<open>While a write is in flight nothing of the form, nor the native buttons, can be used.\<close>

definition busyInv :: "page \<Rightarrow> bool" where
  "busyInv p \<longleftrightarrow> (configSaving (pgIface p) \<longrightarrow>
     set (formControls (pgForm p)) \<subseteq> set (fmDisabled (pgForm p)) \<and> pgActions p = (True, True))"

definition pageInv :: "page \<Rightarrow> bool" where
  "pageInv p \<longleftrightarrow> scanInv (pgIface p) \<and> clickInv (pgIface p) \<and> rangesInv (pgForm p) \<and> formShape (pgNss p) (pgForm p) \<and> busyInv p"

lemma pageInv_cong:
  assumes "pageInv p" "pgIface q = pgIface p" "pgForm q = pgForm p" "pgNss q = pgNss p" "pgActions q = pgActions p"
  shows "pageInv q"
  using assms(1) unfolding pageInv_def busyInv_def assms(2-5) .

lemma hasInput_choices [simp]:
  "hasInput (fm\<lparr>fmRateChoices := cs\<rparr>) n = hasInput fm n" "hasInput (fm\<lparr>fmConnChoices := cs\<rparr>) n = hasInput fm n"
  by (simp_all add: hasInput_def)

lemma update_disabled: "n \<in> set (fmDisabled (pgForm (updateDependencies p))) \<longleftrightarrow>
    (if n = ''range-remove'' \<or> n = ''range-add'' \<or> n = ''range-input'' then
       configSaving (pgIface p) \<or> jget (JObj (readForm p)) ''show_ipv6'' \<noteq> JStr ''1'' \<or>
         jget (JObj (readForm p)) ''hide_private_ipv6'' \<noteq> JStr ''1''
     else if (n = ''internet_view_mode'' \<or> n = ''access_edge_mode'') \<and> hasInput (pgForm p) n then
       configSaving (pgIface p) \<or> \<not> showAccessEdge (formPolicy (pgStatus p))
     else if n = ''hide_private_ipv6'' then configSaving (pgIface p) \<or> jget (JObj (readForm p)) ''show_ipv6'' \<noteq> JStr ''1''
     else n \<in> set (fmDisabled (pgForm p)))"
  by (auto simp: updateDependencies_def Let_def)

lemma update_shape: "formShape nss (pgForm p) \<Longrightarrow> formShape nss (pgForm (updateDependencies p))"
proof -
  have "mc_value ` set (fmConnChoices (pgForm (updateDependencies p))) = set (map fst CONNECTION_MODES)"
    unfolding updateDependencies_def Let_def by simp
  then show "formShape nss (pgForm p) \<Longrightarrow> formShape nss (pgForm (updateDependencies p))" by (simp add: formShape_def)
qed

text \<open>\<open>updateDependencies\<close> repairs what the range list may have enabled.\<close>

lemma update_inv:
  assumes "scanInv (pgIface p)" "clickInv (pgIface p)" "rangesInv (pgForm p)" "formShape (pgNss p) (pgForm p)"
    and "configSaving (pgIface p) \<Longrightarrow>
      set (formControls (pgForm p)) - {''range-remove''} \<subseteq> set (fmDisabled (pgForm p)) \<and> pgActions p = (True, True)"
  shows "pageInv (updateDependencies p)"
proof -
  have "set (formControls (pgForm (updateDependencies p))) = set (formControls (pgForm p))"
    by (simp add: formControls_def del: set_map)
  then have "busyInv (updateDependencies p)"
    using assms(5) by (auto simp: busyInv_def update_disabled)
  then show ?thesis
    using assms(1-4) update_shape rangesInv_cong [of "pgForm (updateDependencies p)" "pgForm p"] by (simp add: pageInv_def)
qed

lemma updateDependencies_inv: "pageInv p \<Longrightarrow> pageInv (updateDependencies p)"
  by (rule update_inv) (auto simp: pageInv_def busyInv_def)

lemma setFeedback_inv: "pageInv p \<Longrightarrow> pageInv (setFeedback st m p)"
  by (rule pageInv_cong) simp_all

lemma updatePageState_inv: "pageInv p \<Longrightarrow> pageInv (updatePageState p)"
  by (rule pageInv_cong) simp_all

lemma formControls_cong: "map fst (fmValue a) = map fst (fmValue b) \<Longrightarrow> map fst (fmChecked a) = map fst (fmChecked b) \<Longrightarrow>
    formControls a = formControls b"
  by (simp add: formControls_def)

lemma pageInv_form:
  assumes "pageInv p" "pgIface q = pgIface p" "pgNss q = pgNss p" "pgActions q = pgActions p"
    and "rangesInv (pgForm q)" "formShape (pgNss p) (pgForm q)" "fmDisabled (pgForm q) = fmDisabled (pgForm p)"
  shows "pageInv q"
proof -
  have "formControls (pgForm q) = formControls (pgForm p)"
    using assms(1,6) by (intro formControls_cong) (simp_all add: pageInv_def formShape_def)
  then show ?thesis using assms by (simp add: pageInv_def busyInv_def)
qed

lemma nativeState_inv: "pageInv p \<Longrightarrow> b = configSaving (pgIface p) \<Longrightarrow> pageInv (setNativeActionState v b p)"
  by (auto simp: pageInv_def busyInv_def setNativeActionState_def)

lemma validateForm_inv: assumes "pageInv p" shows "pageInv (validateForm p)"
proof -
  let ?p = "p\<lparr>pgCurrent := vd_values (checkForm p), pgValidation := Some (checkForm p), pgPlan := Some (prepareIfaceSave (pgIface p)),
    pgForm := showErrors (vd_errors (checkForm p)) (pgForm p)\<rparr>"
  have "pageInv ?p"
    using assms by (intro pageInv_form [OF assms]) (simp_all add: pageInv_def rangesInv_def formShape_def)
  then show ?thesis
    unfolding validateForm_def Let_def
    by (intro nativeState_inv updateDependencies_inv) (auto simp: setFeedback_inv split: option.split)
qed

lemma dirty_inv: "pageInv p \<Longrightarrow> pageInv (p\<lparr>pgDirty := b\<rparr>)"
  by (rule pageInv_cong) simp_all

lemma markFormDirty_inv: "pageInv p \<Longrightarrow> pageInv (markFormDirty p)"
  by (simp add: markFormDirty_def showNativeDirtyIndicator_def updatePageState_inv validateForm_inv dirty_inv)

lemma formChanged_inv: "pageInv p \<Longrightarrow> pageInv (formChanged p)"
  by (simp add: formChanged_def validateForm_inv markFormDirty_inv)

lemma buildRangeList_inv:
  assumes "pageInv p" "rangesInv fm" "formShape (pgNss p) fm" "fmDisabled fm = fmDisabled (pgForm p)"
  shows "pageInv (buildRangeList (p\<lparr>pgForm := fm\<rparr>))"
  unfolding buildRangeList_def
proof (rule update_inv)
  let ?q = "p\<lparr>pgForm := fm\<rparr>\<lparr>pgForm := setDisabled ''range-remove'' False (pgForm (p\<lparr>pgForm := fm\<rparr>))\<rparr>"
  have "formControls (pgForm ?q) = formControls (pgForm p)"
    using assms(1,3) by (intro formControls_cong) (simp_all add: pageInv_def formShape_def)
  then show "configSaving (pgIface ?q) \<Longrightarrow>
      set (formControls (pgForm ?q)) - {''range-remove''} \<subseteq> set (fmDisabled (pgForm ?q)) \<and> pgActions ?q = (True, True)"
    using assms(1,4) by (auto simp: pageInv_def busyInv_def split: if_splits)
qed (use assms in \<open>auto simp: pageInv_def rangesInv_def formShape_def\<close>)

lemma fillForm_inv: assumes "pageInv p" shows "pageInv (fillForm v p)"
  unfolding fillForm_def Let_def
proof (rule updateDependencies_inv, rule pageInv_cong [OF buildRangeList_inv [OF assms]])
  let ?fm = "fillInputs (JObj (normalizeValues (pgStatus p) (JObj (nvalues (normalize (jor v (JObj DEFAULTS))))))) (pgForm p)"
  show "rangesInv ?fm" by (rule rangesInv_parse) simp
  show "formShape (pgNss p) ?fm" using assms by (simp add: pageInv_def formShape_def)
  show "fmDisabled ?fm = fmDisabled (pgForm p)" by simp
qed simp_all

lemma resetDefaults_inv: "pageInv p \<Longrightarrow> pageInv (resetDefaults p)"
  by (simp add: resetDefaults_def Let_def formChanged_inv fillForm_inv)

lemma addRange_inv: assumes "pageInv p" shows "pageInv (addRange p)"
proof -
  have r: "rangesInv (pgForm p)" "formShape (pgNss p) (pgForm p)" using assms by (simp_all add: pageInv_def)
  show ?thesis
    unfolding addRange_def Let_def
    using parseCidr_ok [of "JStr (fmRangeInput (pgForm p))"] r
    by (auto intro!: formChanged_inv buildRangeList_inv [OF assms] pageInv_form [OF assms]
        simp: rangesInv_def formShape_def setFieldError_def)
qed

lemma removeRange_inv: assumes "pageInv p" shows "pageInv (removeRange r p)"
proof -
  have r: "rangesInv (pgForm p)" "formShape (pgNss p) (pgForm p)" using assms by (simp_all add: pageInv_def)
  then show ?thesis
    unfolding removeRange_def
    by (intro formChanged_inv buildRangeList_inv [OF assms])
       (auto simp: rangesInv_def formShape_def list_all_iff intro: le_trans [OF length_filter_le])
qed

lemma typeValue_inv: assumes "pageInv p" shows "pageInv (typeValue n v p)"
  using assms unfolding typeValue_def
  by (intro formChanged_inv pageInv_form [OF assms]) (simp_all add: pageInv_def rangesInv_def formShape_def)

lemma fst_update [simp]: "fst \<circ> (\<lambda>(m, w). (m, g m w)) = fst"
  by auto

lemma toggle_inv: assumes "pageInv p" shows "pageInv (toggle n b p)"
  using assms unfolding toggle_def
  by (intro formChanged_inv pageInv_form [OF assms]) (auto simp: pageInv_def rangesInv_def formShape_def)

lemma typeRange_inv: "pageInv p \<Longrightarrow> pageInv (p\<lparr>pgForm := (pgForm p)\<lparr>fmRangeInput := r\<rparr>\<rparr>)"
  by (rule pageInv_form) (simp_all add: pageInv_def rangesInv_def formShape_def)

text \<open>The section of the interfaces moves on its own, as long as it does not touch the busy flag.\<close>

lemma pageInv_iface:
  assumes "pageInv p" "scanInv v" "clickInv v" "configSaving v = configSaving (pgIface p)"
  shows "pageInv (p\<lparr>pgIface := v\<rparr>)"
  using assms by (simp add: pageInv_def busyInv_def)

lemma formBusy_inv: assumes "pageInv p" shows "pageInv (formBusy b p)"
proof -
  let ?q = "p\<lparr>pgIface := setBusy b (pgIface p), pgForm := (pgForm p)\<lparr>fmDisabled := (if b then formControls (pgForm p) else [])\<rparr>\<rparr>"
  have i: "scanInv (pgIface ?q)" "clickInv (pgIface ?q)"
    using busy_inv [of "pgIface p" b] assms by (simp_all add: pageInv_def)
  have r: "rangesInv (pgForm ?q)" "formShape (pgNss ?q) (pgForm ?q)"
    using assms by (simp_all add: pageInv_def rangesInv_def formShape_def)
  have saving: "configSaving (pgIface ?q) = b" by (simp add: setBusy_def)
  show ?thesis
  proof (cases b)
    case True
    then show ?thesis
      using i r by (auto simp: formBusy_def Let_def pageInv_def busyInv_def setNativeActionState_def formControls_def)
  next
    case False
    then have "pageInv (updateDependencies ?q)"
      using saving by (intro update_inv [OF i r]) simp
    then show ?thesis
      unfolding formBusy_def Let_def using False saving by (auto intro!: nativeState_inv)
  qed
qed

lemma setBusy_saving [simp]: "configSaving (setBusy b v) = b"
  by (simp add: setBusy_def)

lemma formBusy_saving [simp]: "configSaving (pgIface (formBusy b p)) = b"
  by (simp add: formBusy_def Let_def setNativeActionState_def)

section \<open>The interface section, seen from the page\<close>

lemma choose_keeps [simp]:
  "configSaving (fst (markSelection c n m v)) = configSaving v" "ifcfgLoading (fst (markSelection c n m v)) = ifcfgLoading v"
  "configSaving (fst (removeOrphan c opt n v)) = configSaving v" "ifcfgLoading (fst (removeOrphan c opt n v)) = ifcfgLoading v"
  by (simp_all add: markSelection_def removeOrphan_def refuse_def setInterfaceStatus_def split: option.split)

lemma load_keeps [simp]:
  "configSaving (loadIfaceConfig v) = configSaving v" "ifcfgLoading v \<Longrightarrow> ifcfgLoading (loadIfaceConfig v)"
  by (simp_all add: loadIfaceConfig_def Let_def setInterfaceStatus_def)

lemma verify_keeps [simp]:
  "configSaving (verify e v) = configSaving v" "ifcfgLoading v \<Longrightarrow> ifcfgLoading (verify e v)"
  by (simp_all add: verify_def Let_def setInterfaceStatus_def)

lemma verifies_keep [simp]: "configSaving (foldl (\<lambda>u e. verify e u) v es) = configSaving v"
  by (induction es arbitrary: v) simp_all

lemma answer_keeps [simp]: "configSaving (onAnswer c t a v) = configSaving v"
  by (simp add: onAnswer_def Let_def scanEnd_def settle_def loadDone_def loadFailed_def verifyDone_def verifyFailed_def
      setInterfaceStatus_def split: option.split scan.split sum.split)

lemma answer_other [simp]: "map_of (scans v) t = None \<Longrightarrow> onAnswer c t a v = v"
  by (simp add: onAnswer_def)

lemma saved_keeps [simp]:
  "configSaving (markSaved plan v) = configSaving v" "ifcfgLoading (markSaved plan v) = ifcfgLoading v"
  by (simp_all add: markSaved_def split: option.split)

lemma resetInterfaces_keeps [simp]:
  "configSaving (resetInterfaces w v) = configSaving v" "ifcfgLoading (resetInterfaces w v) = ifcfgLoading v"
  "ifcfgDirty (resetInterfaces w v) = False"
  by (simp_all add: resetInterfaces_def)

lemma setBusy_loading [simp]: "ifcfgLoading (setBusy b v) = ifcfgLoading v"
  by (simp add: setBusy_def)

lemma formBusy_keeps [simp]:
  "ifcfgLoading (pgIface (formBusy b p)) = ifcfgLoading (pgIface p)"
  "pgStaged (formBusy b p) = pgStaged p" "pgLastPlan (formBusy b p) = pgLastPlan p" "pgRaw (formBusy b p) = pgRaw p"
  "pgCurrent (formBusy b p) = pgCurrent p" "pgSectionMissing (formBusy b p) = pgSectionMissing p"
  "pgStatus (formBusy b p) = pgStatus p" "pgInitial (formBusy b p) = pgInitial p"
  by (simp_all add: formBusy_def Let_def setNativeActionState_def)

lemma ifaceStep_inv:
  assumes "pageInv p"
  shows "pageInv (p\<lparr>pgIface := loadIfaceConfig (pgIface p)\<rparr>)" "pageInv (p\<lparr>pgIface := verify e (pgIface p)\<rparr>)"
    "pageInv (p\<lparr>pgIface := markSaved plan (pgIface p)\<rparr>)" "pageInv (p\<lparr>pgIface := resetInterfaces w (pgIface p)\<rparr>)"
    "pageInv (p\<lparr>pgIface := onAnswer c t a (pgIface p)\<rparr>)"
    "pageInv (p\<lparr>pgIface := fst (markSelection c n m (pgIface p))\<rparr>)" "pageInv (p\<lparr>pgIface := fst (removeOrphan c opt n (pgIface p))\<rparr>)"
    "pageInv (p\<lparr>pgIface := (pgIface p)\<lparr>ifaceOriginal := w\<rparr>\<rparr>)"
proof -
  have i: "scanInv (pgIface p)" "clickInv (pgIface p)" using assms by (simp_all add: pageInv_def)
  show "pageInv (p\<lparr>pgIface := loadIfaceConfig (pgIface p)\<rparr>)" using load_inv i by (intro pageInv_iface [OF assms]) simp_all
  show "pageInv (p\<lparr>pgIface := verify e (pgIface p)\<rparr>)" using verify_inv i by (intro pageInv_iface [OF assms]) simp_all
  show "pageInv (p\<lparr>pgIface := markSaved plan (pgIface p)\<rparr>)" using saved_inv i by (intro pageInv_iface [OF assms]) simp_all
  show "pageInv (p\<lparr>pgIface := resetInterfaces w (pgIface p)\<rparr>)" using reset_inv i by (intro pageInv_iface [OF assms]) simp_all
  show "pageInv (p\<lparr>pgIface := onAnswer c t a (pgIface p)\<rparr>)" using onAnswer_inv i by (intro pageInv_iface [OF assms]) simp_all
  show "pageInv (p\<lparr>pgIface := fst (markSelection c n m (pgIface p))\<rparr>)"
    using markSelection_inv i by (intro pageInv_iface [OF assms]) simp_all
  show "pageInv (p\<lparr>pgIface := fst (removeOrphan c opt n (pgIface p))\<rparr>)"
    using removeOrphan_inv i by (intro pageInv_iface [OF assms]) simp_all
  show "pageInv (p\<lparr>pgIface := (pgIface p)\<lparr>ifaceOriginal := w\<rparr>\<rparr>)"
    using i scanInv_cong [of "(pgIface p)\<lparr>ifaceOriginal := w\<rparr>" "pgIface p"] clickInv_cong [of "(pgIface p)\<lparr>ifaceOriginal := w\<rparr>" "pgIface p"]
    by (intro pageInv_iface [OF assms]) simp_all
qed

section \<open>The invariant of the runs\<close>

text \<open>A reset that writes had a plan to revoke.\<close>

definition jobOk :: "job \<Rightarrow> 'u session \<Rightarrow> bool" where
  "jobOk j s \<longleftrightarrow> pgLastPlan (ssPage s) \<noteq> None \<or> (\<exists>plan a. j = SaveJob plan a)"

definition chainOk :: "'u session \<Rightarrow> bool" where
  "chainOk s \<longleftrightarrow> (case ssChain s of Submitting j _ _ \<Rightarrow> jobOk j s | Reloading j _ _ _ \<Rightarrow> jobOk j s
     | Undoing j _ _ _ \<Rightarrow> jobOk j s | _ \<Rightarrow> True)"

text \<open>
  The page is busy exactly while a write is in flight, whoever waits for a scan waits for one
  that is running, and staged values come from a plan.
\<close>

definition sessInv :: "'u session \<Rightarrow> bool" where
  "sessInv s \<longleftrightarrow> pageInv (ssPage s) \<and> (configSaving (pgIface (ssPage s)) \<longleftrightarrow> ssChain s \<noteq> NoChain) \<and>
     (ssWaits s \<noteq> [] \<or> ssChain s = Rescanning \<longrightarrow> ifcfgLoading (pgIface (ssPage s))) \<and>
     (pgStaged (ssPage s) \<longrightarrow> pgLastPlan (ssPage s) \<noteq> None) \<and> chainOk s"

lemma chainOk_cong: "chainOk s \<Longrightarrow> ssChain t = ssChain s \<Longrightarrow>
    (pgLastPlan (ssPage s) \<noteq> None \<Longrightarrow> pgLastPlan (ssPage t) \<noteq> None) \<Longrightarrow> chainOk t"
  by (auto simp: chainOk_def jobOk_def split: chain.splits)

lemma sessInv_page:
  assumes "sessInv s" "pageInv (f (ssPage s))" "configSaving (pgIface (f (ssPage s))) = configSaving (pgIface (ssPage s))"
    and "ifcfgLoading (pgIface (ssPage s)) \<Longrightarrow> ifcfgLoading (pgIface (f (ssPage s)))"
    and "pgStaged (f (ssPage s)) \<Longrightarrow> pgStaged (ssPage s)" "pgLastPlan (f (ssPage s)) = pgLastPlan (ssPage s)"
  shows "sessInv (onPage f s)"
  using assms chainOk_cong [of s "onPage f s"] by (auto simp: sessInv_def onPage_def)

lemma sessInv_rest:
  assumes "sessInv s" "ssPage t = ssPage s" "ssChain t = ssChain s" "ssWaits t = ssWaits s"
  shows "sessInv t"
  using assms(1) chainOk_cong [of s t] by (simp add: sessInv_def assms(2-4))

lemma notify_inv: "sessInv s \<Longrightarrow> sessInv (notifyError e s)"
  by (rule sessInv_rest) (simp_all add: notifyError_def)

lemma setRun_inv: "sessInv s \<Longrightarrow> sessInv (setRun i r s)"
  by (rule sessInv_rest) (simp_all add: setRun_def)

lemma sessD:
  assumes "sessInv s"
  shows "pageInv (ssPage s)" "configSaving (pgIface (ssPage s)) \<longleftrightarrow> ssChain s \<noteq> NoChain"
    "ssWaits s \<noteq> [] \<Longrightarrow> ifcfgLoading (pgIface (ssPage s))" "ssChain s = Rescanning \<Longrightarrow> ifcfgLoading (pgIface (ssPage s))"
    "pgStaged (ssPage s) \<Longrightarrow> pgLastPlan (ssPage s) \<noteq> None" "chainOk s"
  using assms by (simp_all add: sessInv_def)

lemma edit_inv:
  assumes "sessInv s" "pageInv (f (ssPage s))" "pgIface (f (ssPage s)) = pgIface (ssPage s)"
    and "pgStaged (f (ssPage s)) = pgStaged (ssPage s)" "pgLastPlan (f (ssPage s)) = pgLastPlan (ssPage s)"
  shows "sessInv (whenEnabled n f s)"
  using assms by (auto simp: whenEnabled_def intro: sessInv_page)

text \<open>What is left of the invariant between the steps of a flow.\<close>

definition flowInv :: "'u session \<Rightarrow> bool" where
  "flowInv s \<longleftrightarrow> pageInv (ssPage s) \<and> (ssWaits s \<noteq> [] \<longrightarrow> ifcfgLoading (pgIface (ssPage s))) \<and>
     (pgStaged (ssPage s) \<longrightarrow> pgLastPlan (ssPage s) \<noteq> None)"

lemma sess_flow: "sessInv s \<Longrightarrow> flowInv s"
  by (simp add: sessInv_def flowInv_def)

lemma flow_sess: "flowInv s \<Longrightarrow> (configSaving (pgIface (ssPage s)) \<longleftrightarrow> ssChain s \<noteq> NoChain) \<Longrightarrow>
    (ssChain s = Rescanning \<Longrightarrow> ifcfgLoading (pgIface (ssPage s))) \<Longrightarrow> chainOk s \<Longrightarrow> sessInv s"
  by (auto simp: sessInv_def flowInv_def)

lemma flow_cong: "flowInv s \<Longrightarrow> ssPage t = ssPage s \<Longrightarrow> ssWaits t = ssWaits s \<Longrightarrow> flowInv t"
  by (simp add: flowInv_def)

lemma flow_page:
  assumes "flowInv s" "pageInv (f (ssPage s))" "ifcfgLoading (pgIface (ssPage s)) \<Longrightarrow> ifcfgLoading (pgIface (f (ssPage s)))"
    and "pgStaged (f (ssPage s)) \<Longrightarrow> pgLastPlan (f (ssPage s)) \<noteq> None"
  shows "flowInv (onPage f s)"
  using assms by (auto simp: flowInv_def onPage_def)

lemma chainDone_inv: assumes "flowInv s" shows "sessInv (chainDone a s)"
  using assms dirty_inv [OF formBusy_inv, of "ssPage s" False False]
  by (intro flow_sess) (simp_all add: chainDone_def onPage_def flowInv_def chainOk_def)

lemma chainFailed_inv: assumes "flowInv s" shows "sessInv (chainFailed e s)"
  using assms setFeedback_inv [OF formBusy_inv]
  by (intro flow_sess) (simp_all add: chainFailed_def onPage_def flowInv_def notifyError_def chainOk_def)

lemma rolledBack_flow: "flowInv s \<Longrightarrow> pgLastPlan (ssPage s) \<noteq> None \<or> (\<exists>plan a. j = SaveJob plan a) \<Longrightarrow> flowInv (onPage (rolledBack j m) s)"
proof (rule flow_page)
  assume a: "flowInv s" "pgLastPlan (ssPage s) \<noteq> None \<or> (\<exists>plan a. j = SaveJob plan a)"
  then have p: "pageInv (ssPage s)" by (simp add: flowInv_def)
  have "pageInv ((ssPage s)\<lparr>pgRaw := r, pgIface := (pgIface (ssPage s))\<lparr>ifaceOriginal := w\<rparr>, pgStaged := True\<rparr>)" for r w
    by (rule pageInv_cong [OF ifaceStep_inv(8) [OF p, of w]]) simp_all
  moreover have "pageInv ((ssPage s)\<lparr>pgSectionMissing := m\<rparr>)" by (rule pageInv_cong [OF p]) simp_all
  ultimately show "pageInv (rolledBack j m (ssPage s))" by (simp add: rolledBack_def fillForm_inv split: job.split)
  show "ifcfgLoading (pgIface (ssPage s)) \<Longrightarrow> ifcfgLoading (pgIface (rolledBack j m (ssPage s)))"
    by (simp add: rolledBack_def split: job.split)
  show "pgStaged (rolledBack j m (ssPage s)) \<Longrightarrow> pgLastPlan (rolledBack j m (ssPage s)) \<noteq> None"
    using a by (auto simp: rolledBack_def flowInv_def split: job.splits)
qed

lemma rollbackDone_inv: "flowInv s \<Longrightarrow> jobOk j s \<Longrightarrow> sessInv (rollbackDone j m r e s)"
  unfolding rollbackDone_def jobOk_def by (intro chainFailed_inv rolledBack_flow)

lemma rollbackFailed_inv: assumes "flowInv s" shows "sessInv (rollbackFailed j m e e2 s)"
  unfolding rollbackFailed_def
proof (intro chainFailed_inv flow_page [OF assms])
  have p: "pageInv (ssPage s)" using assms by (simp add: flowInv_def)
  have "pageInv ((ssPage s)\<lparr>pgSectionMissing := m\<rparr>)" by (rule pageInv_cong [OF p]) simp_all
  then show "pageInv (case j of SaveJob x xa \<Rightarrow> (ssPage s)\<lparr>pgSectionMissing := m\<rparr> | ResetJob x xa xb \<Rightarrow> ssPage s)"
    using p by (simp split: job.split)
qed (use assms in \<open>auto simp: flowInv_def split: job.splits\<close>)

lemma undo_inv:
  assumes "flowInv s" "configSaving (pgIface (ssPage s))" "jobOk j s"
  shows "sessInv (undo api j snap m r e s)"
proof (cases "undoLocal api m snap (ssUci s)")
  case (Pair x u)
  show ?thesis
  proof (cases x)
    case None
    have "flowInv (s\<lparr>ssUci := u, ssChain := Undoing j m r e\<rparr>)" by (rule flow_cong [OF assms(1)]) simp_all
    then show ?thesis using assms(2,3) by (auto simp: undo_def Pair None chainOk_def jobOk_def intro: flow_sess)
  next
    case (Some e2)
    have "flowInv (s\<lparr>ssUci := u\<rparr>)" by (rule flow_cong [OF assms(1)]) simp_all
    then show ?thesis by (simp add: undo_def Pair Some rollbackFailed_inv)
  qed
qed

lemma rollback_inv:
  assumes "flowInv s" "configSaving (pgIface (ssPage s))" "jobOk j s"
  shows "sessInv (rollbackOwnedValues api j snap m e s)"
proof -
  have f: "flowInv (s\<lparr>ssUci := u, ssChain := c\<rparr>)" "flowInv (s\<lparr>ssUci := u\<rparr>)" "jobOk j (s\<lparr>ssUci := u\<rparr>)" for u c
    using assms(3) by (auto intro: flow_cong [OF assms(1)] simp: jobOk_def)
  then show ?thesis
    unfolding rollbackOwnedValues_def using assms undo_inv [OF f(2) _ f(3)]
    by (auto simp: undo_inv chainOk_def jobOk_def intro!: flow_sess f split: option.split prod.split)
qed

lemma pageSaved_flow: assumes "flowInv s" shows "flowInv (onPage (pageSaved plan) s)"
proof (rule flow_page [OF assms])
  have p: "pageInv (ssPage s)" using assms by (simp add: flowInv_def)
  show "pageInv (pageSaved plan (ssPage s))"
    unfolding pageSaved_def
    by (rule setFeedback_inv, rule pageInv_cong [OF ifaceStep_inv(3) [OF p, of "cpIface plan"]]) simp_all
qed (simp_all add: pageSaved_def)

lemma resetWritten_inv:
  assumes "flowInv s" "configSaving (pgIface (ssPage s))"
  shows "sessInv (resetWritten vs s)"
proof -
  let ?p = "setFeedback ''ready'' (Tr ''the staged values were revoked'') ((ssPage s)\<lparr>pgStaged := False, pgRaw := JObj vs\<rparr>)"
  let ?q = "?p\<lparr>pgIface := loadIfaceConfig (pgIface (ssPage s))\<rparr>"
  have p: "pageInv (ssPage s)" and w: "ssWaits s \<noteq> [] \<longrightarrow> ifcfgLoading (pgIface (ssPage s))"
    using assms by (simp_all add: flowInv_def)
  have "pageInv ?p" by (rule setFeedback_inv, rule pageInv_cong [OF p]) simp_all
  then have "pageInv ?q" using ifaceStep_inv(1) [of ?p] by simp
  then have f: "flowInv (s\<lparr>ssPage := ?q, ssChain := c\<rparr>)" "flowInv (s\<lparr>ssPage := ?q\<rparr>)" for c
    using w by (auto simp: flowInv_def)
  show ?thesis
  proof (cases "ifcfgLoading (pgIface ?q)")
    case True
    then show ?thesis
      unfolding resetWritten_def Let_def using assms(2) by (auto intro!: flow_sess f simp: chainOk_def)
  next
    case False
    then show ?thesis unfolding resetWritten_def Let_def by (simp add: chainDone_inv [OF f(2)])
  qed
qed

lemma onStore_inv: assumes "sessInv s" shows "sessInv (onStore api r u s)"
proof -
  have f: "flowInv (s\<lparr>ssUci := u\<rparr>)" by (rule flow_cong [OF sess_flow [OF assms]]) simp_all
  have busy: "configSaving (pgIface (ssPage s))" if "ssChain s \<noteq> NoChain" using sessD(2) [OF assms] that by simp
  have job: "jobOk j (s\<lparr>ssUci := u\<rparr>)" if "ssChain s = Submitting j a b \<or> ssChain s = Reloading j a b e \<or> ssChain s = Undoing j b x e" for j a b e x
    using sessD(6) [OF assms] that by (auto simp: chainOk_def jobOk_def)
  show ?thesis
  proof (cases "ssChain s")
    case (Submitting j snap m)
    have "sessInv (rollbackOwnedValues api j snap m e (s\<lparr>ssUci := u\<rparr>))" for e
      using Submitting busy job by (intro rollback_inv f) auto
    moreover have "sessInv (resetWritten vs (s\<lparr>ssUci := u\<rparr>))" for vs
      using Submitting busy by (intro resetWritten_inv f) auto
    moreover have "sessInv (chainDone a (onPage (pageSaved plan) (s\<lparr>ssUci := u\<rparr>)))" for a plan
      by (rule chainDone_inv [OF pageSaved_flow [OF f]])
    ultimately show ?thesis by (simp add: onStore_def Let_def Submitting split: option.split job.split)
  next
    case (Reloading j snap m e)
    have "sessInv (undo api j snap m r e (s\<lparr>ssUci := u\<rparr>))" using Reloading busy job by (intro undo_inv f) auto
    then show ?thesis by (simp add: onStore_def Let_def Reloading)
  next
    case (Undoing j m x e)
    have "sessInv (rollbackDone j m x e (s\<lparr>ssUci := u\<rparr>))" using Undoing job by (intro rollbackDone_inv f) auto
    then show ?thesis by (simp add: onStore_def Let_def Undoing rollbackFailed_inv [OF f] split: option.split)
  qed (simp_all add: onStore_def Let_def assms)
qed

lemma prepareSave_page [simp]: "snd (prepareSave p) = validateForm p"
  by (simp add: prepareSave_def Let_def)

lemma saveAll_inv: assumes "sessInv s" shows "sessInv (saveAllSettings api apply s)"
proof (cases "configSaving (pgIface (ssPage s))")
  case True
  then show ?thesis by (simp add: saveAllSettings_def notify_inv assms)
next
  case False
  note d = sessD [OF assms]
  have chain: "ssChain s = NoChain" using d(2) False by simp
  obtain r where r: "prepareSave (ssPage s) = (r, validateForm (ssPage s))"
    using prepareSave_page [of "ssPage s"] by (metis prod.collapse)
  have idle: "sessInv (s\<lparr>ssPage := validateForm (ssPage s), ssUci := u\<rparr>)" "sessInv (s\<lparr>ssPage := validateForm (ssPage s)\<rparr>)" for u
    using d validateForm_inv [OF d(1)] by (simp_all add: sessInv_def chain chainOk_def)
  let ?q = "setFeedback ''saving'' (Tr ''staging the configuration'')
      (formBusy True ((validateForm (ssPage s))\<lparr>pgSectionMissing := False\<rparr>))"
  have "pageInv ?q"
    by (intro setFeedback_inv formBusy_inv pageInv_cong [OF validateForm_inv [OF d(1)]]) simp_all
  then have "sessInv (s\<lparr>ssPage := ?q, ssUci := u, ssChain := Submitting (SaveJob plan apply) snap m\<rparr>)" for u plan snap m
    using d by (simp add: sessInv_def chainOk_def jobOk_def)
  then show ?thesis
    unfolding saveAllSettings_def r using False
    by (auto simp: Let_def notify_inv idle split: sum.split prod.split option.split)
qed

lemma resetAll_inv: assumes "sessInv s" shows "sessInv (resetAllSettings api s)"
proof (cases "configSaving (pgIface (ssPage s))")
  case True
  then show ?thesis by (simp add: resetAllSettings_def Let_def notify_inv assms)
next
  case False
  note d = sessD [OF assms]
  have chain: "ssChain s = NoChain" using d(2) False by simp
  define vs where "vs = foldl (\<lambda>acc n. putProp n (jor (jget (pgInitialIface (ssPage s)) n) (JArr [])) acc)
    (cloneValues (JObj (pgInitial (ssPage s)))) LIST_FIELDS"
  define p1 where "p1 = fillForm (JObj vs)
    ((ssPage s)\<lparr>pgIface := resetInterfaces (resetIface (pgInitialIface (ssPage s))) (pgIface (ssPage s))\<rparr>)"
  have inv1: "pageInv p1" unfolding p1_def by (intro fillForm_inv ifaceStep_inv(4) d(1))
  have keep1: "configSaving (pgIface p1) = configSaving (pgIface (ssPage s))" "ifcfgLoading (pgIface p1) = ifcfgLoading (pgIface (ssPage s))"
      "pgStaged p1 = pgStaged (ssPage s)" "pgLastPlan p1 = pgLastPlan (ssPage s)"
    by (simp_all add: p1_def)
  define p3 where "p3 = (setFeedback ''ready'' (Tr ''back to the values loaded'') p1)\<lparr>pgIface := loadIfaceConfig (pgIface p1)\<rparr>"
  have inv3: "pageInv p3" using ifaceStep_inv(1) [OF setFeedback_inv [OF inv1]] by (simp add: p3_def)
  have keep3: "configSaving (pgIface p3) = configSaving (pgIface (ssPage s))"
      "ifcfgLoading (pgIface (ssPage s)) \<Longrightarrow> ifcfgLoading (pgIface p3)"
      "pgStaged p3 = pgStaged (ssPage s)" "pgLastPlan p3 = pgLastPlan (ssPage s)"
    by (simp_all add: p3_def keep1)
  let ?q = "setFeedback ''saving'' (Tr ''revoking the staged values'') (formBusy True p1)"
  have busy: "sessInv (s\<lparr>ssPage := ?q, ssUci := u, ssChain := Submitting (ResetJob vs a b) snap m\<rparr>)"
    if "pgStaged (ssPage s)" for u a b snap m
    using d that keep1 setFeedback_inv [OF formBusy_inv [OF inv1]] by (simp add: sessInv_def chainOk_def jobOk_def)
  have wait: "sessInv (s\<lparr>ssPage := p3, ssWaits := w\<rparr>)" if "ifcfgLoading (pgIface p3)" for w
    using d that keep3 inv3 by (simp add: sessInv_def chain chainOk_def)
  have settled: "sessInv (s\<lparr>ssPage := p3\<lparr>pgDirty := False\<rparr>, ssRuns := rs\<rparr>)" for rs
    using d keep3 dirty_inv [OF inv3] by (auto simp: sessInv_def chain chainOk_def)
  have failed: "sessInv (s\<lparr>ssPage := p1, ssUci := u\<rparr>)" for u
    using d keep1 inv1 by (simp add: sessInv_def chain chainOk_def)
  have "resetAllSettings api s = (if \<not> pgStaged (ssPage s) then
        (if ifcfgLoading (pgIface p3) then s\<lparr>ssPage := p3, ssWaits := ssWaits s @ [ResetLoad]\<rparr>
         else s\<lparr>ssPage := p3\<lparr>pgDirty := False\<rparr>, ssRuns := ssRuns s @ [InitPending False]\<rparr>)
      else (case applyLocalPatch api (platformPatch p1 vs) (ssUci s) of
          (Some e, u) \<Rightarrow> notifyError e (s\<lparr>ssPage := p1, ssUci := u\<rparr>)
        | (None, u) \<Rightarrow> s\<lparr>ssPage := ?q, ssUci := u, ssChain := Submitting (ResetJob vs (pgRaw (ssPage s))
            (ifaceOriginal (pgIface (ssPage s)))) (snapshotOwnedValues api (ssUci s)) (pgSectionMissing (ssPage s))\<rparr>))"
    using False unfolding resetAllSettings_def Let_def vs_def [symmetric] p1_def [symmetric] by (simp add: p3_def)
  then show ?thesis
    by (auto simp: busy wait settled notify_inv failed split: prod.split option.split)
qed

lemma verifyAll_inv: assumes "sessInv s" shows "sessInv (verifyAll i a s)"
proof -
  have f: "sessInv (onPage (setFeedback st m) s)" for st m
    using sessD(1) [OF assms] by (intro sessInv_page [OF assms] setFeedback_inv) simp_all
  have "sessInv (onPage (\<lambda>p. (setFeedback st m p)\<lparr>pgIface := verify e (pgIface p)\<rparr>) s)" for st m e
    using ifaceStep_inv(2) [OF setFeedback_inv [OF sessD(1) [OF assms]], of e]
    by (intro sessInv_page [OF assms]) simp_all
  then show ?thesis by (simp add: verifyAll_def afterVerify_def setRun_inv f assms split: option.split)
qed

lemma afterVerify_inv: assumes "sessInv s" shows "sessInv (afterVerify i a ok s)"
  using assms sessD(1) [OF assms]
  by (auto simp: afterVerify_def intro!: setRun_inv sessInv_page [OF assms] setFeedback_inv)

lemma verifyProgress_inv: assumes "sessInv s" shows "sessInv (verifyProgress i r s)"
proof -
  have v: "sessInv (onPage (showVerified ok st) s)" for ok st
  proof (rule sessInv_page [OF assms])
    have "pageInv (if truthy st then applyRuntimeInfo st ((ssPage s)\<lparr>pgStatus := st\<rparr>) else ssPage s)"
      using sessD(1) [OF assms] by (auto intro: pageInv_cong [OF sessD(1) [OF assms]])
    then show "pageInv (showVerified ok st (ssPage s))" by (simp add: showVerified_def Let_def setFeedback_inv)
  qed (simp_all add: showVerified_def Let_def split: if_splits)
  show ?thesis
    by (simp add: verifyProgress_def setRun_inv assms afterVerify_inv v split: apply_run.split option.split)
qed

lemma onIface_inv:
  assumes "sessInv s" "userIface e (pgIface (ssPage s))"
  shows "sessInv (onPage (onIface c e) s)"
proof (cases e)
  case (Choose n m)
  show ?thesis
    using ifaceStep_inv(6) [OF sessD(1) [OF assms(1)], of c n m]
    by (intro sessInv_page [OF assms(1)]) (simp_all add: Choose onIface_def Let_def markFormDirty_inv split: if_splits)
next
  case (Remove opt n)
  show ?thesis
    using ifaceStep_inv(7) [OF sessD(1) [OF assms(1)], of c opt n]
    by (intro sessInv_page [OF assms(1)]) (simp_all add: Remove onIface_def Let_def markFormDirty_inv split: if_splits)
next
  case Load
  show ?thesis
    using ifaceStep_inv(1) [OF sessD(1) [OF assms(1)]]
    by (intro sessInv_page [OF assms(1)]) (simp_all add: Load onIface_def Let_def marksForm_def)
qed (use assms(2) in \<open>simp_all add: userIface_def\<close>)

lemma runWait_flow:
  assumes "flowInv s" "ssWaits s = []"
  shows "flowInv (runWait w s) \<and> ssWaits (runWait w s) = [] \<and> ssChain (runWait w s) = ssChain s \<and>
    configSaving (pgIface (ssPage (runWait w s))) = configSaving (pgIface (ssPage s)) \<and>
    pgLastPlan (ssPage (runWait w s)) = pgLastPlan (ssPage s)"
proof (cases w)
  case FirstLoad
  have "pageInv (validateForm (updatePageState (ssPage s)))"
    using assms(1) by (intro validateForm_inv updatePageState_inv) (simp add: flowInv_def)
  then show ?thesis using assms by (simp add: runWait_def FirstLoad onPage_def flowInv_def)
next
  case ResetLoad
  then show ?thesis using assms dirty_inv by (simp add: runWait_def onPage_def flowInv_def)
qed

lemma runWaits_flow:
  assumes "flowInv s" "ssWaits s = []"
  shows "flowInv (foldl (\<lambda>acc w. runWait w acc) s ws) \<and> ssWaits (foldl (\<lambda>acc w. runWait w acc) s ws) = [] \<and>
    ssChain (foldl (\<lambda>acc w. runWait w acc) s ws) = ssChain s \<and>
    configSaving (pgIface (ssPage (foldl (\<lambda>acc w. runWait w acc) s ws))) = configSaving (pgIface (ssPage s)) \<and>
    pgLastPlan (ssPage (foldl (\<lambda>acc w. runWait w acc) s ws)) = pgLastPlan (ssPage s)"
  using assms
proof (induction ws arbitrary: s)
  case (Cons w ws)
  then show ?case using runWait_flow [OF Cons.prems, of w] by simp
qed simp

lemma onScan_inv: assumes "sessInv s" shows "sessInv (onScan c t a s)"
proof (cases "map_of (scans (pgIface (ssPage s))) t = None")
  case True
  then show ?thesis using assms by (simp add: onScan_def onPage_def onIface_def marksForm_def)
next
  case False
  note d = sessD [OF assms]
  let ?s1 = "(onPage (onIface c (Answer t a)) s)\<lparr>ssWaits := []\<rparr>"
  let ?s2 = "foldl (\<lambda>acc w. runWait w acc) ?s1 (ssWaits s)"
  have page: "ssPage ?s1 = (ssPage s)\<lparr>pgIface := onAnswer c t a (pgIface (ssPage s))\<rparr>"
    by (simp add: onPage_def onIface_def marksForm_def)
  have f1: "flowInv ?s1" using ifaceStep_inv(5) [OF d(1)] d(5) by (simp add: flowInv_def page)
  have r: "flowInv ?s2" "ssWaits ?s2 = []" "ssChain ?s2 = ssChain s"
      "configSaving (pgIface (ssPage ?s2)) = configSaving (pgIface (ssPage s))" "pgLastPlan (ssPage ?s2) = pgLastPlan (ssPage s)"
    using runWaits_flow [OF f1, of "ssWaits s"] by (simp_all add: page) (simp_all add: onPage_def)
  have eq: "onScan c t a s = (if ssChain s = Rescanning then chainDone False ?s2 else ?s2)"
  proof -
    obtain k where "map_of (scans (pgIface (ssPage s))) t = Some k" using False by blast
    then show ?thesis unfolding onScan_def Let_def by (simp add: onPage_def)
  qed
  show ?thesis
  proof (cases "ssChain s = Rescanning")
    case True
    then show ?thesis unfolding eq by (simp add: chainDone_inv [OF r(1)])
  next
    case other: False
    have "sessInv ?s2"
      using r d(2) other by (intro flow_sess chainOk_cong [OF d(6)]) simp_all
    then show ?thesis unfolding eq using other by simp
  qed
qed

lemma markApplied_inv: assumes "sessInv s" shows "sessInv (onPage markApplied s)"
  using sessD(1) [OF assms]
  by (intro sessInv_page [OF assms]) (auto simp: markApplied_def Let_def intro: pageInv_cong split: option.splits)

lemma typeRange_sess: "sessInv s \<Longrightarrow> sessInv (whenEnabled n (\<lambda>p. p\<lparr>pgForm := (pgForm p)\<lparr>fmRangeInput := r\<rparr>\<rparr>) s)"
  by (rule edit_inv) (simp_all add: typeRange_inv sessD(1))

lemma configStep_inv: assumes "sessInv s" shows "sessInv (configStep api c e s)"
proof (cases e)
  case (ChangesInit i r can)
  then show ?thesis by (simp add: assms onChangesInit_def notify_inv setRun_inv split: apply_run.split option.split)
next
  case (Applied i r)
  then show ?thesis
    by (simp add: assms onApplied_def notify_inv setRun_inv verifyAll_inv markApplied_inv split: apply_run.split option.split)
next
  case (StatusReply i a)
  then show ?thesis by (simp add: assms onStatus_def verifyProgress_inv split: apply_run.split option.split)
next
  case (Interfaces i ok)
  then show ?thesis by (simp add: assms onInterfaces_def verifyProgress_inv split: apply_run.split option.split)
next
  case (Retry i)
  then show ?thesis by (simp add: assms onRetry_def verifyAll_inv split: apply_run.split)
qed (simp_all add: assms edit_inv typeValue_inv toggle_inv addRange_inv removeRange_inv resetDefaults_inv sessD(1) typeRange_sess
    onIface_inv onScan_inv saveAll_inv resetAll_inv onStore_inv)

lemma fold_errors_keep:
  "fmRanges (foldl (\<lambda>f (n, c). setFieldError n c f) fm es) = fmRanges fm \<and> fmValue (foldl (\<lambda>f (n, c). setFieldError n c f) fm es) = fmValue fm \<and>
   fmChecked (foldl (\<lambda>f (n, c). setFieldError n c f) fm es) = fmChecked fm \<and> fmConnChoices (foldl (\<lambda>f (n, c). setFieldError n c f) fm es) = fmConnChoices fm"
  by (induction es arbitrary: fm) (auto simp: setFieldError_def)

lemma buildForm_shape: "formShape nss (buildForm st nss vs)" "rangesInv (buildForm st nss vs)"
proof -
  show "formShape nss (buildForm st nss vs)"
    by (simp add: formShape_def buildForm_def Let_def inputNames_def comp_def)
  show "rangesInv (buildForm st nss vs)" by (rule rangesInv_parse) (simp add: buildForm_def Let_def)
qed

lemma renderPage_inv: "pageInv (renderPage d) \<and> \<not> configSaving (pgIface (renderPage d)) \<and> \<not> pgStaged (renderPage d)"
proof -
  define status where "status = ldStatus d"
  define vs where "vs = normalizeValues status (JObj (nvalues (normalize (JObj (nvalues (ldModel d))))))"
  define p where "p = \<lparr>pgIface = ifaceInit (ldInterfaces d), pgForm = buildForm status (showAccessEdge (formPolicy status)) (JObj vs),
     pgNss = showAccessEdge (formPolicy status), pgStatus = status, pgStatusOk = ldStatusOk d, pgLoadState = ldPageState d,
     pgRaw = ldRaw d, pgInitial = cloneValues (JObj vs), pgCurrent = cloneValues (JObj vs), pgValidation = None, pgPlan = None,
     pgSectionMissing = ldSectionMissing d, pgInitialIface = ldInterfaces d, pgLastPlan = None, pgStaged = False, pgDirty = False,
     pgSaveState = [], pgSaveText = noText, pgRuntime = (noText, []), pgShown = (ldPageState d, True), pgActions = (False, False)\<rparr>"
  define p1 where "p1 = applyRuntimeInfo status (buildRangeList p)"
  define q where "q = p1\<lparr>pgForm := foldl (\<lambda>f (n, c). setFieldError n c f) (pgForm p1) (nerrors (ldModel d))\<rparr>"
  have build: "buildDaemonSection d = updateDependencies q"
    unfolding buildDaemonSection_def Let_def q_def p1_def p_def vs_def status_def ..
  have iface: "pgIface p1 = ifaceInit (ldInterfaces d)" by (simp add: p1_def p_def)
  have saving: "\<not> configSaving (ifaceInit (ldInterfaces d))" by (simp add: ifaceInit_def)
  have "pageInv (updateDependencies q)"
  proof (rule update_inv)
    let ?fm = "setDisabled ''range-remove'' False (pgForm p)"
    have "formShape (pgNss p) ?fm" "rangesInv ?fm"
      using buildForm_shape(1) [of "pgNss p" status "JObj vs"] buildForm_shape(2) [of status "pgNss p" "JObj vs"] by (simp_all add: p_def formShape_def rangesInv_def)
    then have sh: "formShape (pgNss p) (pgForm (buildRangeList p))" "rangesInv (pgForm (buildRangeList p))"
      unfolding buildRangeList_def by (intro update_shape, simp, simp add: rangesInv_def)
    show "rangesInv (pgForm q)" "formShape (pgNss q) (pgForm q)"
      using sh fold_errors_keep [of "pgForm p1" "nerrors (ldModel d)"] by (simp_all add: q_def p1_def rangesInv_def formShape_def)
    show "scanInv (pgIface q)" "clickInv (pgIface q)" by (simp_all add: q_def iface ifaceInit_def scanInv_def clickInv_def)
    show "configSaving (pgIface q) \<Longrightarrow>
        set (formControls (pgForm q)) - {''range-remove''} \<subseteq> set (fmDisabled (pgForm q)) \<and> pgActions q = (True, True)"
      using saving by (simp add: q_def iface)
  qed
  moreover have "\<not> configSaving (pgIface (updateDependencies q)) \<and> \<not> pgStaged (updateDependencies q)"
    using saving by (simp add: q_def iface) (simp add: p1_def p_def)
  ultimately show ?thesis by (simp add: renderPage_def Let_def build updatePageState_inv setFeedback_inv)
qed

lemma config_run_inv: "config_run api c s \<Longrightarrow> sessInv s"
proof (induction rule: config_run.induct)
  case (start u a)
  let ?p = "renderPage (loadValues api u a)"
  have p: "pageInv ?p" "\<not> configSaving (pgIface ?p)" "\<not> pgStaged ?p" using renderPage_inv by auto
  have dirty: "\<not> ifcfgDirty (pgIface ?p)"
    by (simp add: renderPage_def Let_def buildDaemonSection_def ifaceInit_def)
  have "ifcfgLoading (loadIfaceConfig v)" if "\<not> ifcfgDirty v" for v
    using that by (simp add: loadIfaceConfig_def Let_def setInterfaceStatus_def)
  then show ?case using p dirty ifaceStep_inv(1) [OF p(1)] by (simp add: configInit_def Let_def sessInv_def chainOk_def)
qed (rule configStep_inv)

section \<open>The store as the page relies on it\<close>

text \<open>
  What LuCI documents of \<open>uci\<close>, for the states \<open>ok\<close> in which the section exists in the cache:
  setting and removing an option do not throw and change that option only, an option set to the
  empty text is absent, and an absent option reads as null or undefined.
\<close>

definition written :: "jval \<Rightarrow> jval \<Rightarrow> bool" where
  "written v g = (if v = JStr [] then nullish g else g = v)"

definition storeLaws :: "'u uci_api \<Rightarrow> ('u \<Rightarrow> bool) \<Rightarrow> bool" where
  "storeLaws api ok \<longleftrightarrow>
     (\<forall>u n v. ok u \<and> \<not> nullish v \<longrightarrow> fst (uSet api n v u) = None \<and> ok (snd (uSet api n v u)) \<and>
        written v (uGet api (snd (uSet api n v u)) n) \<and>
        (\<forall>m. m \<noteq> n \<longrightarrow> uGet api (snd (uSet api n v u)) m = uGet api u m)) \<and>
     (\<forall>u n. ok u \<longrightarrow> fst (uUnset api n u) = None \<and> ok (snd (uUnset api n u)) \<and> nullish (uGet api (snd (uUnset api n u)) n) \<and>
        (\<forall>m. m \<noteq> n \<longrightarrow> uGet api (snd (uUnset api n u)) m = uGet api u m)) \<and>
     (\<forall>u n. ok u \<longrightarrow> uGet api u n \<noteq> JStr [])"

definition sameOption :: "jval \<Rightarrow> jval \<Rightarrow> bool" where
  "sameOption a b \<longleftrightarrow> a = b \<or> nullish a \<and> nullish b"

lemma storeLaws_set:
  assumes "storeLaws api ok" "ok u" "\<not> nullish v"
  shows "\<exists>u'. uSet api n v u = (None, u') \<and> ok u' \<and> written v (uGet api u' n) \<and> (\<forall>m. m \<noteq> n \<longrightarrow> uGet api u' m = uGet api u m)"
proof -
  have "fst (uSet api n v u) = None \<and> ok (snd (uSet api n v u)) \<and> written v (uGet api (snd (uSet api n v u)) n) \<and>
      (\<forall>m. m \<noteq> n \<longrightarrow> uGet api (snd (uSet api n v u)) m = uGet api u m)"
    using assms unfolding storeLaws_def by (elim conjE) blast
  then show ?thesis by (intro exI [of _ "snd (uSet api n v u)"]) (simp add: prod_eq_iff)
qed

lemma storeLaws_unset:
  assumes "storeLaws api ok" "ok u"
  shows "\<exists>u'. uUnset api n u = (None, u') \<and> ok u' \<and> nullish (uGet api u' n) \<and> (\<forall>m. m \<noteq> n \<longrightarrow> uGet api u' m = uGet api u m)"
proof -
  have "fst (uUnset api n u) = None \<and> ok (snd (uUnset api n u)) \<and> nullish (uGet api (snd (uUnset api n u)) n) \<and>
      (\<forall>m. m \<noteq> n \<longrightarrow> uGet api (snd (uUnset api n u)) m = uGet api u m)"
    using assms unfolding storeLaws_def by (elim conjE) blast
  then show ?thesis by (intro exI [of _ "snd (uUnset api n u)"]) (simp add: prod_eq_iff)
qed

text \<open>A loop of calls, each of which settles one option.\<close>

lemma forAct_each:
  assumes "\<And>n u. n \<in> set ns \<Longrightarrow> ok u \<Longrightarrow> \<exists>u'. f n u = (None, u') \<and> ok u' \<and> R n (uGet api u' n) \<and>
      (\<forall>m. m \<noteq> n \<longrightarrow> uGet api u' m = uGet api u m)" and "ok u"
  shows "\<exists>u'. forAct f ns u = (None, u') \<and> ok u' \<and> (\<forall>m \<in> set ns. R m (uGet api u' m)) \<and>
      (\<forall>m. m \<notin> set ns \<longrightarrow> uGet api u' m = uGet api u m)"
  using assms
proof (induction ns arbitrary: u)
  case (Cons n ns)
  obtain u1 where u1: "f n u = (None, u1)" "ok u1" "R n (uGet api u1 n)" "\<forall>m. m \<noteq> n \<longrightarrow> uGet api u1 m = uGet api u m"
    using Cons.prems(1) [of n u] Cons.prems(2) by auto
  obtain u' where u': "forAct f ns u1 = (None, u')" "ok u'" "\<forall>m \<in> set ns. R m (uGet api u' m)"
      "\<forall>m. m \<notin> set ns \<longrightarrow> uGet api u' m = uGet api u1 m"
    using Cons.IH [of u1] Cons.prems(1) u1(2) by auto
  have "R n (uGet api u' n)" using u1(3) u'(3,4) by (cases "n \<in> set ns") auto
  then show ?case using u1 u' by auto
qed simp

lemma lookup_snapshot: "n \<in> set OWNED \<Longrightarrow> jget (JObj (snapshotOwnedValues api u)) n = uGet api u n"
proof -
  assume n: "n \<in> set OWNED"
  have "map_of (map (\<lambda>n. (n, uGet api u n)) ns) n = (if n \<in> set ns then Some (uGet api u n) else None)" for ns
    by (induction ns) auto
  then show ?thesis using n by (simp add: snapshotOwnedValues_def jget.simps)
qed

lemma restore_correct:
  assumes laws: "storeLaws api ok" and u: "ok u" and u0: "ok u0"
  shows "\<exists>u'. restoreOwnedValues api (snapshotOwnedValues api u0) u = (None, u') \<and> ok u' \<and>
    (\<forall>n \<in> set OWNED. sameOption (uGet api u' n) (uGet api u0 n)) \<and> (\<forall>n. n \<notin> set OWNED \<longrightarrow> uGet api u' n = uGet api u n)"
  unfolding restoreOwnedValues_def
proof (rule forAct_each [where R = "\<lambda>n g. sameOption g (uGet api u0 n)" and ok = ok, OF _ u])
  fix n u assume n: "n \<in> set OWNED" and u: "ok u"
  let ?v = "jget (JObj (snapshotOwnedValues api u0)) n"
  have v: "?v = uGet api u0 n" by (rule lookup_snapshot [OF n])
  show "\<exists>u'. (if nullish ?v then uUnset api n else uSet api n ?v) u = (None, u') \<and> ok u' \<and>
      sameOption (uGet api u' n) (uGet api u0 n) \<and> (\<forall>m. m \<noteq> n \<longrightarrow> uGet api u' m = uGet api u m)"
  proof (cases "nullish ?v")
    case True
    obtain u' where "uUnset api n u = (None, u')" "ok u'" "nullish (uGet api u' n)" "\<And>m. m \<noteq> n \<Longrightarrow> uGet api u' m = uGet api u m"
      using storeLaws_unset [OF laws u, of n] by blast
    then show ?thesis using True by (auto simp: v sameOption_def)
  next
    case False
    obtain u' where u': "uSet api n ?v u = (None, u')" "ok u'" "written ?v (uGet api u' n)" "\<And>m. m \<noteq> n \<Longrightarrow> uGet api u' m = uGet api u m"
      using storeLaws_set [OF laws u False, of n] by blast
    have "uGet api u0 n \<noteq> JStr []" using laws u0 by (simp add: storeLaws_def)
    then have "uGet api u' n = uGet api u0 n" using u'(3) by (simp add: written_def v)
    then show ?thesis using False u' by (auto simp: sameOption_def)
  qed
qed

lemma applyLocalPatch_correct:
  assumes laws: "storeLaws api ok" and u: "ok u" and vals: "\<And>n v. map_of (pset patch) n = Some v \<Longrightarrow> \<not> nullish v"
  shows "\<exists>u'. applyLocalPatch api patch u = (None, u') \<and> ok u' \<and>
    (\<forall>n. if n \<in> set (punset patch) then nullish (uGet api u' n)
      else (case map_of (pset patch) n of Some v \<Rightarrow> written v (uGet api u' n) | None \<Rightarrow> uGet api u' n = uGet api u n))"
proof -
  let ?f = "\<lambda>n. uSet api n (jget (JObj (pset patch)) n)"
  have v: "jget (JObj (pset patch)) n = the (map_of (pset patch) n)" "map_of (pset patch) n \<noteq> None"
    if "n \<in> set (objectKeys (JObj (pset patch)))" for n
  proof -
    have "map_of (pset patch) n \<noteq> None" using that by (simp add: map_of_eq_None_iff)
    then show "jget (JObj (pset patch)) n = the (map_of (pset patch) n)" "map_of (pset patch) n \<noteq> None"
      by (auto simp: jget.simps)
  qed
  have "\<exists>u1. forAct ?f (objectKeys (JObj (pset patch))) u = (None, u1) \<and> ok u1 \<and>
      (\<forall>n \<in> set (objectKeys (JObj (pset patch))). written (the (map_of (pset patch) n)) (uGet api u1 n)) \<and>
      (\<forall>n. n \<notin> set (objectKeys (JObj (pset patch))) \<longrightarrow> uGet api u1 n = uGet api u n)"
  proof (rule forAct_each [where R = "\<lambda>n g. written (the (map_of (pset patch) n)) g" and ok = ok, OF _ u])
    fix n u assume n: "n \<in> set (objectKeys (JObj (pset patch)))" and u: "ok u"
    have "\<not> nullish (jget (JObj (pset patch)) n)" using v [OF n] vals [of n] by auto
    from storeLaws_set [OF laws u this, of n] v(1) [OF n] show "\<exists>u'. ?f n u = (None, u') \<and> ok u' \<and>
        written (the (map_of (pset patch) n)) (uGet api u' n) \<and> (\<forall>m. m \<noteq> n \<longrightarrow> uGet api u' m = uGet api u m)"
      by simp
  qed
  then obtain u1 where u1: "forAct ?f (objectKeys (JObj (pset patch))) u = (None, u1)" "ok u1"
      "\<And>n. n \<in> set (objectKeys (JObj (pset patch))) \<Longrightarrow> written (the (map_of (pset patch) n)) (uGet api u1 n)"
      "\<And>n. n \<notin> set (objectKeys (JObj (pset patch))) \<Longrightarrow> uGet api u1 n = uGet api u n" by blast
  have "\<exists>u2. forAct (uUnset api) (punset patch) u1 = (None, u2) \<and> ok u2 \<and> (\<forall>n \<in> set (punset patch). nullish (uGet api u2 n)) \<and>
      (\<forall>n. n \<notin> set (punset patch) \<longrightarrow> uGet api u2 n = uGet api u1 n)"
    by (rule forAct_each [where R = "\<lambda>n. nullish" and ok = ok, OF _ u1(2)]) (rule storeLaws_unset [OF laws])
  then obtain u2 where u2: "forAct (uUnset api) (punset patch) u1 = (None, u2)" "ok u2"
      "\<And>n. n \<in> set (punset patch) \<Longrightarrow> nullish (uGet api u2 n)" "\<And>n. n \<notin> set (punset patch) \<Longrightarrow> uGet api u2 n = uGet api u1 n" by blast
  have keys: "n \<in> set (objectKeys (JObj (pset patch))) \<longleftrightarrow> map_of (pset patch) n \<noteq> None" for n
    by (simp add: map_of_eq_None_iff)
  have "applyLocalPatch api patch u = (None, u2)" by (simp only: applyLocalPatch_def thenAct_def u1(1) u2(1) prod.case option.case)
  moreover have "if n \<in> set (punset patch) then nullish (uGet api u2 n)
      else (case map_of (pset patch) n of Some v \<Rightarrow> written v (uGet api u2 n) | None \<Rightarrow> uGet api u2 n = uGet api u n)" for n
    using u2(3,4) [of n] u1(3,4) [of n] keys [of n] by (cases "map_of (pset patch) n") auto
  ultimately show ?thesis using u2(2) by blast
qed

section \<open>A save that fails\<close>

lemma saveAll_submits:
  assumes "ssChain s = NoChain" "ssChain (saveAllSettings api apply s) = Submitting j snap m"
  shows "\<exists>plan u1. j = SaveJob plan apply \<and> prepareSave (ssPage s) = (Inr plan, validateForm (ssPage s)) \<and>
    m = pgSectionMissing (ssPage s) \<and> ensureSection api m (ssUci s) = (None, u1) \<and> snap = snapshotOwnedValues api u1 \<and>
    applyLocalPatch api (cpPatch plan) u1 = (None, ssUci (saveAllSettings api apply s)) \<and>
    ssPage (saveAllSettings api apply s) = setFeedback ''saving'' (Tr ''staging the configuration'')
      (formBusy True ((validateForm (ssPage s))\<lparr>pgSectionMissing := False\<rparr>)) \<and>
    ssRuns (saveAllSettings api apply s) = ssRuns s"
proof -
  obtain r where r: "prepareSave (ssPage s) = (r, validateForm (ssPage s))"
    using prepareSave_page [of "ssPage s"] by (metis prod.collapse)
  show ?thesis
    using assms r unfolding saveAllSettings_def Let_def
    by (auto simp: notifyError_def split: if_splits sum.splits prod.splits option.splits)
qed

lemma setBusy_keeps [simp]:
  "ifaceOriginal (setBusy b v) = ifaceOriginal v" "ifcfgDirty (setBusy b v) = ifcfgDirty v" "orphanRemovals (setBusy b v) = orphanRemovals v"
  by (simp_all add: setBusy_def updateScanDisabled_def Let_def)

lemma formBusy_iface [simp]: "pgIface (formBusy b p) = setBusy b (pgIface p)" "pgDirty (formBusy b p) = pgDirty p"
  by (simp_all add: formBusy_def Let_def setNativeActionState_def)

lemma rollback_steps:
  assumes laws: "storeLaws api ok" and start: "ok (ssUci s)" "ssChain s = NoChain" "\<not> pgSectionMissing (ssPage s)"
    and client: "uUnload api = Some unload" "uHasLoad api" "uHasSave api" "fst (unload u) = None"
    and submitted: "ssChain (saveAllSettings api apply s) = Submitting j snap m"
    and reloaded: "ok u'"
    and s3_def: "s3 = onStore api r u' (onStore api (Some e) u (saveAllSettings api apply s))"
    and s4_def: "s4 = onStore api r2 u'' s3"
  shows "(\<forall>n \<in> set OWNED. sameOption (uGet api (ssUci s3) n) (uGet api (ssUci s) n)) \<and>
    (\<forall>n. n \<notin> set OWNED \<longrightarrow> uGet api (ssUci s3) n = uGet api u' n) \<and>
    ssChain s4 = NoChain \<and> \<not> configSaving (pgIface (ssPage s4)) \<and> pgSaveState (ssPage s4) = ''error'' \<and>
    pgRaw (ssPage s4) = pgRaw (ssPage s) \<and> pgInitial (ssPage s4) = pgInitial (ssPage s) \<and>
    pgStaged (ssPage s4) = pgStaged (ssPage s) \<and> pgLastPlan (ssPage s4) = pgLastPlan (ssPage s) \<and>
    pgSectionMissing (ssPage s4) = pgSectionMissing (ssPage s) \<and> pgDirty (ssPage s4) = pgDirty (ssPage s) \<and>
    ifaceOriginal (pgIface (ssPage s4)) = ifaceOriginal (pgIface (ssPage s)) \<and>
    ifcfgDirty (pgIface (ssPage s4)) = ifcfgDirty (pgIface (ssPage s)) \<and> ssRuns s4 = ssRuns s"
proof -
  let ?s1 = "saveAllSettings api apply s"
  obtain plan u1 where p: "j = SaveJob plan apply" "m = False" "ensureSection api m (ssUci s) = (None, u1)"
      "snap = snapshotOwnedValues api u1"
      "ssPage ?s1 = setFeedback ''saving'' (Tr ''staging the configuration'')
        (formBusy True ((validateForm (ssPage s))\<lparr>pgSectionMissing := False\<rparr>))" "ssRuns ?s1 = ssRuns s"
    using saveAll_submits [OF start(2) submitted] start(3) by auto
  have u1: "u1 = ssUci s" using p(2,3) by (simp add: ensureSection_def)
  obtain w where w: "unload u = (None, w)" using client(4) by (metis prod.collapse)
  have s2: "onStore api (Some e) u ?s1 = ?s1\<lparr>ssUci := w, ssChain := Reloading j snap m e\<rparr>"
    using client w by (simp add: onStore_def Let_def submitted saveOutcome_def rollbackOwnedValues_def)
  obtain v where v: "restoreOwnedValues api snap u' = (None, v)" "\<forall>n \<in> set OWNED. sameOption (uGet api v n) (uGet api (ssUci s) n)"
      "\<forall>n. n \<notin> set OWNED \<longrightarrow> uGet api v n = uGet api u' n"
    using restore_correct [OF laws reloaded start(1)] p(4) u1 by auto
  have undo: "undoLocal api m snap u' = (None, v)" using v(1) p(2) by (simp add: undoLocal_def split: option.split)
  have s3: "s3 = ?s1\<lparr>ssUci := v, ssChain := Undoing j m r e\<rparr>"
    unfolding s3_def s2 by (simp add: onStore_def undo_def undo)
  have s4: "\<exists>msg page. ssPage s4 = setFeedback ''error'' msg (formBusy False page) \<and>
      page = (ssPage ?s1)\<lparr>pgSectionMissing := m\<rparr> \<and> ssChain s4 = NoChain \<and> ssRuns s4 = ssRuns ?s1"
    unfolding s4_def s3
    by (cases "saveOutcome api r2") (auto simp: onStore_def Let_def rollbackFailed_def rollbackDone_def chainFailed_def
        notifyError_def onPage_def rolledBack_def p(1))
  have st: "pgSaveState (setFeedback st msg q) = st" for st msg q by (simp add: setFeedback_def)
  from s4 v(2,3) show ?thesis
    using p(2,5,6) start(3) by (auto simp: s3 st)
qed

text \<open>A store that is an object, with the section always there.\<close>

definition sampleApi :: "props uci_api" where
  "sampleApi = \<lparr>uGet = \<lambda>u n. case map_of u n of Some v \<Rightarrow> (if v = JStr [] then JUndef else v) | None \<Rightarrow> JUndef,
     uSet = \<lambda>n v u. (None, putProp n v u), uUnset = \<lambda>n u. (None, delProp n u), uAdd = Some (\<lambda>u. (None, u)),
     uRemove = Some (\<lambda>u. (None, [])), uUnload = Some (\<lambda>u. (None, u)), uHasLoad = True, uHasSave = True, uSections = None,
     uMain = JObj\<rparr>"

lemma sampleApi_laws: "storeLaws sampleApi (\<lambda>_. True)"
  by (auto simp: storeLaws_def sampleApi_def written_def map_of_putProp map_of_delProp nullish_def split: option.split)

section \<open>What a save writes\<close>

lemma patch_values:
  "map_of (pset (platformPatch p vs)) n = (if \<not> isNss (pgStatus p) \<and> n \<in> set nssOnly then None
     else if n \<in> set scalarFields then Some (JStr (toStr (scalarValue (nvalues (normalize (JObj vs))) n)))
     else if n \<in> set listFields \<and> jget (JObj (nvalues (normalize (JObj vs)))) n \<noteq> JArr []
     then Some (jget (JObj (nvalues (normalize (JObj vs)))) n) else None)"
  "set (punset (platformPatch p vs)) \<subseteq> {n. n = ''dedicated_port'' \<or> n \<in> set listFields \<and> jget (JObj (nvalues (normalize (JObj vs)))) n = JArr [] \<or>
     isX86 (pgStatus p) \<and> n \<in> set nssOnly}"
proof -
  note b = buildUciPatch_parts [of "JObj vs" "jor (pgRaw p) (JObj [])"]
  note a = applyPatchPolicy_parts [of "pgStatus p" "pgRaw p" "buildUciPatch (JObj vs) (jor (pgRaw p) (JObj []))"]
  show "map_of (pset (platformPatch p vs)) n = (if \<not> isNss (pgStatus p) \<and> n \<in> set nssOnly then None
     else if n \<in> set scalarFields then Some (JStr (toStr (scalarValue (nvalues (normalize (JObj vs))) n)))
     else if n \<in> set listFields \<and> jget (JObj (nvalues (normalize (JObj vs)))) n \<noteq> JArr []
     then Some (jget (JObj (nvalues (normalize (JObj vs)))) n) else None)"
    unfolding platformPatch_def using a b [of n] by simp
  show "set (punset (platformPatch p vs)) \<subseteq> {n. n = ''dedicated_port'' \<or> n \<in> set listFields \<and>
      jget (JObj (nvalues (normalize (JObj vs)))) n = JArr [] \<or> isX86 (pgStatus p) \<and> n \<in> set nssOnly}"
    unfolding platformPatch_def using a b by (auto split: if_splits)
qed

text \<open>Loading the page again gives each option the value that the plan has for it.\<close>

lemma saved_field:
  assumes laws: "storeLaws api ok" and u: "ok u"
    and written: "applyLocalPatch api (platformPatch p vs) u = (None, u')"
    and k: "k \<in> set scalarFields" "k \<noteq> ''collector_mode''" "k \<notin> set nssOnly \<or> isNss (pgStatus p)"
    and ranges: "k = ''hide_ipv6_ranges'' \<Longrightarrow> \<not> isArr (jget (JObj vs) k) \<and> jget (JObj (nvalues (normalize (JObj vs)))) k \<noteq> JStr []"
  shows "jget (JObj (nvalues (ldModel (loadValues api u' a)))) k = jget (JObj (nvalues (normalize (JObj vs)))) k"
proof -
  let ?w = "jget (JObj (nvalues (normalize (JObj vs)))) k"
  have jc: "jor (JObj vs) (JObj []) = JObj vs" by (simp add: jor_def)
  have ok: "fieldOk k ?w" using ranges by (intro normalize_fieldOk) (simp add: jc)
  have dom: "configDomain (nvalues (normalize (JObj vs)))" by (rule normalize_in_domain)
  have x86: "\<not> (isX86 (pgStatus p) \<and> k \<in> set nssOnly)"
    using k(3) by (auto simp: isX86_def isNss_def)
  have list: "k \<notin> set listFields" using k(1) scalar_not_list by blast
  have ded: "k \<noteq> ''dedicated_port''" using scalar_sorts(3) [OF k(1,2)]
    by (auto simp: NUMBER_FIELDS_def nssOnly_def nssTuning_def BOOLEAN_FIELDS_def)
  have sv: "scalarValue (nvalues (normalize (JObj vs))) k = ?w" using k(2) by (simp add: scalarValue_def)
  have "map_of (pset (platformPatch p vs)) k = Some (JStr (toStr ?w))"
    unfolding patch_values(1) sv using k by auto
  moreover have "k \<notin> set (punset (platformPatch p vs))"
    using subsetD [OF patch_values(2), of k p vs] list ded x86 by auto
  moreover have nn: "\<not> nullish v" if "map_of (pset (platformPatch p vs)) n = Some v" for n v
    using that normalize_value(3) [where r = "JObj vs"]
    by (auto simp: patch_values(1) nullish_def listVal_def split: if_splits)
  moreover obtain u2 where u2: "applyLocalPatch api (platformPatch p vs) u = (None, u2)"
      "\<And>n. if n \<in> set (punset (platformPatch p vs)) then nullish (uGet api u2 n)
        else (case map_of (pset (platformPatch p vs)) n of Some v \<Rightarrow> written v (uGet api u2 n) | None \<Rightarrow> uGet api u2 n = uGet api u n)"
    using applyLocalPatch_correct [OF laws u, of "platformPatch p vs"] nn by blast
  ultimately have "written (JStr (toStr ?w)) (uGet api u' k)" using written u2(2) [of k] u2(1) by simp
  moreover have "toStr ?w \<noteq> []"
    using scalar_not_empty_if [OF k(1) dom] ranges sv by simp
  ultimately have g: "uGet api u' k = JStr (toStr ?w)" by (simp add: written_def)
  have names: "k \<in> set FIELD_NAMES" by (rule scalar_in_FIELDS [OF k(1)])
  have "map_of (map (\<lambda>n. (n, uGet api u' n)) ns) k = (if k \<in> set ns then Some (uGet api u' k) else None)" for ns
    by (induction ns) auto
  then have raw: "jget (rawUciValues api u') k = JStr (toStr ?w)"
    using names g by (simp add: rawUciValues_def jget.simps map_of_append)
  have "ldModel (loadValues api u' a) = normalize (rawUciValues api u')"
    by (simp add: loadValues_def Let_def loadStatus_def split: answer.split option.split)
  then show ?thesis using reparse_field [OF k(1,2) disjI1 [OF raw] ok] by (simp add: rawUciValues_def)
qed

section \<open>The plan of a save\<close>

lemma checked_ranges:
  "\<not> isArr (jget (JObj (withDesired plan (normalizeValues status (JObj (readForm p))))) ''hide_ipv6_ranges'')"
proof -
  have n: "''hide_ipv6_ranges'' \<notin> set LIST_FIELDS" "''hide_ipv6_ranges'' \<notin> set protoKeys" "''hide_ipv6_ranges'' \<notin> set nssTuning"
    by (simp_all add: LIST_FIELDS_def protoKeys_def nssTuning_def)
  have "jget (JObj (readForm p)) ''hide_ipv6_ranges'' = JStr (joinStr '' '' (fmRanges (pgForm p)))"
    using n by (simp add: readForm_value readInputs_value)
  then show ?thesis using n by (simp add: withDesired_other normalizeValues_correct)
qed

lemma prepared:
  assumes "prepareSave p = (Inr plan, q)"
  shows "q = validateForm p" "vd_valid (checkForm p)" "cpIface plan = prepareIfaceSave (pgIface p)"
    "cpValues plan = withDesired (prepareIfaceSave (pgIface p)) (vd_values (checkForm p))"
    "cpPatch plan = platformPatch (validateForm p) (cpValues plan)"
  using assms by (auto simp: prepareSave_def Let_def split: if_splits)

text \<open>Normalising the plan again, as the patch does, changes no scalar option.\<close>

lemma plan_fields:
  assumes plan: "prepareSave p = (Inr plan, q)" and k: "k \<in> set scalarFields" "k \<noteq> ''collector_mode''"
  shows "jget (JObj (cpValues plan)) k = jget (JObj (vd_values (checkForm p))) k"
    and "fieldOk k (jget (JObj (cpValues plan)) k)"
    and "jget (JObj (nvalues (normalize (JObj (cpValues plan))))) k = jget (JObj (cpValues plan)) k"
proof -
  let ?raw = "JObj (withDesired (prepareIfaceSave (pgIface p)) (normalizeValues (pgStatus p) (JObj (readForm p))))"
  show eq: "jget (JObj (cpValues plan)) k = jget (JObj (vd_values (checkForm p))) k"
    using prepared(4) [OF plan] scalar_sorts(1) [OF k] by (simp add: withDesired_other)
  have "vd_values (checkForm p) = nvalues (normalize ?raw)" by (simp add: checkForm_def validate_def Let_def)
  moreover have "jor ?raw (JObj []) = ?raw" by (simp add: jor_def)
  ultimately show ok: "fieldOk k (jget (JObj (cpValues plan)) k)"
    unfolding eq using normalize_fieldOk [of k ?raw] checked_ranges by simp
  show "jget (JObj (nvalues (normalize (JObj (cpValues plan))))) k = jget (JObj (cpValues plan)) k"
    by (rule reparse_field [OF k _ ok]) simp_all
qed

lemma cpValues_ranges: "prepareSave p = (Inr plan, q) \<Longrightarrow> \<not> isArr (jget (JObj (cpValues plan)) ''hide_ipv6_ranges'')"
  using plan_fields(2) [of p plan q "''hide_ipv6_ranges''"] by (auto simp: fieldOk_def scalarFields_def)

lemma staged_reloads:
  assumes laws: "storeLaws api ok" and start: "ok (ssUci s)" "ssChain s = NoChain" "\<not> pgSectionMissing (ssPage s)"
    and submitted: "ssChain (saveAllSettings api apply s) = Submitting (SaveJob plan b) snap m"
    and k: "k \<in> set scalarFields" "k \<noteq> ''collector_mode''" "k \<notin> set nssOnly \<or> isNss (pgStatus (ssPage s))"
    and ranges: "k = ''hide_ipv6_ranges'' \<Longrightarrow> jget (JObj (cpValues plan)) k \<noteq> JStr []"
  shows "jget (JObj (nvalues (ldModel (loadValues api (ssUci (saveAllSettings api apply s)) a)))) k = jget (JObj (cpValues plan)) k"
proof -
  obtain u1 where p: "prepareSave (ssPage s) = (Inr plan, validateForm (ssPage s))" "ensureSection api m (ssUci s) = (None, u1)"
      "m = pgSectionMissing (ssPage s)" "applyLocalPatch api (cpPatch plan) u1 = (None, ssUci (saveAllSettings api apply s))"
    using saveAll_submits [OF start(2) submitted] by auto
  have u1: "u1 = ssUci s" using p(2,3) start(3) by (simp add: ensureSection_def)
  note f = plan_fields [OF p(1) k(1,2)]
  have "jget (JObj (nvalues (ldModel (loadValues api (ssUci (saveAllSettings api apply s)) a)))) k =
      jget (JObj (nvalues (normalize (JObj (cpValues plan))))) k"
  proof (rule saved_field [OF laws start(1) _ k(1,2)])
    show "applyLocalPatch api (platformPatch (validateForm (ssPage s)) (cpValues plan)) (ssUci s) =
        (None, ssUci (saveAllSettings api apply s))"
      using p(4) prepared(5) [OF p(1)] by (simp add: u1)
    show "k \<notin> set nssOnly \<or> isNss (pgStatus (validateForm (ssPage s)))" using k(3) by simp
    show "k = ''hide_ipv6_ranges'' \<Longrightarrow> \<not> isArr (jget (JObj (cpValues plan)) k) \<and>
        jget (JObj (nvalues (normalize (JObj (cpValues plan))))) k \<noteq> JStr []"
      using cpValues_ranges [OF p(1)] ranges f(3) by simp
  qed
  then show ?thesis by (simp only: f(3))
qed

text \<open>A page that validates is submitted.\<close>

lemma save_starts:
  assumes "storeLaws api ok" "ok (ssUci s)" "\<not> configSaving (pgIface (ssPage s))" "\<not> pgSectionMissing (ssPage s)"
    and "vd_valid (checkForm (ssPage s))"
  shows "\<exists>plan snap. ssChain (saveAllSettings api apply s) = Submitting (SaveJob plan apply) snap False \<and>
    prepareSave (ssPage s) = (Inr plan, validateForm (ssPage s))"
proof -
  obtain plan where plan: "prepareSave (ssPage s) = (Inr plan, validateForm (ssPage s))"
    using assms(5) by (simp add: prepareSave_def Let_def)
  have nn: "\<not> nullish v" if "map_of (pset (cpPatch plan)) n = Some v" for n v
    using that normalize_value(3) [where r = "JObj (cpValues plan)"] unfolding prepared(5) [OF plan]
    by (auto simp: patch_values(1) nullish_def listVal_def split: if_splits)
  obtain u' where "applyLocalPatch api (cpPatch plan) (ssUci s) = (None, u')"
    using applyLocalPatch_correct [OF assms(1,2), of "cpPatch plan"] nn by blast
  then show ?thesis
    using assms(3,4) plan by (simp add: saveAllSettings_def Let_def ensureSection_def)
qed

section \<open>What comes after a write ends\<close>

fun runMeasure :: "apply_run \<Rightarrow> nat" where
  "runMeasure (InitPending _) = 19"
| "runMeasure ApplyPending = 18"
| "runMeasure (VerifyPending attempt _ x y) = 3 * (5 - attempt) + (if x = None then 1 else 0) + (if y = None then 1 else 0)"
| "runMeasure (RetryWait attempt) = 3 * (6 - attempt)"
| "runMeasure RunDone = 0"

fun awaits :: "apply_run \<Rightarrow> nat \<Rightarrow> 'u config_event \<Rightarrow> bool" where
  "awaits (InitPending _) i (ChangesInit j _ _) = (j = i)"
| "awaits ApplyPending i (Applied j _) = (j = i)"
| "awaits (VerifyPending _ _ x _) i (StatusReply j _) = (j = i \<and> x = None)"
| "awaits (VerifyPending _ _ _ y) i (Interfaces j _) = (j = i \<and> y = None)"
| "awaits (RetryWait _) i (Retry j) = (j = i)"
| "awaits _ _ _ = False"

fun runOk :: "apply_run \<Rightarrow> bool" where
  "runOk (VerifyPending attempt _ x y) = (attempt \<le> 5 \<and> \<not> (x \<noteq> None \<and> y \<noteq> None))"
| "runOk (RetryWait attempt) = (attempt \<le> 5)"
| "runOk _ = True"

lemma setRun_runs [simp]: "ssRuns (setRun i r s) = (ssRuns s)[i := r]" "ssRuns (onPage f s) = ssRuns s"
    "ssRuns (notifyError e s) = ssRuns s"
  by (simp_all add: setRun_def onPage_def notifyError_def)

lemma chainFailed_runs [simp]: "ssRuns (chainFailed e s) = ssRuns s"
  by (simp add: chainFailed_def notifyError_def onPage_def)

lemma rollback_runs [simp]:
  "ssRuns (rollbackDone j m r e s) = ssRuns s" "ssRuns (rollbackFailed j m e e2 s) = ssRuns s"
  "ssRuns (undo api j snap m r e s) = ssRuns s" "ssRuns (rollbackOwnedValues api j snap m e s) = ssRuns s"
  by (simp_all add: rollbackDone_def rollbackFailed_def undo_def rollbackOwnedValues_def split: prod.split option.split)

lemma chainDone_runs [simp]: "ssRuns (chainDone a s) = ssRuns s @ [InitPending a]"
  by (simp add: chainDone_def onPage_def)

text \<open>Every other event adds runs at the end at most.\<close>

definition grows :: "apply_run list \<Rightarrow> apply_run list \<Rightarrow> bool" where
  "grows rs rs' \<longleftrightarrow> (\<exists>as. rs' = rs @ map InitPending as)"

lemma grows_refl [simp]: "grows rs rs" by (auto simp: grows_def intro: exI [of _ "[]"])

lemma grows_one [simp]: "grows rs (rs @ [InitPending a])" by (auto simp: grows_def intro: exI [of _ "[a]"])

lemma grows_trans: "grows a b \<Longrightarrow> grows b c \<Longrightarrow> grows a c"
  by (auto simp: grows_def) (metis map_append)

lemma runWaits_grow: "grows (ssRuns s) (ssRuns (foldl (\<lambda>acc w. runWait w acc) s ws))"
proof (induction ws arbitrary: s)
  case (Cons w ws)
  have "grows (ssRuns s) (ssRuns (runWait w s))" by (simp add: runWait_def split: wait.split)
  from grows_trans [OF this Cons.IH] show ?case by simp
qed simp

lemma other_events_grow:
  assumes "\<not> (\<exists>i r can. e = ChangesInit i r can)" "\<not> (\<exists>i r. e = Applied i r)" "\<not> (\<exists>i a. e = StatusReply i a)"
    "\<not> (\<exists>i ok. e = Interfaces i ok)" "\<not> (\<exists>i. e = Retry i)"
  shows "grows (ssRuns s) (ssRuns (configStep api c e s))"
proof (cases e)
  case (Scan t a)
  have "ssRuns ((onPage (onIface c (Answer t a)) s)\<lparr>ssWaits := []\<rparr>) = ssRuns s" by simp
  then have g: "grows (ssRuns s) (ssRuns (foldl (\<lambda>acc w. runWait w acc) ((onPage (onIface c (Answer t a)) s)\<lparr>ssWaits := []\<rparr>) (ssWaits s)))"
    using runWaits_grow by metis
  have w: "ssWaits (onPage f s) = ssWaits s" for f by (simp add: onPage_def)
  show ?thesis
    using g grows_trans [OF g grows_one] by (simp add: Scan onScan_def Let_def w)
next
  case (Save a)
  show ?thesis by (auto simp: Save saveAllSettings_def Let_def split: sum.split prod.split option.split)
next
  case ResetAll
  show ?thesis by (auto simp: ResetAll resetAllSettings_def Let_def split: prod.split option.split)
next
  case (Store r u)
  show ?thesis
    by (auto simp: Store onStore_def Let_def resetWritten_def split: chain.split option.split job.split)
qed (use assms in \<open>auto simp: whenEnabled_def\<close>)


lemma runAt_grows: "grows rs rs' \<Longrightarrow> i < length rs \<Longrightarrow> i < length rs' \<and> rs' ! i = rs ! i"
  by (auto simp: grows_def nth_append)

lemma grows_ok: "grows rs rs' \<Longrightarrow> list_all runOk rs \<Longrightarrow> list_all runOk rs'"
  by (auto simp: grows_def list_all_iff)

text \<open>The five events of a run replace the run with their number, by one that needs fewer events.\<close>

definition runsTo :: "nat \<Rightarrow> nat \<Rightarrow> 'u session \<Rightarrow> 'u session \<Rightarrow> bool" where
  "runsTo i m s s' \<longleftrightarrow> (\<exists>r. runOk r \<and> runMeasure r \<le> m \<and> ssRuns s' = (ssRuns s)[i := r])"

lemma runsToI: "ssRuns s' = (ssRuns s)[i := r] \<Longrightarrow> runOk r \<Longrightarrow> runMeasure r \<le> m \<Longrightarrow> runsTo i m s s'"
  by (auto simp: runsTo_def)

lemma runsTo_mono: "runsTo i m s s' \<Longrightarrow> m \<le> n \<Longrightarrow> runsTo i n s s'"
  by (fastforce simp: runsTo_def)

lemma runsTo_page: "runsTo i m (onPage f s) s' = runsTo i m s s'"
  by (simp add: runsTo_def)

lemma afterVerify_runs: "attempt \<le> 5 \<Longrightarrow> runsTo i (3 * (5 - attempt)) s (afterVerify i attempt ok s)"
  by (cases "ok \<or> \<not> attempt < 5")
    (auto simp: afterVerify_def retryDelays_def eval_nat_numeral intro: runsToI [where r = RunDone] runsToI [where r = "RetryWait (attempt + 1)"])

lemma verifyAll_runs:
  assumes "attempt \<le> 5" shows "runsTo i (3 * (5 - attempt) + 2) s (verifyAll i attempt s)"
proof (cases "pgLastPlan (ssPage s)")
  case None
  show ?thesis
    using runsTo_mono [OF afterVerify_runs [OF assms, of i s False], of "3 * (5 - attempt) + 2"] by (simp add: verifyAll_def None)
next
  case (Some plan)
  show ?thesis
    by (rule runsToI [where r = "VerifyPending attempt plan None None"]) (simp_all add: verifyAll_def Some assms)
qed

lemma verifyProgress_runs:
  assumes "attempt \<le> 5"
  shows "runsTo i (3 * (5 - attempt) + (if x = None then 1 else 0) + (if y = None then 1 else 0)) s
    (verifyProgress i (VerifyPending attempt plan x y) s)"
proof (cases "x \<noteq> None \<and> y \<noteq> None")
  case True
  then obtain ok1 st ok2 where xy: "x = Some (ok1, st)" "y = Some ok2" by auto
  show ?thesis
    using afterVerify_runs [OF assms, of i "onPage (showVerified (ok1 \<and> ok2) st) s" "ok1 \<and> ok2"]
    by (simp add: verifyProgress_def xy runsTo_page)
next
  case False
  then have "verifyProgress i (VerifyPending attempt plan x y) s = setRun i (VerifyPending attempt plan x y) s"
    by (auto simp: verifyProgress_def split: option.split)
  then show ?thesis
    by (intro runsToI [where r = "VerifyPending attempt plan x y"]) (use False assms in auto)
qed

lemma runAt_ok: "list_all runOk (ssRuns s) \<Longrightarrow> runOk (runAt i s)"
  by (simp add: runAt_def list_all_length)

lemma run_event:
  assumes "list_all runOk (ssRuns s)" "awaits (runAt i s) i e"
  shows "runsTo i (runMeasure (runAt i s) - 1) s (configStep api c e s)" "0 < runMeasure (runAt i s)"
proof -
  have ok: "runOk (runAt i s)" by (rule runAt_ok [OF assms(1)])
  consider (init) b r can where "runAt i s = InitPending b" "e = ChangesInit i r can"
    | (applying) r where "runAt i s = ApplyPending" "e = Applied i r"
    | (status) n plan y a where "runAt i s = VerifyPending n plan None y" "e = StatusReply i a"
    | (ifaces) n plan x b where "runAt i s = VerifyPending n plan x None" "e = Interfaces i b"
    | (retry) n where "runAt i s = RetryWait n" "e = Retry i"
    using assms(2) by (cases "(runAt i s, i, e)" rule: awaits.cases) auto
  then have "runsTo i (runMeasure (runAt i s) - 1) s (configStep api c e s) \<and> 0 < runMeasure (runAt i s)"
  proof cases
    case init
    show ?thesis
      by (cases r) (auto simp: init onChangesInit_def intro!: runsToI [where r = "if r = None \<and> b \<and> can then ApplyPending else RunDone"])
  next
    case applying
    show ?thesis
    proof (cases r)
      case None
      show ?thesis using runsTo_mono [OF verifyAll_runs [of 0 i "onPage markApplied s"], of 17]
        by (simp add: applying onApplied_def None runsTo_page)
    next
      case (Some err)
      show ?thesis by (auto simp: applying onApplied_def Some intro!: runsToI [where r = RunDone])
    qed
  next
    case status
    have n: "n \<le> 5" using ok by (simp add: status(1))
    let ?x = "Some (case a of Data st \<Rightarrow> (statusMatches st (JObj (cpValues plan)), st) | Failed _ \<Rightarrow> (False, JUndef))"
    show ?thesis using verifyProgress_runs [OF n, of i ?x y s plan] by (simp add: onStatus_def status)
  next
    case ifaces
    have n: "n \<le> 5" using ok by (simp add: ifaces(1))
    have "onInterfaces i b s = verifyProgress i (VerifyPending n plan x (Some b)) s" by (simp add: onInterfaces_def ifaces(1))
    then show ?thesis using verifyProgress_runs [OF n, of i x "Some b" s plan] by (simp add: ifaces)
  next
    case retry
    have n: "n \<le> 5" using ok by (simp add: retry(1))
    show ?thesis using runsTo_mono [OF verifyAll_runs [OF n, of i s], of "3 * (6 - n) - 1"] n by (simp add: onRetry_def retry)
  qed
  then show "runsTo i (runMeasure (runAt i s) - 1) s (configStep api c e s)" "0 < runMeasure (runAt i s)" by auto
qed

lemma awaits_runAt: "awaits (runAt i s) i e \<Longrightarrow> i < length (ssRuns s) \<and> runAt i s = ssRuns s ! i"
  by (auto simp: runAt_def split: if_splits)

lemma no_event_grows:
  assumes "\<not> (\<exists>j. awaits (runAt j s) j e)"
  shows "grows (ssRuns s) (ssRuns (configStep api c e s))"
proof (cases e)
  case (ChangesInit j r can)
  then show ?thesis using spec [OF assms [unfolded not_ex], of j] by (cases "runAt j s") (auto simp: onChangesInit_def)
next
  case (Applied j r)
  then show ?thesis using spec [OF assms [unfolded not_ex], of j] by (cases "runAt j s") (auto simp: onApplied_def)
next
  case (StatusReply j a)
  then show ?thesis using spec [OF assms [unfolded not_ex], of j]
    by (cases "runAt j s") (auto simp: onStatus_def split: option.split)
next
  case (Interfaces j b)
  then show ?thesis using spec [OF assms [unfolded not_ex], of j]
    by (cases "runAt j s") (auto simp: onInterfaces_def split: option.split)
next
  case (Retry j)
  then show ?thesis using spec [OF assms [unfolded not_ex], of j] by (cases "runAt j s") (auto simp: onRetry_def)
qed ((rule other_events_grow; simp)+)

lemma run_unchanged:
  assumes "list_all runOk (ssRuns s)" "\<not> awaits (runAt i s) i e" "i < length (ssRuns s)"
  shows "i < length (ssRuns (configStep api c e s)) \<and> ssRuns (configStep api c e s) ! i = ssRuns s ! i"
proof (cases "\<exists>j. awaits (runAt j s) j e")
  case True
  then obtain j where j: "awaits (runAt j s) j e" by blast
  then have "j \<noteq> i" using assms(2) by blast
  then show ?thesis using run_event(1) [OF assms(1) j, of api c] assms(3) by (auto simp: runsTo_def)
next
  case False
  from no_event_grows [OF False] show ?thesis using assms(3) by (rule runAt_grows)
qed

fun awaitedEvents :: "'u uci_api \<Rightarrow> (string \<Rightarrow> string \<Rightarrow> int) \<Rightarrow> nat \<Rightarrow> 'u session \<Rightarrow> 'u config_event list \<Rightarrow> nat" where
  "awaitedEvents api collate i s [] = 0"
| "awaitedEvents api collate i s (e # es) = (if awaits (runAt i s) i e then 1 else 0) +
     awaitedEvents api collate i (configStep api collate e s) es"

lemma step_runs:
  assumes "list_all runOk (ssRuns s)"
  shows "list_all runOk (ssRuns (configStep api c e s))"
    and "i < length (ssRuns s) \<Longrightarrow> i < length (ssRuns (configStep api c e s)) \<and>
      (if awaits (runAt i s) i e then 1 else 0) + runMeasure (runAt i (configStep api c e s)) \<le> runMeasure (runAt i s)"
proof -
  show "list_all runOk (ssRuns (configStep api c e s))"
  proof (cases "\<exists>j. awaits (runAt j s) j e")
    case True
    then obtain j r where "runOk r" "ssRuns (configStep api c e s) = (ssRuns s)[j := r]"
      using run_event(1) [OF assms, of _ e api c] unfolding runsTo_def by blast
    then show ?thesis using assms set_update_subset_insert [of "ssRuns s" j r] by (auto simp: list_all_iff)
  next
    case False
    then show ?thesis by (rule grows_ok [OF no_event_grows assms])
  qed
  assume i: "i < length (ssRuns s)"
  show "i < length (ssRuns (configStep api c e s)) \<and>
      (if awaits (runAt i s) i e then 1 else 0) + runMeasure (runAt i (configStep api c e s)) \<le> runMeasure (runAt i s)"
  proof (cases "awaits (runAt i s) i e")
    case True
    then show ?thesis using run_event(1) [OF assms True, of api c] run_event(2) [OF assms True] i by (auto simp: runsTo_def runAt_def)
  next
    case False
    then show ?thesis using run_unchanged [OF assms False i, of api c] i by (simp add: runAt_def)
  qed
qed

lemma run_bound:
  fixes api :: "'u uci_api" and s :: "'u session"
  assumes "list_all runOk (ssRuns s)" "i < length (ssRuns s)"
  shows "awaitedEvents api c i s es + runMeasure (runAt i (foldl (\<lambda>s e. configStep api c e s) s es)) \<le> runMeasure (runAt i s)"
  using assms
proof (induction es arbitrary: s)
  case (Cons e es)
  note step = step_runs [OF Cons.prems(1), where api = api and c = c and e = e]
  from Cons.IH [OF step(1)] step(2) [OF Cons.prems(2)] show ?case by force
qed simp

lemma runs_ok: "config_run api c s \<Longrightarrow> list_all runOk (ssRuns s)"
  by (induction rule: config_run.induct) (simp_all add: configInit_def Let_def step_runs(1))

lemma runMeasure_le: "runOk r \<Longrightarrow> runMeasure r \<le> 19"
  by (cases r) auto

lemma runMeasure_zero: "runOk r \<Longrightarrow> runMeasure r = 0 \<Longrightarrow> r = RunDone"
  by (cases r) (auto split: if_splits)

lemma config_run_steps: "config_run api c s \<Longrightarrow> config_run api c (foldl (\<lambda>s e. configStep api c e s) s es)"
  by (induction es arbitrary: s) (simp_all add: config_run.step)

lemma runs_kept:
  "list_all runOk (ssRuns s) \<Longrightarrow> i < length (ssRuns s) \<Longrightarrow> i < length (ssRuns (foldl (\<lambda>s e. configStep api c e s) s es))"
  by (induction es arbitrary: s) (simp_all add: step_runs)

lemma unfinished_awaits: "runOk r \<Longrightarrow> r \<noteq> RunDone \<Longrightarrow> \<exists>e. awaits r i e"
proof (cases r)
  case (VerifyPending n plan x y)
  assume "runOk r" "r \<noteq> RunDone"
  then show ?thesis
    using VerifyPending exI [of "awaits r i" "StatusReply i undefined"] exI [of "awaits r i" "Interfaces i undefined"]
    by (cases "x = None") auto
next
  case (InitPending b)
  then show ?thesis using exI [of "awaits r i" "ChangesInit i None False"] by simp
next
  case ApplyPending
  then show ?thesis using exI [of "awaits r i" "Applied i None"] by simp
next
  case (RetryWait n)
  then show ?thesis using exI [of "awaits r i" "Retry i"] by simp
qed simp


section \<open>A page and a store to try them on\<close>

definition sampleForm :: config_form where
  "sampleForm = \<lparr>fmValue = [(''refresh_interval_ms'', ''1000''), (''active_client_window_ms'', ''10000''),
     (''active_client_min_bps'', ''1''), (''overview_window_samples'', ''240''), (''max_clients'', ''128''),
     (''rate_collector_mode'', ''auto''), (''conn_collector_mode'', ''auto'')],
   fmChecked = map (\<lambda>n. (n, True)) BOOLEAN_FIELDS, fmRateChoices = modeChoices ''rate'' (JObj []) (JObj []),
   fmConnChoices = modeChoices ''connection'' (JObj []) (JObj []), fmRanges = [''fc00::/7''],
   fmRangeInput = [], fmRangeInvalid = False, fmErrors = [], fmDisabled = []\<rparr>"

definition samplePage :: "jval \<Rightarrow> page" where
  "samplePage status = \<lparr>pgIface = ifaceInit (JObj []), pgForm = sampleForm, pgNss = False, pgStatus = status, pgStatusOk = False,
     pgLoadState = ''ready'', pgRaw = JObj [], pgInitial = [], pgCurrent = [], pgValidation = None, pgPlan = None,
     pgSectionMissing = False, pgInitialIface = JObj [], pgLastPlan = None, pgStaged = False, pgDirty = False, pgSaveState = [],
     pgSaveText = noText, pgRuntime = (noText, []), pgShown = ([], False), pgActions = (False, False)\<rparr>"

definition nssStatus :: jval where
  "nssStatus = JObj [(''evidence'', JObj [(''platform'', JObj [(''profile'', JStr ''nss_aarch64'')])])]"

definition sampleSession :: "props session" where
  "sampleSession = \<lparr>ssPage = samplePage (JObj []), ssUci = [(''max_clients'', JStr ''64'')], ssChain = NoChain, ssWaits = [], ssRuns = [], ssNotices = []\<rparr>"

lemma sampleForm_shape: "formShape False sampleForm"
proof -
  have "map fst (fmValue sampleForm) = inputNames False" by code_simp
  then show ?thesis by (simp add: formShape_def sampleForm_def comp_def)
qed

lemma samplePage_status: "pgStatus (samplePage st) = st"
  by (simp add: samplePage_def)

lemma jor_sample: "jor (JObj []) d = JObj []" "jor nssStatus d = nssStatus"
  by (simp_all add: jor_def nssStatus_def)

lemma sample_checks: "vd_valid (checkForm (samplePage (JObj [])))" "vd_valid (checkForm (samplePage nssStatus))"
proof -
  have "withDesired (prepareIfaceSave (pgIface (samplePage (JObj [])))) (normalizeValues (JObj []) (JObj (readForm (samplePage (JObj []))))) =
      readForm (samplePage (JObj []))"
    and "planErrorCodes (prepareIfaceSave (pgIface (samplePage (JObj [])))) = []"
    and "vd_valid (validate (JObj (readForm (samplePage (JObj [])))) (JObj []) [])" by code_simp+
  then show "vd_valid (checkForm (samplePage (JObj [])))"
    by (simp add: checkForm_def Let_def samplePage_status jor_sample)
  have "withDesired (prepareIfaceSave (pgIface (samplePage nssStatus))) (normalizeValues nssStatus (JObj (readForm (samplePage nssStatus)))) =
      readForm (samplePage nssStatus)"
    and "planErrorCodes (prepareIfaceSave (pgIface (samplePage nssStatus))) = []"
    and "vd_valid (validate (JObj (readForm (samplePage nssStatus))) nssStatus [])" by code_simp+
  then show "vd_valid (checkForm (samplePage nssStatus))"
    by (simp add: checkForm_def Let_def samplePage_status jor_sample)
qed

lemma sample_starts: "\<exists>plan snap. ssChain (saveAllSettings sampleApi b sampleSession) = Submitting (SaveJob plan b) snap False"
  using save_starts [OF sampleApi_laws, of sampleSession b] sample_checks(1)
  by (auto simp: sampleSession_def) (auto simp: samplePage_def ifaceInit_def)

text \<open>A reset of what is not staged starts a run, at once or after the scan in flight.\<close>

lemma wait_runs: "ssRuns s \<noteq> [] \<or> ResetLoad \<in> set ws \<Longrightarrow> ssRuns (foldl (\<lambda>acc w. runWait w acc) s ws) \<noteq> []"
proof (induction ws arbitrary: s)
  case (Cons w ws)
  have "ssRuns (runWait w s) \<noteq> [] \<or> ResetLoad \<in> set ws" using Cons.prems by (cases w) (auto simp: runWait_def)
  from Cons.IH [OF this] show ?case by simp
qed simp

lemma reset_starts_run:
  fixes api :: "'u uci_api"
  assumes "config_run api c s" "ssChain s = NoChain" "\<not> pgStaged (ssPage s)"
  shows "\<exists>s'. config_run api c s' \<and> ssRuns s' \<noteq> []"
proof (cases "ssRuns (configStep api c ResetAll s) = []")
  case False
  then show ?thesis using config_run.step [OF assms(1)] by blast
next
  case True
  let ?s1 = "configStep api c ResetAll s"
  have run: "config_run api c ?s1" by (rule config_run.step [OF assms(1)])
  have idle: "\<not> configSaving (pgIface (ssPage s))" using config_run_inv [OF assms(1)] assms(2) by (simp add: sessInv_def)
  have w: "ResetLoad \<in> set (ssWaits ?s1)"
    using True idle assms(3) by (auto simp: resetAllSettings_def Let_def split: if_splits)
  have "ifcfgLoading (pgIface (ssPage ?s1))" using config_run_inv [OF run] w by (auto simp: sessInv_def)
  then obtain k where k: "map_of (scans (pgIface (ssPage ?s1))) (requestToken (pgIface (ssPage ?s1))) = Some k"
    using config_run_inv [OF run] by (auto simp: sessInv_def pageInv_def scanInv_def split: if_splits)
  let ?s2 = "configStep api c (Scan (requestToken (pgIface (ssPage ?s1))) (Data JNull)) ?s1"
  have waits: "ssWaits (onPage f u) = ssWaits u" for f and u :: "'u session" by (simp add: onPage_def)
  have ran: "ssRuns (foldl (\<lambda>acc w. runWait w acc) u (ssWaits ?s1)) \<noteq> []" for u :: "'u session"
    by (rule wait_runs) (use w in simp)
  have "ssRuns ?s2 \<noteq> []"
    using k ran unfolding configStep.simps onScan_def Let_def waits by simp
  then show ?thesis using config_run.step [OF run] by blast
qed

section \<open>Properties\<close>

lemma busy_ignores:
  assumes "sessInv s" "ssChain s \<noteq> NoChain" "formEvent e"
  shows "configStep api c e s = s"
proof -
  have busy: "set (formControls (pgForm (ssPage s))) \<subseteq> set (fmDisabled (pgForm (ssPage s)))"
    and shape: "map fst (fmChecked (pgForm (ssPage s))) = BOOLEAN_FIELDS"
    using assms(1,2) by (auto simp: sessInv_def pageInv_def busyInv_def formShape_def)
  have off: "n \<in> set (formControls (pgForm (ssPage s))) \<Longrightarrow> whenEnabled n f s = s" for n f
    using busy by (auto simp: whenEnabled_def enabled_def)
  have input: "hasInput (pgForm (ssPage s)) n \<Longrightarrow> n \<in> set (formControls (pgForm (ssPage s)))" for n
    by (simp add: hasInput_iff formControls_def)
  have box: "n \<in> set BOOLEAN_FIELDS \<Longrightarrow> n \<in> set (formControls (pgForm (ssPage s)))" for n
    by (simp only: formControls_def shape) simp
  have rest: "n \<in> {''range-input'', ''range-add'', ''reset-defaults'', ''range-remove''} \<Longrightarrow> n \<in> set (formControls (pgForm (ssPage s)))" for n
    by (auto simp: formControls_def)
  show ?thesis using assms(3) by (cases e) (auto simp: off input box rest)
qed

text \<open>
  C1: Any run of the configuration page, whatever the user does and however the promises of the
  configuration store, of the status RPC and of the scans settle: the page is busy exactly while
  a write is in flight, and then every control of the form, both native buttons and all controls
  of the interface section are disabled and no event of the form changes anything; a flow that
  waits for a scan waits for the one in flight; and the hidden ranges are distinct, valid and at most 32.
\<close>
theorem config_page_invariant:
  assumes "config_run api c s"
  shows "(if ssChain s = NoChain then \<not> configSaving (pgIface (ssPage s))
      else configSaving (pgIface (ssPage s)) \<and> set (formControls (pgForm (ssPage s))) \<subseteq> set (fmDisabled (pgForm (ssPage s))) \<and>
        pgActions (ssPage s) = (True, True) \<and> reloadDisabled (pgIface (ssPage s)) \<and>
        list_all btnDisabled (ifcfgButtons (pgIface (ssPage s))) \<and>
        (if formEvent e then configStep api c e s = s else True)) \<and>
    (if ssWaits s \<noteq> [] \<or> ssChain s = Rescanning
      then map fst (scans (pgIface (ssPage s))) = [requestToken (pgIface (ssPage s))] else True) \<and>
    distinct (fmRanges (pgForm (ssPage s))) \<and> length (fmRanges (pgForm (ssPage s))) \<le> MAX_RANGE_ITEMS \<and>
    list_all cidrOk (fmRanges (pgForm (ssPage s)))"
proof -
  have inv: "sessInv s" by (rule config_run_inv [OF assms])
  then show ?thesis
    using busy_ignores [OF inv, of e api c]
    by (auto simp: sessInv_def pageInv_def busyInv_def scanInv_def clickInv_def rangesInv_def split: if_splits)
qed

theorem config_page_invariant_witness:
  defines "s \<equiv> configStep sampleApi (\<lambda>_ _. 0) (Save False) (configInit sampleApi [] (Failed noText))"
  shows "distinct (fmRanges (pgForm (ssPage s))) \<and> length (fmRanges (pgForm (ssPage s))) \<le> MAX_RANGE_ITEMS \<and>
    (if ssChain s = NoChain then \<not> configSaving (pgIface (ssPage s))
     else configStep sampleApi (\<lambda>_ _. 0) Defaults s = s)"
proof -
  have "config_run sampleApi (\<lambda>_ _. 0) s" unfolding s_def by (intro config_run.step config_run.start)
  from config_page_invariant [OF this, of Defaults] show ?thesis by (simp split: if_splits)
qed

text \<open>
  C2: A save that the store refuses changes nothing: after the rollback every option the page owns
  reads as before the save, the others as the reloaded store has them, the page is usable
  again and says so, and what it holds as loaded, staged and edited is what it held before.
\<close>
theorem failed_save_rolls_back:
  assumes "storeLaws api ok" "ok (ssUci s)" "ssChain s = NoChain" "\<not> pgSectionMissing (ssPage s)"
    and "uUnload api = Some unload" "uHasLoad api" "uHasSave api" "fst (unload u) = None"
    and "ssChain (saveAllSettings api apply s) = Submitting j snap m"
    and "ok u'"
    and "s3 = onStore api r u' (onStore api (Some e) u (saveAllSettings api apply s))"
    and "s4 = onStore api r2 u'' s3"
  shows "(\<forall>n \<in> set OWNED. sameOption (uGet api (ssUci s3) n) (uGet api (ssUci s) n)) \<and>
    (\<forall>n. n \<notin> set OWNED \<longrightarrow> uGet api (ssUci s3) n = uGet api u' n) \<and>
    ssChain s4 = NoChain \<and> \<not> configSaving (pgIface (ssPage s4)) \<and> pgSaveState (ssPage s4) = ''error'' \<and>
    pgRaw (ssPage s4) = pgRaw (ssPage s) \<and> pgInitial (ssPage s4) = pgInitial (ssPage s) \<and>
    pgStaged (ssPage s4) = pgStaged (ssPage s) \<and> pgLastPlan (ssPage s4) = pgLastPlan (ssPage s) \<and>
    pgSectionMissing (ssPage s4) = pgSectionMissing (ssPage s) \<and> pgDirty (ssPage s4) = pgDirty (ssPage s) \<and>
    ifaceOriginal (pgIface (ssPage s4)) = ifaceOriginal (pgIface (ssPage s)) \<and>
    ifcfgDirty (pgIface (ssPage s4)) = ifcfgDirty (pgIface (ssPage s)) \<and> ssRuns s4 = ssRuns s"
  by (rule rollback_steps [OF assms])

theorem failed_save_rolls_back_witness:
  defines "s4 \<equiv> onStore sampleApi None [] (onStore sampleApi None [(''enable_bpf'', JStr ''0'')]
    (onStore sampleApi (Some (Tr ''refused'')) [] (saveAllSettings sampleApi True sampleSession)))"
  shows "ssChain s4 = NoChain \<and> pgSaveState (ssPage s4) = ''error'' \<and> \<not> configSaving (pgIface (ssPage s4)) \<and>
    pgRaw (ssPage s4) = JObj []"
proof -
  obtain plan snap where s: "ssChain (saveAllSettings sampleApi True sampleSession) = Submitting (SaveJob plan True) snap False"
    using sample_starts by blast
  have init: "ssChain sampleSession = NoChain" "\<not> pgSectionMissing (ssPage sampleSession)" "pgRaw (ssPage sampleSession) = JObj []"
    by (simp_all add: sampleSession_def samplePage_def)
  have api: "uUnload sampleApi = Some (Pair None)" "uHasLoad sampleApi" "uHasSave sampleApi" "fst (Pair None ([] :: props)) = None"
    by (simp_all add: sampleApi_def)
  note r = failed_save_rolls_back [OF sampleApi_laws TrueI init(1,2) api s TrueI refl s4_def [THEN meta_eq_to_obj_eq]]
  show ?thesis using r unfolding init(3) by (elim conjE) (intro conjI)
qed







text \<open>
  C39: A page built while the platform was unknown has no controls for the two access edge options;
  when a later verification finds the NSS platform, the next save sets both options to \<open>off\<close>,
  whatever the configuration has.
\<close>
theorem hidden_modes_overwritten:
  assumes "formShape False (pgForm p)" "isNss (pgStatus p)" "prepareSave p = (Inr plan, q)"
    and "n = ''access_edge_mode'' \<or> n = ''internet_view_mode''"
  shows "map_of (pset (cpPatch plan)) n = Some (JStr ''off'')"
proof -
  let ?raw = "JObj (withDesired (prepareIfaceSave (pgIface p)) (normalizeValues (pgStatus p) (JObj (readForm p))))"
  have k: "n \<in> set scalarFields" "n \<noteq> ''collector_mode''" "n \<in> set nssOnly" "n \<notin> set LIST_FIELDS" "n \<notin> set nssTuning"
    using assms(4) by (auto simp: scalarFields_def nssOnly_def LIST_FIELDS_def nssTuning_def)
  have "\<not> hasInput (pgForm p) n"
    using assms(1,4) by (auto simp: hasInput_iff formShape_def inputNames_def NUMBER_FIELDS_def)
  then have "jget (JObj (readForm p)) n = JStr ''off''"
    using assms(4) k(4) by (auto simp: readForm_value readInputs_value protoKeys_def BOOLEAN_FIELDS_def)
  then have raw: "jget ?raw n = JStr ''off''"
    using k assms(2,4) by (auto simp: withDesired_other normalizeValues_correct protoKeys_def isNss_def isX86_def x86_PROFILE_def nss_PROFILE_def)
  have ok: "fieldOk n (JStr ''off'')" using assms(4) by (auto simp: fieldOk_def ACCESS_EDGE_MODES_def INTERNET_VIEW_MODES_def numberFields_def boolFields_def)
  have "jget (JObj (nvalues (normalize ?raw))) n = JStr ''off''"
    by (rule reparse_field [OF k(1,2) _ ok]) (simp_all add: raw)
  then have "jget (JObj (cpValues plan)) n = JStr ''off''"
    using plan_fields(1) [OF assms(3) k(1,2)] by (simp add: checkForm_def validate_def Let_def)
  then have "jget (JObj (nvalues (normalize (JObj (cpValues plan))))) n = JStr ''off''"
    using plan_fields(3) [OF assms(3) k(1,2)] by simp
  then show ?thesis
    unfolding prepared(5) [OF assms(3)] patch_values(1)
    using k assms(2) prepared(1) [OF assms(3)] by (simp add: scalarValue_def)
qed

theorem hidden_modes_overwritten_witness:
  "\<exists>plan. prepareSave (samplePage nssStatus) = (Inr plan, validateForm (samplePage nssStatus)) \<and>
    map_of (pset (cpPatch plan)) ''access_edge_mode'' = Some (JStr ''off'')"
proof -
  obtain plan where plan: "prepareSave (samplePage nssStatus) = (Inr plan, validateForm (samplePage nssStatus))"
    using sample_checks(2) by (simp add: prepareSave_def Let_def)
  have "formShape False (pgForm (samplePage nssStatus))" using sampleForm_shape by (simp add: samplePage_def)
  moreover have "isNss (pgStatus (samplePage nssStatus))" unfolding samplePage_status by code_simp
  ultimately show ?thesis using hidden_modes_overwritten [OF _ _ plan, of "''access_edge_mode''"] plan by blast
qed

end
