(* ===== verification/Theme.thy ===== *)
theory Theme
  imports JsBase "HOL-Library.Word"
begin

text \<open>
  The colours of \<open>lanspeed/theme.js\<close>: parsing what the browser says a colour is, compositing, the contrast
  ratio of WCAG and the choice of colours that can be read on given backgrounds. Channels are exact
  rationals. \<open>Math.pow\<close>, which ECMAScript leaves to the implementation, is the argument \<open>pow\<close>: the
  power of its argument to 2.4.
\<close>

section \<open>Colours\<close>

record color =
  cRed :: rat
  cGreen :: rat
  cBlue :: rat
  cAlpha :: rat

definition black :: color where
  "black = \<lparr>cRed = 0, cGreen = 0, cBlue = 0, cAlpha = 1\<rparr>"

definition white :: color where
  "white = \<lparr>cRed = 255, cGreen = 255, cBlue = 255, cAlpha = 1\<rparr>"

definition clamp :: "rat \<Rightarrow> rat \<Rightarrow> rat \<Rightarrow> rat" where
  "clamp v lo hi = max lo (min hi v)"

text \<open>\<open>/^#([\da-f]{3,8})$/i\<close> and the digits written twice for the short forms.\<close>

definition hexColor :: "string \<Rightarrow> color option" where
  "hexColor s = (let ds = drop 1 s in
     if take 1 s \<noteq> ''#'' \<or> length ds < 3 \<or> 8 < length ds \<or> \<not> list_all isHexAny ds then None
     else (let twice = (if length ds = 3 \<or> length ds = 4 then concat (map (\<lambda>d. [d, d]) ds) else ds);
               full = (if length twice = 6 then twice @ ''ff'' else twice);
               byte = (\<lambda>i. of_nat (radixVal 16 (take 2 (drop i full))))
       in if length full = 8 then Some \<lparr>cRed = byte 0, cGreen = byte 2, cBlue = byte 4, cAlpha = byte 6 / 255\<rparr> else None))"

text \<open>The group of \<open>\s*(.*?)\s*\)$\<close>: the text before the closing bracket without blanks around it, on one line.\<close>

definition bracketed :: "string \<Rightarrow> string option" where
  "bracketed s = (if s = [] \<or> last s \<noteq> CHR '')'' then None
     else (let g = jtrim (butlast s) in if list_ex (\<lambda>c. code c = 10 \<or> code c = 13) g then None else Some g))"

definition startsWith :: "string \<Rightarrow> string \<Rightarrow> bool" where
  "startsWith p s \<longleftrightarrow> toLowerCase (take (length p) s) = p"

definition rgbBody :: "string \<Rightarrow> string option" where
  "rgbBody s = (if startsWith ''rgb('' s then bracketed (drop 4 s)
     else if startsWith ''rgba('' s then bracketed (drop 5 s) else None)"

definition srgbBody :: "string \<Rightarrow> string option" where
  "srgbBody s = (if \<not> startsWith ''color('' s then None
     else (let r = dropWhile isSpace (drop 6 s); t = drop 4 r in
       if startsWith ''srgb'' r \<and> t \<noteq> [] \<and> isSpace (hd t) then bracketed t else None))"

text \<open>\<open>replace(/\//g, ' ').split(/[\s,]+/).filter(Boolean)\<close>\<close>

definition colorParts :: "string \<Rightarrow> string list" where
  "colorParts s = splitWords (\<lambda>c. isSpace c \<or> c = CHR '','') (map (\<lambda>c. if c = CHR ''/'' then CHR '' '' else c) s)"

definition isPercent :: "string \<Rightarrow> bool" where
  "isPercent p \<longleftrightarrow> p \<noteq> [] \<and> last p = CHR ''%''"

definition partNumber :: "string \<Rightarrow> jnum" where
  "partNumber p = strToNumber (if isPercent p then butlast p else p)"

definition colorChannel :: "rat \<Rightarrow> string \<Rightarrow> rat option" where
  "colorChannel scale p = (case partNumber p of
     Fin n \<Rightarrow> Some (clamp ((if isPercent p then n / 100 else n / scale) * 255) 0 255) | _ \<Rightarrow> None)"

definition alphaChannel :: "string option \<Rightarrow> rat option" where
  "alphaChannel part = (case part of None \<Rightarrow> Some 1
     | Some p \<Rightarrow> (case partNumber p of Fin n \<Rightarrow> Some (clamp (if isPercent p then n / 100 else n) 0 1) | _ \<Rightarrow> None))"

definition partsColor :: "rat \<Rightarrow> string list \<Rightarrow> color option" where
  "partsColor scale ps = (if length ps < 3 then None
     else (case (colorChannel scale (ps ! 0), colorChannel scale (ps ! 1), colorChannel scale (ps ! 2),
         alphaChannel (if 3 < length ps then Some (ps ! 3) else None)) of
       (Some r, Some g, Some b, Some a) \<Rightarrow> Some \<lparr>cRed = r, cGreen = g, cBlue = b, cAlpha = a\<rparr> | _ \<Rightarrow> None))"

definition parseCssColor :: "string \<Rightarrow> color option" where
  "parseCssColor v = (let s = jtrim v in
     case hexColor s of Some c \<Rightarrow> Some c
     | None \<Rightarrow> if toLowerCase s = ''transparent'' then Some \<lparr>cRed = 0, cGreen = 0, cBlue = 0, cAlpha = 0\<rparr>
         else (case rgbBody s of Some b \<Rightarrow> partsColor 255 (colorParts b)
           | None \<Rightarrow> (case srgbBody s of Some b \<Rightarrow> partsColor 1 (colorParts b) | None \<Rightarrow> None)))"

definition colorString :: "color \<Rightarrow> string" where
  "colorString c = (let channels = numToString (nround (Fin (cRed c))) @ '', '' @ numToString (nround (Fin (cGreen c))) @
       '', '' @ numToString (nround (Fin (cBlue c)))
     in if cAlpha c < 1 then ''rgba('' @ channels @ '', '' @ numToString (nscale (1 / 1000) (nround (Fin (cAlpha c * 1000)))) @ '')''
        else ''rgb('' @ channels @ '')'')"

section \<open>Contrast\<close>

definition compositeColor :: "color \<Rightarrow> color \<Rightarrow> color" where
  "compositeColor fore back = (let a = cAlpha fore + cAlpha back * (1 - cAlpha fore);
       mix = (\<lambda>f. (f fore * cAlpha fore + f back * cAlpha back * (1 - cAlpha fore)) / a)
     in if a \<le> 0 then white else \<lparr>cRed = mix cRed, cGreen = mix cGreen, cBlue = mix cBlue, cAlpha = a\<rparr>)"

definition channelLuminance :: "(rat \<Rightarrow> rat) \<Rightarrow> rat \<Rightarrow> rat" where
  "channelLuminance pow v = (let n = v / 255 in
     if n \<le> 3928 / 100000 then n / (1292 / 100) else pow ((n + 55 / 1000) / (1055 / 1000)))"

definition relativeLuminance :: "(rat \<Rightarrow> rat) \<Rightarrow> color \<Rightarrow> rat" where
  "relativeLuminance pow c = channelLuminance pow (cRed c) * (2126 / 10000) +
     channelLuminance pow (cGreen c) * (7152 / 10000) + channelLuminance pow (cBlue c) * (722 / 10000)"

definition onWhite :: "color \<Rightarrow> color" where
  "onWhite b = (if cAlpha b < 1 then compositeColor b white else b)"

definition contrastRatio :: "(rat \<Rightarrow> rat) \<Rightarrow> color \<Rightarrow> color \<Rightarrow> rat" where
  "contrastRatio pow f b = (let fl = relativeLuminance pow (compositeColor f b); bl = relativeLuminance pow (onWhite b)
     in (max fl bl + 5 / 100) / (min fl bl + 5 / 100))"

text \<open>The least contrast with the backgrounds; infinite without one.\<close>

definition minimumContrast :: "(rat \<Rightarrow> rat) \<Rightarrow> color \<Rightarrow> color list \<Rightarrow> jnum" where
  "minimumContrast pow c bs = foldl (\<lambda>m b. nmin m (Fin (contrastRatio pow c b))) PInf bs"

fun chooseFrom :: "(rat \<Rightarrow> rat) \<Rightarrow> color list \<Rightarrow> rat \<Rightarrow> color option \<Rightarrow> jnum \<Rightarrow> color option list \<Rightarrow> color option" where
  "chooseFrom pow bs threshold best ratio [] = best"
| "chooseFrom pow bs threshold best ratio (None # cs) = chooseFrom pow bs threshold best ratio cs"
| "chooseFrom pow bs threshold best ratio (Some c # cs) = (let m = minimumContrast pow c bs in
     if nle (Fin threshold) m then Some c
     else if nlt ratio m then chooseFrom pow bs threshold (Some c) m cs
     else chooseFrom pow bs threshold best ratio cs)"

definition chooseAuroraForeground :: "(rat \<Rightarrow> rat) \<Rightarrow> color option list \<Rightarrow> color list \<Rightarrow> rat \<Rightarrow> color option" where
  "chooseAuroraForeground pow candidates bs threshold = chooseFrom pow bs threshold None NInf candidates"

definition mixColor :: "color \<Rightarrow> color \<Rightarrow> rat \<Rightarrow> color" where
  "mixColor u v t = (let mix = (\<lambda>f. f u + (f v - f u) * t) in
     \<lparr>cRed = mix cRed, cGreen = mix cGreen, cBlue = mix cBlue, cAlpha = 1\<rparr>)"

text \<open>The loop of bisections: \<open>ok\<close> holds at \<open>high\<close> unless \<open>high\<close> was never moved.\<close>

fun bisect :: "(rat \<Rightarrow> bool) \<Rightarrow> nat \<Rightarrow> rat \<Rightarrow> rat \<Rightarrow> rat" where
  "bisect ok 0 low high = high"
| "bisect ok (Suc n) low high = (let middle = (low + high) / 2 in
     if ok middle then bisect ok n low middle else bisect ok n middle high)"

definition adjustTarget :: "(rat \<Rightarrow> rat) \<Rightarrow> color list \<Rightarrow> color" where
  "adjustTarget pow bs = (if nle (minimumContrast pow white bs) (minimumContrast pow black bs) then black else white)"

definition contrastAdjustedColor :: "(rat \<Rightarrow> rat) \<Rightarrow> color option \<Rightarrow> color list \<Rightarrow> rat \<Rightarrow> rat \<Rightarrow> color option" where
  "contrastAdjustedColor pow color bs threshold targetThreshold = (case color of None \<Rightarrow> None
   | Some c \<Rightarrow> if bs = [] \<or> nle (Fin threshold) (minimumContrast pow c bs) then Some c
       else (let t = max threshold targetThreshold; target = adjustTarget pow bs in
         Some (mixColor c target (bisect (\<lambda>m. nle (Fin t) (minimumContrast pow (mixColor c target m) bs)) 16 0 1))))"

definition safeInteractiveColor :: "(rat \<Rightarrow> rat) \<Rightarrow> color option \<Rightarrow> color list \<Rightarrow> color option" where
  "safeInteractiveColor pow c bs = contrastAdjustedColor pow c bs 3 (325 / 100)"

definition safeTextColor :: "(rat \<Rightarrow> rat) \<Rightarrow> color option \<Rightarrow> color list \<Rightarrow> color option" where
  "safeTextColor pow c bs = contrastAdjustedColor pow c bs (45 / 10) (475 / 100)"

definition semanticBackgrounds :: "color option \<Rightarrow> color list \<Rightarrow> rat \<Rightarrow> color list" where
  "semanticBackgrounds color bs a = (case color of None \<Rightarrow> bs
     | Some c \<Rightarrow> bs @ map (compositeColor (c\<lparr>cAlpha := a\<rparr>)) bs)"

definition safeActionText :: "(rat \<Rightarrow> rat) \<Rightarrow> color option \<Rightarrow> color list \<Rightarrow> color option" where
  "safeActionText pow color bs = (case color of None \<Rightarrow> None
     | Some c \<Rightarrow> chooseAuroraForeground pow [Some black, Some white] (map (compositeColor c) bs) (45 / 10))"

section \<open>Colours stay in their range\<close>

definition inGamut :: "color \<Rightarrow> bool" where
  "inGamut c \<longleftrightarrow> cRed c \<in> {0..255} \<and> cGreen c \<in> {0..255} \<and> cBlue c \<in> {0..255} \<and> cAlpha c \<in> {0..1}"

lemma clamp_range: "lo \<le> hi \<Longrightarrow> clamp v lo hi \<in> {lo..hi}"
  by (auto simp: clamp_def)

lemma colorChannel_range: "colorChannel scale p = Some q \<Longrightarrow> q \<in> {0..255}"
  using clamp_range [of 0 255] by (auto simp: colorChannel_def split: jnum.splits)

lemma alphaChannel_range: "alphaChannel p = Some q \<Longrightarrow> q \<in> {0..1}"
  using clamp_range [of 0 1] by (auto simp: alphaChannel_def split: jnum.splits option.splits)

lemma partsColor_gamut: "partsColor scale ps = Some c \<Longrightarrow> inGamut c"
  by (auto simp: partsColor_def inGamut_def split: if_splits option.splits
      dest: colorChannel_range alphaChannel_range)

lemma hexDigit_bound: "isHexAny c \<Longrightarrow> hexDigitVal c \<le> 15"
  by (auto simp: isHexAny_def isHexLower_def isDigit_def hexDigitVal_def digitVal_def)

lemma hexPair_bound: "list_all isHexAny s \<Longrightarrow> length s \<le> 2 \<Longrightarrow> radixVal 16 s \<le> 255"
proof -
  assume s: "list_all isHexAny s" "length s \<le> 2"
  consider "s = []" | a where "s = [a]" | a b where "s = [a, b]" using s(2)
    by (cases s; cases "tl s"; cases "tl (tl s)") auto
  then show ?thesis
  proof cases
    case 2
    then show ?thesis using s hexDigit_bound [of a] by (simp add: radixVal_def)
  next
    case (3 a b)
    then show ?thesis using s hexDigit_bound [of a] hexDigit_bound [of b] by (simp add: radixVal_def)
  qed (simp add: radixVal_def)
qed

lemma hexColor_gamut:
  assumes "hexColor s = Some c"
  shows "inGamut c"
proof -
  define ds where "ds = drop 1 s"
  define twice where "twice = (if length ds = 3 \<or> length ds = 4 then concat (map (\<lambda>d. [d, d]) ds) else ds)"
  define full where "full = (if length twice = 6 then twice @ ''ff'' else twice)"
  have hex: "list_all isHexAny ds" and c: "c = \<lparr>cRed = of_nat (radixVal 16 (take 2 (drop 0 full))), cGreen = of_nat (radixVal 16 (take 2 (drop 2 full))),
      cBlue = of_nat (radixVal 16 (take 2 (drop 4 full))), cAlpha = of_nat (radixVal 16 (take 2 (drop 6 full))) / 255\<rparr>"
    using assms by (auto simp: hexColor_def Let_def ds_def twice_def full_def split: if_splits)
  have "isHexAny CHR ''f''" by (simp add: isHexAny_def isHexLower_def code_def)
  then have "list_all isHexAny full" using hex by (auto simp: full_def twice_def list_all_iff)
  then have "list_all isHexAny (take 2 (drop i full))" for i by (auto simp: list_all_iff dest: in_set_takeD in_set_dropD)
  then have b: "radixVal 16 (take 2 (drop i full)) \<le> 255" for i by (intro hexPair_bound) auto
  then have "of_nat (radixVal 16 (take 2 (drop i full))) \<le> (255 :: rat)" for i
    by (metis of_nat_le_iff of_nat_numeral)
  then show ?thesis using b b [of 0] by (simp add: c inGamut_def)
qed

theorem parseCssColor_gamut: "parseCssColor v = Some c \<Longrightarrow> inGamut c"
  by (auto simp: parseCssColor_def Let_def split: option.splits if_splits dest: hexColor_gamut partsColor_gamut)
    (simp_all add: inGamut_def)

lemma convex_range:
  fixes s t x y :: rat
  assumes "x \<in> {0..255}" "y \<in> {0..255}" "0 \<le> s" "0 \<le> t" "0 < s + t"
  shows "(x * s + y * t) / (s + t) \<in> {0..255}"
proof -
  have "x * s + y * t \<le> 255 * s + 255 * t" using assms by (intro add_mono mult_right_mono) auto
  then have "x * s + y * t \<le> 255 * (s + t)" by (simp add: algebra_simps)
  then show ?thesis using assms by (simp add: pos_divide_le_eq)
qed

lemma composite_gamut:
  assumes "inGamut f" "inGamut b"
  shows "inGamut (compositeColor f b)"
proof (cases "cAlpha f + cAlpha b * (1 - cAlpha f) \<le> 0")
  case False
  have t: "0 \<le> cAlpha b * (1 - cAlpha f)" using assms by (simp add: inGamut_def)
  have "cAlpha b * (1 - cAlpha f) \<le> 1 * (1 - cAlpha f)" using assms by (intro mult_right_mono) (auto simp: inGamut_def)
  then have "cAlpha f + cAlpha b * (1 - cAlpha f) \<le> 1" by simp
  moreover have "(x * cAlpha f + y * (cAlpha b * (1 - cAlpha f))) / (cAlpha f + cAlpha b * (1 - cAlpha f)) \<in> {0..255}"
    if "x \<in> {0..255}" "y \<in> {0..255}" for x y
    by (rule convex_range) (use that t assms False in \<open>auto simp: inGamut_def\<close>)
  ultimately show ?thesis using False assms by (simp add: compositeColor_def inGamut_def Let_def mult.assoc)
qed (simp add: compositeColor_def inGamut_def white_def)

lemma black_white_gamut: "inGamut black" "inGamut white"
  by (simp_all add: black_def white_def inGamut_def)

lemma onWhite_gamut: "inGamut b \<Longrightarrow> inGamut (onWhite b)"
  by (simp add: onWhite_def composite_gamut black_white_gamut)

lemma composite_opaque: "cAlpha f = 1 \<Longrightarrow> compositeColor f b = f"
  by (simp add: compositeColor_def)

section \<open>Luminance and contrast\<close>

text \<open>What the theorems ask of \<open>Math.pow(x, 2.4)\<close>: it maps the unit interval into itself and fixes 1.\<close>

definition unitPower :: "(rat \<Rightarrow> rat) \<Rightarrow> bool" where
  "unitPower pow \<longleftrightarrow> pow ` {0..1} \<subseteq> {0..1} \<and> pow 1 = 1"

lemma channelLuminance_range:
  assumes "unitPower pow" "v \<in> {0..255}"
  shows "channelLuminance pow v \<in> {0..1}"
proof (cases "v / 255 \<le> 3928 / 100000")
  case True
  then show ?thesis using assms(2) by (auto simp: channelLuminance_def Let_def)
next
  case False
  have "(v / 255 + 55 / 1000) / (1055 / 1000) \<in> {0..1}" using assms(2) by (auto simp: field_simps)
  then have "pow ((v / 255 + 55 / 1000) / (1055 / 1000)) \<in> {0..1}" using assms(1) unfolding unitPower_def by blast
  then show ?thesis using False by (simp add: channelLuminance_def Let_def)
qed

lemma luminance_range:
  assumes "unitPower pow" "inGamut c"
  shows "relativeLuminance pow c \<in> {0..1}"
proof -
  have "channelLuminance pow (cRed c) \<in> {0..1}" "channelLuminance pow (cGreen c) \<in> {0..1}" "channelLuminance pow (cBlue c) \<in> {0..1}"
    using assms channelLuminance_range by (simp_all add: inGamut_def)
  then show ?thesis by (auto simp: relativeLuminance_def)
qed

lemma black_luminance: "relativeLuminance pow black = 0"
  by (simp add: relativeLuminance_def channelLuminance_def black_def)

lemma white_luminance: "unitPower pow \<Longrightarrow> relativeLuminance pow white = 1"
  by (simp add: relativeLuminance_def channelLuminance_def white_def unitPower_def)

definition backLuminance :: "(rat \<Rightarrow> rat) \<Rightarrow> color \<Rightarrow> rat" where
  "backLuminance pow b = relativeLuminance pow (onWhite b)"

lemma black_contrast:
  assumes "unitPower pow" "inGamut b"
  shows "contrastRatio pow black b = (backLuminance pow b + 5 / 100) / (5 / 100)"
  using luminance_range [OF assms(1) onWhite_gamut [OF assms(2)]]
  by (simp add: contrastRatio_def composite_opaque black_luminance backLuminance_def Let_def black_def [THEN arg_cong [of _ _ cAlpha]])

lemma white_contrast:
  assumes "unitPower pow" "inGamut b"
  shows "contrastRatio pow white b = (105 / 100) / (backLuminance pow b + 5 / 100)"
  using luminance_range [OF assms(1) onWhite_gamut [OF assms(2)]] white_luminance [OF assms(1)]
  by (simp add: contrastRatio_def composite_opaque backLuminance_def Let_def white_def [THEN arg_cong [of _ _ cAlpha]])

text \<open>On one background black or white can be read.\<close>

lemma black_or_white:
  assumes "unitPower pow" "inGamut b"
  shows "45 / 10 \<le> contrastRatio pow black b \<or> 45 / 10 \<le> contrastRatio pow white b"
proof -
  have l: "0 \<le> backLuminance pow b" "backLuminance pow b \<le> 1"
    using luminance_range [OF assms(1) onWhite_gamut [OF assms(2)]] by (simp_all add: backLuminance_def)
  show ?thesis
  proof (cases "175 / 1000 \<le> backLuminance pow b")
    case True
    then have "45 / 10 \<le> contrastRatio pow black b" unfolding black_contrast [OF assms] by simp
    then show ?thesis by blast
  next
    case False
    have "45 / 10 \<le> contrastRatio pow white b" unfolding white_contrast [OF assms]
      using l False by (subst pos_le_divide_eq) auto
    then show ?thesis by blast
  qed
qed

section \<open>The least contrast\<close>

lemma fold_min: "\<exists>k. foldl (\<lambda>m b. nmin m (Fin (f b))) (Fin q) bs = Fin k \<and> (\<forall>t. t \<le> k \<longleftrightarrow> t \<le> q \<and> (\<forall>b \<in> set bs. t \<le> f b))"
proof (induction bs arbitrary: q)
  case (Cons b bs)
  from Cons.IH [of "min q (f b)"] show ?case by (auto simp: min_def)
qed simp

lemma minimum_fin:
  assumes "bs \<noteq> []"
  obtains k where "minimumContrast pow c bs = Fin k" "\<And>t. t \<le> k \<longleftrightarrow> (\<forall>b \<in> set bs. t \<le> contrastRatio pow c b)"
proof -
  obtain b rest where bs: "bs = b # rest" using assms by (cases bs) auto
  have "minimumContrast pow c bs = foldl (\<lambda>m b. nmin m (Fin (contrastRatio pow c b))) (Fin (contrastRatio pow c b)) rest"
    by (simp add: minimumContrast_def bs)
  then show ?thesis using fold_min [of "contrastRatio pow c" "contrastRatio pow c b" rest] that by (auto simp: bs)
qed

lemma minimum_iff: "nle (Fin t) (minimumContrast pow c bs) \<longleftrightarrow> (\<forall>b \<in> set bs. t \<le> contrastRatio pow c b)"
proof (cases "bs = []")
  case True
  then show ?thesis by (simp add: minimumContrast_def)
next
  case False
  obtain k where "minimumContrast pow c bs = Fin k" "\<And>t. t \<le> k \<longleftrightarrow> (\<forall>b \<in> set bs. t \<le> contrastRatio pow c b)"
    by (rule minimum_fin [OF False, of pow c]) blast
  then show ?thesis by simp
qed

lemma minimum_form: "minimumContrast pow c bs = PInf \<or> (\<exists>k. minimumContrast pow c bs = Fin k)"
proof (cases "bs = []")
  case False
  obtain k where "minimumContrast pow c bs = Fin k" by (rule minimum_fin [OF False])
  then show ?thesis by blast
qed (simp add: minimumContrast_def)

lemma minimum_total: "nlt (minimumContrast pow c bs) (minimumContrast pow d bs) \<or> nle (minimumContrast pow d bs) (minimumContrast pow c bs)"
proof -
  obtain m n where "minimumContrast pow c bs = m" "minimumContrast pow d bs = n" by blast
  then show ?thesis using minimum_form [of pow c bs] minimum_form [of pow d bs] by (cases m; cases n) auto
qed

lemma minimum_chain:
  "nlt (minimumContrast pow c bs) (minimumContrast pow d bs) \<Longrightarrow> nle (minimumContrast pow e bs) (minimumContrast pow c bs) \<Longrightarrow>
   nle (minimumContrast pow e bs) (minimumContrast pow d bs)"
proof -
  obtain l m n where "minimumContrast pow c bs = l" "minimumContrast pow d bs = m" "minimumContrast pow e bs = n" by blast
  then show "nlt (minimumContrast pow c bs) (minimumContrast pow d bs) \<Longrightarrow> nle (minimumContrast pow e bs) (minimumContrast pow c bs) \<Longrightarrow>
      nle (minimumContrast pow e bs) (minimumContrast pow d bs)"
    by (cases l; cases m; cases n) auto
qed

lemma minimum_refl: "nle (minimumContrast pow c bs) (minimumContrast pow c bs)"
  using minimum_form [of pow c bs] by auto

section \<open>The choice of a foreground\<close>

definition meets :: "(rat \<Rightarrow> rat) \<Rightarrow> color list \<Rightarrow> rat \<Rightarrow> color \<Rightarrow> bool" where
  "meets pow bs t c \<longleftrightarrow> nle (Fin t) (minimumContrast pow c bs)"

definition noBetter :: "(rat \<Rightarrow> rat) \<Rightarrow> color list \<Rightarrow> color \<Rightarrow> color \<Rightarrow> bool" where
  "noBetter pow bs d e \<longleftrightarrow> nle (minimumContrast pow e bs) (minimumContrast pow d bs)"

lemma chooseFrom_some:
  assumes "chooseFrom pow bs t (Some b) (minimumContrast pow b bs) cs = Some d"
  shows "(Some d \<in> set cs \<and> meets pow bs t d) \<or>
    ((d = b \<or> Some d \<in> set cs) \<and> noBetter pow bs d b \<and> {e. Some e \<in> set cs} \<subseteq> {e. \<not> meets pow bs t e \<and> noBetter pow bs d e})"
  using assms
proof (induction cs arbitrary: b)
  case (Cons x cs)
  show ?case
  proof (cases x)
    case None
    then show ?thesis using Cons by auto
  next
    case (Some c)
    consider "meets pow bs t c" | "\<not> meets pow bs t c" "nlt (minimumContrast pow b bs) (minimumContrast pow c bs)"
      | "\<not> meets pow bs t c" "\<not> nlt (minimumContrast pow b bs) (minimumContrast pow c bs)" by blast
    then show ?thesis
    proof cases
      case 1
      then show ?thesis using Cons.prems Some by (auto simp: Let_def meets_def)
    next
      case 2
      then have "chooseFrom pow bs t (Some c) (minimumContrast pow c bs) cs = Some d"
        using Cons.prems Some by (simp add: Let_def meets_def)
      note ih = Cons.IH [OF this]
      show ?thesis
      proof (cases "Some d \<in> set cs \<and> meets pow bs t d")
        case False
        then have h: "noBetter pow bs d c" "{e. Some e \<in> set cs} \<subseteq> {e. \<not> meets pow bs t e \<and> noBetter pow bs d e}"
          "d = c \<or> Some d \<in> set cs" using ih by blast+
        have "noBetter pow bs d b"
        proof (cases "nlt (minimumContrast pow c bs) (minimumContrast pow d bs)")
          case True
          have "nle (minimumContrast pow b bs) (minimumContrast pow c bs)"
            using minimum_chain [OF 2(2) minimum_refl] .
          then show ?thesis using minimum_chain [OF True] by (simp add: noBetter_def)
        next
          case False
          then have "nle (minimumContrast pow d bs) (minimumContrast pow c bs)" using minimum_total by blast
          have "nle (minimumContrast pow b bs) (minimumContrast pow c bs)" using minimum_chain [OF 2(2) minimum_refl] .
          moreover have "nle (minimumContrast pow c bs) (minimumContrast pow d bs)" using h(1) by (simp add: noBetter_def)
          ultimately show ?thesis
            using minimum_form [of pow b bs] minimum_form [of pow c bs] minimum_form [of pow d bs] by (auto simp: noBetter_def)
        qed
        then show ?thesis using h 2(1) Some by auto
      qed (use Some in auto)
    next
      case 3
      then have "chooseFrom pow bs t (Some b) (minimumContrast pow b bs) cs = Some d"
        using Cons.prems Some by (simp add: Let_def meets_def)
      note ih = Cons.IH [OF this]
      show ?thesis
      proof (cases "Some d \<in> set cs \<and> meets pow bs t d")
        case False
        then have h: "noBetter pow bs d b" "{e. Some e \<in> set cs} \<subseteq> {e. \<not> meets pow bs t e \<and> noBetter pow bs d e}"
          "d = b \<or> Some d \<in> set cs" using ih by blast+
        have "nle (minimumContrast pow c bs) (minimumContrast pow b bs)" using 3(2) minimum_total by blast
        then have "noBetter pow bs d c" using h(1)
            minimum_form [of pow b bs] minimum_form [of pow c bs] minimum_form [of pow d bs] by (auto simp: noBetter_def)
        then show ?thesis using h 3(1) Some by auto
      qed (use Some in auto)
    qed
  qed
qed (auto simp: noBetter_def minimum_refl)

lemma chooseFrom_kept: "chooseFrom pow bs t (Some b) r cs \<noteq> None"
proof (induction cs arbitrary: b r)
  case (Cons x cs)
  then show ?case by (cases x) (simp_all add: Let_def)
qed simp

lemma chooseFrom_start:
  "chooseFrom pow bs t None NInf cs = None \<Longrightarrow> set cs \<subseteq> {None}"
  "chooseFrom pow bs t None NInf cs = Some d \<Longrightarrow> (Some d \<in> set cs \<and> meets pow bs t d) \<or>
    (Some d \<in> set cs \<and> {e. Some e \<in> set cs} \<subseteq> {e. \<not> meets pow bs t e \<and> noBetter pow bs d e})"
proof (induction cs)
  case (Cons x cs)
  have low: "nlt NInf (minimumContrast pow c bs)" for c using minimum_form [of pow c bs] by auto
  {
    case 1
    show ?case
    proof (cases x)
      case None
      then show ?thesis using 1 Cons by simp
    next
      case (Some c)
      then show ?thesis using 1 low chooseFrom_kept [of pow bs t c "minimumContrast pow c bs" cs]
        by (simp add: Let_def split: if_splits)
    qed
  next
    case 2
    show ?case
    proof (cases x)
      case None
      then show ?thesis using 2 Cons by auto
    next
      case (Some c)
      show ?thesis
      proof (cases "meets pow bs t c")
        case True
        then show ?thesis using 2 Some by (auto simp: Let_def meets_def)
      next
        case False
        then have "chooseFrom pow bs t (Some c) (minimumContrast pow c bs) cs = Some d"
          using 2 Some low by (simp add: Let_def meets_def)
        from chooseFrom_some [OF this] False Some show ?thesis by auto
      qed
    qed
  }
qed simp_all

text \<open>The foreground that is chosen is a candidate that reaches the threshold on every background or, when none
  does, one whose least contrast no candidate exceeds; none is chosen only when there are no candidates.\<close>

theorem foreground_choice:
  "case chooseAuroraForeground pow cs bs t of
     None \<Rightarrow> set cs \<subseteq> {None}
   | Some d \<Rightarrow> Some d \<in> set cs \<and>
       (meets pow bs t d \<or> {e. Some e \<in> set cs} \<subseteq> {e. \<not> meets pow bs t e \<and> noBetter pow bs d e})"
  using chooseFrom_start [of pow bs t cs] by (auto simp: chooseAuroraForeground_def split: option.split)

section \<open>The bisection\<close>

lemma bisect_outcome:
  assumes "ok high \<or> high = 1" "low = 0 \<or> \<not> ok low" "high - low = w"
  shows "(ok (bisect ok n low high) \<or> bisect ok n low high = 1) \<and>
    (bisect ok n low high - w / 2 ^ n = 0 \<or> \<not> ok (bisect ok n low high - w / 2 ^ n))"
  using assms
proof (induction n arbitrary: low high w)
  case 0
  then have "high - w = low" by simp
  then show ?case using 0 by auto
next
  case (Suc n)
  let ?m = "(low + high) / 2"
  show ?case
  proof (cases "ok ?m")
    case True
    from Suc.IH [of ?m low "w / 2"] True Suc.prems show ?thesis by (simp add: Let_def field_simps)
  next
    case False
    from Suc.IH [of high ?m "w / 2"] False Suc.prems show ?thesis by (simp add: Let_def field_simps)
  qed
qed

lemma mixColor_end: "cAlpha v = 1 \<Longrightarrow> mixColor u v 1 = v"
  by (simp add: mixColor_def)

lemma target_alpha: "cAlpha (adjustTarget pow bs) = 1"
  by (simp add: adjustTarget_def black_def white_def)

text \<open>A colour that cannot be read on its backgrounds is moved towards black or white, whichever contrasts
  more, until it reaches the wanted contrast, and at most one part in 65536 further than needed; if nothing on
  the way reaches it, it becomes that black or white.\<close>

theorem adjusted_color:
  assumes "bs \<noteq> []" "\<not> meets pow bs t c"
  shows "\<exists>h. contrastAdjustedColor pow (Some c) bs t u = Some (mixColor c (adjustTarget pow bs) h) \<and>
    (meets pow bs (max t u) (mixColor c (adjustTarget pow bs) h) \<or> mixColor c (adjustTarget pow bs) h = adjustTarget pow bs) \<and>
    (h = 1 / 65536 \<or> \<not> meets pow bs (max t u) (mixColor c (adjustTarget pow bs) (h - 1 / 65536))) \<and>
    noBetter pow bs (adjustTarget pow bs) black \<and> noBetter pow bs (adjustTarget pow bs) white"
proof -
  let ?ok = "\<lambda>m. nle (Fin (max t u)) (minimumContrast pow (mixColor c (adjustTarget pow bs) m) bs)"
  let ?h = "bisect ?ok 16 0 1"
  have "(?ok ?h \<or> ?h = 1) \<and> (?h - 1 / 2 ^ 16 = 0 \<or> \<not> ?ok (?h - 1 / 2 ^ 16))"
    by (rule bisect_outcome) simp_all
  moreover have "?h = 1 \<Longrightarrow> mixColor c (adjustTarget pow bs) ?h = adjustTarget pow bs"
    using mixColor_end [OF target_alpha] by metis
  moreover have "contrastAdjustedColor pow (Some c) bs t u = Some (mixColor c (adjustTarget pow bs) ?h)"
    using assms by (simp add: contrastAdjustedColor_def meets_def Let_def)
  moreover have "noBetter pow bs (adjustTarget pow bs) black \<and> noBetter pow bs (adjustTarget pow bs) white"
    using minimum_total [of pow white bs black] minimum_form [of pow white bs] minimum_form [of pow black bs]
    by (auto simp: noBetter_def adjustTarget_def minimum_refl)
  ultimately show ?thesis by (intro exI [of _ ?h]) (auto simp: meets_def)
qed

section \<open>Text that can be read\<close>

lemma uniform_contrast:
  assumes "unitPower pow" "inGamut ` set bs \<subseteq> {True}" "backLuminance pow ` set bs \<subseteq> {l}"
  shows "meets pow bs (45 / 10) black \<or> meets pow bs (45 / 10) white"
proof (cases "bs = []")
  case False
  then obtain b where b: "b \<in> set bs" by (cases bs) auto
  have g: "inGamut x" "backLuminance pow x = backLuminance pow b" if "x \<in> set bs" for x
    using assms(2,3) that b by auto
  then have "contrastRatio pow black x = contrastRatio pow black b" "contrastRatio pow white x = contrastRatio pow white b" if "x \<in> set bs" for x
    using that b black_contrast [OF assms(1)] white_contrast [OF assms(1)] by metis+
  then show ?thesis using black_or_white [OF assms(1) g(1) [OF b]] by (auto simp: meets_def minimum_iff)
qed (simp add: meets_def minimum_iff)

lemma meets_noBetter: "meets pow bs t e \<Longrightarrow> noBetter pow bs d e \<Longrightarrow> meets pow bs t d"
  using minimum_form [of pow d bs] minimum_form [of pow e bs] by (auto simp: meets_def noBetter_def)

lemma meets_less: "meets pow bs t d \<Longrightarrow> s \<le> t \<Longrightarrow> meets pow bs s d"
  by (auto simp: meets_def minimum_iff)

text \<open>C31: on backgrounds of one luminance the text is always readable: the colour chosen for a button, when
  black and white are among the candidates, and the safe version of any colour of the theme have at least the
  contrast of 4.5 that WCAG asks for.\<close>

theorem text_readable:
  assumes "unitPower pow" "inGamut ` set bs \<subseteq> {True}" "backLuminance pow ` set bs \<subseteq> {l}" "{Some black, Some white} \<subseteq> set cs"
  shows "(\<exists>d. chooseAuroraForeground pow cs bs (45 / 10) = Some d \<and> meets pow bs (45 / 10) d) \<and>
    (\<exists>d. safeTextColor pow (Some c) bs = Some d \<and> meets pow bs (45 / 10) d)"
proof
  have bw: "meets pow bs (45 / 10) black \<or> meets pow bs (45 / 10) white" by (rule uniform_contrast [OF assms(1-3)])
  show "\<exists>d. chooseAuroraForeground pow cs bs (45 / 10) = Some d \<and> meets pow bs (45 / 10) d"
    using chooseFrom_start [of pow bs "45 / 10" cs] assms(4) bw
    by (cases "chooseFrom pow bs (45 / 10) None NInf cs") (auto simp: chooseAuroraForeground_def)
  show "\<exists>d. safeTextColor pow (Some c) bs = Some d \<and> meets pow bs (45 / 10) d"
  proof (cases "bs = [] \<or> meets pow bs (45 / 10) c")
    case True
    then show ?thesis by (auto simp: safeTextColor_def contrastAdjustedColor_def meets_def minimum_iff)
  next
    case False
    let ?t = "adjustTarget pow bs"
    let ?ok = "\<lambda>m. nle (Fin (475 / 100)) (minimumContrast pow (mixColor c ?t m) bs)"
    let ?h = "bisect ?ok 16 0 1"
    have d: "safeTextColor pow (Some c) bs = Some (mixColor c ?t ?h)"
      using False by (simp add: safeTextColor_def contrastAdjustedColor_def meets_def Let_def)
    have "noBetter pow bs ?t black \<and> noBetter pow bs ?t white"
      using minimum_total [of pow white bs black] minimum_form [of pow white bs] minimum_form [of pow black bs]
      by (auto simp: noBetter_def adjustTarget_def minimum_refl)
    then have t: "meets pow bs (45 / 10) ?t" using bw meets_noBetter by blast
    have "(?ok ?h \<or> ?h = 1) \<and> (?h - 1 / 2 ^ 16 = 0 \<or> \<not> ?ok (?h - 1 / 2 ^ 16))"
      by (rule bisect_outcome) simp_all
    then have "meets pow bs (475 / 100) (mixColor c ?t ?h) \<or> mixColor c ?t ?h = ?t"
      using mixColor_end [OF target_alpha] by (metis meets_def)
    then show ?thesis using d t meets_less by fastforce
  qed
qed

theorem adjusted_color_witness:
  "\<exists>h. contrastAdjustedColor (\<lambda>x. x) (Some white) [white] 3 4 = Some (mixColor white (adjustTarget (\<lambda>x. x) [white]) h)"
proof -
  have "\<not> meets (\<lambda>x. x) [white] 3 white" by code_simp
  from adjusted_color [OF _ this, of 4] show ?thesis by blast
qed

theorem text_readable_witness:
  "\<exists>d. safeTextColor (\<lambda>x. x) (Some white) [white] = Some d \<and> meets (\<lambda>x. x) [white] (45 / 10) d"
proof -
  have p: "unitPower (\<lambda>x. x)" by (auto simp: unitPower_def)
  show ?thesis
    using text_readable [OF p, of "[white]" "backLuminance (\<lambda>x. x) white" "[Some black, Some white]" white] black_white_gamut
    by simp
qed

section \<open>Writing a colour and reading it back\<close>

lemma channels_trim: "s \<noteq> [] \<Longrightarrow> isDigit (hd s) \<Longrightarrow> isDigit (last s) \<Longrightarrow> jtrim s = s"
  unfolding jtrim_def by (rule trimBy_id) (auto simp: isDigit_not_space)

lemma showNat_ends: "isDigit (hd (showNat n)) \<and> isDigit (last (showNat n))"
  using showNat_digits [of n] by (simp add: list_all_iff)

definition channelText :: "nat \<Rightarrow> nat \<Rightarrow> nat \<Rightarrow> string" where
  "channelText r g b = showNat r @ '', '' @ showNat g @ '', '' @ showNat b"

lemma channelText_chars: "c \<in> set (channelText r g b) \<Longrightarrow> isDigit c \<or> c = CHR '','' \<or> c = CHR '' ''"
  using showNat_digits [of r] showNat_digits [of g] showNat_digits [of b] by (auto simp: channelText_def list_all_iff)

lemma channelText_bracketed: "bracketed (channelText r g b @ '')'') = Some (channelText r g b)"
proof -
  have "jtrim (channelText r g b) = channelText r g b"
    by (rule channels_trim) (use showNat_ends in \<open>simp_all add: channelText_def\<close>)
  moreover have "\<not> list_ex (\<lambda>c. code c = 10 \<or> code c = 13) (channelText r g b)"
    using channelText_chars [of _ r g b] by (fastforce simp: list_ex_iff isDigit_def code_def)
  ultimately show ?thesis by (simp add: bracketed_def butlast_append)
qed

lemma channelText_parts: "colorParts (channelText r g b) = [showNat r, showNat g, showNat b]"
proof -
  let ?P = "\<lambda>c. isSpace c \<or> c = CHR '',''"
  have "(if c = CHR ''/'' then CHR '' '' else c) = c" if "c \<in> set (channelText r g b)" for c
    using channelText_chars [OF that] by (auto simp: isDigit_def code_def)
  then have id: "map (\<lambda>c. if c = CHR ''/'' then CHR '' '' else c) (channelText r g b) = channelText r g b"
    by (intro map_idI) blast
  have word: "list_all (\<lambda>c. \<not> ?P c) (showNat n)" for n
    using showNat_digits [of n] by (auto simp: list_all_iff isDigit_not_space) (auto simp: isDigit_def code_def)
  have skip: "splitWords ?P ('', '' @ t) = splitWords ?P t" if "t \<noteq> []" for t
    by (subst (1 2) splitWords.simps) (simp add: isSpace_def code_def)
  have "splitWords ?P (showNat b @ []) = showNat b # splitWords ?P []" by (rule splitWords_word) (use word in simp_all)
  then have b: "splitWords ?P (showNat b) = [showNat b]" by (simp add: splitWords.simps [of ?P "[]"])
  have "splitWords ?P (showNat g @ ('', '' @ showNat b)) = showNat g # splitWords ?P ('', '' @ showNat b)"
    by (rule splitWords_word) (use word in simp_all)
  then have g: "splitWords ?P (showNat g @ '', '' @ showNat b) = [showNat g, showNat b]" using skip [of "showNat b"] b by simp
  have "splitWords ?P (showNat r @ ('', '' @ showNat g @ '', '' @ showNat b)) = showNat r # splitWords ?P ('', '' @ showNat g @ '', '' @ showNat b)"
    by (rule splitWords_word) (use word in simp_all)
  then show ?thesis unfolding colorParts_def id using skip [of "showNat g @ '', '' @ showNat b"] g by (simp add: channelText_def)
qed

lemma channel_number: "n \<le> 255 \<Longrightarrow> colorChannel 255 (showNat n) = Some (of_nat n)"
proof -
  assume n: "n \<le> 255"
  have "last (showNat n) \<noteq> CHR ''%''" using showNat_ends [of n] by (auto simp: isDigit_def code_def)
  then have "\<not> isPercent (showNat n)" by (simp add: isPercent_def)
  moreover have "(of_nat n :: rat) \<le> 255" using n by (metis of_nat_le_iff of_nat_numeral)
  ultimately show ?thesis by (simp add: colorChannel_def partNumber_def clamp_def)
qed

text \<open>C0: a colour the page has written with \<open>colorString\<close> is read back unchanged, when its channels are bytes and
  it is opaque.\<close>

theorem colorString_parse:
  assumes "{r, g, b} \<subseteq> {..255 :: nat}"
  defines "c \<equiv> \<lparr>cRed = of_nat r, cGreen = of_nat g, cBlue = of_nat b, cAlpha = 1\<rparr>"
  shows "parseCssColor (colorString c) = Some c"
proof -
  let ?s = "''rgb('' @ channelText r g b @ '')''"
  have half: "\<lfloor>1 / 2 :: rat\<rfloor> = 0" by (simp add: floor_eq_iff)
  have s: "colorString c = ?s" by (simp add: colorString_def c_def channelText_def half)
  have trim: "jtrim ?s = ?s" unfolding jtrim_def by (rule trimBy_id) (simp_all add: isSpace_def code_def)
  have hex: "hexColor ?s = None" by (simp add: hexColor_def Let_def)
  have tr: "toLowerCase ?s \<noteq> ''transparent''" by (simp add: toLowerCase_def lowerChar_def isUpperAz_def code_def)
  have "startsWith ''rgb('' ?s" by (simp add: startsWith_def toLowerCase_def lowerChar_def isUpperAz_def code_def)
  then have "rgbBody ?s = Some (channelText r g b)" using channelText_bracketed by (simp add: rgbBody_def)
  moreover have "partsColor 255 [showNat r, showNat g, showNat b] = Some c"
    using assms(1) by (simp add: partsColor_def channel_number alphaChannel_def c_def)
  ultimately show ?thesis unfolding s parseCssColor_def Let_def trim hex using tr channelText_parts by simp
qed

theorem colorString_parse_witness:
  "parseCssColor (colorString \<lparr>cRed = of_nat 250, cGreen = of_nat 7, cBlue = of_nat 0, cAlpha = 1\<rparr>) =
    Some \<lparr>cRed = of_nat 250, cGreen = of_nat 7, cBlue = of_nat 0, cAlpha = 1\<rparr>"
  by (rule colorString_parse) simp

end
