(* ===== verification/ThemeWatch.thy ===== *)
theory ThemeWatch
  imports Theme
begin

text \<open>
  The theme of the page, \<open>lanspeed/theme.js\<close>, second part: which LuCI theme and colour mode is in use, the
  contrast-safe tokens written to the root of the page, and the watch that keeps them current. The
  document is an argument: what its selectors, attributes, computed styles and canvas answer.
\<close>

section \<open>The document\<close>

text \<open>\<open>dcNode\<close> is the computed style of a node, none when the node is missing or asking for it throws.\<close>

record theme_doc =
  dcView :: bool
  dcToken :: "string \<Rightarrow> string"
  dcCanvas :: "string \<Rightarrow> (8 word \<times> 8 word \<times> 8 word \<times> 8 word) option"
  dcNode :: "string \<Rightarrow> (string \<Rightarrow> string) option"
  dcAttr :: "string \<Rightarrow> string \<Rightarrow> string option"
  dcClass :: "string \<Rightarrow> string"
  dcHas :: "string \<Rightarrow> bool"
  dcMeta :: string
  dcPrefersDark :: bool

definition rasterizeCssColor :: "theme_doc \<Rightarrow> string \<Rightarrow> color option" where
  "rasterizeCssColor doc v = (case dcCanvas doc v of None \<Rightarrow> None
     | Some (r, g, b, a) \<Rightarrow> Some \<lparr>cRed = of_nat (unat r), cGreen = of_nat (unat g), cBlue = of_nat (unat b), cAlpha = of_nat (unat a) / 255\<rparr>)"

definition parseOrDraw :: "theme_doc \<Rightarrow> string \<Rightarrow> string \<Rightarrow> color option" where
  "parseOrDraw doc raw drawn = (case parseCssColor raw of Some c \<Rightarrow> Some c | None \<Rightarrow> rasterizeCssColor doc drawn)"

definition resolveAuroraToken :: "theme_doc \<Rightarrow> string \<Rightarrow> color option" where
  "resolveAuroraToken doc name = (let raw = dcToken doc name in
     if \<not> dcView doc \<or> raw = [] then None else parseOrDraw doc raw (jtrim raw))"

definition computedColor :: "theme_doc \<Rightarrow> string \<Rightarrow> string \<Rightarrow> color option" where
  "computedColor doc node property = (if \<not> dcView doc then None
     else (case dcNode doc node of None \<Rightarrow> None | Some style \<Rightarrow> parseOrDraw doc (style property) (style property)))"

definition surfaces :: "string list" where
  "surfaces = [''.main-right #maincontent'', ''.main-right'', ''body'', ''html'']"

definition sameColor :: "color \<Rightarrow> color \<Rightarrow> bool" where
  "sameColor x y \<longleftrightarrow> \<bar>cRed x - cRed y\<bar> < 1 \<and> \<bar>cGreen x - cGreen y\<bar> < 1 \<and> \<bar>cBlue x - cBlue y\<bar> < 1 \<and> \<bar>cAlpha x - cAlpha y\<bar> < 1 / 100"

definition addBackground :: "theme_doc \<Rightarrow> color list \<Rightarrow> string \<Rightarrow> color list" where
  "addBackground doc bs node = (case computedColor doc node ''backgroundColor'' of None \<Rightarrow> bs
     | Some b \<Rightarrow> if 1 / 100 < cAlpha b \<and> \<not> list_ex (\<lambda>e. sameColor e b) bs then bs @ [b] else bs)"

definition argonBackgrounds :: "theme_doc \<Rightarrow> color list" where
  "argonBackgrounds doc = (let found = foldl (addBackground doc) [] surfaces; bs = (if found = [] then [white] else found)
     in case computedColor doc ''body'' ''color'' of None \<Rightarrow> bs
        | Some t \<Rightarrow> bs @ concat (map (\<lambda>b. [compositeColor (t\<lparr>cAlpha := 2 / 100\<rparr>) b, compositeColor (t\<lparr>cAlpha := 5 / 100\<rparr>) b]) bs))"

section \<open>Theme and colour mode\<close>

definition hasAuroraAsset :: "theme_doc \<Rightarrow> bool" where
  "hasAuroraAsset doc = dcHas doc ''link[href*=\"/luci-static/aurora/\"]''"

definition hasArgonAsset :: "theme_doc \<Rightarrow> bool" where
  "hasArgonAsset doc \<longleftrightarrow> dcHas doc ''link[href*=\"/luci-static/argon/\"]'' \<or> dcHas doc ''script[src*=\"menu-argon.js\"]''"

definition hasBootstrapAsset :: "theme_doc \<Rightarrow> bool" where
  "hasBootstrapAsset doc \<longleftrightarrow> dcHas doc ''link[href*=\"/luci-static/bootstrap/\"]'' \<or>
     dcHas doc ''link[href*=\"/luci-static/bootstrap-dark/\"]'' \<or> dcHas doc ''link[href*=\"/luci-static/bootstrap-light/\"]''"

text \<open>\<open>/LuCI\s+Aurora/i\<close> somewhere in the name of the application, which covers the exact name.\<close>

fun auroraName :: "string \<Rightarrow> bool" where
  "auroraName [] = False"
| "auroraName (c # s) = (let r = drop 3 s in
     startsWith ''luci'' (c # s) \<and> r \<noteq> [] \<and> isSpace (hd r) \<and> startsWith ''aurora'' (dropWhile isSpace r) \<or> auroraName s)"

definition hasAuroraMeta :: "theme_doc \<Rightarrow> bool" where
  "hasAuroraMeta doc \<longleftrightarrow> dcMeta doc = ''LuCI Aurora'' \<or> auroraName (dcMeta doc)"

definition hasAuroraShell :: "theme_doc \<Rightarrow> bool" where
  "hasAuroraShell doc \<longleftrightarrow> dcAttr doc ''html'' ''data-darkmode'' \<noteq> None \<and> dcAttr doc ''body'' ''data-nav-type'' \<noteq> None \<and>
     list_ex (dcHas doc) [''.theme-switcher'', ''.sidebar-panel'', ''.desktop-menu-container'', ''#floating-toolbar'']"

definition isAurora :: "theme_doc \<Rightarrow> bool" where
  "isAurora doc \<longleftrightarrow> hasAuroraAsset doc \<or> hasAuroraMeta doc \<or> hasAuroraShell doc"

definition hasArgonShell :: "theme_doc \<Rightarrow> bool" where
  "hasArgonShell doc = list_all (dcHas doc) [''.main'', ''.main-left#mainmenu'', ''.main-right'', ''.darkMask'', ''#tabmenu'']"

definition isArgon :: "theme_doc \<Rightarrow> bool" where
  "isArgon doc \<longleftrightarrow> hasArgonAsset doc \<or> hasArgonShell doc"

definition isBootstrap :: "theme_doc \<Rightarrow> bool" where
  "isBootstrap doc = hasBootstrapAsset doc"

definition detect :: "theme_doc \<Rightarrow> string" where
  "detect doc = (if isAurora doc then ''aurora'' else if isArgon doc then ''argon'' else if isBootstrap doc then ''bootstrap'' else [])"

definition className :: "string \<Rightarrow> string" where
  "className theme = (if theme = ''aurora'' then ''lanspeed-theme-aurora'' else if theme = ''argon'' then ''lanspeed-theme-argon''
     else if theme = ''bootstrap'' then ''lanspeed-theme-bootstrap'' else [])"

definition wordMode :: "string \<Rightarrow> string" where
  "wordMode v = (if v = ''dark'' \<or> v = ''true'' then ''dark'' else if v = ''light'' \<or> v = ''false'' then ''light'' else [])"

definition attrText :: "theme_doc \<Rightarrow> string \<Rightarrow> string \<Rightarrow> string" where
  "attrText doc node a = (case dcAttr doc node a of None \<Rightarrow> [] | Some v \<Rightarrow> v)"

definition classMode :: "string \<Rightarrow> string" where
  "classMode cls = (let ws = splitWords isSpace (toLowerCase cls) in
     if list_ex (\<lambda>w. w \<in> {''dark'', ''dark-mode'', ''theme-dark''}) ws then ''dark''
     else if list_ex (\<lambda>w. w \<in> {''light'', ''light-mode'', ''theme-light''}) ws then ''light'' else [])"

definition firstMode :: "string list \<Rightarrow> string" where
  "firstMode ms = (case filter (\<lambda>m. m \<noteq> []) ms of m # _ \<Rightarrow> m | [] \<Rightarrow> [])"

definition explicitColorMode :: "theme_doc \<Rightarrow> string \<Rightarrow> string" where
  "explicitColorMode doc theme = (let
       node = (\<lambda>n. map (\<lambda>a. wordMode (toLowerCase (attrText doc n a))) [''data-color-mode'', ''data-theme'', ''data-mode'', ''data-darkmode''] @
         [classMode (dcClass doc n)]);
       own = attrText doc ''html'' ''data-darkmode''
     in firstMode (node ''html'' @ node ''body'' @
       (if theme = ''aurora'' then [if own = ''true'' then ''dark'' else if own = ''false'' then ''light'' else []] else [])))"

definition detectDarkSurface :: "(rat \<Rightarrow> rat) \<Rightarrow> theme_doc \<Rightarrow> bool option" where
  "detectDarkSurface pow doc = (let
       ls = List.map_filter (\<lambda>n. case computedColor doc n ''backgroundColor'' of None \<Rightarrow> None
         | Some b \<Rightarrow> if 1 / 100 < cAlpha b then Some (relativeLuminance pow b) else None) surfaces
     in if ls = [] then None else Some (foldl min (hd ls) (tl ls) < 35 / 100))"

definition detectColorMode :: "(rat \<Rightarrow> rat) \<Rightarrow> theme_doc \<Rightarrow> string \<Rightarrow> string" where
  "detectColorMode pow doc theme = (let explicit = explicitColorMode doc theme in
     if explicit \<noteq> [] then explicit
     else (case detectDarkSurface pow doc of Some dark \<Rightarrow> if dark then ''dark'' else ''light''
       | None \<Rightarrow> if dcPrefersDark doc then ''dark'' else []))"

section \<open>The root of the page\<close>

record theme_root =
  rtStyles :: "string \<rightharpoonup> string"
  rtMode :: "string option"
  rtTheme :: "string option"
  rtClasses :: "string list"
  rtEvents :: "(string \<times> string) list"

definition AURORA_CONTRAST_PROPERTIES :: "string list" where
  "AURORA_CONTRAST_PROPERTIES = [''--lanspeed-accent-safe'', ''--lanspeed-action-text-safe'', ''--lanspeed-action-hover-text-safe'',
     ''--lanspeed-normal-text-safe'', ''--lanspeed-focus-color-safe'', ''--lanspeed-warning-safe'', ''--lanspeed-danger-safe'',
     ''--lanspeed-info-safe'']"

definition ARGON_CONTRAST_PROPERTIES :: "string list" where
  "ARGON_CONTRAST_PROPERTIES = [''--lanspeed-accent-safe'', ''--lanspeed-action-text-safe'', ''--lanspeed-link-safe'',
     ''--lanspeed-normal-text-safe'', ''--lanspeed-switch-accent-safe'', ''--lanspeed-filled-action-safe'',
     ''--lanspeed-filled-action-text-safe'', ''--lanspeed-focus-color-safe'', ''--lanspeed-warning-safe'', ''--lanspeed-danger-safe'',
     ''--lanspeed-info-safe'']"

definition inlineStyleValue :: "theme_root \<Rightarrow> string \<Rightarrow> string" where
  "inlineStyleValue el name = (case rtStyles el name of None \<Rightarrow> [] | Some v \<Rightarrow> v)"

definition setInlineStyle :: "string \<Rightarrow> string \<Rightarrow> theme_root \<Rightarrow> theme_root" where
  "setInlineStyle name v el = (if jtrim (inlineStyleValue el name) \<noteq> jtrim v
     then el\<lparr>rtStyles := (rtStyles el)(name \<mapsto> v)\<rparr> else el)"

definition clearInlineStyle :: "string \<Rightarrow> theme_root \<Rightarrow> theme_root" where
  "clearInlineStyle name el = (if jtrim (inlineStyleValue el name) \<noteq> []
     then el\<lparr>rtStyles := (rtStyles el)(name := None)\<rparr> else el)"

definition setSafeColor :: "string \<Rightarrow> color option \<Rightarrow> theme_root \<Rightarrow> theme_root" where
  "setSafeColor name c el = (case c of Some x \<Rightarrow> setInlineStyle name (colorString x) el | None \<Rightarrow> clearInlineStyle name el)"

definition orElse :: "'a option \<Rightarrow> 'a option \<Rightarrow> 'a option" where
  "orElse a b = (case a of None \<Rightarrow> b | Some x \<Rightarrow> Some x)"

text \<open>The calls of \<open>setSafeColor\<close> of an update, in their order.\<close>

definition argonTokens :: "(rat \<Rightarrow> rat) \<Rightarrow> theme_doc \<Rightarrow> color \<Rightarrow> (string \<times> color option) list" where
  "argonTokens pow doc accent = (let bs = argonBackgrounds doc; safeAccent = safeInteractiveColor pow (Some accent) bs;
       soft = semanticBackgrounds (Some accent) bs (12 / 100); token = (\<lambda>n. orElse (resolveAuroraToken doc n) (Some accent));
       semantic = (\<lambda>n a. safeTextColor pow (token n) (semanticBackgrounds (token n) bs a))
     in [(''--lanspeed-accent-safe'', safeAccent), (''--lanspeed-link-safe'', safeTextColor pow (Some accent) bs),
         (''--lanspeed-normal-text-safe'', safeTextColor pow (Some accent) soft), (''--lanspeed-switch-accent-safe'', safeAccent),
         (''--lanspeed-filled-action-safe'', safeAccent), (''--lanspeed-focus-color-safe'', safeAccent),
         (''--lanspeed-action-text-safe'', safeActionText pow safeAccent soft),
         (''--lanspeed-filled-action-text-safe'', safeActionText pow safeAccent bs),
         (''--lanspeed-warning-safe'', semantic ''--warning'' (10 / 100)), (''--lanspeed-danger-safe'', semantic ''--danger'' (10 / 100)),
         (''--lanspeed-info-safe'', semantic ''--info'' (9 / 100))])"

definition argonAccent :: "theme_doc \<Rightarrow> string \<Rightarrow> color option" where
  "argonAccent doc mode = orElse (resolveAuroraToken doc (if mode = ''dark'' then ''--dark-primary'' else ''--primary''))
     (orElse (resolveAuroraToken doc ''--primary'') (resolveAuroraToken doc ''--default''))"

definition updateArgonContrastTokens :: "(rat \<Rightarrow> rat) \<Rightarrow> theme_doc \<Rightarrow> string \<Rightarrow> theme_root \<Rightarrow> theme_root" where
  "updateArgonContrastTokens pow doc mode el = (case argonAccent doc mode of
     None \<Rightarrow> fold clearInlineStyle ARGON_CONTRAST_PROPERTIES el
   | Some accent \<Rightarrow> fold (\<lambda>(n, c). setSafeColor n c) (argonTokens pow doc accent) el)"

definition auroraTokens :: "(rat \<Rightarrow> rat) \<Rightarrow> theme_doc \<Rightarrow> color \<Rightarrow> (string \<times> color option) list" where
  "auroraTokens pow doc brand = (let token = resolveAuroraToken doc; hover = (case token ''--brand-hover'' of None \<Rightarrow> brand | Some c \<Rightarrow> c);
       onBrand = token ''--on-brand''; txt = token ''--text'';
       surface = (case token ''--surface'' of None \<Rightarrow> white | Some c \<Rightarrow> c);
       overlay = (case token ''--surface-overlay'' of None \<Rightarrow> surface | Some c \<Rightarrow> c); bs = [surface, overlay];
       pick = (\<lambda>cs b. chooseAuroraForeground pow (cs @ [Some black, Some white]) b);
       semantic = (\<lambda>n. safeTextColor pow (orElse (token n) (Some brand)) bs)
     in [(''--lanspeed-action-text-safe'', pick [onBrand, txt, Some surface] (map (compositeColor brand) bs) (45 / 10)),
         (''--lanspeed-action-hover-text-safe'', pick [onBrand, txt, Some surface] (map (compositeColor hover) bs) (45 / 10)),
         (''--lanspeed-accent-safe'', safeInteractiveColor pow (Some brand) bs),
         (''--lanspeed-normal-text-safe'', case token ''--brand-subtle'' of None \<Rightarrow> None
            | Some subtle \<Rightarrow> pick [Some brand, txt, Some surface] (map (compositeColor subtle) bs) (45 / 10)),
         (''--lanspeed-focus-color-safe'', pick [Some brand, txt, onBrand] bs 3),
         (''--lanspeed-warning-safe'', semantic ''--warning''), (''--lanspeed-danger-safe'', semantic ''--danger''),
         (''--lanspeed-info-safe'', semantic ''--info'')])"

definition updateAuroraContrastTokens :: "(rat \<Rightarrow> rat) \<Rightarrow> theme_doc \<Rightarrow> theme_root \<Rightarrow> theme_root" where
  "updateAuroraContrastTokens pow doc el = (case resolveAuroraToken doc ''--brand'' of
     None \<Rightarrow> fold clearInlineStyle AURORA_CONTRAST_PROPERTIES el
   | Some brand \<Rightarrow> fold (\<lambda>(n, c). setSafeColor n c) (auroraTokens pow doc brand) el)"

definition clearAuroraContrastTokens :: "theme_root \<Rightarrow> theme_root" where
  "clearAuroraContrastTokens el = fold clearInlineStyle (AURORA_CONTRAST_PROPERTIES @ ARGON_CONTRAST_PROPERTIES) el"

definition updateColorMode :: "(rat \<Rightarrow> rat) \<Rightarrow> theme_doc \<Rightarrow> string \<Rightarrow> theme_root \<Rightarrow> theme_root" where
  "updateColorMode pow doc theme el = (let mode = detectColorMode pow doc theme;
       r = el\<lparr>rtMode := (if mode \<noteq> [] then Some mode else None)\<rparr>;
       s = (if theme = ''aurora'' then updateAuroraContrastTokens pow doc r
         else if theme = ''argon'' then updateArgonContrastTokens pow doc mode r else clearAuroraContrastTokens r)
     in s\<lparr>rtEvents := rtEvents s @ [(theme, mode)]\<rparr>)"

section \<open>The watch\<close>

text \<open>
  What of the browser calls the watch: the colour scheme, the mutation observer, the poll. With none of them the
  watch never runs again and is not kept.
\<close>

record watch_caps =
  wcMedia :: bool
  wcObserver :: bool
  wcPoll :: bool

record theme_watch =
  wtTheme :: string
  wtCaps :: watch_caps
  wtTimer :: bool

record theme_page =
  tpRoot :: theme_root
  tpWatch :: "theme_watch option"

text \<open>\<open>releaseColorMode\<close>: the clean-up disconnects everything and clears the pending timer.\<close>

definition releaseColorMode :: "theme_page \<Rightarrow> theme_page" where
  "releaseColorMode p = p\<lparr>tpWatch := None\<rparr>"

definition watchColorMode :: "(rat \<Rightarrow> rat) \<Rightarrow> watch_caps \<Rightarrow> theme_doc \<Rightarrow> string \<Rightarrow> theme_page \<Rightarrow> theme_page" where
  "watchColorMode pow caps doc theme p = (let q = p\<lparr>tpRoot := updateColorMode pow doc theme (tpRoot p)\<rparr> in
     if dcView doc \<and> (wcMedia caps \<or> wcObserver caps \<or> wcPoll caps)
     then q\<lparr>tpWatch := Some \<lparr>wtTheme = theme, wtCaps = caps, wtTimer = False\<rparr>\<rparr> else q)"

definition scheduleUpdate :: "theme_page \<Rightarrow> theme_page" where
  "scheduleUpdate p = (case tpWatch p of None \<Rightarrow> p | Some w \<Rightarrow> p\<lparr>tpWatch := Some (w\<lparr>wtTimer := True\<rparr>)\<rparr>)"

definition updateTimeout :: "(rat \<Rightarrow> rat) \<Rightarrow> theme_doc \<Rightarrow> theme_page \<Rightarrow> theme_page" where
  "updateTimeout pow doc p = (case tpWatch p of None \<Rightarrow> p
   | Some w \<Rightarrow> if \<not> wtTimer w then p
       else p\<lparr>tpRoot := updateColorMode pow doc (wtTheme w) (tpRoot p), tpWatch := Some (w\<lparr>wtTimer := False\<rparr>)\<rparr>)"

text \<open>The observer: a record that removes the root ends the watch, any other schedules an update.\<close>

definition mutated :: "bool \<Rightarrow> theme_page \<Rightarrow> theme_page" where
  "mutated removed p = (case tpWatch p of None \<Rightarrow> p
   | Some w \<Rightarrow> if \<not> wcObserver (wtCaps w) then p else if removed then releaseColorMode p else scheduleUpdate p)"

definition pollTick :: "theme_page \<Rightarrow> theme_page" where
  "pollTick p = (case tpWatch p of None \<Rightarrow> p | Some w \<Rightarrow> if wcPoll (wtCaps w) then scheduleUpdate p else p)"

definition mediaListener :: "theme_page \<Rightarrow> theme_page" where
  "mediaListener p = (case tpWatch p of None \<Rightarrow> p | Some w \<Rightarrow> if wcMedia (wtCaps w) then scheduleUpdate p else p)"

definition themeClasses :: "string list" where
  "themeClasses = [''lanspeed-theme-aurora'', ''lanspeed-theme-argon'', ''lanspeed-theme-bootstrap'']"

definition applyRoot :: "(rat \<Rightarrow> rat) \<Rightarrow> watch_caps \<Rightarrow> theme_doc \<Rightarrow> theme_page \<Rightarrow> theme_page" where
  "applyRoot pow caps doc p0 = (let p = releaseColorMode p0; theme = detect doc; r = clearAuroraContrastTokens (tpRoot p);
       bare = r\<lparr>rtClasses := filter (\<lambda>c. c \<notin> set themeClasses) (rtClasses r), rtTheme := None\<rparr>
     in if theme = [] then p\<lparr>tpRoot := bare\<rparr>
        else watchColorMode pow caps doc theme
          (p\<lparr>tpRoot := bare\<lparr>rtClasses := rtClasses bare @ [className theme], rtTheme := Some theme\<rparr>\<rparr>))"

definition releaseRoot :: "theme_page \<Rightarrow> theme_page" where
  "releaseRoot p = (let q = releaseColorMode p in q\<lparr>tpRoot := clearAuroraContrastTokens (tpRoot q)\<rparr>)"

inductive theme_run :: "(rat \<Rightarrow> rat) \<Rightarrow> theme_page \<Rightarrow> bool" for pow where
  created: "set classes \<inter> set themeClasses = {} \<Longrightarrow> theme_run pow \<lparr>tpRoot = \<lparr>rtStyles = Map.empty, rtMode = None, rtTheme = None,
     rtClasses = classes, rtEvents = []\<rparr>, tpWatch = None\<rparr>"
| applied: "theme_run pow p \<Longrightarrow> theme_run pow (applyRoot pow caps doc p)"
| released: "theme_run pow p \<Longrightarrow> theme_run pow (releaseRoot p)"
| timeout: "theme_run pow p \<Longrightarrow> theme_run pow (updateTimeout pow doc p)"
| mutation: "theme_run pow p \<Longrightarrow> theme_run pow (mutated removed p)"
| poll: "theme_run pow p \<Longrightarrow> theme_run pow (pollTick p)"
| media: "theme_run pow p \<Longrightarrow> theme_run pow (mediaListener p)"

section \<open>Writing tokens\<close>

definition stylesOk :: "(string \<rightharpoonup> string) \<Rightarrow> bool" where
  "stylesOk st \<longleftrightarrow> (\<forall>v \<in> ran st. jtrim v = v \<and> v \<noteq> [])"

lemma colorString_trim: "jtrim (colorString c) = colorString c \<and> colorString c \<noteq> []"
proof -
  have "hd (colorString c) = CHR ''r''" "last (colorString c) = CHR '')''" "colorString c \<noteq> []"
    by (simp_all add: colorString_def Let_def)
  then show ?thesis unfolding jtrim_def by (auto intro!: trimBy_id simp: isSpace_def code_def)
qed

lemma stylesOk_upd: "stylesOk st \<Longrightarrow> jtrim v = v \<Longrightarrow> v \<noteq> [] \<Longrightarrow> stylesOk (st(n \<mapsto> v))"
  by (auto simp: stylesOk_def ran_def)

lemma stylesOk_clear: "stylesOk st \<Longrightarrow> stylesOk (st(n := None))"
  by (auto simp: stylesOk_def ran_def)

lemma inline_trim: "stylesOk (rtStyles el) \<Longrightarrow> jtrim (inlineStyleValue el n) = inlineStyleValue el n"
  by (auto simp: inlineStyleValue_def stylesOk_def ran_def jtrim_def trimBy_def split: option.split)

lemma clearInlineStyle_eq:
  assumes "stylesOk (rtStyles el)"
  shows "clearInlineStyle n el = el\<lparr>rtStyles := (rtStyles el)(n := None)\<rparr>"
proof (cases "rtStyles el n")
  case None
  then have "(rtStyles el)(n := None) = rtStyles el" by auto
  then show ?thesis using None by (simp add: clearInlineStyle_def inlineStyleValue_def jtrim_def trimBy_def)
next
  case (Some v)
  then have "jtrim v = v \<and> v \<noteq> []" using assms by (auto simp: stylesOk_def ran_def)
  then show ?thesis using Some by (simp add: clearInlineStyle_def inlineStyleValue_def)
qed

lemma setSafeColor_eq:
  assumes "stylesOk (rtStyles el)"
  shows "setSafeColor n c el = el\<lparr>rtStyles := (rtStyles el)(n := map_option colorString c)\<rparr>"
proof (cases c)
  case None
  then show ?thesis by (simp add: setSafeColor_def clearInlineStyle_eq [OF assms])
next
  case (Some x)
  show ?thesis
  proof (cases "rtStyles el n = Some (colorString x)")
    case True
    then have "(rtStyles el)(n \<mapsto> colorString x) = rtStyles el" by auto
    then show ?thesis using Some True by (simp add: setSafeColor_def setInlineStyle_def inlineStyleValue_def)
  next
    case False
    have "inlineStyleValue el n \<noteq> colorString x"
      using False colorString_trim [of x] by (auto simp: inlineStyleValue_def split: option.split)
    then show ?thesis using Some inline_trim [OF assms] colorString_trim by (simp add: setSafeColor_def setInlineStyle_def)
  qed
qed

lemma setSafeColor_ok: "stylesOk (rtStyles el) \<Longrightarrow> stylesOk (rtStyles (setSafeColor n c el))"
  using colorString_trim by (cases c) (simp_all add: setSafeColor_eq stylesOk_upd stylesOk_clear)

lemma clears_eq:
  "stylesOk (rtStyles el) \<Longrightarrow> fold clearInlineStyle ns el = el\<lparr>rtStyles := (\<lambda>n. if n \<in> set ns then None else rtStyles el n)\<rparr> \<and>
    stylesOk (rtStyles (fold clearInlineStyle ns el))"
proof (induction ns arbitrary: el)
  case (Cons m ns)
  have ok: "stylesOk (rtStyles (clearInlineStyle m el))" using Cons.prems by (simp add: clearInlineStyle_eq stylesOk_clear)
  have rt: "(\<lambda>n. if n \<in> set ns then None else rtStyles (clearInlineStyle m el) n) = (\<lambda>n. if n \<in> set (m # ns) then None else rtStyles el n)"
    by (auto simp: clearInlineStyle_eq [OF Cons.prems])
  have same: "(clearInlineStyle m el)\<lparr>rtStyles := st\<rparr> = el\<lparr>rtStyles := st\<rparr>" for st
    by (simp add: clearInlineStyle_eq [OF Cons.prems])
  have step: "fold clearInlineStyle (m # ns) el = fold clearInlineStyle ns (clearInlineStyle m el)" by simp
  show ?case using Cons.IH [OF ok] unfolding rt same step .
qed simp

lemma sets_eq:
  "stylesOk (rtStyles el) \<Longrightarrow> distinct (map fst cs) \<Longrightarrow>
    fold (\<lambda>(n, c). setSafeColor n c) cs el =
      el\<lparr>rtStyles := (\<lambda>n. case map_of cs n of None \<Rightarrow> rtStyles el n | Some c \<Rightarrow> map_option colorString c)\<rparr> \<and>
    stylesOk (rtStyles (fold (\<lambda>(n, c). setSafeColor n c) cs el))"
proof (induction cs arbitrary: el)
  case (Cons p cs)
  obtain m d where p: "p = (m, d)" by fastforce
  have ok: "stylesOk (rtStyles (setSafeColor m d el))" using Cons.prems setSafeColor_ok by blast
  have "map_of cs m = None" using Cons.prems(2) by (auto simp: p map_of_eq_None_iff)
  then have rt: "(\<lambda>n. case map_of cs n of None \<Rightarrow> rtStyles (setSafeColor m d el) n | Some c \<Rightarrow> map_option colorString c) =
      (\<lambda>n. case map_of (p # cs) n of None \<Rightarrow> rtStyles el n | Some c \<Rightarrow> map_option colorString c)"
    using Cons.prems(1) by (auto simp: fun_eq_iff p setSafeColor_eq split: option.split)
  have same: "(setSafeColor m d el)\<lparr>rtStyles := st\<rparr> = el\<lparr>rtStyles := st\<rparr>" for st
    using Cons.prems(1) by (simp add: setSafeColor_eq)
  have "distinct (map fst cs)" using Cons.prems(2) by (simp add: p)
  have step: "fold (\<lambda>(n, c). setSafeColor n c) (p # cs) el = fold (\<lambda>(n, c). setSafeColor n c) cs (setSafeColor m d el)"
    by (simp add: p)
  show ?case using Cons.IH [OF ok \<open>distinct (map fst cs)\<close>] unfolding rt same step .
qed simp

section \<open>The tokens of a theme\<close>

text \<open>What the tokens should be: a function of the document, the theme and the colour mode alone.\<close>

definition tokenNames :: "string \<Rightarrow> string set" where
  "tokenNames theme = (if theme = ''aurora'' then set AURORA_CONTRAST_PROPERTIES
     else if theme = ''argon'' then set ARGON_CONTRAST_PROPERTIES else {})"

definition safeTokens :: "(rat \<Rightarrow> rat) \<Rightarrow> theme_doc \<Rightarrow> string \<Rightarrow> string \<Rightarrow> string \<Rightarrow> color option" where
  "safeTokens pow doc theme mode name = (let
       tokens = (if theme = ''aurora'' then (case resolveAuroraToken doc ''--brand'' of None \<Rightarrow> [] | Some b \<Rightarrow> auroraTokens pow doc b)
         else if theme = ''argon'' then (case argonAccent doc mode of None \<Rightarrow> [] | Some a \<Rightarrow> argonTokens pow doc a) else [])
     in case map_of tokens name of None \<Rightarrow> None | Some c \<Rightarrow> c)"

lemma argonTokens_names: "map fst (argonTokens pow doc a) = [''--lanspeed-accent-safe'', ''--lanspeed-link-safe'', ''--lanspeed-normal-text-safe'',
    ''--lanspeed-switch-accent-safe'', ''--lanspeed-filled-action-safe'', ''--lanspeed-focus-color-safe'', ''--lanspeed-action-text-safe'',
    ''--lanspeed-filled-action-text-safe'', ''--lanspeed-warning-safe'', ''--lanspeed-danger-safe'', ''--lanspeed-info-safe'']"
  by (simp add: argonTokens_def Let_def)

lemma auroraTokens_names: "map fst (auroraTokens pow doc b) = [''--lanspeed-action-text-safe'', ''--lanspeed-action-hover-text-safe'',
    ''--lanspeed-accent-safe'', ''--lanspeed-normal-text-safe'', ''--lanspeed-focus-color-safe'', ''--lanspeed-warning-safe'',
    ''--lanspeed-danger-safe'', ''--lanspeed-info-safe'']"
  by (simp add: auroraTokens_def Let_def)

lemma argon_all: "fst ` set (argonTokens pow doc a) = set ARGON_CONTRAST_PROPERTIES" "distinct (map fst (argonTokens pow doc a))"
proof -
  have "fst ` set (argonTokens pow doc a) = set (map fst (argonTokens pow doc a))" by simp
  then show "fst ` set (argonTokens pow doc a) = set ARGON_CONTRAST_PROPERTIES"
    unfolding argonTokens_names ARGON_CONTRAST_PROPERTIES_def by auto
  show "distinct (map fst (argonTokens pow doc a))" unfolding argonTokens_names by simp
qed

lemma aurora_all: "fst ` set (auroraTokens pow doc b) = set AURORA_CONTRAST_PROPERTIES" "distinct (map fst (auroraTokens pow doc b))"
proof -
  have "fst ` set (auroraTokens pow doc b) = set (map fst (auroraTokens pow doc b))" by simp
  then show "fst ` set (auroraTokens pow doc b) = set AURORA_CONTRAST_PROPERTIES"
    unfolding auroraTokens_names AURORA_CONTRAST_PROPERTIES_def by auto
  show "distinct (map fst (auroraTokens pow doc b))" unfolding auroraTokens_names by simp
qed

section \<open>The page in any run\<close>

lemma clearAll_eq:
  assumes "stylesOk (rtStyles el)" "dom (rtStyles el) \<subseteq> tokenNames t"
  shows "clearAuroraContrastTokens el = el\<lparr>rtStyles := Map.empty\<rparr>"
proof -
  have "tokenNames t \<subseteq> set (AURORA_CONTRAST_PROPERTIES @ ARGON_CONTRAST_PROPERTIES)" by (auto simp: tokenNames_def)
  then have "(\<lambda>n. if n \<in> set (AURORA_CONTRAST_PROPERTIES @ ARGON_CONTRAST_PROPERTIES) then None else rtStyles el n) = Map.empty"
    using assms(2) by (auto simp: fun_eq_iff domIff)
  then show ?thesis using clears_eq [OF assms(1), of "AURORA_CONTRAST_PROPERTIES @ ARGON_CONTRAST_PROPERTIES"]
    unfolding clearAuroraContrastTokens_def by presburger
qed

lemma tokens_written:
  assumes "stylesOk (rtStyles el)" "dom (rtStyles el) \<subseteq> N" "fst ` set cs = N" "distinct (map fst cs)"
  shows "fold (\<lambda>(n, c). setSafeColor n c) cs el =
    el\<lparr>rtStyles := (\<lambda>n. map_option colorString (case map_of cs n of None \<Rightarrow> None | Some c \<Rightarrow> c))\<rparr>"
proof -
  have "rtStyles el n = None" if "map_of cs n = None" for n
    using that assms(2,3) by (auto simp: map_of_eq_None_iff)
  then have "(\<lambda>n. case map_of cs n of None \<Rightarrow> rtStyles el n | Some c \<Rightarrow> map_option colorString c) =
      (\<lambda>n. map_option colorString (case map_of cs n of None \<Rightarrow> None | Some c \<Rightarrow> c))"
    by (auto simp: fun_eq_iff split: option.split)
  then show ?thesis using sets_eq [OF assms(1,4)] by presburger
qed

lemma tokens_cleared:
  assumes "stylesOk (rtStyles el)" "dom (rtStyles el) \<subseteq> set ns"
  shows "fold clearInlineStyle ns el = el\<lparr>rtStyles := Map.empty\<rparr>"
proof -
  have "(\<lambda>n. if n \<in> set ns then None else rtStyles el n) = Map.empty" using assms(2) by (auto simp: fun_eq_iff domIff)
  then show ?thesis using clears_eq [OF assms(1), of ns] by presburger
qed

lemma updateColorMode_eq:
  assumes "stylesOk (rtStyles el)" "dom (rtStyles el) \<subseteq> tokenNames theme"
  shows "updateColorMode pow doc theme el = (let mode = detectColorMode pow doc theme in
    el\<lparr>rtStyles := (\<lambda>n. map_option colorString (safeTokens pow doc theme mode n)), rtMode := (if mode \<noteq> [] then Some mode else None),
       rtEvents := rtEvents el @ [(theme, mode)]\<rparr>)"
proof -
  define mode where "mode = detectColorMode pow doc theme"
  define r where "r = el\<lparr>rtMode := (if mode \<noteq> [] then Some mode else None)\<rparr>"
  have r: "stylesOk (rtStyles r)" "dom (rtStyles r) \<subseteq> tokenNames theme" using assms by (simp_all add: r_def)
  have main: "(if theme = ''aurora'' then updateAuroraContrastTokens pow doc r
      else if theme = ''argon'' then updateArgonContrastTokens pow doc mode r else clearAuroraContrastTokens r) =
    r\<lparr>rtStyles := (\<lambda>n. map_option colorString (safeTokens pow doc theme mode n))\<rparr>"
  proof -
    consider "theme = ''aurora''" | "theme = ''argon''" | "theme \<noteq> ''aurora''" "theme \<noteq> ''argon''" by blast
    then show ?thesis
    proof cases
      case 1
      then have d: "dom (rtStyles r) \<subseteq> set AURORA_CONTRAST_PROPERTIES" using r(2) by (simp add: tokenNames_def)
      show ?thesis
      proof (cases "resolveAuroraToken doc ''--brand''")
        case None
        then show ?thesis using 1 tokens_cleared [OF r(1) d] by (simp add: updateAuroraContrastTokens_def safeTokens_def)
      next
        case (Some b)
        then show ?thesis using 1 tokens_written [OF r(1) d aurora_all]
          by (simp add: updateAuroraContrastTokens_def safeTokens_def)
      qed
    next
      case 2
      then have d: "dom (rtStyles r) \<subseteq> set ARGON_CONTRAST_PROPERTIES" using r(2) by (simp add: tokenNames_def)
      show ?thesis
      proof (cases "argonAccent doc mode")
        case None
        then show ?thesis using 2 tokens_cleared [OF r(1) d] by (simp add: updateArgonContrastTokens_def safeTokens_def)
      next
        case (Some b)
        then show ?thesis using 2 tokens_written [OF r(1) d argon_all]
          by (simp add: updateArgonContrastTokens_def safeTokens_def)
      qed
    next
      case 3
      then show ?thesis using clearAll_eq [OF r] by (simp add: safeTokens_def)
    qed
  qed
  show ?thesis unfolding updateColorMode_def Let_def mode_def [symmetric] r_def [symmetric] main by (simp add: r_def)
qed

lemma safeTokens_names: "safeTokens pow doc theme mode n \<noteq> None \<Longrightarrow> n \<in> tokenNames theme"
proof -
  assume "safeTokens pow doc theme mode n \<noteq> None"
  then have "n \<in> (if theme = ''aurora'' then (case resolveAuroraToken doc ''--brand'' of None \<Rightarrow> {} | Some b \<Rightarrow> fst ` set (auroraTokens pow doc b))
      else if theme = ''argon'' then (case argonAccent doc mode of None \<Rightarrow> {} | Some a \<Rightarrow> fst ` set (argonTokens pow doc a)) else {})"
    by (auto simp: safeTokens_def Let_def split: option.splits if_splits dest!: map_of_SomeD intro: rev_image_eqI)
  then show ?thesis unfolding aurora_all argon_all by (auto simp: tokenNames_def split: option.splits if_splits)
qed

definition themeOk :: "theme_page \<Rightarrow> bool" where
  "themeOk p \<longleftrightarrow> (let el = tpRoot p; t = (case rtTheme el of None \<Rightarrow> [] | Some t \<Rightarrow> t) in
     stylesOk (rtStyles el) \<and> dom (rtStyles el) \<subseteq> tokenNames t \<and> rtTheme el \<noteq> Some [] \<and>
     set (rtClasses el) \<inter> set themeClasses = set (filter (\<lambda>c. c \<noteq> []) [className t]) \<and>
     (case tpWatch p of None \<Rightarrow> True | Some w \<Rightarrow> rtTheme el = Some (wtTheme w)))"

lemma themeOk_parts:
  assumes "themeOk p"
  shows "stylesOk (rtStyles (tpRoot p))" "dom (rtStyles (tpRoot p)) \<subseteq> tokenNames (case rtTheme (tpRoot p) of None \<Rightarrow> [] | Some t \<Rightarrow> t)"
    "tpWatch p = Some w \<Longrightarrow> rtTheme (tpRoot p) = Some (wtTheme w)"
  using assms by (auto simp: themeOk_def Let_def split: option.splits)

lemma update_ok:
  assumes "stylesOk (rtStyles el)" "dom (rtStyles el) \<subseteq> tokenNames theme"
  shows "stylesOk (rtStyles (updateColorMode pow doc theme el)) \<and> dom (rtStyles (updateColorMode pow doc theme el)) \<subseteq> tokenNames theme \<and>
    rtTheme (updateColorMode pow doc theme el) = rtTheme el \<and> rtClasses (updateColorMode pow doc theme el) = rtClasses el"
proof -
  have "stylesOk (\<lambda>n. map_option colorString (safeTokens pow doc theme mode n))" for mode
    using colorString_trim by (auto simp: stylesOk_def ran_def)
  moreover have "dom (\<lambda>n. map_option colorString (safeTokens pow doc theme mode n)) \<subseteq> tokenNames theme" for mode
    using safeTokens_names by (fastforce simp: dom_def)
  ultimately show ?thesis by (simp add: updateColorMode_eq [OF assms] Let_def)
qed

lemma className_theme: "set (filter (\<lambda>c. c \<noteq> []) [className t]) \<subseteq> set themeClasses"
  by (simp add: className_def themeClasses_def)

lemma no_names: "tokenNames [] = {}"
  by (simp add: tokenNames_def)

lemma empty_ok: "stylesOk Map.empty"
  by (simp add: stylesOk_def)

lemma applyRoot_ok:
  assumes "themeOk p"
  shows "themeOk (applyRoot pow caps doc p)"
proof -
  define r where "r = clearAuroraContrastTokens (tpRoot p)"
  have r: "r = (tpRoot p)\<lparr>rtStyles := Map.empty\<rparr>" unfolding r_def by (rule clearAll_eq [OF themeOk_parts(1,2) [OF assms]])
  define bare where "bare = r\<lparr>rtClasses := filter (\<lambda>c. c \<notin> set themeClasses) (rtClasses r), rtTheme := None\<rparr>"
  have bare: "rtStyles bare = Map.empty" "set (rtClasses bare) \<inter> set themeClasses = {}" "rtTheme bare = None"
    by (auto simp: bare_def r)
  define el where "el = bare\<lparr>rtClasses := rtClasses bare @ [className (detect doc)], rtTheme := Some (detect doc)\<rparr>"
  have el: "stylesOk (rtStyles el)" "dom (rtStyles el) \<subseteq> tokenNames (detect doc)" using bare(1) empty_ok by (simp_all add: el_def)
  show ?thesis
  proof (cases "detect doc = []")
    case True
    then have "applyRoot pow caps doc p = (releaseColorMode p)\<lparr>tpRoot := bare\<rparr>"
      by (simp add: applyRoot_def Let_def releaseColorMode_def r_def bare_def)
    then show ?thesis using bare by (simp add: themeOk_def Let_def releaseColorMode_def empty_ok className_def)
  next
    case False
    let ?el = "updateColorMode pow doc (detect doc) el"
    have same: "applyRoot pow caps doc p = (releaseColorMode p)\<lparr>tpRoot := ?el, tpWatch := (if dcView doc \<and> (wcMedia caps \<or> wcObserver caps \<or> wcPoll caps)
        then Some \<lparr>wtTheme = detect doc, wtCaps = caps, wtTimer = False\<rparr> else None)\<rparr>"
      using False by (simp add: applyRoot_def Let_def releaseColorMode_def r_def bare_def el_def watchColorMode_def)
    have u: "stylesOk (rtStyles ?el)" "dom (rtStyles ?el) \<subseteq> tokenNames (detect doc)" "rtTheme ?el = Some (detect doc)"
      "rtClasses ?el = rtClasses bare @ [className (detect doc)]"
      using update_ok [OF el] by (simp_all add: el_def)
    have "set (rtClasses ?el) \<inter> set themeClasses = set (filter (\<lambda>c. c \<noteq> []) [className (detect doc)])"
      using u(4) bare(2) False by (auto simp: className_def themeClasses_def detect_def split: if_splits)
    then show ?thesis unfolding same using u False by (simp add: themeOk_def Let_def)
  qed
qed

lemma updateTimeout_ok:
  assumes "themeOk p"
  shows "themeOk (updateTimeout pow doc p)"
proof (cases "tpWatch p")
  case (Some w)
  have t: "rtTheme (tpRoot p) = Some (wtTheme w)" by (rule themeOk_parts(3) [OF assms Some])
  have el: "stylesOk (rtStyles (tpRoot p))" "dom (rtStyles (tpRoot p)) \<subseteq> tokenNames (wtTheme w)"
    using themeOk_parts(1,2) [OF assms] t by simp_all
  show ?thesis using assms Some t update_ok [OF el, of pow doc] by (simp add: updateTimeout_def themeOk_def Let_def)
qed (use assms in \<open>simp add: updateTimeout_def\<close>)

lemma themeOk_watch:
  assumes "themeOk p" "tpRoot q = tpRoot p"
    "case tpWatch q of None \<Rightarrow> True | Some w \<Rightarrow> rtTheme (tpRoot p) = Some (wtTheme w)"
  shows "themeOk q"
  using assms(1,3) unfolding themeOk_def Let_def assms(2) by blast

lemma release_ok: "themeOk p \<Longrightarrow> themeOk (releaseColorMode p)"
  by (rule themeOk_watch [of p]) (simp_all add: releaseColorMode_def)

lemma schedule_ok: "themeOk p \<Longrightarrow> themeOk (scheduleUpdate p)"
  by (rule themeOk_watch [of p]) (auto simp: scheduleUpdate_def split: option.split dest: themeOk_parts(3))

lemma releaseRoot_eq:
  assumes "themeOk p"
  shows "releaseRoot p = p\<lparr>tpRoot := (tpRoot p)\<lparr>rtStyles := Map.empty\<rparr>, tpWatch := None\<rparr>"
  using clearAll_eq [OF themeOk_parts(1,2) [OF assms]] by (simp add: releaseRoot_def Let_def releaseColorMode_def)

lemma theme_run_ok: "theme_run pow p \<Longrightarrow> themeOk p"
proof (induction rule: theme_run.induct)
  case (created classes)
  then show ?case by (simp add: themeOk_def Let_def empty_ok className_def)
next
  case (released p)
  then show ?case using releaseRoot_eq [of p] by (simp add: themeOk_def Let_def empty_ok)
next
  case (mutation p removed)
  then show ?case by (cases "tpWatch p") (simp_all add: mutated_def release_ok schedule_ok)
next
  case (poll p)
  then show ?case by (cases "tpWatch p") (simp_all add: pollTick_def schedule_ok)
next
  case (media p)
  then show ?case by (cases "tpWatch p") (simp_all add: mediaListener_def schedule_ok)
qed (simp_all add: applyRoot_ok updateTimeout_ok)

text \<open>C33: however often the theme is applied, updated and released, the root of the page carries only the safe tokens and the
  class of the theme it is marked with, the watch belongs to that theme, and releasing the root leaves
  neither a token nor a watch behind.\<close>

theorem theme_run_invariant:
  assumes "theme_run pow p"
  defines "t \<equiv> (case rtTheme (tpRoot p) of None \<Rightarrow> [] | Some t \<Rightarrow> t)"
  shows "dom (rtStyles (tpRoot p)) \<subseteq> tokenNames t \<and>
    set (rtClasses (tpRoot p)) \<inter> set themeClasses = set (filter (\<lambda>c. c \<noteq> []) [className t]) \<and>
    (case tpWatch p of None \<Rightarrow> True | Some w \<Rightarrow> wtTheme w = t) \<and>
    rtStyles (tpRoot (releaseRoot p)) = Map.empty \<and> tpWatch (releaseRoot p) = None"
proof -
  have ok: "themeOk p" by (rule theme_run_ok [OF assms(1)])
  then show ?thesis using releaseRoot_eq [OF ok] by (auto simp: themeOk_def Let_def t_def split: option.splits)
qed

definition sampleDoc :: theme_doc where
  "sampleDoc = \<lparr>dcView = True, dcToken = (\<lambda>n. if n = ''--brand'' then ''#0088cc'' else []), dcCanvas = (\<lambda>v. None),
     dcNode = (\<lambda>n. None), dcAttr = (\<lambda>n a. None), dcClass = (\<lambda>n. []), dcHas = (\<lambda>s. False), dcMeta = ''LuCI Aurora'', dcPrefersDark = False\<rparr>"

definition samplePage :: theme_page where
  "samplePage = applyRoot (\<lambda>x. x) \<lparr>wcMedia = False, wcObserver = True, wcPoll = True\<rparr> sampleDoc
     \<lparr>tpRoot = \<lparr>rtStyles = Map.empty, rtMode = None, rtTheme = None, rtClasses = [''cbi-map''], rtEvents = []\<rparr>, tpWatch = None\<rparr>"

lemma sample_theme: "theme_run (\<lambda>x. x) samplePage"
  unfolding samplePage_def by (intro theme_run.applied theme_run.created) (simp add: themeClasses_def)

theorem theme_run_invariant_witness: "rtStyles (tpRoot (releaseRoot samplePage)) = Map.empty"
  using theme_run_invariant [OF sample_theme] by blast

text \<open>C32: one tick of the poll and its timer bring the page up to date: whatever it showed before, the tokens are those the
  document gives now for its theme, without a trace of older ones, and so is the colour mode.\<close>

theorem theme_becomes_current:
  assumes "theme_run pow p" "tpWatch p = Some w" "wcPoll (wtCaps w)"
  shows "let el = tpRoot (updateTimeout pow doc (pollTick p)); mode = detectColorMode pow doc (wtTheme w) in
    rtStyles el = (\<lambda>n. map_option colorString (safeTokens pow doc (wtTheme w) mode n)) \<and>
    rtMode el = (if mode \<noteq> [] then Some mode else None) \<and> rtTheme el = Some (wtTheme w)"
proof -
  have ok: "themeOk p" by (rule theme_run_ok [OF assms(1)])
  have t: "rtTheme (tpRoot p) = Some (wtTheme w)" by (rule themeOk_parts(3) [OF ok assms(2)])
  have el: "stylesOk (rtStyles (tpRoot p))" "dom (rtStyles (tpRoot p)) \<subseteq> tokenNames (wtTheme w)"
    using themeOk_parts(1,2) [OF ok] t by simp_all
  show ?thesis using assms(2,3) t
    by (simp add: pollTick_def scheduleUpdate_def updateTimeout_def updateColorMode_eq [OF el] Let_def)
qed

theorem theme_becomes_current_witness:
  "rtTheme (tpRoot (updateTimeout (\<lambda>x. x) sampleDoc (pollTick samplePage))) = Some ''aurora''"
proof -
  obtain w where w: "tpWatch samplePage = Some w" "wcPoll (wtCaps w)" "wtTheme w = ''aurora''"
  proof -
    have d: "detect sampleDoc = ''aurora''" by (simp add: detect_def isAurora_def hasAuroraMeta_def sampleDoc_def)
    have "dcView sampleDoc" by (simp add: sampleDoc_def)
    then have "tpWatch samplePage = Some \<lparr>wtTheme = ''aurora'', wtCaps = \<lparr>wcMedia = False, wcObserver = True, wcPoll = True\<rparr>, wtTimer = False\<rparr>"
      by (simp add: samplePage_def applyRoot_def Let_def d watchColorMode_def)
    then show ?thesis using that by simp
  qed
  from theme_becomes_current [OF sample_theme w(1,2), of sampleDoc] w(3) show ?thesis by (simp add: Let_def)
qed

end
