(* ===== verification/Spec2Isabelle.thy ===== *)
theory Spec2Isabelle
  imports Format Vocab ConfigModel IfaceConfig StatusIp ClientConnections ClientControl DhcpHostnames StatusRateMeta
    DiagRefresh DetailPage StatusTable ConfigSave ThemeWatch
begin

text \<open>
  Verification of the LuCI front end of LAN Speed.

  \<^bold>\<open>The program.\<close> LAN Speed shows, on an OpenWrt router, the rate of every client of the LAN. A
  daemon answers RPCs; the pages are JavaScript modules loaded by LuCI, in
  \<open>src/luci-app-lanspeed/applications/luci-app-lanspeed/htdocs/luci-static/resources/lanspeed\<close>. Three pages
  share them: the overview (clients, rates, limits, blocking, host names, the connections of
  one client and where their peers are), the configuration (options of the daemon and the
  interfaces it collects on) and the diagnostics (six RPCs, validated and kept for a while).
  The modules below \<open>view\<close> of that directory, the shells and the styles only build DOM nodes from
  what the modelled modules compute.

  \<^bold>\<open>The prelude.\<close> \<open>JsBase\<close> is the fragment of JavaScript the modules use: numbers, strings, values,
  property access with the members inherited from \<open>Object.prototype\<close>, conversions, and the
  lemmas on numerals, splitting and first-occurrence filtering. \<open>JsSort\<close> is
  \<open>Array.prototype.sort\<close> with a comparator: the locale \<open>js_comparator\<close> states what a
  comparator must satisfy, and proves there that the result is sorted and stable; it is
  interpreted on the comparators of the program. \<open>Ipv6\<close> has the 128-bit view of an address and
  the locale \<open>ipv6_parser\<close>, interpreted on the three address parsers of the program.

  \<^bold>\<open>Theories and sources.\<close>
  \<^item> \<open>Format\<close> (\<open>format.js\<close>): refresh periods, client activity, order and pages of the client
    table, preferences in \<open>localStorage\<close>. Sorting is a permutation ordered by its
    comparator with active clients first; the pages partition the table; whatever the storage
    holds, the preferences are valid, and saved preferences are read back.
  \<^item> \<open>LiveData\<close>, \<open>LiveController\<close> (\<open>statusOverview.js\<close>) and \<open>StatusTable\<close> (\<open>statusRefresh.js\<close>): the
    overview. A refresh validates each source, falls back to its last success and shows samples
    only when their clocks belong together; the controller is a state machine over clicks, timers,
    answers and leaving the page, with at most one request under way and the timer running
    whenever it should; the table shows every matching client once and keeps its nodes.
  \<^item> \<open>Vocab\<close> (\<open>vocab.js\<close>, \<open>statusCollector.js\<close>): warning identifiers, their aliases, labels and
    classes. The tables are complete and the important warnings are listed once.
  \<^item> \<open>ConfigPlatform\<close> (\<open>configPlatform*.js\<close>) and \<open>ConfigModel\<close> (\<open>configModel.js\<close>): the options of the
    daemon. Every content of the file or of the form is normalised into the domain of each
    option; a validated configuration can run; a save writes exactly the normalised values, and
    reading the file back gives them again; off NSS no NSS option is written.
  \<^item> \<open>IfaceConfig\<close> (\<open>ifaceConfig.js\<close>): the interface section as a state machine over scans, clicks,
    verifications and saves, and the plan of a save. Scan answers are typed; at most one scan is
    in flight and never over unsaved edits; a save keeps absent interfaces and is a fixed point.
    Two findings are proved on reachable views.
  \<^item> \<open>ConfigForm\<close> and \<open>ConfigSave\<close> (\<open>configForm.js\<close>, \<open>configView.js\<close>): the configuration page. The
    form as values of its inputs, switches and ranges; loading, editing, saving, resetting,
    rolling back, applying and verifying as a state machine over the user's events and the promises of
    the store, of the status RPC and of the scans. The page is busy exactly while a write
    is in flight; a refused save is undone; a staged save is read back; filling the form and
    reading it is the identity on the options; what follows a write ends after at most 19 events.
  \<^item> \<open>StatusIp\<close> (\<open>statusIp.js\<close>): the addresses of a client and the hidden IPv6 ranges. The
    word-wise comparison is the comparison of prefixes of 128-bit numbers, and the ranges accepted by
    the configuration are understood by the overview.
  \<^item> \<open>ClientConnections\<close> (\<open>clientConnections.js\<close>): the link to the details of a client, and the
    connections grouped by peer. The link is read back; grouping loses and duplicates nothing.
  \<^item> \<open>ClientControl\<close> (\<open>clientControl*.js\<close>): limits and blocking. The dialog sends back the rule
    it was opened with; busy marks are exactly the requests in flight and are cleared by their answers.
  \<^item> \<open>DhcpHostnames\<close> (\<open>dhcpHostnames.js\<close>): host names in the DHCP configuration. A save writes
    only the section of its client; errors are exactly the listed ones.
  \<^item> \<open>StatusRateMeta\<close> (\<open>statusRateMeta.js\<close>): badges of the rate sources.
  \<^item> \<open>DiagSchema\<close> (\<open>diagnosticsSchema.js\<close>) and \<open>DiagResources\<close> (\<open>diagnosticsResources.js\<close>): the
    validators refine a declarative contract, and over any sequence of refreshes every value
    shown has passed its validator and is at most two minutes old. A call resolves once; a
    client list with a null entry is shown to leave its call unresolved.
  \<^item> \<open>DiagFacts\<close>, \<open>DiagStates\<close>, \<open>DiagCards\<close>, \<open>DiagWarnings\<close> and \<open>DiagCurrent\<close>
    (\<open>diagnosticsStates.js\<close>): what the client list says about the rates, the cards of the
    diagnostics page and its warnings. The facts count every direction once; a good card rests on
    answers of the last check and on complete facts; on NSS no failed call goes unreported. Two
    findings are proved on concrete answers.
  \<^item> \<open>DiagController\<close> (\<open>diagnosticsView.js\<close>) and \<open>DiagRefresh\<close> (\<open>diagnosticsRefresh.js\<close>,
    \<open>diagnosticsModel.js\<close>): the diagnostics page as a step relation over clicks, timers and the events
    of the six calls, and what it shows. At most one check is under way and the buttons say so;
    good cards and green stages rest on the last check, also while the next one runs; a check ends
    by its timers alone unless the client list hangs, and then the page is proved to be stuck for
    ever. Two more findings are proved on what the page shows.
  \<^item> \<open>ClientDetail\<close> (\<open>clientDetailRefresh.js\<close>), \<open>DetailController\<close> (\<open>clientDetailView.js\<close>) and
    \<open>DetailPage\<close>: the page of one client, which composes the connections, the lookups of locations, the host
    names and the preferences. What it shows is a function of its state; its events are a step
    relation. The timer and the menu of periods follow the state in every run, the preferences are read back
    by the next page, an open batch of lookups is never stuck, the pages cover the table, and a save of
    the host name writes only the section of the client and reports its failure.
  \<^item> \<open>Theme\<close> and \<open>ThemeWatch\<close> (\<open>theme.js\<close>): which theme and colour mode of LuCI is in use and the colours the
    page derives from it. Colours that cannot be read on their background are moved no further than
    needed towards black or white, and on backgrounds of one luminance every text that results has the contrast
    WCAG asks for; in every run of the watch the root carries the tokens of its own theme only, and a
    tick of the poll makes them current.
  \<^item> \<open>GeoAddress\<close> and \<open>GeoResolver\<close> (\<open>geoLocation.js\<close>): an address is sent to a geolocation
    service exactly when it is public by the reference blocks; under every interleaving of lookups,
    answers and disposal at most four requests run, one per address, over a bounded cache.

  \<^bold>\<open>Conventions.\<close> Numbers are exact rationals with NaN and the infinities: rounding to binary64
  and negative zero are not modelled, and the values carried by the RPCs are integers below
  \<open>2 ^ 53\<close>. Strings are lists of code units below 256. Objects are lists of own properties in
  insertion order. Texts are named by an English gloss, so statements compare which message is shown and not its
  wording. Exceptions are values of a sum type, promises are explicit states with one
  step per event, and what is outside the sources (the answers of RPCs, the browser's storage,
  clock, collation, JSON parser, timers and \<open>Math.pow\<close>) is an argument of the definitions that use it. All
  recursion is structural or has a termination proof; no definition uses fuel.

  \<^bold>\<open>Not modelled.\<close> The modules that only create nodes or hold style sheets, the declarations of
  the RPCs, and the text of the diagnostics report. Of the configuration page, the nodes, the count of LuCI's
  indicator and the style of the native buttons are left out. The daemon is written in
  Rust and its answers are arguments here. The other applications of the repository are
  separate programs, most of them forms over LuCI's CBI library, which is not in the
  repository.
\<close>

end
